(* ===== verification/JS_Prelude.thy ===== *)
theory JS_Prelude
  imports Complex_Main "HOL-Library.AList" "HOL-Library.Multiset" "HOL-Library.Sublist"
begin

text \<open>
  The JavaScript library functions that the modelled TypeScript calls, and the generic facts
  about them that the component theories share.

  \<^item> \<open>nullish\<close> is the operator \<open>x ?? d\<close> on an optional value, \<open>truthy_str\<close> the truth value of an
    optional string (the empty string is falsy).
  \<^item> \<open>uniq\<close> is \<open>[...new Set(xs)]\<close>: first occurrences, in insertion order.
  \<^item> \<open>new_map\<close>, \<open>AList.update\<close>, \<open>AList.delete\<close> and \<open>map_of\<close> are \<open>new Map(entries)\<close>, \<open>set\<close>,
    \<open>delete\<close> and \<open>get\<close>: a \<open>Map\<close> iterates in insertion order and \<open>set\<close> on a present key keeps its place.
  \<^item> \<open>sort_by\<close> is \<open>Array.prototype.sort\<close> with a consistent comparator, which is stable; the
    comparator \<open>localeCompare\<close> is engine code and is always an argument (\<open>le a b\<close> for
    \<open>a.localeCompare(b) <= 0\<close>), with the law it promises in the locale \<open>comparator\<close>.
  \<^item> \<open>find_index\<close>, \<open>set_at\<close>, \<open>trim\<close>, \<open>join_with\<close>, \<open>starts_with\<close> are the array and string methods.

  Strings are lists of characters; \<open>trim\<close> strips the ECMAScript white space of that range.
\<close>

named_theorems js_simps \<open>unfolding rules for the JavaScript library layer\<close>

named_theorems keyed_simps \<open>look-ups in lists of entities keyed by an identifier\<close>

section \<open>Optional values\<close>

definition nullish :: "'a option \<Rightarrow> 'a \<Rightarrow> 'a" where
  "nullish x d = (case x of None \<Rightarrow> d | Some v \<Rightarrow> v)"

lemma nullish_simps [simp, js_simps]:
  "nullish None d = d" "nullish (Some v) d = v"
  by (simp_all add: nullish_def)

definition truthy_str :: "string option \<Rightarrow> bool" where
  "truthy_str x = (case x of None \<Rightarrow> False | Some s \<Rightarrow> s \<noteq> [])"

lemma truthy_str_simps [simp, js_simps]:
  "\<not> truthy_str None" "truthy_str (Some s) \<longleftrightarrow> s \<noteq> []"
  by (simp_all add: truthy_str_def)

section \<open>Sets in insertion order\<close>

definition js_add :: "'a \<Rightarrow> 'a list \<Rightarrow> 'a list" where
  "js_add x s = (if x \<in> set s then s else s @ [x])"

definition uniq :: "'a list \<Rightarrow> 'a list" where
  "uniq xs = fold js_add xs []"

lemma set_js_add [simp]: "set (js_add x s) = insert x (set s)"
  by (auto simp: js_add_def)

lemma distinct_js_add [simp]: "distinct (js_add x s) \<longleftrightarrow> distinct s"
  by (auto simp: js_add_def)

lemma set_fold_js_add [simp]: "set (fold js_add xs s) = set s \<union> set xs"
  by (induction xs arbitrary: s) auto

lemma distinct_fold_js_add [simp]: "distinct (fold js_add xs s) \<longleftrightarrow> distinct s"
  by (induction xs arbitrary: s) auto

lemma set_uniq [simp]: "set (uniq xs) = set xs"
  by (simp add: uniq_def)

lemma distinct_uniq [simp]: "distinct (uniq xs)"
  by (simp add: uniq_def)

lemma fold_js_add_distinct:
  "distinct xs \<Longrightarrow> set s \<inter> set xs = {} \<Longrightarrow> fold js_add xs s = s @ xs"
  by (induction xs arbitrary: s) (auto simp: js_add_def)

lemma uniq_distinct_id: "distinct xs \<Longrightarrow> uniq xs = xs"
  by (simp add: uniq_def fold_js_add_distinct)

lemma uniq_idem [simp]: "uniq (uniq xs) = uniq xs"
  by (simp add: uniq_distinct_id)

lemma uniq_Nil [simp]: "uniq [] = []"
  by (simp add: uniq_def)

lemma uniq_eq_Nil [simp]: "uniq xs = [] \<longleftrightarrow> xs = []"
  by (metis set_uniq set_empty)

lemma length_uniq: "length (uniq xs) = card (set xs)"
  using distinct_card [of "uniq xs"] by simp

section \<open>Maps in insertion order\<close>

definition new_map :: "('k \<times> 'v) list \<Rightarrow> ('k \<times> 'v) list" where
  "new_map es = fold (\<lambda>(k, v) m. AList.update k v m) es []"

lemma map_of_fold_update:
  "map_of (fold (\<lambda>(k, v) m. AList.update k v m) es m) = map_of m ++ map_of (rev es)"
  by (induction es arbitrary: m) (auto simp: update_conv' map_add_def fun_eq_iff split: option.splits)

lemma map_of_new_map: "map_of (new_map es) = map_of (rev es)"
  by (simp add: new_map_def map_of_fold_update)

lemma map_of_new_map_distinct:
  "distinct (map fst es) \<Longrightarrow> map_of (new_map es) = map_of es"
  by (simp add: map_of_new_map map_of_inject_set rev_map [symmetric])

lemma distinct_fold_update:
  "distinct (map fst m) \<Longrightarrow> distinct (map fst (fold (\<lambda>(k, v) m. AList.update k v m) es m))"
  by (induction es arbitrary: m) (auto simp: distinct_update)

lemma distinct_new_map [simp]: "distinct (map fst (new_map es))"
  by (simp add: new_map_def distinct_fold_update)

lemma keys_fold_update:
  "fst ` set (fold (\<lambda>(k, v) m. AList.update k v m) es m) = fst ` set m \<union> fst ` set es"
  by (induction es arbitrary: m) (force simp: dom_update)+

lemma keys_new_map [simp]: "fst ` set (new_map es) = fst ` set es"
  by (simp add: new_map_def keys_fold_update)

section \<open>Arrays\<close>

fun find_index :: "('a \<Rightarrow> bool) \<Rightarrow> 'a list \<Rightarrow> nat option" where
  "find_index P [] = None"
| "find_index P (x # xs) = (if P x then Some 0 else map_option Suc (find_index P xs))"

lemma find_index_None: "find_index P xs = None \<longleftrightarrow> (\<forall>x\<in>set xs. \<not> P x)"
  by (induction xs) auto

lemma find_index_Some:
  "find_index P xs = Some i \<Longrightarrow> i < length xs \<and> P (xs ! i) \<and> (\<forall>x\<in>set (take i xs). \<not> P x)"
  by (induction xs arbitrary: i) (auto split: if_splits)

lemma find_index_split:
  "find_index P xs = Some i \<Longrightarrow> xs = take i xs @ xs ! i # drop (Suc i) xs"
  using find_index_Some id_take_nth_drop by metis

section \<open>Stable sorting\<close>

fun insert_by :: "('a \<Rightarrow> 'a \<Rightarrow> bool) \<Rightarrow> 'a \<Rightarrow> 'a list \<Rightarrow> 'a list" where
  "insert_by le x [] = [x]"
| "insert_by le x (y # ys) = (if le x y then x # y # ys else y # insert_by le x ys)"

definition sort_by :: "('a \<Rightarrow> 'a \<Rightarrow> bool) \<Rightarrow> 'a list \<Rightarrow> 'a list" where
  "sort_by le xs = foldr (insert_by le) xs []"

lemma sort_by_simps [simp]:
  "sort_by le [] = []" "sort_by le (x # xs) = insert_by le x (sort_by le xs)"
  by (simp_all add: sort_by_def)

lemma mset_insert_by [simp]: "mset (insert_by le x xs) = add_mset x (mset xs)"
  by (induction xs) auto

lemma mset_sort_by [simp]: "mset (sort_by le xs) = mset xs"
  by (induction xs) auto

lemma set_sort_by [simp]: "set (sort_by le xs) = set xs"
  by (metis mset_sort_by set_mset_mset)

lemma length_sort_by [simp]: "length (sort_by le xs) = length xs"
  by (metis mset_sort_by size_mset)

lemma distinct_sort_by [simp]: "distinct (sort_by le xs) \<longleftrightarrow> distinct xs"
  by (metis mset_sort_by mset_eq_imp_distinct_iff)

lemma sort_by_eq_Nil [simp]: "sort_by le xs = [] \<longleftrightarrow> xs = []"
  by (metis set_sort_by set_empty)

lemma mset_map_sort_by [simp]: "mset (map f (sort_by le xs)) = mset (map f xs)"
  by simp

lemma distinct_map_sort_by [simp]: "distinct (map f (sort_by le xs)) \<longleftrightarrow> distinct (map f xs)"
  by (metis mset_map_sort_by mset_eq_imp_distinct_iff)

text \<open>A consistent comparator, the law \<open>Array.prototype.sort\<close> asks of its argument.\<close>

locale comparator =
  fixes le :: "'a \<Rightarrow> 'a \<Rightarrow> bool"
  assumes le_total: "le a b \<or> le b a"
    and le_trans: "le a b \<Longrightarrow> le b c \<Longrightarrow> le a c"
begin

lemma le_refl: "le a a"
  using le_total by blast

lemma sorted_wrt_insert_by: "sorted_wrt le xs \<Longrightarrow> sorted_wrt le (insert_by le x xs)"
proof (induction xs)
  case Nil
  then show ?case by simp
next
  case (Cons y ys)
  have "set (insert_by le x ys) = insert x (set ys)"
    by (metis mset_insert_by set_mset_add_mset_insert set_mset_mset)
  with Cons show ?case
    using le_total le_trans by (auto; metis)
qed

lemma sorted_wrt_sort_by: "sorted_wrt le (sort_by le xs)"
  by (induction xs) (simp_all add: sorted_wrt_insert_by)

lemma insert_by_filter_equiv:
  "filter (\<lambda>y. le y k \<and> le k y) (insert_by le x ys) =
   filter (\<lambda>y. le y k \<and> le k y) (x # ys)"
proof (induction ys)
  case Nil
  then show ?case by simp
next
  case (Cons y ys)
  have "le x y" if "le x k" "le k y"
    using that le_trans by blast
  with Cons show ?case by auto
qed

text \<open>Stability: elements that compare equal keep their order.\<close>

lemma sort_by_stable:
  "filter (\<lambda>y. le y k \<and> le k y) (sort_by le xs) = filter (\<lambda>y. le y k \<and> le k y) xs"
  by (induction xs) (simp_all add: insert_by_filter_equiv)

end

text \<open>A comparator that tells different values apart, as one on identifiers.\<close>

locale strict_comparator = comparator +
  assumes le_antisym: "le a b \<Longrightarrow> le b a \<Longrightarrow> a = b"
begin

lemma sorted_wrt_mset_unique:
  "sorted_wrt le xs \<Longrightarrow> sorted_wrt le ys \<Longrightarrow> mset xs = mset ys \<Longrightarrow> xs = ys"
proof (induction xs arbitrary: ys)
  case Nil
  then show ?case by simp
next
  case (Cons x xs)
  then obtain y ys' where ys: "ys = y # ys'" by (cases ys) auto
  have "x \<in> set ys" "y \<in> set (x # xs)"
    using Cons.prems(3) ys by (metis list.set_intros(1) mset_eq_setD)+
  then have "x = y"
    using Cons.prems(1,2) ys le_antisym by auto
  with Cons ys show ?case by auto
qed

lemma sort_by_cong_mset: "mset xs = mset ys \<Longrightarrow> sort_by le xs = sort_by le ys"
  by (rule sorted_wrt_mset_unique) (simp_all add: sorted_wrt_sort_by)

lemma sort_uniq_cong_set: "set xs = set ys \<Longrightarrow> sort_by le (uniq xs) = sort_by le (uniq ys)"
  by (rule sort_by_cong_mset) (simp add: set_eq_iff_mset_eq_distinct [symmetric])

end

section \<open>Strings\<close>

definition js_ws :: "char \<Rightarrow> bool" where
  "js_ws c = (let n = (of_char c :: nat) in (9 \<le> n \<and> n \<le> 13) \<or> n = 32 \<or> n = 160)"

definition trim :: "string \<Rightarrow> string" where
  "trim s = rev (dropWhile js_ws (rev (dropWhile js_ws s)))"

fun join_with :: "string \<Rightarrow> string list \<Rightarrow> string" where
  "join_with sep [] = []"
| "join_with sep [x] = x"
| "join_with sep (x # xs) = x @ sep @ join_with sep xs"

definition starts_with :: "string \<Rightarrow> string \<Rightarrow> bool" where
  "starts_with p s = (take (length p) s = p)"

lemma starts_with_append [simp]: "starts_with p (p @ s)"
  by (simp add: starts_with_def)

lemma dropWhile_idem_hd: "(xs \<noteq> [] \<Longrightarrow> \<not> P (hd xs)) \<Longrightarrow> dropWhile P xs = xs"
  by (cases xs) auto

lemma trim_idem [simp]: "trim (trim s) = trim s"
proof -
  define a where "a = dropWhile js_ws s"
  define b where "b = dropWhile js_ws (rev a)"
  have "suffix b (rev a)" by (simp add: b_def suffix_dropWhile)
  then have "prefix (rev b) a" by (simp add: suffix_to_prefix)
  then have "rev b \<noteq> [] \<Longrightarrow> hd (rev b) = hd a \<and> a \<noteq> []"
    by (auto simp: prefix_def hd_append)
  then have "dropWhile js_ws (rev b) = rev b"
    using hd_dropWhile [of js_ws s] unfolding a_def [symmetric]
    by (intro dropWhile_idem_hd) auto
  moreover have "dropWhile js_ws b = b"
    unfolding b_def by (rule dropWhile_idem_hd) (rule hd_dropWhile)
  ultimately show ?thesis by (simp add: trim_def a_def [symmetric] b_def [symmetric])
qed

text \<open>\<open>a <= b\<close> on strings compares code units.\<close>

fun code_unit_le :: "string \<Rightarrow> string \<Rightarrow> bool" where
  "code_unit_le [] bs \<longleftrightarrow> True"
| "code_unit_le (a # as) [] \<longleftrightarrow> False"
| "code_unit_le (a # as) (b # bs) \<longleftrightarrow> (of_char a :: nat) < of_char b \<or> a = b \<and> code_unit_le as bs"

lemma code_unit_le_total: "code_unit_le a b \<or> code_unit_le b a"
  by (induction a b rule: code_unit_le.induct) (auto simp: not_less le_less)

lemma code_unit_le_antisym: "code_unit_le a b \<Longrightarrow> code_unit_le b a \<Longrightarrow> a = b"
  by (induction a b rule: code_unit_le.induct) (auto split: if_splits, (case_tac bs; simp)+)

lemma code_unit_le_trans: "code_unit_le a b \<Longrightarrow> code_unit_le b c \<Longrightarrow> code_unit_le a c"
proof (induction a arbitrary: b c)
  case (Cons x a)
  then show ?case by (cases b; cases c) auto
qed simp

interpretation cu: strict_comparator code_unit_le
  by unfold_locales (auto intro: code_unit_le_trans code_unit_le_antisym simp: code_unit_le_total)

end
