(* ===== verification/Json_Value.thy ===== *)
theory Json_Value
  imports JS_Prelude
begin

text \<open>
  JavaScript values as \<open>JSON.parse\<close> and object literals build them, and
  \<open>utils/stable_serialize.ts\<close>, the serialisation by which the patch and merge code compares
  entities.

  \<open>JUndef\<close> is \<open>undefined\<close> (an own property can hold it), \<open>JObj\<close> keeps the own properties in insertion
  order. Numbers are finite (exact rationals) or not finite. The text of a finite number
  (\<open>Number::toString\<close>) is an argument \<open>numStr\<close>; \<open>number_format\<close> states what the engine promises: equal
  texts only for equal numbers, and only the characters of a number literal.

  Main results: \<open>stableSerialize\<close> factors through the canonical form \<open>canon\<close> (object keys
  sorted), \<open>printJson\<close> is a prefix code on values without non-finite numbers, hence two such values
  serialise alike exactly when their canonical forms are equal.
\<close>

section \<open>Values\<close>

datatype js_num = Finite rat | NaN | Infinite bool

datatype json =
    JUndef
  | JNull
  | JBool bool
  | JNum js_num
  | JStr string
  | JArr "json list"
  | JObj "(string \<times> json) list"

text \<open>Reading a property: a value without it gives \<open>undefined\<close>.\<close>

fun js_prop :: "json \<Rightarrow> string \<Rightarrow> json" where
  "js_prop (JObj es) k = nullish (map_of es k) JUndef"
| "js_prop _ k = JUndef"

fun isRecord :: "json \<Rightarrow> bool" where
  "isRecord (JObj _) = True"
| "isRecord (JArr _) = True"
| "isRecord _ = False"

fun as_string :: "json \<Rightarrow> string option" where
  "as_string (JStr s) = Some s"
| "as_string _ = None"

section \<open>JSON.stringify on strings and numbers\<close>

definition hex_digit :: "nat \<Rightarrow> char" where
  "hex_digit n = ''0123456789abcdef'' ! n"

definition escape_char :: "char \<Rightarrow> string" where
  "escape_char c =
     (if c = CHR 0x22 then [CHR 0x5C, CHR 0x22]
      else if c = CHR 0x5C then [CHR 0x5C, CHR 0x5C]
      else if c = CHR 0x08 then [CHR 0x5C, CHR ''b'']
      else if c = CHR 0x09 then [CHR 0x5C, CHR ''t'']
      else if c = CHR 0x0A then [CHR 0x5C, CHR ''n'']
      else if c = CHR 0x0C then [CHR 0x5C, CHR ''f'']
      else if c = CHR 0x0D then [CHR 0x5C, CHR ''r'']
      else if (of_char c :: nat) < 32
        then [CHR 0x5C, CHR ''u'', CHR ''0'', CHR ''0'', hex_digit (of_char c div 16), hex_digit (of_char c mod 16)]
      else [c])"

definition json_quote :: "string \<Rightarrow> string" where
  "json_quote s = CHR 0x22 # concat (map escape_char s) @ [CHR 0x22]"

definition stringify_num :: "(rat \<Rightarrow> string) \<Rightarrow> js_num \<Rightarrow> string" where
  "stringify_num numStr n = (case n of Finite q \<Rightarrow> numStr q | _ \<Rightarrow> ''null'')"

section \<open>Stable serialisation\<close>

function (sequential) stableSerialize ::
  "(string \<Rightarrow> string \<Rightarrow> bool) \<Rightarrow> (rat \<Rightarrow> string) \<Rightarrow> json \<Rightarrow> string" where
  "stableSerialize le numStr JUndef = ''undefined''"
| "stableSerialize le numStr JNull = ''null''"
| "stableSerialize le numStr (JBool b) = (if b then ''true'' else ''false'')"
| "stableSerialize le numStr (JNum n) = stringify_num numStr n"
| "stableSerialize le numStr (JStr s) = json_quote s"
| "stableSerialize le numStr (JArr vs) =
     ''['' @ join_with '','' (map (stableSerialize le numStr) vs) @ '']''"
| "stableSerialize le numStr (JObj es) =
     (let entries = sort_by (\<lambda>left right. le (fst left) (fst right)) es
      in ''{'' @ join_with '','' (map (\<lambda>(key, item). json_quote key @ '':'' @ stableSerialize le numStr item) entries) @ ''}'')"
  by pat_completeness auto
termination
proof (relation "measure (\<lambda>(le, numStr, v). size v)", goal_cases)
  case 1
  then show ?case by simp
next
  case (2 le numStr vs x)
  then show ?case by (simp add: less_Suc_eq_le size_list_estimation')
next
  case (3 le numStr es entries z key item)
  then have "(key, item) \<in> set es" by simp
  then have "size_prod (\<lambda>_. 0) size (key, item) \<le> size_list (size_prod (\<lambda>_. 0) size) es"
    by (rule size_list_estimation') simp
  then show ?case by simp
qed


section \<open>The canonical form\<close>

fun canon :: "(string \<Rightarrow> string \<Rightarrow> bool) \<Rightarrow> json \<Rightarrow> json" where
  "canon le (JArr vs) = JArr (map (canon le) vs)"
| "canon le (JObj es) =
     JObj (sort_by (\<lambda>left right. le (fst left) (fst right)) (map (\<lambda>(k, v). (k, canon le v)) es))"
| "canon le v = v"

fun printJson :: "(rat \<Rightarrow> string) \<Rightarrow> json \<Rightarrow> string" where
  "printJson numStr JUndef = ''undefined''"
| "printJson numStr JNull = ''null''"
| "printJson numStr (JBool b) = (if b then ''true'' else ''false'')"
| "printJson numStr (JNum n) = stringify_num numStr n"
| "printJson numStr (JStr s) = json_quote s"
| "printJson numStr (JArr vs) = ''['' @ join_with '','' (map (printJson numStr) vs) @ '']''"
| "printJson numStr (JObj es) =
     ''{'' @ join_with '','' (map (\<lambda>(k, v). json_quote k @ '':'' @ printJson numStr v) es) @ ''}''"

fun finite_nums :: "json \<Rightarrow> bool" where
  "finite_nums (JNum n) = (case n of Finite q \<Rightarrow> True | _ \<Rightarrow> False)"
| "finite_nums (JArr vs) = list_all finite_nums vs"
| "finite_nums (JObj es) = list_all (\<lambda>(k, v). finite_nums v) es"
| "finite_nums v = True"

lemma insert_by_map:
  "(\<And>a b. le' (f a) (f b) = le a b) \<Longrightarrow> insert_by le' (f x) (map f xs) = map f (insert_by le x xs)"
  by (induction xs) auto

lemma sort_by_map:
  "(\<And>a b. le' (f a) (f b) = le a b) \<Longrightarrow> sort_by le' (map f xs) = map f (sort_by le xs)"
  by (induction xs) (auto simp: insert_by_map)

lemma stableSerialize_canon: "stableSerialize le numStr v = printJson numStr (canon le v)"
proof (induction le numStr v rule: stableSerialize.induct)
  case (7 le numStr es)
  have "sort_by (\<lambda>l r. le (fst l) (fst r)) (map (\<lambda>(k, v). (k, canon le v)) es) =
        map (\<lambda>(k, v). (k, canon le v)) (sort_by (\<lambda>l r. le (fst l) (fst r)) es)"
    by (rule sort_by_map) (auto split: prod.splits)
  with 7 show ?case
    by (auto simp: Let_def o_def split_beta intro!: arg_cong [where f = "join_with _"])
qed (simp_all add: o_def cong: map_cong)

lemma finite_nums_canon [simp]: "finite_nums (canon le v) = finite_nums v"
proof (induction le v rule: canon.induct)
  case (1 le vs)
  then show ?case by (auto simp: list_all_iff)
next
  case (2 le es)
  then show ?case by (fastforce simp: list_all_iff)
qed simp_all

section \<open>Serialisation is a prefix code\<close>

definition num_chars :: "char set" where
  "num_chars = set ''0123456789+-.e''"

definition number_format :: "(rat \<Rightarrow> string) \<Rightarrow> bool" where
  "number_format numStr \<longleftrightarrow>
     inj numStr \<and> (\<forall>q. numStr q \<noteq> [] \<and> hd (numStr q) \<in> set ''0123456789-'' \<and> set (numStr q) \<subseteq> num_chars)"

definition delimited :: "string \<Rightarrow> bool" where
  "delimited r \<longleftrightarrow> r = [] \<or> hd r \<in> set '',]}''"

lemma delimited_simps [simp]:
  "delimited []" "delimited (c # r) \<longleftrightarrow> c = CHR '','' \<or> c = CHR '']'' \<or> c = CHR ''}''"
  by (auto simp: delimited_def)

text \<open>Reading an escaped character back, to show that escaping is a prefix code.\<close>

definition hex_value :: "char \<Rightarrow> nat" where
  "hex_value c = nullish (find_index (\<lambda>d. d = c) ''0123456789abcdef'') 0"

definition unescape :: "string \<Rightarrow> (char \<times> string) option" where
  "unescape cs = (case cs of [] \<Rightarrow> None | c # r \<Rightarrow>
     if c \<noteq> CHR 0x5C then Some (c, r)
     else (case r of [] \<Rightarrow> None | e # r' \<Rightarrow>
       if e = CHR 0x22 \<or> e = CHR 0x5C then Some (e, r')
       else if e = CHR ''b'' then Some (CHR 0x08, r')
       else if e = CHR ''t'' then Some (CHR 0x09, r')
       else if e = CHR ''n'' then Some (CHR 0x0A, r')
       else if e = CHR ''f'' then Some (CHR 0x0C, r')
       else if e = CHR ''r'' then Some (CHR 0x0D, r')
       else Some (char_of (16 * hex_value (r' ! 2) + hex_value (r' ! 3)), drop 4 r')))"

lemma hex_value_digit: "n < 16 \<Longrightarrow> hex_value (hex_digit n) = n"
proof -
  assume "n < 16"
  then have "n \<in> {0, 1, 2, 3, 4, 5, 6, 7, 8, 9, 10, 11, 12, 13, 14, 15}" by (simp, arith)
  then show ?thesis
    by (elim insertE) (simp_all add: hex_value_def hex_digit_def)
qed

lemma unescape_escape: "unescape (escape_char c @ r) = Some (c, r)"
proof -
  have "char_of (16 * hex_value (hex_digit (of_char c div 16)) + hex_value (hex_digit (of_char c mod 16))) = c"
    if "(of_char c :: nat) < 32"
    using that by (simp add: hex_value_digit)
  then show ?thesis
    by (simp add: escape_char_def unescape_def)
qed

lemma escape_char_prefix: "escape_char c @ u = escape_char d @ v \<Longrightarrow> c = d \<and> u = v"
  by (metis unescape_escape option.inject prod.inject)

lemma escape_char_hd: "\<exists>x xs. escape_char c = x # xs \<and> x \<noteq> CHR 0x22"
  by (simp add: escape_char_def)

lemma escape_body_prefix:
  "concat (map escape_char s) @ CHR 0x22 # u = concat (map escape_char t) @ CHR 0x22 # v \<Longrightarrow> s = t \<and> u = v"
proof (induction s arbitrary: t)
  case Nil
  then show ?case using escape_char_hd by (cases t) (auto, metis append_Cons list.inject)
next
  case (Cons c s)
  then obtain d t' where t: "t = d # t'"
    using escape_char_hd by (cases t) (auto, metis append_Cons list.inject)
  with Cons.prems have "c = d \<and> concat (map escape_char s) @ CHR 0x22 # u = concat (map escape_char t') @ CHR 0x22 # v"
    by (intro escape_char_prefix) simp
  with Cons.IH t show ?case by blast
qed

lemma json_quote_prefix: "json_quote s @ u = json_quote t @ v \<Longrightarrow> s = t \<and> u = v"
  by (auto simp: json_quote_def dest: escape_body_prefix)

lemma num_prefix:
  assumes nf: "number_format numStr" and eq: "numStr p @ u = numStr q @ v"
    and d: "delimited u" "delimited v"
  shows "p = q \<and> u = v"
proof -
  have c: "\<forall>x \<in> set (numStr a). x \<notin> set '',]}''" for a
    using nf by (auto simp: number_format_def num_chars_def)
  have tw: "takeWhile (\<lambda>x. x \<notin> set '',]}'') (numStr a @ r) = numStr a" if "delimited r" for a r
    using c [of a] that by (subst takeWhile_append2) (auto simp: delimited_def takeWhile_eq_Nil_iff)
  have "numStr p = numStr q"
    using tw [OF d(1), of p] tw [OF d(2), of q] eq by simp
  with nf eq show ?thesis
    by (auto simp: number_format_def inj_def)
qed


lemma join_with_Cons:
  "join_with sep (x # xs) = x @ (if xs = [] then [] else sep @ join_with sep xs)"
  by (cases xs) auto

lemma join_prefix:
  assumes "\<And>x y u t. x \<in> set xs \<Longrightarrow> y \<in> set ys \<Longrightarrow> delimited u \<Longrightarrow> delimited t \<Longrightarrow>
      f x @ u = f y @ t \<Longrightarrow> x = y \<and> u = t"
    and "\<And>y. y \<in> set xs \<union> set ys \<Longrightarrow> f y \<noteq> [] \<and> hd (f y) \<noteq> c"
    and c: "c = CHR '']'' \<or> c = CHR ''}''"
    and "join_with '','' (map f xs) @ c # r = join_with '','' (map f ys) @ c # s"
  shows "xs = ys \<and> r = s"
  using assms(1,2,4)
proof (induction xs arbitrary: ys)
  case Nil
  show ?case
  proof (cases ys)
    case (Cons y ys')
    with Nil.prems(2) [of y] obtain z zs where "f y = z # zs" "z \<noteq> c"
      by (cases "f y") auto
    with Nil.prems(3) Cons show ?thesis by (simp add: join_with_Cons split: if_splits)
  qed (use Nil.prems(3) in simp)
next
  case (Cons x xs)
  note prem = Cons.prems
  show ?case
  proof (cases ys)
    case Nil
    with prem(2) [of x] obtain z zs where "f x = z # zs" "z \<noteq> c"
      by (cases "f x") auto
    with prem(3) Nil show ?thesis by (simp add: join_with_Cons split: if_splits)
  next
    case (Cons y ys')
    let ?t = "\<lambda>zs. if zs = [] then [] else '','' @ join_with '','' (map f zs)"
    have eq: "f x @ ?t xs @ c # r = f y @ ?t ys' @ c # s"
      using prem(3) Cons by (simp add: join_with_Cons)
    have "x = y \<and> ?t xs @ c # r = ?t ys' @ c # s"
      using c Cons by (intro prem(1) eq) auto
    moreover have "xs = ys' \<and> r = s"
    proof (cases "xs = [] \<or> ys' = []")
      case True
      with calculation c show ?thesis by (auto split: if_splits)
    next
      case False
      show ?thesis
      proof (rule Cons.IH)
        fix a b u t
        assume "a \<in> set xs" "b \<in> set ys'" "delimited u" "delimited t" "f a @ u = f b @ t"
        then show "a = b \<and> u = t" using Cons by (intro prem(1)) auto
      next
        fix b assume "b \<in> set xs \<union> set ys'"
        then show "f b \<noteq> [] \<and> hd (f b) \<noteq> c" using Cons by (intro prem(2)) auto
      qed (use calculation False in simp)
    qed
    ultimately show ?thesis using Cons by simp
  qed
qed

fun json_tag :: "json \<Rightarrow> string" where
  "json_tag JUndef = ''u''"
| "json_tag JNull = ''n''"
| "json_tag (JBool b) = (if b then ''t'' else ''f'')"
| "json_tag (JNum n) = ''0123456789-''"
| "json_tag (JStr s) = [CHR 0x22]"
| "json_tag (JArr vs) = ''[''"
| "json_tag (JObj es) = ''{''"

lemma printJson_tag:
  assumes "number_format numStr" "finite_nums v"
  shows "printJson numStr v \<noteq> [] \<and> hd (printJson numStr v) \<in> set (json_tag v)"
proof (cases v)
  case (JNum n)
  with assms show ?thesis
    by (cases n) (auto simp: stringify_num_def number_format_def)
qed (simp_all add: json_quote_def)

lemma printJson_same_tag:
  assumes nf: "number_format numStr" and fin: "finite_nums v" "finite_nums w"
    and eq: "printJson numStr v @ r = printJson numStr w @ s"
  shows "json_tag v = json_tag w"
proof -
  obtain c cs d ds where h: "printJson numStr v = c # cs" "c \<in> set (json_tag v)"
      "printJson numStr w = d # ds" "d \<in> set (json_tag w)"
    using printJson_tag [OF nf fin(1)] printJson_tag [OF nf fin(2)]
    by (metis list.exhaust_sel)
  with eq have "c \<in> set (json_tag v) \<inter> set (json_tag w)" by simp
  then show ?thesis by (cases v; cases w) (auto split: if_splits)
qed

theorem printJson_prefix:
  assumes nf: "number_format numStr"
  shows "finite_nums v \<Longrightarrow> finite_nums w \<Longrightarrow> delimited r \<Longrightarrow> delimited s \<Longrightarrow>
    printJson numStr v @ r = printJson numStr w @ s \<Longrightarrow> v = w \<and> r = s"
proof (induction v arbitrary: w r s)
  case (JNum n)
  note tag = printJson_same_tag [OF nf JNum.prems(1,2,5)]
  with JNum.prems obtain p m q where "n = Finite p" "w = JNum m" "m = Finite q"
    by (cases w; cases n) (auto split: js_num.splits if_splits)
  with JNum.prems num_prefix [OF nf] show ?case
    by (simp add: stringify_num_def)
next
  case (JStr x)
  note tag = printJson_same_tag [OF nf JStr.prems(1,2,5)]
  with JStr.prems show ?case
    by (cases w) (auto dest: json_quote_prefix split: if_splits)
next
  case (JArr vs)
  note tag = printJson_same_tag [OF nf JArr.prems(1,2,5)]
  then obtain ws where w: "w = JArr ws" by (cases w) (auto split: if_splits)
  have "vs = ws \<and> r = s"
  proof (rule join_prefix)
    show "join_with '','' (map (printJson numStr) vs) @ CHR '']'' # r =
        join_with '','' (map (printJson numStr) ws) @ CHR '']'' # s"
      using JArr.prems(5) w by simp
    fix x y u t
    assume "x \<in> set vs" "y \<in> set ws" "delimited u" "delimited t"
      "printJson numStr x @ u = printJson numStr y @ t"
    then show "x = y \<and> u = t"
      using JArr.prems(1,2) w by (intro JArr.IH) (auto simp: list_all_iff)
  next
    fix y assume "y \<in> set vs \<union> set ws"
    then have "finite_nums y" using JArr.prems(1,2) w by (auto simp: list_all_iff)
    from printJson_tag [OF nf this]
    show "printJson numStr y \<noteq> [] \<and> hd (printJson numStr y) \<noteq> CHR '']''"
      by (cases y) (auto split: if_splits)
  qed simp
  with w show ?case by simp
next
  case (JObj es)
  note tag = printJson_same_tag [OF nf JObj.prems(1,2,5)]
  then obtain fs where w: "w = JObj fs" by (cases w) (auto split: if_splits)
  let ?f = "\<lambda>(k, v). json_quote k @ '':'' @ printJson numStr v"
  have "es = fs \<and> r = s"
  proof (rule join_prefix [where f = ?f])
    show "join_with '','' (map ?f es) @ CHR ''}'' # r = join_with '','' (map ?f fs) @ CHR ''}'' # s"
      using JObj.prems(5) w by simp
    fix x y u t
    assume xy: "x \<in> set es" "y \<in> set fs" "delimited u" "delimited t" "?f x @ u = ?f y @ t"
    obtain k a l b where ab: "x = (k, a)" "y = (l, b)" by fastforce
    with xy have q: "k = l \<and> '':'' @ printJson numStr a @ u = '':'' @ printJson numStr b @ t"
      by (intro json_quote_prefix) simp
    have "a = b \<and> u = t"
      using xy ab q JObj.prems(1,2) w
      by (intro JObj.IH [of "(k, a)"]) (auto simp: list_all_iff)
    with q ab show "x = y \<and> u = t" by simp
  qed (auto simp: json_quote_def)
  with w show ?case by simp
next
  case JUndef
  note tag = printJson_same_tag [OF nf JUndef.prems(1,2,5)]
  with JUndef.prems(5) show ?case by (cases w) (simp_all split: if_splits)
next
  case JNull
  note tag = printJson_same_tag [OF nf JNull.prems(1,2,5)]
  with JNull.prems(5) show ?case by (cases w) (simp_all split: if_splits)
next
  case (JBool b)
  note tag = printJson_same_tag [OF nf JBool.prems(1,2,5)]
  with JBool.prems(5) show ?case by (cases w) (simp_all split: if_splits)
qed

corollary stableSerialize_eq_iff:
  assumes "number_format numStr" "finite_nums v" "finite_nums w"
  shows "stableSerialize le numStr v = stableSerialize le numStr w \<longleftrightarrow> canon le v = canon le w"
  using printJson_prefix [OF assms(1), of "canon le v" "canon le w" "[]" "[]"] assms
  by (auto simp: stableSerialize_canon)

end
