(* ===== verification/Document_Model.thy ===== *)
theory Document_Model
  imports Json_Value
begin

text \<open>
  The document of \<open>domain/types.ts\<close>: cards, edges, islands, evidence links, relation summaries,
  logs and the document record, with the source's fields. An optional property (\<open>p?: T\<close>) is an
  \<open>option\<close>; \<open>T | null\<close> is an \<open>option\<close> too. Coordinates are exact rationals (finite numbers).
  The predicates at the end of the type file (\<open>isCanonicalCard\<close>, \<open>isSourceCard\<close>,
  \<open>resolveKnownEdgeType\<close>) follow, and \<open>nullish\<close> accessors for the optional lists.
\<close>

section \<open>Cards\<close>

record transform =
  panX :: rat
  panY :: rat
  zoom :: rat

datatype hold_state = Held | Pending | Shelved

record card_meta =
  meta_seq :: "rat option"
  meta_source :: "string option"

record card_ka =
  ka_voice :: "string option"
  ka_value :: "string option"

datatype claim_type = Fact | Claim | Hypothesis | UnknownClaim

record card =
  card_id :: string
  card_text :: string
  card_x :: rat
  card_y :: rat
  claimType :: "claim_type option"
  mergedIntoCardId :: "string option"
  repOf :: "string list option"
  canonicalId :: "string option"
  sources :: "string list option"
  card_critique :: "string option"
  card_critiqueTags :: "string list option"
  textReviewed :: "bool option"
  holdState :: "hold_state option"
  card_meta_of :: "card_meta option"
  card_ka_of :: "card_ka option"

record shelf_entry =
  shelf_cardId :: string
  shelvedAt :: string
  shelf_reason :: "string option"

definition isCanonicalCard :: "card \<Rightarrow> bool" where
  "isCanonicalCard c = (canonicalId c = None)"

definition isSourceCard :: "card \<Rightarrow> bool" where
  "isSourceCard c = (canonicalId c \<noteq> None)"

definition CRITIQUE_TAGS :: "string list" where
  "CRITIQUE_TAGS = [''too_close'', ''too_far'', ''not_the_same'', ''feels_off'', ''no_articulable_reason'']"

section \<open>Edges and islands\<close>

definition KNOWN_EDGE_TYPES :: "string list" where
  "KNOWN_EDGE_TYPES = [''related'', ''negate'', ''causal'', ''mutual'', ''equivalence'']"

definition resolveKnownEdgeType :: "string \<Rightarrow> string" where
  "resolveKnownEdgeType t = (if t \<in> set KNOWN_EDGE_TYPES then t else ''related'')"

datatype endpoint_kind = CardEnd | IslandEnd

record edge =
  edge_id :: string
  fromId :: string
  toId :: string
  fromKind :: "endpoint_kind option"
  toKind :: "endpoint_kind option"
  edge_type :: string

record point =
  pt_x :: rat
  pt_y :: rat

record shape_generated_from =
  gen_cardIds :: "string list"
  versionToken :: string

datatype island_shape =
    RectShape "shape_generated_from option"
  | PolygonShape "point list" "shape_generated_from option"

datatype island_geometry =
    RectGeometry "rat option" "rat option" "rat option" "rat option"
  | PolygonGeometry "point list"

datatype summary_change_kind = SManual | SAi | SImport | SUnknown

record summary_history_entry =
  she_id :: string
  she_createdAt :: string
  she_fromText :: "string option"
  she_toText :: "string option"
  she_fromReviewed :: "bool option"
  she_toReviewed :: "bool option"
  she_changeKind :: summary_change_kind
  she_note :: "string option"
  she_groundingIds :: "string list option"

datatype cue_kind = HandDrawn | UserImage | PresetSvg | Emoji

record visual_cue =
  cue_kind_of :: cue_kind
  cueId :: string
  altText :: string
  imageRef :: "string option"

record island =
  island_id :: string
  cardIds :: "string list"
  parentIslandId :: "string option"
  placardCardId :: "string option"
  collapsed :: "bool option"
  island_title :: "string option"
  titleReviewed :: "bool option"
  summaryText :: "string option"
  summaryReviewed :: "bool option"
  summaryGrounding :: "string list option"
  summaryHistory :: "summary_history_entry list option"
  imageUrl :: "string option"
  imageReviewed :: "bool option"
  island_critique :: "string option"
  island_critiqueTags :: "string list option"
  geometry :: "island_geometry option"
  shape :: "island_shape option"
  shapeStale :: "bool option"
  representativeCue :: "visual_cue option"

section \<open>Evidence links and relation summaries\<close>

datatype evidence_type = Supports | Contradicts

datatype contradiction_state = CUnconfirmed | CConfirmed | CHeld | CResolved

record evidence_link =
  link_id :: string
  link_type :: evidence_type
  fromCardId :: string
  toCardId :: string
  link_note :: "string option"
  link_createdAt :: "string option"
  contradictionState :: "contradiction_state option"

datatype relation_change_kind = RAi | RManual | RRollback | RImport | RUnknown

record relation_history_entry =
  rhe_id :: string
  rhe_createdAt :: string
  rhe_changeKind :: relation_change_kind
  rhe_fromText :: "string option"
  rhe_toText :: "string option"
  rhe_fromReviewed :: "bool option"
  rhe_toReviewed :: "bool option"
  warningsSnapshot :: "string list option"
  groundingCardIdsSnapshot :: "string list option"
  groundingEdgeIdsSnapshot :: "string list option"
  rhe_note :: "string option"

record relation_summary =
  rel_id :: string
  rel_createdAt :: string
  islandAId :: string
  islandBId :: string
  relationType :: string
  derived :: bool
  rel_text :: string
  rel_reviewed :: bool
  groundingCardIds :: "string list"
  groundingEdgeIds :: "string list"
  rel_warnings :: "string list option"
  sourceSignature :: string
  rel_history :: "relation_history_entry list option"

section \<open>Review records\<close>

record critique_input =
  critiqueId :: string
  critique_targetRef :: string
  critiqueType :: string
  critique_createdAt :: string
  critique_iteration :: rat
  critique_comment :: "string option"
  constraintHints :: "string list option"

datatype diff_op_type = DAdd | DRemove | DMove | DRegroup | DRelabel

record reproposal_diff_op =
  diffOp_id :: string
  diffOp_type :: diff_op_type
  diffOp_targetRef :: string
  diffOp_before :: "(string \<times> json) list option"
  diffOp_after :: "(string \<times> json) list option"
  diffOp_rationale :: "string option"

record reproposal_diff =
  proposalId :: string
  basedOnIteration :: rat
  diffOps :: "reproposal_diff_op list"
  traceKey :: string
  diff_rationale :: "string option"

record review_attribution =
  human_reviewed :: bool
  reviewedAt :: "string option"
  reviewerRef :: string
  auditRecordedAt :: string
  reviewContext :: "string option"
  ownerRef :: "string option"

datatype check_severity = CkInfo | CkWarn | CkError

datatype check_direction = B_missing_in_A | A_missing_in_B

record narrative_check_issue =
  ck_severity :: check_severity
  ck_message :: string
  ck_references :: "(string \<times> endpoint_kind) list option"
  ck_direction :: "check_direction option"

record narrative_check =
  ck_id :: string
  ck_createdAt :: string
  ck_issues :: "narrative_check_issue list"
  ck_counts :: "(rat \<times> rat) option"

record narrative =
  narr_id :: string
  narr_title :: string
  narr_text :: string
  narr_createdAt :: "string option"
  basedOnReadingOrder :: "string list option"
  narr_reviewed :: bool
  narr_checks :: "narrative_check list option"

datatype void_kind =
  UnintegratedCard | OrphanedIsland | UnspokenIsland | UnexplainedRelation | UnreviewedContent

record void_entry =
  void_id :: string
  void_kind_of :: void_kind
  void_title :: string
  void_detail :: string
  void_cardIds :: "string list option"
  void_islandIds :: "string list option"
  void_resolved :: "bool option"
  void_createdAt :: string

datatype signal_review_status = SigAccepted | SigHeld | SigRejected

record signal_decision =
  signatureKey :: string
  sig_status :: signal_review_status
  sig_decidedAt :: string

datatype merge_decision = Accept | Partial | Reject | Defer

datatype merge_method = NearDuplicate | KernelFusion

datatype resolved_by = ByRepOf | ByMergedIntoCardId | ByFallback | Unresolved

record merge_decision_entry =
  dec_id :: string
  decisionId :: "string option"
  groupId :: string
  decision :: merge_decision
  dec_action :: "merge_decision option"
  decidedAt :: string
  decidedBy :: "string option"
  dec_cardIds :: "string list"
  selectedCardIds :: "string list option"
  mergedTextDraft :: string
  editedText :: string
  dec_note :: "string option"
  snapshotVersion :: "string option"
  rationale :: "string option"
  mergeMethod :: "merge_method option"
  representativeCardId :: "string option"
  representativeResolvedBy :: "resolved_by option"
  sourceCardIds :: "string list option"
  missingSourceCardIds :: "string list option"

section \<open>Patch log\<close>

record patch_stats =
  upsertCards :: nat
  deleteCards :: nat
  upsertIslands :: nat
  deleteIslands :: nat
  upsertEdges :: nat
  deleteEdges :: nat
  upsertRelationSummaries :: nat
  deleteRelationSummaries :: nat
  upsertEvidenceLinks :: nat
  deleteEvidenceLinks :: nat

record conflict_meta =
  totalConflicts :: nat
  chosenYours :: nat
  chosenTheirs :: nat
  chosenSkip :: nat

record patch_log_entry =
  log_id :: string
  log_createdAt :: string
  patchVersion :: string
  log_patchTitle :: "string option"
  log_baseDocSignature :: "string option"
  patchSourceSignature :: "string option"
  log_appliedOpIds :: "string list"
  log_stats :: patch_stats
  log_conflictMeta :: "conflict_meta option"
  log_note :: "string option"

section \<open>The document\<close>

record document =
  doc_id :: string
  doc_title :: "string option"
  doc_createdAt :: string
  updatedAt :: string
  doc_transform :: transform
  cards :: "card list"
  edges :: "edge list"
  islands :: "island list"
  readingOrder :: "string list option"
  narratives :: "narrative list option"
  relationSummaries :: "relation_summary list option"
  evidenceLinks :: "evidence_link list option"
  patchApplyLog :: "patch_log_entry list option"
  mergeSuggestionDecisions :: "merge_decision_entry list option"
  critiqueInputs :: "critique_input list option"
  reproposalDiffs :: "reproposal_diff list option"
  reviewAttribution :: "review_attribution option"
  deterministicTieBreak :: "string list option"
  shelf :: "shelf_entry list option"
  signalDecisions :: "signal_decision list option"
  voids :: "void_entry list option"

abbreviation evidence_of :: "document \<Rightarrow> evidence_link list" where
  "evidence_of d \<equiv> nullish (evidenceLinks d) []"

abbreviation relations_of :: "document \<Rightarrow> relation_summary list" where
  "relations_of d \<equiv> nullish (relationSummaries d) []"

section \<open>Small documents, for examples\<close>

abbreviation mk_card :: "string \<Rightarrow> string \<Rightarrow> rat \<Rightarrow> rat \<Rightarrow> card" where
  "mk_card i t x y \<equiv> \<lparr>card_id = i, card_text = t, card_x = x, card_y = y, claimType = None,
     mergedIntoCardId = None, repOf = None, canonicalId = None, sources = None, card_critique = None,
     card_critiqueTags = None, textReviewed = None, holdState = None, card_meta_of = None,
     card_ka_of = None\<rparr>"

abbreviation mk_island :: "string \<Rightarrow> string list \<Rightarrow> island" where
  "mk_island i cs \<equiv> \<lparr>island_id = i, cardIds = cs, parentIslandId = None, placardCardId = None,
     collapsed = None, island_title = None, titleReviewed = None, summaryText = None,
     summaryReviewed = None, summaryGrounding = None, summaryHistory = None, imageUrl = None,
     imageReviewed = None, island_critique = None, island_critiqueTags = None, geometry = None,
     shape = None, shapeStale = None, representativeCue = None\<rparr>"

abbreviation mk_edge :: "string \<Rightarrow> string \<Rightarrow> string \<Rightarrow> string \<Rightarrow> edge" where
  "mk_edge i f t ty \<equiv> \<lparr>edge_id = i, fromId = f, toId = t, fromKind = None, toKind = None, edge_type = ty\<rparr>"

abbreviation mk_link :: "string \<Rightarrow> evidence_type \<Rightarrow> string \<Rightarrow> string \<Rightarrow> evidence_link" where
  "mk_link i ty f t \<equiv> \<lparr>link_id = i, link_type = ty, fromCardId = f, toCardId = t, link_note = None,
     link_createdAt = None, contradictionState = None\<rparr>"

abbreviation mk_doc :: "card list \<Rightarrow> edge list \<Rightarrow> island list \<Rightarrow> document" where
  "mk_doc cs es is \<equiv> \<lparr>doc_id = ''d'', doc_title = None, doc_createdAt = ''t0'', updatedAt = ''t0'',
     doc_transform = \<lparr>panX = 0, panY = 0, zoom = 1\<rparr>, cards = cs, edges = es, islands = is,
     readingOrder = None, narratives = None, relationSummaries = None, evidenceLinks = None,
     patchApplyLog = None, mergeSuggestionDecisions = None, critiqueInputs = None,
     reproposalDiffs = None, reviewAttribution = None, deterministicTieBreak = None, shelf = None,
     signalDecisions = None, voids = None\<rparr>"

end
