(* ===== verification/Document_Json.thy ===== *)
theory Document_Json
  imports Document_Model
begin

text \<open>
  The entities of a document as JavaScript objects: \<open>X_fields\<close> lists the own properties that an
  entity has (\<open>Object.entries\<close>), an absent optional property gives no entry. The patch code compares
  entities through \<open>stableSerialize\<close> of these objects and the merge code compares them property by
  property. \<open>entity_json_inject\<close>: equal canonical forms only for equal entities.
\<close>

section \<open>Building objects\<close>

type_synonym fields = "(string \<times> json option) list"

definition req :: "string \<Rightarrow> json \<Rightarrow> string \<times> json option" where
  "req k v = (k, Some v)"

definition opt :: "string \<Rightarrow> ('a \<Rightarrow> json) \<Rightarrow> 'a option \<Rightarrow> string \<times> json option" where
  "opt k f x = (k, map_option f x)"

fun present :: "fields \<Rightarrow> (string \<times> json) list" where
  "present [] = []"
| "present ((k, None) # fs) = present fs"
| "present ((k, Some v) # fs) = (k, v) # present fs"

definition obj :: "fields \<Rightarrow> json" where
  "obj fs = JObj (present fs)"

definition nullable :: "('a \<Rightarrow> json) \<Rightarrow> 'a option \<Rightarrow> json" where
  "nullable f x = (case x of None \<Rightarrow> JNull | Some v \<Rightarrow> f v)"

definition jstrs :: "string list \<Rightarrow> json" where
  "jstrs xs = JArr (map JStr xs)"

definition jrat :: "rat \<Rightarrow> json" where
  "jrat q = JNum (Finite q)"

fun hold_state_str :: "hold_state \<Rightarrow> string" where
  "hold_state_str Held = ''held''"
| "hold_state_str Pending = ''pending''"
| "hold_state_str Shelved = ''shelved''"

fun claim_type_str :: "claim_type \<Rightarrow> string" where
  "claim_type_str Fact = ''fact''"
| "claim_type_str Claim = ''claim''"
| "claim_type_str Hypothesis = ''hypothesis''"
| "claim_type_str UnknownClaim = ''unknown''"

fun endpoint_kind_str :: "endpoint_kind \<Rightarrow> string" where
  "endpoint_kind_str CardEnd = ''card''"
| "endpoint_kind_str IslandEnd = ''island''"

fun summary_change_kind_str :: "summary_change_kind \<Rightarrow> string" where
  "summary_change_kind_str SManual = ''manual''"
| "summary_change_kind_str SAi = ''ai''"
| "summary_change_kind_str SImport = ''import''"
| "summary_change_kind_str SUnknown = ''unknown''"

fun cue_kind_str :: "cue_kind \<Rightarrow> string" where
  "cue_kind_str HandDrawn = ''hand_drawn''"
| "cue_kind_str UserImage = ''user_image''"
| "cue_kind_str PresetSvg = ''preset_svg''"
| "cue_kind_str Emoji = ''emoji''"

fun evidence_type_str :: "evidence_type \<Rightarrow> string" where
  "evidence_type_str Supports = ''supports''"
| "evidence_type_str Contradicts = ''contradicts''"

fun contradiction_state_str :: "contradiction_state \<Rightarrow> string" where
  "contradiction_state_str CUnconfirmed = ''unconfirmed''"
| "contradiction_state_str CConfirmed = ''confirmed''"
| "contradiction_state_str CHeld = ''held''"
| "contradiction_state_str CResolved = ''resolved''"

fun relation_change_kind_str :: "relation_change_kind \<Rightarrow> string" where
  "relation_change_kind_str RAi = ''ai''"
| "relation_change_kind_str RManual = ''manual''"
| "relation_change_kind_str RRollback = ''rollback''"
| "relation_change_kind_str RImport = ''import''"
| "relation_change_kind_str RUnknown = ''unknown''"

section \<open>Entities\<close>

definition meta_fields :: "card_meta \<Rightarrow> fields" where
  "meta_fields m = [opt ''seq'' jrat (meta_seq m), opt ''source'' JStr (meta_source m)]"

definition ka_fields :: "card_ka \<Rightarrow> fields" where
  "ka_fields k = [opt ''voice'' JStr (ka_voice k), opt ''value'' JStr (ka_value k)]"

definition card_fields :: "card \<Rightarrow> fields" where
  "card_fields c =
     [req ''id'' (JStr (card_id c)), req ''text'' (JStr (card_text c)), req ''x'' (jrat (card_x c)), req ''y'' (jrat (card_y c)),
      opt ''claimType'' (\<lambda>t. JStr (claim_type_str t)) (claimType c),
      opt ''mergedIntoCardId'' JStr (mergedIntoCardId c),
      opt ''repOf'' jstrs (repOf c),
      opt ''canonicalId'' JStr (canonicalId c),
      opt ''sources'' jstrs (sources c),
      opt ''critique'' JStr (card_critique c),
      opt ''critiqueTags'' jstrs (card_critiqueTags c),
      opt ''textReviewed'' JBool (textReviewed c),
      opt ''holdState'' (\<lambda>h. JStr (hold_state_str h)) (holdState c),
      opt ''meta'' (\<lambda>m. obj (meta_fields m)) (card_meta_of c),
      opt ''ka'' (\<lambda>k. obj (ka_fields k)) (card_ka_of c)]"

definition edge_fields :: "edge \<Rightarrow> fields" where
  "edge_fields e =
     [req ''id'' (JStr (edge_id e)), req ''fromId'' (JStr (fromId e)), req ''toId'' (JStr (toId e)),
      opt ''fromKind'' (\<lambda>k. JStr (endpoint_kind_str k)) (fromKind e),
      opt ''toKind'' (\<lambda>k. JStr (endpoint_kind_str k)) (toKind e),
      req ''type'' (JStr (edge_type e))]"

definition point_json :: "point \<Rightarrow> json" where
  "point_json p = obj [req ''x'' (jrat (pt_x p)), req ''y'' (jrat (pt_y p))]"

definition generated_json :: "shape_generated_from \<Rightarrow> json" where
  "generated_json g = obj [req ''cardIds'' (jstrs (gen_cardIds g)), req ''versionToken'' (JStr (versionToken g))]"

definition shape_fields :: "island_shape \<Rightarrow> fields" where
  "shape_fields s = (case s of
     RectShape g \<Rightarrow> [req ''kind'' (JStr ''rect''), (''points'', None), opt ''generatedFrom'' generated_json g]
   | PolygonShape ps g \<Rightarrow>
       [req ''kind'' (JStr ''polygon''), req ''points'' (JArr (map point_json ps)), opt ''generatedFrom'' generated_json g])"

definition geometry_fields :: "island_geometry \<Rightarrow> fields" where
  "geometry_fields g = (case g of
     RectGeometry x y w h \<Rightarrow>
       [req ''type'' (JStr ''rect''), opt ''x'' jrat x, opt ''y'' jrat y, opt ''w'' jrat w, opt ''h'' jrat h, (''points'', None)]
   | PolygonGeometry ps \<Rightarrow>
       [req ''type'' (JStr ''polygon''), (''x'', None), (''y'', None), (''w'', None), (''h'', None),
        req ''points'' (JArr (map point_json ps))])"

definition summary_history_json :: "summary_history_entry \<Rightarrow> json" where
  "summary_history_json h = obj (
     [req ''id'' (JStr (she_id h)), req ''createdAt'' (JStr (she_createdAt h)),
      req ''fromText'' (nullable JStr (she_fromText h)), req ''toText'' (nullable JStr (she_toText h)),
      req ''fromReviewed'' (nullable JBool (she_fromReviewed h)), req ''toReviewed'' (nullable JBool (she_toReviewed h)),
      req ''changeKind'' (JStr (summary_change_kind_str (she_changeKind h))),
      opt ''note'' JStr (she_note h),
      opt ''groundingIds'' jstrs (she_groundingIds h)])"

definition cue_json :: "visual_cue \<Rightarrow> json" where
  "cue_json q = obj (
     [req ''kind'' (JStr (cue_kind_str (cue_kind_of q))), req ''cueId'' (JStr (cueId q)), req ''altText'' (JStr (altText q)),
      opt ''imageRef'' JStr (imageRef q)])"

definition island_fields :: "island \<Rightarrow> fields" where
  "island_fields i =
     [req ''id'' (JStr (island_id i)), req ''cardIds'' (jstrs (cardIds i)),
      opt ''parentIslandId'' JStr (parentIslandId i),
      opt ''placardCardId'' JStr (placardCardId i),
      opt ''collapsed'' JBool (collapsed i),
      opt ''title'' JStr (island_title i),
      opt ''titleReviewed'' JBool (titleReviewed i),
      opt ''summaryText'' JStr (summaryText i),
      opt ''summaryReviewed'' JBool (summaryReviewed i),
      opt ''summaryGrounding'' jstrs (summaryGrounding i),
      opt ''summaryHistory'' (\<lambda>hs. JArr (map summary_history_json hs)) (summaryHistory i),
      opt ''imageUrl'' JStr (imageUrl i),
      opt ''imageReviewed'' JBool (imageReviewed i),
      opt ''critique'' JStr (island_critique i),
      opt ''critiqueTags'' jstrs (island_critiqueTags i),
      opt ''geometry'' (\<lambda>g. obj (geometry_fields g)) (geometry i),
      opt ''shape'' (\<lambda>s. obj (shape_fields s)) (shape i),
      opt ''shapeStale'' JBool (shapeStale i),
      opt ''representativeCue'' cue_json (representativeCue i)]"

definition link_fields :: "evidence_link \<Rightarrow> fields" where
  "link_fields l =
     [req ''id'' (JStr (link_id l)), req ''type'' (JStr (evidence_type_str (link_type l))),
      req ''fromCardId'' (JStr (fromCardId l)), req ''toCardId'' (JStr (toCardId l)),
      opt ''note'' JStr (link_note l),
      opt ''createdAt'' JStr (link_createdAt l),
      opt ''contradictionState'' (\<lambda>s. JStr (contradiction_state_str s)) (contradictionState l)]"

definition relation_history_json :: "relation_history_entry \<Rightarrow> json" where
  "relation_history_json h = obj (
     [req ''id'' (JStr (rhe_id h)), req ''createdAt'' (JStr (rhe_createdAt h)),
      req ''changeKind'' (JStr (relation_change_kind_str (rhe_changeKind h))),
      req ''fromText'' (nullable JStr (rhe_fromText h)), req ''toText'' (nullable JStr (rhe_toText h)),
      req ''fromReviewed'' (nullable JBool (rhe_fromReviewed h)), req ''toReviewed'' (nullable JBool (rhe_toReviewed h)),
      opt ''warningsSnapshot'' jstrs (warningsSnapshot h),
      opt ''groundingCardIdsSnapshot'' jstrs (groundingCardIdsSnapshot h),
      opt ''groundingEdgeIdsSnapshot'' jstrs (groundingEdgeIdsSnapshot h),
      opt ''note'' JStr (rhe_note h)])"

definition relation_fields :: "relation_summary \<Rightarrow> fields" where
  "relation_fields r =
     [req ''id'' (JStr (rel_id r)), req ''createdAt'' (JStr (rel_createdAt r)), req ''islandAId'' (JStr (islandAId r)),
      req ''islandBId'' (JStr (islandBId r)), req ''relationType'' (JStr (relationType r)), req ''derived'' (JBool (derived r)),
      req ''text'' (JStr (rel_text r)), req ''reviewed'' (JBool (rel_reviewed r)),
      req ''groundingCardIds'' (jstrs (groundingCardIds r)), req ''groundingEdgeIds'' (jstrs (groundingEdgeIds r)),
      opt ''warnings'' jstrs (rel_warnings r),
      req ''sourceSignature'' (JStr (sourceSignature r)),
      opt ''history'' (\<lambda>hs. JArr (map relation_history_json hs)) (rel_history r)]"

datatype entity =
    ECard card
  | EIsland island
  | EEdge edge
  | ERelation relation_summary
  | EEvidence evidence_link

fun entity_fields :: "entity \<Rightarrow> fields" where
  "entity_fields (ECard c) = card_fields c"
| "entity_fields (EIsland i) = island_fields i"
| "entity_fields (EEdge e) = edge_fields e"
| "entity_fields (ERelation r) = relation_fields r"
| "entity_fields (EEvidence l) = link_fields l"

definition entity_json :: "entity \<Rightarrow> json" where
  "entity_json x = obj (entity_fields x)"

section \<open>Canonical forms determine entities\<close>

lemma keys_present: "fst ` set (present fs) \<subseteq> fst ` set fs"
  by (induction fs rule: present.induct) auto

lemma map_of_present:
  "distinct (map fst fs) \<Longrightarrow> map_of (present fs) k = (case map_of fs k of None \<Rightarrow> None | Some x \<Rightarrow> x)"
proof (induction fs rule: present.induct)
  case (2 k' fs)
  have "k' \<notin> fst ` set (present fs)"
    using 2(2) keys_present [of fs] by auto
  then have "map_of (present fs) k' = None"
    by (simp add: map_of_eq_None_iff)
  with 2 show ?case by auto
qed auto

lemma distinct_present: "distinct (map fst fs) \<Longrightarrow> distinct (map fst (present fs))"
proof (induction fs rule: present.induct)
  case (3 k v fs)
  then show ?case using keys_present [of fs] by auto
qed auto

lemma canon_obj_lookup:
  assumes d: "distinct (map fst es)" "distinct (map fst fs)"
    and eq: "canon le (JObj es) = canon le (JObj fs)"
  shows "map_option (canon le) (map_of es k) = map_option (canon le) (map_of fs k)"
proof -
  let ?c = "map (\<lambda>(k, v). (k, canon le v))"
  have "mset (?c es) = mset (?c fs)"
    using arg_cong [where f = mset, OF eq [simplified]] by simp
  then have "set (?c es) = set (?c fs)" by (rule mset_eq_setD)
  moreover have "map fst (?c zs) = map fst zs" for zs :: "(string \<times> json) list"
    by (induction zs) auto
  ultimately have "map_of (?c es) = map_of (?c fs)"
    using d by (metis map_of_inject_set)
  moreover have "map_of (?c zs) k = map_option (canon le) (map_of zs k)" for zs
    by (induction zs) auto
  ultimately show ?thesis by metis
qed

lemma canon_fields:
  assumes keys: "map fst F = map fst G" and d: "distinct (map fst F)"
    and eq: "canon le (obj F) = canon le (obj G)"
  shows "map (\<lambda>(k, x). map_option (canon le) x) F = map (\<lambda>(k, x). map_option (canon le) x) G"
proof (rule nth_equalityI)
  show len: "length (map (\<lambda>(k, x). map_option (canon le) x) F) = length (map (\<lambda>(k, x). map_option (canon le) x) G)"
    using keys by (metis length_map)
  fix i assume "i < length (map (\<lambda>(k, x). map_option (canon le) x) F)"
  then have i: "i < length F" "i < length G" using len by auto
  obtain k x where F: "F ! i = (k, x)" by (cases "F ! i")
  moreover have "fst (G ! i) = k" using keys i F by (metis fst_conv nth_map)
  ultimately obtain y where G: "G ! i = (k, y)" by (cases "G ! i") auto
  have dG: "distinct (map fst G)" using d keys by simp
  have "map_of F k = Some x" "map_of G k = Some y"
    using F G i d dG by (metis map_of_eq_Some_iff nth_mem)+
  with canon_obj_lookup [OF distinct_present [OF d] distinct_present [OF dG] eq [unfolded obj_def], of k]
  have "map_option (canon le) x = map_option (canon le) y"
    by (simp add: map_of_present d dG)
  with F G i show "map (\<lambda>(k, x). map_option (canon le) x) F ! i = map (\<lambda>(k, x). map_option (canon le) x) G ! i"
    by simp
qed

definition cinj :: "(string \<Rightarrow> string \<Rightarrow> bool) \<Rightarrow> ('a \<Rightarrow> json) \<Rightarrow> bool" where
  "cinj le f \<longleftrightarrow> (\<forall>a b. canon le (f a) = canon le (f b) \<longrightarrow> a = b)"

lemma cinjD: "cinj le f \<Longrightarrow> canon le (f a) = canon le (f b) \<longleftrightarrow> a = b"
  by (auto simp: cinj_def)

lemma cinj_opt: "cinj le f \<Longrightarrow> map_option (canon le) (map_option f x) = map_option (canon le) (map_option f y) \<longleftrightarrow> x = y"
  by (cases x; cases y) (auto simp: cinj_def)

lemma cinj_base [simp, intro]:
  "cinj le JStr" "cinj le JBool" "cinj le jrat" "cinj le jstrs"
  by (auto simp: cinj_def jrat_def jstrs_def o_def inj_def dest!: map_injective)


lemma cinj_enum [simp, intro]:
  "cinj le (\<lambda>t. JStr (claim_type_str t))" "cinj le (\<lambda>h. JStr (hold_state_str h))"
  "cinj le (\<lambda>k. JStr (endpoint_kind_str k))" "cinj le (\<lambda>s. JStr (contradiction_state_str s))"
proof -
  show "cinj le (\<lambda>t. JStr (claim_type_str t))"
    unfolding cinj_def by (intro allI, case_tac a; case_tac b) simp_all
  show "cinj le (\<lambda>h. JStr (hold_state_str h))"
    unfolding cinj_def by (intro allI, case_tac a; case_tac b) simp_all
  show "cinj le (\<lambda>k. JStr (endpoint_kind_str k))"
    unfolding cinj_def by (intro allI, case_tac a; case_tac b) simp_all
  show "cinj le (\<lambda>s. JStr (contradiction_state_str s))"
    unfolding cinj_def by (intro allI, case_tac a; case_tac b) simp_all
qed

lemma enum_str_inject [simp]:
  "evidence_type_str a = evidence_type_str b \<longleftrightarrow> a = b"
  "summary_change_kind_str s = summary_change_kind_str t \<longleftrightarrow> s = t"
  "cue_kind_str p = cue_kind_str q \<longleftrightarrow> p = q"
  "relation_change_kind_str u = relation_change_kind_str v \<longleftrightarrow> u = v"
proof -
  show "evidence_type_str a = evidence_type_str b \<longleftrightarrow> a = b" by (cases a; cases b) simp_all
  show "summary_change_kind_str s = summary_change_kind_str t \<longleftrightarrow> s = t" by (cases s; cases t) simp_all
  show "cue_kind_str p = cue_kind_str q \<longleftrightarrow> p = q" by (cases p; cases q) simp_all
  show "relation_change_kind_str u = relation_change_kind_str v \<longleftrightarrow> u = v" by (cases u; cases v) simp_all
qed

lemma cinj_arr: "cinj le f \<Longrightarrow> cinj le (\<lambda>xs. JArr (map f xs))"
  unfolding cinj_def by (auto dest!: map_injective simp: o_def inj_def)

lemma canon_atoms [simp]:
  "canon le (jrat q) = jrat q" "canon le (jstrs xs) = jstrs xs"
  "jrat p = jrat q \<longleftrightarrow> p = q" "jstrs xs = jstrs ys \<longleftrightarrow> xs = ys"
  by (auto simp: jrat_def jstrs_def o_def inj_def dest!: map_injective)

lemma canon_nullable [simp]:
  "canon le (nullable JStr x) = nullable JStr x" "canon le (nullable JBool b) = nullable JBool b"
  "nullable JStr x = nullable JStr y \<longleftrightarrow> x = y" "nullable JBool b = nullable JBool c \<longleftrightarrow> b = c"
  by (auto simp: nullable_def split: option.splits)

lemmas entry_simps = req_def opt_def cinj_opt

lemma cinj_objI:
  assumes "\<And>a b. map fst (F a) = map fst (F b)" "\<And>a. distinct (map fst (F a))"
    and "\<And>a b. map (\<lambda>(k, x). map_option (canon le) x) (F a) = map (\<lambda>(k, x). map_option (canon le) x) (F b) \<Longrightarrow> a = b"
  shows "cinj le (\<lambda>a. obj (F a))"
  using assms canon_fields unfolding cinj_def by metis

lemma cinj_meta: "cinj le (\<lambda>m. obj (meta_fields m))"
  by (rule cinj_objI) (auto simp: meta_fields_def entry_simps intro: card_meta.equality)

lemma cinj_ka: "cinj le (\<lambda>m. obj (ka_fields m))"
  by (rule cinj_objI) (auto simp: ka_fields_def entry_simps intro: card_ka.equality)

lemma cinj_card: "cinj le (\<lambda>c. obj (card_fields c))"
  by (rule cinj_objI) (auto simp: card_fields_def entry_simps cinj_meta cinj_ka intro: card.equality)

lemma cinj_edge: "cinj le (\<lambda>c. obj (edge_fields c))"
  by (rule cinj_objI) (auto simp: edge_fields_def entry_simps intro: edge.equality)

lemma cinj_point: "cinj le point_json"
  unfolding point_json_def [abs_def]
  by (rule cinj_objI) (auto simp: entry_simps intro: point.equality)

lemma cinj_generated: "cinj le generated_json"
  unfolding generated_json_def [abs_def]
  by (rule cinj_objI) (auto simp: entry_simps intro: shape_generated_from.equality)

lemma map_canon_point [simp]: "map (canon le \<circ> point_json) ps = map (canon le \<circ> point_json) qs \<longleftrightarrow> ps = qs"
  using cinj_arr [OF cinj_point, of le, THEN cinjD, of ps qs] by simp

lemma cinj_shape: "cinj le (\<lambda>s. obj (shape_fields s))"
  by (rule cinj_objI)
    (auto simp: shape_fields_def entry_simps cinj_generated split: island_shape.splits)

lemma cinj_geometry: "cinj le (\<lambda>s. obj (geometry_fields s))"
  by (rule cinj_objI)
    (auto simp: geometry_fields_def entry_simps split: island_geometry.splits)

lemma cinj_summary_history: "cinj le summary_history_json"
  unfolding summary_history_json_def [abs_def]
  by (rule cinj_objI) (auto simp: entry_simps intro: summary_history_entry.equality)

lemma cinj_cue: "cinj le cue_json"
  unfolding cue_json_def [abs_def]
  by (rule cinj_objI) (auto simp: entry_simps intro: visual_cue.equality)

lemma cinj_island: "cinj le (\<lambda>c. obj (island_fields c))"
  by (rule cinj_objI)
    (auto simp: island_fields_def entry_simps cinj_geometry cinj_shape cinj_cue
      cinj_arr [OF cinj_summary_history] intro: island.equality)

lemma cinj_link: "cinj le (\<lambda>c. obj (link_fields c))"
  by (rule cinj_objI) (auto simp: link_fields_def entry_simps intro: evidence_link.equality)

lemma cinj_relation_history: "cinj le relation_history_json"
  unfolding relation_history_json_def [abs_def]
  by (rule cinj_objI) (auto simp: entry_simps intro: relation_history_entry.equality)

lemma cinj_relation: "cinj le (\<lambda>c. obj (relation_fields c))"
  by (rule cinj_objI)
    (auto simp: relation_fields_def entry_simps cinj_arr [OF cinj_relation_history] intro: relation_summary.equality)

lemmas cinj_entities = cinj_card cinj_island cinj_edge cinj_relation cinj_link


section \<open>Comparing entities by their serialisation\<close>

fun same_kind :: "entity \<Rightarrow> entity \<Rightarrow> bool" where
  "same_kind (ECard _) (ECard _) = True"
| "same_kind (EIsland _) (EIsland _) = True"
| "same_kind (EEdge _) (EEdge _) = True"
| "same_kind (ERelation _) (ERelation _) = True"
| "same_kind (EEvidence _) (EEvidence _) = True"
| "same_kind _ _ = False"

lemma canon_entity_inject:
  "same_kind a b \<Longrightarrow> canon le (entity_json a) = canon le (entity_json b) \<longleftrightarrow> a = b"
  by (cases a; cases b) (auto simp: entity_json_def cinj_entities [THEN cinjD])

lemma finite_nums_obj:
  "finite_nums (obj fs) \<longleftrightarrow> (\<forall>(k, x) \<in> set fs. \<forall>v. x = Some v \<longrightarrow> finite_nums v)"
  unfolding obj_def by (induction fs rule: present.induct) auto

lemma finite_nums_atoms [simp]:
  "finite_nums (jrat q)" "finite_nums (jstrs xs)" "finite_nums (nullable JStr s)" "finite_nums (nullable JBool b)"
  by (auto simp: jrat_def jstrs_def nullable_def list_all_iff split: option.splits)

lemma finite_nums_parts [simp]:
  "finite_nums (point_json p)" "finite_nums (generated_json g)" "finite_nums (obj (shape_fields s))"
  "finite_nums (obj (geometry_fields gm))" "finite_nums (summary_history_json h)" "finite_nums (cue_json q)"
  "finite_nums (relation_history_json rh)" "finite_nums (obj (meta_fields m))" "finite_nums (obj (ka_fields ka))"
proof -
  show p: "finite_nums (point_json p)" for p by (simp add: point_json_def finite_nums_obj req_def)
  show g: "finite_nums (generated_json g)" for g by (simp add: generated_json_def finite_nums_obj req_def)
  show "finite_nums (obj (shape_fields s))"
    by (cases s) (auto simp: shape_fields_def finite_nums_obj req_def opt_def list_all_iff p g)
  show "finite_nums (obj (geometry_fields gm))"
    by (cases gm) (auto simp: geometry_fields_def finite_nums_obj req_def opt_def list_all_iff p)
qed (auto simp: summary_history_json_def cue_json_def relation_history_json_def meta_fields_def
      ka_fields_def finite_nums_obj req_def opt_def)

lemma finite_nums_entity [simp]: "finite_nums (entity_json x)"
  unfolding entity_json_def
  by (subst finite_nums_obj, cases x)
    (auto simp: card_fields_def island_fields_def edge_fields_def relation_fields_def
      link_fields_def req_def opt_def list_all_iff)

fun value_json :: "entity option \<Rightarrow> json" where
  "value_json None = JNull"
| "value_json (Some x) = entity_json x"

lemma stableSerialize_value_eq:
  assumes "number_format numStr" and "\<And>x y. a = Some x \<Longrightarrow> b = Some y \<Longrightarrow> same_kind x y"
  shows "stableSerialize le numStr (value_json a) = stableSerialize le numStr (value_json b) \<longleftrightarrow> a = b"
proof -
  have "finite_nums (value_json x)" for x by (cases x) auto
  then have "stableSerialize le numStr (value_json a) = stableSerialize le numStr (value_json b)
      \<longleftrightarrow> canon le (value_json a) = canon le (value_json b)"
    using assms(1) by (intro stableSerialize_eq_iff)
  also have "\<dots> \<longleftrightarrow> a = b"
    using assms(2) canon_entity_inject
    by (cases a; cases b) (auto simp: entity_json_def obj_def)
  finally show ?thesis .
qed

end
