(* ===== verification/Keyed_Store.thy ===== *)
theory Keyed_Store
  imports JS_Prelude
begin

text \<open>
  The interface shared by the collections of the program that hold entities under an identifier:
  the arrays of a document (\<open>find\<close>, \<open>upsertById\<close>, \<open>filter\<close>) and the \<open>Map\<close>s that the patch linter
  builds from them (\<open>get\<close>, \<open>set\<close>, \<open>delete\<close>). The abstract specification of both is a partial function
  from identifiers to entities; \<open>get\<close> is the abstraction function. A client that only edits a store
  sees the same contents whichever implementation it runs on (\<open>run_edits_abs\<close>).
\<close>

datatype 'v edit = Put string 'v | Del string

fun run_edits :: "(string \<Rightarrow> 'v \<Rightarrow> 's \<Rightarrow> 's) \<Rightarrow> (string \<Rightarrow> 's \<Rightarrow> 's) \<Rightarrow> 'v edit list \<Rightarrow> 's \<Rightarrow> 's" where
  "run_edits put del [] s = s"
| "run_edits put del (Put k v # es) s = run_edits put del es (put k v s)"
| "run_edits put del (Del k # es) s = run_edits put del es (del k s)"

lemma run_edits_append:
  "run_edits put del (es @ fs) s = run_edits put del fs (run_edits put del es s)"
proof (induction es arbitrary: s)
  case (Cons e es)
  then show ?case by (cases e) simp_all
qed simp

fun edit_map :: "'v edit list \<Rightarrow> (string \<rightharpoonup> 'v) \<Rightarrow> (string \<rightharpoonup> 'v)" where
  "edit_map [] m = m"
| "edit_map (Put k v # es) m = edit_map es (m(k \<mapsto> v))"
| "edit_map (Del k # es) m = edit_map es (m(k := None))"

fun edit_key :: "'v edit \<Rightarrow> string" where
  "edit_key (Put k v) = k"
| "edit_key (Del k) = k"

lemma edit_map_untouched: "k \<notin> edit_key ` set es \<Longrightarrow> edit_map es m k = m k"
  by (induction es m rule: edit_map.induct) auto

definition ok_edits :: "(string \<Rightarrow> 'v \<Rightarrow> bool) \<Rightarrow> 'v edit list \<Rightarrow> bool" where
  "ok_edits ok es = list_all (\<lambda>e. case e of Put k v \<Rightarrow> ok k v | Del k \<Rightarrow> True) es"

lemma ok_edits_simps [simp]:
  "ok_edits ok []" "ok_edits ok (Put k v # es) \<longleftrightarrow> ok k v \<and> ok_edits ok es"
  "ok_edits ok (Del k # es) \<longleftrightarrow> ok_edits ok es"
  by (auto simp: ok_edits_def)

locale entity_store =
  fixes get :: "'s \<Rightarrow> string \<Rightarrow> 'v option"
    and put :: "string \<Rightarrow> 'v \<Rightarrow> 's \<Rightarrow> 's"
    and del :: "string \<Rightarrow> 's \<Rightarrow> 's"
    and ok :: "string \<Rightarrow> 'v \<Rightarrow> bool"
    and invar :: "'s \<Rightarrow> bool"
  assumes get_put: "ok k v \<Longrightarrow> get (put k v s) = (get s)(k \<mapsto> v)"
    and get_del: "get (del k s) = (get s)(k := None)"
    and invar_put: "invar s \<Longrightarrow> ok k v \<Longrightarrow> invar (put k v s)"
    and invar_del: "invar s \<Longrightarrow> invar (del k s)"
begin

lemma run_edits_abs: "ok_edits ok es \<Longrightarrow> get (run_edits put del es s) = edit_map es (get s)"
proof (induction es arbitrary: s)
  case (Cons e es)
  then show ?case by (cases e) (simp_all add: get_put get_del)
qed simp

lemma run_edits_invar: "ok_edits ok es \<Longrightarrow> invar s \<Longrightarrow> invar (run_edits put del es s)"
proof (induction es arbitrary: s)
  case (Cons e es)
  then show ?case by (cases e) (simp_all add: invar_put invar_del)
qed simp

end

section \<open>Arrays of entities\<close>

definition find_by :: "('v \<Rightarrow> string) \<Rightarrow> 'v list \<Rightarrow> string \<Rightarrow> 'v option" where
  "find_by key xs k = List.find (\<lambda>x. key x = k) xs"

definition upsertById :: "('v \<Rightarrow> string) \<Rightarrow> 'v list \<Rightarrow> 'v \<Rightarrow> 'v list" where
  "upsertById key items v =
     (case find_index (\<lambda>item. key item = key v) items of
        None \<Rightarrow> items @ [v]
      | Some index \<Rightarrow> items[index := v])"

definition remove_by :: "('v \<Rightarrow> string) \<Rightarrow> string \<Rightarrow> 'v list \<Rightarrow> 'v list" where
  "remove_by key k items = filter (\<lambda>x. key x \<noteq> k) items"

lemma find_by_simps [simp]:
  "find_by key [] k = None"
  "find_by key (x # xs) k = (if key x = k then Some x else find_by key xs k)"
  by (simp_all add: find_by_def)

lemma find_by_append:
  "find_by key (xs @ ys) k = (case find_by key xs k of None \<Rightarrow> find_by key ys k | Some x \<Rightarrow> Some x)"
  by (induction xs) auto

lemma find_by_Some: "find_by key xs k = Some x \<Longrightarrow> x \<in> set xs \<and> key x = k"
  by (induction xs) (auto split: if_splits)

lemma find_by_None: "find_by key xs k = None \<longleftrightarrow> k \<notin> key ` set xs"
  by (induction xs) auto

lemma find_by_distinct: "distinct (map key xs) \<Longrightarrow> x \<in> set xs \<Longrightarrow> find_by key xs (key x) = Some x"
  by (induction xs) auto

lemma find_by_filter:
  "distinct (map key xs) \<Longrightarrow>
     find_by key (filter P xs) k = (case find_by key xs k of None \<Rightarrow> None | Some x \<Rightarrow> if P x then Some x else None)"
proof (induction xs)
  case (Cons a xs)
  have "find_by key xs (key a) = None" using Cons.prems by (simp add: find_by_None)
  with Cons show ?case by auto
qed simp

lemma upsertById_simps [simp]:
  "upsertById key [] v = [v]"
  "upsertById key (x # xs) v = (if key x = key v then v # xs else x # upsertById key xs v)"
  by (auto simp: upsertById_def split: option.splits)

lemma find_by_upsertById: "find_by key (upsertById key xs v) k = (if k = key v then Some v else find_by key xs k)"
  by (induction xs) auto

lemma find_by_remove_by: "find_by key (remove_by key k' xs) k = (if k = k' then None else find_by key xs k)"
  by (induction xs) (auto simp: remove_by_def)

lemma keys_upsertById: "map key (upsertById key xs v) = (if key v \<in> key ` set xs then map key xs else map key xs @ [key v])"
  by (induction xs) auto

lemma distinct_upsertById: "distinct (map key xs) \<Longrightarrow> distinct (map key (upsertById key xs v))"
  by (auto simp: keys_upsertById)

lemma distinct_filter_keys: "distinct (map key xs) \<Longrightarrow> distinct (map key (filter P xs))"
  by (induction xs) auto

lemma distinct_remove_by: "distinct (map key xs) \<Longrightarrow> distinct (map key (remove_by key k xs))"
  by (simp add: remove_by_def distinct_filter_keys)

lemma set_upsertById: "set (upsertById key xs v) \<subseteq> insert v (set xs)"
  by (induction xs) auto

interpretation arr: entity_store "find_by key" "\<lambda>k v xs. upsertById key xs v" "remove_by key"
  "\<lambda>k v. key v = k" "\<lambda>xs. distinct (map key xs)" for key :: "'v \<Rightarrow> string"
  by unfold_locales
    (auto simp: fun_eq_iff find_by_upsertById find_by_remove_by distinct_upsertById distinct_remove_by)

section \<open>Maps\<close>

lemma distinct_delete_keys: "distinct (map fst m) \<Longrightarrow> distinct (map fst (AList.delete k m))"
  by (simp add: AList.delete_eq distinct_filter_keys)

interpretation jsmap: entity_store map_of AList.update AList.delete "\<lambda>k v. True" "\<lambda>m. distinct (map fst m)"
  by unfold_locales (auto simp: update_conv' delete_conv' distinct_update distinct_delete_keys)

lemma map_of_new_map_by:
  "distinct (map key xs) \<Longrightarrow> map_of (new_map (map (\<lambda>x. (key x, x)) xs)) = find_by key xs"
proof -
  assume "distinct (map key xs)"
  then have "map_of (new_map (map (\<lambda>x. (key x, x)) xs)) = map_of (map (\<lambda>x. (key x, x)) xs)"
    by (intro map_of_new_map_distinct) (simp add: o_def)
  also have "\<dots> = find_by key xs" by (induction xs) (auto simp: fun_eq_iff)
  finally show ?thesis .
qed

end
