(* ===== verification/Patch_Core.thy ===== *)
theory Patch_Core
  imports Document_Json Keyed_Store
begin

text \<open>
  \<open>domain/patch/patch_types.ts\<close>, the application half of \<open>domain/patch/patch_apply.ts\<close> and
  \<open>domain/patch/conflict_detect.ts\<close>.

  A patch operation upserts or deletes one entity. The datatype of operations is parametric in the
  payloads, because the parser (\<open>Patch_Parse\<close>) builds operations over raw values and the rest of the
  program reads them as typed entities. Functions of the JavaScript engine that the code calls
  (\<open>localeCompare\<close>, the text of a number) are the record \<open>js_engine\<close>, an argument.

  The abstract specification of a document is the look-up \<open>doc_lookup d r\<close> of an entity by its
  reference; \<open>lookup_applyPatchOp\<close> says what one operation does to it, and the three-way merge
  theorem of the root theory what a whole patch does.
\<close>

section \<open>Operations and patches\<close>

datatype ('c, 'i, 'e, 'r, 'l) gen_op =
    UpsertCard (op_id: string) 'c
  | DeleteCard (op_id: string) string
  | UpsertIsland (op_id: string) 'i
  | DeleteIsland (op_id: string) string
  | UpsertEdge (op_id: string) 'e
  | DeleteEdge (op_id: string) string
  | UpsertRelationSummary (op_id: string) 'r
  | DeleteRelationSummary (op_id: string) string
  | UpsertEvidenceLink (op_id: string) 'l
  | DeleteEvidenceLink (op_id: string) string

type_synonym patch_op = "(card, island, edge, relation_summary, evidence_link) gen_op"

datatype patch_op_kind =
    upsert_card | delete_card | upsert_island | delete_island | upsert_edge | delete_edge
  | upsert_relation_summary | delete_relation_summary | upsert_evidence_link | delete_evidence_link

fun op_kind :: "('c, 'i, 'e, 'r, 'l) gen_op \<Rightarrow> patch_op_kind" where
  "op_kind (UpsertCard _ _) = upsert_card"
| "op_kind (DeleteCard _ _) = delete_card"
| "op_kind (UpsertIsland _ _) = upsert_island"
| "op_kind (DeleteIsland _ _) = delete_island"
| "op_kind (UpsertEdge _ _) = upsert_edge"
| "op_kind (DeleteEdge _ _) = delete_edge"
| "op_kind (UpsertRelationSummary _ _) = upsert_relation_summary"
| "op_kind (DeleteRelationSummary _ _) = delete_relation_summary"
| "op_kind (UpsertEvidenceLink _ _) = upsert_evidence_link"
| "op_kind (DeleteEvidenceLink _ _) = delete_evidence_link"

record 'op patch_v1 =
  baseDocSignature :: "string option"
  patch_author :: "string option"
  authorNote :: "string option"
  sourceApp :: "string option"
  patchFingerprint :: "string option"
  patchId :: "string option"
  ops :: "'op list"

type_synonym patch = "patch_op patch_v1"

abbreviation mk_patch :: "'op list \<Rightarrow> 'op patch_v1" where
  "mk_patch os \<equiv> \<lparr>baseDocSignature = None, patch_author = None, authorNote = None, sourceApp = None,
     patchFingerprint = None, patchId = None, ops = os\<rparr>"

fun getPatchOpEntityKey :: "patch_op \<Rightarrow> string" where
  "getPatchOpEntityKey (UpsertCard _ c) = ''card:'' @ card_id c"
| "getPatchOpEntityKey (DeleteCard _ cardId) = ''card:'' @ cardId"
| "getPatchOpEntityKey (UpsertIsland _ island) = ''island:'' @ island_id island"
| "getPatchOpEntityKey (DeleteIsland _ islandId) = ''island:'' @ islandId"
| "getPatchOpEntityKey (UpsertEdge _ edge) = ''edge:'' @ edge_id edge"
| "getPatchOpEntityKey (DeleteEdge _ edgeId) = ''edge:'' @ edgeId"
| "getPatchOpEntityKey (UpsertRelationSummary _ relationSummary) = ''relSummary:'' @ sourceSignature relationSummary"
| "getPatchOpEntityKey (DeleteRelationSummary _ signature) = ''relSummary:'' @ signature"
| "getPatchOpEntityKey (UpsertEvidenceLink _ evidenceLink) = ''evidenceLink:'' @ link_id evidenceLink"
| "getPatchOpEntityKey (DeleteEvidenceLink _ evidenceLinkId) = ''evidenceLink:'' @ evidenceLinkId"

section \<open>Applying one operation\<close>

fun applyPatchOp :: "document \<Rightarrow> patch_op \<Rightarrow> document" where
  "applyPatchOp d (UpsertCard _ c) = d\<lparr>cards := upsertById card_id (cards d) c\<rparr>"
| "applyPatchOp d (DeleteCard _ cardId) =
     d\<lparr>cards := remove_by card_id cardId (cards d),
       evidenceLinks := Some (filter (\<lambda>link. fromCardId link \<noteq> cardId \<and> toCardId link \<noteq> cardId) (evidence_of d))\<rparr>"
| "applyPatchOp d (UpsertIsland _ island) = d\<lparr>islands := upsertById island_id (islands d) island\<rparr>"
| "applyPatchOp d (DeleteIsland _ islandId) = d\<lparr>islands := remove_by island_id islandId (islands d)\<rparr>"
| "applyPatchOp d (UpsertEdge _ edge) = d\<lparr>edges := upsertById edge_id (edges d) edge\<rparr>"
| "applyPatchOp d (DeleteEdge _ edgeId) = d\<lparr>edges := remove_by edge_id edgeId (edges d)\<rparr>"
| "applyPatchOp d (UpsertRelationSummary _ relationSummary) =
     d\<lparr>relationSummaries := Some (upsertById sourceSignature (relations_of d) relationSummary)\<rparr>"
| "applyPatchOp d (DeleteRelationSummary _ signature) =
     d\<lparr>relationSummaries := Some (remove_by sourceSignature signature (relations_of d))\<rparr>"
| "applyPatchOp d (UpsertEvidenceLink _ evidenceLink) =
     d\<lparr>evidenceLinks := Some (upsertById link_id (evidence_of d) evidenceLink)\<rparr>"
| "applyPatchOp d (DeleteEvidenceLink _ evidenceLinkId) =
     d\<lparr>evidenceLinks := Some (remove_by link_id evidenceLinkId (evidence_of d))\<rparr>"

section \<open>Conflict detection\<close>

record js_engine =
  eng_le :: "string \<Rightarrow> string \<Rightarrow> bool"
  eng_num :: "rat \<Rightarrow> string"

definition isEqual :: "js_engine \<Rightarrow> entity option \<Rightarrow> entity option \<Rightarrow> bool" where
  "isEqual E left right =
     (stableSerialize (eng_le E) (eng_num E) (value_json left) = stableSerialize (eng_le E) (eng_num E) (value_json right))"

fun getDocEntityByOp :: "document \<Rightarrow> patch_op \<Rightarrow> entity option" where
  "getDocEntityByOp doc (UpsertCard _ c) = map_option ECard (find_by card_id (cards doc) (card_id c))"
| "getDocEntityByOp doc (DeleteCard _ cardId) = map_option ECard (find_by card_id (cards doc) cardId)"
| "getDocEntityByOp doc (UpsertIsland _ island) = map_option EIsland (find_by island_id (islands doc) (island_id island))"
| "getDocEntityByOp doc (DeleteIsland _ islandId) = map_option EIsland (find_by island_id (islands doc) islandId)"
| "getDocEntityByOp doc (UpsertEdge _ edge) = map_option EEdge (find_by edge_id (edges doc) (edge_id edge))"
| "getDocEntityByOp doc (DeleteEdge _ edgeId) = map_option EEdge (find_by edge_id (edges doc) edgeId)"
| "getDocEntityByOp doc (UpsertRelationSummary _ relationSummary) =
     map_option ERelation (find_by sourceSignature (relations_of doc) (sourceSignature relationSummary))"
| "getDocEntityByOp doc (DeleteRelationSummary _ signature) =
     map_option ERelation (find_by sourceSignature (relations_of doc) signature)"
| "getDocEntityByOp doc (UpsertEvidenceLink _ evidenceLink) =
     map_option EEvidence (find_by link_id (evidence_of doc) (link_id evidenceLink))"
| "getDocEntityByOp doc (DeleteEvidenceLink _ evidenceLinkId) =
     map_option EEvidence (find_by link_id (evidence_of doc) evidenceLinkId)"

fun getTheirValue :: "patch_op \<Rightarrow> entity option" where
  "getTheirValue (UpsertCard _ c) = Some (ECard c)"
| "getTheirValue (DeleteCard _ _) = None"
| "getTheirValue (UpsertIsland _ island) = Some (EIsland island)"
| "getTheirValue (DeleteIsland _ _) = None"
| "getTheirValue (UpsertEdge _ edge) = Some (EEdge edge)"
| "getTheirValue (DeleteEdge _ _) = None"
| "getTheirValue (UpsertRelationSummary _ relationSummary) = Some (ERelation relationSummary)"
| "getTheirValue (DeleteRelationSummary _ _) = None"
| "getTheirValue (UpsertEvidenceLink _ evidenceLink) = Some (EEvidence evidenceLink)"
| "getTheirValue (DeleteEvidenceLink _ _) = None"

definition buildReason :: "bool \<Rightarrow> entity option \<Rightarrow> entity option \<Rightarrow> string" where
  "buildReason baseChanged yourValue theirValue =
     (if \<not> baseChanged then ''both modified''
      else if yourValue = None \<and> theirValue \<noteq> None then ''delete vs update''
      else if yourValue \<noteq> None \<and> theirValue = None then ''update vs delete''
      else ''both modified'')"

record conflict_item =
  ci_opId :: string
  ci_kind :: patch_op_kind
  ci_entityKey :: string
  baseValue :: "entity option"
  yourValue :: "entity option"
  theirValue :: "entity option"
  ci_reason :: string

record conflict_report =
  conflicts :: "conflict_item list"
  nonConflictingOpIds :: "string list"

definition detect_step :: "js_engine \<Rightarrow> document \<Rightarrow> document \<Rightarrow> patch_op \<Rightarrow> conflict_report \<Rightarrow> conflict_report" where
  "detect_step E baselineDoc currentDoc op acc =
     (let entityKey = getPatchOpEntityKey op;
          base = getDocEntityByOp baselineDoc op;
          yours = getDocEntityByOp currentDoc op;
          theirs = getTheirValue op;
          baseToYourChanged = \<not> isEqual E base yours;
          baseToTheirChanged = \<not> isEqual E base theirs;
          yourAndTheirUnequal = \<not> isEqual E yours theirs
      in if baseToYourChanged \<and> baseToTheirChanged \<and> yourAndTheirUnequal
         then acc\<lparr>conflicts := conflicts acc @
                [\<lparr>ci_opId = op_id op, ci_kind = op_kind op, ci_entityKey = entityKey, baseValue = base,
                  yourValue = yours, theirValue = theirs,
                  ci_reason = buildReason baseToYourChanged yours theirs\<rparr>]\<rparr>
         else acc\<lparr>nonConflictingOpIds := nonConflictingOpIds acc @ [op_id op]\<rparr>)"

definition detectPatchConflicts :: "js_engine \<Rightarrow> document \<Rightarrow> document \<Rightarrow> patch \<Rightarrow> conflict_report" where
  "detectPatchConflicts E baselineDoc currentDoc patch =
     fold (detect_step E baselineDoc currentDoc) (ops patch) \<lparr>conflicts = [], nonConflictingOpIds = []\<rparr>"

section \<open>Applying a patch with resolutions\<close>

datatype patch_resolution = Yours | Theirs | Skip

record apply_result_meta =
  appliedOpIds :: "string list"
  apply_stats :: patch_stats
  apply_conflictMeta :: "conflict_meta option"
  patchTitle :: "string option"
  meta_baseDocSignature :: "string option"
  meta_note :: "string option"

definition createEmptyApplyStats :: patch_stats where
  "createEmptyApplyStats = \<lparr>upsertCards = 0, deleteCards = 0, upsertIslands = 0, deleteIslands = 0,
     upsertEdges = 0, deleteEdges = 0, upsertRelationSummaries = 0, deleteRelationSummaries = 0,
     upsertEvidenceLinks = 0, deleteEvidenceLinks = 0\<rparr>"

fun incrementApplyStats :: "patch_stats \<Rightarrow> patch_op_kind \<Rightarrow> patch_stats" where
  "incrementApplyStats s upsert_card = s\<lparr>upsertCards := upsertCards s + 1\<rparr>"
| "incrementApplyStats s delete_card = s\<lparr>deleteCards := deleteCards s + 1\<rparr>"
| "incrementApplyStats s upsert_island = s\<lparr>upsertIslands := upsertIslands s + 1\<rparr>"
| "incrementApplyStats s delete_island = s\<lparr>deleteIslands := deleteIslands s + 1\<rparr>"
| "incrementApplyStats s upsert_edge = s\<lparr>upsertEdges := upsertEdges s + 1\<rparr>"
| "incrementApplyStats s delete_edge = s\<lparr>deleteEdges := deleteEdges s + 1\<rparr>"
| "incrementApplyStats s upsert_relation_summary = s\<lparr>upsertRelationSummaries := upsertRelationSummaries s + 1\<rparr>"
| "incrementApplyStats s delete_relation_summary = s\<lparr>deleteRelationSummaries := deleteRelationSummaries s + 1\<rparr>"
| "incrementApplyStats s upsert_evidence_link = s\<lparr>upsertEvidenceLinks := upsertEvidenceLinks s + 1\<rparr>"
| "incrementApplyStats s delete_evidence_link = s\<lparr>deleteEvidenceLinks := deleteEvidenceLinks s + 1\<rparr>"

record apply_state =
  nextDoc :: document
  st_applied :: "string list"
  st_stats :: patch_stats
  st_counts :: conflict_meta

definition apply_op :: "patch_op \<Rightarrow> apply_state \<Rightarrow> apply_state" where
  "apply_op op st = st\<lparr>nextDoc := applyPatchOp (nextDoc st) op, st_applied := st_applied st @ [op_id op],
     st_stats := incrementApplyStats (st_stats st) (op_kind op)\<rparr>"

definition apply_step ::
  "string set option \<Rightarrow> string set \<Rightarrow> (string \<Rightarrow> patch_resolution option) \<Rightarrow> patch_op \<Rightarrow> apply_state \<Rightarrow> apply_state" where
  "apply_step selectedOpIds conflictOpIdSet resolutions op st =
     (if (case selectedOpIds of None \<Rightarrow> False | Some sel \<Rightarrow> op_id op \<notin> sel) then st
      else if op_id op \<in> conflictOpIdSet then
        (case nullish (resolutions (op_id op)) Skip of
           Theirs \<Rightarrow> apply_op op (st\<lparr>st_counts := (st_counts st)\<lparr>chosenTheirs := chosenTheirs (st_counts st) + 1\<rparr>\<rparr>)
         | Yours \<Rightarrow> st\<lparr>st_counts := (st_counts st)\<lparr>chosenYours := chosenYours (st_counts st) + 1\<rparr>\<rparr>
         | Skip \<Rightarrow> st\<lparr>st_counts := (st_counts st)\<lparr>chosenSkip := chosenSkip (st_counts st) + 1\<rparr>\<rparr>)
      else apply_op op st)"

definition applyPatchWithResolutionsDetailed ::
  "js_engine \<Rightarrow> document \<Rightarrow> patch \<Rightarrow> (string \<Rightarrow> patch_resolution option) \<Rightarrow> document option \<Rightarrow>
     string set option \<Rightarrow> document \<times> apply_result_meta" where
  "applyPatchWithResolutionsDetailed E currentDoc patch resolutions baselineDoc selectedOpIds =
     (let conflictReport = map_option (\<lambda>b. detectPatchConflicts E b currentDoc patch) baselineDoc;
          conflictOpIdSet = set (case conflictReport of None \<Rightarrow> [] | Some r \<Rightarrow> map ci_opId (conflicts r));
          counts = \<lparr>totalConflicts = (case conflictReport of None \<Rightarrow> 0 | Some r \<Rightarrow> length (conflicts r)),
                    chosenYours = 0, chosenTheirs = 0, chosenSkip = 0\<rparr>;
          st = fold (apply_step selectedOpIds conflictOpIdSet resolutions) (ops patch)
                 \<lparr>nextDoc = currentDoc, st_applied = [], st_stats = createEmptyApplyStats, st_counts = counts\<rparr>
      in (nextDoc st, \<lparr>appliedOpIds = st_applied st, apply_stats = st_stats st,
            apply_conflictMeta = (case conflictReport of None \<Rightarrow> None | Some _ \<Rightarrow> Some (st_counts st)),
            patchTitle = None, meta_baseDocSignature = None, meta_note = None\<rparr>))"

definition applyPatchWithResolutions ::
  "js_engine \<Rightarrow> document \<Rightarrow> patch \<Rightarrow> (string \<Rightarrow> patch_resolution option) \<Rightarrow> document option \<Rightarrow>
     string set option \<Rightarrow> document" where
  "applyPatchWithResolutions E currentDoc patch resolutions baselineDoc selectedOpIds =
     fst (applyPatchWithResolutionsDetailed E currentDoc patch resolutions baselineDoc selectedOpIds)"

section \<open>The abstract document: look-up by reference\<close>

datatype entity_ref = RCard string | RIsland string | REdge string | RRelation string | REvidence string

fun op_ref :: "patch_op \<Rightarrow> entity_ref" where
  "op_ref (UpsertCard _ c) = RCard (card_id c)"
| "op_ref (DeleteCard _ i) = RCard i"
| "op_ref (UpsertIsland _ x) = RIsland (island_id x)"
| "op_ref (DeleteIsland _ i) = RIsland i"
| "op_ref (UpsertEdge _ e) = REdge (edge_id e)"
| "op_ref (DeleteEdge _ i) = REdge i"
| "op_ref (UpsertRelationSummary _ r) = RRelation (sourceSignature r)"
| "op_ref (DeleteRelationSummary _ i) = RRelation i"
| "op_ref (UpsertEvidenceLink _ l) = REvidence (link_id l)"
| "op_ref (DeleteEvidenceLink _ i) = REvidence i"

fun doc_lookup :: "document \<Rightarrow> entity_ref \<Rightarrow> entity option" where
  "doc_lookup d (RCard i) = map_option ECard (find_by card_id (cards d) i)"
| "doc_lookup d (RIsland i) = map_option EIsland (find_by island_id (islands d) i)"
| "doc_lookup d (REdge i) = map_option EEdge (find_by edge_id (edges d) i)"
| "doc_lookup d (RRelation i) = map_option ERelation (find_by sourceSignature (relations_of d) i)"
| "doc_lookup d (REvidence i) = map_option EEvidence (find_by link_id (evidence_of d) i)"

definition ids_distinct :: "document \<Rightarrow> bool" where
  "ids_distinct d \<longleftrightarrow> distinct (map card_id (cards d)) \<and> distinct (map island_id (islands d)) \<and>
     distinct (map edge_id (edges d)) \<and> distinct (map sourceSignature (relations_of d)) \<and>
     distinct (map link_id (evidence_of d))"

text \<open>Does an operation remove the link as a consequence of deleting one of its cards?\<close>

fun cascades :: "patch_op \<Rightarrow> entity option \<Rightarrow> bool" where
  "cascades (DeleteCard _ i) (Some (EEvidence l)) \<longleftrightarrow> fromCardId l = i \<or> toCardId l = i"
| "cascades _ _ \<longleftrightarrow> False"

lemma getDocEntityByOp_lookup: "getDocEntityByOp d op = doc_lookup d (op_ref op)"
  by (cases op) simp_all

lemma ref_kind: "doc_lookup d r = Some x \<Longrightarrow> doc_lookup d' r = Some y \<Longrightarrow> same_kind x y"
  by (cases r) auto

lemma their_kind: "doc_lookup d (op_ref op) = Some x \<Longrightarrow> getTheirValue op = Some y \<Longrightarrow> same_kind x y"
  by (cases op) auto

lemma isEqual_value_iff:
  assumes "number_format (eng_num E)" "\<And>x y. a = Some x \<Longrightarrow> b = Some y \<Longrightarrow> same_kind x y"
  shows "isEqual E a b \<longleftrightarrow> a = b"
  unfolding isEqual_def using assms by (rule stableSerialize_value_eq)

lemma ids_distinct_applyPatchOp: "ids_distinct d \<Longrightarrow> ids_distinct (applyPatchOp d op)"
  by (cases op) (auto simp: ids_distinct_def intro: distinct_upsertById distinct_remove_by distinct_filter_keys)

lemma cascades_iff:
  "cascades op v \<longleftrightarrow> (\<exists>o' i l. op = DeleteCard o' i \<and> v = Some (EEvidence l) \<and> (fromCardId l = i \<or> toCardId l = i))"
  by (induction op v rule: cascades.induct) auto

lemma lookup_applyPatchOp:
  assumes "ids_distinct d"
  shows "doc_lookup (applyPatchOp d op) r =
    (if r = op_ref op then getTheirValue op else if cascades op (doc_lookup d r) then None else doc_lookup d r)"
  using assms
  by (cases op; cases r)
    (auto simp: ids_distinct_def find_by_upsertById find_by_remove_by find_by_filter cascades_iff
      split: option.splits)

section \<open>The loops of detection and application\<close>

definition op_conflicts :: "js_engine \<Rightarrow> document \<Rightarrow> document \<Rightarrow> patch_op \<Rightarrow> bool" where
  "op_conflicts E b c op \<longleftrightarrow> \<not> isEqual E (getDocEntityByOp b op) (getDocEntityByOp c op) \<and>
     \<not> isEqual E (getDocEntityByOp b op) (getTheirValue op) \<and> \<not> isEqual E (getDocEntityByOp c op) (getTheirValue op)"

definition conflict_of :: "document \<Rightarrow> document \<Rightarrow> patch_op \<Rightarrow> conflict_item" where
  "conflict_of b c op = \<lparr>ci_opId = op_id op, ci_kind = op_kind op, ci_entityKey = getPatchOpEntityKey op,
     baseValue = getDocEntityByOp b op, yourValue = getDocEntityByOp c op, theirValue = getTheirValue op,
     ci_reason = buildReason True (getDocEntityByOp c op) (getTheirValue op)\<rparr>"

lemma fold_detect_step:
  "fold (detect_step E b c) os acc =
     acc\<lparr>conflicts := conflicts acc @ map (conflict_of b c) (filter (op_conflicts E b c) os),
         nonConflictingOpIds := nonConflictingOpIds acc @ map op_id (filter (\<lambda>op. \<not> op_conflicts E b c op) os)\<rparr>"
proof (induction os arbitrary: acc)
  case (Cons op os)
  then show ?case by (simp add: detect_step_def op_conflicts_def conflict_of_def Let_def)
qed simp

lemma detectPatchConflicts_eq:
  "detectPatchConflicts E b c p =
     \<lparr>conflicts = map (conflict_of b c) (filter (op_conflicts E b c) (ops p)),
      nonConflictingOpIds = map op_id (filter (\<lambda>op. \<not> op_conflicts E b c op) (ops p))\<rparr>"
  by (simp add: detectPatchConflicts_def fold_detect_step)

lemma op_conflicts_iff:
  assumes "number_format (eng_num E)"
  shows "op_conflicts E b c op \<longleftrightarrow>
    doc_lookup b (op_ref op) \<noteq> doc_lookup c (op_ref op) \<and> doc_lookup b (op_ref op) \<noteq> getTheirValue op \<and>
    doc_lookup c (op_ref op) \<noteq> getTheirValue op"
  unfolding op_conflicts_def getDocEntityByOp_lookup
  using isEqual_value_iff [OF assms] ref_kind their_kind by metis

definition op_chosen ::
  "string set option \<Rightarrow> string set \<Rightarrow> (string \<Rightarrow> patch_resolution option) \<Rightarrow> patch_op \<Rightarrow> bool" where
  "op_chosen sel cs R op \<longleftrightarrow>
     (\<forall>s. sel = Some s \<longrightarrow> op_id op \<in> s) \<and> (op_id op \<in> cs \<longrightarrow> R (op_id op) = Some Theirs)"

lemma op_chosen_id: "op_id a = op_id b \<Longrightarrow> op_chosen sel cs R a = op_chosen sel cs R b"
  by (simp add: op_chosen_def)

abbreviation apply_ops :: "patch_op list \<Rightarrow> document \<Rightarrow> document" where
  "apply_ops os d \<equiv> fold (\<lambda>op d. applyPatchOp d op) os d"

abbreviation stats_of :: "patch_op list \<Rightarrow> patch_stats \<Rightarrow> patch_stats" where
  "stats_of os s \<equiv> fold (\<lambda>op s. incrementApplyStats s (op_kind op)) os s"

definition count_step ::
  "string set option \<Rightarrow> string set \<Rightarrow> (string \<Rightarrow> patch_resolution option) \<Rightarrow> patch_op \<Rightarrow> conflict_meta \<Rightarrow> conflict_meta" where
  "count_step sel cs R op n =
     (if (\<forall>s. sel = Some s \<longrightarrow> op_id op \<in> s) \<and> op_id op \<in> cs then
        (case R (op_id op) of
           Some Theirs \<Rightarrow> n\<lparr>chosenTheirs := chosenTheirs n + 1\<rparr>
         | Some Yours \<Rightarrow> n\<lparr>chosenYours := chosenYours n + 1\<rparr>
         | _ \<Rightarrow> n\<lparr>chosenSkip := chosenSkip n + 1\<rparr>)
      else n)"

lemma apply_step_eq:
  "apply_step sel cs R op st =
     (if op_chosen sel cs R op then apply_op op else id) (st\<lparr>st_counts := count_step sel cs R op (st_counts st)\<rparr>)"
  by (cases st; cases sel; cases "R (op_id op)")
    (auto simp: apply_step_def op_chosen_def count_step_def split: patch_resolution.splits)

lemma fold_apply_step:
  "fold (apply_step sel cs R) os st =
     \<lparr>nextDoc = apply_ops (filter (op_chosen sel cs R) os) (nextDoc st),
      st_applied = st_applied st @ map op_id (filter (op_chosen sel cs R) os),
      st_stats = stats_of (filter (op_chosen sel cs R) os) (st_stats st),
      st_counts = fold (count_step sel cs R) os (st_counts st)\<rparr>"
  by (induction os arbitrary: st) (auto simp: apply_step_eq apply_op_def)

abbreviation conflict_ids :: "js_engine \<Rightarrow> document \<Rightarrow> patch \<Rightarrow> document option \<Rightarrow> string set" where
  "conflict_ids E c p b \<equiv>
     (case b of None \<Rightarrow> {} | Some b \<Rightarrow> op_id ` {op \<in> set (ops p). op_conflicts E b c op})"

lemma conflict_set_eq:
  "set (case map_option (\<lambda>b. detectPatchConflicts E b c p) b of None \<Rightarrow> [] | Some r \<Rightarrow> map ci_opId (conflicts r)) =
     conflict_ids E c p b"
  by (auto simp: detectPatchConflicts_eq conflict_of_def split: option.splits)

lemma applyDetailed_eq:
  "applyPatchWithResolutionsDetailed E c p R b sel =
     (let chosen = filter (op_chosen sel (conflict_ids E c p b) R) (ops p)
      in (apply_ops chosen c,
          \<lparr>appliedOpIds = map op_id chosen, apply_stats = stats_of chosen createEmptyApplyStats,
           apply_conflictMeta = map_option (\<lambda>b. fold (count_step sel (conflict_ids E c p (Some b)) R) (ops p)
             \<lparr>totalConflicts = length (filter (op_conflicts E b c) (ops p)), chosenYours = 0,
              chosenTheirs = 0, chosenSkip = 0\<rparr>) b,
           patchTitle = None, meta_baseDocSignature = None, meta_note = None\<rparr>))"
  unfolding applyPatchWithResolutionsDetailed_def Let_def conflict_set_eq fold_apply_step
  by (cases b) (simp_all add: detectPatchConflicts_eq)

section \<open>An engine for examples\<close>

definition rat_text :: "rat \<Rightarrow> string" where
  "rat_text q = (let (n, d) = quotient_of q
     in (if n < 0 then ''-'' else ''0'') @ replicate (nat \<bar>n\<bar>) (CHR ''1'') @ ''.'' @ replicate (nat d) (CHR ''1''))"

definition demo_engine :: js_engine where
  "demo_engine = \<lparr>eng_le = code_unit_le, eng_num = rat_text\<rparr>"

lemma replicate_sep_inject:
  "c \<noteq> s \<Longrightarrow> replicate m c @ s # xs = replicate n c @ s # ys \<longleftrightarrow> m = n \<and> xs = ys"
proof (induction m arbitrary: n)
  case 0
  then show ?case by (cases n) auto
next
  case (Suc m)
  then show ?case by (cases n) auto
qed

lemma rat_text_inj: "rat_text p = rat_text q \<Longrightarrow> p = q"
proof -
  assume eq: "rat_text p = rat_text q"
  obtain n d n' d' where q: "quotient_of p = (n, d)" "quotient_of q = (n', d')" by (metis surj_pair)
  then have pos: "0 < d" "0 < d'" by (metis quotient_of_denom_pos)+
  have "(n < 0) = (n' < 0) \<and> nat \<bar>n\<bar> = nat \<bar>n'\<bar> \<and> nat d = nat d'"
    using eq q by (auto simp: rat_text_def replicate_sep_inject split: if_splits)
  with pos have "n = n'" "d = d'" by auto
  with q show "p = q" by (metis quotient_of_inject)
qed

lemma number_format_demo [simp]: "number_format (eng_num demo_engine)"
  using rat_text_inj
  by (auto simp: demo_engine_def number_format_def inj_def num_chars_def rat_text_def split: prod.splits)

section \<open>What a sequence of operations does\<close>

lemma ids_distinct_apply_ops: "ids_distinct d \<Longrightarrow> ids_distinct (apply_ops os d)"
  by (induction os arbitrary: d) (auto intro: ids_distinct_applyPatchOp)

lemma cascades_None [simp]: "\<not> cascades op None"
  by (simp add: cascades_iff)

lemma lookup_apply_ops_frame:
  assumes "ids_distinct d" "r \<notin> op_ref ` set os"
  shows "doc_lookup (apply_ops os d) r =
    (if \<exists>op \<in> set os. cascades op (doc_lookup d r) then None else doc_lookup d r)"
  using assms
proof (induction os arbitrary: d)
  case (Cons op os)
  then have "doc_lookup (applyPatchOp d op) r = (if cascades op (doc_lookup d r) then None else doc_lookup d r)"
    by (subst lookup_applyPatchOp) auto
  with Cons show ?case by (simp add: ids_distinct_applyPatchOp)
qed simp

lemma lookup_apply_ops_last:
  assumes "ids_distinct d" "op_ref op \<notin> op_ref ` set ys"
  shows "doc_lookup (apply_ops (xs @ op # ys) d) (op_ref op) =
    (if \<exists>o' \<in> set ys. cascades o' (getTheirValue op) then None else getTheirValue op)"
  using assms by (simp add: lookup_apply_ops_frame lookup_applyPatchOp ids_distinct_apply_ops ids_distinct_applyPatchOp)

lemma lookup_apply_ops_filter:
  assumes "ids_distinct d" "distinct (map op_ref os)" "op \<in> set os"
    and "\<forall>o' \<in> set os. \<not> cascades o' (doc_lookup d (op_ref op)) \<and> \<not> cascades o' (getTheirValue op)"
  shows "doc_lookup (apply_ops (filter P os) d) (op_ref op) = (if P op then getTheirValue op else doc_lookup d (op_ref op))"
proof -
  obtain xs ys where os: "os = xs @ op # ys" using assms(3) by (meson split_list)
  with assms(2) have ni: "op_ref op \<notin> op_ref ` set xs" "op_ref op \<notin> op_ref ` set ys" by auto
  show ?thesis
  proof (cases "P op")
    case True
    have "doc_lookup (apply_ops (filter P xs @ op # filter P ys) d) (op_ref op) = getTheirValue op"
      using ni assms(4) os by (subst lookup_apply_ops_last [OF assms(1)]) auto
    with True os show ?thesis by simp
  next
    case False
    with ni assms(4) os show ?thesis
      by (subst lookup_apply_ops_frame [OF assms(1)]) auto
  qed
qed

fun stats_total :: "patch_stats \<Rightarrow> nat" where
  "stats_total s = upsertCards s + deleteCards s + upsertIslands s + deleteIslands s + upsertEdges s +
     deleteEdges s + upsertRelationSummaries s + deleteRelationSummaries s + upsertEvidenceLinks s +
     deleteEvidenceLinks s"

lemma stats_total_increment [simp]: "stats_total (incrementApplyStats s k) = Suc (stats_total s)"
  by (cases k) simp_all

lemma stats_total_fold: "stats_total (stats_of os s) = stats_total s + length os"
  by (induction os arbitrary: s) (simp_all del: stats_total.simps)

abbreviation chosen_total :: "conflict_meta \<Rightarrow> nat" where
  "chosen_total n \<equiv> chosenYours n + chosenTheirs n + chosenSkip n"

lemma fold_count_step:
  "totalConflicts (fold (count_step sel cs R) os n) = totalConflicts n"
  "chosen_total (fold (count_step sel cs R) os n) =
     chosen_total n + length (filter (\<lambda>op. (\<forall>s. sel = Some s \<longrightarrow> op_id op \<in> s) \<and> op_id op \<in> cs) os)"
  by (induction os arbitrary: n) (auto simp: count_step_def split: option.splits patch_resolution.splits)

lemma conflict_ids_mem:
  assumes "distinct (map op_id (ops p))" "op \<in> set (ops p)"
  shows "op_id op \<in> conflict_ids E c p (Some b) \<longleftrightarrow> op_conflicts E b c op"
  using assms by (auto simp: distinct_map dest: inj_onD)

section \<open>Properties of detection and application\<close>

text \<open>C1. Three-way merge. When a patch whose operations have different identifiers and different
  targets is applied over a baseline, the entity an operation targets ends up as the patch wants it,
  except when the current document and the patch both changed it, in different ways, and the
  resolution for that operation is not \<open>theirs\<close>: then the current value stays. (No operation of the
  patch deletes a card the entity, as an evidence link, is attached to.)\<close>

theorem three_way_merge:
  assumes "number_format (eng_num E)" and "ids_distinct cur"
    and "distinct (map op_ref (ops p))" and "distinct (map op_id (ops p))" and "op \<in> set (ops p)"
    and "\<forall>o' \<in> set (ops p). \<not> cascades o' (doc_lookup cur (op_ref op)) \<and> \<not> cascades o' (getTheirValue op)"
  shows "doc_lookup (applyPatchWithResolutions E cur p R (Some base) None) (op_ref op) =
    (if doc_lookup base (op_ref op) \<noteq> doc_lookup cur (op_ref op) \<and>
        doc_lookup base (op_ref op) \<noteq> getTheirValue op \<and> doc_lookup cur (op_ref op) \<noteq> getTheirValue op \<and>
        R (op_id op) \<noteq> Some Theirs
     then doc_lookup cur (op_ref op) else getTheirValue op)"
proof -
  have "doc_lookup (applyPatchWithResolutions E cur p R (Some base) None) (op_ref op) =
      (if op_chosen None (conflict_ids E cur p (Some base)) R op then getTheirValue op else doc_lookup cur (op_ref op))"
    unfolding applyPatchWithResolutions_def applyDetailed_eq
    using lookup_apply_ops_filter [OF assms(2,3,5,6)] by simp
  also have "op_chosen None (conflict_ids E cur p (Some base)) R op \<longleftrightarrow>
      (op_conflicts E base cur op \<longrightarrow> R (op_id op) = Some Theirs)"
    using conflict_ids_mem [OF assms(4,5)] by (simp add: op_chosen_def)
  finally show ?thesis by (auto simp: op_conflicts_iff [OF assms(1)])
qed

definition ex_base :: document where
  "ex_base = mk_doc [mk_card ''c1'' ''a'' 0 0, mk_card ''c2'' ''b'' 1 1] [] []"

definition ex_cur :: document where
  "ex_cur = mk_doc [mk_card ''c1'' ''mine'' 0 0, mk_card ''c2'' ''b'' 1 1] [] []"

definition ex_patch :: patch where
  "ex_patch = mk_patch [UpsertCard ''o1'' (mk_card ''c1'' ''theirs'' 0 0), DeleteCard ''o2'' ''c2'']"

lemmas ex_defs = ex_base_def ex_cur_def ex_patch_def ids_distinct_def

theorem three_way_merge_witness:
  "doc_lookup (applyPatchWithResolutions demo_engine ex_cur ex_patch (\<lambda>_. None) (Some ex_base) None) (RCard ''c1'') =
     Some (ECard (mk_card ''c1'' ''mine'' 0 0))"
  using three_way_merge [of demo_engine ex_cur ex_patch "UpsertCard ''o1'' (mk_card ''c1'' ''theirs'' 0 0)" "\<lambda>_. None" ex_base]
  by (simp add: ex_defs)

text \<open>C2. Frame. An entity that no operation of the patch targets is unchanged by the application,
  except that an evidence link disappears when an applied operation deletes a card it is attached to.\<close>

theorem apply_frame:
  assumes "ids_distinct cur" and "r \<notin> op_ref ` set (ops p)"
  shows "doc_lookup (applyPatchWithResolutions E cur p R base sel) r =
    (if \<exists>o' i l. DeleteCard o' i \<in> set (ops p) \<and>
          o' \<in> set (appliedOpIds (snd (applyPatchWithResolutionsDetailed E cur p R base sel))) \<and>
          doc_lookup cur r = Some (EEvidence l) \<and> i \<in> {fromCardId l, toCardId l}
     then None else doc_lookup cur r)"
proof -
  let ?ch = "op_chosen sel (conflict_ids E cur p base) R"
  have ni: "r \<notin> op_ref ` set (filter ?ch (ops p))" using assms(2) by auto
  have "(\<exists>op \<in> set (filter ?ch (ops p)). cascades op (doc_lookup cur r)) \<longleftrightarrow>
      (\<exists>o' i l. DeleteCard o' i \<in> set (ops p) \<and> o' \<in> set (map op_id (filter ?ch (ops p))) \<and>
          doc_lookup cur r = Some (EEvidence l) \<and> i \<in> {fromCardId l, toCardId l})"
    (is "?L \<longleftrightarrow> ?R")
  proof
    assume ?L
    then obtain o' i l where "DeleteCard o' i \<in> set (filter ?ch (ops p))" "doc_lookup cur r = Some (EEvidence l)"
      "i \<in> {fromCardId l, toCardId l}" by (auto simp: cascades_iff)
    then show ?R by force
  next
    assume ?R
    then obtain o' i l op where "DeleteCard o' i \<in> set (ops p)" "?ch op" "op_id op = o'"
      "doc_lookup cur r = Some (EEvidence l)" "i \<in> {fromCardId l, toCardId l}" by auto
    moreover then have "?ch (DeleteCard o' i)" using op_chosen_id [of op "DeleteCard o' i"] by simp
    ultimately show ?L by (auto simp: cascades_iff intro!: bexI [of _ "DeleteCard o' i"])
  qed
  with lookup_apply_ops_frame [OF assms(1) ni] show ?thesis
    by (simp add: applyPatchWithResolutions_def applyDetailed_eq Let_def)
qed

theorem apply_frame_witness:
  "doc_lookup (applyPatchWithResolutions demo_engine ex_base (mk_patch [DeleteCard ''o2'' ''c2'']) (\<lambda>_. None) None None) (RCard ''c1'') =
     Some (ECard (mk_card ''c1'' ''a'' 0 0))"
  using apply_frame [of ex_base "RCard ''c1''" "mk_patch [DeleteCard ''o2'' ''c2'']" demo_engine "\<lambda>_. None" None None]
  by (simp add: ex_defs)

text \<open>C3. Conflict detection is exact: an operation is reported as a conflict exactly when the
  baseline, the current document and the patch have three different values for its target, the
  reports carry these values, and every other operation is listed as non-conflicting; both lists
  follow the order of the patch.\<close>

theorem detect_conflicts_exact:
  assumes "number_format (eng_num E)"
  shows "let three = (\<lambda>op. distinct [doc_lookup base (op_ref op), doc_lookup cur (op_ref op), getTheirValue op]);
             r = detectPatchConflicts E base cur p
         in map (\<lambda>i. (ci_opId i, ci_kind i, baseValue i, yourValue i, theirValue i)) (conflicts r) =
              map (\<lambda>op. (op_id op, op_kind op, doc_lookup base (op_ref op), doc_lookup cur (op_ref op), getTheirValue op))
                (filter three (ops p)) \<and>
            nonConflictingOpIds r = map op_id (filter (\<lambda>op. \<not> three op) (ops p))"
proof -
  have "op_conflicts E base cur = (\<lambda>op. distinct [doc_lookup base (op_ref op), doc_lookup cur (op_ref op), getTheirValue op])"
    by (auto simp: fun_eq_iff op_conflicts_iff [OF assms])
  then show ?thesis
    by (simp add: detectPatchConflicts_eq conflict_of_def getDocEntityByOp_lookup Let_def)
qed

theorem detect_conflicts_exact_witness:
  "nonConflictingOpIds (detectPatchConflicts demo_engine ex_base ex_cur ex_patch) = [''o2'']"
  using detect_conflicts_exact [of demo_engine ex_base ex_cur ex_patch]
  by (simp add: ex_defs Let_def)

text \<open>The report of an application is consistent: the counters of the statistics add up to the
  number of applied operations, which are the patch's operations in order without the skipped ones,
  and with a baseline, no selection and different operation identifiers, the choices add up to the
  number of conflicts.\<close>

theorem apply_accounting:
  assumes "distinct (map op_id (ops p))"
  shows "stats_total (apply_stats (snd (applyPatchWithResolutionsDetailed E cur p R base sel))) =
      length (appliedOpIds (snd (applyPatchWithResolutionsDetailed E cur p R base sel))) \<and>
    subseq (appliedOpIds (snd (applyPatchWithResolutionsDetailed E cur p R base sel))) (map op_id (ops p)) \<and>
    (case apply_conflictMeta (snd (applyPatchWithResolutionsDetailed E cur p R base None)) of
       None \<Rightarrow> base = None
     | Some m \<Rightarrow> base \<noteq> None \<and> chosenYours m + chosenTheirs m + chosenSkip m = totalConflicts m)"
proof (intro conjI)
  show "stats_total (apply_stats (snd (applyPatchWithResolutionsDetailed E cur p R base sel))) =
      length (appliedOpIds (snd (applyPatchWithResolutionsDetailed E cur p R base sel)))"
    by (simp add: applyDetailed_eq Let_def stats_total_fold createEmptyApplyStats_def del: stats_total.simps) simp
  show "subseq (appliedOpIds (snd (applyPatchWithResolutionsDetailed E cur p R base sel))) (map op_id (ops p))"
    by (simp add: applyDetailed_eq Let_def subseq_map)
  have "filter (\<lambda>op. op_id op \<in> conflict_ids E cur p (Some b)) (ops p) = filter (op_conflicts E b cur) (ops p)" for b
    using conflict_ids_mem [OF assms] by (intro filter_cong) auto
  then show "case apply_conflictMeta (snd (applyPatchWithResolutionsDetailed E cur p R base None)) of
       None \<Rightarrow> base = None
     | Some m \<Rightarrow> base \<noteq> None \<and> chosenYours m + chosenTheirs m + chosenSkip m = totalConflicts m"
    by (cases base) (simp_all add: applyDetailed_eq Let_def fold_count_step)
qed

theorem apply_accounting_witness:
  "stats_total (apply_stats (snd (applyPatchWithResolutionsDetailed demo_engine ex_cur ex_patch (\<lambda>_. None) (Some ex_base) None))) =
   length (appliedOpIds (snd (applyPatchWithResolutionsDetailed demo_engine ex_cur ex_patch (\<lambda>_. None) (Some ex_base) None)))"
  using apply_accounting [of ex_patch demo_engine ex_cur "\<lambda>_. None" "Some ex_base" None]
  by (simp add: ex_defs del: stats_total.simps)

text \<open>C6. Applying a patch keeps the identifiers of every collection distinct.\<close>

theorem apply_keeps_ids_distinct:
  assumes "ids_distinct cur"
  shows "ids_distinct (applyPatchWithResolutions E cur p R base sel)"
  by (simp add: applyPatchWithResolutions_def applyDetailed_eq Let_def ids_distinct_apply_ops assms)

theorem apply_keeps_ids_distinct_witness:
  "ids_distinct (applyPatchWithResolutions demo_engine ex_cur ex_patch (\<lambda>_. None) (Some ex_base) None)"
  by (rule apply_keeps_ids_distinct) (simp add: ex_defs)

end
