(* ===== verification/Patch_Lint.thy ===== *)
theory Patch_Lint
  imports Patch_Core
begin

text \<open>
  \<open>domain/patch/patch_lint.ts\<close>: the linter replays a patch on \<open>Map\<close>s built from the document and
  reports duplicate operations and references that dangle afterwards. The checks of
  \<open>lintPatchAgainstCurrentDoc\<close> are one definition each, in the order of the code.

  The maps are a second implementation of the store of \<open>Keyed_Store\<close>; replaying the edits on them and
  on the document's arrays gives the same contents (\<open>maps_simulate\<close>), except for evidence links, which
  the document drops with their cards and the maps keep. From this follow the soundness of the
  linter and its exactness for patches that delete no card.
\<close>

section \<open>Issues and maps\<close>

datatype lint_severity = LintError | LintWarn | LintInfo

record lint_issue =
  li_severity :: lint_severity
  li_code :: string
  li_message :: string
  li_opId :: "string option"
  li_entityKey :: "string option"
  relatedIds :: "string list option"

record entity_maps =
  m_cards :: "(string \<times> bool) list"
  m_islands :: "(string \<times> island) list"
  m_edges :: "(string \<times> edge) list"
  m_relations :: "(string \<times> relation_summary) list"
  m_evidence :: "(string \<times> evidence_link) list"

record lint_state =
  ls_maps :: entity_maps
  lastOpByEntityKey :: "(string \<times> string) list"
  deleteCardOpById :: "(string \<times> string) list"
  deleteIslandOpById :: "(string \<times> string) list"
  deleteEdgeOpById :: "(string \<times> string) list"

definition buildCurrentSignature :: "document \<Rightarrow> string" where
  "buildCurrentSignature doc = doc_id doc @ '':'' @ updatedAt doc"

definition initial_maps :: "document \<Rightarrow> entity_maps" where
  "initial_maps d =
     \<lparr>m_cards = new_map (map (\<lambda>c. (card_id c, True)) (cards d)),
      m_islands = new_map (map (\<lambda>x. (island_id x, x)) (islands d)),
      m_edges = new_map (map (\<lambda>e. (edge_id e, e)) (edges d)),
      m_relations = new_map (map (\<lambda>r. (sourceSignature r, r)) (relations_of d)),
      m_evidence = new_map (map (\<lambda>l. (link_id l, l)) (evidence_of d))\<rparr>"

fun maps_step :: "patch_op \<Rightarrow> entity_maps \<Rightarrow> entity_maps" where
  "maps_step (UpsertCard _ c) m = m\<lparr>m_cards := AList.update (card_id c) True (m_cards m)\<rparr>"
| "maps_step (DeleteCard _ i) m = m\<lparr>m_cards := AList.delete i (m_cards m)\<rparr>"
| "maps_step (UpsertIsland _ x) m = m\<lparr>m_islands := AList.update (island_id x) x (m_islands m)\<rparr>"
| "maps_step (DeleteIsland _ i) m = m\<lparr>m_islands := AList.delete i (m_islands m)\<rparr>"
| "maps_step (UpsertEdge _ e) m = m\<lparr>m_edges := AList.update (edge_id e) e (m_edges m)\<rparr>"
| "maps_step (DeleteEdge _ i) m = m\<lparr>m_edges := AList.delete i (m_edges m)\<rparr>"
| "maps_step (UpsertRelationSummary _ r) m = m\<lparr>m_relations := AList.update (sourceSignature r) r (m_relations m)\<rparr>"
| "maps_step (DeleteRelationSummary _ i) m = m\<lparr>m_relations := AList.delete i (m_relations m)\<rparr>"
| "maps_step (UpsertEvidenceLink _ l) m = m\<lparr>m_evidence := AList.update (link_id l) l (m_evidence m)\<rparr>"
| "maps_step (DeleteEvidenceLink _ i) m = m\<lparr>m_evidence := AList.delete i (m_evidence m)\<rparr>"

fun record_delete :: "patch_op \<Rightarrow> lint_state \<Rightarrow> lint_state" where
  "record_delete (DeleteCard o' i) s = s\<lparr>deleteCardOpById := AList.update i o' (deleteCardOpById s)\<rparr>"
| "record_delete (DeleteIsland o' i) s = s\<lparr>deleteIslandOpById := AList.update i o' (deleteIslandOpById s)\<rparr>"
| "record_delete (DeleteEdge o' i) s = s\<lparr>deleteEdgeOpById := AList.update i o' (deleteEdgeOpById s)\<rparr>"
| "record_delete _ s = s"

definition lint_maps_step :: "patch_op \<Rightarrow> lint_state \<Rightarrow> lint_state" where
  "lint_maps_step op s = record_delete op
     (s\<lparr>ls_maps := maps_step op (ls_maps s),
        lastOpByEntityKey := AList.update (getPatchOpEntityKey op) (op_id op) (lastOpByEntityKey s)\<rparr>)"

definition applyPatchToMaps :: "document \<Rightarrow> patch \<Rightarrow> lint_state" where
  "applyPatchToMaps currentDoc patch = fold lint_maps_step (ops patch)
     \<lparr>ls_maps = initial_maps currentDoc, lastOpByEntityKey = [], deleteCardOpById = [],
      deleteIslandOpById = [], deleteEdgeOpById = []\<rparr>"

fun findUpsertEntityKey :: "patch_op \<Rightarrow> string option" where
  "findUpsertEntityKey (UpsertCard _ c) = Some (''card:'' @ card_id c)"
| "findUpsertEntityKey (UpsertIsland _ x) = Some (''island:'' @ island_id x)"
| "findUpsertEntityKey (UpsertEdge _ e) = Some (''edge:'' @ edge_id e)"
| "findUpsertEntityKey (UpsertRelationSummary _ r) = Some (''relSummary:'' @ sourceSignature r)"
| "findUpsertEntityKey (UpsertEvidenceLink _ l) = Some (''evidenceLink:'' @ link_id l)"
| "findUpsertEntityKey _ = None"

section \<open>The checks\<close>

abbreviation has_key :: "(string \<times> 'v) list \<Rightarrow> string \<Rightarrow> bool" where
  "has_key m k \<equiv> map_of m k \<noteq> None"

abbreviation values_of :: "(string \<times> 'v) list \<Rightarrow> 'v list" where
  "values_of m \<equiv> map snd m"

definition opIdCounts :: "patch_op list \<Rightarrow> (string \<times> nat) list" where
  "opIdCounts os = fold (\<lambda>op m. AList.update (op_id op) (nullish (map_of m (op_id op)) 0 + 1) m) os []"

definition lint_P007 :: "patch \<Rightarrow> lint_issue list" where
  "lint_P007 patch = map (\<lambda>(opId, count). \<lparr>li_severity = LintError, li_code = ''P007'',
       li_message = ''Duplicate opId detected: '' @ opId, li_opId = Some opId, li_entityKey = None, relatedIds = None\<rparr>)
     (filter (\<lambda>(opId, count). count > 1) (opIdCounts (ops patch)))"

definition upsertOpIdsByEntityKey :: "patch_op list \<Rightarrow> (string \<times> string list) list" where
  "upsertOpIdsByEntityKey os = fold (\<lambda>op m.
     (case findUpsertEntityKey op of
        None \<Rightarrow> m
      | Some entityKey \<Rightarrow> AList.update entityKey (nullish (map_of m entityKey) [] @ [op_id op]) m)) os []"

definition lint_P008 :: "patch \<Rightarrow> lint_issue list" where
  "lint_P008 patch = map (\<lambda>(entityKey, opIds). \<lparr>li_severity = LintWarn, li_code = ''P008'',
       li_message = ''Duplicate upserts detected for '' @ entityKey @ ''; later op wins.'',
       li_opId = Some (last opIds), li_entityKey = Some entityKey, relatedIds = Some opIds\<rparr>)
     (filter (\<lambda>(entityKey, opIds). length opIds > 1) (upsertOpIdsByEntityKey (ops patch)))"

definition lint_P006 :: "document \<Rightarrow> patch \<Rightarrow> lint_issue list" where
  "lint_P006 currentDoc patch =
     (case baseDocSignature patch of
        None \<Rightarrow> []
      | Some sig \<Rightarrow>
          if sig \<noteq> [] \<and> sig \<noteq> buildCurrentSignature currentDoc
          then [\<lparr>li_severity = LintWarn, li_code = ''P006'',
                 li_message = ''Patch base signature mismatch (patch='' @ sig @ '', current='' @ buildCurrentSignature currentDoc @ '').'',
                 li_opId = None, li_entityKey = None, relatedIds = None\<rparr>]
          else [])"

definition island_missing :: "entity_maps \<Rightarrow> island \<Rightarrow> string list" where
  "island_missing m island = filter (\<lambda>cardId. \<not> has_key (m_cards m) cardId) (cardIds island)"

definition lint_P001 :: "lint_state \<Rightarrow> lint_issue list" where
  "lint_P001 s = map (\<lambda>island. \<lparr>li_severity = LintError, li_code = ''P001'',
       li_message = ''Island '' @ island_id island @ '' references missing card(s): '' @ join_with '', '' (island_missing (ls_maps s) island),
       li_opId = map_of (lastOpByEntityKey s) (''island:'' @ island_id island),
       li_entityKey = Some (''island:'' @ island_id island), relatedIds = Some (island_missing (ls_maps s) island)\<rparr>)
     (filter (\<lambda>island. island_missing (ls_maps s) island \<noteq> []) (values_of (m_islands (ls_maps s))))"

definition endpoint_missing :: "entity_maps \<Rightarrow> endpoint_kind \<Rightarrow> string \<Rightarrow> bool" where
  "endpoint_missing m kind i = (case kind of CardEnd \<Rightarrow> \<not> has_key (m_cards m) i | IslandEnd \<Rightarrow> \<not> has_key (m_islands m) i)"

definition endpoint_delete_op :: "lint_state \<Rightarrow> endpoint_kind \<Rightarrow> string \<Rightarrow> string option" where
  "endpoint_delete_op s kind i = (case kind of CardEnd \<Rightarrow> map_of (deleteCardOpById s) i | IslandEnd \<Rightarrow> map_of (deleteIslandOpById s) i)"

abbreviation edge_fromKind :: "edge \<Rightarrow> endpoint_kind" where
  "edge_fromKind e \<equiv> nullish (fromKind e) CardEnd"

abbreviation edge_toKind :: "edge \<Rightarrow> endpoint_kind" where
  "edge_toKind e \<equiv> nullish (toKind e) CardEnd"

definition edge_missing :: "entity_maps \<Rightarrow> edge \<Rightarrow> string list" where
  "edge_missing m e = (if endpoint_missing m (edge_fromKind e) (fromId e) then [fromId e] else []) @
     (if endpoint_missing m (edge_toKind e) (toId e) then [toId e] else [])"

definition edge_delete_op :: "lint_state \<Rightarrow> edge \<Rightarrow> string option" where
  "edge_delete_op s e =
     (let fromOp = (if endpoint_missing (ls_maps s) (edge_fromKind e) (fromId e)
                    then endpoint_delete_op s (edge_fromKind e) (fromId e) else None)
      in if endpoint_missing (ls_maps s) (edge_toKind e) (toId e) \<and> \<not> truthy_str fromOp
         then endpoint_delete_op s (edge_toKind e) (toId e) else fromOp)"

definition lint_P002 :: "lint_state \<Rightarrow> lint_issue list" where
  "lint_P002 s = map (\<lambda>edge. \<lparr>li_severity = LintError, li_code = ''P002'',
       li_message = ''Edge '' @ edge_id edge @ '' references missing endpoint(s): '' @ join_with '', '' (edge_missing (ls_maps s) edge),
       li_opId = (case edge_delete_op s edge of None \<Rightarrow> map_of (lastOpByEntityKey s) (''edge:'' @ edge_id edge) | Some o' \<Rightarrow> Some o'),
       li_entityKey = Some (''edge:'' @ edge_id edge), relatedIds = Some (edge_missing (ls_maps s) edge)\<rparr>)
     (filter (\<lambda>edge. edge_missing (ls_maps s) edge \<noteq> []) (values_of (m_edges (ls_maps s))))"

definition delete_card_refs :: "entity_maps \<Rightarrow> string \<Rightarrow> string list" where
  "delete_card_refs m cardId =
     (let referencingIslandIds = map island_id (filter (\<lambda>island. cardId \<in> set (cardIds island)) (values_of (m_islands m)));
          referencingRelationIds = map sourceSignature (filter (\<lambda>summary. cardId \<in> set (groundingCardIds summary) \<or>
            (\<exists>entry \<in> set (nullish (rel_history summary) []).
               case groundingCardIdsSnapshot entry of None \<Rightarrow> False | Some ids \<Rightarrow> cardId \<in> set ids)) (values_of (m_relations m)))
      in map (\<lambda>i. ''island:'' @ i) referencingIslandIds @ map (\<lambda>i. ''relSummary:'' @ i) referencingRelationIds)"

fun lint_P003_op :: "lint_state \<Rightarrow> patch_op \<Rightarrow> lint_issue list" where
  "lint_P003_op s (DeleteCard o' cardId) =
     (let related = delete_card_refs (ls_maps s) cardId
      in if related \<noteq> [] then [\<lparr>li_severity = LintWarn, li_code = ''P003'',
           li_message = ''Deleting card '' @ cardId @ '' leaves dangling references.'', li_opId = Some o',
           li_entityKey = Some (''card:'' @ cardId), relatedIds = Some related\<rparr>] else [])"
| "lint_P003_op s _ = []"

definition lint_P003 :: "lint_state \<Rightarrow> patch \<Rightarrow> lint_issue list" where
  "lint_P003 s patch = concat (map (lint_P003_op s) (ops patch))"

definition evidence_missing :: "entity_maps \<Rightarrow> evidence_link \<Rightarrow> string list" where
  "evidence_missing m l = (if \<not> has_key (m_cards m) (fromCardId l) then [fromCardId l] else []) @
     (if \<not> has_key (m_cards m) (toCardId l) then [toCardId l] else [])"

definition lint_P009 :: "lint_state \<Rightarrow> lint_issue list" where
  "lint_P009 s = map (\<lambda>evidenceLink. let missing = evidence_missing (ls_maps s) evidenceLink in
       \<lparr>li_severity = LintError, li_code = ''P009'',
        li_message = ''EvidenceLink '' @ link_id evidenceLink @ '' references missing cardId(s): '' @ join_with '', '' missing,
        li_opId = (case map_of (lastOpByEntityKey s) (''evidenceLink:'' @ link_id evidenceLink) of
                     Some o' \<Rightarrow> Some o'
                   | None \<Rightarrow> map_of (deleteCardOpById s) (case missing of [] \<Rightarrow> [] | x # _ \<Rightarrow> x)),
        li_entityKey = Some (''evidenceLink:'' @ link_id evidenceLink), relatedIds = Some missing\<rparr>)
     (filter (\<lambda>evidenceLink. evidence_missing (ls_maps s) evidenceLink \<noteq> []) (values_of (m_evidence (ls_maps s))))"

definition edge_touches_island :: "string \<Rightarrow> edge \<Rightarrow> bool" where
  "edge_touches_island i e \<longleftrightarrow>
     (edge_fromKind e = IslandEnd \<and> fromId e = i) \<or> (edge_toKind e = IslandEnd \<and> toId e = i)"

fun lint_P004_op :: "lint_state \<Rightarrow> patch_op \<Rightarrow> lint_issue list" where
  "lint_P004_op s (DeleteIsland o' islandId) =
     (let referencingEdges = filter (edge_touches_island islandId) (values_of (m_edges (ls_maps s)))
      in if referencingEdges \<noteq> [] then [\<lparr>li_severity = LintWarn, li_code = ''P004'',
           li_message = ''Deleting island '' @ islandId @ '' is referenced by edge endpoint(s).'', li_opId = Some o',
           li_entityKey = Some (''island:'' @ islandId), relatedIds = Some (map edge_id referencingEdges)\<rparr>] else [])"
| "lint_P004_op s _ = []"

definition lint_P004 :: "lint_state \<Rightarrow> patch \<Rightarrow> lint_issue list" where
  "lint_P004 s patch = concat (map (lint_P004_op s) (ops patch))"

definition head_or :: "'a list \<Rightarrow> 'a \<Rightarrow> 'a" where
  "head_or xs d = (case xs of [] \<Rightarrow> d | x # _ \<Rightarrow> x)"

definition lint_P005_summary :: "lint_state \<Rightarrow> relation_summary \<Rightarrow> lint_issue list" where
  "lint_P005_summary s summary =
     (let noCard = (\<lambda>cardId. \<not> has_key (m_cards (ls_maps s)) cardId);
          noEdge = (\<lambda>edgeId. \<not> has_key (m_edges (ls_maps s)) edgeId);
          history = nullish (rel_history summary) [];
          missingCardIds = filter noCard (groundingCardIds summary);
          missingEdgeIds = filter noEdge (groundingEdgeIds summary);
          missingHistoryCardIds = filter noCard (concat (map (\<lambda>entry. nullish (groundingCardIdsSnapshot entry) []) history));
          missingHistoryEdgeIds = filter noEdge (concat (map (\<lambda>entry. nullish (groundingEdgeIdsSnapshot entry) []) history));
          related = missingCardIds @ missingEdgeIds @ missingHistoryCardIds @ missingHistoryEdgeIds
      in if related = [] then []
         else [\<lparr>li_severity = LintWarn, li_code = ''P005'',
                li_message = ''RelationSummary '' @ sourceSignature summary @ '' references missing grounding card/edge ids.'',
                li_opId = (case map_of (lastOpByEntityKey s) (''relSummary:'' @ sourceSignature summary) of
                    Some o' \<Rightarrow> Some o'
                  | None \<Rightarrow> (case map_of (deleteCardOpById s) (head_or missingCardIds (head_or missingHistoryCardIds [])) of
                      Some o' \<Rightarrow> Some o'
                    | None \<Rightarrow> map_of (deleteEdgeOpById s) (head_or missingEdgeIds (head_or missingHistoryEdgeIds [])))),
                li_entityKey = Some (''relSummary:'' @ sourceSignature summary), relatedIds = Some related\<rparr>])"

definition lint_P005 :: "lint_state \<Rightarrow> lint_issue list" where
  "lint_P005 s = concat (map (lint_P005_summary s) (values_of (m_relations (ls_maps s))))"

definition lintPatchAgainstCurrentDoc :: "document \<Rightarrow> patch \<Rightarrow> lint_issue list" where
  "lintPatchAgainstCurrentDoc currentDoc patch =
     (let s = applyPatchToMaps currentDoc patch
      in lint_P007 patch @ lint_P008 patch @ lint_P006 currentDoc patch @ lint_P001 s @ lint_P002 s @
         lint_P003 s patch @ lint_P009 s @ lint_P004 s patch @ lint_P005 s)"

definition shouldBlockPatchApplyByLint :: "lint_issue list option \<Rightarrow> bool" where
  "shouldBlockPatchApplyByLint lintResult =
     (case lintResult of None \<Rightarrow> False | Some issues \<Rightarrow> list_ex (\<lambda>issue. li_severity issue = LintError) issues)"

section \<open>The maps simulate the document\<close>

fun card_edit :: "patch_op \<Rightarrow> card edit option" where
  "card_edit (UpsertCard _ c) = Some (Put (card_id c) c)"
| "card_edit (DeleteCard _ i) = Some (Del i)"
| "card_edit _ = None"

fun island_edit :: "patch_op \<Rightarrow> island edit option" where
  "island_edit (UpsertIsland _ x) = Some (Put (island_id x) x)"
| "island_edit (DeleteIsland _ i) = Some (Del i)"
| "island_edit _ = None"

fun edge_edit :: "patch_op \<Rightarrow> edge edit option" where
  "edge_edit (UpsertEdge _ e) = Some (Put (edge_id e) e)"
| "edge_edit (DeleteEdge _ i) = Some (Del i)"
| "edge_edit _ = None"

fun relation_edit :: "patch_op \<Rightarrow> relation_summary edit option" where
  "relation_edit (UpsertRelationSummary _ r) = Some (Put (sourceSignature r) r)"
| "relation_edit (DeleteRelationSummary _ i) = Some (Del i)"
| "relation_edit _ = None"

fun flag_edit :: "'v edit \<Rightarrow> bool edit" where
  "flag_edit (Put k v) = Put k True"
| "flag_edit (Del k) = Del k"

abbreviation edits :: "(patch_op \<Rightarrow> 'v edit option) \<Rightarrow> patch_op list \<Rightarrow> 'v edit list" where
  "edits f os \<equiv> List.map_filter f os"

lemma ok_edits_patch:
  "ok_edits (\<lambda>k v. card_id v = k) (edits card_edit os)"
  "ok_edits (\<lambda>k v. island_id v = k) (edits island_edit os)"
  "ok_edits (\<lambda>k v. edge_id v = k) (edits edge_edit os)"
  "ok_edits (\<lambda>k v. sourceSignature v = k) (edits relation_edit os)"
  by (induction os) (auto simp: List.map_filter_simps elim!: card_edit.elims island_edit.elims edge_edit.elims
    relation_edit.elims split: option.splits)

lemma ok_edits_True [simp]: "ok_edits (\<lambda>k v. True) es"
  by (auto simp: ok_edits_def list_all_iff split: edit.splits)

lemma document_edits:
  "cards (apply_ops os d) = run_edits (\<lambda>k v xs. upsertById card_id xs v) (remove_by card_id) (edits card_edit os) (cards d)"
  "islands (apply_ops os d) = run_edits (\<lambda>k v xs. upsertById island_id xs v) (remove_by island_id) (edits island_edit os) (islands d)"
  "edges (apply_ops os d) = run_edits (\<lambda>k v xs. upsertById edge_id xs v) (remove_by edge_id) (edits edge_edit os) (edges d)"
  "relations_of (apply_ops os d) =
     run_edits (\<lambda>k v xs. upsertById sourceSignature xs v) (remove_by sourceSignature) (edits relation_edit os) (relations_of d)"
proof (induction os arbitrary: d)
  case (Cons op os)
  {
    case 1
    show ?case using Cons.IH(1) by (cases op) (simp_all add: List.map_filter_simps)
  next
    case 2
    show ?case using Cons.IH(2) by (cases op) (simp_all add: List.map_filter_simps)
  next
    case 3
    show ?case using Cons.IH(3) by (cases op) (simp_all add: List.map_filter_simps)
  next
    case 4
    show ?case using Cons.IH(4) by (cases op) (simp_all add: List.map_filter_simps)
  }
qed (simp_all add: List.map_filter_simps)

lemma maps_edits:
  "m_cards (fold maps_step os m) = run_edits AList.update AList.delete (map flag_edit (edits card_edit os)) (m_cards m)"
  "m_islands (fold maps_step os m) = run_edits AList.update AList.delete (edits island_edit os) (m_islands m)"
  "m_edges (fold maps_step os m) = run_edits AList.update AList.delete (edits edge_edit os) (m_edges m)"
  "m_relations (fold maps_step os m) = run_edits AList.update AList.delete (edits relation_edit os) (m_relations m)"
proof (induction os arbitrary: m)
  case (Cons op os)
  {
    case 1
    show ?case using Cons.IH(1) by (cases op) (simp_all add: List.map_filter_simps)
  next
    case 2
    show ?case using Cons.IH(2) by (cases op) (simp_all add: List.map_filter_simps)
  next
    case 3
    show ?case using Cons.IH(3) by (cases op) (simp_all add: List.map_filter_simps)
  next
    case 4
    show ?case using Cons.IH(4) by (cases op) (simp_all add: List.map_filter_simps)
  }
qed (simp_all add: List.map_filter_simps)

lemma ls_maps_fold: "ls_maps (fold lint_maps_step os s) = fold maps_step os (ls_maps s)"
proof (induction os arbitrary: s)
  case (Cons op os)
  then show ?case by (cases op) (simp_all add: lint_maps_step_def)
qed simp

lemma dom_edit_map_flag:
  "dom m = dom m' \<Longrightarrow> dom (edit_map (map flag_edit es) m) = dom (edit_map es m')"
proof (induction es arbitrary: m m')
  case (Cons e es)
  show ?case
  proof (cases e)
    case (Put k v)
    have "dom (m(k \<mapsto> True)) = dom (m'(k \<mapsto> v))" by (simp add: Cons.prems)
    from Cons.IH [OF this] show ?thesis by (simp only: Put list.map flag_edit.simps edit_map.simps)
  next
    case (Del k)
    have "dom (m(k := None)) = dom (m'(k := None))" by (simp add: Cons.prems)
    from Cons.IH [OF this] show ?thesis by (simp only: Del list.map flag_edit.simps edit_map.simps)
  qed
qed simp

lemma dom_find_by: "dom (find_by key xs) = key ` set xs"
  by (rule set_eqI) (simp only: domIff find_by_None not_not)

lemma maps_simulate:
  assumes "ids_distinct d"
  shows "dom (map_of (m_cards (ls_maps (applyPatchToMaps d p)))) = dom (find_by card_id (cards (apply_ops (ops p) d)))"
    and "map_of (m_islands (ls_maps (applyPatchToMaps d p))) = find_by island_id (islands (apply_ops (ops p) d))"
    and "map_of (m_edges (ls_maps (applyPatchToMaps d p))) = find_by edge_id (edges (apply_ops (ops p) d))"
    and "map_of (m_relations (ls_maps (applyPatchToMaps d p))) = find_by sourceSignature (relations_of (apply_ops (ops p) d))"
proof -
  have ids: "distinct (map card_id (cards d))" "distinct (map island_id (islands d))" "distinct (map edge_id (edges d))"
      "distinct (map sourceSignature (relations_of d))"
    using assms by (simp_all add: ids_distinct_def)
  note sim = applyPatchToMaps_def ls_maps_fold maps_edits document_edits arr.run_edits_abs ok_edits_patch
    jsmap.run_edits_abs initial_maps_def
  have "dom (map_of (new_map (map (\<lambda>c. (card_id c, True)) (cards d)))) = dom (find_by card_id (cards d))"
    by (simp add: dom_map_of_conv_image_fst dom_find_by image_image)
  then show "dom (map_of (m_cards (ls_maps (applyPatchToMaps d p)))) = dom (find_by card_id (cards (apply_ops (ops p) d)))"
    by (simp add: sim dom_edit_map_flag)
  show "map_of (m_islands (ls_maps (applyPatchToMaps d p))) = find_by island_id (islands (apply_ops (ops p) d))"
    by (simp add: sim map_of_new_map_by ids)
  show "map_of (m_edges (ls_maps (applyPatchToMaps d p))) = find_by edge_id (edges (apply_ops (ops p) d))"
    by (simp add: sim map_of_new_map_by ids)
  show "map_of (m_relations (ls_maps (applyPatchToMaps d p))) = find_by sourceSignature (relations_of (apply_ops (ops p) d))"
    by (simp add: sim map_of_new_map_by ids)
qed

lemma invar_maps:
  "distinct (map fst (m_islands (ls_maps (applyPatchToMaps d p))))"
  "distinct (map fst (m_edges (ls_maps (applyPatchToMaps d p))))"
  "distinct (map fst (m_relations (ls_maps (applyPatchToMaps d p))))"
  by (simp_all add: applyPatchToMaps_def ls_maps_fold maps_edits initial_maps_def jsmap.run_edits_invar)

lemma values_eq:
  assumes "distinct (map fst m)" "distinct (map key xs)" "map_of m = find_by key xs"
  shows "set (values_of m) = set xs"
proof -
  have "v \<in> set (values_of m) \<longleftrightarrow> (\<exists>k. map_of m k = Some v)" for v
    using assms(1) by force
  then show ?thesis
    using assms(2,3) find_by_distinct find_by_Some by (metis subsetI subset_antisym)
qed

lemma values_simulate:
  assumes "ids_distinct d"
  shows "set (values_of (m_islands (ls_maps (applyPatchToMaps d p)))) = set (islands (apply_ops (ops p) d))"
    and "set (values_of (m_edges (ls_maps (applyPatchToMaps d p)))) = set (edges (apply_ops (ops p) d))"
    and "set (values_of (m_relations (ls_maps (applyPatchToMaps d p)))) = set (relations_of (apply_ops (ops p) d))"
proof -
  have ids: "distinct (map island_id (islands (apply_ops (ops p) d)))" "distinct (map edge_id (edges (apply_ops (ops p) d)))"
      "distinct (map sourceSignature (relations_of (apply_ops (ops p) d)))"
    using ids_distinct_apply_ops [OF assms, of "ops p"] by (simp_all add: ids_distinct_def)
  show "set (values_of (m_islands (ls_maps (applyPatchToMaps d p)))) = set (islands (apply_ops (ops p) d))"
    by (rule values_eq [OF invar_maps(1) ids(1) maps_simulate(2) [OF assms]])
  show "set (values_of (m_edges (ls_maps (applyPatchToMaps d p)))) = set (edges (apply_ops (ops p) d))"
    by (rule values_eq [OF invar_maps(2) ids(2) maps_simulate(3) [OF assms]])
  show "set (values_of (m_relations (ls_maps (applyPatchToMaps d p)))) = set (relations_of (apply_ops (ops p) d))"
    by (rule values_eq [OF invar_maps(3) ids(3) maps_simulate(4) [OF assms]])
qed

text \<open>The links: the maps keep those that the document drops with their cards.\<close>

lemma evidence_step:
  assumes "distinct (map fst (m_evidence m))"
    and "\<And>i l. find_by link_id (evidence_of d) i = Some l \<Longrightarrow> map_of (m_evidence m) i = Some l"
    and "ids_distinct d"
  shows "find_by link_id (evidence_of (applyPatchOp d op)) i = Some l \<Longrightarrow>
    map_of (m_evidence (maps_step op m)) i = Some l"
  using assms
  by (cases op)
    (auto simp: find_by_upsertById find_by_remove_by find_by_filter ids_distinct_def update_conv' delete_conv'
      split: option.splits if_splits)

lemma evidence_distinct_step:
  "distinct (map fst (m_evidence m)) \<Longrightarrow> distinct (map fst (m_evidence (maps_step op m)))"
  by (cases op) (simp_all add: distinct_update distinct_delete_keys)

lemma evidence_simulate:
  assumes "ids_distinct d"
  shows "set (evidence_of (apply_ops (ops p) d)) \<subseteq> set (values_of (m_evidence (ls_maps (applyPatchToMaps d p))))"
proof -
  have "find_by link_id (evidence_of (apply_ops os d)) i = Some l \<Longrightarrow> map_of (m_evidence (fold maps_step os m)) i = Some l"
    if "ids_distinct d" "distinct (map fst (m_evidence m))"
      "\<And>i l. find_by link_id (evidence_of d) i = Some l \<Longrightarrow> map_of (m_evidence m) i = Some l" for os d m i l
    using that
  proof (induction os arbitrary: d m)
    case (Cons op os)
    show ?case
      using Cons.prems evidence_step [OF Cons.prems(3,4,2)]
      by (simp, intro Cons.IH [where m = "maps_step op m" and d = "applyPatchOp d op"])
        (auto simp: ids_distinct_applyPatchOp evidence_distinct_step)
  qed simp
  moreover have "map_of (m_evidence (initial_maps d)) = find_by link_id (evidence_of d)"
    using assms by (simp add: initial_maps_def map_of_new_map_by ids_distinct_def)
  moreover have "distinct (map fst (m_evidence (initial_maps d)))" by (simp add: initial_maps_def)
  ultimately have "find_by link_id (evidence_of (apply_ops (ops p) d)) i = Some l \<Longrightarrow>
      map_of (m_evidence (fold maps_step (ops p) (initial_maps d))) i = Some l" for i l
    using assms by metis
  then have get: "find_by link_id (evidence_of (apply_ops (ops p) d)) i = Some l \<Longrightarrow>
      map_of (m_evidence (ls_maps (applyPatchToMaps d p))) i = Some l" for i l
    by (simp add: applyPatchToMaps_def ls_maps_fold)
  have "distinct (map link_id (evidence_of (apply_ops (ops p) d)))"
    using ids_distinct_apply_ops [OF assms] by (simp add: ids_distinct_def)
  from find_by_distinct [OF this] get show ?thesis by (force dest: map_of_SomeD)
qed

section \<open>Soundness of the linter\<close>

definition endpoint_in :: "document \<Rightarrow> endpoint_kind \<Rightarrow> string \<Rightarrow> bool" where
  "endpoint_in d k i \<longleftrightarrow> i \<in> (case k of CardEnd \<Rightarrow> card_id ` set (cards d) | IslandEnd \<Rightarrow> island_id ` set (islands d))"

definition references_ok :: "document \<Rightarrow> bool" where
  "references_ok d \<longleftrightarrow>
     (\<forall>x \<in> set (islands d). set (cardIds x) \<subseteq> card_id ` set (cards d)) \<and>
     (\<forall>e \<in> set (edges d). endpoint_in d (edge_fromKind e) (fromId e) \<and> endpoint_in d (edge_toKind e) (toId e)) \<and>
     (\<forall>l \<in> set (evidence_of d). {fromCardId l, toCardId l} \<subseteq> card_id ` set (cards d))"

lemma severity_op: "i \<in> set (lint_P003_op s op) \<union> set (lint_P004_op s op) \<Longrightarrow> li_severity i = LintWarn"
  by (cases op) (auto simp: Let_def split: if_splits)

lemma mem_unless: "i \<in> set (if b then [] else [x]) \<longleftrightarrow> \<not> b \<and> i = x"
  by simp

lemma P005_issue: "i \<in> set (lint_P005 s) \<Longrightarrow> li_severity i = LintWarn \<and> li_code i = ''P005''"
proof -
  assume "i \<in> set (lint_P005 s)"
  then obtain r where "i \<in> set (lint_P005_summary s r)" unfolding lint_P005_def by auto
  then show ?thesis
    unfolding lint_P005_summary_def Let_def mem_unless by (elim conjE) (simp only: lint_issue.select_convs simp_thms)
qed

lemma severities:
  "list_ex (\<lambda>i. li_severity i = LintError) (lint_P007 p) \<longleftrightarrow> lint_P007 p \<noteq> []"
  "\<not> list_ex (\<lambda>i. li_severity i = LintError) (lint_P008 p)"
  "\<not> list_ex (\<lambda>i. li_severity i = LintError) (lint_P006 d p)"
  "list_ex (\<lambda>i. li_severity i = LintError) (lint_P001 s) \<longleftrightarrow> lint_P001 s \<noteq> []"
  "list_ex (\<lambda>i. li_severity i = LintError) (lint_P002 s) \<longleftrightarrow> lint_P002 s \<noteq> []"
  "\<not> list_ex (\<lambda>i. li_severity i = LintError) (lint_P003 s p)"
  "list_ex (\<lambda>i. li_severity i = LintError) (lint_P009 s) \<longleftrightarrow> lint_P009 s \<noteq> []"
  "\<not> list_ex (\<lambda>i. li_severity i = LintError) (lint_P004 s p)"
  "\<not> list_ex (\<lambda>i. li_severity i = LintError) (lint_P005 s)"
proof -
  show "list_ex (\<lambda>i. li_severity i = LintError) (lint_P007 p) \<longleftrightarrow> lint_P007 p \<noteq> []"
    by (auto simp: list_ex_iff lint_P007_def filter_empty_conv)
  show "\<not> list_ex (\<lambda>i. li_severity i = LintError) (lint_P008 p)" by (auto simp: list_ex_iff lint_P008_def)
  show "\<not> list_ex (\<lambda>i. li_severity i = LintError) (lint_P006 d p)"
    by (auto simp: list_ex_iff lint_P006_def split: option.splits if_splits)
  show "list_ex (\<lambda>i. li_severity i = LintError) (lint_P001 s) \<longleftrightarrow> lint_P001 s \<noteq> []"
    by (auto simp: list_ex_iff lint_P001_def filter_empty_conv)
  show "list_ex (\<lambda>i. li_severity i = LintError) (lint_P002 s) \<longleftrightarrow> lint_P002 s \<noteq> []"
    by (auto simp: list_ex_iff lint_P002_def filter_empty_conv)
  show "\<not> list_ex (\<lambda>i. li_severity i = LintError) (lint_P003 s p)"
    by (auto simp: list_ex_iff lint_P003_def dest: severity_op [OF UnI1])
  show "list_ex (\<lambda>i. li_severity i = LintError) (lint_P009 s) \<longleftrightarrow> lint_P009 s \<noteq> []"
    by (auto simp: list_ex_iff lint_P009_def Let_def filter_empty_conv)
  show "\<not> list_ex (\<lambda>i. li_severity i = LintError) (lint_P004 s p)"
    by (auto simp: list_ex_iff lint_P004_def dest: severity_op [OF UnI2])
  show "\<not> list_ex (\<lambda>i. li_severity i = LintError) (lint_P005 s)"
    by (auto simp: list_ex_iff dest: P005_issue)
qed

lemma shouldBlock_iff:
  "shouldBlockPatchApplyByLint (Some (lintPatchAgainstCurrentDoc d p)) \<longleftrightarrow>
     (let s = applyPatchToMaps d p in lint_P007 p \<noteq> [] \<or> lint_P001 s \<noteq> [] \<or> lint_P002 s \<noteq> [] \<or> lint_P009 s \<noteq> [])"
  by (simp add: shouldBlockPatchApplyByLint_def lintPatchAgainstCurrentDoc_def severities Let_def)

lemma opIdCounts_eq:
  "map_of (opIdCounts os) i = (if i \<in> op_id ` set os then Some (count (mset (map op_id os)) i) else None)"
proof (induction os rule: rev_induct)
  case Nil
  then show ?case by (simp add: opIdCounts_def)
next
  case (snoc op os)
  have "opIdCounts (os @ [op]) = AList.update (op_id op) (nullish (map_of (opIdCounts os) (op_id op)) 0 + 1) (opIdCounts os)"
    by (simp add: opIdCounts_def)
  then show ?case using snoc by (auto simp: update_conv' count_eq_zero_iff)
qed

lemma distinct_opIdCounts: "distinct (map fst (opIdCounts os))"
  by (induction os rule: rev_induct) (simp_all add: opIdCounts_def distinct_update)

lemma lint_P007_iff: "lint_P007 p = [] \<longleftrightarrow> distinct (map op_id (ops p))"
proof -
  have "lint_P007 p = [] \<longleftrightarrow> (\<forall>(i, n) \<in> set (opIdCounts (ops p)). n \<le> 1)"
    by (auto simp: lint_P007_def filter_empty_conv)
  also have "\<dots> \<longleftrightarrow> (\<forall>i n. map_of (opIdCounts (ops p)) i = Some n \<longrightarrow> n \<le> 1)"
    using distinct_opIdCounts [of "ops p"] by (auto simp: split_def map_of_eq_Some_iff)
  also have "\<dots> \<longleftrightarrow> (\<forall>i \<in> set (map op_id (ops p)). count (mset (map op_id (ops p))) i \<le> 1)"
    unfolding opIdCounts_eq by auto
  also have "\<dots> \<longleftrightarrow> distinct (map op_id (ops p))"
    unfolding distinct_count_atmost_1
    by (auto simp: count_mset_0_iff le_Suc_eq simp del: mset_map)
  finally show ?thesis .
qed

lemma dangling_checks:
  fixes p :: patch
  assumes "ids_distinct d"
  defines "s \<equiv> applyPatchToMaps d p" and "d' \<equiv> apply_ops (ops p) d"
  shows "lint_P001 s = [] \<longleftrightarrow> (\<forall>x \<in> set (islands d'). set (cardIds x) \<subseteq> card_id ` set (cards d'))"
    and "lint_P002 s = [] \<longleftrightarrow>
      (\<forall>e \<in> set (edges d'). endpoint_in d' (edge_fromKind e) (fromId e) \<and> endpoint_in d' (edge_toKind e) (toId e))"
    and "lint_P009 s = [] \<longleftrightarrow>
      (\<forall>l \<in> set (values_of (m_evidence (ls_maps s))). {fromCardId l, toCardId l} \<subseteq> card_id ` set (cards d'))"
proof -
  have hc: "has_key (m_cards (ls_maps s)) i \<longleftrightarrow> i \<in> card_id ` set (cards d')" for i
    using maps_simulate(1) [OF assms(1), of p] unfolding dom_find_by s_def d'_def by blast
  have hi: "has_key (m_islands (ls_maps s)) i \<longleftrightarrow> i \<in> island_id ` set (islands d')" for i
    using maps_simulate(2) [OF assms(1), of p] unfolding s_def d'_def by (simp add: find_by_None)
  show "lint_P001 s = [] \<longleftrightarrow> (\<forall>x \<in> set (islands d'). set (cardIds x) \<subseteq> card_id ` set (cards d'))"
    using values_simulate(1) [OF assms(1), of p]
    by (auto simp: lint_P001_def filter_empty_conv island_missing_def hc s_def [symmetric] d'_def [symmetric] simp del: not_None_eq)
  have em: "endpoint_missing (ls_maps s) k i \<longleftrightarrow> \<not> endpoint_in d' k i" for k i
    by (cases k) (simp_all add: endpoint_missing_def endpoint_in_def hc hi del: not_None_eq)
  show "lint_P002 s = [] \<longleftrightarrow>
      (\<forall>e \<in> set (edges d'). endpoint_in d' (edge_fromKind e) (fromId e) \<and> endpoint_in d' (edge_toKind e) (toId e))"
    using values_simulate(2) [OF assms(1), of p]
    by (auto simp: lint_P002_def filter_empty_conv edge_missing_def em s_def [symmetric] d'_def [symmetric])
  show "lint_P009 s = [] \<longleftrightarrow>
      (\<forall>l \<in> set (values_of (m_evidence (ls_maps s))). {fromCardId l, toCardId l} \<subseteq> card_id ` set (cards d'))"
    by (auto simp: lint_P009_def filter_empty_conv evidence_missing_def hc simp del: not_None_eq)
qed

text \<open>Without deletions of cards the links are simulated exactly too.\<close>

fun evidence_edit :: "patch_op \<Rightarrow> evidence_link edit option" where
  "evidence_edit (UpsertEvidenceLink _ l) = Some (Put (link_id l) l)"
| "evidence_edit (DeleteEvidenceLink _ i) = Some (Del i)"
| "evidence_edit _ = None"

fun deletes_card :: "patch_op \<Rightarrow> bool" where
  "deletes_card (DeleteCard _ _) \<longleftrightarrow> True"
| "deletes_card _ \<longleftrightarrow> False"

lemma evidence_edits_document:
  "\<not> list_ex deletes_card os \<Longrightarrow> evidence_of (apply_ops os d) =
     run_edits (\<lambda>k v xs. upsertById link_id xs v) (remove_by link_id) (edits evidence_edit os) (evidence_of d)"
proof (induction os arbitrary: d)
  case (Cons op os)
  then show ?case by (cases op) (simp_all add: List.map_filter_simps)
qed (simp add: List.map_filter_simps)

lemma evidence_edits_maps:
  "m_evidence (fold maps_step os m) = run_edits AList.update AList.delete (edits evidence_edit os) (m_evidence m)"
proof (induction os arbitrary: m)
  case (Cons op os)
  then show ?case by (cases op) (simp_all add: List.map_filter_simps)
qed (simp add: List.map_filter_simps)

lemma ok_edits_evidence: "ok_edits (\<lambda>k v. link_id v = k) (edits evidence_edit os)"
  by (induction os) (auto simp: List.map_filter_simps elim!: evidence_edit.elims split: option.splits)

lemma evidence_simulate_exact:
  assumes "ids_distinct d" "\<not> list_ex deletes_card (ops p)"
  shows "set (values_of (m_evidence (ls_maps (applyPatchToMaps d p)))) = set (evidence_of (apply_ops (ops p) d))"
proof (rule values_eq)
  show "distinct (map fst (m_evidence (ls_maps (applyPatchToMaps d p))))"
    by (simp add: applyPatchToMaps_def ls_maps_fold evidence_edits_maps initial_maps_def jsmap.run_edits_invar)
  show "distinct (map link_id (evidence_of (apply_ops (ops p) d)))"
    using ids_distinct_apply_ops [OF assms(1)] by (simp add: ids_distinct_def)
  have "distinct (map link_id (evidence_of d))" using assms(1) by (simp add: ids_distinct_def)
  then show "map_of (m_evidence (ls_maps (applyPatchToMaps d p))) = find_by link_id (evidence_of (apply_ops (ops p) d))"
    by (simp add: applyPatchToMaps_def ls_maps_fold evidence_edits_maps evidence_edits_document [OF assms(2)]
        arr.run_edits_abs ok_edits_evidence jsmap.run_edits_abs initial_maps_def map_of_new_map_by)
qed

lemma apply_all_ops: "applyPatchWithResolutions E cur p R None None = apply_ops (ops p) cur"
proof -
  have "filter (op_chosen None {} R) (ops p) = ops p" by (simp add: op_chosen_def)
  then show ?thesis by (simp add: applyPatchWithResolutions_def applyDetailed_eq Let_def)
qed

text \<open>C4. Soundness of the linter: when it does not block a patch, the operation identifiers are
  distinct and the document after applying the patch has no dangling reference: the cards of every
  island, the endpoints of every edge and the cards of every evidence link exist.\<close>

theorem lint_sound:
  assumes "ids_distinct cur"
    and "\<not> shouldBlockPatchApplyByLint (Some (lintPatchAgainstCurrentDoc cur p))"
  shows "distinct (map op_id (ops p)) \<and> references_ok (applyPatchWithResolutions E cur p R None None)"
  using assms(2) dangling_checks [OF assms(1), of p] evidence_simulate [OF assms(1), of p] lint_P007_iff [of p]
  unfolding shouldBlock_iff Let_def apply_all_ops references_ok_def by blast

definition ex_links_doc :: document where
  "ex_links_doc = (mk_doc [mk_card ''c1'' ''a'' 0 0, mk_card ''c2'' ''b'' 1 1] [mk_edge ''e1'' ''c1'' ''c2'' ''related''] [mk_island ''i1'' [''c1'']])
     \<lparr>evidenceLinks := Some [mk_link ''l1'' Supports ''c1'' ''c2'']\<rparr>"

lemmas lint_eval = ex_links_doc_def shouldBlockPatchApplyByLint_def lintPatchAgainstCurrentDoc_def applyPatchToMaps_def
  lint_maps_step_def initial_maps_def new_map_def lint_P001_def lint_P002_def lint_P003_def lint_P004_def lint_P005_def
  lint_P005_summary_def lint_P006_def lint_P007_def lint_P008_def lint_P009_def Let_def opIdCounts_def upsertOpIdsByEntityKey_def
  island_missing_def edge_missing_def edge_delete_op_def endpoint_missing_def endpoint_delete_op_def evidence_missing_def
  delete_card_refs_def edge_touches_island_def

theorem lint_sound_witness:
  "references_ok (applyPatchWithResolutions demo_engine ex_links_doc (mk_patch [UpsertIsland ''o1'' (mk_island ''i2'' [''c2''])]) (\<lambda>_. None) None None)"
proof -
  have "ids_distinct ex_links_doc" by (simp add: ids_distinct_def ex_links_doc_def)
  moreover have "\<not> shouldBlockPatchApplyByLint
      (Some (lintPatchAgainstCurrentDoc ex_links_doc (mk_patch [UpsertIsland ''o1'' (mk_island ''i2'' [''c2''])])))"
    by (simp add: lint_eval)
  ultimately show ?thesis by (rule lint_sound [THEN conjunct2])
qed

text \<open>C8. For patches that delete no card the linter is exact: it blocks the patch if and only if an
  operation identifier is used twice or applying the patch leaves a dangling reference.\<close>

theorem lint_exact:
  assumes "ids_distinct cur" and "\<not> list_ex deletes_card (ops p)"
  shows "shouldBlockPatchApplyByLint (Some (lintPatchAgainstCurrentDoc cur p)) \<longleftrightarrow>
    \<not> distinct (map op_id (ops p)) \<or> \<not> references_ok (applyPatchWithResolutions E cur p R None None)"
  using dangling_checks [OF assms(1), of p] lint_P007_iff [of p]
  unfolding shouldBlock_iff Let_def apply_all_ops references_ok_def evidence_simulate_exact [OF assms] by blast

theorem lint_exact_witness:
  "shouldBlockPatchApplyByLint (Some (lintPatchAgainstCurrentDoc ex_links_doc (mk_patch [UpsertIsland ''o1'' (mk_island ''i2'' [''c9''])])))"
  using lint_exact [of ex_links_doc "mk_patch [UpsertIsland ''o1'' (mk_island ''i2'' [''c9''])]" demo_engine "\<lambda>_. None"]
  by (simp add: ex_links_doc_def ids_distinct_def apply_all_ops references_ok_def)

text \<open>With deletions of cards it is not: deleting a card that only an evidence link mentions is
  blocked by P009, although applying the patch removes that link.\<close>

lemma lint_P009_overreports:
  "let d = (mk_doc [mk_card ''c1'' ''a'' 0 0, mk_card ''c2'' ''b'' 1 1] [] [])\<lparr>evidenceLinks := Some [mk_link ''l1'' Supports ''c1'' ''c2'']\<rparr>;
       p = mk_patch [DeleteCard ''o1'' ''c2'']
   in shouldBlockPatchApplyByLint (Some (lintPatchAgainstCurrentDoc d p)) \<and>
      references_ok (applyPatchWithResolutions demo_engine d p (\<lambda>_. None) None None)"
  by (simp add: lint_eval apply_all_ops references_ok_def remove_by_def)

end
