(* ===== verification/JS_Text.thy ===== *)
theory JS_Text
  imports Json_Value "HOL-Library.Word"
begin

text \<open>
  Texts that the program computes: the decimal text of a counter (\<open>nat_str\<close>), hexadecimal texts, and
  \<open>utils/fnv1a_hash.ts\<close>, the 32-bit FNV-1a hash (\<open>Math.imul\<close> wraps at 32 bits, so the hash is a
  \<open>32 word\<close>). A character contributes its code.
\<close>

unbundle bit_operations_syntax

fun radix_str :: "nat \<Rightarrow> nat \<Rightarrow> string" where
  "radix_str b n = (if b < 2 \<or> n < b then [hex_digit n] else radix_str b (n div b) @ [hex_digit (n mod b)])"

declare radix_str.simps [simp del]

definition nat_str :: "nat \<Rightarrow> string" where
  "nat_str n = radix_str 10 n"

definition padStart :: "nat \<Rightarrow> char \<Rightarrow> string \<Rightarrow> string" where
  "padStart n c s = replicate (n - length s) c @ s"

definition fnv_step :: "char \<Rightarrow> 32 word \<Rightarrow> 32 word" where
  "fnv_step c hash = (hash XOR word_of_nat (of_char c)) * 0x01000193"

definition fnv1aHash :: "string \<Rightarrow> string" where
  "fnv1aHash input = padStart 8 (CHR ''0'') (radix_str 16 (unat (fold fnv_step input 0x811c9dc5)))"

section \<open>Facts about the texts\<close>

lemma length_radix_str_le:
  assumes "2 \<le> b"
  shows "n < b ^ k \<Longrightarrow> 0 < k \<Longrightarrow> length (radix_str b n) \<le> k"
proof (induction b n arbitrary: k rule: radix_str.induct)
  case (1 b n)
  show ?case
  proof (cases "b < 2 \<or> n < b")
    case False
    then obtain j where k: "k = Suc j" "0 < j"
      using "1.prems" by (metis Suc_pred leD le_less linorder_not_less power_one_right not_gr_zero One_nat_def)
    then have "n div b < b ^ j"
      using "1.prems" by (simp add: less_mult_imp_div_less mult.commute)
    with False k 1 show ?thesis by (subst radix_str.simps) auto
  qed (use "1.prems" in \<open>subst radix_str.simps, auto\<close>)
qed

lemma radix_str_digits: "2 \<le> b \<Longrightarrow> b \<le> 16 \<Longrightarrow> set (radix_str b n) \<subseteq> set (take b ''0123456789abcdef'')"
proof (induction b n rule: radix_str.induct)
  case (1 b n)
  have d: "m < b \<Longrightarrow> hex_digit m \<in> set (take b ''0123456789abcdef'')" for m
    using "1.prems" unfolding hex_digit_def by (auto simp: in_set_conv_nth intro!: exI [of _ m])
  from 1 d [of n] d [of "n mod b"] show ?case
    by (subst radix_str.simps) auto
qed

lemma hex_digit_inj: "m < 16 \<Longrightarrow> n < 16 \<Longrightarrow> hex_digit m = hex_digit n \<Longrightarrow> m = n"
proof -
  assume "m < 16" "n < 16" "hex_digit m = hex_digit n"
  moreover have "distinct ''0123456789abcdef''" by simp
  ultimately show "m = n" unfolding hex_digit_def by (subst (asm) nth_eq_iff_index_eq) auto
qed

lemma radix_str_not_Nil [simp]: "radix_str b n \<noteq> []"
  by (subst radix_str.simps) simp

lemma radix_str_inj: "2 \<le> b \<Longrightarrow> b \<le> 16 \<Longrightarrow> radix_str b m = radix_str b n \<Longrightarrow> m = n"
proof (induction b m arbitrary: n rule: radix_str.induct)
  case (1 b m)
  have m: "radix_str b m = (if m < b then [hex_digit m] else radix_str b (m div b) @ [hex_digit (m mod b)])"
    and n: "radix_str b n = (if n < b then [hex_digit n] else radix_str b (n div b) @ [hex_digit (n mod b)])"
    using "1.prems"(1) by (simp_all add: radix_str.simps [of b])
  have "m < b \<longleftrightarrow> n < b" using "1.prems"(3) unfolding m n by (auto split: if_splits dest: sym [of "[]"])
  moreover have "m = n" if "m < b" "n < b"
    using that 1 hex_digit_inj [of m n] unfolding m n by simp
  moreover have "m = n" if "\<not> m < b" "\<not> n < b"
  proof -
    have "radix_str b (m div b) = radix_str b (n div b)" "hex_digit (m mod b) = hex_digit (n mod b)"
      using that "1.prems"(3) unfolding m n by simp_all
    then have "m div b = n div b" "m mod b = n mod b"
      using "1.IH" [of "n div b"] that "1.prems"(1,2) hex_digit_inj [of "m mod b" "n mod b"]
      by (simp_all add: less_le_trans [OF mod_less_divisor])
    then show ?thesis by (metis div_mult_mod_eq)
  qed
  ultimately show ?case by blast
qed

lemma nat_str_inject [simp]: "nat_str m = nat_str n \<longleftrightarrow> m = n"
  unfolding nat_str_def using radix_str_inj [of 10] by auto

lemma nat_str_digits: "set (nat_str n) \<subseteq> set ''0123456789''"
  unfolding nat_str_def using radix_str_digits [of 10 n] by (simp add: numeral_eq_Suc)

lemma length_hash_text: "length (radix_str 16 (unat (h :: 32 word))) \<le> 8"
proof -
  have "unat h < 2 ^ 32" using unsigned_less [of h] by simp
  then show ?thesis by (intro length_radix_str_le) simp_all
qed

lemma fnv1aHash_length: "length (fnv1aHash s) = 8"
  using length_hash_text by (auto simp: fnv1aHash_def padStart_def)

text \<open>The hash text always has exactly eight characters, all hexadecimal digits.\<close>

theorem fnv1aHash_format: "length (fnv1aHash s) = 8 \<and> set (fnv1aHash s) \<subseteq> set ''0123456789abcdef''"
  using fnv1aHash_length radix_str_digits [of 16] by (auto simp: fnv1aHash_def padStart_def)

end
