(* ===== verification/Patch_Fix.thy ===== *)
theory Patch_Fix
  imports Patch_Lint JS_Text
begin

text \<open>
  \<open>domain/patch/patch_fix.ts\<close>: proposals that repair a patch the linter complains about, and their
  application to the patch. The \<open>Set\<close>s of the code are lists of distinct elements in insertion order.
\<close>

section \<open>Proposals\<close>

datatype patch_transform =
    removeMissingIslandCardRefs (tr_islandId: string) (removedCardIds: "string list")
  | dropEdgesWithMissingEndpoints (removedEdgeIds: "string list")
  | pruneMissingRelationGroundings (tr_sourceSignature: string) (removedCardIds: "string list") (removedEdgeIds: "string list")

datatype fix_severity = FixSafe | FixRisky

record fix_proposal =
  fixId :: string
  fix_title :: string
  fix_description :: string
  fix_severity_of :: fix_severity
  targetIssueCodes :: "string list"
  affectedOpIds :: "string list"
  patchTransform :: patch_transform

record simulated_model =
  sim_patch :: patch
  sim_cardIds :: "string list"
  sim_edgeIds :: "string list"

definition parseEntityId :: "string option \<Rightarrow> string \<Rightarrow> string option" where
  "parseEntityId entityKey pre =
     (case entityKey of
        None \<Rightarrow> None
      | Some k \<Rightarrow> if k = [] \<or> \<not> starts_with (pre @ '':'') k then None else Some (drop (length pre + 1) k))"

text \<open>\<open>if (!id) continue\<close>: no identifier, or the empty one.\<close>

definition truthy_id :: "string option \<Rightarrow> string option" where
  "truthy_id x = (case x of None \<Rightarrow> None | Some i \<Rightarrow> if i = [] then None else Some i)"

fun upserts_island :: "string \<Rightarrow> patch_op \<Rightarrow> bool" where
  "upserts_island i (UpsertIsland _ x) \<longleftrightarrow> island_id x = i"
| "upserts_island i _ \<longleftrightarrow> False"

fun upserted_edge :: "patch_op \<Rightarrow> string option" where
  "upserted_edge (UpsertEdge _ e) = Some (edge_id e)"
| "upserted_edge _ = None"

fun upserted_relation :: "patch_op \<Rightarrow> relation_summary option" where
  "upserted_relation (UpsertRelationSummary _ r) = Some r"
| "upserted_relation _ = None"

definition findUpsertIslandOpIds :: "patch \<Rightarrow> string \<Rightarrow> string list" where
  "findUpsertIslandOpIds patch islandId = map op_id (filter (upserts_island islandId) (ops patch))"

definition upserts_edge_in :: "string list \<Rightarrow> patch_op \<Rightarrow> bool" where
  "upserts_edge_in edgeIds op = (case upserted_edge op of None \<Rightarrow> False | Some i \<Rightarrow> i \<in> set edgeIds)"

definition findUpsertEdgeOpIds :: "patch \<Rightarrow> string list \<Rightarrow> string list" where
  "findUpsertEdgeOpIds patch edgeIds = map op_id (filter (upserts_edge_in edgeIds) (ops patch))"

definition upserts_relation :: "string \<Rightarrow> patch_op \<Rightarrow> bool" where
  "upserts_relation sig op = (case upserted_relation op of None \<Rightarrow> False | Some r \<Rightarrow> sourceSignature r = sig)"

definition findUpsertRelationSummaryOpIds :: "patch \<Rightarrow> string \<Rightarrow> string list" where
  "findUpsertRelationSummaryOpIds patch sig = map op_id (filter (upserts_relation sig) (ops patch))"

definition p001_step :: "lint_issue \<Rightarrow> (string \<times> string list) list \<Rightarrow> (string \<times> string list) list" where
  "p001_step issue m =
     (if li_code issue \<noteq> ''P001'' then m
      else case truthy_id (parseEntityId (li_entityKey issue) ''island'') of
        None \<Rightarrow> m
      | Some islandId \<Rightarrow>
          AList.update islandId (fold js_add (nullish (relatedIds issue) []) (nullish (map_of m islandId) [])) m)"

definition p001ByIsland :: "lint_issue list \<Rightarrow> (string \<times> string list) list" where
  "p001ByIsland issues = fold p001_step issues []"

definition p001_proposals :: "patch \<Rightarrow> lint_issue list \<Rightarrow> fix_proposal list" where
  "p001_proposals patch issues = concat (map (\<lambda>(islandId, removed).
     let affected = findUpsertIslandOpIds patch islandId
     in if length removed = 0 \<or> length affected = 0 then []
        else [\<lparr>fixId = ''fix-p001-'' @ islandId, fix_title = ''Remove missing card refs from island '' @ islandId,
               fix_description = ''Remove '' @ nat_str (length removed) @ '' missing card reference(s) from island '' @ islandId @ ''.'',
               fix_severity_of = FixSafe, targetIssueCodes = [''P001''], affectedOpIds = affected,
               patchTransform = removeMissingIslandCardRefs islandId removed\<rparr>]) (p001ByIsland issues))"

definition p002_step :: "lint_issue \<Rightarrow> string list \<Rightarrow> string list" where
  "p002_step issue s =
     (if li_code issue \<noteq> ''P002'' then s
      else case truthy_id (parseEntityId (li_entityKey issue) ''edge'') of None \<Rightarrow> s | Some edgeId \<Rightarrow> js_add edgeId s)"

definition p002_missing :: "lint_issue list \<Rightarrow> string list" where
  "p002_missing issues = fold p002_step issues []"

definition p002_proposals :: "patch \<Rightarrow> lint_issue list \<Rightarrow> fix_proposal list" where
  "p002_proposals patch issues =
     (let missingEdgeIds = p002_missing issues;
          affected = findUpsertEdgeOpIds patch missingEdgeIds;
          removed = uniq (filter (\<lambda>i. i \<in> set missingEdgeIds) (List.map_filter upserted_edge (ops patch)))
      in if length missingEdgeIds > 0 \<and> length affected > 0 \<and> length removed > 0
         then [\<lparr>fixId = ''fix-p002-drop-upsert-edges-with-missing-endpoints'',
                fix_title = ''Drop upsert_edge ops with missing endpoints'',
                fix_description = ''Remove '' @ nat_str (length removed) @ '' edge upsert op(s) that reference missing card/island endpoints.'',
                fix_severity_of = FixSafe, targetIssueCodes = [''P002''], affectedOpIds = affected,
                patchTransform = dropEdgesWithMissingEndpoints removed\<rparr>]
         else [])"

definition p005_signatures :: "lint_issue list \<Rightarrow> string list" where
  "p005_signatures issues = fold (\<lambda>issue s.
     if li_code issue \<noteq> ''P005'' then s
     else case truthy_id (parseEntityId (li_entityKey issue) ''relSummary'') of None \<Rightarrow> s | Some sig \<Rightarrow> js_add sig s) issues []"

definition p005_missing :: "simulated_model \<Rightarrow> relation_summary \<Rightarrow> string list \<times> string list" where
  "p005_missing tempModel r =
     (let noCard = (\<lambda>i. i \<notin> set (sim_cardIds tempModel)); noEdge = (\<lambda>i. i \<notin> set (sim_edgeIds tempModel));
          history = nullish (rel_history r) []
      in (uniq (filter noCard (groundingCardIds r @ concat (map (\<lambda>h. nullish (groundingCardIdsSnapshot h) []) history))),
          uniq (filter noEdge (groundingEdgeIds r @ concat (map (\<lambda>h. nullish (groundingEdgeIdsSnapshot h) []) history)))))"

definition p005_proposal :: "simulated_model \<Rightarrow> string \<Rightarrow> fix_proposal list" where
  "p005_proposal tempModel sig =
     (case List.find (\<lambda>r. sourceSignature r = sig) (List.map_filter upserted_relation (ops (sim_patch tempModel))) of
        None \<Rightarrow> []
      | Some r \<Rightarrow>
          (let (removedCards, removedEdges) = p005_missing tempModel r;
               affected = findUpsertRelationSummaryOpIds (sim_patch tempModel) sig
           in if removedCards = [] \<and> removedEdges = [] \<or> length affected = 0 then []
              else [\<lparr>fixId = ''fix-p005-'' @ sig, fix_title = ''Prune missing grounding ids in relation '' @ sig,
                     fix_description = ''Remove missing grounding refs (cards: '' @ nat_str (length removedCards) @ '', edges: '' @
                       nat_str (length removedEdges) @ '') from relation summary '' @ sig @ ''.'',
                     fix_severity_of = FixSafe, targetIssueCodes = [''P005''], affectedOpIds = affected,
                     patchTransform = pruneMissingRelationGroundings sig removedCards removedEdges\<rparr>]))"

definition proposeFixesAgainstSimulatedPostApply :: "simulated_model \<Rightarrow> lint_issue list \<Rightarrow> fix_proposal list" where
  "proposeFixesAgainstSimulatedPostApply tempModel issues =
     p001_proposals (sim_patch tempModel) issues @ p002_proposals (sim_patch tempModel) issues @
     concat (map (p005_proposal tempModel) (p005_signatures issues))"

fun sim_ids_step :: "patch_op \<Rightarrow> string list \<times> string list \<Rightarrow> string list \<times> string list" where
  "sim_ids_step (UpsertCard _ c) (cs, es) = (js_add (card_id c) cs, es)"
| "sim_ids_step (DeleteCard _ i) (cs, es) = (removeAll i cs, es)"
| "sim_ids_step (UpsertEdge _ e) (cs, es) = (cs, js_add (edge_id e) es)"
| "sim_ids_step (DeleteEdge _ i) (cs, es) = (cs, removeAll i es)"
| "sim_ids_step _ st = st"

definition proposeFixes :: "document \<Rightarrow> patch \<Rightarrow> lint_issue list \<Rightarrow> fix_proposal list" where
  "proposeFixes currentDoc patch issues =
     (let (cs, es) = fold sim_ids_step (ops patch) (uniq (map card_id (cards currentDoc)), uniq (map edge_id (edges currentDoc)))
      in proposeFixesAgainstSimulatedPostApply \<lparr>sim_patch = patch, sim_cardIds = cs, sim_edgeIds = es\<rparr> issues)"

section \<open>Applying proposals\<close>

abbreviation without :: "string list \<Rightarrow> string list \<Rightarrow> string list" where
  "without removed xs \<equiv> filter (\<lambda>x. x \<notin> set removed) xs"

fun applyPatchTransform :: "patch_op \<Rightarrow> patch_transform \<Rightarrow> patch_op" where
  "applyPatchTransform (UpsertIsland o' x) (removeMissingIslandCardRefs islandId removed) =
     (if island_id x = islandId then UpsertIsland o' (x\<lparr>cardIds := without removed (cardIds x)\<rparr>) else UpsertIsland o' x)"
| "applyPatchTransform (UpsertRelationSummary o' r) (pruneMissingRelationGroundings sig rc re) =
     (if sourceSignature r = sig
      then UpsertRelationSummary o' (r\<lparr>groundingCardIds := without rc (groundingCardIds r),
             groundingEdgeIds := without re (groundingEdgeIds r),
             rel_history := Some (map (\<lambda>h. h\<lparr>groundingCardIdsSnapshot := Some (without rc (nullish (groundingCardIdsSnapshot h) [])),
               groundingEdgeIdsSnapshot := Some (without re (nullish (groundingEdgeIdsSnapshot h) []))\<rparr>) (nullish (rel_history r) []))\<rparr>)
      else UpsertRelationSummary o' r)"
| "applyPatchTransform op _ = op"

fun drop_ids :: "patch_transform \<Rightarrow> string list" where
  "drop_ids (dropEdgesWithMissingEndpoints is) = is"
| "drop_ids _ = []"

fun is_drop :: "patch_transform \<Rightarrow> bool" where
  "is_drop (dropEdgesWithMissingEndpoints _) = True"
| "is_drop _ = False"

definition applyFixesToPatch :: "patch \<Rightarrow> string list \<Rightarrow> fix_proposal list \<Rightarrow> patch" where
  "applyFixesToPatch originalPatch selectedFixIds proposals =
     (let selected = map patchTransform (filter (\<lambda>p. fixId p \<in> set selectedFixIds) proposals);
          dropEdgeIds = concat (map drop_ids selected);
          transforms = filter (\<lambda>t. \<not> is_drop t) selected
      in originalPatch\<lparr>ops := map (\<lambda>op. fold (\<lambda>t op. applyPatchTransform op t) transforms op)
           (filter (\<lambda>op. \<not> upserts_edge_in dropEdgeIds op) (ops originalPatch))\<rparr>)"

section \<open>Issues by code\<close>

lemma code_of_op_issue: "i \<in> set (lint_P003_op s op) \<Longrightarrow> li_code i = ''P003''" "i \<in> set (lint_P004_op s op) \<Longrightarrow> li_code i = ''P004''"
  by (cases op; auto simp: Let_def split: if_splits)+

lemma codes:
  "i \<in> set (lint_P007 p) \<Longrightarrow> li_code i = ''P007''" "i \<in> set (lint_P008 p) \<Longrightarrow> li_code i = ''P008''"
  "i \<in> set (lint_P006 d p) \<Longrightarrow> li_code i = ''P006''" "i \<in> set (lint_P001 s) \<Longrightarrow> li_code i = ''P001''"
  "i \<in> set (lint_P002 s) \<Longrightarrow> li_code i = ''P002''" "i \<in> set (lint_P003 s p) \<Longrightarrow> li_code i = ''P003''"
  "i \<in> set (lint_P009 s) \<Longrightarrow> li_code i = ''P009''" "i \<in> set (lint_P004 s p) \<Longrightarrow> li_code i = ''P004''"
  "i \<in> set (lint_P005 s) \<Longrightarrow> li_code i = ''P005''"
proof -
  show "i \<in> set (lint_P007 p) \<Longrightarrow> li_code i = ''P007''" by (auto simp: lint_P007_def)
  show "i \<in> set (lint_P008 p) \<Longrightarrow> li_code i = ''P008''" by (auto simp: lint_P008_def)
  show "i \<in> set (lint_P006 d p) \<Longrightarrow> li_code i = ''P006''" by (auto simp: lint_P006_def split: option.splits if_splits)
  show "i \<in> set (lint_P001 s) \<Longrightarrow> li_code i = ''P001''" by (auto simp: lint_P001_def)
  show "i \<in> set (lint_P002 s) \<Longrightarrow> li_code i = ''P002''" by (auto simp: lint_P002_def)
  show "i \<in> set (lint_P003 s p) \<Longrightarrow> li_code i = ''P003''" by (auto simp: lint_P003_def dest: code_of_op_issue)
  show "i \<in> set (lint_P009 s) \<Longrightarrow> li_code i = ''P009''" by (auto simp: lint_P009_def Let_def)
  show "i \<in> set (lint_P004 s p) \<Longrightarrow> li_code i = ''P004''" by (auto simp: lint_P004_def dest: code_of_op_issue)
  show "i \<in> set (lint_P005 s) \<Longrightarrow> li_code i = ''P005''"
    by (rule P005_issue [THEN conjunct2])
qed

lemma issue_by_code:
  "i \<in> set (lintPatchAgainstCurrentDoc d p) \<Longrightarrow> li_code i = ''P001'' \<Longrightarrow> i \<in> set (lint_P001 (applyPatchToMaps d p))"
  "i \<in> set (lintPatchAgainstCurrentDoc d p) \<Longrightarrow> li_code i = ''P002'' \<Longrightarrow> i \<in> set (lint_P002 (applyPatchToMaps d p))"
  "set (lint_P001 (applyPatchToMaps d p)) \<subseteq> set (lintPatchAgainstCurrentDoc d p)"
  "set (lint_P002 (applyPatchToMaps d p)) \<subseteq> set (lintPatchAgainstCurrentDoc d p)"
  unfolding lintPatchAgainstCurrentDoc_def Let_def by (auto dest: codes)

lemma parseEntityId_key:
  "parseEntityId (Some (''island:'' @ i)) ''island'' = Some i" "parseEntityId (Some (''edge:'' @ i)) ''edge'' = Some i"
  by (simp_all add: parseEntityId_def starts_with_def)

lemma truthy_id_Some [simp]: "i \<noteq> [] \<Longrightarrow> truthy_id (Some i) = Some i"
  by (simp add: truthy_id_def)

section \<open>What the proposals contain\<close>

lemma p001_step_mono:
  "\<exists>R'. map_of m i = Some R \<longrightarrow> map_of (p001_step issue m) i = Some R' \<and> set R \<subseteq> set R'"
  by (cases "truthy_id (parseEntityId (li_entityKey issue) ''island'')")
    (auto simp: p001_step_def update_conv')

lemma p001_fold_mono: "map_of m i = Some R \<Longrightarrow> \<exists>R'. map_of (fold p001_step issues m) i = Some R' \<and> set R \<subseteq> set R'"
proof (induction issues arbitrary: m R)
  case (Cons a issues)
  from p001_step_mono [of m i R a] Cons.prems obtain R1 where "map_of (p001_step a m) i = Some R1" "set R \<subseteq> set R1" by blast
  with Cons.IH [of "p001_step a m" R1] show ?case by auto
qed auto

lemma p001ByIsland_issue:
  assumes "issue \<in> set issues" "li_code issue = ''P001''" "li_entityKey issue = Some (''island:'' @ i)" "i \<noteq> []"
    and "relatedIds issue = Some ids"
  shows "\<exists>R. map_of (p001ByIsland issues) i = Some R \<and> set ids \<subseteq> set R"
proof -
  obtain xs ys where "issues = xs @ issue # ys" using assms(1) by (meson split_list)
  moreover have "\<exists>R. map_of (p001_step issue m) i = Some R \<and> set ids \<subseteq> set R" for m
    using assms(2,4,5) by (simp only: p001_step_def assms(3) parseEntityId_key truthy_id_Some option.case) (simp add: update_conv')
  ultimately show ?thesis
    unfolding p001ByIsland_def using p001_fold_mono by (fastforce intro: order_trans)
qed

lemma p002_missing_issue:
  assumes "issue \<in> set issues" "li_code issue = ''P002''" "li_entityKey issue = Some (''edge:'' @ i)" "i \<noteq> []"
  shows "i \<in> set (p002_missing issues)"
proof -
  have mono: "set s \<subseteq> set (fold p002_step is s)" for "is" s
  proof (induction "is" arbitrary: s)
    case (Cons a "is")
    have "set s \<subseteq> set (p002_step a s)" by (auto simp: p002_step_def split: option.splits)
    with Cons [of "p002_step a s"] show ?case by auto
  qed simp
  obtain xs ys where x: "issues = xs @ issue # ys" using assms(1) by (meson split_list)
  have "i \<in> set (p002_step issue (fold p002_step xs []))"
    using assms(2,4) by (simp only: p002_step_def assms(3) parseEntityId_key truthy_id_Some option.case) simp
  with mono [of "p002_step issue (fold p002_step xs [])" ys] show ?thesis
    unfolding p002_missing_def x by auto
qed

section \<open>Effect of the fixes on the maps\<close>

fun map_edit' :: "('v \<Rightarrow> 'w) \<Rightarrow> 'v edit \<Rightarrow> 'w edit" where
  "map_edit' f (Put k v) = Put k (f v)"
| "map_edit' f (Del k) = Del k"

lemma edit_map_touched: "k \<in> edit_key ` set es \<Longrightarrow> edit_map es m k = edit_map es m' k"
proof (induction es arbitrary: m m')
  case (Cons e es)
  show ?case
  proof (cases "k \<in> edit_key ` set es")
    case True
    then show ?thesis using Cons.IH by (cases e) auto
  next
    case False
    then show ?thesis using Cons.prems by (cases e) (auto simp: edit_map_untouched)
  qed
qed simp

lemma edit_map_map_edit:
  "edit_map (map (map_edit' f) es) m k = (if k \<in> edit_key ` set es then map_option f (edit_map es m' k) else m k)"
proof (induction es arbitrary: m m')
  case (Cons e es)
  show ?case
  proof (cases "k \<in> edit_key ` set es")
    case True
    then have h: "edit_map (map (map_edit' f) es) M k = map_option f (edit_map es M' k)" for M M'
      using Cons.IH [of M M'] by simp
    from True have "k \<in> edit_key ` set (e # es)" by simp
    then show ?thesis by (cases e) (simp_all only: list.map map_edit'.simps edit_map.simps if_True h)
  next
    case False
    then have "edit_map (map (map_edit' f) es) M k = M k" "edit_map es N k = N k" for M N
      using Cons.IH [of M m'] edit_map_untouched by auto
    with False show ?thesis by (cases e) auto
  qed
qed simp

text \<open>The transforms on one operation: they keep its kind and its target, and only prune the cards of
  islands and the grounding of relations.\<close>

abbreviation transform_op :: "patch_transform list \<Rightarrow> patch_op \<Rightarrow> patch_op" where
  "transform_op ts op \<equiv> fold (\<lambda>t op. applyPatchTransform op t) ts op"

definition prune_island :: "patch_transform list \<Rightarrow> island \<Rightarrow> island" where
  "prune_island ts x = x\<lparr>cardIds := filter (\<lambda>c. \<forall>R. removeMissingIslandCardRefs (island_id x) R \<in> set ts \<longrightarrow> c \<notin> set R) (cardIds x)\<rparr>"

lemma applyPatchTransform_island:
  "applyPatchTransform (UpsertIsland o' x) t = UpsertIsland o' (prune_island [t] x)"
  by (cases t) (auto simp: prune_island_def)

lemma prune_island_append: "prune_island ts (prune_island us x) = prune_island (us @ ts) x"
  by (auto simp: prune_island_def intro!: arg_cong [where f = "\<lambda>y. x\<lparr>cardIds := y\<rparr>"] filter_cong)

lemma prune_island_Nil [simp]: "prune_island [] x = x"
  by (simp add: prune_island_def)

lemma transform_op_island: "transform_op ts (UpsertIsland o' x) = UpsertIsland o' (prune_island ts x)"
proof (induction ts arbitrary: x)
  case (Cons t ts)
  then show ?case
    by (simp add: applyPatchTransform_island prune_island_append)
qed simp

lemma applyPatchTransform_other:
  "\<not> (\<exists>o' x. op = UpsertIsland o' x) \<Longrightarrow>
     card_edit (applyPatchTransform op t) = card_edit op \<and> edge_edit (applyPatchTransform op t) = edge_edit op \<and>
     island_edit (applyPatchTransform op t) = island_edit op \<and> op_id (applyPatchTransform op t) = op_id op \<and>
     upserted_edge (applyPatchTransform op t) = upserted_edge op \<and> \<not> (\<exists>o' x. applyPatchTransform op t = UpsertIsland o' x)"
  by (cases op; cases t) auto

lemma transform_op_other:
  "\<not> (\<exists>o' x. op = UpsertIsland o' x) \<Longrightarrow>
     card_edit (transform_op ts op) = card_edit op \<and> edge_edit (transform_op ts op) = edge_edit op \<and>
     island_edit (transform_op ts op) = island_edit op \<and> upserted_edge (transform_op ts op) = upserted_edge op"
proof (induction ts arbitrary: op)
  case (Cons t ts)
  from applyPatchTransform_other [OF Cons.prems, of t] Cons.IH [of "applyPatchTransform op t"] show ?case by simp
qed simp

lemma transform_op_edits:
  "card_edit (transform_op ts op) = card_edit op" "edge_edit (transform_op ts op) = edge_edit op"
  "island_edit (transform_op ts op) = map_option (map_edit' (prune_island ts)) (island_edit op)"
  "upserted_edge (transform_op ts op) = upserted_edge op"
proof -
  have i: "island_edit op = map_option (map_edit' (prune_island ts)) (island_edit op)" if "\<not> (\<exists>o' x. op = UpsertIsland o' x)"
    using that by (cases op) auto
  show "card_edit (transform_op ts op) = card_edit op" "edge_edit (transform_op ts op) = edge_edit op"
    "island_edit (transform_op ts op) = map_option (map_edit' (prune_island ts)) (island_edit op)"
    "upserted_edge (transform_op ts op) = upserted_edge op"
    using transform_op_other [of op ts] i
    by (cases "\<exists>o' x. op = UpsertIsland o' x"; auto simp: transform_op_island prune_island_def)+
qed

abbreviation kept :: "string list \<Rightarrow> patch_op list \<Rightarrow> patch_op list" where
  "kept drops os \<equiv> filter (\<lambda>op. \<not> upserts_edge_in drops op) os"

lemma upserts_edge_in_edits: "upserts_edge_in drops op \<Longrightarrow> card_edit op = None \<and> island_edit op = None"
  by (cases op) (auto simp: upserts_edge_in_def)

lemma fixed_edits:
  "edits card_edit (map (transform_op ts) (kept drops os)) = edits card_edit os"
  "edits island_edit (map (transform_op ts) (kept drops os)) = map (map_edit' (prune_island ts)) (edits island_edit os)"
  "edits edge_edit (map (transform_op ts) (kept drops os)) = edits edge_edit (kept drops os)"
proof (induction os)
  case (Cons op os)
  note IH = Cons.IH
  {
    case 1
    show ?case using IH(1) upserts_edge_in_edits [of drops op]
      by (auto simp: List.map_filter_simps transform_op_edits split: option.splits)
  next
    case 2
    show ?case using IH(2) upserts_edge_in_edits [of drops op]
      by (auto simp: List.map_filter_simps transform_op_edits split: option.splits)
  next
    case 3
    show ?case using IH(3)
      by (auto simp: List.map_filter_simps transform_op_edits split: option.splits)
  }
qed (simp_all add: List.map_filter_simps)

lemma edit_map_point: "m k = m' k \<Longrightarrow> edit_map es m k = edit_map es m' k"
  using edit_map_touched [of k es m m'] edit_map_untouched [of k es] by (cases "k \<in> edit_key ` set es") auto

lemma kept_edges:
  "m e = m' e \<Longrightarrow> e \<notin> set drops \<Longrightarrow> edit_map (edits edge_edit (kept drops os)) m e = edit_map (edits edge_edit os) m' e"
proof (induction os arbitrary: m m')
  case (Cons op os)
  show ?case
  proof (cases "upserts_edge_in drops op")
    case True
    then obtain o' x where op: "op = UpsertEdge o' x" "edge_id x \<in> set drops"
      by (cases op) (auto simp: upserts_edge_in_def)
    then have "m e = (m'(edge_id x \<mapsto> x)) e" using Cons.prems by auto
    from Cons.IH [of m "m'(edge_id x \<mapsto> x)", OF this Cons.prems(2)] op True show ?thesis by (simp add: List.map_filter_simps fun_upd_def)
  next
    case False
    then show ?thesis using Cons
      by (cases op) (simp_all add: List.map_filter_simps, (rule edit_map_point, simp)+)
  qed
qed (simp add: List.map_filter_simps)

lemma maps_edit_map:
  "m_cards (ls_maps (applyPatchToMaps d p)) =
     run_edits AList.update AList.delete (map flag_edit (edits card_edit (ops p))) (m_cards (initial_maps d))"
  "map_of (m_islands (ls_maps (applyPatchToMaps d p))) = edit_map (edits island_edit (ops p)) (map_of (m_islands (initial_maps d)))"
  "map_of (m_edges (ls_maps (applyPatchToMaps d p))) = edit_map (edits edge_edit (ops p)) (map_of (m_edges (initial_maps d)))"
  by (simp_all add: applyPatchToMaps_def ls_maps_fold maps_edits jsmap.run_edits_abs)

lemma edit_map_keyed:
  "edit_map es m k = Some v \<Longrightarrow> ok_edits ok es \<Longrightarrow> (\<And>k v. m k = Some v \<Longrightarrow> ok k v) \<Longrightarrow> ok k v"
proof (induction es m rule: edit_map.induct)
  case (2 k0 v0 es m)
  have "ok i w" if "(m(k0 \<mapsto> v0)) i = Some w" for i w
    using that "2.prems" by (cases "i = k0") auto
  with 2 show ?case by (simp add: fun_upd_def)
next
  case (3 k0 es m)
  have "ok i w" if "(m(k0 := None)) i = Some w" for i w
    using that "3.prems" by (cases "i = k0") auto
  with 3 show ?case by (simp add: fun_upd_def)
qed simp

lemma new_map_keyed: "map_of (new_map (map (\<lambda>x. (key x, x)) xs)) k = Some v \<Longrightarrow> key v = k"
  unfolding map_of_new_map by (auto dest: map_of_SomeD)

lemma maps_keyed:
  "map_of (m_islands (ls_maps (applyPatchToMaps d p))) k = Some x \<Longrightarrow> island_id x = k"
  "map_of (m_edges (ls_maps (applyPatchToMaps d p))) k = Some e \<Longrightarrow> edge_id e = k"
proof -
  assume "map_of (m_islands (ls_maps (applyPatchToMaps d p))) k = Some x"
  then show "island_id x = k"
    unfolding maps_edit_map using ok_edits_patch(2)
    by (rule edit_map_keyed) (use new_map_keyed in \<open>simp add: initial_maps_def\<close>)
next
  assume "map_of (m_edges (ls_maps (applyPatchToMaps d p))) k = Some e"
  then show "edge_id e = k"
    unfolding maps_edit_map using ok_edits_patch(3)
    by (rule edit_map_keyed) (use new_map_keyed in \<open>simp add: initial_maps_def\<close>)
qed

section \<open>The fixes repair what the patch writes\<close>

definition all_fixes :: "document \<Rightarrow> patch \<Rightarrow> fix_proposal list" where
  "all_fixes cur p = proposeFixes cur p (lintPatchAgainstCurrentDoc cur p)"

definition fixed_patch :: "document \<Rightarrow> patch \<Rightarrow> patch" where
  "fixed_patch cur p = applyFixesToPatch p (map fixId (all_fixes cur p)) (all_fixes cur p)"

abbreviation fix_transforms :: "document \<Rightarrow> patch \<Rightarrow> patch_transform list" where
  "fix_transforms cur p \<equiv> filter (\<lambda>t. \<not> is_drop t) (map patchTransform (all_fixes cur p))"

abbreviation fix_drops :: "document \<Rightarrow> patch \<Rightarrow> string list" where
  "fix_drops cur p \<equiv> concat (map drop_ids (map patchTransform (all_fixes cur p)))"

lemma ops_fixed_patch: "ops (fixed_patch cur p) = map (transform_op (fix_transforms cur p)) (kept (fix_drops cur p) (ops p))"
proof -
  have "filter (\<lambda>q. fixId q \<in> set (map fixId ps)) ps = ps" for ps :: "fix_proposal list" by simp
  then show ?thesis by (simp add: fixed_patch_def applyFixesToPatch_def Let_def)
qed

lemma all_fixes_eq:
  "\<exists>sm. all_fixes cur p = p001_proposals p (lintPatchAgainstCurrentDoc cur p) @ p002_proposals p (lintPatchAgainstCurrentDoc cur p) @
     concat (map (p005_proposal sm) (p005_signatures (lintPatchAgainstCurrentDoc cur p)))"
  by (auto simp: all_fixes_def proposeFixes_def proposeFixesAgainstSimulatedPostApply_def split: prod.splits)

lemma upserts_island_fixed: "upserts_island i (transform_op ts op) = upserts_island i op"
proof -
  have u: "upserts_island i op \<longleftrightarrow> (\<exists>x. island_edit op = Some (Put i x))" if "\<And>o' x. op = UpsertIsland o' x \<Longrightarrow> True" for op
    by (cases op) auto
  show ?thesis unfolding u [OF TrueI] transform_op_edits by (auto elim: map_edit'.elims)
qed

lemma m_cards_fixed: "m_cards (ls_maps (applyPatchToMaps d (fixed_patch d p))) = m_cards (ls_maps (applyPatchToMaps d p))"
  unfolding maps_edit_map ops_fixed_patch fixed_edits ..

lemma m_islands_fixed:
  "map_of (m_islands (ls_maps (applyPatchToMaps d (fixed_patch d p)))) i =
     (if list_ex (upserts_island i) (ops p)
      then map_option (prune_island (fix_transforms d p)) (map_of (m_islands (ls_maps (applyPatchToMaps d p))) i)
      else map_of (m_islands (ls_maps (applyPatchToMaps d p))) i)"
proof -
  let ?es = "edits island_edit (ops p)" and ?m = "map_of (m_islands (initial_maps d))"
  have put: "list_ex (upserts_island i) os \<Longrightarrow> i \<in> edit_key ` set (edits island_edit os)" for os
  proof (induction os)
    case (Cons op os)
    then show ?case by (cases op) (auto simp: List.map_filter_simps)
  qed simp
  have del: "\<not> list_ex (upserts_island i) os \<Longrightarrow> i \<in> edit_key ` set (edits island_edit os) \<Longrightarrow> edit_map (edits island_edit os) m i = None" for os m
  proof (induction os arbitrary: m)
    case (Cons op os)
    show ?case
    proof (cases "i \<in> edit_key ` set (edits island_edit os)")
      case True
      with Cons show ?thesis by (cases op) (auto simp: List.map_filter_simps)
    next
      case False
      with Cons.prems show ?thesis by (cases op) (auto simp: List.map_filter_simps edit_map_untouched)
    qed
  qed (simp add: List.map_filter_simps)
  show ?thesis
    unfolding maps_edit_map ops_fixed_patch fixed_edits edit_map_map_edit [where m' = ?m]
    using put [of "ops p"] del [of "ops p" ?m] edit_map_untouched [of i ?es ?m] by auto
qed

lemma dom_islands_fixed:
  "has_key (m_islands (ls_maps (applyPatchToMaps d (fixed_patch d p)))) i = has_key (m_islands (ls_maps (applyPatchToMaps d p))) i"
  by (simp add: m_islands_fixed)

lemma endpoint_missing_fixed:
  "endpoint_missing (ls_maps (applyPatchToMaps d (fixed_patch d p))) = endpoint_missing (ls_maps (applyPatchToMaps d p))"
  by (auto simp: fun_eq_iff endpoint_missing_def m_cards_fixed dom_islands_fixed split: endpoint_kind.splits simp del: not_None_eq)

lemma map_filterD: "z \<in> set (map f (filter P xs)) \<Longrightarrow> \<exists>x. x \<in> set xs \<and> P x \<and> z = f x"
  by auto

lemma map_filterI: "x \<in> set xs \<Longrightarrow> P x \<Longrightarrow> f x \<in> set (map f (filter P xs))"
  by auto

lemma P001_issueD:
  assumes "issue \<in> set (lint_P001 s)"
  shows "\<exists>x. x \<in> set (values_of (m_islands (ls_maps s))) \<and> island_missing (ls_maps s) x \<noteq> [] \<and>
    li_entityKey issue = Some (''island:'' @ island_id x)"
  by (insert map_filterD [OF assms [unfolded lint_P001_def]], elim exE conjE, intro exI conjI, assumption, assumption, simp)

lemma P002_issueD:
  assumes "issue \<in> set (lint_P002 s)"
  shows "\<exists>x. x \<in> set (values_of (m_edges (ls_maps s))) \<and> edge_missing (ls_maps s) x \<noteq> [] \<and>
    li_entityKey issue = Some (''edge:'' @ edge_id x)"
  by (insert map_filterD [OF assms [unfolded lint_P002_def]], elim exE conjE, intro exI conjI, assumption, assumption, simp)

lemma P001_issueI:
  assumes "x \<in> set (values_of (m_islands (ls_maps s)))" "island_missing (ls_maps s) x \<noteq> []"
  shows "\<exists>issue. issue \<in> set (lint_P001 s) \<and> li_entityKey issue = Some (''island:'' @ island_id x) \<and>
    relatedIds issue = Some (island_missing (ls_maps s) x)"
  unfolding lint_P001_def
  by (intro exI conjI, rule map_filterI [of x], rule assms, rule assms, simp, simp)

lemma P002_issueI:
  assumes "x \<in> set (values_of (m_edges (ls_maps s)))" "edge_missing (ls_maps s) x \<noteq> []"
  shows "\<exists>issue. issue \<in> set (lint_P002 s) \<and> li_entityKey issue = Some (''edge:'' @ edge_id x)"
  unfolding lint_P002_def
  by (intro exI conjI, rule map_filterI [of x], rule assms, rule assms, simp)

lemma p001_transform_selected:
  assumes "map_of (p001ByIsland (lintPatchAgainstCurrentDoc d p)) i = Some R" "R \<noteq> []" "list_ex (upserts_island i) (ops p)"
  shows "removeMissingIslandCardRefs i R \<in> set (fix_transforms d p)"
proof -
  have "findUpsertIslandOpIds p i \<noteq> []"
    using assms(3) by (auto simp: findUpsertIslandOpIds_def filter_empty_conv list_ex_iff)
  then have "\<exists>q \<in> set (p001_proposals p (lintPatchAgainstCurrentDoc d p)). patchTransform q = removeMissingIslandCardRefs i R"
    using map_of_SomeD [OF assms(1)] assms(2) by (force simp: p001_proposals_def Let_def)
  then have "removeMissingIslandCardRefs i R \<in> set (map patchTransform (all_fixes d p))"
    using all_fixes_eq [of d p] by (metis Un_iff image_eqI set_append set_map)
  then show ?thesis by simp
qed

lemma P001_fixed:
  assumes "issue \<in> set (lint_P001 (applyPatchToMaps d (fixed_patch d p)))"
  shows "\<exists>i. li_entityKey issue = Some (''island:'' @ i) \<and> (i = [] \<or> \<not> list_ex (upserts_island i) (ops p))"
proof -
  let ?s = "applyPatchToMaps d p" and ?s' = "applyPatchToMaps d (fixed_patch d p)"
  from assms obtain x where x: "x \<in> set (values_of (m_islands (ls_maps ?s')))" "island_missing (ls_maps ?s') x \<noteq> []"
      "li_entityKey issue = Some (''island:'' @ island_id x)"
    using P001_issueD by blast
  then obtain i where i: "map_of (m_islands (ls_maps ?s')) i = Some x"
    using invar_maps(1) [of d "fixed_patch d p"] by force
  then have [simp]: "island_id x = i" by (rule maps_keyed)
  show ?thesis
  proof (cases "i = [] \<or> \<not> list_ex (upserts_island i) (ops p)")
    case False
    with i obtain y where y: "map_of (m_islands (ls_maps ?s)) i = Some y" "x = prune_island (fix_transforms d p) y"
      by (auto simp: m_islands_fixed)
    have [simp]: "island_id y = i" using y(1) by (rule maps_keyed)
    have sub: "set (island_missing (ls_maps ?s') x) \<subseteq> set (island_missing (ls_maps ?s) y)"
      by (auto simp: island_missing_def m_cards_fixed y(2) prune_island_def)
    then have ne: "island_missing (ls_maps ?s) y \<noteq> []" using x(2) by auto
    have "y \<in> set (values_of (m_islands (ls_maps ?s)))" using y(1) by (force dest: map_of_SomeD)
    from P001_issueI [OF this ne]
    obtain iss where iss: "iss \<in> set (lint_P001 ?s)" "li_entityKey iss = Some (''island:'' @ i)"
        "relatedIds iss = Some (island_missing (ls_maps ?s) y)" by auto
    from p001ByIsland_issue [OF subsetD [OF issue_by_code(3) iss(1)] codes(4) [OF iss(1)] iss(2) _ iss(3)] False
    obtain R where R: "map_of (p001ByIsland (lintPatchAgainstCurrentDoc d p)) i = Some R"
        "set (island_missing (ls_maps ?s) y) \<subseteq> set R" by blast
    have "removeMissingIslandCardRefs i R \<in> set (fix_transforms d p)"
      by (rule p001_transform_selected [OF R(1)]) (use R(2) ne False in auto)
    then have "set (cardIds x) \<inter> set R = {}" by (auto simp: y(2) prune_island_def)
    moreover have "set (island_missing (ls_maps ?s') x) \<subseteq> set (cardIds x)" by (auto simp: island_missing_def)
    ultimately show ?thesis using sub R(2) x(2) by (metis Int_subset_iff set_empty subset_empty order_trans)
  qed (use x in auto)
qed

lemma drop_ids_concat: "dropEdgesWithMissingEndpoints R \<in> set ts \<Longrightarrow> set R \<subseteq> set (concat (map drop_ids ts))"
  by (induction ts) auto

lemma p002_drop_selected:
  assumes "e \<in> set (p002_missing (lintPatchAgainstCurrentDoc d p))" "list_ex (upserts_edge_in [e]) (ops p)"
  shows "e \<in> set (fix_drops d p)"
proof -
  let ?M = "p002_missing (lintPatchAgainstCurrentDoc d p)"
  let ?R = "uniq (filter (\<lambda>i. i \<in> set ?M) (List.map_filter upserted_edge (ops p)))"
  obtain op where op: "op \<in> set (ops p)" "upserted_edge op = Some e"
    using assms(2) by (auto simp: list_ex_iff upserts_edge_in_def split: option.splits)
  then have "e \<in> set ?R" "?M \<noteq> []"
    using assms(1) by (force simp: List.map_filter_def image_iff)+
  moreover have "findUpsertEdgeOpIds p ?M \<noteq> []"
    using op assms(1) by (auto simp: findUpsertEdgeOpIds_def filter_empty_conv upserts_edge_in_def intro!: bexI [of _ op])
  ultimately have "\<exists>q \<in> set (p002_proposals p (lintPatchAgainstCurrentDoc d p)). patchTransform q = dropEdgesWithMissingEndpoints ?R"
    by (auto simp: p002_proposals_def Let_def filter_empty_conv)
  then have "dropEdgesWithMissingEndpoints ?R \<in> set (map patchTransform (all_fixes d p))"
    using all_fixes_eq [of d p] by (metis Un_iff image_eqI set_append set_map)
  then have "set ?R \<subseteq> set (fix_drops d p)" by (rule drop_ids_concat)
  moreover have "e \<in> set ?R" using op assms(1) by (force simp: List.map_filter_def image_iff)
  ultimately show ?thesis by (rule subsetD)
qed

lemma upserts_edge_fixed:
  "list_ex (upserts_edge_in [e]) (ops (fixed_patch d p)) \<longleftrightarrow> e \<notin> set (fix_drops d p) \<and> list_ex (upserts_edge_in [e]) (ops p)"
  unfolding ops_fixed_patch
  by (auto simp: list_ex_iff upserts_edge_in_def transform_op_edits split: option.splits)

lemma upserts_island_fixed_patch:
  "list_ex (upserts_island i) (ops (fixed_patch d p)) = list_ex (upserts_island i) (ops p)"
proof -
  have "\<not> (upserts_island i op \<and> upserts_edge_in drops op)" for op drops
    by (cases op) (auto simp: upserts_edge_in_def)
  then show ?thesis unfolding ops_fixed_patch by (auto simp: list_ex_iff upserts_island_fixed)
qed

lemma P002_fixed:
  assumes "issue \<in> set (lint_P002 (applyPatchToMaps d (fixed_patch d p)))"
  shows "\<exists>i. li_entityKey issue = Some (''edge:'' @ i) \<and> (i = [] \<or> \<not> list_ex (upserts_edge_in [i]) (ops (fixed_patch d p)))"
proof -
  let ?s = "applyPatchToMaps d p" and ?s' = "applyPatchToMaps d (fixed_patch d p)"
  from assms obtain x where x: "x \<in> set (values_of (m_edges (ls_maps ?s')))" "edge_missing (ls_maps ?s') x \<noteq> []"
      "li_entityKey issue = Some (''edge:'' @ edge_id x)"
    using P002_issueD by blast
  then obtain i where i: "map_of (m_edges (ls_maps ?s')) i = Some x"
    using invar_maps(2) [of d "fixed_patch d p"] by force
  then have [simp]: "edge_id x = i" by (rule maps_keyed)
  have False if up: "list_ex (upserts_edge_in [i]) (ops (fixed_patch d p))" and ne: "i \<noteq> []"
  proof -
    have nd: "i \<notin> set (fix_drops d p)" and upp: "list_ex (upserts_edge_in [i]) (ops p)"
      using up unfolding upserts_edge_fixed by blast+
    have "map_of (m_edges (ls_maps ?s)) i = Some x"
      using i unfolding maps_edit_map ops_fixed_patch fixed_edits using kept_edges [where m = "map_of (m_edges (initial_maps d))" and m' = "map_of (m_edges (initial_maps d))", OF refl nd] by simp
    then have "x \<in> set (values_of (m_edges (ls_maps ?s)))" by (force dest: map_of_SomeD)
    moreover have "edge_missing (ls_maps ?s) x \<noteq> []" using x(2) by (simp add: edge_missing_def endpoint_missing_fixed)
    ultimately obtain iss where "iss \<in> set (lint_P002 ?s)" "li_entityKey iss = Some (''edge:'' @ i)"
      using P002_issueI by fastforce
    from p002_missing_issue [OF subsetD [OF issue_by_code(4) this(1)] codes(5) [OF this(1)] this(2) ne]
    have "i \<in> set (fix_drops d p)" using upp by (rule p002_drop_selected)
    with nd show False by contradiction
  qed
  with x show ?thesis by auto
qed

text \<open>C7. The proposed fixes repair what a patch writes: after all proposals for the linter's issues are
  applied, an error about missing cards of an island or missing endpoints of an edge can only remain
  for an island or an edge that the repaired patch does not upsert (or whose identifier is empty).\<close>

theorem fixes_repair_patch:
  assumes "proposals = proposeFixes cur p (lintPatchAgainstCurrentDoc cur p)"
    and "q = applyFixesToPatch p (map fixId proposals) proposals"
    and "issue \<in> set (lintPatchAgainstCurrentDoc cur q)" and "li_code issue \<in> {''P001'', ''P002''}"
  shows "\<exists>i. (li_entityKey issue = Some (''island:'' @ i) \<and> (i = [] \<or> \<not> list_ex (upserts_island i) (ops q))) \<or>
             (li_entityKey issue = Some (''edge:'' @ i) \<and> (i = [] \<or> \<not> list_ex (upserts_edge_in [i]) (ops q)))"
proof -
  have q: "q = fixed_patch cur p" by (simp add: fixed_patch_def all_fixes_def assms(1,2))
  show ?thesis
  proof (cases "li_code issue = ''P001''")
    case True
    from P001_fixed [OF issue_by_code(1) [OF assms(3) [unfolded q] True]] show ?thesis
      unfolding q upserts_island_fixed_patch by blast
  next
    case False
    with assms(4) have "li_code issue = ''P002''" by simp
    from P002_fixed [OF issue_by_code(2) [OF assms(3) [unfolded q] this]] show ?thesis unfolding q by blast
  qed
qed

definition ex_fix_doc :: document where
  "ex_fix_doc = mk_doc [mk_card ''c1'' ''a'' 0 0] [mk_edge ''e0'' ''c1'' ''gone'' ''related''] []"

definition ex_fix_patch :: patch where
  "ex_fix_patch = mk_patch [UpsertIsland ''o1'' (mk_island ''i1'' [''c1'', ''c9''])]"

definition ex_fixed :: patch where
  "ex_fixed = mk_patch [UpsertIsland ''o1'' (mk_island ''i1'' [''c1''])]"

lemmas fix_eval = ex_fix_doc_def ex_fix_patch_def ex_fixed_def proposeFixes_def proposeFixesAgainstSimulatedPostApply_def
  p001_proposals_def p001ByIsland_def p001_step_def p002_proposals_def p002_missing_def p002_step_def p005_signatures_def
  parseEntityId_def starts_with_def truthy_id_def findUpsertIslandOpIds_def findUpsertEdgeOpIds_def upserts_edge_in_def
  applyFixesToPatch_def js_add_def uniq_def

theorem fixes_repair_patch_witness:
  "(\<exists>issue \<in> set (lintPatchAgainstCurrentDoc ex_fix_doc ex_fixed). li_code issue = ''P002'' \<and>
     (\<exists>i. li_entityKey issue = Some (''edge:'' @ i) \<and> (i = [] \<or> \<not> list_ex (upserts_edge_in [i]) (ops ex_fixed))))"
proof -
  let ?ps = "proposeFixes ex_fix_doc ex_fix_patch (lintPatchAgainstCurrentDoc ex_fix_doc ex_fix_patch)"
  obtain issue where iss: "issue \<in> set (lintPatchAgainstCurrentDoc ex_fix_doc ex_fixed)" "li_code issue = ''P002''"
      "li_entityKey issue = Some ''edge:e0''"
    by (simp add: lint_eval ex_fix_doc_def ex_fixed_def)
  have q: "ex_fixed = applyFixesToPatch ex_fix_patch (map fixId ?ps) ?ps"
    by (simp add: fix_eval lint_eval List.map_filter_simps)
  from iss fixes_repair_patch [OF refl q iss(1)] show ?thesis by auto
qed

end
