(* ===== verification/Safe_Mode.thy ===== *)
theory Safe_Mode
  imports JS_Text
begin

text \<open>
  \<open>domain/policy/safe_mode.ts\<close>: which texts may leave the application, and the redacted forms that
  replace them; \<open>domain/policy/publish_visibility.ts\<close>: the visibility of a published view.
\<close>

datatype safe_context = CtxUi | CtxShare | CtxReviewPack | CtxDiff

datatype safe_entity = CardText | IslandSummary | RelationSummaryText | TraceText | DiagnosticsDetail | MarkdownCopy

definition REDACTED :: string where
  "REDACTED = ''[REDACTED]''"

definition shortHash :: "string \<Rightarrow> string" where
  "shortHash text = ''h'' @ fnv1aHash text"

definition canExposeText :: "safe_entity \<Rightarrow> safe_context \<Rightarrow> bool \<Rightarrow> bool" where
  "canExposeText entity context safeMode =
     (if \<not> safeMode then True
      else if context = CtxShare \<or> context = CtxReviewPack then False
      else if context = CtxDiff then entity \<noteq> CardText \<and> entity \<noteq> RelationSummaryText \<and> entity \<noteq> IslandSummary
      else True)"

definition redactText :: "string \<Rightarrow> bool \<Rightarrow> string" where
  "redactText text mode =
     (if \<not> mode then text
      else let len = length (trim text) in REDACTED @ (if len > 0 then '' (len:'' @ nat_str len @ '')'' else ''''))"

definition summarizeForSafeMode :: "string \<Rightarrow> string" where
  "summarizeForSafeMode text =
     (let trimmed = trim text in if length trimmed = 0 then REDACTED else REDACTED @ '':'' @ shortHash trimmed)"

section \<open>Publishing\<close>

definition PUBLISH_VISIBILITY_VALUES :: "string list" where
  "PUBLISH_VISIBILITY_VALUES = [''Public'', ''Unlisted'', ''Org'', ''Restricted'']"

definition isPublishVisibility :: "json \<Rightarrow> bool" where
  "isPublishVisibility v = (case v of JStr s \<Rightarrow> s \<in> set PUBLISH_VISIBILITY_VALUES | _ \<Rightarrow> False)"

definition normalizeViewVisibility :: "json \<Rightarrow> string" where
  "normalizeViewVisibility v =
     (case v of JStr s \<Rightarrow> if isPublishVisibility v then s else ''Restricted'' | _ \<Rightarrow> ''Restricted'')"

definition normalizePackVisibility :: "json \<Rightarrow> string" where
  "normalizePackVisibility v =
     (case v of JStr s \<Rightarrow> if isPublishVisibility v then s else ''Public'' | _ \<Rightarrow> ''Public'')"

section \<open>What a redacted text shows\<close>

lemma length_summarize: "length (summarizeForSafeMode t) \<in> {10, 20}"
  using fnv1aHash_length [of "trim t"] by (auto simp: summarizeForSafeMode_def REDACTED_def shortHash_def Let_def)

text \<open>Redaction bounds what a text shows. The form used for shared summaries has 10 or 20
  characters whatever the text is, and the form with the length agrees on any two texts whose
  trimmed lengths agree.\<close>

theorem redaction_bounds_information:
  "length (summarizeForSafeMode t) \<in> {10, 20} \<and>
   (redactText s True = redactText t True \<longleftrightarrow> length (trim s) = length (trim t)) \<and>
   (canExposeText e CtxShare True = False)"
  using length_summarize by (auto simp: redactText_def REDACTED_def canExposeText_def Let_def)

end
