(* ===== verification/Patch_Summary.thy ===== *)
theory Patch_Summary
  imports Patch_Core Safe_Mode
begin

text \<open>
  \<open>domain/patch/patch_summary.ts\<close>: the summary of a patch that is shown and shared (headline,
  counters, ten highlights, warnings) and its Markdown form; \<open>domain/patch/patch_apply_log.ts\<close>: the
  log of applied patches kept in the document.

  The ellipsis that ends a clipped text is its three UTF-8 bytes here. New identifiers and the clock
  are arguments.
\<close>

section \<open>Summary\<close>

record patch_summary_model =
  headline :: string
  sum_stats :: patch_stats
  highlights :: "(string \<times> string) list"
  sum_warnings :: "string list"

record highlight_item =
  priority :: nat
  stableKey :: string
  hl_label :: string
  hl_detail :: string

definition ellipsis :: string where
  "ellipsis = [CHR 0xE2, CHR 0x80, CHR 0xA6]"

definition clipText :: "string \<Rightarrow> string" where
  "clipText value = (let normalized = trim value in
     if length normalized \<le> 60 then normalized else take 60 normalized @ ellipsis)"

definition formatSnippet :: "string \<Rightarrow> string" where
  "formatSnippet value = (if length value > 0 then value else ''(empty)'')"

definition formatHeadlineCount :: "nat \<Rightarrow> string \<Rightarrow> string \<Rightarrow> string" where
  "formatHeadlineCount n singular plural = nat_str n @ '' '' @ (if n = 1 then singular else plural)"

definition headline_segments :: "patch_stats \<Rightarrow> string list" where
  "headline_segments s =
     (if upsertCards s > 0 then [formatHeadlineCount (upsertCards s) ''card'' ''cards'' @ '' updated''] else []) @
     (if deleteCards s > 0 then [formatHeadlineCount (deleteCards s) ''card'' ''cards'' @ '' deleted''] else []) @
     (if upsertIslands s > 0 then [formatHeadlineCount (upsertIslands s) ''island'' ''islands'' @ '' added''] else []) @
     (if deleteIslands s > 0 then [formatHeadlineCount (deleteIslands s) ''island'' ''islands'' @ '' deleted''] else []) @
     (if upsertEdges s > 0 then [formatHeadlineCount (upsertEdges s) ''edge'' ''edges'' @ '' updated''] else []) @
     (if deleteEdges s > 0 then [formatHeadlineCount (deleteEdges s) ''edge'' ''edges'' @ '' deleted''] else []) @
     (if upsertRelationSummaries s > 0 then [formatHeadlineCount (upsertRelationSummaries s) ''relation'' ''relations'' @ '' added''] else []) @
     (if deleteRelationSummaries s > 0 then [formatHeadlineCount (deleteRelationSummaries s) ''relation'' ''relations'' @ '' deleted''] else [])"

definition buildHeadline :: "patch_stats \<Rightarrow> string" where
  "buildHeadline s = (let segments = headline_segments s in
     if length segments = 0 then ''Patch: no changes'' else ''Patch: '' @ join_with '', '' (take 3 segments))"

definition buildWarnings :: "conflict_report option \<Rightarrow> bool option \<Rightarrow> string list" where
  "buildWarnings conflictReport signatureMatch =
     (if signatureMatch = Some False
      then [''Base signature mismatch: loaded patch baseline does not match the current document.''] else []) @
     (let conflictCount = (case conflictReport of None \<Rightarrow> 0 | Some r \<Rightarrow> length (conflicts r)) in
      if conflictCount > 0 then [nat_str conflictCount @ '' conflict(s) detected in patch operations.''] else [])"

fun summary_step :: "bool \<Rightarrow> patch_op \<Rightarrow> patch_stats \<times> highlight_item list \<Rightarrow> patch_stats \<times> highlight_item list" where
  "summary_step safeMode (UpsertCard _ c) (s, hs) =
     (s\<lparr>upsertCards := upsertCards s + 1\<rparr>,
      hs @ [\<lparr>priority = 2, stableKey = ''card:'' @ card_id c, hl_label = ''Card '' @ card_id c,
             hl_detail = (if canExposeText CardText CtxShare safeMode then formatSnippet (clipText (card_text c))
                          else summarizeForSafeMode (card_text c))\<rparr>])"
| "summary_step safeMode (DeleteCard _ i) (s, hs) =
     (s\<lparr>deleteCards := deleteCards s + 1\<rparr>,
      hs @ [\<lparr>priority = 2, stableKey = ''card:'' @ i, hl_label = ''Card '' @ i, hl_detail = ''deleted''\<rparr>])"
| "summary_step safeMode (UpsertIsland _ x) (s, hs) =
     (s\<lparr>upsertIslands := upsertIslands s + 1\<rparr>,
      hs @ [\<lparr>priority = 0, stableKey = ''island:'' @ island_id x, hl_label = ''Island '' @ island_id x,
             hl_detail = formatSnippet (clipText (nullish (island_title x) '''' @ '' '' @
               (if canExposeText IslandSummary CtxShare safeMode then nullish (summaryText x) ''''
                else summarizeForSafeMode (nullish (summaryText x) ''''))))\<rparr>])"
| "summary_step safeMode (DeleteIsland _ i) (s, hs) =
     (s\<lparr>deleteIslands := deleteIslands s + 1\<rparr>,
      hs @ [\<lparr>priority = 0, stableKey = ''island:'' @ i, hl_label = ''Island '' @ i, hl_detail = ''deleted''\<rparr>])"
| "summary_step safeMode (UpsertEdge _ e) (s, hs) = (s\<lparr>upsertEdges := upsertEdges s + 1\<rparr>, hs)"
| "summary_step safeMode (DeleteEdge _ i) (s, hs) = (s\<lparr>deleteEdges := deleteEdges s + 1\<rparr>, hs)"
| "summary_step safeMode (UpsertRelationSummary _ r) (s, hs) =
     (s\<lparr>upsertRelationSummaries := upsertRelationSummaries s + 1\<rparr>,
      hs @ [\<lparr>priority = 1, stableKey = ''relation:'' @ sourceSignature r, hl_label = ''Relation '' @ sourceSignature r,
             hl_detail = (if canExposeText RelationSummaryText CtxShare safeMode then formatSnippet (clipText (rel_text r))
                          else summarizeForSafeMode (rel_text r))\<rparr>])"
| "summary_step safeMode (DeleteRelationSummary _ i) (s, hs) =
     (s\<lparr>deleteRelationSummaries := deleteRelationSummaries s + 1\<rparr>,
      hs @ [\<lparr>priority = 1, stableKey = ''relation:'' @ i, hl_label = ''Relation '' @ i, hl_detail = ''deleted''\<rparr>])"
| "summary_step safeMode (UpsertEvidenceLink _ l) st = st"
| "summary_step safeMode (DeleteEvidenceLink _ i) st = st"

definition highlight_le :: "js_engine \<Rightarrow> highlight_item \<Rightarrow> highlight_item \<Rightarrow> bool" where
  "highlight_le E left right =
     (if priority left \<noteq> priority right then priority left < priority right
      else eng_le E (stableKey left) (stableKey right))"

definition buildPatchSummary ::
  "js_engine \<Rightarrow> patch \<Rightarrow> conflict_report option \<Rightarrow> bool option \<Rightarrow> bool \<Rightarrow> patch_summary_model" where
  "buildPatchSummary E patch conflictReport signatureMatch safeMode =
     (let (s, items) = fold (summary_step safeMode) (ops patch) (createEmptyApplyStats, [])
      in \<lparr>headline = buildHeadline s, sum_stats = s,
          highlights = map (\<lambda>item. (hl_label item, hl_detail item)) (take 10 (sort_by (highlight_le E) items)),
          sum_warnings = buildWarnings conflictReport signatureMatch\<rparr>)"

definition newline :: string where
  "newline = [CHR 0x0A]"

definition formatPatchSummaryMarkdown :: "patch_summary_model \<Rightarrow> string" where
  "formatPatchSummaryMarkdown summary = (let s = sum_stats summary in join_with newline (
     [''## Summary'', headline summary, '''', ''## Stats'',
      ''- upsertCards: '' @ nat_str (upsertCards s), ''- deleteCards: '' @ nat_str (deleteCards s),
      ''- upsertIslands: '' @ nat_str (upsertIslands s), ''- deleteIslands: '' @ nat_str (deleteIslands s),
      ''- upsertEdges: '' @ nat_str (upsertEdges s), ''- deleteEdges: '' @ nat_str (deleteEdges s),
      ''- upsertRelationSummaries: '' @ nat_str (upsertRelationSummaries s),
      ''- deleteRelationSummaries: '' @ nat_str (deleteRelationSummaries s), '''', ''## Highlights''] @
     (if highlights summary = [] then [''- (none)'']
      else map (\<lambda>(label, detail). ''- '' @ label @ '': '' @ detail) (highlights summary)) @
     (if sum_warnings summary = [] then []
      else ['''', ''## Warnings''] @ map (\<lambda>w. ''- '' @ w) (sum_warnings summary))))"

section \<open>The log of applied patches\<close>

definition buildPatchSourceSignature :: "js_engine \<Rightarrow> json \<Rightarrow> string" where
  "buildPatchSourceSignature E patchValue = ''fnv1a:'' @ fnv1aHash (stableSerialize (eng_le E) (eng_num E) patchValue)"

definition appendPatchApplyLog :: "js_engine \<Rightarrow> string \<Rightarrow> string \<Rightarrow> document \<Rightarrow> json \<Rightarrow> apply_result_meta \<Rightarrow> document" where
  "appendPatchApplyLog E newId now doc patchValue m =
     doc\<lparr>patchApplyLog := Some (nullish (patchApplyLog doc) [] @
       [\<lparr>log_id = newId, log_createdAt = now, patchVersion = ''1'', log_patchTitle = patchTitle m,
         log_baseDocSignature = meta_baseDocSignature m, patchSourceSignature = Some (buildPatchSourceSignature E patchValue),
         log_appliedOpIds = appliedOpIds m, log_stats = apply_stats m, log_conflictMeta = apply_conflictMeta m,
         log_note = meta_note m\<rparr>])\<rparr>"

definition formatPatchApplyLogEntryMarkdown :: "patch_log_entry \<Rightarrow> string" where
  "formatPatchApplyLogEntryMarkdown entry = (let s = log_stats entry in join_with newline (
     [''### Patch apply log: '' @ log_id entry, ''- createdAt: '' @ log_createdAt entry,
      ''- patchVersion: '' @ patchVersion entry, ''- patchTitle: '' @ nullish (log_patchTitle entry) ''(none)'',
      ''- baseDocSignature: '' @ nullish (log_baseDocSignature entry) ''(none)'',
      ''- patchSourceSignature: '' @ nullish (patchSourceSignature entry) ''(none)'',
      ''- appliedOpCount: '' @ nat_str (length (log_appliedOpIds entry)),
      ''- stats: cards +'' @ nat_str (upsertCards s) @ ''/-'' @ nat_str (deleteCards s) @
        '', islands +'' @ nat_str (upsertIslands s) @ ''/-'' @ nat_str (deleteIslands s) @
        '', edges +'' @ nat_str (upsertEdges s) @ ''/-'' @ nat_str (deleteEdges s) @
        '', relations +'' @ nat_str (upsertRelationSummaries s) @ ''/-'' @ nat_str (deleteRelationSummaries s) @
        '', evidence +'' @ nat_str (upsertEvidenceLinks s) @ ''/-'' @ nat_str (deleteEvidenceLinks s)] @
     (case log_conflictMeta entry of None \<Rightarrow> []
      | Some m \<Rightarrow> [''- conflictMeta: total='' @ nat_str (totalConflicts m) @ '', yours='' @ nat_str (chosenYours m) @
                 '', theirs='' @ nat_str (chosenTheirs m) @ '', skip='' @ nat_str (chosenSkip m)]) @
     (if truthy_str (log_note entry) then [''- note: '' @ nullish (log_note entry) ''''] else []) @
     ['''', ''#### appliedOpIds''] @
     (if log_appliedOpIds entry = [] then [''- (none)''] else map (\<lambda>opId. ''- '' @ opId) (log_appliedOpIds entry))))"

section \<open>Properties\<close>

text \<open>What safe mode lets through of an operation: its kind, the key of its target and the redacted
  text; the title of an island is not redacted.\<close>

fun op_shape :: "patch_op \<Rightarrow> patch_op_kind \<times> entity_ref \<times> string" where
  "op_shape (UpsertCard _ c) = (upsert_card, RCard (card_id c), summarizeForSafeMode (card_text c))"
| "op_shape (UpsertIsland _ x) = (upsert_island, RIsland (island_id x),
     nullish (island_title x) '''' @ '' '' @ summarizeForSafeMode (nullish (summaryText x) ''''))"
| "op_shape (UpsertRelationSummary _ r) = (upsert_relation_summary, RRelation (sourceSignature r), summarizeForSafeMode (rel_text r))"
| "op_shape op = (op_kind op, op_ref op, '''')"

lemma summary_step_shape: "op_shape a = op_shape b \<Longrightarrow> summary_step True a = summary_step True b"
  by (cases a; cases b) (auto simp: fun_eq_iff canExposeText_def)

lemma fold_summary_shape:
  "map op_shape as = map op_shape bs \<Longrightarrow> fold (summary_step True) as st = fold (summary_step True) bs st"
proof (induction as arbitrary: bs st)
  case (Cons a as)
  then obtain b bs' where "bs = b # bs'" "op_shape a = op_shape b" "map op_shape as = map op_shape bs'" by auto
  with Cons.IH [of bs'] summary_step_shape [of a b] show ?case by simp
qed simp

lemma fst_summary_step:
  "fst (summary_step m op st) = (if op_kind op \<in> {upsert_evidence_link, delete_evidence_link} then fst st
     else incrementApplyStats (fst st) (op_kind op))"
  by (cases op; cases st) simp_all

abbreviation mask_evidence :: "patch_stats \<Rightarrow> patch_stats" where
  "mask_evidence s \<equiv> s\<lparr>upsertEvidenceLinks := 0, deleteEvidenceLinks := 0\<rparr>"

lemma fst_fold_summary: "fst (fold (summary_step m) os (mask_evidence s, hs)) = mask_evidence (stats_of os s)"
proof (induction os arbitrary: s hs)
  case (Cons op os)
  have "\<exists>hs'. summary_step m op (mask_evidence s, hs) = (mask_evidence (incrementApplyStats s (op_kind op)), hs')"
    by (cases op) simp_all
  with Cons.IH show ?case by auto
qed simp

text \<open>In safe mode a patch summary, and so its Markdown form, depends on the texts of cards,
  islands and relations only through their redaction: patches with the same sequence of kinds,
  targets and redacted texts give the same summary.\<close>

theorem summary_noninterference:
  assumes "map op_shape (ops p) = map op_shape (ops q)"
  shows "formatPatchSummaryMarkdown (buildPatchSummary E p r m True) = formatPatchSummaryMarkdown (buildPatchSummary E q r m True)"
  using fold_summary_shape [OF assms] by (simp add: buildPatchSummary_def)

theorem summary_noninterference_witness:
  "formatPatchSummaryMarkdown (buildPatchSummary demo_engine (mk_patch [UpsertCard ''o1'' (mk_card ''c1'' '' secret'' 0 0)]) None None True) =
   formatPatchSummaryMarkdown (buildPatchSummary demo_engine (mk_patch [UpsertCard ''o2'' (mk_card ''c1'' ''secret '' 5 7)]) None None True)"
  by (rule summary_noninterference) (simp add: summarizeForSafeMode_def trim_def js_ws_def)

text \<open>The counters of a summary are those an application of all its operations would report,
  except that evidence links are never counted.\<close>

theorem summary_stats_agree:
  "sum_stats (buildPatchSummary E p r m safe) =
     (apply_stats (snd (applyPatchWithResolutionsDetailed E' cur p R None None)))
       \<lparr>upsertEvidenceLinks := 0, deleteEvidenceLinks := 0\<rparr>"
proof -
  have "filter (op_chosen None {} R) (ops p) = ops p" by (simp add: op_chosen_def)
  then show ?thesis
    using fst_fold_summary [of safe "ops p" createEmptyApplyStats "[]"]
    by (simp add: buildPatchSummary_def applyDetailed_eq Let_def split_def createEmptyApplyStats_def)
qed

text \<open>So a patch that only changes evidence links is announced as no change.\<close>

lemma evidence_patch_announced_as_no_change:
  "headline (buildPatchSummary E (mk_patch [UpsertEvidenceLink o' l, DeleteEvidenceLink o'' i]) r m safe) = ''Patch: no changes''"
  by (simp add: buildPatchSummary_def buildHeadline_def headline_segments_def createEmptyApplyStats_def)

text \<open>The log is append-only: an application appends one entry with the reported operations and
  counters and changes nothing else of the document.\<close>

theorem log_append_only:
  "\<exists>entry. patchApplyLog (appendPatchApplyLog E i now d v m) = Some (nullish (patchApplyLog d) [] @ [entry]) \<and>
     log_appliedOpIds entry = appliedOpIds m \<and> log_stats entry = apply_stats m \<and>
     log_conflictMeta entry = apply_conflictMeta m \<and>
     (appendPatchApplyLog E i now d v m)\<lparr>patchApplyLog := patchApplyLog d\<rparr> = d"
  by (simp add: appendPatchApplyLog_def)

end
