(* ===== verification/Patch_Parse.thy ===== *)
theory Patch_Parse
  imports Patch_Core
begin

text \<open>
  The parser half of \<open>domain/patch/patch_apply.ts\<close>: from an arbitrary parsed JSON value to a patch.
  Payloads stay raw values, as in the code (\<open>value as Card\<close>), except that the \<open>meta\<close> and \<open>ka\<close> of a
  card are rebuilt from their known keys and evidence links are rebuilt entirely. Reading a property
  of a value that has none gives \<open>undefined\<close>.
\<close>

section \<open>Parsing\<close>

type_synonym raw_op = "(json, json, json, json, json) gen_op"

abbreviation isString :: "json \<Rightarrow> bool" where
  "isString v \<equiv> as_string v \<noteq> None"

fun isBoolean :: "json \<Rightarrow> bool" where
  "isBoolean (JBool _) = True"
| "isBoolean _ = False"

fun isStringArray :: "json \<Rightarrow> bool" where
  "isStringArray (JArr vs) = list_all isString vs"
| "isStringArray _ = False"

fun isFiniteNumber :: "json \<Rightarrow> bool" where
  "isFiniteNumber (JNum (Finite _)) = True"
| "isFiniteNumber _ = False"

definition opt_prop :: "(json \<Rightarrow> bool) \<Rightarrow> json \<Rightarrow> string \<Rightarrow> bool" where
  "opt_prop P v k = (js_prop v k = JUndef \<or> P (js_prop v k))"

definition nonempty_string :: "json \<Rightarrow> bool" where
  "nonempty_string v = (case as_string v of None \<Rightarrow> False | Some s \<Rightarrow> length s > 0)"

fun own_entries :: "json \<Rightarrow> (string \<times> json) list" where
  "own_entries (JObj es) = es"
| "own_entries _ = []"

text \<open>\<open>const { k, ...rest } = v; v' = x ? { ...rest, k: x } : rest\<close>\<close>

definition replace_prop :: "string \<Rightarrow> (string \<times> json) list \<Rightarrow> json \<Rightarrow> json" where
  "replace_prop k entries v =
     (let rest = AList.delete k (own_entries v)
      in JObj (if entries = [] then rest else rest @ [(k, JObj entries)]))"

definition keep_if :: "(json \<Rightarrow> bool) \<Rightarrow> string \<Rightarrow> json \<Rightarrow> (string \<times> json) list" where
  "keep_if P k v = (if P (js_prop v k) then [(k, js_prop v k)] else [])"

definition sanitizedMeta :: "json \<Rightarrow> (string \<times> json) list" where
  "sanitizedMeta meta = keep_if isFiniteNumber ''seq'' meta @ keep_if nonempty_string ''source'' meta"

definition sanitizedKa :: "json \<Rightarrow> (string \<times> json) list" where
  "sanitizedKa ka = keep_if nonempty_string ''voice'' ka @ keep_if nonempty_string ''value'' ka"

definition sanitize_part :: "string \<Rightarrow> (json \<Rightarrow> (string \<times> json) list) \<Rightarrow> json \<Rightarrow> json \<Rightarrow> json option" where
  "sanitize_part k f v sanitized =
     (if js_prop v k = JUndef then Some sanitized
      else if \<not> isRecord (js_prop v k) then None
      else Some (replace_prop k (f (js_prop v k)) sanitized))"

definition parseCard :: "json \<Rightarrow> json option" where
  "parseCard v =
     (if \<not> isRecord v \<or> \<not> isString (js_prop v ''id'') \<or> \<not> isString (js_prop v ''text'') \<or>
         \<not> isFiniteNumber (js_prop v ''x'') \<or> \<not> isFiniteNumber (js_prop v ''y'') then None
      else if \<not> opt_prop isString v ''canonicalId'' then None
      else if \<not> opt_prop isStringArray v ''sources'' then None
      else if \<not> opt_prop isString v ''critique'' then None
      else if \<not> opt_prop isStringArray v ''critiqueTags'' then None
      else if \<not> opt_prop isBoolean v ''textReviewed'' then None
      else Option.bind (sanitize_part ''meta'' sanitizedMeta v v) (sanitize_part ''ka'' sanitizedKa v))"

definition is_endpoint_kind :: "json \<Rightarrow> bool" where
  "is_endpoint_kind v = (v = JStr ''card'' \<or> v = JStr ''island'')"

definition parseEdge :: "json \<Rightarrow> json option" where
  "parseEdge v =
     (if \<not> isRecord v \<or> \<not> isString (js_prop v ''id'') \<or> \<not> isString (js_prop v ''fromId'') \<or> \<not> isString (js_prop v ''toId'') then None
      else if \<not> nonempty_string (js_prop v ''type'') then None
      else if \<not> opt_prop is_endpoint_kind v ''fromKind'' then None
      else if \<not> opt_prop is_endpoint_kind v ''toKind'' then None
      else Some v)"

definition parseIsland :: "json \<Rightarrow> json option" where
  "parseIsland v =
     (if \<not> isRecord v \<or> \<not> isString (js_prop v ''id'') \<or> \<not> isStringArray (js_prop v ''cardIds'') then None
      else if \<not> opt_prop isString v ''parentIslandId'' then None
      else if \<not> opt_prop isString v ''placardCardId'' then None
      else if \<not> opt_prop isBoolean v ''collapsed'' then None
      else if \<not> opt_prop isString v ''title'' then None
      else if \<not> opt_prop isBoolean v ''titleReviewed'' then None
      else if \<not> opt_prop isString v ''summaryText'' then None
      else if \<not> opt_prop isBoolean v ''summaryReviewed'' then None
      else if \<not> opt_prop isStringArray v ''summaryGrounding'' then None
      else if \<not> opt_prop isString v ''imageUrl'' then None
      else if \<not> opt_prop isBoolean v ''imageReviewed'' then None
      else if \<not> opt_prop isString v ''critique'' then None
      else if \<not> opt_prop isStringArray v ''critiqueTags'' then None
      else if \<not> opt_prop isBoolean v ''shapeStale'' then None
      else Some v)"

definition known_relation_type :: "json \<Rightarrow> bool" where
  "known_relation_type v = (case as_string v of None \<Rightarrow> False | Some s \<Rightarrow> s = ''unknown'' \<or> s \<in> set KNOWN_EDGE_TYPES)"

definition parseRelationSummary :: "json \<Rightarrow> json option" where
  "parseRelationSummary v =
     (if \<not> isRecord v \<or> \<not> isString (js_prop v ''id'') \<or> \<not> isString (js_prop v ''createdAt'') \<or>
         \<not> isString (js_prop v ''islandAId'') \<or> \<not> isString (js_prop v ''islandBId'') \<or>
         \<not> known_relation_type (js_prop v ''relationType'') \<or> \<not> isBoolean (js_prop v ''derived'') \<or>
         \<not> isString (js_prop v ''text'') \<or> \<not> isBoolean (js_prop v ''reviewed'') \<or>
         \<not> isStringArray (js_prop v ''groundingCardIds'') \<or> \<not> isStringArray (js_prop v ''groundingEdgeIds'') \<or>
         \<not> isString (js_prop v ''sourceSignature'') then None
      else if \<not> opt_prop isStringArray v ''warnings'' then None
      else Some v)"

definition string_or_undefined :: "json \<Rightarrow> json" where
  "string_or_undefined v = (case as_string v of None \<Rightarrow> JUndef | Some s \<Rightarrow> JStr s)"

definition parseEvidenceLink :: "json \<Rightarrow> json option" where
  "parseEvidenceLink v =
     (if \<not> isRecord v then None
      else if \<not> isString (js_prop v ''id'') \<or> \<not> isString (js_prop v ''fromCardId'') \<or> \<not> isString (js_prop v ''toCardId'') then None
      else if js_prop v ''type'' \<noteq> JStr ''supports'' \<and> js_prop v ''type'' \<noteq> JStr ''contradicts'' then None
      else if js_prop v ''fromCardId'' = js_prop v ''toCardId'' then None
      else Some (JObj [(''id'', js_prop v ''id''), (''type'', js_prop v ''type''), (''fromCardId'', js_prop v ''fromCardId''),
        (''toCardId'', js_prop v ''toCardId''), (''note'', string_or_undefined (js_prop v ''note'')),
        (''createdAt'', string_or_undefined (js_prop v ''createdAt''))]))"

definition parsePatchOp :: "json \<Rightarrow> raw_op option" where
  "parsePatchOp item =
     (if \<not> isRecord item then None
      else case (as_string (js_prop item ''id''), as_string (js_prop item ''kind'')) of
        (Some i, Some kind) \<Rightarrow>
          if kind = ''upsert_card'' then map_option (UpsertCard i) (parseCard (js_prop item ''card''))
          else if kind = ''delete_card'' then map_option (DeleteCard i) (as_string (js_prop item ''cardId''))
          else if kind = ''upsert_island'' then map_option (UpsertIsland i) (parseIsland (js_prop item ''island''))
          else if kind = ''delete_island'' then map_option (DeleteIsland i) (as_string (js_prop item ''islandId''))
          else if kind = ''upsert_edge'' then map_option (UpsertEdge i) (parseEdge (js_prop item ''edge''))
          else if kind = ''delete_edge'' then map_option (DeleteEdge i) (as_string (js_prop item ''edgeId''))
          else if kind = ''upsert_relation_summary'' then map_option (UpsertRelationSummary i) (parseRelationSummary (js_prop item ''relationSummary''))
          else if kind = ''delete_relation_summary'' then map_option (DeleteRelationSummary i) (as_string (js_prop item ''sourceSignature''))
          else if kind = ''upsert_evidence_link'' then map_option (UpsertEvidenceLink i) (parseEvidenceLink (js_prop item ''evidenceLink''))
          else if kind = ''delete_evidence_link'' then map_option (DeleteEvidenceLink i) (as_string (js_prop item ''evidenceLinkId''))
          else None
      | _ \<Rightarrow> None)"

fun parse_ops :: "json list \<Rightarrow> raw_op list option" where
  "parse_ops [] = Some []"
| "parse_ops (item # items) =
     (case parsePatchOp item of None \<Rightarrow> None | Some op \<Rightarrow> map_option ((#) op) (parse_ops items))"

definition parsePatchDocument :: "json \<Rightarrow> raw_op patch_v1 option" where
  "parsePatchDocument v =
     (if \<not> isRecord v \<or> js_prop v ''kind'' \<noteq> JStr ''sui-sensemaking-patch'' \<or> js_prop v ''version'' \<noteq> JNum (Finite 1) then None
      else case js_prop v ''ops'' of
        JArr items \<Rightarrow>
          if \<not> opt_prop isString v ''author'' then None
          else if \<not> opt_prop isString v ''authorNote'' then None
          else if \<not> opt_prop isString v ''sourceApp'' then None
          else if \<not> opt_prop isString v ''patchFingerprint'' then None
          else if \<not> opt_prop isString v ''patchId'' then None
          else map_option (\<lambda>os. \<lparr>baseDocSignature = as_string (js_prop v ''baseDocSignature''),
                 patch_author = as_string (js_prop v ''author''), authorNote = as_string (js_prop v ''authorNote''),
                 sourceApp = as_string (js_prop v ''sourceApp''), patchFingerprint = as_string (js_prop v ''patchFingerprint''),
                 patchId = as_string (js_prop v ''patchId''), ops = os\<rparr>) (parse_ops items)
      | _ \<Rightarrow> None)"

section \<open>What a parsed card may contain\<close>

definition schema_entries :: "(string \<times> (json \<Rightarrow> bool)) list \<Rightarrow> json \<Rightarrow> bool" where
  "schema_entries schema v \<longleftrightarrow>
     (\<exists>es. v = JObj es \<and> es \<noteq> [] \<and> (\<forall>(k, x) \<in> set es. \<exists>P. map_of schema k = Some P \<and> P x))"

definition clean_card :: "json \<Rightarrow> bool" where
  "clean_card c \<longleftrightarrow> isString (js_prop c ''id'') \<and> isString (js_prop c ''text'') \<and> isFiniteNumber (js_prop c ''x'') \<and>
     isFiniteNumber (js_prop c ''y'') \<and>
     opt_prop (schema_entries [(''seq'', isFiniteNumber), (''source'', nonempty_string)]) c ''meta'' \<and>
     opt_prop (schema_entries [(''voice'', nonempty_string), (''value'', nonempty_string)]) c ''ka''"

lemma schema_meta: "sanitizedMeta m = es \<Longrightarrow> es \<noteq> [] \<Longrightarrow>
    schema_entries [(''seq'', isFiniteNumber), (''source'', nonempty_string)] (JObj es)"
  by (auto simp: schema_entries_def sanitizedMeta_def keep_if_def split: if_splits)

lemma schema_ka: "sanitizedKa m = es \<Longrightarrow> es \<noteq> [] \<Longrightarrow>
    schema_entries [(''voice'', nonempty_string), (''value'', nonempty_string)] (JObj es)"
  by (auto simp: schema_entries_def sanitizedKa_def keep_if_def split: if_splits)

lemma map_of_delete_other: "k \<noteq> k' \<Longrightarrow> map_of (AList.delete k' es) k = map_of es k"
  by (simp add: delete_conv')

lemma map_of_delete_same: "map_of (AList.delete k es) k = None"
  by (simp add: delete_conv')

lemma prop_own: "js_prop v k = nullish (map_of (own_entries v) k) JUndef"
  by (cases v) simp_all

lemma prop_replace_other: "k \<noteq> k' \<Longrightarrow> js_prop (replace_prop k' es v) k = js_prop v k"
  by (auto simp: replace_prop_def Let_def prop_own map_of_delete_other map_add_def split: option.splits)

lemma prop_replace_same: "js_prop (replace_prop k es v) k = (if es = [] then JUndef else JObj es)"
  by (auto simp: replace_prop_def Let_def map_of_delete_same map_add_def)

lemma sanitize_part_other: "sanitize_part k' f v s = Some r \<Longrightarrow> k \<noteq> k' \<Longrightarrow> js_prop r k = js_prop s k"
  by (auto simp: sanitize_part_def prop_replace_other split: if_splits)

lemma sanitize_part_same:
  "sanitize_part k f v s = Some r \<Longrightarrow> js_prop r k = (if js_prop v k = JUndef then js_prop s k
     else if f (js_prop v k) = [] then JUndef else JObj (f (js_prop v k)))"
  by (auto simp: sanitize_part_def prop_replace_same split: if_splits)

lemma parseCard_clean:
  assumes "parseCard v = Some c"
  shows "clean_card c"
proof -
  obtain m where m: "sanitize_part ''meta'' sanitizedMeta v v = Some m" "sanitize_part ''ka'' sanitizedKa v m = Some c"
      "isString (js_prop v ''id'')" "isString (js_prop v ''text'')" "isFiniteNumber (js_prop v ''x'')" "isFiniteNumber (js_prop v ''y'')"
    using assms by (auto simp: parseCard_def bind_eq_Some_conv split: if_splits)
  have p: "js_prop c k = js_prop v k" if "k \<noteq> ''meta''" "k \<noteq> ''ka''" for k
    using that m(1,2) by (simp add: sanitize_part_other)
  have "js_prop c ''meta'' = js_prop m ''meta''" using m(2) by (rule sanitize_part_other) simp
  moreover have "js_prop m ''ka'' = js_prop v ''ka''" using m(1) by (rule sanitize_part_other) simp
  ultimately show ?thesis
    using m(3-6) p sanitize_part_same [OF m(1)] sanitize_part_same [OF m(2)] schema_meta schema_ka
    by (auto simp: clean_card_def opt_prop_def)
qed

section \<open>Round trip\<close>

fun op_kind_str :: "patch_op_kind \<Rightarrow> string" where
  "op_kind_str upsert_card = ''upsert_card''"
| "op_kind_str delete_card = ''delete_card''"
| "op_kind_str upsert_island = ''upsert_island''"
| "op_kind_str delete_island = ''delete_island''"
| "op_kind_str upsert_edge = ''upsert_edge''"
| "op_kind_str delete_edge = ''delete_edge''"
| "op_kind_str upsert_relation_summary = ''upsert_relation_summary''"
| "op_kind_str delete_relation_summary = ''delete_relation_summary''"
| "op_kind_str upsert_evidence_link = ''upsert_evidence_link''"
| "op_kind_str delete_evidence_link = ''delete_evidence_link''"

fun op_payload :: "patch_op \<Rightarrow> string \<times> json" where
  "op_payload (UpsertCard _ c) = (''card'', entity_json (ECard c))"
| "op_payload (DeleteCard _ i) = (''cardId'', JStr i)"
| "op_payload (UpsertIsland _ x) = (''island'', entity_json (EIsland x))"
| "op_payload (DeleteIsland _ i) = (''islandId'', JStr i)"
| "op_payload (UpsertEdge _ e) = (''edge'', entity_json (EEdge e))"
| "op_payload (DeleteEdge _ i) = (''edgeId'', JStr i)"
| "op_payload (UpsertRelationSummary _ r) = (''relationSummary'', entity_json (ERelation r))"
| "op_payload (DeleteRelationSummary _ i) = (''sourceSignature'', JStr i)"
| "op_payload (UpsertEvidenceLink _ l) = (''evidenceLink'', entity_json (EEvidence l))"
| "op_payload (DeleteEvidenceLink _ i) = (''evidenceLinkId'', JStr i)"

definition op_json :: "patch_op \<Rightarrow> json" where
  "op_json op = JObj [(''id'', JStr (op_id op)), (''kind'', JStr (op_kind_str (op_kind op))), op_payload op]"

definition patch_json :: "patch \<Rightarrow> json" where
  "patch_json p = obj [req ''kind'' (JStr ''sui-sensemaking-patch''), req ''version'' (JNum (Finite 1)),
     opt ''baseDocSignature'' JStr (baseDocSignature p), opt ''author'' JStr (patch_author p),
     opt ''authorNote'' JStr (authorNote p), opt ''sourceApp'' JStr (sourceApp p),
     opt ''patchFingerprint'' JStr (patchFingerprint p), opt ''patchId'' JStr (patchId p),
     req ''ops'' (JArr (map op_json (ops p)))]"

text \<open>The raw evidence link that the parser builds: \<open>note\<close> and \<open>createdAt\<close> are always own properties,
  and the review state is dropped.\<close>

definition raw_link :: "evidence_link \<Rightarrow> json" where
  "raw_link l = JObj [(''id'', JStr (link_id l)), (''type'', JStr (evidence_type_str (link_type l))),
     (''fromCardId'', JStr (fromCardId l)), (''toCardId'', JStr (toCardId l)),
     (''note'', case link_note l of None \<Rightarrow> JUndef | Some s \<Rightarrow> JStr s),
     (''createdAt'', case link_createdAt l of None \<Rightarrow> JUndef | Some s \<Rightarrow> JStr s)]"

definition raw_op_of :: "patch_op \<Rightarrow> raw_op" where
  "raw_op_of = map_gen_op (\<lambda>c. entity_json (ECard c)) (\<lambda>x. entity_json (EIsland x)) (\<lambda>e. entity_json (EEdge e))
     (\<lambda>r. entity_json (ERelation r)) raw_link"

definition meta_ok :: "card_meta \<Rightarrow> bool" where
  "meta_ok m \<longleftrightarrow> (meta_seq m \<noteq> None \<or> meta_source m \<noteq> None) \<and> meta_source m \<noteq> Some []"

definition ka_ok :: "card_ka \<Rightarrow> bool" where
  "ka_ok k \<longleftrightarrow> (ka_voice k \<noteq> None \<or> ka_value k \<noteq> None) \<and> ka_voice k \<noteq> Some [] \<and> ka_value k \<noteq> Some []"

fun op_ok :: "patch_op \<Rightarrow> bool" where
  "op_ok (UpsertCard _ c) \<longleftrightarrow> pred_option meta_ok (card_meta_of c) \<and> pred_option ka_ok (card_ka_of c)"
| "op_ok (UpsertEdge _ e) \<longleftrightarrow> edge_type e \<noteq> []"
| "op_ok (UpsertRelationSummary _ r) \<longleftrightarrow> relationType r = ''unknown'' \<or> relationType r \<in> set KNOWN_EDGE_TYPES"
| "op_ok (UpsertEvidenceLink _ l) \<longleftrightarrow> fromCardId l \<noteq> toCardId l"
| "op_ok _ \<longleftrightarrow> True"

lemma js_prop_obj:
  "distinct (map fst fs) \<Longrightarrow> js_prop (obj fs) k = (case map_of fs k of Some (Some v) \<Rightarrow> v | _ \<Rightarrow> JUndef)"
  by (simp add: obj_def map_of_present split: option.splits)

lemma isRecord_obj [simp]: "isRecord (obj fs)"
  by (simp add: obj_def)

lemma obj_neq [simp]: "obj fs \<noteq> JUndef" "obj fs \<noteq> JStr s"
  by (simp_all add: obj_def)

lemma jstrs_facts [simp]: "isStringArray (jstrs xs)" "jstrs xs \<noteq> JUndef"
  by (simp_all add: jstrs_def list_all_iff)

lemma jrat_facts [simp]: "isFiniteNumber (jrat q)" "jrat q \<noteq> JUndef"
  by (simp_all add: jrat_def)

lemma case_map_option [simp]:
  "(case map_option f x of None \<Rightarrow> d | Some v \<Rightarrow> g v) = (case x of None \<Rightarrow> d | Some v \<Rightarrow> g (f v))"
  by (cases x) simp_all

lemma case_option_True [simp]: "(case x of None \<Rightarrow> True | Some v \<Rightarrow> True)"
  by (cases x) simp_all

lemma opt_prop_obj:
  "distinct (map fst fs) \<Longrightarrow>
     opt_prop P (obj fs) k \<longleftrightarrow> (case map_of fs k of None \<Rightarrow> True | Some x \<Rightarrow> (case x of None \<Rightarrow> True | Some v \<Rightarrow> v = JUndef \<or> P v))"
  by (auto simp: opt_prop_def js_prop_obj split: option.splits)

lemmas parse_fields = js_prop_obj req_def opt_def opt_prop_obj entity_json_def o_def

lemma parse_island: "parseIsland (entity_json (EIsland x)) = Some (entity_json (EIsland x))"
  by (simp add: parseIsland_def parse_fields island_fields_def cong: option.case_cong)

lemma endpoint_kind_ok [simp]: "is_endpoint_kind (JStr (endpoint_kind_str k))"
  by (cases k) (simp_all add: is_endpoint_kind_def)

lemma parse_edge: "edge_type e \<noteq> [] \<Longrightarrow> parseEdge (entity_json (EEdge e)) = Some (entity_json (EEdge e))"
  by (simp add: parseEdge_def parse_fields edge_fields_def nonempty_string_def cong: option.case_cong)

lemma parse_relation:
  "relationType r = ''unknown'' \<or> relationType r \<in> set KNOWN_EDGE_TYPES \<Longrightarrow>
     parseRelationSummary (entity_json (ERelation r)) = Some (entity_json (ERelation r))"
  by (simp add: parseRelationSummary_def parse_fields relation_fields_def known_relation_type_def cong: option.case_cong)

lemma parse_link: "fromCardId l \<noteq> toCardId l \<Longrightarrow> parseEvidenceLink (entity_json (EEvidence l)) = Some (raw_link l)"
  by (cases "link_type l")
    (auto simp: parseEvidenceLink_def parse_fields link_fields_def raw_link_def string_or_undefined_def split: option.splits)

lemma present_append: "present (fs @ gs) = present fs @ present gs"
  by (induction fs rule: present.induct) simp_all

lemma delete_present: "AList.delete k (present fs) = present (AList.delete k fs)"
  by (induction fs rule: present.induct) (auto simp: AList.delete_eq)

lemma delete_append: "AList.delete k (xs @ ys) = AList.delete k xs @ AList.delete k ys"
  by (simp add: AList.delete_eq)

lemma delete_opt: "AList.delete k [opt k' f x] = (if k = k' then [] else [opt k' f x])"
  by (simp add: AList.delete_eq opt_def)

lemma keep_meta: "meta_ok m \<Longrightarrow> sanitizedMeta (obj (meta_fields m)) = present (meta_fields m) \<and> present (meta_fields m) \<noteq> []"
  by (cases "meta_seq m"; cases "meta_source m")
    (auto simp: meta_ok_def sanitizedMeta_def keep_if_def meta_fields_def parse_fields nonempty_string_def)

lemma keep_ka: "ka_ok m \<Longrightarrow> sanitizedKa (obj (ka_fields m)) = present (ka_fields m) \<and> present (ka_fields m) \<noteq> []"
  by (cases "ka_voice m"; cases "ka_value m")
    (auto simp: ka_ok_def sanitizedKa_def keep_if_def ka_fields_def parse_fields nonempty_string_def)

definition card_front :: "card \<Rightarrow> fields" where
  "card_front c = take 13 (card_fields c)"

abbreviation meta_field :: "card \<Rightarrow> fields" where
  "meta_field c \<equiv> [opt ''meta'' (\<lambda>m. obj (meta_fields m)) (card_meta_of c)]"

abbreviation ka_field :: "card \<Rightarrow> fields" where
  "ka_field c \<equiv> [opt ''ka'' (\<lambda>k. obj (ka_fields k)) (card_ka_of c)]"

lemma card_fields_split: "card_fields c = card_front c @ meta_field c @ ka_field c"
  by (simp add: card_front_def card_fields_def)

lemma delete_front: "AList.delete ''meta'' (card_front c) = card_front c" "AList.delete ''ka'' (card_front c) = card_front c"
  by (simp_all add: card_front_def card_fields_def AList.delete_eq req_def opt_def)

lemma card_part_props:
  "js_prop (obj (card_fields c)) ''meta'' = (case card_meta_of c of None \<Rightarrow> JUndef | Some m \<Rightarrow> obj (meta_fields m))"
  "js_prop (obj (card_fields c)) ''ka'' = (case card_ka_of c of None \<Rightarrow> JUndef | Some m \<Rightarrow> obj (ka_fields m))"
  by (simp_all add: js_prop_obj card_fields_def req_def opt_def split: option.splits)

lemma sanitize_meta_card:
  assumes "pred_option meta_ok (card_meta_of c)"
  shows "sanitize_part ''meta'' sanitizedMeta (obj (card_fields c)) (obj (card_fields c)) =
    Some (if card_meta_of c = None then obj (card_fields c) else obj (card_front c @ ka_field c @ meta_field c))"
proof (cases "card_meta_of c")
  case None
  then show ?thesis by (simp add: sanitize_part_def card_part_props)
next
  case (Some m)
  have "replace_prop ''meta'' (present (meta_fields m)) (obj (card_fields c)) = obj (card_front c @ ka_field c @ meta_field c)"
    using assms Some keep_meta
    by (simp only: replace_prop_def obj_def own_entries.simps delete_present card_fields_split delete_append delete_front
        delete_opt Let_def) (cases "card_ka_of c"; simp add: present_append opt_def obj_def)
  then show ?thesis using assms Some keep_meta by (simp add: sanitize_part_def card_part_props)
qed

lemma sanitize_ka_card:
  assumes "pred_option ka_ok (card_ka_of c)" "S = obj (card_fields c) \<or> S = obj (card_front c @ ka_field c @ meta_field c)"
  shows "sanitize_part ''ka'' sanitizedKa (obj (card_fields c)) S = Some (obj (card_fields c))"
proof (cases "card_ka_of c")
  case None
  with assms(2) have "S = obj (card_fields c)"
    by (cases "card_meta_of c") (auto simp: obj_def card_fields_split present_append opt_def)
  with None show ?thesis by (simp add: sanitize_part_def card_part_props)
next
  case (Some m)
  have "AList.delete ''ka'' (own_entries S) = present (card_front c @ meta_field c)"
    using assms(2)
    by (auto simp only: obj_def own_entries.simps delete_present card_fields_split delete_append delete_front delete_opt) simp_all
  then have "replace_prop ''ka'' (present (ka_fields m)) S = obj (card_fields c)"
    using assms(1) Some keep_ka by (cases "card_meta_of c") (simp_all add: replace_prop_def Let_def card_fields_split present_append obj_def opt_def)
  then show ?thesis using assms(1) Some keep_ka by (simp add: sanitize_part_def card_part_props)
qed

lemma parse_card:
  assumes "pred_option meta_ok (card_meta_of c)" "pred_option ka_ok (card_ka_of c)"
  shows "parseCard (entity_json (ECard c)) = Some (entity_json (ECard c))"
proof -
  have "js_prop (obj (card_fields c)) ''id'' = JStr (card_id c)" "js_prop (obj (card_fields c)) ''text'' = JStr (card_text c)"
    "isFiniteNumber (js_prop (obj (card_fields c)) ''x'')" "isFiniteNumber (js_prop (obj (card_fields c)) ''y'')"
    "opt_prop isString (obj (card_fields c)) ''canonicalId''" "opt_prop isStringArray (obj (card_fields c)) ''sources''"
    "opt_prop isString (obj (card_fields c)) ''critique''" "opt_prop isStringArray (obj (card_fields c)) ''critiqueTags''"
    "opt_prop isBoolean (obj (card_fields c)) ''textReviewed''"
    by (simp_all add: parse_fields card_fields_def cong: option.case_cong)
  then show ?thesis
    using sanitize_meta_card [OF assms(1)] sanitize_ka_card [OF assms(2)]
    by (simp add: parseCard_def entity_json_def opt_def)
qed

lemma parse_op:
  assumes "op_ok op"
  shows "parsePatchOp (op_json op) = Some (raw_op_of op)"
  using assms
  by (cases op) (simp_all add: parsePatchOp_def op_json_def raw_op_of_def parse_card parse_island parse_edge parse_relation parse_link)

lemma parse_ops_map: "list_all op_ok os \<Longrightarrow> parse_ops (map op_json os) = Some (map raw_op_of os)"
  by (induction os) (simp_all add: parse_op)

lemma as_string_case [simp]: "as_string (case x of None \<Rightarrow> JUndef | Some s \<Rightarrow> JStr s) = x"
  by (cases x) simp_all

section \<open>Properties\<close>

text \<open>Sanitisation. Every card of a successfully parsed patch has a string identifier and text and
  finite coordinates, and its \<open>meta\<close> and \<open>ka\<close> are absent or non-empty objects whose keys are only the
  known ones, with values of the right type, whatever the input contained.\<close>

theorem parsed_cards_clean:
  assumes "parsePatchDocument v = Some p" and "UpsertCard i c \<in> set (ops p)"
  shows "clean_card c"
proof -
  obtain items where items: "parse_ops items = Some (ops p)"
    using assms(1) by (auto simp: parsePatchDocument_def split: if_splits json.splits)
  have "parse_ops items = Some os \<Longrightarrow> UpsertCard i c \<in> set os \<Longrightarrow> \<exists>item. parsePatchOp item = Some (UpsertCard i c)" for os
  proof (induction items arbitrary: os)
    case (Cons a items)
    then show ?case by (auto split: option.splits)
  qed simp
  with items assms(2) obtain item where "parsePatchOp item = Some (UpsertCard i c)" by blast
  then have "\<exists>w. parseCard w = Some c" by (auto simp: parsePatchOp_def split: if_splits option.splits)
  then show ?thesis using parseCard_clean by blast
qed

text \<open>How an operation comes back from its JSON form. An evidence link is rebuilt: every property reads as before
  except \<open>contradictionState\<close>, which is gone; and when the note and the creation time are given and there is no
  contradiction state, it is the same object.\<close>

fun comes_back :: "patch_op \<Rightarrow> raw_op \<Rightarrow> bool" where
  "comes_back (UpsertCard i c) r \<longleftrightarrow> r = UpsertCard i (entity_json (ECard c))"
| "comes_back (DeleteCard i k) r \<longleftrightarrow> r = DeleteCard i k"
| "comes_back (UpsertIsland i x) r \<longleftrightarrow> r = UpsertIsland i (entity_json (EIsland x))"
| "comes_back (DeleteIsland i k) r \<longleftrightarrow> r = DeleteIsland i k"
| "comes_back (UpsertEdge i e) r \<longleftrightarrow> r = UpsertEdge i (entity_json (EEdge e))"
| "comes_back (DeleteEdge i k) r \<longleftrightarrow> r = DeleteEdge i k"
| "comes_back (UpsertRelationSummary i x) r \<longleftrightarrow> r = UpsertRelationSummary i (entity_json (ERelation x))"
| "comes_back (DeleteRelationSummary i k) r \<longleftrightarrow> r = DeleteRelationSummary i k"
| "comes_back (DeleteEvidenceLink i k) r \<longleftrightarrow> r = DeleteEvidenceLink i k"
| "comes_back (UpsertEvidenceLink i l) r \<longleftrightarrow> (\<exists>w. r = UpsertEvidenceLink i w \<and>
     (\<forall>k. js_prop w k = (if k = ''contradictionState'' then JUndef else js_prop (entity_json (EEvidence l)) k)) \<and>
     (link_note l \<noteq> None \<and> link_createdAt l \<noteq> None \<and> contradictionState l = None \<longrightarrow> w = entity_json (EEvidence l)))"

lemma raw_link_prop:
  "js_prop (raw_link l) k = (if k = ''contradictionState'' then JUndef else js_prop (entity_json (EEvidence l)) k)"
  by (simp add: raw_link_def entity_json_def link_fields_def js_prop_obj req_def opt_def split: option.split)

lemma raw_link_same:
  "link_note l \<noteq> None \<Longrightarrow> link_createdAt l \<noteq> None \<Longrightarrow> contradictionState l = None \<Longrightarrow> raw_link l = entity_json (EEvidence l)"
  by (auto simp: raw_link_def entity_json_def link_fields_def obj_def req_def opt_def)

lemma raw_op_comes_back: "comes_back op (raw_op_of op)"
  by (cases op) (auto simp: raw_op_of_def raw_link_prop raw_link_same)

text \<open>C38. Round trip. Parsing the JSON form of a patch whose operations are valid succeeds: the header comes back
  unchanged, and the operations come back in their order, with their ids, kinds and targets and with the payloads as raw
  values: cards, islands, edges and relation summaries exactly as written, evidence links with every property except
  \<open>contradictionState\<close>, which the parser drops. A patch whose links carry a note, a creation time and no contradiction
  state comes back exactly.\<close>

theorem parse_roundtrip:
  assumes "list_all op_ok (ops p)"
  shows "\<exists>q. parsePatchDocument (patch_json p) = Some q \<and>
    baseDocSignature q = baseDocSignature p \<and> patch_author q = patch_author p \<and> authorNote q = authorNote p \<and>
    sourceApp q = sourceApp p \<and> patchFingerprint q = patchFingerprint p \<and> patchId q = patchId p \<and>
    list_all2 comes_back (ops p) (ops q)"
proof -
  have "parsePatchDocument (patch_json p) =
    Some \<lparr>baseDocSignature = baseDocSignature p, patch_author = patch_author p, authorNote = authorNote p,
      sourceApp = sourceApp p, patchFingerprint = patchFingerprint p, patchId = patchId p, ops = map raw_op_of (ops p)\<rparr>"
    by (simp add: parsePatchDocument_def patch_json_def parse_fields parse_ops_map [OF assms] cong: option.case_cong)
  moreover have "list_all2 comes_back (ops p) (map raw_op_of (ops p))"
    by (simp add: list_all2_map2 list_all2_same raw_op_comes_back)
  ultimately show ?thesis by simp
qed

definition ex_link_patch :: patch where
  "ex_link_patch = mk_patch [DeleteCard ''o1'' ''c2'',
     UpsertEvidenceLink ''o2'' ((mk_link ''l'' Contradicts ''a'' ''b'')\<lparr>link_note := Some ''n'', contradictionState := Some CHeld\<rparr>)]"

theorem parse_roundtrip_witness:
  "\<exists>q w. parsePatchDocument (patch_json ex_link_patch) = Some q \<and> ops q = [DeleteCard ''o1'' ''c2'', UpsertEvidenceLink ''o2'' w] \<and>
     js_prop w ''note'' = JStr ''n'' \<and> js_prop w ''fromCardId'' = JStr ''a'' \<and> js_prop w ''contradictionState'' = JUndef"
proof -
  have "list_all op_ok (ops ex_link_patch)" by (simp add: ex_link_patch_def)
  from parse_roundtrip [OF this] obtain q where q: "parsePatchDocument (patch_json ex_link_patch) = Some q"
    "list_all2 comes_back (ops ex_link_patch) (ops q)" by blast
  from q(2) obtain w where "ops q = [DeleteCard ''o1'' ''c2'', UpsertEvidenceLink ''o2'' w]"
    and w: "\<forall>k. js_prop w k = (if k = ''contradictionState'' then JUndef else
      js_prop (entity_json (EEvidence ((mk_link ''l'' Contradicts ''a'' ''b'')\<lparr>link_note := Some ''n'', contradictionState := Some CHeld\<rparr>))) k)"
    by (auto simp: ex_link_patch_def list_all2_Cons1)
  moreover have "js_prop w ''note'' = JStr ''n''" "js_prop w ''fromCardId'' = JStr ''a''" "js_prop w ''contradictionState'' = JUndef"
    by (simp_all add: w) (simp_all add: entity_json_def link_fields_def js_prop_obj req_def opt_def)
  ultimately show ?thesis using q(1) by blast
qed

theorem parsed_cards_clean_witness:
  "clean_card (entity_json (ECard (mk_card ''c1'' ''theirs'' 0 0)))"
proof (rule parsed_cards_clean)
  show "parsePatchDocument (patch_json ex_patch) = Some (mk_patch (map raw_op_of (ops ex_patch)))"
    by (simp add: parsePatchDocument_def patch_json_def parse_fields parse_op ex_patch_def cong: option.case_cong)
  show "UpsertCard ''o1'' (entity_json (ECard (mk_card ''c1'' ''theirs'' 0 0))) \<in> set (ops (mk_patch (map raw_op_of (ops ex_patch))))"
    by (simp add: ex_patch_def raw_op_of_def)
qed

text \<open>An evidence link without a note does not survive the round trip as an equal value: the parser
  gives it own properties that are \<open>undefined\<close>, and the serialisation used for comparing shows them.\<close>

lemma reparsed_link_differs:
  "stableSerialize code_unit_le rat_text (raw_link (mk_link ''l'' Supports ''a'' ''b'')) \<noteq>
   stableSerialize code_unit_le rat_text (entity_json (EEvidence (mk_link ''l'' Supports ''a'' ''b'')))"
  by (simp add: raw_link_def entity_json_def link_fields_def obj_def req_def opt_def json_quote_def escape_char_def)

text \<open>And its contradiction state is gone: a patch that updates such a link resets the assessment.\<close>

lemma parsed_link_loses_state: "parseEvidenceLink v = Some w \<Longrightarrow> js_prop w ''contradictionState'' = JUndef"
  by (auto simp: parseEvidenceLink_def split: if_splits)

end
