(* ===== verification/Merge_Items.thy ===== *)
theory Merge_Items
  imports Patch_Parse JS_Text
begin

text \<open>
  \<open>diff/document_diff.ts\<close>, \<open>diff/view_diff.ts\<close> and \<open>diff/merge_items.ts\<close>: the list of merge items between a base
  and an incoming document, with the prerequisites of each. Values of items (\<open>before\<close>, \<open>after\<close>) are raw
  values, absent ones \<open>undefined\<close>. The incremental variant takes the scheduler's cancellation flag and
  the elapsed time as arguments.
\<close>

section \<open>Items\<close>

datatype merge_entity_kind = KCard | KIsland | KEdge | KEvidence | KView | KRelationSummary

datatype merge_item_kind =
    card_add | card_remove | card_field | island_add | island_remove | island_field
  | edge_add | edge_remove | evidence_add | evidence_remove | relationSummary_field | view_field

fun entity_kind_str :: "merge_entity_kind \<Rightarrow> string" where
  "entity_kind_str KCard = ''card''"
| "entity_kind_str KIsland = ''island''"
| "entity_kind_str KEdge = ''edge''"
| "entity_kind_str KEvidence = ''evidence''"
| "entity_kind_str KView = ''view''"
| "entity_kind_str KRelationSummary = ''relationSummary''"

fun item_kind_str :: "merge_item_kind \<Rightarrow> string" where
  "item_kind_str card_add = ''card.add''"
| "item_kind_str card_remove = ''card.remove''"
| "item_kind_str card_field = ''card.field''"
| "item_kind_str island_add = ''island.add''"
| "item_kind_str island_remove = ''island.remove''"
| "item_kind_str island_field = ''island.field''"
| "item_kind_str edge_add = ''edge.add''"
| "item_kind_str edge_remove = ''edge.remove''"
| "item_kind_str evidence_add = ''evidence.add''"
| "item_kind_str evidence_remove = ''evidence.remove''"
| "item_kind_str relationSummary_field = ''relationSummary.field''"
| "item_kind_str view_field = ''view.field''"

record merge_item_ref =
  ref_kind :: merge_entity_kind
  ref_id :: string

record merge_item =
  mi_id :: string
  mi_kind :: merge_item_kind
  entityRef :: merge_item_ref
  mi_field :: "string option"
  mi_before :: json
  mi_after :: json
  prerequisites :: "merge_item_ref list"

abbreviation mk_ref :: "merge_entity_kind \<Rightarrow> string \<Rightarrow> merge_item_ref" where
  "mk_ref k i \<equiv> \<lparr>ref_kind = k, ref_id = i\<rparr>"

section \<open>Differences of entities\<close>

definition changedFields :: "js_engine \<Rightarrow> json \<Rightarrow> json \<Rightarrow> string list" where
  "changedFields E before after =
     (let keys = uniq (map fst (own_entries before) @ map fst (own_entries after));
          ser = (\<lambda>v. stableSerialize (eng_le E) (eng_num E) v)
      in sort_by (eng_le E) (filter (\<lambda>key. ser (js_prop before key) \<noteq> ser (js_prop after key)) keys))"

definition byId :: "('v \<Rightarrow> string) \<Rightarrow> ('v \<Rightarrow> entity) \<Rightarrow> 'v list \<Rightarrow> (string \<times> entity) list" where
  "byId key wrap items = new_map (map (\<lambda>item. (key item, wrap item)) items)"

definition entity_items ::
  "js_engine \<Rightarrow> string \<Rightarrow> merge_entity_kind \<Rightarrow> merge_item_kind \<Rightarrow> merge_item_kind \<Rightarrow> merge_item_kind option \<Rightarrow>
     entity option \<Rightarrow> entity option \<Rightarrow> string \<Rightarrow> merge_item list" where
  "entity_items E scope entityKind addKind removeKind fieldKind before after i =
     (case (before, after) of
        (None, Some a) \<Rightarrow> [\<lparr>mi_id = item_kind_str addKind @ '':'' @ i, mi_kind = addKind, entityRef = mk_ref entityKind i,
            mi_field = None, mi_before = JUndef, mi_after = entity_json a, prerequisites = []\<rparr>]
      | (Some b, None) \<Rightarrow> [\<lparr>mi_id = item_kind_str removeKind @ '':'' @ i, mi_kind = removeKind, entityRef = mk_ref entityKind i,
            mi_field = None, mi_before = entity_json b, mi_after = JUndef, prerequisites = []\<rparr>]
      | (None, None) \<Rightarrow> []
      | (Some b, Some a) \<Rightarrow>
          (case fieldKind of
             None \<Rightarrow> []
           | Some kind \<Rightarrow> map (\<lambda>field. \<lparr>mi_id = scope @ ''.field:'' @ i @ '':'' @ field, mi_kind = kind,
                 entityRef = mk_ref entityKind i, mi_field = Some field, mi_before = js_prop (entity_json b) field,
                 mi_after = js_prop (entity_json a) field, prerequisites = []\<rparr>)
               (changedFields E (entity_json b) (entity_json a))))"

definition buildEntityItems ::
  "js_engine \<Rightarrow> string \<Rightarrow> (string \<times> entity) list \<Rightarrow> (string \<times> entity) list \<Rightarrow> merge_entity_kind \<Rightarrow>
     merge_item_kind \<Rightarrow> merge_item_kind \<Rightarrow> merge_item_kind option \<Rightarrow> merge_item list" where
  "buildEntityItems E scope baseMap incomingMap entityKind addKind removeKind fieldKind =
     concat (map (\<lambda>i. entity_items E scope entityKind addKind removeKind fieldKind (map_of baseMap i) (map_of incomingMap i) i)
       (sort_by (eng_le E) (uniq (map fst baseMap @ map fst incomingMap))))"

record document_diff =
  dd_cards :: "merge_item list"
  dd_islands :: "merge_item list"
  dd_edges :: "merge_item list"
  dd_evidence :: "merge_item list"

definition computeDocumentDiff :: "js_engine \<Rightarrow> document \<Rightarrow> document \<Rightarrow> document_diff" where
  "computeDocumentDiff E baseDoc incomingDoc =
     \<lparr>dd_cards = buildEntityItems E ''card'' (byId card_id ECard (cards baseDoc)) (byId card_id ECard (cards incomingDoc))
        KCard card_add card_remove (Some card_field),
      dd_islands = buildEntityItems E ''island'' (byId island_id EIsland (islands baseDoc)) (byId island_id EIsland (islands incomingDoc))
        KIsland island_add island_remove (Some island_field),
      dd_edges = buildEntityItems E ''edge'' (byId edge_id EEdge (edges baseDoc)) (byId edge_id EEdge (edges incomingDoc))
        KEdge edge_add edge_remove None,
      dd_evidence =
        buildEntityItems E ''evidence'' (byId link_id EEvidence (evidence_of baseDoc)) (byId link_id EEvidence (evidence_of incomingDoc))
          KEvidence evidence_add evidence_remove None @
        buildEntityItems E ''relationSummary'' (byId sourceSignature ERelation (relations_of baseDoc))
          (byId sourceSignature ERelation (relations_of incomingDoc))
          KRelationSummary relationSummary_field relationSummary_field (Some relationSummary_field)\<rparr>"

definition flattenDocumentDiff :: "document_diff \<Rightarrow> merge_item list" where
  "flattenDocumentDiff diff = dd_cards diff @ dd_islands diff @ dd_edges diff @ dd_evidence diff"

definition computeViewDiff :: "js_engine \<Rightarrow> document \<Rightarrow> document \<Rightarrow> merge_item list" where
  "computeViewDiff E baseView incomingView =
     (let before = jstrs (nullish (readingOrder baseView) []); after = jstrs (nullish (readingOrder incomingView) [])
      in if stableSerialize (eng_le E) (eng_num E) before = stableSerialize (eng_le E) (eng_num E) after then []
         else [\<lparr>mi_id = ''view.field:readingOrder'', mi_kind = view_field, entityRef = mk_ref KView ''document'',
                mi_field = Some ''readingOrder'', mi_before = before, mi_after = after, prerequisites = []\<rparr>])"

section \<open>Prerequisites\<close>

definition toRefSetKey :: "merge_item_ref \<Rightarrow> string" where
  "toRefSetKey r = entity_kind_str (ref_kind r) @ '':'' @ ref_id r"

definition uniqueRefs :: "merge_item_ref list \<Rightarrow> merge_item_ref list" where
  "uniqueRefs refs = map snd (new_map (map (\<lambda>r. (toRefSetKey r, r)) refs))"

definition computePrerequisites :: "document \<Rightarrow> merge_item \<Rightarrow> merge_item_ref list" where
  "computePrerequisites baseDoc item =
     (if mi_kind item = evidence_add then
        (if mi_after item = JUndef then []
         else uniqueRefs (map (mk_ref KCard) (filter (\<lambda>cardId. cardId \<notin> card_id ` set (cards baseDoc))
           (List.map_filter as_string [js_prop (mi_after item) ''fromCardId'', js_prop (mi_after item) ''toCardId'']))))
      else if mi_kind item = card_remove then
        uniqueRefs (map (\<lambda>l. mk_ref KEvidence (link_id l))
          (filter (\<lambda>l. fromCardId l = ref_id (entityRef item) \<or> toCardId l = ref_id (entityRef item)) (evidence_of baseDoc)))
      else [])"

definition attachPrerequisites :: "document \<Rightarrow> merge_item list \<Rightarrow> merge_item list" where
  "attachPrerequisites baseDoc items = map (\<lambda>item. item\<lparr>prerequisites := computePrerequisites baseDoc item\<rparr>) items"

definition finalizeMergeItems :: "document \<Rightarrow> merge_item list \<Rightarrow> merge_item list \<Rightarrow> merge_item list" where
  "finalizeMergeItems baseDoc documentDiff viewDiff = attachPrerequisites baseDoc (documentDiff @ viewDiff)"

definition buildMergeItems :: "js_engine \<Rightarrow> document \<Rightarrow> document \<Rightarrow> merge_item list" where
  "buildMergeItems E baseDoc incomingDoc =
     finalizeMergeItems baseDoc (flattenDocumentDiff (computeDocumentDiff E baseDoc incomingDoc)) (computeViewDiff E baseDoc incomingDoc)"

section \<open>The incremental variant\<close>

record incremental_result =
  inc_items :: "merge_item list"
  truncated :: bool
  inc_notes :: "string list"

definition guard_value :: "rat option \<Rightarrow> int \<Rightarrow> int" where
  "guard_value x d = max 1 (case x of None \<Rightarrow> d | Some q \<Rightarrow> \<lfloor>q\<rfloor>)"

text \<open>The loop over the groups: \<open>Inl\<close> is an early return, \<open>Inr\<close> the items collected.\<close>

fun collect_groups :: "document \<Rightarrow> (nat \<Rightarrow> bool) \<Rightarrow> int \<Rightarrow> nat \<Rightarrow> merge_item list list \<Rightarrow> merge_item list \<Rightarrow>
    incremental_result + merge_item list" where
  "collect_groups baseDoc isCancelled maxNodes index [] items = Inr items"
| "collect_groups baseDoc isCancelled maxNodes index (grp # groups) items =
     (if isCancelled index then Inl \<lparr>inc_items = [], truncated = True, inc_notes = [''Cancelled'']\<rparr>
      else let items' = items @ grp in
        if int (length items') > maxNodes
        then Inl \<lparr>inc_items = finalizeMergeItems baseDoc (take (nat maxNodes) items') [], truncated = True,
               inc_notes = [''Truncated due to node limit ('' @ nat_str (length items') @ ''/'' @ nat_str (nat maxNodes) @ '').'']\<rparr>
        else collect_groups baseDoc isCancelled maxNodes (Suc index) groups items')"

definition buildMergeItemsIncremental ::
  "js_engine \<Rightarrow> document \<Rightarrow> document \<Rightarrow> (nat \<Rightarrow> bool) \<Rightarrow> int \<Rightarrow> rat option \<Rightarrow> rat option \<Rightarrow> incremental_result" where
  "buildMergeItemsIncremental E baseDoc incomingDoc isCancelled elapsedMs maxNodesOpt maxMsOpt =
     (let maxNodes = guard_value maxNodesOpt 5000; maxMs = guard_value maxMsOpt 2000;
          documentDiff = computeDocumentDiff E baseDoc incomingDoc
      in case collect_groups baseDoc isCancelled maxNodes 0
                [dd_cards documentDiff, dd_islands documentDiff, dd_edges documentDiff, dd_evidence documentDiff] [] of
           Inl r \<Rightarrow> r
         | Inr items \<Rightarrow>
             (let notes = (if elapsedMs > maxMs then [''Truncated due to time limit ('' @ nat_str (nat maxMs) @ ''ms).''] else [])
              in \<lparr>inc_items = finalizeMergeItems baseDoc items (computeViewDiff E baseDoc incomingDoc),
                  truncated = (length notes > 0), inc_notes = notes\<rparr>))"

section \<open>When there is nothing to merge\<close>

lemma serialize_undefined:
  "number_format (eng_num E) \<Longrightarrow> finite_nums v \<Longrightarrow>
     stableSerialize (eng_le E) (eng_num E) JUndef = stableSerialize (eng_le E) (eng_num E) v \<longleftrightarrow> v = JUndef"
proof -
  assume "number_format (eng_num E)" "finite_nums v"
  then have "stableSerialize (eng_le E) (eng_num E) JUndef = stableSerialize (eng_le E) (eng_num E) v \<longleftrightarrow>
      canon (eng_le E) JUndef = canon (eng_le E) v"
    by (intro stableSerialize_eq_iff) simp_all
  then show ?thesis by (cases v) auto
qed

lemma canon_undef: "canon le v = JUndef \<longleftrightarrow> v = JUndef" "JUndef = canon le v \<longleftrightarrow> v = JUndef"
  by (cases v; auto)+

lemma canon_nullish:
  "canon le (nullish m JUndef) = canon le (nullish n JUndef) \<Longrightarrow> m \<noteq> Some JUndef \<Longrightarrow> n \<noteq> Some JUndef \<Longrightarrow>
     map_option (canon le) m = map_option (canon le) n"
  by (cases m; cases n) (auto simp: canon_undef)

lemma canon_obj_pointwise:
  assumes "map fst F = map fst G" "distinct (map fst F)"
    and "\<And>k. map_option (canon le) (map_of (present F) k) = map_option (canon le) (map_of (present G) k)"
  shows "canon le (obj F) = canon le (obj G)"
proof -
  have "length F = length G" using assms(1) by (metis length_map)
  then have "map (\<lambda>(k, v). (k, canon le v)) (present F) = map (\<lambda>(k, v). (k, canon le v)) (present G)"
    using assms
  proof (induction F G rule: list_induct2)
    case (Cons f F g G)
    obtain k x y where fg: "f = (k, x)" "g = (k, y)" using Cons.prems(1) by (cases f; cases g) auto
    have nk: "map_of (present F) k = None" "map_of (present G) k = None"
      using Cons.prems(1,2) keys_present [of F] keys_present [of G] fg
      by (auto simp: map_of_eq_None_iff) (metis (no_types, lifting) image_eqI list.set_map subsetD fst_conv)+
    have e: "map_option (canon le) x = map_option (canon le) y"
      using Cons.prems(3) [of k] nk fg by (cases x; cases y) auto
    have "map_option (canon le) (map_of (present F) k') = map_option (canon le) (map_of (present G) k')" for k'
      using Cons.prems(3) [of k'] nk fg by (cases "k' = k"; cases x; cases y) auto
    with Cons fg e show ?case by (cases x; cases y) auto
  qed simp
  then show ?thesis by (simp add: obj_def)
qed

lemma entity_fields_keys:
  "same_kind a b \<Longrightarrow> map fst (entity_fields a) = map fst (entity_fields b)" "distinct (map fst (entity_fields a))"
  by (cases a; cases b; simp add: card_fields_def island_fields_def edge_fields_def relation_fields_def link_fields_def req_def opt_def)
    (cases a; simp add: card_fields_def island_fields_def edge_fields_def relation_fields_def link_fields_def req_def opt_def)

lemma entity_fields_no_undef: "map_of (present (entity_fields x)) k \<noteq> Some JUndef"
proof -
  have "list_all (\<lambda>(k, v). v \<noteq> Some JUndef) (entity_fields x)"
    by (cases x) (simp_all add: card_fields_def island_fields_def edge_fields_def relation_fields_def link_fields_def
        req_def opt_def cue_json_def)
  then have "(k, Some JUndef) \<notin> set (entity_fields x)" for k by (auto simp: list_all_iff)
  moreover have "(k, v) \<in> set (present fs) \<Longrightarrow> (k, Some v) \<in> set fs" for fs k v
    by (induction fs rule: present.induct) auto
  ultimately show ?thesis by (metis map_of_SomeD)
qed

lemma changedFields_empty:
  assumes nf: "number_format (eng_num E)" and k: "same_kind a b"
  shows "changedFields E (entity_json a) (entity_json b) = [] \<longleftrightarrow> a = b"
proof
  assume empty: "changedFields E (entity_json a) (entity_json b) = []"
  let ?ser = "stableSerialize (eng_le E) (eng_num E)" and ?F = "entity_fields a" and ?G = "entity_fields b"
  have p: "js_prop (entity_json x) key = nullish (map_of (present (entity_fields x)) key) JUndef" for x key
    by (simp add: entity_json_def obj_def)
  have fin: "finite_nums (js_prop (entity_json x) key)" for x key
    using finite_nums_entity [of x] unfolding p entity_json_def obj_def
    by (cases "map_of (present (entity_fields x)) key") (auto simp: list_all_iff dest: map_of_SomeD)
  have "?ser (js_prop (entity_json a) key) = ?ser (js_prop (entity_json b) key)" for key
  proof (cases "key \<in> fst ` set (present ?F) \<union> fst ` set (present ?G)")
    case True
    then show ?thesis using empty
      by (auto simp: changedFields_def Let_def filter_empty_conv entity_json_def obj_def)
  next
    case False
    then have "map_of (present ?F) key = None" "map_of (present ?G) key = None" by (auto simp: map_of_eq_None_iff)
    then show ?thesis by (simp add: p)
  qed
  then have "canon (eng_le E) (js_prop (entity_json a) key) = canon (eng_le E) (js_prop (entity_json b) key)" for key
    using stableSerialize_eq_iff [OF nf fin fin] by metis
  then have "map_option (canon (eng_le E)) (map_of (present ?F) key) = map_option (canon (eng_le E)) (map_of (present ?G) key)" for key
    using canon_nullish entity_fields_no_undef unfolding p by blast
  from canon_obj_pointwise [OF entity_fields_keys(1) [OF k] entity_fields_keys(2) this]
  show "a = b" using canon_entity_inject [OF k] by (simp add: entity_json_def)
qed (simp add: changedFields_def Let_def)

lemma entity_items_empty:
  assumes "number_format (eng_num E)" "\<And>x y. before = Some x \<Longrightarrow> after = Some y \<Longrightarrow> same_kind x y"
  shows "entity_items E scope k add rem fk before after i = [] \<longleftrightarrow>
    (if fk = None then (before = None \<longleftrightarrow> after = None) else before = after)"
  using changedFields_empty [OF assms(1)] assms(2)
  by (cases before; cases after; cases fk) (auto simp: entity_items_def)

lemma map_of_byId:
  "distinct (map key xs) \<Longrightarrow> map_of (byId key wrap xs) i = map_option wrap (find_by key xs i)"
proof -
  assume d: "distinct (map key xs)"
  have "map_of (byId key wrap xs) = map_of (map (\<lambda>x. (key x, wrap x)) xs)"
    unfolding byId_def using d by (intro map_of_new_map_distinct) (simp add: o_def)
  moreover have "map_of (map (\<lambda>x. (key x, wrap x)) xs) i = map_option wrap (find_by key xs i)"
    by (induction xs) auto
  ultimately show ?thesis by simp
qed

lemma buildEntityItems_empty:
  assumes nf: "number_format (eng_num E)" and d: "distinct (map key xs)" "distinct (map key ys)"
    and wrap: "\<And>x y. same_kind (wrap x) (wrap y)" "inj wrap"
  shows "buildEntityItems E scope (byId key wrap xs) (byId key wrap ys) k add rem fk = [] \<longleftrightarrow>
    (if fk = None then key ` set xs = key ` set ys else find_by key xs = find_by key ys)"
proof -
  let ?A = "byId key wrap xs" and ?B = "byId key wrap ys"
  note m = map_of_byId [OF d(1), of wrap] map_of_byId [OF d(2), of wrap]
  have e: "entity_items E scope k add rem fk (map_of ?A i) (map_of ?B i) i = [] \<longleftrightarrow>
      (if fk = None then (i \<in> key ` set xs \<longleftrightarrow> i \<in> key ` set ys) else find_by key xs i = find_by key ys i)" for i
  proof -
    have inj: "map_option wrap a = map_option wrap b \<longleftrightarrow> a = b" for a b
      using wrap(2) by (cases a; cases b) (auto simp: inj_def)
    have "entity_items E scope k add rem fk (map_option wrap (find_by key xs i)) (map_option wrap (find_by key ys i)) i = [] \<longleftrightarrow>
      (if fk = None then (map_option wrap (find_by key xs i) = None \<longleftrightarrow> map_option wrap (find_by key ys i) = None)
       else map_option wrap (find_by key xs i) = map_option wrap (find_by key ys i))"
      using wrap(1) by (intro entity_items_empty [OF nf]) auto
    then show ?thesis unfolding m inj by (simp add: find_by_None)
  qed
  have keys: "set (uniq (map fst ?A @ map fst ?B)) = key ` set xs \<union> key ` set ys"
    by (simp add: byId_def image_image)
  have b: "buildEntityItems E scope ?A ?B k add rem fk = [] \<longleftrightarrow>
      (\<forall>i \<in> key ` set xs \<union> key ` set ys. entity_items E scope k add rem fk (map_of ?A i) (map_of ?B i) i = [])"
    unfolding buildEntityItems_def keys [symmetric] by auto
  have out: "find_by key xs i = find_by key ys i" if "i \<notin> key ` set xs \<union> key ` set ys" for i
    using that find_by_None [of key xs i] find_by_None [of key ys i] by simp
  show ?thesis
  proof (cases "fk = None")
    case True
    show ?thesis unfolding b e by (simp only: True if_True refl) blast
  next
    case False
    show ?thesis unfolding b e fun_eq_iff by (simp only: False if_False) (use out in blast)
  qed
qed

lemma canon_jstrs_eq:
  "number_format (eng_num E) \<Longrightarrow>
     stableSerialize (eng_le E) (eng_num E) (jstrs xs) = stableSerialize (eng_le E) (eng_num E) (jstrs ys) \<longleftrightarrow> xs = ys"
  by (subst stableSerialize_eq_iff) simp_all

text \<open>There is no merge item between two documents (with distinct identifiers) if and only if they
  have the same cards, islands and relation summaries, the same identifiers of edges and evidence links
  and the same reading order: a change inside an edge or an evidence link is not seen.\<close>

theorem merge_items_empty_iff:
  assumes "number_format (eng_num E)" and "ids_distinct a" and "ids_distinct b"
  shows "buildMergeItems E a b = [] \<longleftrightarrow>
    find_by card_id (cards a) = find_by card_id (cards b) \<and> find_by island_id (islands a) = find_by island_id (islands b) \<and>
    find_by sourceSignature (relations_of a) = find_by sourceSignature (relations_of b) \<and>
    edge_id ` set (edges a) = edge_id ` set (edges b) \<and> link_id ` set (evidence_of a) = link_id ` set (evidence_of b) \<and>
    nullish (readingOrder a) [] = nullish (readingOrder b) []"
proof -
  have d: "distinct (map card_id (cards a))" "distinct (map card_id (cards b))" "distinct (map island_id (islands a))"
      "distinct (map island_id (islands b))" "distinct (map edge_id (edges a))" "distinct (map edge_id (edges b))"
      "distinct (map sourceSignature (relations_of a))" "distinct (map sourceSignature (relations_of b))"
      "distinct (map link_id (evidence_of a))" "distinct (map link_id (evidence_of b))"
    using assms(2,3) by (simp_all add: ids_distinct_def)
  have i: "inj ECard" "inj EIsland" "inj EEdge" "inj ERelation" "inj EEvidence" by (simp_all add: inj_def)
  note parts = buildEntityItems_empty [OF assms(1) d(1,2) _ i(1)] buildEntityItems_empty [OF assms(1) d(3,4) _ i(2)]
    buildEntityItems_empty [OF assms(1) d(5,6) _ i(3)] buildEntityItems_empty [OF assms(1) d(7,8) _ i(4)]
    buildEntityItems_empty [OF assms(1) d(9,10) _ i(5)]
  have "computeViewDiff E a b = [] \<longleftrightarrow> nullish (readingOrder a) [] = nullish (readingOrder b) []"
    by (simp add: computeViewDiff_def Let_def canon_jstrs_eq [OF assms(1)])
  then show ?thesis
    by (auto simp: buildMergeItems_def finalizeMergeItems_def attachPrerequisites_def flattenDocumentDiff_def
        computeDocumentDiff_def parts)
qed

theorem merge_items_empty_iff_witness:
  "buildMergeItems demo_engine ex_base ex_cur \<noteq> []"
proof -
  have "find_by card_id (cards ex_base) ''c1'' \<noteq> find_by card_id (cards ex_cur) ''c1''" by (simp add: ex_defs)
  moreover have "ids_distinct ex_base" "ids_distinct ex_cur" by (simp_all add: ex_defs)
  ultimately show ?thesis using merge_items_empty_iff [of demo_engine ex_base ex_cur] by auto
qed

lemma collect_groups_complete:
  "collect_groups base canc m n gs items = Inr r \<Longrightarrow> r = items @ concat gs"
  by (induction base canc m n gs items rule: collect_groups.induct) (auto simp: Let_def split: if_splits)

lemma collect_groups_early:
  "collect_groups base canc m n gs items = Inl r \<Longrightarrow> truncated r \<and> (1 \<le> m \<longrightarrow> int (length (inc_items r)) \<le> m)"
  by (induction base canc m n gs items rule: collect_groups.induct)
    (auto simp: Let_def finalizeMergeItems_def attachPrerequisites_def split: if_splits)

text \<open>C39. The incremental computation agrees with the direct one: a result that is not marked as
  truncated is exactly \<open>buildMergeItems\<close>, and a result cut by the node limit respects the limit.\<close>

theorem incremental_correct:
  "let r = buildMergeItemsIncremental E base incoming canc elapsed maxNodes maxMs
   in (\<not> truncated r \<longrightarrow> inc_items r = buildMergeItems E base incoming) \<and>
      (inc_items r = buildMergeItems E base incoming \<or> int (length (inc_items r)) \<le> guard_value maxNodes 5000)"
proof (cases "collect_groups base canc (guard_value maxNodes 5000) 0
    [dd_cards (computeDocumentDiff E base incoming), dd_islands (computeDocumentDiff E base incoming),
     dd_edges (computeDocumentDiff E base incoming), dd_evidence (computeDocumentDiff E base incoming)] []")
  case (Inl r)
  have "1 \<le> guard_value maxNodes 5000" by (simp add: guard_value_def)
  with collect_groups_early [OF Inl] Inl show ?thesis by (simp add: buildMergeItemsIncremental_def Let_def)
next
  case (Inr items)
  from collect_groups_complete [OF Inr] Inr show ?thesis
    by (simp add: buildMergeItemsIncremental_def Let_def buildMergeItems_def flattenDocumentDiff_def)
qed

theorem incremental_correct_witness:
  "inc_items (buildMergeItemsIncremental demo_engine ex_base ex_base (\<lambda>_. False) 0 None None) = buildMergeItems demo_engine ex_base ex_base"
proof -
  have "buildEntityItems demo_engine sc (byId card_id ECard (cards ex_base)) (byId card_id ECard (cards ex_base)) k a r (Some f) = []" for sc k a r f
    by (subst buildEntityItems_empty) (simp_all add: ex_defs inj_def)
  then have "\<not> truncated (buildMergeItemsIncremental demo_engine ex_base ex_base (\<lambda>_. False) 0 None None)"
    by (simp add: buildMergeItemsIncremental_def Let_def guard_value_def computeDocumentDiff_def)
      (simp add: ex_base_def buildEntityItems_def byId_def new_map_def)
  then show ?thesis
    using incremental_correct [of demo_engine ex_base ex_base "\<lambda>_. False" 0 None None] by (simp add: Let_def)
qed

end
