(* ===== verification/Merge_Apply.thy ===== *)
theory Merge_Apply
  imports Merge_Items Patch_Lint
begin

text \<open>
  \<open>diff/merge_apply.ts\<close> and \<open>diff/merge_dependencies.ts\<close>: applying a selection of merge items as one
  transaction (prerequisites, translation to a patch, linting, conflict detection, application,
  validation) and evaluating a selection before it is applied.

  The schema validator (\<open>import/schema_validation.ts\<close>) is an argument \<open>validate\<close>: \<open>None\<close> is an accepted
  document, \<open>Some\<close> the list of errors as (code, path, message). A translated message \<open>t(key, args)\<close> is
  the key with its arguments.
\<close>

section \<open>Diagnostics\<close>

datatype message = Tr string "(string \<times> string) list" | Plain string

record diagnostic =
  dg_code :: string
  dg_message :: message

type_synonym schema_errors = "(string \<times> string \<times> string) list"

definition MERGE_SELECTED_ITEMS_SOFT_LIMIT :: nat where
  "MERGE_SELECTED_ITEMS_SOFT_LIMIT = 200"

definition MERGE_SELECTED_ITEMS_HARD_LIMIT :: nat where
  "MERGE_SELECTED_ITEMS_HARD_LIMIT = 1000"

definition CONFLICT_REASON_KEYS :: "(string \<times> string) list" where
  "CONFLICT_REASON_KEYS =
     [(''both modified'', ''app.status.comparison.conflict_reason.both_modified''),
      (''delete vs update'', ''app.status.comparison.conflict_reason.delete_vs_update''),
      (''update vs delete'', ''app.status.comparison.conflict_reason.update_vs_delete'')]"

definition translateConflictReason :: "string \<Rightarrow> string" where
  "translateConflictReason reason = nullish (map_of CONFLICT_REASON_KEYS reason) reason"

record preflight_plan =
  patchOrPlan :: patch
  pf_warnings :: "diagnostic list"
  pf_selectedItems :: "merge_item list"

section \<open>Prerequisites of a selection\<close>

definition makeSyntheticItem :: "merge_item_kind \<Rightarrow> string \<Rightarrow> merge_item" where
  "makeSyntheticItem kind i =
     \<lparr>mi_id = ''auto:'' @ item_kind_str kind @ '':'' @ i, mi_kind = kind,
      entityRef = mk_ref (if kind = card_add then KCard else KEvidence) i, mi_field = None, mi_before = JUndef,
      mi_after = JUndef, prerequisites = []\<rparr>"

record prereq_state =
  selectedMap :: "(string \<times> merge_item) list"
  st_refKeys :: "string list"
  ps_warnings :: "diagnostic list"
  ps_errors :: "diagnostic list"

definition add_error :: "string \<Rightarrow> message \<Rightarrow> prereq_state \<Rightarrow> prereq_state" where
  "add_error code m st = st\<lparr>ps_errors := ps_errors st @ [\<lparr>dg_code = code, dg_message = m\<rparr>]\<rparr>"

definition auto_include :: "merge_item \<Rightarrow> string \<Rightarrow> string \<Rightarrow> message \<Rightarrow> prereq_state \<Rightarrow> prereq_state" where
  "auto_include synthetic refKey code m st =
     (if map_of (selectedMap st) (mi_id synthetic) \<noteq> None then st
      else st\<lparr>selectedMap := AList.update (mi_id synthetic) synthetic (selectedMap st),
              st_refKeys := js_add refKey (st_refKeys st),
              ps_warnings := ps_warnings st @ [\<lparr>dg_code = code, dg_message = m\<rparr>]\<rparr>)"

definition require_card :: "document \<Rightarrow> document \<Rightarrow> string \<Rightarrow> string \<Rightarrow> prereq_state \<Rightarrow> prereq_state" where
  "require_card baseDoc incomingDoc itemId cardId st =
     (if (''card:'' @ cardId) \<in> set (st_refKeys st) \<or> cardId \<in> card_id ` set (cards baseDoc) then st
      else if cardId \<notin> card_id ` set (cards incomingDoc)
        then add_error ''M002'' (Tr ''app.status.comparison.merge_error.evidence_add_missing_card'' [(''id'', itemId), (''cardId'', cardId)]) st
      else auto_include (makeSyntheticItem card_add cardId) (''card:'' @ cardId) ''M101''
             (Tr ''app.status.comparison.merge_warning.auto_included_card_for_evidence_add'' [(''cardId'', cardId), (''id'', itemId)]) st)"

definition require_evidence_remove :: "document \<Rightarrow> string \<Rightarrow> evidence_link \<Rightarrow> prereq_state \<Rightarrow> prereq_state" where
  "require_evidence_remove incomingDoc itemId link st =
     (if (''evidence:'' @ link_id link) \<in> set (st_refKeys st) then st
      else if link_id link \<in> link_id ` set (evidence_of incomingDoc)
        then add_error ''M003'' (Tr ''app.status.comparison.merge_error.card_remove_missing_evidence_remove'' [(''id'', itemId), (''linkId'', link_id link)]) st
      else auto_include (makeSyntheticItem evidence_remove (link_id link)) (''evidence:'' @ link_id link) ''M102''
             (Tr ''app.status.comparison.merge_warning.auto_included_evidence_remove_for_card_remove'' [(''linkId'', link_id link), (''id'', itemId)]) st)"

definition prereq_step :: "document \<Rightarrow> document \<Rightarrow> merge_item \<Rightarrow> prereq_state \<Rightarrow> prereq_state" where
  "prereq_step baseDoc incomingDoc item st =
     (if mi_kind item = evidence_add then
        (case find_by link_id (evidence_of incomingDoc) (ref_id (entityRef item)) of
           None \<Rightarrow> add_error ''M001'' (Tr ''app.status.comparison.merge_error.evidence_add_missing_incoming'' [(''id'', ref_id (entityRef item))]) st
         | Some link \<Rightarrow> fold (require_card baseDoc incomingDoc (ref_id (entityRef item))) [fromCardId link, toCardId link] st)
      else if mi_kind item = card_remove then
        fold (require_evidence_remove incomingDoc (ref_id (entityRef item)))
          (filter (\<lambda>link. fromCardId link = ref_id (entityRef item) \<or> toCardId link = ref_id (entityRef item)) (evidence_of baseDoc)) st
      else st)"

definition selectWithAutoPrerequisites :: "document \<Rightarrow> document \<Rightarrow> merge_item list \<Rightarrow> prereq_state" where
  "selectWithAutoPrerequisites baseDoc incomingDoc selectedItems =
     fold (prereq_step baseDoc incomingDoc) selectedItems
       \<lparr>selectedMap = new_map (map (\<lambda>item. (mi_id item, item)) selectedItems),
        st_refKeys = uniq (map (\<lambda>item. toRefSetKey (entityRef item)) selectedItems), ps_warnings = [], ps_errors = []\<rparr>"

section \<open>From a selection to a patch\<close>

definition ids_of :: "merge_item_kind list \<Rightarrow> merge_item list \<Rightarrow> string list" where
  "ids_of kinds items = uniq (map (\<lambda>item. ref_id (entityRef item)) (filter (\<lambda>item. mi_kind item \<in> set kinds) items))"

definition upsert_ops :: "js_engine \<Rightarrow> string \<Rightarrow> (string \<Rightarrow> 'v \<Rightarrow> patch_op) \<Rightarrow> ('v \<Rightarrow> string) \<Rightarrow> 'v list \<Rightarrow> string list \<Rightarrow> patch_op list" where
  "upsert_ops E tag mk key items wanted =
     concat (map (\<lambda>i. case find_by key items i of None \<Rightarrow> [] | Some v \<Rightarrow> [mk (''merge:'' @ tag @ '':'' @ i) v]) (sort_by (eng_le E) wanted))"

definition delete_ops :: "js_engine \<Rightarrow> string \<Rightarrow> (string \<Rightarrow> string \<Rightarrow> patch_op) \<Rightarrow> string list \<Rightarrow> patch_op list" where
  "delete_ops E tag mk wanted = map (\<lambda>i. mk (''merge:'' @ tag @ '':'' @ i) i) (sort_by (eng_le E) wanted)"

definition unsorted_ops :: "js_engine \<Rightarrow> document \<Rightarrow> merge_item list \<Rightarrow> patch_op list" where
  "unsorted_ops E incomingDoc items =
     (let relIds = ids_of [relationSummary_field] items;
          inIncoming = (\<lambda>i. i \<in> sourceSignature ` set (relations_of incomingDoc))
      in upsert_ops E ''upsert_card'' UpsertCard card_id (cards incomingDoc) (ids_of [card_add, card_field] items) @
         delete_ops E ''delete_card'' DeleteCard (ids_of [card_remove] items) @
         upsert_ops E ''upsert_island'' UpsertIsland island_id (islands incomingDoc) (ids_of [island_add, island_field] items) @
         delete_ops E ''delete_island'' DeleteIsland (ids_of [island_remove] items) @
         upsert_ops E ''upsert_edge'' UpsertEdge edge_id (edges incomingDoc) (ids_of [edge_add] items) @
         delete_ops E ''delete_edge'' DeleteEdge (ids_of [edge_remove] items) @
         upsert_ops E ''upsert_evidence_link'' UpsertEvidenceLink link_id (evidence_of incomingDoc) (ids_of [evidence_add] items) @
         delete_ops E ''delete_evidence_link'' DeleteEvidenceLink (ids_of [evidence_remove] items) @
         upsert_ops E ''upsert_relation_summary'' UpsertRelationSummary sourceSignature (relations_of incomingDoc) (filter inIncoming relIds) @
         delete_ops E ''delete_relation_summary'' DeleteRelationSummary (filter (\<lambda>i. \<not> inIncoming i) relIds))"

definition buildOpList :: "js_engine \<Rightarrow> document \<Rightarrow> merge_item list \<Rightarrow> patch_op list" where
  "buildOpList E incomingDoc items = sort_by (\<lambda>left right. eng_le E (op_id left) (op_id right)) (unsorted_ops E incomingDoc items)"

definition buildSelectedPatchFromItems :: "js_engine \<Rightarrow> document \<Rightarrow> document \<Rightarrow> merge_item list \<Rightarrow> patch" where
  "buildSelectedPatchFromItems E baseDoc incomingDoc items =
     (mk_patch (buildOpList E incomingDoc items))\<lparr>baseDocSignature := Some (doc_id baseDoc @ '':'' @ updatedAt baseDoc)\<rparr>"

section \<open>The transaction\<close>

definition schema_diagnostics :: "(document \<Rightarrow> schema_errors option) \<Rightarrow> string \<Rightarrow> document \<Rightarrow> diagnostic list" where
  "schema_diagnostics validate label d =
     (case validate d of
        None \<Rightarrow> []
      | Some errs \<Rightarrow> map (\<lambda>(code, path, m). \<lparr>dg_code = ''SCHEMA:'' @ label, dg_message = Plain (''['' @ code @ ''] '' @ path @ '': '' @ m)\<rparr>) errs)"

definition lint_diagnostics :: "string \<Rightarrow> (lint_issue \<Rightarrow> bool) \<Rightarrow> lint_issue list \<Rightarrow> diagnostic list" where
  "lint_diagnostics pre P issues = map (\<lambda>i. \<lparr>dg_code = pre @ li_code i, dg_message = Plain (li_message i)\<rparr>) (filter P issues)"

definition preflightMerge ::
  "js_engine \<Rightarrow> (document \<Rightarrow> schema_errors option) \<Rightarrow> document \<Rightarrow> merge_item list \<Rightarrow> document \<Rightarrow> diagnostic list + preflight_plan" where
  "preflightMerge E validate baseDoc selectedItems incomingDoc =
     (let errors = schema_diagnostics validate ''base'' baseDoc @ schema_diagnostics validate ''incoming'' incomingDoc @
            (if length selectedItems > MERGE_SELECTED_ITEMS_HARD_LIMIT
             then [\<lparr>dg_code = ''M004'', dg_message = Tr ''app.status.comparison.merge_error.selection_exceeds_hard_limit''
                    [(''count'', nat_str (length selectedItems)), (''limit'', nat_str MERGE_SELECTED_ITEMS_HARD_LIMIT)]\<rparr>] else [])
      in if errors \<noteq> [] then Inl errors
         else let prereqPlan = selectWithAutoPrerequisites baseDoc incomingDoc selectedItems
           in if ps_errors prereqPlan \<noteq> [] then Inl (ps_errors prereqPlan)
              else let items = map snd (selectedMap prereqPlan);
                       patch = buildSelectedPatchFromItems E baseDoc incomingDoc items;
                       lint = lintPatchAgainstCurrentDoc baseDoc patch;
                       lintErrors = lint_diagnostics '''' (\<lambda>i. li_severity i = LintError) lint
                in if lintErrors \<noteq> [] then Inl lintErrors
                   else Inr \<lparr>patchOrPlan = patch,
                     pf_warnings = ps_warnings prereqPlan @ lint_diagnostics '''' (\<lambda>i. li_severity i \<noteq> LintError) lint @
                       (if length selectedItems > MERGE_SELECTED_ITEMS_SOFT_LIMIT
                        then [\<lparr>dg_code = ''M103'', dg_message = Tr ''app.status.comparison.merge_warning.large_selection''
                               [(''count'', nat_str (length selectedItems))]\<rparr>] else []),
                     pf_selectedItems = items\<rparr>)"

definition conflict_diagnostics :: "conflict_item list \<Rightarrow> diagnostic list" where
  "conflict_diagnostics cs = map (\<lambda>c. \<lparr>dg_code = ''M006'', dg_message = Tr ''app.status.comparison.merge_error.conflict''
     [(''entityKey'', ci_entityKey c), (''reason'', translateConflictReason (ci_reason c))]\<rparr>) cs"

definition merged_document :: "js_engine \<Rightarrow> document \<Rightarrow> document \<Rightarrow> preflight_plan \<Rightarrow> document" where
  "merged_document E currentDoc incomingDoc plan =
     (let applied = fst (applyPatchWithResolutionsDetailed E currentDoc (patchOrPlan plan) (\<lambda>_. None) None
            (Some (op_id ` set (ops (patchOrPlan plan)))))
      in applied\<lparr>readingOrder :=
           (if list_ex (\<lambda>item. mi_kind item = view_field \<and> mi_field item = Some ''readingOrder'') (pf_selectedItems plan)
            then Some (nullish (readingOrder incomingDoc) []) else readingOrder applied)\<rparr>)"

definition applyMergeTransaction ::
  "js_engine \<Rightarrow> (document \<Rightarrow> schema_errors option) \<Rightarrow> document \<Rightarrow> document \<Rightarrow> document \<Rightarrow> document \<Rightarrow> merge_item list \<Rightarrow>
     bool \<Rightarrow> diagnostic list + (document \<times> diagnostic list)" where
  "applyMergeTransaction E validate currentDoc snapshotDoc baseDoc incomingDoc selectedItems allowWarnings =
     (case preflightMerge E validate baseDoc selectedItems incomingDoc of
        Inl errors \<Rightarrow> Inl errors
      | Inr plan \<Rightarrow>
          if pf_warnings plan \<noteq> [] \<and> \<not> allowWarnings
          then Inl (\<lparr>dg_code = ''M105'', dg_message = Tr ''app.status.comparison.merge_error.warnings_require_confirmation'' []\<rparr> # pf_warnings plan)
          else let found = conflicts (detectPatchConflicts E snapshotDoc currentDoc (patchOrPlan plan))
            in if found \<noteq> [] then Inl (conflict_diagnostics found)
               else let currentLintErrors = lint_diagnostics ''CUR:'' (\<lambda>i. li_severity i = LintError)
                          (lintPatchAgainstCurrentDoc currentDoc (patchOrPlan plan))
                 in if currentLintErrors \<noteq> [] then Inl currentLintErrors
                    else let nextDoc = merged_document E currentDoc incomingDoc plan
                      in case validate nextDoc of
                           Some errs \<Rightarrow> Inl (map (\<lambda>(code, path, m). \<lparr>dg_code = ''POST:'' @ code, dg_message = Plain (path @ '': '' @ m)\<rparr>) errs)
                         | None \<Rightarrow> Inr (nextDoc, pf_warnings plan))"

definition render :: "(message \<Rightarrow> string) \<Rightarrow> diagnostic list \<Rightarrow> string" where
  "render tr errors = join_with [CHR 0x0A] (map (\<lambda>e. ''['' @ dg_code e @ ''] '' @ tr (dg_message e)) errors)"

definition applySelectedMergeItemsAtomic ::
  "js_engine \<Rightarrow> (document \<Rightarrow> schema_errors option) \<Rightarrow> (message \<Rightarrow> string) \<Rightarrow> document \<Rightarrow> document \<Rightarrow> document \<Rightarrow>
     merge_item list \<Rightarrow> string + document" where
  "applySelectedMergeItemsAtomic E validate tr currentDoc baseDoc incomingDoc selectedItems =
     (case applyMergeTransaction E validate currentDoc baseDoc baseDoc incomingDoc selectedItems True of
        Inl errors \<Rightarrow> Inl (render tr errors)
      | Inr (d, _) \<Rightarrow> Inr d)"

section \<open>Evaluating a selection\<close>

datatype merge_item_status = StatusOk | MissingPrerequisites | StatusConflict

record merge_item_evaluation =
  ev_item :: merge_item
  ev_status :: merge_item_status
  missingPrerequisites :: "merge_item_ref list"
  ev_conflict :: bool

definition collectMissingPrerequisites :: "merge_item \<Rightarrow> string set \<Rightarrow> merge_item_ref list" where
  "collectMissingPrerequisites item keys = filter (\<lambda>p. toRefSetKey p \<notin> keys) (prerequisites item)"

definition include_prerequisites :: "merge_item list \<Rightarrow> string set \<Rightarrow> string set" where
  "include_prerequisites items selectedIds =
     selectedIds \<union> set (List.map_filter (\<lambda>p. map_option mi_id (List.find (\<lambda>c. ref_kind (entityRef c) = ref_kind p \<and>
       ref_id (entityRef c) = ref_id p \<and> (mi_kind c = card_add \<or> mi_kind c = evidence_remove)) items))
       (concat (map prerequisites (filter (\<lambda>item. mi_id item \<in> selectedIds) items))))"

definition patch_key_prefix :: "merge_entity_kind \<Rightarrow> string" where
  "patch_key_prefix k = (if k = KRelationSummary then ''relSummary'' else entity_kind_str k)"

definition evaluate_item :: "string set \<Rightarrow> string set \<Rightarrow> patch \<Rightarrow> string set \<Rightarrow> merge_item \<Rightarrow> merge_item_evaluation" where
  "evaluate_item selectedIds keys candidatePatch conflictOpIds item =
     (let missing = (if mi_id item \<in> selectedIds then collectMissingPrerequisites item keys else []);
          opId = map_option op_id (List.find (\<lambda>op. getPatchOpEntityKey op =
            patch_key_prefix (ref_kind (entityRef item)) @ '':'' @ ref_id (entityRef item)) (ops candidatePatch));
          conflict = (truthy_str opId \<and> the opId \<in> conflictOpIds)
      in \<lparr>ev_item = item, ev_status = (if conflict then StatusConflict else if missing \<noteq> [] then MissingPrerequisites else StatusOk),
          missingPrerequisites = missing, ev_conflict = conflict\<rparr>)"

definition evaluateMergeSelection ::
  "js_engine \<Rightarrow> document \<Rightarrow> document \<Rightarrow> document \<Rightarrow> document \<Rightarrow> merge_item list \<Rightarrow> string set \<Rightarrow> bool \<Rightarrow>
     merge_item_evaluation list \<times> string set" where
  "evaluateMergeSelection E baseDoc currentDoc incomingDoc snapshotDoc items selectedIds autoInclude =
     (let ids = (if autoInclude then include_prerequisites items selectedIds else selectedIds);
          chosen = filter (\<lambda>item. mi_id item \<in> ids) items;
          keys = set (map (\<lambda>item. toRefSetKey (entityRef item)) chosen);
          candidatePatch = buildSelectedPatchFromItems E baseDoc incomingDoc chosen;
          conflictOpIds = set (map ci_opId (conflicts (detectPatchConflicts E snapshotDoc currentDoc candidatePatch)))
      in (map (evaluate_item ids keys candidatePatch conflictOpIds) items, ids))"

section \<open>What an accepted transaction did\<close>

lemma merged_document_eq:
  "merged_document E cur inc plan = (apply_ops (ops (patchOrPlan plan)) cur)\<lparr>readingOrder :=
     (if list_ex (\<lambda>item. mi_kind item = view_field \<and> mi_field item = Some ''readingOrder'') (pf_selectedItems plan)
      then Some (nullish (readingOrder inc) []) else readingOrder (apply_ops (ops (patchOrPlan plan)) cur))\<rparr>"
proof -
  have "filter (op_chosen (Some (op_id ` set os)) {} (\<lambda>_. None)) os = os" for os
    by (simp add: op_chosen_def)
  then show ?thesis by (simp add: merged_document_def applyDetailed_eq Let_def)
qed

lemma lint_diagnostics_Nil: "lint_diagnostics pre P issues = [] \<longleftrightarrow> (\<forall>i \<in> set issues. \<not> P i)"
  by (simp add: lint_diagnostics_def filter_empty_conv)

lemma not_blocked_iff:
  "\<not> shouldBlockPatchApplyByLint (Some issues) \<longleftrightarrow> lint_diagnostics pre (\<lambda>i. li_severity i = LintError) issues = []"
  by (simp add: shouldBlockPatchApplyByLint_def lint_diagnostics_Nil list_ex_iff)

lemma transaction_cases:
  assumes "applyMergeTransaction E validate cur snap base inc sel allow = Inr (d, ws)"
  obtains plan where "preflightMerge E validate base sel inc = Inr plan" "ws = pf_warnings plan"
    "ws \<noteq> [] \<Longrightarrow> allow" "conflicts (detectPatchConflicts E snap cur (patchOrPlan plan)) = []"
    "\<not> shouldBlockPatchApplyByLint (Some (lintPatchAgainstCurrentDoc cur (patchOrPlan plan)))"
    "d = merged_document E cur inc plan" "validate d = None"
proof -
  obtain plan where plan: "preflightMerge E validate base sel inc = Inr plan"
    using assms by (auto simp: applyMergeTransaction_def split: sum.splits)
  show ?thesis
    by (rule that [OF plan])
      (use assms plan not_blocked_iff [where pre = "''CUR:''"] in
        \<open>auto simp: applyMergeTransaction_def Let_def split: if_splits option.splits\<close>)
qed

lemma preflight_size: "preflightMerge E validate base sel inc = Inr plan \<Longrightarrow> length sel \<le> MERGE_SELECTED_ITEMS_HARD_LIMIT"
  by (auto simp: preflightMerge_def Let_def split: if_splits)

lemma doc_lookup_order [simp]: "doc_lookup (d\<lparr>readingOrder := o'\<rparr>) r = doc_lookup d r"
  by (cases r) simp_all

lemma lint_ok_references:
  assumes "ids_distinct cur" "\<not> shouldBlockPatchApplyByLint (Some (lintPatchAgainstCurrentDoc cur p))"
  shows "references_ok (apply_ops (ops p) cur)"
  using assms(2) dangling_checks [OF assms(1), of p] evidence_simulate [OF assms(1), of p]
  unfolding shouldBlock_iff Let_def references_ok_def by blast

lemma references_ok_order [simp]: "references_ok (d\<lparr>readingOrder := o'\<rparr>) = references_ok d"
  by (simp add: references_ok_def endpoint_in_def split: endpoint_kind.splits)

lemma ids_distinct_order [simp]: "ids_distinct (d\<lparr>readingOrder := o'\<rparr>) = ids_distinct d"
  by (simp add: ids_distinct_def)

lemma lookup_apply_ops_same:
  assumes "ids_distinct d" "\<not> (\<exists>i. r = REvidence i)"
    and "\<exists>op \<in> set os. op_ref op = r" "\<forall>op \<in> set os. op_ref op = r \<longrightarrow> getTheirValue op = v"
  shows "doc_lookup (apply_ops os d) r = v"
  using assms(3,4)
proof (induction os rule: rev_induct)
  case (snoc op os)
  have nc: "\<not> cascades op (doc_lookup (apply_ops os d) r)"
    using assms(2) by (cases r) (auto simp: cascades_iff)
  have l: "doc_lookup (apply_ops (os @ [op]) d) r = (if r = op_ref op then getTheirValue op else doc_lookup (apply_ops os d) r)"
    using lookup_applyPatchOp [OF ids_distinct_apply_ops [OF assms(1), of os], of op r] nc by simp
  show ?case
  proof (cases "r = op_ref op")
    case False
    then have "\<exists>op \<in> set os. op_ref op = r" using snoc.prems(1) by auto
    with snoc False show ?thesis unfolding l by simp
  qed (use l snoc.prems in simp)
qed simp

section \<open>The operations of a selection\<close>

definition item_value :: "document \<Rightarrow> merge_item \<Rightarrow> (entity_ref \<times> entity option) option" where
  "item_value inc item = (let i = ref_id (entityRef item) in case mi_kind item of
     card_add \<Rightarrow> map_option (\<lambda>c. (RCard i, Some (ECard c))) (find_by card_id (cards inc) i)
   | card_field \<Rightarrow> map_option (\<lambda>c. (RCard i, Some (ECard c))) (find_by card_id (cards inc) i)
   | card_remove \<Rightarrow> Some (RCard i, None)
   | island_add \<Rightarrow> map_option (\<lambda>x. (RIsland i, Some (EIsland x))) (find_by island_id (islands inc) i)
   | island_field \<Rightarrow> map_option (\<lambda>x. (RIsland i, Some (EIsland x))) (find_by island_id (islands inc) i)
   | island_remove \<Rightarrow> Some (RIsland i, None)
   | edge_add \<Rightarrow> map_option (\<lambda>e. (REdge i, Some (EEdge e))) (find_by edge_id (edges inc) i)
   | edge_remove \<Rightarrow> Some (REdge i, None)
   | evidence_add \<Rightarrow> map_option (\<lambda>l. (REvidence i, Some (EEvidence l))) (find_by link_id (evidence_of inc) i)
   | evidence_remove \<Rightarrow> Some (REvidence i, None)
   | relationSummary_field \<Rightarrow> Some (RRelation i, map_option ERelation (find_by sourceSignature (relations_of inc) i))
   | view_field \<Rightarrow> None)"

abbreviation op_effect :: "patch_op \<Rightarrow> entity_ref \<times> entity option" where
  "op_effect op \<equiv> (op_ref op, getTheirValue op)"

lemma op_effect_simps:
  "op_effect (UpsertCard o' c) = (RCard (card_id c), Some (ECard c))"
  "op_effect (UpsertIsland o' x) = (RIsland (island_id x), Some (EIsland x))"
  "op_effect (UpsertEdge o' e) = (REdge (edge_id e), Some (EEdge e))"
  "op_effect (UpsertRelationSummary o' r) = (RRelation (sourceSignature r), Some (ERelation r))"
  "op_effect (UpsertEvidenceLink o' l) = (REvidence (link_id l), Some (EEvidence l))"
  "op_effect (DeleteCard o' i) = (RCard i, None)" "op_effect (DeleteIsland o' i) = (RIsland i, None)"
  "op_effect (DeleteEdge o' i) = (REdge i, None)" "op_effect (DeleteRelationSummary o' i) = (RRelation i, None)"
  "op_effect (DeleteEvidenceLink o' i) = (REvidence i, None)"
  by simp_all

lemma set_concat_case:
  "x \<in> set (concat (map (\<lambda>i. case F i of None \<Rightarrow> [] | Some v \<Rightarrow> [g i v]) ys)) \<longleftrightarrow> (\<exists>i v. i \<in> set ys \<and> F i = Some v \<and> x = g i v)"
proof -
  have "x \<in> set (case F i of None \<Rightarrow> [] | Some v \<Rightarrow> [g i v]) \<longleftrightarrow> (\<exists>v. F i = Some v \<and> x = g i v)" for i
    by (cases "F i") auto
  then show ?thesis unfolding set_concat set_map by blast
qed

lemma upsert_ops_effect:
  assumes "\<And>i v. op_effect (mk i v) = (R (key v), Some (W v))"
  shows "op_effect ` set (upsert_ops E tag mk key xs wanted) = {(R i, Some (W v)) | i v. i \<in> set wanted \<and> find_by key xs i = Some v}"
proof -
  have s: "op \<in> set (upsert_ops E tag mk key xs wanted) \<longleftrightarrow>
      (\<exists>i v. i \<in> set wanted \<and> find_by key xs i = Some v \<and> op = mk (''merge:'' @ tag @ '':'' @ i) v)" for op
    unfolding upsert_ops_def set_concat_case by simp
  have "key v = i" if "find_by key xs i = Some v" for i v using that by (rule find_by_Some [THEN conjunct2])
  then have "(\<exists>op. op \<in> set (upsert_ops E tag mk key xs wanted) \<and> x = op_effect op) \<longleftrightarrow>
      (\<exists>i v. x = (R i, Some (W v)) \<and> i \<in> set wanted \<and> find_by key xs i = Some v)" for x
    unfolding s using assms by metis
  then show ?thesis unfolding image_def Bex_def by blast
qed

lemma delete_ops_effect:
  assumes "\<And>o' i. op_effect (mk o' i) = (R i, None)"
  shows "op_effect ` set (delete_ops E tag mk wanted) = {(R i, None) | i. i \<in> set wanted}"
  using assms by (auto simp: delete_ops_def image_iff)

lemma set_ids_of: "i \<in> set (ids_of ks items) \<longleftrightarrow> (\<exists>item \<in> set items. mi_kind item \<in> set ks \<and> i = ref_id (entityRef item))"
  by (auto simp: ids_of_def)

lemma mem_upserts:
  "x \<in> {(R i, Some (W v)) | i v. i \<in> set (ids_of ks items) \<and> find_by key xs i = Some v} \<longleftrightarrow>
     (\<exists>item \<in> set items. mi_kind item \<in> set ks \<and>
        (\<exists>v. find_by key xs (ref_id (entityRef item)) = Some v \<and> x = (R (ref_id (entityRef item)), Some (W v))))"
  unfolding set_ids_of by blast

lemma mem_deletes:
  "x \<in> {(R i, None) | i. i \<in> set (ids_of ks items)} \<longleftrightarrow>
     (\<exists>item \<in> set items. mi_kind item \<in> set ks \<and> x = (R (ref_id (entityRef item)), None))"
  unfolding set_ids_of by blast

lemma mem_relations:
  "x \<in> {(RRelation i, Some (ERelation v)) | i v. i \<in> set (filter P (ids_of ks items)) \<and> find_by sourceSignature xs i = Some v} \<longleftrightarrow>
     (\<exists>item \<in> set items. mi_kind item \<in> set ks \<and> P (ref_id (entityRef item)) \<and>
        (\<exists>v. find_by sourceSignature xs (ref_id (entityRef item)) = Some v \<and> x = (RRelation (ref_id (entityRef item)), Some (ERelation v))))"
  "x \<in> {(RRelation i, None) | i. i \<in> set (filter Q (ids_of ks items))} \<longleftrightarrow>
     (\<exists>item \<in> set items. mi_kind item \<in> set ks \<and> Q (ref_id (entityRef item)) \<and> x = (RRelation (ref_id (entityRef item)), None))"
  unfolding set_filter mem_Collect_eq set_ids_of by blast+

lemma item_value_iff:
  "item_value inc item = Some x \<longleftrightarrow> (let i = ref_id (entityRef item); k = mi_kind item in
     (k \<in> set [card_add, card_field] \<and> (\<exists>v. find_by card_id (cards inc) i = Some v \<and> x = (RCard i, Some (ECard v)))) \<or>
     (k \<in> set [card_remove] \<and> x = (RCard i, None)) \<or>
     (k \<in> set [island_add, island_field] \<and> (\<exists>v. find_by island_id (islands inc) i = Some v \<and> x = (RIsland i, Some (EIsland v)))) \<or>
     (k \<in> set [island_remove] \<and> x = (RIsland i, None)) \<or>
     (k \<in> set [edge_add] \<and> (\<exists>v. find_by edge_id (edges inc) i = Some v \<and> x = (REdge i, Some (EEdge v)))) \<or>
     (k \<in> set [edge_remove] \<and> x = (REdge i, None)) \<or>
     (k \<in> set [evidence_add] \<and> (\<exists>v. find_by link_id (evidence_of inc) i = Some v \<and> x = (REvidence i, Some (EEvidence v)))) \<or>
     (k \<in> set [evidence_remove] \<and> x = (REvidence i, None)) \<or>
     (k \<in> set [relationSummary_field] \<and> i \<in> sourceSignature ` set (relations_of inc) \<and>
        (\<exists>v. find_by sourceSignature (relations_of inc) i = Some v \<and> x = (RRelation i, Some (ERelation v)))) \<or>
     (k \<in> set [relationSummary_field] \<and> i \<notin> sourceSignature ` set (relations_of inc) \<and> x = (RRelation i, None)))"
proof -
  have "map_option ERelation (find_by sourceSignature xs i) = v \<longleftrightarrow>
      (\<exists>r. v = Some (ERelation r) \<and> i \<in> sourceSignature ` set xs \<and> find_by sourceSignature xs i = Some r) \<or>
      (v = None \<and> i \<notin> sourceSignature ` set xs)" for xs i v
    using find_by_None [of sourceSignature xs i] by (cases "find_by sourceSignature xs i") auto
  then show ?thesis
    by (cases "mi_kind item"; cases x) (simp_all add: item_value_def Let_def, auto)
qed

lemma effects_of_selection:
  "op_effect ` set (buildOpList E inc items) = {x. \<exists>item \<in> set items. item_value inc item = Some x}"
proof (rule set_eqI)
  fix x
  have "x \<in> op_effect ` set (buildOpList E inc items) \<longleftrightarrow> x \<in> op_effect ` set (unsorted_ops E inc items)"
    by (simp add: buildOpList_def)
  also have "\<dots> \<longleftrightarrow> (\<exists>item \<in> set items. item_value inc item = Some x)"
    unfolding unsorted_ops_def Let_def set_append image_Un Un_iff
      upsert_ops_effect [where R = RCard and W = ECard, OF op_effect_simps(1)]
      upsert_ops_effect [where R = RIsland and W = EIsland, OF op_effect_simps(2)]
      upsert_ops_effect [where R = REdge and W = EEdge, OF op_effect_simps(3)]
      upsert_ops_effect [where R = RRelation and W = ERelation, OF op_effect_simps(4)]
      upsert_ops_effect [where R = REvidence and W = EEvidence, OF op_effect_simps(5)]
      delete_ops_effect [where R = RCard, OF op_effect_simps(6)] delete_ops_effect [where R = RIsland, OF op_effect_simps(7)]
      delete_ops_effect [where R = REdge, OF op_effect_simps(8)] delete_ops_effect [where R = RRelation, OF op_effect_simps(9)]
      delete_ops_effect [where R = REvidence, OF op_effect_simps(10)]
      mem_relations mem_upserts mem_deletes item_value_iff bex_disj_distrib ..
  finally show "x \<in> op_effect ` set (buildOpList E inc items) \<longleftrightarrow> x \<in> {x. \<exists>item \<in> set items. item_value inc item = Some x}"
    by (simp only: mem_Collect_eq)
qed

lemma preflight_patch:
  "preflightMerge E validate base sel inc = Inr plan \<Longrightarrow>
     ops (patchOrPlan plan) = buildOpList E inc (pf_selectedItems plan)"
  by (auto simp: preflightMerge_def Let_def buildSelectedPatchFromItems_def split: if_splits)

text \<open>An item whose entity is an evidence link is never marked as conflicting: the key that the
  evaluation looks for, \<open>evidence:<id>\<close>, is not the key of any operation (\<open>evidenceLink:<id>\<close>).\<close>

lemma evidence_conflict_never_shown:
  assumes "e \<in> set (fst (evaluateMergeSelection E base cur inc snap items sel auto))"
    and "ref_kind (entityRef (ev_item e)) = KEvidence"
  shows "\<not> ev_conflict e"
proof -
  have k: "getPatchOpEntityKey op \<noteq> patch_key_prefix KEvidence @ '':'' @ i" for op i
    by (cases op) (simp_all add: patch_key_prefix_def)
  have "\<not> ev_conflict (evaluate_item ids keys p cs item)" if "ref_kind (entityRef item) = KEvidence" for ids keys p cs item
  proof -
    have "List.find (\<lambda>op. getPatchOpEntityKey op = patch_key_prefix (ref_kind (entityRef item)) @ '':'' @ ref_id (entityRef item)) (ops p) = None"
      using that k by (simp add: find_None_iff)
    then show ?thesis by (simp add: evaluate_item_def Let_def)
  qed
  moreover have "ev_item (evaluate_item ids keys p cs item) = item" for ids keys p cs item
    by (simp add: evaluate_item_def Let_def)
  ultimately show ?thesis using assms by (auto simp: evaluateMergeSelection_def Let_def)
qed

section \<open>Properties of the transaction\<close>

text \<open>C5. A merge transaction that succeeds is safe: the resulting document passed validation, warnings were
  only accepted with consent, the selection respects the hard limit, no operation overwrites an entity
  that was changed since the snapshot to something else than the merge wants (unless the merge puts the
  snapshot's value back), and if the identifiers of the current document are distinct then the result
  has distinct identifiers, and the members of islands and the ends of edges and evidence links exist in it.\<close>

theorem merge_transaction_safe:
  assumes "number_format (eng_num E)"
    and "applyMergeTransaction E validate cur snap base inc sel allow = Inr (d, ws)"
  shows "validate d = None \<and> (ws \<noteq> [] \<longrightarrow> allow) \<and> length sel \<le> 1000 \<and>
    (\<exists>plan. preflightMerge E validate base sel inc = Inr plan \<and>
       (\<forall>op \<in> set (ops (patchOrPlan plan)). doc_lookup snap (op_ref op) = doc_lookup cur (op_ref op) \<or>
          doc_lookup cur (op_ref op) = getTheirValue op \<or> doc_lookup snap (op_ref op) = getTheirValue op)) \<and>
    (ids_distinct cur \<longrightarrow> ids_distinct d \<and> references_ok d)"
proof -
  obtain plan where plan: "preflightMerge E validate base sel inc = Inr plan" "ws = pf_warnings plan" "ws \<noteq> [] \<Longrightarrow> allow"
      "conflicts (detectPatchConflicts E snap cur (patchOrPlan plan)) = []"
      "\<not> shouldBlockPatchApplyByLint (Some (lintPatchAgainstCurrentDoc cur (patchOrPlan plan)))"
      "d = merged_document E cur inc plan" "validate d = None"
    using transaction_cases [OF assms(2)] by metis
  have "\<forall>op \<in> set (ops (patchOrPlan plan)). \<not> op_conflicts E snap cur op"
    using plan(4) by (simp add: detectPatchConflicts_eq filter_empty_conv)
  then have "\<forall>op \<in> set (ops (patchOrPlan plan)). doc_lookup snap (op_ref op) = doc_lookup cur (op_ref op) \<or>
      doc_lookup cur (op_ref op) = getTheirValue op \<or> doc_lookup snap (op_ref op) = getTheirValue op"
    unfolding op_conflicts_iff [OF assms(1)] by blast
  moreover have "length sel \<le> 1000" using preflight_size [OF plan(1)] by (simp add: MERGE_SELECTED_ITEMS_HARD_LIMIT_def)
  moreover have "ids_distinct cur \<longrightarrow> ids_distinct d \<and> references_ok d"
    using plan(5) lint_ok_references ids_distinct_apply_ops by (simp add: plan(6) merged_document_eq)
  ultimately show ?thesis using plan by blast
qed

lemma readingOrder_apply_ops [simp]: "readingOrder (apply_ops os d) = readingOrder d"
proof (induction os rule: rev_induct)
  case (snoc op os)
  then show ?case by (cases op) simp_all
qed simp

lemma lookup_apply_ops_other:
  assumes "ids_distinct d" "\<not> (\<exists>i. r = REvidence i)" and "\<forall>op \<in> set os. op_ref op \<noteq> r"
  shows "doc_lookup (apply_ops os d) r = doc_lookup d r"
  using assms(3)
proof (induction os rule: rev_induct)
  case (snoc op os)
  have "\<not> cascades op (doc_lookup (apply_ops os d) r)"
    using assms(2) by (cases r) (auto simp: cascades_iff)
  then show ?case
    using snoc lookup_applyPatchOp [OF ids_distinct_apply_ops [OF assms(1), of os], of op r] by auto
qed simp

lemma merged_lookup:
  assumes "preflightMerge E validate base sel inc = Inr plan" "ids_distinct cur" "\<not> (\<exists>i. r = REvidence i)"
    and "item \<in> set (pf_selectedItems plan)" "item_value inc item = Some (r, v)"
    and "\<forall>item' \<in> set (pf_selectedItems plan). \<forall>v'. item_value inc item' = Some (r, v') \<longrightarrow> v' = v"
  shows "doc_lookup (merged_document E cur inc plan) r = v"
proof -
  have eff: "op_effect ` set (ops (patchOrPlan plan)) = {x. \<exists>item \<in> set (pf_selectedItems plan). item_value inc item = Some x}"
    unfolding preflight_patch [OF assms(1)] by (rule effects_of_selection)
  have "(r, v) \<in> op_effect ` set (ops (patchOrPlan plan))" unfolding eff using assms(4,5) by blast
  then have "\<exists>op \<in> set (ops (patchOrPlan plan)). op_ref op = r" by auto
  moreover have "\<forall>op \<in> set (ops (patchOrPlan plan)). op_ref op = r \<longrightarrow> getTheirValue op = v"
  proof (intro ballI impI)
    fix op assume "op \<in> set (ops (patchOrPlan plan))" "op_ref op = r"
    then have "(r, getTheirValue op) \<in> op_effect ` set (ops (patchOrPlan plan))" by (intro image_eqI [of _ _ op]) simp_all
    then show "getTheirValue op = v" unfolding eff using assms(6) by blast
  qed
  ultimately show ?thesis using lookup_apply_ops_same [OF assms(2,3)] by (simp add: merged_document_eq)
qed

lemma merged_lookup_other:
  assumes "preflightMerge E validate base sel inc = Inr plan" "ids_distinct cur" "\<not> (\<exists>i. r = REvidence i)"
    and "\<forall>item \<in> set (pf_selectedItems plan). \<forall>v. item_value inc item \<noteq> Some (r, v)"
  shows "doc_lookup (merged_document E cur inc plan) r = doc_lookup cur r"
proof -
  have eff: "op_effect ` set (ops (patchOrPlan plan)) = {x. \<exists>item \<in> set (pf_selectedItems plan). item_value inc item = Some x}"
    unfolding preflight_patch [OF assms(1)] by (rule effects_of_selection)
  have "op_ref op \<noteq> r" if "op \<in> set (ops (patchOrPlan plan))" for op
  proof
    assume "op_ref op = r"
    then have "(r, getTheirValue op) \<in> op_effect ` set (ops (patchOrPlan plan))"
      using that by (intro image_eqI [of _ _ op]) simp_all
    then show False unfolding eff using assms(4) by blast
  qed
  then show ?thesis using lookup_apply_ops_other [OF assms(2,3)] by (simp add: merged_document_eq)
qed

text \<open>C9. What a successful transaction writes. Items are those of the selection that preflight completed with
  its prerequisites, and targets are cards, islands, edges and relation summaries (deleting a card can remove
  evidence links too, so these are left out). A target on which the items agree has in the result the value
  they take from the incoming document (nothing, for a removal); a target that no item names keeps its value
  in the current document; and the reading order of the result is that of the incoming document (the empty
  one, if it has none) when the reading order item was selected, and the current one's otherwise.\<close>

theorem merge_takes_incoming:
  assumes "applyMergeTransaction E validate cur snap base inc sel allow = Inr (d, ws)" and "ids_distinct cur"
    and "preflightMerge E validate base sel inc = Inr plan"
  shows "(\<forall>r v. \<not> (\<exists>i. r = REvidence i) \<and> (\<exists>item \<in> set (pf_selectedItems plan). item_value inc item = Some (r, v)) \<and>
        (\<forall>item \<in> set (pf_selectedItems plan). \<forall>v'. item_value inc item = Some (r, v') \<longrightarrow> v' = v) \<longrightarrow> doc_lookup d r = v) \<and>
    (\<forall>r. \<not> (\<exists>i. r = REvidence i) \<and> (\<forall>item \<in> set (pf_selectedItems plan). \<forall>v. item_value inc item \<noteq> Some (r, v)) \<longrightarrow>
        doc_lookup d r = doc_lookup cur r) \<and>
    readingOrder d =
      (if \<exists>item \<in> set (pf_selectedItems plan). mi_kind item = view_field \<and> mi_field item = Some ''readingOrder''
       then Some (case readingOrder inc of Some order \<Rightarrow> order | None \<Rightarrow> []) else readingOrder cur)"
proof -
  have d: "d = merged_document E cur inc plan" using transaction_cases [OF assms(1)] assms(3) by (metis sum.inject(2))
  have "readingOrder d =
      (if \<exists>item \<in> set (pf_selectedItems plan). mi_kind item = view_field \<and> mi_field item = Some ''readingOrder''
       then Some (case readingOrder inc of Some order \<Rightarrow> order | None \<Rightarrow> []) else readingOrder cur)"
    by (auto simp: d merged_document_eq list_ex_iff nullish_def)
  then show ?thesis
    using merged_lookup [OF assms(3,2)] merged_lookup_other [OF assms(3,2)] unfolding d by blast
qed

definition ex_item :: merge_item where
  "ex_item = \<lparr>mi_id = ''card.field:c1:text'', mi_kind = card_field, entityRef = mk_ref KCard ''c1'', mi_field = Some ''text'',
     mi_before = JUndef, mi_after = JUndef, prerequisites = []\<rparr>"

definition ex_plan :: preflight_plan where
  "ex_plan = \<lparr>patchOrPlan = (mk_patch [UpsertCard ''merge:upsert_card:c1'' (mk_card ''c1'' ''mine'' 0 0)])
       \<lparr>baseDocSignature := Some ''d:t0''\<rparr>, pf_warnings = [], pf_selectedItems = [ex_item]\<rparr>"

lemma ex_lint: "lintPatchAgainstCurrentDoc ex_base (patchOrPlan ex_plan) = []"
  by (simp add: lint_eval ex_plan_def ex_base_def buildCurrentSignature_def)

lemma ex_preflight: "preflightMerge demo_engine (\<lambda>_. None) ex_base [ex_item] ex_cur = Inr ex_plan"
proof -
  have sel: "selectWithAutoPrerequisites ex_base ex_cur [ex_item] =
      \<lparr>selectedMap = [(mi_id ex_item, ex_item)], st_refKeys = [toRefSetKey (entityRef ex_item)], ps_warnings = [], ps_errors = []\<rparr>"
    by (simp add: selectWithAutoPrerequisites_def prereq_step_def new_map_def uniq_def js_add_def) (simp add: ex_item_def)
  have patch: "buildSelectedPatchFromItems demo_engine ex_base ex_cur [ex_item] = patchOrPlan ex_plan"
    by (simp add: buildSelectedPatchFromItems_def buildOpList_def unsorted_ops_def ids_of_def upsert_ops_def
        delete_ops_def ex_plan_def ex_item_def ex_cur_def ex_base_def uniq_def js_add_def)
  show ?thesis
    by (simp add: preflightMerge_def schema_diagnostics_def MERGE_SELECTED_ITEMS_HARD_LIMIT_def
        MERGE_SELECTED_ITEMS_SOFT_LIMIT_def sel patch ex_lint lint_diagnostics_def)
      (simp add: ex_plan_def)
qed

lemma ex_transaction:
  "applyMergeTransaction demo_engine (\<lambda>_. None) ex_base ex_base ex_base ex_cur [ex_item] False = Inr (ex_cur, [])"
proof -
  have "conflicts (detectPatchConflicts demo_engine ex_base ex_base (patchOrPlan ex_plan)) = []"
    by (simp add: detectPatchConflicts_eq filter_empty_conv op_conflicts_iff)
  moreover have "lint_diagnostics ''CUR:'' (\<lambda>i. li_severity i = LintError) (lintPatchAgainstCurrentDoc ex_base (patchOrPlan ex_plan)) = []"
    by (simp add: lint_diagnostics_def ex_lint)
  moreover have "merged_document demo_engine ex_base ex_cur ex_plan = ex_cur"
    by (simp add: merged_document_eq ex_plan_def ex_item_def ex_base_def ex_cur_def)
  ultimately show ?thesis by (simp add: applyMergeTransaction_def ex_preflight Let_def) (simp add: ex_plan_def)
qed

theorem merge_transaction_safe_witness: "references_ok ex_cur"
  using merge_transaction_safe [OF number_format_demo ex_transaction] by (simp add: ex_defs)

definition order_item :: merge_item where
  "order_item = \<lparr>mi_id = ''view.field:readingOrder'', mi_kind = view_field, entityRef = mk_ref KView ''document'',
     mi_field = Some ''readingOrder'', mi_before = JUndef, mi_after = JUndef, prerequisites = []\<rparr>"

definition ex_ordered :: document where
  "ex_ordered = ex_cur\<lparr>readingOrder := Some [''c2'', ''c1'']\<rparr>"

definition order_plan :: preflight_plan where
  "order_plan = ex_plan\<lparr>pf_selectedItems := [ex_item, order_item]\<rparr>"

lemma order_preflight: "preflightMerge demo_engine (\<lambda>_. None) ex_base [ex_item, order_item] ex_ordered = Inr order_plan"
proof -
  have sel: "selectWithAutoPrerequisites ex_base ex_ordered [ex_item, order_item] =
      \<lparr>selectedMap = [(mi_id ex_item, ex_item), (mi_id order_item, order_item)],
       st_refKeys = [toRefSetKey (entityRef ex_item), toRefSetKey (entityRef order_item)], ps_warnings = [], ps_errors = []\<rparr>"
    by (simp add: selectWithAutoPrerequisites_def prereq_step_def new_map_def uniq_def js_add_def)
      (simp add: ex_item_def order_item_def toRefSetKey_def)
  have patch: "buildSelectedPatchFromItems demo_engine ex_base ex_ordered [ex_item, order_item] = patchOrPlan ex_plan"
    by (simp add: buildSelectedPatchFromItems_def buildOpList_def unsorted_ops_def ids_of_def upsert_ops_def
        delete_ops_def ex_plan_def ex_item_def order_item_def ex_ordered_def ex_cur_def ex_base_def uniq_def js_add_def)
  show ?thesis
    by (simp add: preflightMerge_def schema_diagnostics_def MERGE_SELECTED_ITEMS_HARD_LIMIT_def
        MERGE_SELECTED_ITEMS_SOFT_LIMIT_def sel patch ex_lint lint_diagnostics_def)
      (simp add: ex_plan_def order_plan_def)
qed

lemma order_transaction:
  "applyMergeTransaction demo_engine (\<lambda>_. None) ex_base ex_base ex_base ex_ordered [ex_item, order_item] False = Inr (ex_ordered, [])"
proof -
  have plan: "patchOrPlan order_plan = patchOrPlan ex_plan" by (simp add: order_plan_def)
  have "conflicts (detectPatchConflicts demo_engine ex_base ex_base (patchOrPlan ex_plan)) = []"
    by (simp add: detectPatchConflicts_eq filter_empty_conv op_conflicts_iff)
  moreover have "lint_diagnostics ''CUR:'' (\<lambda>i. li_severity i = LintError) (lintPatchAgainstCurrentDoc ex_base (patchOrPlan ex_plan)) = []"
    by (simp add: lint_diagnostics_def ex_lint)
  moreover have "merged_document demo_engine ex_base ex_ordered order_plan = ex_ordered"
    by (simp add: merged_document_eq order_plan_def ex_plan_def ex_item_def order_item_def ex_base_def ex_ordered_def ex_cur_def)
  ultimately show ?thesis
    by (simp add: applyMergeTransaction_def order_preflight plan Let_def) (simp add: order_plan_def ex_plan_def)
qed

lemma order_values:
  "\<exists>item \<in> set (pf_selectedItems order_plan). item_value ex_ordered item = Some (RCard ''c1'', Some (ECard (mk_card ''c1'' ''mine'' 0 0)))"
  "\<forall>item \<in> set (pf_selectedItems order_plan). \<forall>v. item_value ex_ordered item = Some (RCard ''c1'', v) \<longrightarrow>
     v = Some (ECard (mk_card ''c1'' ''mine'' 0 0))"
  "\<forall>item \<in> set (pf_selectedItems order_plan). \<forall>v. item_value ex_ordered item \<noteq> Some (RCard ''c2'', v)"
  by (simp_all add: order_plan_def item_value_def ex_item_def order_item_def ex_ordered_def ex_cur_def Let_def)

theorem merge_takes_incoming_witness:
  "doc_lookup ex_ordered (RCard ''c1'') = Some (ECard (mk_card ''c1'' ''mine'' 0 0)) \<and>
   doc_lookup ex_ordered (RCard ''c2'') = doc_lookup ex_base (RCard ''c2'') \<and>
   readingOrder ex_ordered = Some [''c2'', ''c1''] \<and> readingOrder ex_base = None"
proof -
  have distinct: "ids_distinct ex_base" by (simp add: ex_defs)
  have order: "\<exists>item \<in> set (pf_selectedItems order_plan). mi_kind item = view_field \<and> mi_field item = Some ''readingOrder''"
    by (simp add: order_plan_def order_item_def)
  note written = merge_takes_incoming [OF order_transaction distinct order_preflight]
  have "doc_lookup ex_ordered (RCard ''c1'') = Some (ECard (mk_card ''c1'' ''mine'' 0 0))"
    by (rule conjunct1 [OF written, THEN spec, THEN spec, THEN mp]) (intro conjI order_values(1,2), simp)
  moreover have "doc_lookup ex_ordered (RCard ''c2'') = doc_lookup ex_base (RCard ''c2'')"
    by (rule conjunct1 [OF conjunct2 [OF written], THEN spec, THEN mp]) (intro conjI order_values(3), simp)
  moreover have "readingOrder ex_ordered = Some [''c2'', ''c1'']"
    using conjunct2 [OF conjunct2 [OF written]] order by (simp add: ex_ordered_def)
  ultimately show ?thesis by (simp add: ex_base_def)
qed

end
