(* ===== verification/Canonical_Ops.thy ===== *)
theory Canonical_Ops
  imports Patch_Core
begin

text \<open>
  \<open>domain/canonical_ops.ts\<close>: merging source cards into a new canonical card. A thrown error is the left
  side of a sum. The identifier is the given one or the factory's (\<open>input.canonicalId ?? factory()\<close>), an
  argument here.
\<close>

section \<open>The operation\<close>

datatype canonicalization_error =
    AtLeastTwoSources
  | SourcesMustExist
  | CanonicalIdRequired
  | CanonicalIdExists

definition uniqueIds :: "string list \<Rightarrow> string list" where
  "uniqueIds ids = snd (fold (\<lambda>i (seen, unique). if i \<in> seen then (seen, unique) else (insert i seen, unique @ [i])) ids ({}, []))"

definition computeAveragePosition :: "card list \<Rightarrow> rat \<times> rat" where
  "computeAveragePosition cs =
     (let (sx, sy) = fold (\<lambda>c (x, y). (x + card_x c, y + card_y c)) cs (0, 0)
      in (sx / of_nat (length cs), sy / of_nat (length cs)))"

definition updateIslands :: "island list \<Rightarrow> string set \<Rightarrow> string \<Rightarrow> island list" where
  "updateIslands xs sourceCardIdSet canonical =
     map (\<lambda>island. if \<not> list_ex (\<lambda>c. c \<in> sourceCardIdSet) (cardIds island) \<or> canonical \<in> set (cardIds island) then island
                   else island\<lparr>cardIds := cardIds island @ [canonical]\<rparr>) xs"

definition updateReadingOrder :: "string list option \<Rightarrow> string set \<Rightarrow> string \<Rightarrow> string list option" where
  "updateReadingOrder readingOrd sourceCardIdSet canonical =
     (case readingOrd of
        None \<Rightarrow> None
      | Some order \<Rightarrow>
          if order = [] then Some order
          else case find_index (\<lambda>c. c \<in> sourceCardIdSet) order of
            None \<Rightarrow> Some order
          | Some firstSourceIndex \<Rightarrow>
              (let filtered = filter (\<lambda>c. c \<notin> sourceCardIdSet) order;
                   insertionIndex = min firstSourceIndex (length filtered)
               in Some (take insertionIndex filtered @ [canonical] @ drop insertionIndex filtered)))"

definition applyCanonicalization ::
  "document \<Rightarrow> string list \<Rightarrow> string \<Rightarrow> string option \<Rightarrow> canonicalization_error + (document \<times> string)" where
  "applyCanonicalization doc inputSourceCardIds mergedText resolvedId =
     (let sourceCardIds = uniqueIds inputSourceCardIds in
      if length sourceCardIds < 2 then Inl AtLeastTwoSources
      else let sourceSet = set sourceCardIds; sourceCards = filter (\<lambda>c. card_id c \<in> sourceSet) (cards doc) in
      if length sourceCards \<noteq> length sourceCardIds then Inl SourcesMustExist
      else if \<not> truthy_str resolvedId then Inl CanonicalIdRequired
      else let cid = the resolvedId in
      if list_ex (\<lambda>c. card_id c = cid) (cards doc) then Inl CanonicalIdExists
      else let (ax, ay) = computeAveragePosition sourceCards;
               canonicalCard = (mk_card cid mergedText ax ay)\<lparr>sources := Some sourceCardIds, textReviewed := Some False\<rparr>
        in Inr (doc\<lparr>cards := map (\<lambda>c. if card_id c \<in> sourceSet then c\<lparr>canonicalId := Some cid\<rparr> else c) (cards doc) @ [canonicalCard],
                    islands := updateIslands (islands doc) sourceSet cid,
                    readingOrder := updateReadingOrder (readingOrder doc) sourceSet cid\<rparr>, cid))"

section \<open>Parts\<close>

lemma uniqueIds_fold:
  "fold (\<lambda>i (seen, unique). if i \<in> seen then (seen, unique) else (insert i seen, unique @ [i])) ids (set u, u) =
    (set (fold js_add ids u), fold js_add ids u)"
proof (induction ids arbitrary: u)
  case (Cons a ids)
  show ?case using Cons.IH [of u] Cons.IH [of "u @ [a]"] by (auto simp: js_add_def)
qed simp

lemma uniqueIds_uniq: "uniqueIds ids = uniq ids"
  using uniqueIds_fold [of ids "[]"] by (simp add: uniqueIds_def uniq_def)

lemma fold_sum: "fold (\<lambda>c (x, y). (x + card_x c, y + card_y c)) cs (a, b) = (a + sum_list (map card_x cs), b + sum_list (map card_y cs))"
  by (induction cs arbitrary: a b) (simp_all add: algebra_simps)

lemma computeAveragePosition_eq:
  "computeAveragePosition cs = (sum_list (map card_x cs) / of_nat (length cs), sum_list (map card_y cs) / of_nat (length cs))"
  by (simp add: computeAveragePosition_def fold_sum)

lemma find_index_takeWhile:
  "find_index P xs = Some i \<Longrightarrow> i = length (takeWhile (\<lambda>x. \<not> P x) xs)"
  by (induction xs arbitrary: i) (auto split: if_splits)

lemma filter_via_takeWhile:
  "filter (\<lambda>x. \<not> P x) xs = takeWhile (\<lambda>x. \<not> P x) xs @ filter (\<lambda>x. \<not> P x) (dropWhile (\<lambda>x. \<not> P x) xs)"
  by (induction xs) auto

lemma updateReadingOrder_spec:
  assumes "\<exists>x \<in> set r. x \<in> S"
  shows "updateReadingOrder (Some r) S c =
    Some (takeWhile (\<lambda>x. x \<notin> S) r @ c # filter (\<lambda>x. x \<notin> S) (dropWhile (\<lambda>x. x \<notin> S) r))"
proof -
  obtain i where i: "find_index (\<lambda>x. x \<in> S) r = Some i"
    using assms find_index_None [of "\<lambda>x. x \<in> S" r] by auto
  let ?t = "takeWhile (\<lambda>x. x \<notin> S) r" and ?d = "filter (\<lambda>x. x \<notin> S) (dropWhile (\<lambda>x. x \<notin> S) r)"
  have "i = length ?t" using find_index_takeWhile [OF i] .
  moreover have "filter (\<lambda>x. x \<notin> S) r = ?t @ ?d" using filter_via_takeWhile [of "\<lambda>x. x \<in> S" r] .
  ultimately show ?thesis using assms i by (auto simp: updateReadingOrder_def Let_def)
qed

lemma updateReadingOrder_none:
  "\<not> (\<exists>x \<in> set r. x \<in> S) \<Longrightarrow> updateReadingOrder (Some r) S c = Some r"
  using find_index_None [of "\<lambda>x. x \<in> S" r] by (auto simp: updateReadingOrder_def)

lemma sources_exist:
  assumes "distinct (map card_id cs)" "distinct ids"
  shows "length (filter (\<lambda>c. card_id c \<in> set ids) cs) = length ids \<longleftrightarrow> set ids \<subseteq> card_id ` set cs"
proof -
  let ?f = "filter (\<lambda>c. card_id c \<in> set ids) cs"
  have "length ?f = card (card_id ` set ?f)"
    using distinct_card [OF distinct_filter_keys [OF assms(1), of "\<lambda>c. card_id c \<in> set ids"]] by simp
  moreover have "card_id ` set ?f = set ids \<inter> card_id ` set cs" by auto
  moreover have "length ids = card (set ids)" using distinct_card [OF assms(2)] by simp
  ultimately show ?thesis
    by (metis Int_absorb2 Int_lower1 List.finite_set card_subset_eq inf_le2)
qed

section \<open>Properties\<close>

text \<open>Outcome of canonicalisation on a document with distinct card identifiers: it succeeds exactly when
  at least two different source identifiers are given, all of them exist, and the new identifier is
  non-empty and unused; otherwise the error is the first violated condition in this order.\<close>

theorem canonicalization_outcome:
  assumes "distinct (map card_id (cards d))"
  shows "case applyCanonicalization d ids t cid of
      Inl AtLeastTwoSources \<Rightarrow> card (set ids) < 2
    | Inl SourcesMustExist \<Rightarrow> 2 \<le> card (set ids) \<and> \<not> set ids \<subseteq> card_id ` set (cards d)
    | Inl CanonicalIdRequired \<Rightarrow> 2 \<le> card (set ids) \<and> set ids \<subseteq> card_id ` set (cards d) \<and> (cid = None \<or> cid = Some [])
    | Inl CanonicalIdExists \<Rightarrow> 2 \<le> card (set ids) \<and> set ids \<subseteq> card_id ` set (cards d) \<and> (\<exists>c. cid = Some c \<and> c \<noteq> [] \<and> c \<in> card_id ` set (cards d))
    | Inr (d', c) \<Rightarrow> 2 \<le> card (set ids) \<and> set ids \<subseteq> card_id ` set (cards d) \<and> cid = Some c \<and> c \<noteq> [] \<and> c \<notin> card_id ` set (cards d)"
proof -
  have l: "length (uniq ids) = card (set ids)" by (simp add: length_uniq)
  have s: "length (filter (\<lambda>c. card_id c \<in> set ids) (cards d)) = card (set ids) \<longleftrightarrow> set ids \<subseteq> card_id ` set (cards d)"
    using sources_exist [OF assms, of "uniq ids"] l by simp
  have x: "list_ex (\<lambda>c. card_id c = i) (cards d) \<longleftrightarrow> i \<in> card_id ` set (cards d)" for i by (auto simp: list_ex_iff)
  show ?thesis
    unfolding applyCanonicalization_def Let_def uniqueIds_uniq set_uniq s x l
    by (cases cid) (auto simp: split_def)
qed

lemma applyCanonicalization_Inr:
  assumes "applyCanonicalization d ids t cid = Inr (d', c)"
  shows "c \<notin> card_id ` set (cards d)"
    and "d' = d\<lparr>cards := map (\<lambda>x. if card_id x \<in> set ids then x\<lparr>canonicalId := Some c\<rparr> else x) (cards d) @
              [(mk_card c t (fst (computeAveragePosition (filter (\<lambda>x. card_id x \<in> set ids) (cards d))))
                            (snd (computeAveragePosition (filter (\<lambda>x. card_id x \<in> set ids) (cards d)))))
                 \<lparr>sources := Some (uniqueIds ids), textReviewed := Some False\<rparr>],
            islands := updateIslands (islands d) (set ids) c,
            readingOrder := updateReadingOrder (readingOrder d) (set ids) c\<rparr>"
  using assms by (auto simp: applyCanonicalization_def Let_def list_ex_iff uniqueIds_uniq split_def split: if_splits)

lemma map_island_id_updateIslands [simp]: "map island_id (updateIslands xs S c) = map island_id xs"
  by (auto simp: updateIslands_def)

lemma find_by_map_same_key:
  "(\<And>x. k (f x) = k x) \<Longrightarrow> find_by k (map f xs) i = map_option f (find_by k xs i)"
  by (induction xs) auto

text \<open>Effect of a successful canonicalisation: identifiers stay distinct; every source card survives
  with its text, position and other fields, pointing at the canonical card; other cards are untouched; the
  canonical card is found under the returned identifier with the merged text, exactly the given sources and
  an unreviewed text; islands keep their members and order and additionally hold the canonical card exactly
  when they hold a source (or already did); in a reading order with a source, the canonical card stands where
  the first source stood, all sources are gone and the rest keeps its order; nothing else changes.\<close>

theorem canonicalization_effect:
  assumes "applyCanonicalization d ids t cid = Inr (d', c)" and "ids_distinct d"
  shows "ids_distinct d' \<and>
    (\<forall>i. i \<noteq> c \<longrightarrow> find_by card_id (cards d') i =
            map_option (\<lambda>x. if i \<in> set ids then x\<lparr>canonicalId := Some c\<rparr> else x) (find_by card_id (cards d) i)) \<and>
    (let src = filter (\<lambda>x. card_id x \<in> set ids) (cards d)
     in find_by card_id (cards d') c =
          Some ((mk_card c t (sum_list (map card_x src) / of_nat (length src)) (sum_list (map card_y src) / of_nat (length src)))
                  \<lparr>sources := Some (uniq ids), textReviewed := Some False\<rparr>)) \<and>
    map (\<lambda>z. z\<lparr>cardIds := []\<rparr>) (islands d') = map (\<lambda>z. z\<lparr>cardIds := []\<rparr>) (islands d) \<and>
    map (set \<circ> cardIds) (islands d') = map ((\<lambda>m. if m \<inter> set ids \<noteq> {} then insert c m else m) \<circ> set \<circ> cardIds) (islands d) \<and>
    (\<forall>r. readingOrder d = Some r \<longrightarrow> set r \<inter> set ids \<noteq> {} \<longrightarrow> readingOrder d' =
            Some (takeWhile (\<lambda>x. x \<notin> set ids) r @ c # filter (\<lambda>x. x \<notin> set ids) (dropWhile (\<lambda>x. x \<notin> set ids) r))) \<and>
    d'\<lparr>cards := [], islands := [], readingOrder := None\<rparr> = d\<lparr>cards := [], islands := [], readingOrder := None\<rparr>"
proof (intro conjI allI impI)
  note e = applyCanonicalization_Inr [OF assms(1)]
  let ?f = "\<lambda>x. if card_id x \<in> set ids then x\<lparr>canonicalId := Some c\<rparr> else x"
  have k: "map card_id (map ?f (cards d)) = map card_id (cards d)" by auto
  have kf: "card_id (?f x) = card_id x" for x by simp
  show "ids_distinct d'"
    using assms(2) e(1) unfolding e(2) ids_distinct_def by (simp del: map_map add: k)
  show "find_by card_id (cards d') i = map_option (\<lambda>x. if i \<in> set ids then x\<lparr>canonicalId := Some c\<rparr> else x) (find_by card_id (cards d) i)"
    if "i \<noteq> c" for i
    using that find_by_Some [of card_id "cards d" i] unfolding e(2)
    by (cases "find_by card_id (cards d) i") (auto simp: find_by_append find_by_map_same_key [of card_id ?f, OF kf])
  have n: "find_by card_id (cards d) c = None" using e(1) by (simp add: find_by_None)
  show "let src = filter (\<lambda>x. card_id x \<in> set ids) (cards d)
     in find_by card_id (cards d') c =
          Some ((mk_card c t (sum_list (map card_x src) / of_nat (length src)) (sum_list (map card_y src) / of_nat (length src)))
                  \<lparr>sources := Some (uniq ids), textReviewed := Some False\<rparr>)"
    unfolding e(2) Let_def
    by (simp add: find_by_append find_by_map_same_key [of card_id ?f, OF kf] n uniqueIds_uniq computeAveragePosition_eq)
  show "map (\<lambda>z. z\<lparr>cardIds := []\<rparr>) (islands d') = map (\<lambda>z. z\<lparr>cardIds := []\<rparr>) (islands d)"
    unfolding e(2) by (auto simp: updateIslands_def)
  show "map (set \<circ> cardIds) (islands d') = map ((\<lambda>m. if m \<inter> set ids \<noteq> {} then insert c m else m) \<circ> set \<circ> cardIds) (islands d)"
    unfolding e(2) by (auto simp: updateIslands_def list_ex_iff)
  show "readingOrder d' = Some (takeWhile (\<lambda>x. x \<notin> set ids) r @ c # filter (\<lambda>x. x \<notin> set ids) (dropWhile (\<lambda>x. x \<notin> set ids) r))"
    if "readingOrder d = Some r" "set r \<inter> set ids \<noteq> {}" for r
    using that updateReadingOrder_spec [of r "set ids" c] unfolding e(2) by auto
  show "d'\<lparr>cards := [], islands := [], readingOrder := None\<rparr> = d\<lparr>cards := [], islands := [], readingOrder := None\<rparr>"
    unfolding e(2) by simp
qed

theorem canonicalization_outcome_witness:
  "2 \<le> card (set [''c1'', ''c2'']) \<and> set [''c1'', ''c2''] \<subseteq> card_id ` set (cards ex_base)"
  using canonicalization_outcome [where d = ex_base and ids = "[''c1'', ''c2'']" and t = "''m''" and cid = "Some ''n''"]
  by (simp add: ex_defs applyCanonicalization_def uniqueIds_uniq uniq_def js_add_def computeAveragePosition_def Let_def)

theorem canonicalization_effect_witness:
  "\<exists>d'. applyCanonicalization (ex_base\<lparr>readingOrder := Some [''c2'', ''x'', ''c1'']\<rparr>) [''c1'', ''c2''] ''m'' (Some ''n'') = Inr (d', ''n'') \<and>
     ids_distinct d' \<and> readingOrder d' = Some [''n'', ''x'']"
proof -
  let ?d = "ex_base\<lparr>readingOrder := Some [''c2'', ''x'', ''c1'']\<rparr>"
  obtain d' where d': "applyCanonicalization ?d [''c1'', ''c2''] ''m'' (Some ''n'') = Inr (d', ''n'')"
    by (simp add: ex_defs applyCanonicalization_def uniqueIds_uniq uniq_def js_add_def computeAveragePosition_def Let_def)
  have "ids_distinct ?d" by (simp add: ex_defs)
  from canonicalization_effect [OF d' this] d' show ?thesis by auto
qed

end
