(* ===== verification/Representative_Merge.thy ===== *)
theory Representative_Merge
  imports Canonical_Ops JS_Text
begin

text \<open>
  \<open>domain/representative_merge.ts\<close>: the guarded merge of selected cards under a new representative card,
  with the projection of the edges that leave the selection. \<open>crypto.randomUUID()\<close> is the argument
  \<open>uuid\<close>; a refused merge (\<open>null\<close>) is \<open>None\<close>.
\<close>

section \<open>The operation\<close>

definition sortedUniqueIds :: "js_engine \<Rightarrow> string list \<Rightarrow> string list" where
  "sortedUniqueIds E ids = sort_by (eng_le E) (uniq ids)"

definition from_kind :: "edge \<Rightarrow> endpoint_kind" where
  "from_kind e = nullish (fromKind e) CardEnd"

definition to_kind :: "edge \<Rightarrow> endpoint_kind" where
  "to_kind e = nullish (toKind e) CardEnd"

definition hasMergeConflict :: "document \<Rightarrow> card list \<Rightarrow> bool" where
  "hasMergeConflict doc selectedCards =
     (if list_ex (\<lambda>c. holdState c \<noteq> None) selectedCards then True
      else if list_ex (\<lambda>c. truthy_str (mergedIntoCardId c) \<or> truthy_str (canonicalId c)) selectedCards then True
      else let definedClaimTypes = uniq (List.map_filter claimType selectedCards) in
      if length definedClaimTypes > 1 then True
      else let selectedIds = set (map card_id selectedCards) in
      if list_ex (\<lambda>e. from_kind e = CardEnd \<and> to_kind e = CardEnd \<and> edge_type e = ''negate'' \<and>
                      fromId e \<in> selectedIds \<and> toId e \<in> selectedIds) (edges doc) then True
      else list_ex (\<lambda>l. link_type l = Contradicts \<and> fromCardId l \<in> selectedIds \<and> toCardId l \<in> selectedIds) (evidence_of doc))"

definition collectRepresentativeSources :: "js_engine \<Rightarrow> card list \<Rightarrow> string list" where
  "collectRepresentativeSources E selectedCards =
     sortedUniqueIds E (fold (\<lambda>c s. fold js_add (nullish (sources c) []) (fold js_add (nullish (repOf c) []) (js_add (card_id c) s)))
                          selectedCards [])"

definition representativeClaimType :: "card list \<Rightarrow> claim_type option" where
  "representativeClaimType selectedCards =
     (if list_ex (\<lambda>c. claimType c = None) selectedCards then None
      else if length (uniq (map claimType selectedCards)) = 1
      then (case selectedCards of [] \<Rightarrow> None | c # _ \<Rightarrow> claimType c) else None)"

definition from_selected :: "string set \<Rightarrow> edge \<Rightarrow> bool" where
  "from_selected S e \<longleftrightarrow> from_kind e = CardEnd \<and> fromId e \<in> S"

definition to_selected :: "string set \<Rightarrow> edge \<Rightarrow> bool" where
  "to_selected S e \<longleftrightarrow> to_kind e = CardEnd \<and> toId e \<in> S"

definition edge_triple :: "string set \<Rightarrow> edge \<Rightarrow> string" where
  "edge_triple S e =
     (let direction = if from_selected S e then ''from'' else ''to'';
          otherId = if from_selected S e then toId e else fromId e;
          otherKind = if from_selected S e then to_kind e else from_kind e
      in direction @ '':'' @ endpoint_kind_str otherKind @ '':'' @ otherId @ '':'' @ edge_type e)"

definition projected_edge :: "string set \<Rightarrow> string \<Rightarrow> edge \<Rightarrow> edge" where
  "projected_edge S rep e = e\<lparr>edge_id := ''representative-merge:'' @ rep @ '':'' @ edge_triple S e,
     fromId := if from_selected S e then rep else fromId e, toId := if to_selected S e then rep else toId e\<rparr>"

definition project_step :: "string set \<Rightarrow> string \<Rightarrow> edge \<Rightarrow> (string \<times> edge) list \<Rightarrow> (string \<times> edge) list" where
  "project_step S rep e projectedByTriple =
     (if \<not> from_selected S e \<and> \<not> to_selected S e then projectedByTriple
      else if from_selected S e \<and> to_selected S e then projectedByTriple
      else if edge_triple S e \<in> set (map fst projectedByTriple) then projectedByTriple
      else projectedByTriple @ [(edge_triple S e, projected_edge S rep e)])"

definition projectRepresentativeEdges :: "edge list \<Rightarrow> string set \<Rightarrow> string \<Rightarrow> edge list" where
  "projectRepresentativeEdges es S rep = es @ map snd (fold (project_step S rep) es [])"

definition representative_card :: "js_engine \<Rightarrow> string list \<Rightarrow> card list \<Rightarrow> string \<Rightarrow> string \<Rightarrow> card" where
  "representative_card E selectedIds selectedCards uuid t =
     (mk_card uuid t (fold (\<lambda>c sum. sum + card_x c) selectedCards 0 / of_nat (length selectedCards))
                     (fold (\<lambda>c sum. sum + card_y c) selectedCards 0 / of_nat (length selectedCards)))
     \<lparr>claimType := representativeClaimType selectedCards, repOf := Some selectedIds,
      sources := Some (collectRepresentativeSources E selectedCards), textReviewed := Some False\<rparr>"

definition rewired_island :: "string set \<Rightarrow> string \<Rightarrow> island \<Rightarrow> island" where
  "rewired_island S rep island =
     (if \<not> list_ex (\<lambda>c. c \<in> S) (cardIds island) \<or> rep \<in> set (cardIds island) then island
      else island\<lparr>cardIds := cardIds island @ [rep]\<rparr>)"

definition createRepresentativeMerge ::
  "js_engine \<Rightarrow> document \<Rightarrow> string list \<Rightarrow> string \<Rightarrow> bool \<Rightarrow> string \<Rightarrow> (document \<times> string \<times> nat) option" where
  "createRepresentativeMerge E doc selectedIds representativeText rewire uuid =
     (let uniqueSelectedCardIds = sortedUniqueIds E selectedIds in
      if length uniqueSelectedCardIds < 2 then None
      else let S = set uniqueSelectedCardIds; selectedCards = filter (\<lambda>c. card_id c \<in> S) (cards doc) in
      if length selectedCards \<noteq> length uniqueSelectedCardIds then None
      else if hasMergeConflict doc selectedCards then None
      else let normalizedRepresentativeText = trim representativeText in
      if length normalizedRepresentativeText = 0 then None
      else if list_ex (\<lambda>c. card_id c = uuid) (cards doc) then None
      else Some (doc\<lparr>cards := map (\<lambda>c. if card_id c \<notin> S then c else c\<lparr>mergedIntoCardId := Some uuid, canonicalId := Some uuid\<rparr>) (cards doc) @
                          [representative_card E uniqueSelectedCardIds selectedCards uuid normalizedRepresentativeText],
                     islands := (if rewire then map (rewired_island S uuid) (islands doc) else islands doc),
                     edges := (if rewire then projectRepresentativeEdges (edges doc) S uuid else edges doc)\<rparr>,
                 uuid, length selectedCards))"

section \<open>Parts\<close>

lemma set_sortedUniqueIds [simp]: "set (sortedUniqueIds E ids) = set ids"
  by (simp add: sortedUniqueIds_def)

lemma length_sortedUniqueIds [simp]: "length (sortedUniqueIds E ids) = card (set ids)"
  by (simp add: sortedUniqueIds_def length_uniq)

lemma distinct_sortedUniqueIds [simp]: "distinct (sortedUniqueIds E ids)"
  by (simp add: sortedUniqueIds_def)

lemma set_collectRepresentativeSources:
  "set (collectRepresentativeSources E cs) =
     (\<Union>c\<in>set cs. insert (card_id c) (set (nullish (repOf c) []) \<union> set (nullish (sources c) [])))"
proof -
  have "set (fold (\<lambda>c s. fold js_add (nullish (sources c) []) (fold js_add (nullish (repOf c) []) (js_add (card_id c) s))) cs s) =
      set s \<union> (\<Union>c\<in>set cs. insert (card_id c) (set (nullish (repOf c) []) \<union> set (nullish (sources c) [])))" for s
    by (induction cs arbitrary: s) auto
  then show ?thesis by (simp add: collectRepresentativeSources_def)
qed

lemma mem_map_filter: "x \<in> set (List.map_filter f xs) \<longleftrightarrow> (\<exists>a\<in>set xs. f a = Some x)"
  by (induction xs) (auto simp: List.map_filter_simps split: option.splits)

lemma agree_iff:
  "(\<forall>x y. (\<exists>a\<in>A. f a = Some x) \<longrightarrow> (\<exists>b\<in>A. f b = Some y) \<longrightarrow> x = y) \<longleftrightarrow>
   (\<forall>a\<in>A. \<forall>b\<in>A. f a \<noteq> None \<longrightarrow> f b \<noteq> None \<longrightarrow> f a = f b)" (is "?l \<longleftrightarrow> ?r")
proof
  assume ?l
  then show ?r by clarsimp blast
next
  assume r: ?r
  show ?l
  proof (intro allI impI)
    fix x y assume "\<exists>a\<in>A. f a = Some x" "\<exists>b\<in>A. f b = Some y"
    then obtain a b where "a \<in> A" "f a = Some x" "b \<in> A" "f b = Some y" by blast
    then show "x = y" using r [rule_format, of a b] by simp
  qed
qed

lemma claim_types_agree:
  "\<not> 1 < length (uniq (List.map_filter claimType cs)) \<longleftrightarrow>
     (\<forall>a\<in>set cs. \<forall>b\<in>set cs. claimType a \<noteq> None \<longrightarrow> claimType b \<noteq> None \<longrightarrow> claimType a = claimType b)"
proof -
  have "\<not> 1 < card (set (List.map_filter claimType cs)) \<longleftrightarrow>
      (\<forall>x y. x \<in> set (List.map_filter claimType cs) \<longrightarrow> y \<in> set (List.map_filter claimType cs) \<longrightarrow> x = y)"
    by (metis List.finite_set One_nat_def card_le_Suc0_iff_eq linorder_not_less)
  also have "\<dots> \<longleftrightarrow> (\<forall>a\<in>set cs. \<forall>b\<in>set cs. claimType a \<noteq> None \<longrightarrow> claimType b \<noteq> None \<longrightarrow> claimType a = claimType b)"
    unfolding mem_map_filter by (rule agree_iff)
  finally show ?thesis unfolding length_uniq .
qed

lemma hasMergeConflict_iff:
  "hasMergeConflict d cs \<longleftrightarrow>
     (\<exists>c\<in>set cs. holdState c \<noteq> None \<or> truthy_str (mergedIntoCardId c) \<or> truthy_str (canonicalId c)) \<or>
     (\<exists>a\<in>set cs. \<exists>b\<in>set cs. claimType a \<noteq> None \<and> claimType b \<noteq> None \<and> claimType a \<noteq> claimType b) \<or>
     (\<exists>e\<in>set (edges d). edge_type e = ''negate'' \<and> from_selected (card_id ` set cs) e \<and> to_selected (card_id ` set cs) e) \<or>
     (\<exists>l\<in>set (evidence_of d). link_type l = Contradicts \<and> fromCardId l \<in> card_id ` set cs \<and> toCardId l \<in> card_id ` set cs)"
proof -
  let ?ids = "card_id ` set cs"
  have c: "1 < length (uniq (List.map_filter claimType cs)) \<longleftrightarrow>
      (\<exists>a\<in>set cs. \<exists>b\<in>set cs. claimType a \<noteq> None \<and> claimType b \<noteq> None \<and> claimType a \<noteq> claimType b)"
    using claim_types_agree [of cs] by blast
  have e: "(from_kind e = CardEnd \<and> to_kind e = CardEnd \<and> edge_type e = ''negate'' \<and> fromId e \<in> ?ids \<and> toId e \<in> ?ids) =
      (edge_type e = ''negate'' \<and> from_selected ?ids e \<and> to_selected ?ids e)" for e
    by (auto simp: from_selected_def to_selected_def)
  show ?thesis
    unfolding hasMergeConflict_def Let_def list_ex_iff set_map c e bex_disj_distrib by argo
qed

section \<open>Projected edges\<close>

definition crossing :: "string set \<Rightarrow> edge \<Rightarrow> bool" where
  "crossing S e \<longleftrightarrow> from_selected S e \<noteq> to_selected S e"

lemma project_step_crossing:
  "project_step S rep e m =
     (if crossing S e \<and> edge_triple S e \<notin> fst ` set m then m @ [(edge_triple S e, projected_edge S rep e)] else m)"
  by (auto simp: project_step_def crossing_def)

lemma project_fold_keys:
  "fst ` set (fold (project_step S rep) es m) = fst ` set m \<union> edge_triple S ` {e \<in> set es. crossing S e}"
  by (induction es arbitrary: m) (auto simp: project_step_crossing)

lemma project_fold_distinct:
  "distinct (map fst m) \<Longrightarrow> distinct (map fst (fold (project_step S rep) es m))"
  by (induction es arbitrary: m) (auto simp: project_step_crossing)

lemma project_fold_entries:
  "set (fold (project_step S rep) es m) \<subseteq> set m \<union> (\<lambda>e. (edge_triple S e, projected_edge S rep e)) ` {e \<in> set es. crossing S e}"
proof (induction es arbitrary: m)
  case (Cons e es)
  from Cons.IH [of "project_step S rep e m"] show ?case by (auto simp: project_step_crossing split: if_splits)
qed simp

lemma projected_edge_type [simp]: "edge_type (projected_edge S rep e) = edge_type e"
  by (simp add: projected_edge_def)

lemma projected_edge_from:
  "crossing S e \<Longrightarrow> from_selected S e \<Longrightarrow> fromId (projected_edge S rep e) = rep \<and> from_kind (projected_edge S rep e) = CardEnd \<and>
     toId (projected_edge S rep e) = toId e \<and> to_kind (projected_edge S rep e) = to_kind e"
  by (auto simp: crossing_def projected_edge_def from_selected_def from_kind_def to_kind_def)

lemma projected_edge_to:
  "crossing S e \<Longrightarrow> to_selected S e \<Longrightarrow> toId (projected_edge S rep e) = rep \<and> to_kind (projected_edge S rep e) = CardEnd \<and>
     fromId (projected_edge S rep e) = fromId e \<and> from_kind (projected_edge S rep e) = from_kind e"
  by (auto simp: crossing_def projected_edge_def to_selected_def from_kind_def to_kind_def)

lemma last_colon_unique:
  assumes "a @ '':'' @ t = b @ '':'' @ u" "CHR '':'' \<notin> set t" "CHR '':'' \<notin> set u"
  shows "a = b \<and> t = u"
proof -
  have r: "rev t @ CHR '':'' # rev a = rev u @ CHR '':'' # rev b"
    using arg_cong [OF assms(1), of rev] by simp
  have "takeWhile (\<lambda>x. x \<noteq> CHR '':'') (rev t @ CHR '':'' # rev a) = rev t"
    "takeWhile (\<lambda>x. x \<noteq> CHR '':'') (rev u @ CHR '':'' # rev b) = rev u"
    using assms(2,3) by (auto simp: takeWhile_append)
  then have "t = u" using r by simp
  then show ?thesis using assms(1) by simp
qed

lemma edge_triple_inject:
  assumes "edge_triple S e = edge_triple S f" "CHR '':'' \<notin> set (edge_type e)" "CHR '':'' \<notin> set (edge_type f)"
  shows "from_selected S e = from_selected S f" "edge_type e = edge_type f"
    "from_selected S e \<Longrightarrow> toId e = toId f \<and> to_kind e = to_kind f"
    "\<not> from_selected S e \<Longrightarrow> fromId e = fromId f \<and> from_kind e = from_kind f"
proof -
  define a where "a = (\<lambda>e. (if from_selected S e then ''from'' else ''to'') @ '':'' @
    endpoint_kind_str (if from_selected S e then to_kind e else from_kind e) @ '':'' @ (if from_selected S e then toId e else fromId e))"
  have t: "edge_triple S e = a e @ '':'' @ edge_type e" for e by (simp add: edge_triple_def a_def Let_def)
  from last_colon_unique [of "a e" "edge_type e" "a f" "edge_type f"] assms
  have *: "a e = a f" "edge_type e = edge_type f" by (auto simp: t)
  have k: "endpoint_kind_str x @ '':'' @ s = endpoint_kind_str y @ '':'' @ s' \<longleftrightarrow> x = y \<and> s = s'" for x y s s'
    by (cases x; cases y) auto
  show "edge_type e = edge_type f" by (fact *(2))
  show fs: "from_selected S e = from_selected S f" using *(1) by (auto simp: a_def split: if_splits)
  show "from_selected S e \<Longrightarrow> toId e = toId f \<and> to_kind e = to_kind f"
    using *(1) fs k unfolding a_def by auto
  show "\<not> from_selected S e \<Longrightarrow> fromId e = fromId f \<and> from_kind e = from_kind f"
    using *(1) fs k unfolding a_def by auto
qed

lemma edge_projection_parts:
  "\<exists>new. projectRepresentativeEdges es S rep = es @ new \<and> distinct (map edge_id new) \<and>
     (\<forall>p. p \<in> set new \<longrightarrow> (\<exists>e. e \<in> set es \<and> crossing S e \<and> p = projected_edge S rep e)) \<and>
     ((\<forall>e. e \<in> set es \<longrightarrow> CHR '':'' \<notin> set (edge_type e)) \<longrightarrow>
        (\<forall>e. e \<in> set es \<and> crossing S e \<longrightarrow> (\<exists>p. p \<in> set new \<and> edge_type p = edge_type e \<and>
           (from_selected S e \<longrightarrow> fromId p = rep \<and> from_kind p = CardEnd \<and> toId p = toId e \<and> to_kind p = to_kind e) \<and>
           (to_selected S e \<longrightarrow> toId p = rep \<and> to_kind p = CardEnd \<and> fromId p = fromId e \<and> from_kind p = from_kind e))))"
proof -
  let ?m = "fold (project_step S rep) es []"
  have ent: "x \<in> set ?m \<Longrightarrow> \<exists>e \<in> set es. crossing S e \<and> x = (edge_triple S e, projected_edge S rep e)" for x
    using project_fold_entries [of S rep es "[]"] by auto
  have ids: "map edge_id (map snd ?m) = map (\<lambda>t. ''representative-merge:'' @ rep @ '':'' @ t) (map fst ?m)"
    using ent by (fastforce simp: projected_edge_def)
  have "distinct (map (\<lambda>t. ''representative-merge:'' @ rep @ '':'' @ t) (map fst ?m))"
    using project_fold_distinct [of "[]" S rep es] by (subst distinct_map) (auto simp: inj_on_def)
  then have d: "distinct (map edge_id (map snd ?m))" unfolding ids .
  have covered: "\<exists>p. p \<in> set (map snd ?m) \<and> edge_type p = edge_type e \<and>
           (from_selected S e \<longrightarrow> fromId p = rep \<and> from_kind p = CardEnd \<and> toId p = toId e \<and> to_kind p = to_kind e) \<and>
           (to_selected S e \<longrightarrow> toId p = rep \<and> to_kind p = CardEnd \<and> fromId p = fromId e \<and> from_kind p = from_kind e)"
    if nc: "\<forall>e. e \<in> set es \<longrightarrow> CHR '':'' \<notin> set (edge_type e)" and e: "e \<in> set es" "crossing S e" for e
  proof -
    have "edge_triple S e \<in> fst ` set ?m" using e project_fold_keys [of S rep es "[]"] by auto
    then obtain x where x: "x \<in> set ?m" "fst x = edge_triple S e" by auto
    from ent [OF x(1)] obtain f where f: "f \<in> set es" "crossing S f" "x = (edge_triple S f, projected_edge S rep f)" by auto
    have t: "edge_triple S e = edge_triple S f" using x(2) f(3) by simp
    note inj = edge_triple_inject [OF t nc [rule_format, OF e(1)] nc [rule_format, OF f(1)]]
    have sel: "to_selected S e = to_selected S f" using inj(1) e(2) f(2) by (auto simp: crossing_def)
    have "snd x \<in> set (map snd ?m)" using x(1) by auto
    moreover have "from_selected S e \<Longrightarrow> \<not> to_selected S e" using e(2) by (simp add: crossing_def)
    ultimately show ?thesis
      using inj sel f(3) projected_edge_from [OF f(2), of rep] projected_edge_to [OF f(2), of rep]
      by (intro exI [of _ "snd x"]) auto
  qed
  have prov: "p \<in> set (map snd ?m) \<Longrightarrow> \<exists>e. e \<in> set es \<and> crossing S e \<and> p = projected_edge S rep e" for p
    using ent by fastforce
  show ?thesis
    unfolding projectRepresentativeEdges_def using d prov covered by (intro exI [of _ "map snd ?m"] conjI) blast+
qed

text \<open>Projection of edges onto the representative: the original edges all stay, in order and first; every
  added edge is the projection of an original edge with exactly one selected end, which the representative
  replaces (an edge inside the selection gets none); added edges have pairwise different identifiers; and when
  no edge type contains a colon, every such original edge has an added edge with the same other end, direction
  and type.\<close>

theorem edge_projection:
  "\<exists>new. projectRepresentativeEdges es S rep = es @ new \<and> distinct (map edge_id new) \<and>
     (\<forall>p. p \<in> set new \<longrightarrow> (\<exists>e. e \<in> set es \<and> crossing S e \<and> p = projected_edge S rep e)) \<and>
     ((\<forall>e. e \<in> set es \<longrightarrow> CHR '':'' \<notin> set (edge_type e)) \<longrightarrow>
        (\<forall>e. e \<in> set es \<and> crossing S e \<longrightarrow> (\<exists>p. p \<in> set new \<and> edge_type p = edge_type e \<and>
           (from_selected S e \<longrightarrow> fromId p = rep \<and> from_kind p = CardEnd \<and> toId p = toId e \<and> to_kind p = to_kind e) \<and>
           (to_selected S e \<longrightarrow> toId p = rep \<and> to_kind p = CardEnd \<and> fromId p = fromId e \<and> from_kind p = from_kind e))))"
  by (rule edge_projection_parts)

lemma edge_projection_collapses:
  "map edge_id (projectRepresentativeEdges
      [mk_edge ''e1'' ''s'' ''a'' ''b:c'', mk_edge ''e2'' ''s'' ''a:b'' ''c''] {''s''} ''r'') =
   [''e1'', ''e2'', ''representative-merge:r:from:card:a:b:c'']"
  by (simp add: projectRepresentativeEdges_def project_step_def from_selected_def to_selected_def edge_triple_def
      projected_edge_def from_kind_def to_kind_def)

section \<open>The merge\<close>

text \<open>The merge is made exactly when at least two different cards are selected, all exist, none is on
  hold or already merged, their claim types do not disagree, no negation edge and no contradiction link runs
  between two of them, the trimmed text is not empty and the new identifier is unused.\<close>

theorem representative_merge_guards:
  assumes "distinct (map card_id (cards d))"
  shows "createRepresentativeMerge E d ids t rewire uuid \<noteq> None \<longleftrightarrow>
     2 \<le> card (set ids) \<and> set ids \<subseteq> card_id ` set (cards d) \<and>
     (\<forall>c. c \<in> set (cards d) \<and> card_id c \<in> set ids \<longrightarrow>
        holdState c = None \<and> mergedIntoCardId c \<in> {None, Some []} \<and> canonicalId c \<in> {None, Some []}) \<and>
     (\<forall>a b. a \<in> set (cards d) \<and> b \<in> set (cards d) \<and> card_id a \<in> set ids \<and> card_id b \<in> set ids \<longrightarrow>
        claimType a = None \<or> claimType b = None \<or> claimType a = claimType b) \<and>
     (\<forall>e. e \<in> set (edges d) \<and> edge_type e = ''negate'' \<longrightarrow> \<not> (from_selected (set ids) e \<and> to_selected (set ids) e)) \<and>
     (\<forall>l. l \<in> set (evidence_of d) \<and> link_type l = Contradicts \<longrightarrow> \<not> (fromCardId l \<in> set ids \<and> toCardId l \<in> set ids)) \<and>
     trim t \<noteq> [] \<and> uuid \<notin> card_id ` set (cards d)"
proof -
  let ?sel = "filter (\<lambda>c. card_id c \<in> set ids) (cards d)"
  have ex: "length ?sel = card (set ids) \<longleftrightarrow> set ids \<subseteq> card_id ` set (cards d)"
    using sources_exist [OF assms, of "uniq ids"] by (simp add: length_uniq)
  have fresh: "list_ex (\<lambda>c. card_id c = uuid) (cards d) \<longleftrightarrow> uuid \<in> card_id ` set (cards d)" by (auto simp: list_ex_iff)
  have ts: "truthy_str s \<longleftrightarrow> s \<notin> {None, Some []}" for s by (cases s) auto
  have "createRepresentativeMerge E d ids t rewire uuid \<noteq> None \<longleftrightarrow>
      2 \<le> card (set ids) \<and> set ids \<subseteq> card_id ` set (cards d) \<and> \<not> hasMergeConflict d ?sel \<and> trim t \<noteq> [] \<and> uuid \<notin> card_id ` set (cards d)"
    by (simp add: createRepresentativeMerge_def Let_def ex fresh not_less)
  moreover have "set ids \<subseteq> card_id ` set (cards d) \<Longrightarrow> hasMergeConflict d ?sel \<longleftrightarrow>
      \<not> ((\<forall>c. c \<in> set (cards d) \<and> card_id c \<in> set ids \<longrightarrow>
        holdState c = None \<and> mergedIntoCardId c \<in> {None, Some []} \<and> canonicalId c \<in> {None, Some []}) \<and>
     (\<forall>a b. a \<in> set (cards d) \<and> b \<in> set (cards d) \<and> card_id a \<in> set ids \<and> card_id b \<in> set ids \<longrightarrow>
        claimType a = None \<or> claimType b = None \<or> claimType a = claimType b) \<and>
     (\<forall>e. e \<in> set (edges d) \<and> edge_type e = ''negate'' \<longrightarrow> \<not> (from_selected (set ids) e \<and> to_selected (set ids) e)) \<and>
     (\<forall>l. l \<in> set (evidence_of d) \<and> link_type l = Contradicts \<longrightarrow> \<not> (fromCardId l \<in> set ids \<and> toCardId l \<in> set ids)))"
    unfolding hasMergeConflict_iff ts set_filter Bex_def de_Morgan_conj not_all not_imp
    by (intro arg_cong2 [where f = "(\<or>)"] ex_cong1) (auto simp: from_selected_def to_selected_def)
  ultimately show ?thesis by argo
qed

lemma createRepresentativeMerge_Some:
  assumes "createRepresentativeMerge E d ids t rewire uuid = Some (d', r, n)"
  shows "r = uuid" "n = card (set ids)" "uuid \<notin> card_id ` set (cards d)"
    "d' = d\<lparr>cards := map (\<lambda>c. if card_id c \<notin> set ids then c else c\<lparr>mergedIntoCardId := Some uuid, canonicalId := Some uuid\<rparr>) (cards d) @
                          [representative_card E (sortedUniqueIds E ids) (filter (\<lambda>c. card_id c \<in> set ids) (cards d)) uuid (trim t)],
          islands := (if rewire then map (rewired_island (set ids) uuid) (islands d) else islands d),
          edges := (if rewire then projectRepresentativeEdges (edges d) (set ids) uuid else edges d)\<rparr>"
  using assms by (auto simp: createRepresentativeMerge_def Let_def list_ex_iff split: if_splits)

definition rep_prefix :: "string \<Rightarrow> string" where
  "rep_prefix uuid = ''representative-merge:'' @ uuid @ '':''"

lemma project_edges_distinct:
  assumes "distinct (map edge_id es)" "\<And>e. e \<in> set es \<Longrightarrow> \<not> starts_with (rep_prefix uuid) (edge_id e)"
  shows "distinct (map edge_id (projectRepresentativeEdges es S uuid))"
proof -
  obtain new where new: "projectRepresentativeEdges es S uuid = es @ new" "distinct (map edge_id new)"
    "\<And>p. p \<in> set new \<Longrightarrow> \<exists>e. e \<in> set es \<and> crossing S e \<and> p = projected_edge S uuid e"
    using edge_projection_parts [of es S uuid] by blast
  have "p \<in> set new \<Longrightarrow> starts_with (rep_prefix uuid) (edge_id p)" for p
    using new(3) [of p] by (auto simp: projected_edge_def rep_prefix_def starts_with_def)
  then show ?thesis using assms new(1,2) by (auto simp: disjoint_iff) fastforce
qed

text \<open>C37. Effect of a merge: card identifiers, island identifiers and (for a fresh prefix) edge identifiers stay
  distinct; every selected card survives unchanged except for its two lineage fields, which name the
  representative; other cards are untouched; the representative's lineage is exactly the selected cards together
  with everything they already stood for; evidence links are untouched; and without the rewiring option islands
  and edges are untouched too.\<close>

theorem representative_merge_effect:
  assumes "createRepresentativeMerge E d ids t rewire uuid = Some (d', r, n)" and "ids_distinct d"
    and "\<And>e. e \<in> set (edges d) \<Longrightarrow> \<not> starts_with (rep_prefix uuid) (edge_id e)"
  shows "ids_distinct d' \<and>
    (\<forall>i. i \<noteq> r \<longrightarrow> find_by card_id (cards d') i = map_option
       (\<lambda>c. if i \<in> set ids then c\<lparr>mergedIntoCardId := Some r, canonicalId := Some r\<rparr> else c) (find_by card_id (cards d) i)) \<and>
    (\<exists>c. find_by card_id (cards d') r = Some c \<and> card_text c = trim t \<and> textReviewed c = Some False \<and>
       repOf c = Some (sortedUniqueIds E ids) \<and>
       set (nullish (sources c) []) = (\<Union>x\<in>{x \<in> set (cards d). card_id x \<in> set ids}.
          insert (card_id x) (set (nullish (repOf x) []) \<union> set (nullish (sources x) [])))) \<and>
    evidenceLinks d' = evidenceLinks d \<and> (\<not> rewire \<longrightarrow> islands d' = islands d \<and> edges d' = edges d)"
proof (intro conjI allI impI)
  note e = createRepresentativeMerge_Some [OF assms(1)]
  let ?f = "\<lambda>c. if card_id c \<notin> set ids then c else c\<lparr>mergedIntoCardId := Some uuid, canonicalId := Some uuid\<rparr>"
  let ?r = "representative_card E (sortedUniqueIds E ids) (filter (\<lambda>c. card_id c \<in> set ids) (cards d)) uuid (trim t)"
  have k: "map card_id (map ?f (cards d)) = map card_id (cards d)" by auto
  have kf: "card_id (?f x) = card_id x" for x by simp
  have rid [simp]: "card_id ?r = uuid" by (simp add: representative_card_def)
  have isl: "map island_id (map (rewired_island (set ids) uuid) xs) = map island_id xs" for xs by (auto simp: rewired_island_def)
  show "ids_distinct d'"
    using assms(2) e(3) project_edges_distinct [of "edges d" uuid "set ids"] assms(3)
    unfolding e(4) ids_distinct_def by (simp del: map_map add: k isl)
  show "find_by card_id (cards d') i = map_option
       (\<lambda>c. if i \<in> set ids then c\<lparr>mergedIntoCardId := Some r, canonicalId := Some r\<rparr> else c) (find_by card_id (cards d) i)"
    if "i \<noteq> r" for i
    using that find_by_Some [of card_id "cards d" i] unfolding e(4) e(1)
    by (cases "find_by card_id (cards d) i") (auto simp: find_by_append find_by_map_same_key [of card_id ?f, OF kf])
  have "find_by card_id (cards d) uuid = None" using e(3) by (simp add: find_by_None)
  then have "find_by card_id (cards d') r = Some ?r"
    unfolding e(4) e(1) by (simp add: find_by_append find_by_map_same_key [of card_id ?f, OF kf])
  then show "\<exists>c. find_by card_id (cards d') r = Some c \<and> card_text c = trim t \<and> textReviewed c = Some False \<and>
       repOf c = Some (sortedUniqueIds E ids) \<and>
       set (nullish (sources c) []) = (\<Union>x\<in>{x \<in> set (cards d). card_id x \<in> set ids}.
          insert (card_id x) (set (nullish (repOf x) []) \<union> set (nullish (sources x) [])))"
    by (simp add: representative_card_def set_collectRepresentativeSources)
qed (use createRepresentativeMerge_Some(4) [OF assms(1)] in simp_all)

section \<open>Examples\<close>

lemmas rep_eval = createRepresentativeMerge_def hasMergeConflict_def sortedUniqueIds_def uniq_def js_add_def Let_def
  List.map_filter_simps trim_def js_ws_def demo_engine_def

definition ex_rep :: document where
  "ex_rep = mk_doc [mk_card ''c1'' ''a'' 0 0, mk_card ''c2'' ''b'' 1 1, mk_card ''c3'' ''c'' 2 2]
     [mk_edge ''e1'' ''c1'' ''c3'' ''related''] []"

theorem edge_projection_witness:
  "\<exists>p. p \<in> set (drop 1 (projectRepresentativeEdges (edges ex_rep) {''c1'', ''c2''} ''r'')) \<and>
     fromId p = ''r'' \<and> toId p = ''c3''"
proof -
  have "crossing {''c1'', ''c2''} (mk_edge ''e1'' ''c1'' ''c3'' ''related'')"
    "from_selected {''c1'', ''c2''} (mk_edge ''e1'' ''c1'' ''c3'' ''related'')"
    by (simp_all add: crossing_def from_selected_def to_selected_def from_kind_def to_kind_def)
  then show ?thesis
    using edge_projection [of "edges ex_rep" "{''c1'', ''c2''}" "''r''"] by (auto simp: ex_rep_def)
qed

theorem representative_merge_guards_witness:
  "createRepresentativeMerge demo_engine ex_rep [''c2'', ''c1''] '' ab '' True ''r'' \<noteq> None"
proof -
  have "distinct (map card_id (cards ex_rep))" by (simp add: ex_rep_def)
  from iffD2 [OF representative_merge_guards [OF this, of demo_engine "[''c2'', ''c1'']" "'' ab ''" True "''r''"]]
  show ?thesis by (rule meta_mp) (auto simp: ex_rep_def trim_def js_ws_def)
qed

theorem representative_merge_effect_witness:
  "\<exists>d'. createRepresentativeMerge demo_engine ex_rep [''c2'', ''c1''] '' ab '' True ''r'' = Some (d', ''r'', 2) \<and> ids_distinct d'"
proof -
  obtain d' where d': "createRepresentativeMerge demo_engine ex_rep [''c2'', ''c1''] '' ab '' True ''r'' = Some (d', ''r'', 2)"
    by (simp add: rep_eval ex_rep_def)
  have "ids_distinct ex_rep" by (simp add: ex_rep_def ids_distinct_def)
  moreover have "e \<in> set (edges ex_rep) \<Longrightarrow> \<not> starts_with (rep_prefix ''r'') (edge_id e)" for e
    by (auto simp: ex_rep_def rep_prefix_def starts_with_def)
  ultimately show ?thesis using representative_merge_effect [OF d'] d' by blast
qed

end
