(* ===== verification/Merge_Decisions.thy ===== *)
theory Merge_Decisions
  imports Representative_Merge
begin

text \<open>
  From a merge suggestion to a merge: where a representative comes from (\<open>domain/merge_traceability.ts\<close>), the log of
  human decisions (\<open>domain/merge_suggestion_decisions.ts\<close>), the application of a recorded decision to the current
  document (\<open>domain/merge_suggestion_apply.ts\<close>) and the audit view of the log (\<open>domain/merge_decision_audit.ts\<close>).
  The identifier factory, the clock and \<open>crypto.randomUUID()\<close> are arguments.
\<close>

section \<open>Traceability\<close>

record origin_trace =
  trace_representativeCardId :: string
  trace_sourceCardIds :: "string list"
  trace_missingSourceCardIds :: "string list"
  trace_resolvedBy :: resolved_by

definition card_or_stub :: "document \<Rightarrow> string \<Rightarrow> card" where
  "card_or_stub doc i = nullish (find_by card_id (cards doc) i) (mk_card i [] 0 0)"

definition overlap_candidates :: "js_engine \<Rightarrow> document \<Rightarrow> string list \<Rightarrow> (card \<times> nat) list" where
  "overlap_candidates E doc ids =
     sort_by (\<lambda>(c, n) (c', n'). if n \<noteq> n' then n' < n else eng_le E (card_id c) (card_id c'))
       (filter (\<lambda>(c, n). n > 0)
         (map (\<lambda>c. (c, length (filter (\<lambda>i. i \<in> set ids) (nullish (repOf c) []))))
           (filter (\<lambda>c. nullish (repOf c) [] \<noteq> []) (cards doc))))"

definition resolveRepresentativeCard :: "js_engine \<Rightarrow> document \<Rightarrow> string list \<Rightarrow> card option \<times> resolved_by" where
  "resolveRepresentativeCard E doc ids =
     (case overlap_candidates E doc ids of
        (c, _) # _ \<Rightarrow> (Some c, ByRepOf)
      | [] \<Rightarrow>
         (case sort_by (eng_le E) (List.map_filter mergedIntoCardId (filter (\<lambda>c. card_id c \<in> set ids) (cards doc))) of
            (x # xs) # _ \<Rightarrow> (Some (card_or_stub doc (x # xs)), ByMergedIntoCardId)
          | _ \<Rightarrow> (case sortedUniqueIds E ids of
                (y # ys) # _ \<Rightarrow> (Some (card_or_stub doc (y # ys)), ByFallback)
              | _ \<Rightarrow> (None, Unresolved))))"

definition trace_sources :: "document \<Rightarrow> string \<Rightarrow> string list \<times> resolved_by" where
  "trace_sources doc rep =
     (let representative = find_by card_id (cards doc) rep;
          viaRepOf = (case representative of None \<Rightarrow> [] | Some c \<Rightarrow> nullish (repOf c) []);
          ids1 = fold js_add viaRepOf [];
          by1 = (if viaRepOf \<noteq> [] then ByRepOf else Unresolved);
          merged = map card_id (filter (\<lambda>c. mergedIntoCardId c = Some rep) (cards doc));
          ids2 = fold js_add merged ids1;
          by2 = (if merged \<noteq> [] \<and> by1 = Unresolved then ByMergedIntoCardId else by1);
          viaSources = (case representative of None \<Rightarrow> [] | Some c \<Rightarrow> nullish (sources c) []);
          ids3 = fold js_add viaSources ids2;
          by3 = (if viaSources \<noteq> [] \<and> by2 = Unresolved then ByFallback else by2)
      in (ids3, by3))"

definition resolveRepresentativeOriginTrace :: "js_engine \<Rightarrow> document \<Rightarrow> string \<Rightarrow> origin_trace" where
  "resolveRepresentativeOriginTrace E doc rep =
     (let (sourceIds, resolvedBy) = trace_sources doc rep;
          sortedSourceIds = sortedUniqueIds E sourceIds;
          known = card_id ` set (cards doc)
      in \<lparr>trace_representativeCardId = rep, trace_sourceCardIds = filter (\<lambda>i. i \<in> known) sortedSourceIds,
          trace_missingSourceCardIds = filter (\<lambda>i. i \<notin> known) sortedSourceIds, trace_resolvedBy = resolvedBy\<rparr>)"

definition resolveDecisionOriginTrace :: "js_engine \<Rightarrow> document \<Rightarrow> string list \<Rightarrow> origin_trace" where
  "resolveDecisionOriginTrace E doc ids =
     (let sortedCardIds = sortedUniqueIds E ids;
          (representative, resolvedBy) = resolveRepresentativeCard E doc sortedCardIds;
          rep = (case representative of None \<Rightarrow> [] | Some c \<Rightarrow> card_id c)
      in if rep = []
         then \<lparr>trace_representativeCardId = [], trace_sourceCardIds = [], trace_missingSourceCardIds = [],
               trace_resolvedBy = Unresolved\<rparr>
         else let t = resolveRepresentativeOriginTrace E doc rep in
           if trace_sourceCardIds t \<noteq> [] \<or> trace_missingSourceCardIds t \<noteq> []
           then t\<lparr>trace_resolvedBy := resolvedBy\<rparr>
           else \<lparr>trace_representativeCardId = rep,
                 trace_sourceCardIds = sortedUniqueIds E (filter (\<lambda>i. i \<noteq> rep) sortedCardIds),
                 trace_missingSourceCardIds = [], trace_resolvedBy = resolvedBy\<rparr>)"

section \<open>The decision log\<close>

datatype decision_error =
    Empty_field string
  | No_card_ids
  | Partial_without_selection
  | Partial_too_small
  | Partial_not_strict
  | Partial_not_subset
  | Wrong_snapshot_version

record decision_input =
  input_groupId :: string
  input_decision :: merge_decision
  input_cardIds :: "string list"
  input_selectedCardIds :: "string list option"
  input_mergedTextDraft :: string
  input_editedText :: string
  input_mergeMethod :: merge_method
  input_rationale :: "string option"
  input_decisionReason :: "string option"

definition DECISION_LOG_SNAPSHOT_VERSION :: string where
  "DECISION_LOG_SNAPSHOT_VERSION = ''CTR-2B-02-DECISION-LOG-V1''"

definition resolveSelectedCardIds ::
    "js_engine \<Rightarrow> merge_decision \<Rightarrow> string list \<Rightarrow> string list option \<Rightarrow> decision_error + string list" where
  "resolveSelectedCardIds E dec ids selectedIds =
     (if dec \<noteq> Partial then Inr ids
      else case selectedIds of None \<Rightarrow> Inl Partial_without_selection
        | Some given \<Rightarrow>
            (let selected = sortedUniqueIds E given in
             if length selected < 2 then Inl Partial_too_small
             else if length selected \<ge> length ids then Inl Partial_not_strict
             else if list_ex (\<lambda>i. i \<notin> set ids) selected then Inl Partial_not_subset
             else Inr selected))"

definition decision_entry ::
    "js_engine \<Rightarrow> document \<Rightarrow> decision_input \<Rightarrow> string \<Rightarrow> string \<Rightarrow> string list \<Rightarrow> string list \<Rightarrow> merge_decision_entry" where
  "decision_entry E doc inp newId now sortedIds selectedIds =
     (let t = resolveDecisionOriginTrace E doc selectedIds in
      \<lparr>dec_id = newId, decisionId = Some newId, groupId = input_groupId inp, decision = input_decision inp,
       dec_action = Some (input_decision inp), decidedAt = now, decidedBy = Some ''human'', dec_cardIds = sortedIds,
       selectedCardIds = Some selectedIds, mergedTextDraft = input_mergedTextDraft inp, editedText = input_editedText inp,
       dec_note = Some (nullish (input_decisionReason inp) (input_editedText inp)),
       snapshotVersion = Some DECISION_LOG_SNAPSHOT_VERSION, rationale = input_rationale inp,
       mergeMethod = Some (input_mergeMethod inp), representativeCardId = Some (trace_representativeCardId t),
       representativeResolvedBy = Some (trace_resolvedBy t), sourceCardIds = Some (trace_sourceCardIds t),
       missingSourceCardIds = Some (trace_missingSourceCardIds t)\<rparr>)"

definition decisions_of :: "document \<Rightarrow> merge_decision_entry list" where
  "decisions_of doc = nullish (mergeSuggestionDecisions doc) []"

definition appendMergeSuggestionDecision ::
    "js_engine \<Rightarrow> document \<Rightarrow> decision_input \<Rightarrow> string \<Rightarrow> string \<Rightarrow> decision_error + document" where
  "appendMergeSuggestionDecision E doc inp newId now =
     (if trim (input_groupId inp) = [] then Inl (Empty_field ''groupId'')
      else if trim (input_mergedTextDraft inp) = [] then Inl (Empty_field ''mergedTextDraft'')
      else if trim (input_editedText inp) = [] then Inl (Empty_field ''editedText'')
      else let sortedIds = sortedUniqueIds E (input_cardIds inp) in
      if length sortedIds = 0 then Inl No_card_ids
      else case resolveSelectedCardIds E (input_decision inp) sortedIds (input_selectedCardIds inp) of
          Inl e \<Rightarrow> Inl e
        | Inr selectedIds \<Rightarrow> Inr (doc\<lparr>mergeSuggestionDecisions :=
            Some (decisions_of doc @ [decision_entry E doc inp newId now sortedIds selectedIds])\<rparr>))"

definition latest_step :: "merge_decision_entry \<Rightarrow> (string \<times> merge_decision_entry) list \<Rightarrow> (string \<times> merge_decision_entry) list" where
  "latest_step d latest = (case map_of latest (groupId d) of
       None \<Rightarrow> AList.update (groupId d) d latest
     | Some current \<Rightarrow> if code_unit_le (decidedAt current) (decidedAt d) then AList.update (groupId d) d latest else latest)"

definition getLatestMergeSuggestionDecisionByGroup ::
    "merge_decision_entry list option \<Rightarrow> (string \<times> merge_decision_entry) list" where
  "getLatestMergeSuggestionDecisionByGroup ds = fold latest_step (nullish ds []) []"

definition listMergeSuggestionDecisionsByGroup ::
    "merge_decision_entry list option \<Rightarrow> string \<Rightarrow> decision_error + merge_decision_entry list" where
  "listMergeSuggestionDecisionsByGroup ds g =
     (if trim g = [] then Inl (Empty_field ''groupId'') else Inr (filter (\<lambda>d. groupId d = g) (nullish ds [])))"

definition restoreMergeSuggestionDecisionsBySnapshot ::
    "merge_decision_entry list option \<Rightarrow> string \<Rightarrow> decision_error + merge_decision_entry list" where
  "restoreMergeSuggestionDecisionsBySnapshot ds version =
     (if trim version = [] then Inl (Empty_field ''snapshotVersion'')
      else if version \<noteq> DECISION_LOG_SNAPSHOT_VERSION then Inl Wrong_snapshot_version
      else Inr (filter (\<lambda>d. snapshotVersion d = Some version \<and> dec_action d \<noteq> None \<and> decidedBy d = Some ''human'') (nullish ds [])))"

section \<open>Applying a recorded decision\<close>

datatype apply_error =
    Decision_not_recorded
  | Decision_not_accepted
  | Partial_selection_missing
  | Partial_selection_invalid
  | Source_card_missing
  | Source_card_held
  | Source_card_already_merged
  | Source_card_already_canonicalized
  | Claim_type_conflict
  | Negate_conflict
  | Contradiction_evidence_conflict
  | Representative_text_empty
  | Merge_failed

definition sameIds :: "js_engine \<Rightarrow> string list \<Rightarrow> string list \<Rightarrow> bool" where
  "sameIds E left right =
     (let l = sortedUniqueIds E left; r = sortedUniqueIds E right
      in length l = length r \<and> list_all (\<lambda>i. l ! i = r ! i) [0..<length l])"

definition decision_key :: "merge_decision_entry \<Rightarrow> string" where
  "decision_key d = nullish (decisionId d) (dec_id d)"

definition action_of :: "merge_decision_entry \<Rightarrow> merge_decision" where
  "action_of d = nullish (dec_action d) (decision d)"

definition isSameRecordedDecision :: "js_engine \<Rightarrow> merge_decision_entry \<Rightarrow> merge_decision_entry \<Rightarrow> bool" where
  "isSameRecordedDecision E recorded d =
     (decision_key recorded = decision_key d \<and> groupId recorded = groupId d \<and> action_of recorded = action_of d \<and>
      editedText recorded = editedText d \<and> sameIds E (dec_cardIds recorded) (dec_cardIds d))"

definition resolveAppliedSourceIds :: "js_engine \<Rightarrow> merge_decision_entry \<Rightarrow> apply_error + string list" where
  "resolveAppliedSourceIds E recorded =
     (let candidateIds = sortedUniqueIds E (dec_cardIds recorded) in
      if action_of recorded = Accept then Inr candidateIds
      else if action_of recorded \<noteq> Partial then Inl Decision_not_accepted
      else case selectedCardIds recorded of None \<Rightarrow> Inl Partial_selection_missing
        | Some given \<Rightarrow>
            (let selectedIds = sortedUniqueIds E given in
             if length selectedIds < 2 \<or> length selectedIds \<ge> length candidateIds then Inl Partial_selection_invalid
             else if list_ex (\<lambda>i. i \<notin> set candidateIds) selectedIds then Inl Partial_selection_invalid
             else Inr selectedIds))"

definition source_error :: "document \<Rightarrow> string list \<Rightarrow> apply_error option" where
  "source_error doc ids =
     (let sourceCards = map (map_of (new_map (map (\<lambda>c. (card_id c, c)) (cards doc)))) ids;
          concreteCards = List.map_filter id sourceCards;
          S = set ids
      in if list_ex (\<lambda>c. c = None) sourceCards then Some Source_card_missing
      else if list_ex (\<lambda>c. holdState c \<noteq> None) concreteCards then Some Source_card_held
      else if list_ex (\<lambda>c. mergedIntoCardId c \<noteq> None) concreteCards then Some Source_card_already_merged
      else if list_ex (\<lambda>c. canonicalId c \<noteq> None) concreteCards then Some Source_card_already_canonicalized
      else if length (uniq (List.map_filter claimType concreteCards)) > 1 then Some Claim_type_conflict
      else if list_ex (\<lambda>e. from_kind e = CardEnd \<and> to_kind e = CardEnd \<and> edge_type e = ''negate'' \<and>
                          fromId e \<in> S \<and> toId e \<in> S) (edges doc) then Some Negate_conflict
      else if list_ex (\<lambda>l. link_type l = Contradicts \<and> fromCardId l \<in> S \<and> toCardId l \<in> S) (evidence_of doc)
      then Some Contradiction_evidence_conflict
      else None)"

definition synchronise :: "string \<Rightarrow> string \<Rightarrow> origin_trace \<Rightarrow> merge_decision_entry \<Rightarrow> merge_decision_entry" where
  "synchronise key rep t d =
     (if decision_key d \<noteq> key then d
      else d\<lparr>representativeCardId := Some rep, representativeResolvedBy := Some (trace_resolvedBy t),
             sourceCardIds := Some (trace_sourceCardIds t), missingSourceCardIds := Some (trace_missingSourceCardIds t)\<rparr>)"

definition applyRecordedMergeSuggestionDecision ::
    "js_engine \<Rightarrow> document \<Rightarrow> merge_decision_entry \<Rightarrow> string \<Rightarrow> apply_error + document \<times> string \<times> string list" where
  "applyRecordedMergeSuggestionDecision E doc d uuid =
     (case find (\<lambda>entry. isSameRecordedDecision E entry d) (decisions_of doc) of
        None \<Rightarrow> Inl Decision_not_recorded
      | Some recorded \<Rightarrow>
         (case resolveAppliedSourceIds E recorded of
            Inl e \<Rightarrow> Inl e
          | Inr selectedIds \<Rightarrow>
              if length selectedIds < 2 then Inl Merge_failed
              else (case source_error doc selectedIds of
                  Some e \<Rightarrow> Inl e
                | None \<Rightarrow>
                    (let representativeText = trim (editedText recorded) in
                     if representativeText = [] then Inl Representative_text_empty
                     else (case createRepresentativeMerge E doc selectedIds representativeText False uuid of
                         None \<Rightarrow> Inl Merge_failed
                       | Some (nextDocument, rep, _) \<Rightarrow>
                           (let t = resolveRepresentativeOriginTrace E nextDocument rep
                            in Inr (nextDocument\<lparr>mergeSuggestionDecisions :=
                                      Some (map (synchronise (decision_key recorded) rep t) (decisions_of nextDocument))\<rparr>,
                                    rep, selectedIds)))))))"

section \<open>The audit view\<close>

record audit_entry =
  audit_decisionId :: string
  audit_groupId :: string
  audit_decisionType :: merge_decision
  audit_decidedAt :: string
  audit_trace :: origin_trace
  audit_cardIds :: "string list"
  audit_rationale :: "string option"

definition audit_le :: "js_engine \<Rightarrow> merge_decision_entry \<Rightarrow> merge_decision_entry \<Rightarrow> bool" where
  "audit_le E l r =
     (if eng_le E (decidedAt l) (decidedAt r) \<and> eng_le E (decidedAt r) (decidedAt l) then eng_le E (dec_id l) (dec_id r)
      else eng_le E (decidedAt l) (decidedAt r))"

definition audit_of :: "js_engine \<Rightarrow> document \<Rightarrow> merge_decision_entry \<Rightarrow> audit_entry" where
  "audit_of E doc d =
     (let ids = sortedUniqueIds E (dec_cardIds d);
          t = (case representativeCardId d of
                Some rep \<Rightarrow> \<lparr>trace_representativeCardId = rep, trace_sourceCardIds = nullish (sourceCardIds d) [],
                   trace_missingSourceCardIds = nullish (missingSourceCardIds d) [],
                   trace_resolvedBy = nullish (representativeResolvedBy d) Unresolved\<rparr>
              | None \<Rightarrow> resolveDecisionOriginTrace E doc ids)
      in \<lparr>audit_decisionId = dec_id d, audit_groupId = groupId d, audit_decisionType = decision d,
          audit_decidedAt = decidedAt d, audit_trace = t, audit_cardIds = ids, audit_rationale = rationale d\<rparr>)"

definition buildMergeDecisionAuditEntries :: "js_engine \<Rightarrow> document \<Rightarrow> audit_entry list" where
  "buildMergeDecisionAuditEntries E doc = map (audit_of E doc) (sort_by (audit_le E) (decisions_of doc))"

section \<open>The log records human decisions\<close>

definition partial_ok :: "decision_input \<Rightarrow> bool" where
  "partial_ok inp \<longleftrightarrow> input_decision inp = Partial \<longrightarrow>
     (\<exists>given. input_selectedCardIds inp = Some given \<and> 2 \<le> card (set given) \<and> set given \<subset> set (input_cardIds inp))"

lemma resolveSelected_Inr:
  "resolveSelectedCardIds E dec (sortedUniqueIds E ids) sel = Inr r \<longleftrightarrow>
     (if dec = Partial then (\<exists>given. sel = Some given \<and> 2 \<le> card (set given) \<and> set given \<subset> set ids \<and> r = sortedUniqueIds E given)
      else r = sortedUniqueIds E ids)"
proof (cases "dec = Partial \<and> sel \<noteq> None")
  case True
  then obtain given where g: "sel = Some given" "dec = Partial" by auto
  have "set given \<subset> set ids \<longleftrightarrow> set given \<subseteq> set ids \<and> card (set given) < card (set ids)"
    by (auto intro: psubset_card_mono)
  then have "\<not> card (set given) < 2 \<and> \<not> card (set ids) \<le> card (set given) \<and> \<not> (\<exists>i\<in>set given. i \<notin> set ids) \<longleftrightarrow>
      2 \<le> card (set given) \<and> set given \<subset> set ids"
    by (simp only: not_less not_le subset_iff Bex_def) blast
  then show ?thesis
    using g by (auto simp: resolveSelectedCardIds_def Let_def list_ex_iff split: if_splits)
qed (auto simp: resolveSelectedCardIds_def)

lemma decision_append_outcome_parts:
  shows "(\<exists>doc'. appendMergeSuggestionDecision E doc inp newId now = Inr doc') \<longleftrightarrow>
      trim (input_groupId inp) \<noteq> [] \<and> trim (input_mergedTextDraft inp) \<noteq> [] \<and> trim (input_editedText inp) \<noteq> [] \<and>
      input_cardIds inp \<noteq> [] \<and> partial_ok inp"
    and "appendMergeSuggestionDecision E doc inp newId now = Inr doc' \<Longrightarrow>
      \<exists>d. doc' = doc\<lparr>mergeSuggestionDecisions := Some (decisions_of doc @ [d])\<rparr> \<and>
        dec_id d = newId \<and> decidedAt d = now \<and> decision d = input_decision inp \<and> set (dec_cardIds d) = set (input_cardIds inp) \<and>
        selectedCardIds d = Some (sortedUniqueIds E (if input_decision inp = Partial
           then the (input_selectedCardIds inp) else input_cardIds inp)) \<and>
        representativeCardId d \<noteq> None \<and>
        (\<exists>restored. restoreMergeSuggestionDecisionsBySnapshot (mergeSuggestionDecisions doc') DECISION_LOG_SNAPSHOT_VERSION = Inr (restored @ [d]))"
proof -
  have u: "length (sortedUniqueIds E (input_cardIds inp)) = 0 \<longleftrightarrow> input_cardIds inp = []" by simp
  have "(\<exists>r. resolveSelectedCardIds E (input_decision inp) (sortedUniqueIds E (input_cardIds inp)) (input_selectedCardIds inp) = Inr r)
      \<longleftrightarrow> partial_ok inp"
    unfolding resolveSelected_Inr partial_ok_def by auto
  then show "(\<exists>doc'. appendMergeSuggestionDecision E doc inp newId now = Inr doc') \<longleftrightarrow>
      trim (input_groupId inp) \<noteq> [] \<and> trim (input_mergedTextDraft inp) \<noteq> [] \<and> trim (input_editedText inp) \<noteq> [] \<and>
      input_cardIds inp \<noteq> [] \<and> partial_ok inp"
    unfolding appendMergeSuggestionDecision_def Let_def u by (auto split: sum.splits)
next
  assume a: "appendMergeSuggestionDecision E doc inp newId now = Inr doc'"
  then obtain r where r: "resolveSelectedCardIds E (input_decision inp) (sortedUniqueIds E (input_cardIds inp)) (input_selectedCardIds inp) = Inr r"
    and doc': "doc' = doc\<lparr>mergeSuggestionDecisions := Some (decisions_of doc @
       [decision_entry E doc inp newId now (sortedUniqueIds E (input_cardIds inp)) r])\<rparr>"
    by (auto simp: appendMergeSuggestionDecision_def Let_def split: if_splits sum.splits)
  have sel: "r = sortedUniqueIds E (if input_decision inp = Partial then the (input_selectedCardIds inp) else input_cardIds inp)"
    using r by (auto simp: resolveSelected_Inr split: if_splits)
  have ver: "trim DECISION_LOG_SNAPSHOT_VERSION \<noteq> []" by code_simp
  show "\<exists>d. doc' = doc\<lparr>mergeSuggestionDecisions := Some (decisions_of doc @ [d])\<rparr> \<and>
        dec_id d = newId \<and> decidedAt d = now \<and> decision d = input_decision inp \<and> set (dec_cardIds d) = set (input_cardIds inp) \<and>
        selectedCardIds d = Some (sortedUniqueIds E (if input_decision inp = Partial
           then the (input_selectedCardIds inp) else input_cardIds inp)) \<and>
        representativeCardId d \<noteq> None \<and>
        (\<exists>restored. restoreMergeSuggestionDecisionsBySnapshot (mergeSuggestionDecisions doc') DECISION_LOG_SNAPSHOT_VERSION = Inr (restored @ [d]))"
    by (rule exI, rule conjI, rule doc')
      (use ver in \<open>simp add: decision_entry_def Let_def sel [symmetric] restoreMergeSuggestionDecisionsBySnapshot_def doc'\<close>)
qed

text \<open>A decision is recorded exactly when the texts and the group are not blank, at least one card is named and a
  partial decision selects at least two but not all of the cards. The log then grows by one entry at its end and nothing
  else changes; the entry is a human decision for the current contract, it carries the selection and a snapshot of the
  representative, and it is among the decisions restored for that contract.\<close>

theorem decision_append_outcome:
  "((\<exists>doc'. appendMergeSuggestionDecision E doc inp newId now = Inr doc') \<longleftrightarrow>
      trim (input_groupId inp) \<noteq> [] \<and> trim (input_mergedTextDraft inp) \<noteq> [] \<and> trim (input_editedText inp) \<noteq> [] \<and>
      input_cardIds inp \<noteq> [] \<and> partial_ok inp)
    \<and> (appendMergeSuggestionDecision E doc inp newId now = Inr doc' \<longrightarrow>
      (\<exists>d. doc' = doc\<lparr>mergeSuggestionDecisions := Some (decisions_of doc @ [d])\<rparr> \<and>
        dec_id d = newId \<and> decidedAt d = now \<and> decision d = input_decision inp \<and> set (dec_cardIds d) = set (input_cardIds inp) \<and>
        selectedCardIds d = Some (sortedUniqueIds E (if input_decision inp = Partial
           then the (input_selectedCardIds inp) else input_cardIds inp)) \<and>
        representativeCardId d \<noteq> None \<and>
        (\<exists>restored. restoreMergeSuggestionDecisionsBySnapshot (mergeSuggestionDecisions doc') DECISION_LOG_SNAPSHOT_VERSION = Inr (restored @ [d]))))"
  using decision_append_outcome_parts by blast

section \<open>The latest decision of a group\<close>

definition is_latest :: "merge_decision_entry list \<Rightarrow> string \<Rightarrow> merge_decision_entry \<Rightarrow> bool" where
  "is_latest ds g d \<longleftrightarrow> (\<exists>pre post. ds = pre @ d # post \<and> groupId d = g \<and>
     (\<forall>x\<in>set pre. groupId x = g \<longrightarrow> code_unit_le (decidedAt x) (decidedAt d)) \<and>
     (\<forall>x\<in>set post. groupId x = g \<longrightarrow> \<not> code_unit_le (decidedAt d) (decidedAt x)))"

lemma is_latest_keep:
  "is_latest ds g d \<Longrightarrow> (groupId x = g \<Longrightarrow> \<not> code_unit_le (decidedAt d) (decidedAt x)) \<Longrightarrow> is_latest (ds @ [x]) g d"
  unfolding is_latest_def by (elim exE, rule_tac x = pre in exI, rule_tac x = "post @ [x]" in exI) auto

lemma is_latest_max: "is_latest ds g d \<Longrightarrow> y \<in> set ds \<Longrightarrow> groupId y = g \<Longrightarrow> code_unit_le (decidedAt y) (decidedAt d)"
  unfolding is_latest_def using code_unit_le_total [of "decidedAt y" "decidedAt d"] cu.le_refl by auto

lemma is_latest_new:
  "groupId x = g \<Longrightarrow> (\<And>y. y \<in> set ds \<Longrightarrow> groupId y = g \<Longrightarrow> code_unit_le (decidedAt y) (decidedAt x)) \<Longrightarrow> is_latest (ds @ [x]) g x"
  unfolding is_latest_def by (rule exI [of _ ds], rule exI [of _ "[]"]) auto

lemma map_of_latest_step:
  "map_of (latest_step x m) g = (if groupId x = g \<and> (\<forall>c. map_of m g = Some c \<longrightarrow> code_unit_le (decidedAt c) (decidedAt x))
     then Some x else map_of m g)"
  by (auto simp: latest_step_def update_conv' split: option.splits)

lemma latest_fold:
  "case map_of (fold latest_step ds []) g of None \<Rightarrow> \<forall>x\<in>set ds. groupId x \<noteq> g | Some d \<Rightarrow> is_latest ds g d"
proof (induction ds rule: rev_induct)
  case (snoc x ds)
  define m where "m = fold latest_step ds []"
  have IH: "case map_of m g of None \<Rightarrow> \<forall>x\<in>set ds. groupId x \<noteq> g | Some d \<Rightarrow> is_latest ds g d"
    using snoc by (simp only: m_def)
  have f: "fold latest_step (ds @ [x]) [] = latest_step x m" by (simp add: m_def)
  show ?case
  proof (cases "map_of m g")
    case None
    with IH show ?thesis unfolding f map_of_latest_step by (auto intro!: is_latest_new)
  next
    case (Some c)
    then have c: "is_latest ds g c" using IH by simp
    have "is_latest (ds @ [x]) g x" if "groupId x = g" "code_unit_le (decidedAt c) (decidedAt x)"
      using is_latest_max [OF c] that code_unit_le_trans by (intro is_latest_new) blast+
    with is_latest_keep [OF c] Some show ?thesis unfolding f map_of_latest_step by auto
  qed
qed simp

text \<open>The latest decision of a group is the one with the greatest time, and among equal times the one recorded last;
  there is none exactly when the group has no decision.\<close>

theorem latest_decision_exact:
  "(case map_of (getLatestMergeSuggestionDecisionByGroup ds) g of
      None \<Rightarrow> listMergeSuggestionDecisionsByGroup ds g \<in> {Inr [], Inl (Empty_field ''groupId'')} \<and>
        (\<forall>x\<in>set (nullish ds []). groupId x \<noteq> g)
    | Some d \<Rightarrow> is_latest (nullish ds []) g d)"
  using latest_fold [of "nullish ds []" g]
  by (auto simp: getLatestMergeSuggestionDecisionByGroup_def listMergeSuggestionDecisionsByGroup_def filter_empty_conv split: option.splits)

section \<open>Applying\<close>

lemma sameIds_iff: "sameIds E a b \<longleftrightarrow> sortedUniqueIds E a = sortedUniqueIds E b"
  unfolding sameIds_def Let_def list_all_iff by (auto simp del: length_sortedUniqueIds intro!: nth_equalityI)

lemma apply_cases:
  assumes "applyRecordedMergeSuggestionDecision E doc d uuid = Inr (doc', rep, ids)"
  obtains recorded nextDoc n where "find (\<lambda>x. isSameRecordedDecision E x d) (decisions_of doc) = Some recorded"
    and "resolveAppliedSourceIds E recorded = Inr ids" and "2 \<le> length ids" and "source_error doc ids = None"
    and "trim (editedText recorded) \<noteq> []"
    and "createRepresentativeMerge E doc ids (trim (editedText recorded)) False uuid = Some (nextDoc, rep, n)"
    and "doc' = nextDoc\<lparr>mergeSuggestionDecisions := Some (map (synchronise (decision_key recorded) rep
           (resolveRepresentativeOriginTrace E nextDoc rep)) (decisions_of nextDoc))\<rparr>"
  using assms
  by (auto simp: applyRecordedMergeSuggestionDecision_def Let_def not_less split: option.splits sum.splits if_splits)

lemma synchronise_fields [simp]:
  "decision_key (synchronise k r t d) = decision_key d" "groupId (synchronise k r t d) = groupId d"
  "action_of (synchronise k r t d) = action_of d" "editedText (synchronise k r t d) = editedText d"
  "dec_cardIds (synchronise k r t d) = dec_cardIds d" "selectedCardIds (synchronise k r t d) = selectedCardIds d"
  "dec_id (synchronise k r t d) = dec_id d" "decidedAt (synchronise k r t d) = decidedAt d"
  "decision (synchronise k r t d) = decision d" "rationale (synchronise k r t d) = rationale d"
  by (simp_all add: synchronise_def decision_key_def action_of_def)

lemma find_synchronise:
  "find (\<lambda>x. isSameRecordedDecision E x d) (map (synchronise k r t) ds) =
   map_option (synchronise k r t) (find (\<lambda>x. isSameRecordedDecision E x d) ds)"
  by (induction ds) (simp_all add: isSameRecordedDecision_def)

lemma resolveApplied_synchronise [simp]:
  "resolveAppliedSourceIds E (synchronise k r t d) = resolveAppliedSourceIds E d"
  unfolding resolveAppliedSourceIds_def synchronise_fields by (rule refl)

definition merged_under :: "string set \<Rightarrow> string \<Rightarrow> card \<Rightarrow> card" where
  "merged_under S rep c = (if card_id c \<notin> S then c else c\<lparr>mergedIntoCardId := Some rep, canonicalId := Some rep\<rparr>)"

lemma merged_under_id [simp]: "card_id (merged_under S rep c) = card_id c"
  by (simp add: merged_under_def)

lemma map_of_new_map_last:
  "map_of (new_map (map (\<lambda>c. (card_id c, c)) (map (merged_under S rep) cs @ [r]))) i =
   (if i = card_id r then Some r else map_option (merged_under S rep) (map_of (new_map (map (\<lambda>c. (card_id c, c)) cs)) i))"
proof -
  have "map_of (map (\<lambda>c. (card_id c, c)) (map (merged_under S rep) xs)) i =
      map_option (merged_under S rep) (map_of (map (\<lambda>c. (card_id c, c)) xs) i)" for xs
    by (induction xs) auto
  then show ?thesis by (simp add: map_of_new_map rev_map)
qed

lemma list_ex_concrete:
  "list_ex P (List.map_filter id (map m ids)) \<longleftrightarrow> (\<exists>i\<in>set ids. \<exists>c. m i = Some c \<and> P c)"
  by (induction ids) (auto simp: List.map_filter_simps split: option.splits)

lemma list_ex_absent: "list_ex (\<lambda>c. c = None) (map m ids) \<longleftrightarrow> (\<exists>i\<in>set ids. m i = None)"
  by (induction ids) auto

lemma source_error_None_iff_part:
  "source_error doc ids = None \<Longrightarrow> \<forall>i\<in>set ids. \<exists>c. map_of (new_map (map (\<lambda>c. (card_id c, c)) (cards doc))) i = Some c \<and> holdState c = None"
proof -
  let ?m = "map_of (new_map (map (\<lambda>c. (card_id c, c)) (cards doc)))"
  assume s: "source_error doc ids = None"
  then have "\<not> list_ex (\<lambda>c. c = None) (map ?m ids)" "\<not> list_ex (\<lambda>c. holdState c \<noteq> None) (List.map_filter id (map ?m ids))"
    unfolding source_error_def Let_def by (metis option.distinct(1))+
  then show ?thesis unfolding list_ex_absent list_ex_concrete by (metis not_None_eq)
qed

lemma source_error_merged:
  assumes "source_error doc ids = None" and "ids \<noteq> []" and "set ids \<subseteq> S" and "card_id r \<notin> set ids"
    and "cards doc' = map (merged_under S rep) (cards doc) @ [r]"
  shows "source_error doc' ids = Some Source_card_already_merged"
proof -
  let ?m = "map_of (new_map (map (\<lambda>c. (card_id c, c)) (cards doc)))"
  let ?m' = "map_of (new_map (map (\<lambda>c. (card_id c, c)) (cards doc')))"
  have keyed: "card_id c = i" if "?m i = Some c" for i c
  proof -
    have "(i, c) \<in> set (map (\<lambda>c. (card_id c, c)) (cards doc))"
      using map_of_SomeD [OF that [unfolded map_of_new_map]] by simp
    then show ?thesis by (simp add: image_iff)
  qed
  have m': "\<exists>c. ?m' i = Some c \<and> holdState c = None \<and> mergedIntoCardId c = Some rep" if mem: "i \<in> set ids" for i
  proof -
    obtain c where c: "?m i = Some c" "holdState c = None"
      using bspec [OF source_error_None_iff_part [OF assms(1)] mem] by blast
    then have "?m' i = Some (merged_under S rep c)"
      unfolding assms(5) map_of_new_map_last using that assms(4) by auto
    moreover have "card_id c \<in> S" using keyed [OF c(1)] that assms(3) by auto
    ultimately show ?thesis using c(2) by (simp add: merged_under_def)
  qed
  have "\<not> list_ex (\<lambda>c. c = None) (map ?m' ids)" unfolding list_ex_absent using m' by fastforce
  moreover have "\<not> list_ex (\<lambda>c. holdState c \<noteq> None) (List.map_filter id (map ?m' ids))"
    unfolding list_ex_concrete using m' by fastforce
  moreover have "list_ex (\<lambda>c. mergedIntoCardId c \<noteq> None) (List.map_filter id (map ?m' ids))"
    unfolding list_ex_concrete using m' assms(2) by (metis hd_in_set option.distinct(1))
  ultimately show ?thesis unfolding source_error_def Let_def by presburger
qed

lemma resolveApplied_Inr:
  assumes "resolveAppliedSourceIds E recorded = Inr ids"
  shows "action_of recorded \<in> {Accept, Partial}" and "set ids \<subseteq> set (dec_cardIds recorded)"
  using assms by (auto simp: resolveAppliedSourceIds_def Let_def list_ex_iff split: if_splits option.splits)

lemma trace_of_representative:
  assumes "find_by card_id (cards doc) rep = Some c" and "repOf c = Some ids" and "ids \<noteq> []"
    and "set ids \<subseteq> card_id ` set (cards doc)"
  shows "trace_resolvedBy (resolveRepresentativeOriginTrace E doc rep) = ByRepOf"
    and "set ids \<subseteq> set (trace_sourceCardIds (resolveRepresentativeOriginTrace E doc rep))"
  using assms by (auto simp: resolveRepresentativeOriginTrace_def trace_sources_def Let_def)

lemma sortedUniqueIds_Nil [simp]: "sortedUniqueIds E ids = [] \<longleftrightarrow> ids = []"
  by (simp add: sortedUniqueIds_def)

lemma apply_document:
  assumes "applyRecordedMergeSuggestionDecision E doc d uuid = Inr (doc', rep, ids)"
  obtains recorded r t where "find (\<lambda>x. isSameRecordedDecision E x d) (decisions_of doc) = Some recorded"
    and "resolveAppliedSourceIds E recorded = Inr ids" and "2 \<le> length ids" and "source_error doc ids = None"
    and "rep = uuid" and "uuid \<notin> card_id ` set (cards doc)" and "set ids \<subseteq> card_id ` set (cards doc)"
    and "card_id r = uuid" and "repOf r = Some (sortedUniqueIds E ids)"
    and "doc' = doc\<lparr>cards := map (merged_under (set ids) uuid) (cards doc) @ [r],
           mergeSuggestionDecisions := Some (map (synchronise (decision_key recorded) uuid t) (decisions_of doc))\<rparr>"
    and "trace_resolvedBy t = ByRepOf" and "set ids \<subseteq> set (trace_sourceCardIds t)"
proof -
  obtain recorded nextDoc n where a: "find (\<lambda>x. isSameRecordedDecision E x d) (decisions_of doc) = Some recorded"
    "resolveAppliedSourceIds E recorded = Inr ids" "2 \<le> length ids" "source_error doc ids = None"
    and m: "createRepresentativeMerge E doc ids (trim (editedText recorded)) False uuid = Some (nextDoc, rep, n)"
    and doc': "doc' = nextDoc\<lparr>mergeSuggestionDecisions := Some (map (synchronise (decision_key recorded) rep
           (resolveRepresentativeOriginTrace E nextDoc rep)) (decisions_of nextDoc))\<rparr>"
    using assms by (rule apply_cases) blast
  note e = createRepresentativeMerge_Some [OF m]
  define r where "r = representative_card E (sortedUniqueIds E ids) (filter (\<lambda>c. card_id c \<in> set ids) (cards doc)) uuid
    (trim (trim (editedText recorded)))"
  have r: "card_id r = uuid" "repOf r = Some (sortedUniqueIds E ids)" by (simp_all add: r_def representative_card_def)
  have cs: "cards nextDoc = map (merged_under (set ids) uuid) (cards doc) @ [r]"
    unfolding e(4) r_def merged_under_def by simp
  have next': "nextDoc = doc\<lparr>cards := map (merged_under (set ids) uuid) (cards doc) @ [r]\<rparr>"
    using cs unfolding e(4) by simp
  have sub: "set ids \<subseteq> card_id ` set (cards doc)"
  proof
    fix i assume "i \<in> set ids"
    then obtain c where c: "map_of (new_map (map (\<lambda>c. (card_id c, c)) (cards doc))) i = Some c"
      using source_error_None_iff_part [OF a(4)] by meson
    then show "i \<in> card_id ` set (cards doc)"
      using map_of_SomeD [OF c [unfolded map_of_new_map]] by auto
  qed
  have "find_by card_id (cards nextDoc) uuid = Some r"
    using iffD2 [OF find_by_None e(3)] r(1) unfolding cs
    by (simp add: find_by_append find_by_map_same_key [of card_id "merged_under (set ids) uuid"])
  moreover have "set (sortedUniqueIds E ids) \<subseteq> card_id ` set (cards nextDoc)"
    using sub unfolding cs by (auto simp: image_image)
  moreover have "sortedUniqueIds E ids \<noteq> []" using a(3) by auto
  ultimately have t: "trace_resolvedBy (resolveRepresentativeOriginTrace E nextDoc uuid) = ByRepOf"
    "set ids \<subseteq> set (trace_sourceCardIds (resolveRepresentativeOriginTrace E nextDoc uuid))"
    using trace_of_representative [of nextDoc uuid r "sortedUniqueIds E ids" E] r(2) by auto
  have "decisions_of nextDoc = decisions_of doc" by (simp add: next' decisions_of_def)
  then have "doc' = doc\<lparr>cards := map (merged_under (set ids) uuid) (cards doc) @ [r],
      mergeSuggestionDecisions := Some (map (synchronise (decision_key recorded) uuid
        (resolveRepresentativeOriginTrace E nextDoc uuid)) (decisions_of doc))\<rparr>"
    unfolding doc' e(1) by (simp add: next')
  then show thesis
    using that [OF a e(1) e(3) sub r] t by blast
qed

lemma apply_decision_once_parts:
  assumes "applyRecordedMergeSuggestionDecision E doc d uuid = Inr (doc', rep, ids)"
  shows "\<exists>recorded\<in>set (decisions_of doc). isSameRecordedDecision E recorded d \<and> action_of recorded \<in> {Accept, Partial} \<and>
      2 \<le> length ids \<and> set ids \<subseteq> set (dec_cardIds recorded)"
    and "islands doc' = islands doc \<and> edges doc' = edges doc \<and> evidenceLinks doc' = evidenceLinks doc"
    and "\<exists>r. cards doc' = map (merged_under (set ids) rep) (cards doc) @ [r] \<and> card_id r = rep \<and> repOf r = Some (sortedUniqueIds E ids)"
    and "\<forall>x\<in>set (decisions_of doc'). decision_key x = decision_key d \<longrightarrow> representativeCardId x = Some rep \<and>
      representativeResolvedBy x = Some ByRepOf \<and> set ids \<subseteq> set (nullish (sourceCardIds x) [])"
    and "applyRecordedMergeSuggestionDecision E doc' d uuid' = Inl Source_card_already_merged"
proof -
  obtain recorded r t where a: "find (\<lambda>x. isSameRecordedDecision E x d) (decisions_of doc) = Some recorded"
    "resolveAppliedSourceIds E recorded = Inr ids" "2 \<le> length ids" "source_error doc ids = None"
    "rep = uuid" "uuid \<notin> card_id ` set (cards doc)" "set ids \<subseteq> card_id ` set (cards doc)" "card_id r = uuid" "repOf r = Some (sortedUniqueIds E ids)"
    and doc': "doc' = doc\<lparr>cards := map (merged_under (set ids) uuid) (cards doc) @ [r],
           mergeSuggestionDecisions := Some (map (synchronise (decision_key recorded) uuid t) (decisions_of doc))\<rparr>"
    and t: "trace_resolvedBy t = ByRepOf" "set ids \<subseteq> set (trace_sourceCardIds t)"
    using assms by (rule apply_document) blast
  have rec: "recorded \<in> set (decisions_of doc)" "isSameRecordedDecision E recorded d"
    using a(1) by (auto simp: find_Some_iff)
  then show "\<exists>recorded\<in>set (decisions_of doc). isSameRecordedDecision E recorded d \<and> action_of recorded \<in> {Accept, Partial} \<and>
      2 \<le> length ids \<and> set ids \<subseteq> set (dec_cardIds recorded)"
    using resolveApplied_Inr [OF a(2)] a(3) by blast
  show "islands doc' = islands doc \<and> edges doc' = edges doc \<and> evidenceLinks doc' = evidenceLinks doc" by (simp add: doc')
  show "\<exists>r. cards doc' = map (merged_under (set ids) rep) (cards doc) @ [r] \<and> card_id r = rep \<and> repOf r = Some (sortedUniqueIds E ids)"
    using a(5,8,9) by (simp add: doc')
  have key: "decision_key recorded = decision_key d" using rec(2) by (simp add: isSameRecordedDecision_def)
  have ds: "decisions_of doc' = map (synchronise (decision_key d) uuid t) (decisions_of doc)"
    by (simp add: doc' decisions_of_def key)
  show "\<forall>x\<in>set (decisions_of doc'). decision_key x = decision_key d \<longrightarrow> representativeCardId x = Some rep \<and>
      representativeResolvedBy x = Some ByRepOf \<and> set ids \<subseteq> set (nullish (sourceCardIds x) [])"
    unfolding ds using t a(5) by (auto simp: synchronise_def)
  have "source_error doc' ids = Some Source_card_already_merged"
    using a(3,4,6,7,8) by (intro source_error_merged [where S = "set ids" and rep = uuid and r = r and doc = doc]) (auto simp: doc')
  then show "applyRecordedMergeSuggestionDecision E doc' d uuid' = Inl Source_card_already_merged"
    using a(1-3) by (simp add: applyRecordedMergeSuggestionDecision_def ds find_synchronise)
qed

text \<open>C27. Applying a recorded decision. It takes a decision that is in the log and was accepted or partly accepted, merges
  at least two of the cards it names, changes no island, edge or evidence link and no other card, and brings the log
  entry up to date: it names the new representative, resolved by its own lineage, with every merged card among its
  sources. Applying the same decision again is refused because its cards are already merged, whatever new identifier is
  offered.\<close>

theorem apply_decision_once:
  assumes "applyRecordedMergeSuggestionDecision E doc d uuid = Inr (doc', rep, ids)"
  shows "(\<exists>recorded\<in>set (decisions_of doc). isSameRecordedDecision E recorded d \<and> action_of recorded \<in> {Accept, Partial} \<and>
      2 \<le> length ids \<and> set ids \<subseteq> set (dec_cardIds recorded))
    \<and> (islands doc' = islands doc \<and> edges doc' = edges doc \<and> evidenceLinks doc' = evidenceLinks doc)
    \<and> (\<exists>r. cards doc' = map (merged_under (set ids) rep) (cards doc) @ [r] \<and> card_id r = rep \<and> repOf r = Some (sortedUniqueIds E ids))
    \<and> (\<forall>x\<in>set (decisions_of doc'). decision_key x = decision_key d \<longrightarrow> representativeCardId x = Some rep \<and>
      representativeResolvedBy x = Some ByRepOf \<and> set ids \<subseteq> set (nullish (sourceCardIds x) []))
    \<and> (applyRecordedMergeSuggestionDecision E doc' d uuid' = Inl Source_card_already_merged)"
  using apply_decision_once_parts [OF assms] by blast

section \<open>The audit view is stable\<close>

lemma audit_of_snapshot: "representativeCardId d \<noteq> None \<Longrightarrow> audit_of E doc d = audit_of E doc' d"
  by (auto simp: audit_of_def Let_def)

lemma audit_le_synchronise: "audit_le E (synchronise k r t a) (synchronise k r t b) = audit_le E a b"
  by (simp add: audit_le_def)

text \<open>The audit view of decisions that carry a snapshot never changes behind the user's back: it does not depend on
  the cards, edges or islands of the document; recording another decision adds one entry and keeps the others; and
  applying a decision keeps every entry except those of that decision, which then name the representative it made.\<close>

theorem audit_stable:
  assumes "\<forall>d\<in>set (decisions_of doc). representativeCardId d \<noteq> None"
  shows "decisions_of doc' = decisions_of doc \<Longrightarrow> buildMergeDecisionAuditEntries E doc' = buildMergeDecisionAuditEntries E doc"
    and "appendMergeSuggestionDecision E doc inp newId now = Inr doc' \<Longrightarrow>
      \<exists>a. mset (buildMergeDecisionAuditEntries E doc') = add_mset a (mset (buildMergeDecisionAuditEntries E doc))"
    and "applyRecordedMergeSuggestionDecision E doc d uuid = Inr (doc', rep, ids) \<Longrightarrow>
      list_all2 (\<lambda>a a'. a' = a \<or> trace_representativeCardId (audit_trace a') = rep \<and>
          (\<exists>x\<in>set (decisions_of doc). decision_key x = decision_key d \<and> a = audit_of E doc x))
        (buildMergeDecisionAuditEntries E doc) (buildMergeDecisionAuditEntries E doc')"
proof -
  have same: "map (audit_of E doc') (sort_by (audit_le E) (decisions_of doc)) = buildMergeDecisionAuditEntries E doc" for doc'
    using assms audit_of_snapshot by (auto simp: buildMergeDecisionAuditEntries_def)
  then show "decisions_of doc' = decisions_of doc \<Longrightarrow> buildMergeDecisionAuditEntries E doc' = buildMergeDecisionAuditEntries E doc"
    by (metis buildMergeDecisionAuditEntries_def)
  {
    assume "appendMergeSuggestionDecision E doc inp newId now = Inr doc'"
    then obtain x where "decisions_of doc' = decisions_of doc @ [x]"
      by (auto simp: appendMergeSuggestionDecision_def decisions_of_def Let_def split: if_splits sum.splits)
    then have "mset (buildMergeDecisionAuditEntries E doc') = add_mset (audit_of E doc' x) (mset (map (audit_of E doc') (decisions_of doc)))"
      by (simp add: buildMergeDecisionAuditEntries_def)
    also have "mset (map (audit_of E doc') (decisions_of doc)) = mset (buildMergeDecisionAuditEntries E doc)"
      unfolding same [of doc', symmetric] by simp
    finally show "\<exists>a. mset (buildMergeDecisionAuditEntries E doc') = add_mset a (mset (buildMergeDecisionAuditEntries E doc))" by blast
  }
  assume "applyRecordedMergeSuggestionDecision E doc d uuid = Inr (doc', rep, ids)"
  then obtain recorded r t where f: "find (\<lambda>x. isSameRecordedDecision E x d) (decisions_of doc) = Some recorded" and "rep = uuid"
    and doc': "doc' = doc\<lparr>cards := map (merged_under (set ids) uuid) (cards doc) @ [r],
           mergeSuggestionDecisions := Some (map (synchronise (decision_key recorded) uuid t) (decisions_of doc))\<rparr>"
    by (rule apply_document) blast
  have key: "decision_key recorded = decision_key d" using f by (auto simp: find_Some_iff isSameRecordedDecision_def)
  have sorted: "sort_by (audit_le E) (map (synchronise k q t) ds) = map (synchronise k q t) (sort_by (audit_le E) ds)" for k q ds
    by (rule sort_by_map) (rule audit_le_synchronise)
  have "buildMergeDecisionAuditEntries E doc' = map (audit_of E doc' \<circ> synchronise (decision_key d) rep t) (sort_by (audit_le E) (decisions_of doc))"
    by (simp add: buildMergeDecisionAuditEntries_def doc' decisions_of_def key \<open>rep = uuid\<close> sorted)
  moreover have "audit_of E doc' (synchronise (decision_key d) rep t x) = audit_of E doc x \<or>
      trace_representativeCardId (audit_trace (audit_of E doc' (synchronise (decision_key d) rep t x))) = rep \<and> decision_key x = decision_key d"
    if "x \<in> set (decisions_of doc)" for x
  proof (cases "decision_key x = decision_key d")
    case True
    then show ?thesis by (simp add: synchronise_def audit_of_def Let_def)
  next
    case False
    then show ?thesis using assms that audit_of_snapshot by (simp add: synchronise_def)
  qed
  ultimately show "list_all2 (\<lambda>a a'. a' = a \<or> trace_representativeCardId (audit_trace a') = rep \<and>
          (\<exists>x\<in>set (decisions_of doc). decision_key x = decision_key d \<and> a = audit_of E doc x))
        (buildMergeDecisionAuditEntries E doc) (buildMergeDecisionAuditEntries E doc')"
    by (auto simp: buildMergeDecisionAuditEntries_def list_all2_map1 list_all2_map2 list_all2_same)
qed

section \<open>A concrete decision\<close>

definition ex_input :: decision_input where
  "ex_input = \<lparr>input_groupId = ''g'', input_decision = Accept, input_cardIds = [''c2'', ''c1''], input_selectedCardIds = None,
     input_mergedTextDraft = ''a'', input_editedText = ''ab'', input_mergeMethod = NearDuplicate, input_rationale = None,
     input_decisionReason = None\<rparr>"

definition ex_decision :: merge_decision_entry where
  "ex_decision = decision_entry demo_engine ex_rep ex_input ''d1'' ''2026-01-01'' [''c1'', ''c2''] [''c1'', ''c2'']"

definition ex_logged :: document where
  "ex_logged = ex_rep\<lparr>mergeSuggestionDecisions := Some [ex_decision]\<rparr>"

lemma ex_append: "appendMergeSuggestionDecision demo_engine ex_rep ex_input ''d1'' ''2026-01-01'' = Inr ex_logged"
proof -
  have "sortedUniqueIds demo_engine [''c2'', ''c1''] = [''c1'', ''c2'']" by code_simp
  moreover have "decisions_of ex_rep = []" by (simp add: decisions_of_def ex_rep_def)
  moreover have "input_decision ex_input = Accept" "input_cardIds ex_input = [''c2'', ''c1'']"
    "trim (input_groupId ex_input) \<noteq> []" "trim (input_mergedTextDraft ex_input) \<noteq> []" "trim (input_editedText ex_input) \<noteq> []"
    by (simp_all add: ex_input_def trim_def js_ws_def)
  ultimately show ?thesis
    by (simp add: appendMergeSuggestionDecision_def resolveSelectedCardIds_def ex_logged_def ex_decision_def Let_def)
qed

lemma ex_applied: "\<exists>doc'. applyRecordedMergeSuggestionDecision demo_engine ex_logged ex_decision ''r'' = Inr (doc', ''r'', [''c1'', ''c2''])"
proof -
  have "(case applyRecordedMergeSuggestionDecision demo_engine ex_logged ex_decision ''r'' of
      Inr (doc', x, y) \<Rightarrow> x = ''r'' \<and> y = [''c1'', ''c2''] | _ \<Rightarrow> False)"
    by code_simp
  then show ?thesis by (auto split: sum.splits)
qed

theorem decision_append_outcome_witness:
  "\<exists>d. ex_logged = ex_rep\<lparr>mergeSuggestionDecisions := Some (decisions_of ex_rep @ [d])\<rparr> \<and> dec_id d = ''d1''"
  using decision_append_outcome ex_append by blast

theorem latest_decision_exact_witness: "is_latest [ex_decision] ''g'' ex_decision"
proof -
  have "map_of (getLatestMergeSuggestionDecisionByGroup (Some [ex_decision])) ''g'' = Some ex_decision"
    by (simp add: getLatestMergeSuggestionDecisionByGroup_def latest_step_def ex_decision_def decision_entry_def ex_input_def Let_def)
  with latest_decision_exact [of "Some [ex_decision]" "''g''"] show ?thesis by simp
qed

theorem apply_decision_once_witness:
  "\<exists>doc'. applyRecordedMergeSuggestionDecision demo_engine ex_logged ex_decision ''r'' = Inr (doc', ''r'', [''c1'', ''c2'']) \<and>
     applyRecordedMergeSuggestionDecision demo_engine doc' ex_decision ''s'' = Inl Source_card_already_merged"
  using ex_applied apply_decision_once by blast

theorem audit_stable_witness:
  "\<exists>a. mset (buildMergeDecisionAuditEntries demo_engine ex_logged) = add_mset a (mset (buildMergeDecisionAuditEntries demo_engine ex_rep))"
proof -
  have "\<forall>d\<in>set (decisions_of ex_rep). representativeCardId d \<noteq> None" by (simp add: decisions_of_def ex_rep_def)
  then show ?thesis by (rule audit_stable(2)) (rule ex_append)
qed

end
