(* ===== verification/Tie_Break.thy ===== *)
theory Tie_Break
  imports Patch_Core
begin

text \<open>
  \<open>domain/tiebreak/deterministic_tie_break.ts\<close>: choosing one polygon candidate by a list of metrics, the candidate
  identifier deciding ties, with an audit trail of every comparison. Metrics are numbers (\<open>rat\<close>, no \<open>NaN\<close>);
  \<open>localeCompare\<close> is part of the engine argument.
\<close>

datatype tie_break_key = Padding | Self_intersection | Area_delta | Vertex_count

definition DETERMINISTIC_TIE_BREAK_ORDER :: "tie_break_key list" where
  "DETERMINISTIC_TIE_BREAK_ORDER = [Padding, Self_intersection, Area_delta, Vertex_count]"

fun tie_break_key_str :: "tie_break_key \<Rightarrow> string" where
  "tie_break_key_str Padding = ''padding''"
| "tie_break_key_str Self_intersection = ''self_intersection''"
| "tie_break_key_str Area_delta = ''area_delta''"
| "tie_break_key_str Vertex_count = ''vertex_count''"

record tb_candidate =
  candidateId :: string
  outputPolygonHash :: string
  paddingViolationCount :: rat
  metrics :: "tie_break_key \<Rightarrow> rat"

record tb_audit =
  audit_step :: nat
  audit_key :: tie_break_key
  winnerMetric :: rat
  loserMetric :: rat
  winnerId :: string
  loserId :: string

record tb_result =
  winner :: tb_candidate
  appliedTieBreakOrder :: string
  auditTrail :: "tb_audit list"

definition asOrder :: "tie_break_key list \<Rightarrow> string" where
  "asOrder order = join_with ''>'' (map tie_break_key_str order)"

definition compareByKey :: "tb_candidate \<Rightarrow> tb_candidate \<Rightarrow> tie_break_key \<Rightarrow> rat" where
  "compareByKey left right k = (if metrics left k \<noteq> metrics right k then metrics left k - metrics right k else 0)"

definition audit_line :: "nat \<Rightarrow> tie_break_key \<Rightarrow> tb_candidate \<Rightarrow> tb_candidate \<Rightarrow> tb_audit" where
  "audit_line i k w l = \<lparr>audit_step = i, audit_key = k, winnerMetric = metrics w k, loserMetric = metrics l k,
     winnerId = candidateId w, loserId = candidateId l\<rparr>"

text \<open>The loop from position \<open>i\<close>; the result is the winner and the line pushed.\<close>

fun compare_from :: "js_engine \<Rightarrow> nat \<Rightarrow> tb_candidate \<Rightarrow> tb_candidate \<Rightarrow> tie_break_key list \<Rightarrow> tb_candidate \<times> tb_audit list" where
  "compare_from E i left right [] =
     (if eng_le E (candidateId left) (candidateId right) then (left, [audit_line (i + 1) Vertex_count left right])
      else (right, [audit_line (i + 1) Vertex_count right left]))"
| "compare_from E i left right (k # ks) =
     (let delta = compareByKey left right k in
      if delta \<noteq> 0 then (if delta < 0 then (left, [audit_line (i + 1) k left right]) else (right, [audit_line (i + 1) k right left]))
      else compare_from E (i + 1) left right ks)"

definition compareWithAudit :: "js_engine \<Rightarrow> tb_candidate \<Rightarrow> tb_candidate \<Rightarrow> tie_break_key list \<Rightarrow> tb_candidate \<times> tb_audit list" where
  "compareWithAudit E left right order = compare_from E 0 left right order"

definition pickDeterministicTieBreakWinner :: "js_engine \<Rightarrow> tb_candidate list \<Rightarrow> tie_break_key list \<Rightarrow> tb_result option" where
  "pickDeterministicTieBreakWinner E candidates order = (case candidates of
       [] \<Rightarrow> None
     | first # rest \<Rightarrow>
         (let (w, trail) = fold (\<lambda>c (w, trail). let (w', lines) = compareWithAudit E w c order in (w', trail @ lines)) rest (first, [])
          in Some \<lparr>winner = w, appliedTieBreakOrder = asOrder order, auditTrail = trail\<rparr>))"

record reproduction_evidence =
  inputHash :: string
  seed :: rat
  ev_appliedTieBreakOrder :: string
  ev_outputPolygonHash :: string
  ev_paddingViolationCount :: rat

definition toReproductionEvidence :: "string \<Rightarrow> rat \<Rightarrow> tb_result \<Rightarrow> reproduction_evidence" where
  "toReproductionEvidence h s r = \<lparr>inputHash = h, seed = s, ev_appliedTieBreakOrder = appliedTieBreakOrder r,
     ev_outputPolygonHash = outputPolygonHash (winner r), ev_paddingViolationCount = paddingViolationCount (winner r)\<rparr>"

section \<open>The winner is the least candidate\<close>

fun beats :: "js_engine \<Rightarrow> tie_break_key list \<Rightarrow> tb_candidate \<Rightarrow> tb_candidate \<Rightarrow> bool" where
  "beats E [] a b \<longleftrightarrow> eng_le E (candidateId a) (candidateId b)"
| "beats E (k # ks) a b \<longleftrightarrow> metrics a k < metrics b k \<or> metrics a k = metrics b k \<and> beats E ks a b"

lemma compare_from_winner: "fst (compare_from E i l r ks) = (if beats E ks l r then l else r)"
  by (induction ks arbitrary: i) (auto simp: compareByKey_def Let_def)

lemma compare_from_audit:
  "\<exists>k j. snd (compare_from E i l r ks) = [if beats E ks l r then audit_line j k l r else audit_line j k r l]"
  by (induction ks arbitrary: i) (auto simp: compareByKey_def Let_def)

lemma beats_order:
  assumes "strict_comparator (eng_le E)"
  shows "beats E ks a b \<or> beats E ks b a" and "beats E ks a b \<Longrightarrow> beats E ks b c \<Longrightarrow> beats E ks a c"
    and "beats E ks a b \<Longrightarrow> beats E ks b a \<Longrightarrow> candidateId a = candidateId b"
proof -
  note cmp = strict_comparator.axioms(1) [OF assms]
  show "beats E ks a b \<or> beats E ks b a" by (induction ks) (use comparator.le_total [OF cmp] in auto)
  show "beats E ks a b \<Longrightarrow> beats E ks b c \<Longrightarrow> beats E ks a c" by (induction ks) (use comparator.le_trans [OF cmp] in auto)
  show "beats E ks a b \<Longrightarrow> beats E ks b a \<Longrightarrow> candidateId a = candidateId b"
    by (induction ks) (use strict_comparator.le_antisym [OF assms] in auto)
qed

definition tb_step :: "js_engine \<Rightarrow> tie_break_key list \<Rightarrow> tb_candidate \<Rightarrow> tb_candidate \<times> tb_audit list \<Rightarrow> tb_candidate \<times> tb_audit list" where
  "tb_step E order c st =
     (fst (compareWithAudit E (fst st) c order), snd st @ snd (compareWithAudit E (fst st) c order))"

lemma pick_eq:
  "pickDeterministicTieBreakWinner E (c # cs) order =
     (let st = fold (tb_step E order) cs (c, []) in
      Some \<lparr>winner = fst st, appliedTieBreakOrder = asOrder order, auditTrail = snd st\<rparr>)"
proof -
  have "(\<lambda>c (w, trail). let (w', lines) = compareWithAudit E w c order in (w', trail @ lines)) = tb_step E order"
    by (auto simp: tb_step_def fun_eq_iff split: prod.splits)
  then show ?thesis by (simp add: pickDeterministicTieBreakWinner_def Let_def split: prod.splits)
qed

lemma tb_step_winner: "fst (tb_step E order c st) = (if beats E order (fst st) c then fst st else c)"
  by (simp add: tb_step_def compareWithAudit_def compare_from_winner)

lemma tb_step_audit:
  "\<exists>line. snd (tb_step E order c st) = snd st @ [line] \<and> winnerId line = candidateId (fst (tb_step E order c st)) \<and>
     {winnerId line, loserId line} = {candidateId (fst st), candidateId c}"
proof -
  obtain k j where "snd (compare_from E 0 (fst st) c order) =
      [if beats E order (fst st) c then audit_line j k (fst st) c else audit_line j k c (fst st)]"
    using compare_from_audit by blast
  then show ?thesis
    by (auto simp: tb_step_def compareWithAudit_def compare_from_winner audit_line_def)
qed

lemma tb_fold_winner:
  assumes "strict_comparator (eng_le E)"
  shows "fst (fold (tb_step E order) cs st) \<in> insert (fst st) (set cs) \<and>
    (\<forall>c\<in>insert (fst st) (set cs). beats E order (fst (fold (tb_step E order) cs st)) c)"
proof (induction cs arbitrary: st)
  case Nil
  then show ?case using beats_order(1) [OF assms, of order "fst st" "fst st"] by simp
next
  case (Cons c cs)
  let ?st = "tb_step E order c st"
  have w: "fst ?st \<in> {fst st, c}" "beats E order (fst ?st) (fst st)" "beats E order (fst ?st) c"
    using beats_order(1) [OF assms, of order] by (auto simp: tb_step_winner)
  define v where "v = fst (fold (tb_step E order) cs ?st)"
  have IH: "v \<in> insert (fst ?st) (set cs)" "\<forall>x\<in>insert (fst ?st) (set cs). beats E order v x"
    unfolding v_def using Cons.IH [of ?st] by blast+
  have v: "fst (fold (tb_step E order) (c # cs) st) = v" by (simp add: v_def)
  show ?case unfolding v
  proof (intro conjI ballI)
    show "v \<in> insert (fst st) (set (c # cs))" using IH(1) w(1) by auto
    fix x assume x: "x \<in> insert (fst st) (set (c # cs))"
    have "beats E order v (fst ?st)" using IH(2) by simp
    with IH(2) w(2,3) x show "beats E order v x" using beats_order(2) [OF assms] by (metis insert_iff list.set(2))
  qed
qed

lemma tb_fold_audit: "length (snd (fold (tb_step E order) cs st)) = length (snd st) + length cs"
proof (induction cs arbitrary: st)
  case (Cons c cs)
  then show ?case using tb_step_audit [of E order c st] by auto
qed simp

lemma tb_fold_last:
  "cs \<noteq> [] \<Longrightarrow> winnerId (last (snd (fold (tb_step E order) cs st))) = candidateId (fst (fold (tb_step E order) cs st))"
proof (induction cs rule: rev_induct)
  case (snoc c cs)
  then show ?case using tb_step_audit [of E order c "fold (tb_step E order) cs st"] by auto
qed simp

lemma tie_break_deterministic_parts:
  assumes "strict_comparator (eng_le E)"
  shows "pickDeterministicTieBreakWinner E cs order = None \<longleftrightarrow> cs = []"
    and "pickDeterministicTieBreakWinner E cs order = Some r \<Longrightarrow>
      winner r \<in> set cs \<and> (\<forall>c\<in>set cs. beats E order (winner r) c) \<and> length (auditTrail r) = length cs - 1 \<and>
      (2 \<le> length cs \<longrightarrow> winnerId (last (auditTrail r)) = candidateId (winner r))"
    and "pickDeterministicTieBreakWinner E cs order = Some r \<Longrightarrow> distinct (map candidateId cs) \<Longrightarrow> mset cs' = mset cs \<Longrightarrow>
      \<exists>r'. pickDeterministicTieBreakWinner E cs' order = Some r' \<and> winner r' = winner r"
proof -
  have none: "pickDeterministicTieBreakWinner E xs order = None \<longleftrightarrow> xs = []" for xs
    by (cases xs) (simp_all add: pickDeterministicTieBreakWinner_def split: prod.splits)
  then show "pickDeterministicTieBreakWinner E cs order = None \<longleftrightarrow> cs = []" .
  have some: "winner r \<in> set xs \<and> (\<forall>c\<in>set xs. beats E order (winner r) c) \<and> length (auditTrail r) = length xs - 1 \<and>
      (2 \<le> length xs \<longrightarrow> winnerId (last (auditTrail r)) = candidateId (winner r))"
    if r: "pickDeterministicTieBreakWinner E xs order = Some r" for xs r
  proof -
    obtain y ys where xs: "xs = y # ys" using none [of xs] r by (cases xs) auto
    have w: "winner r = fst (fold (tb_step E order) ys (y, []))" "auditTrail r = snd (fold (tb_step E order) ys (y, []))"
      using r unfolding xs pick_eq by (auto simp: Let_def)
    have "2 \<le> length xs \<longrightarrow> ys \<noteq> []" by (auto simp: xs)
    then show ?thesis
      using tb_fold_winner [OF assms, of order ys "(y, [])"] tb_fold_audit [of E order ys "(y, [])"] tb_fold_last [of ys E order "(y, [])"]
      unfolding w xs fst_conv snd_conv list.set by (metis add_diff_cancel_left' length_Cons list.size(3) plus_1_eq_Suc add_0)
  qed
  then show "pickDeterministicTieBreakWinner E cs order = Some r \<Longrightarrow>
      winner r \<in> set cs \<and> (\<forall>c\<in>set cs. beats E order (winner r) c) \<and> length (auditTrail r) = length cs - 1 \<and>
      (2 \<le> length cs \<longrightarrow> winnerId (last (auditTrail r)) = candidateId (winner r))" .
  assume r: "pickDeterministicTieBreakWinner E cs order = Some r" and d: "distinct (map candidateId cs)" and m: "mset cs' = mset cs"
  have s: "set cs' = set cs" using m by (rule mset_eq_setD)
  then have "cs' \<noteq> []" using none [of cs] r by auto
  then obtain r' where r': "pickDeterministicTieBreakWinner E cs' order = Some r'" using none [of cs'] by auto
  have "candidateId (winner r') = candidateId (winner r)"
    using some [OF r] some [OF r'] s beats_order(3) [OF assms] by metis
  then have "winner r' = winner r"
    using some [OF r] some [OF r'] s d by (auto simp: distinct_map inj_on_def)
  with r' show "\<exists>r'. pickDeterministicTieBreakWinner E cs' order = Some r' \<and> winner r' = winner r" by blast
qed

text \<open>The tie break is total and deterministic. It fails only without candidates; the winner is a candidate that is
  least in the given order of metrics, ties going to the least identifier; it does not depend on the order in which
  candidates with distinct identifiers are given; and the audit trail has one line per comparison, the last of which
  names the winner.\<close>

theorem tie_break_deterministic:
  assumes "strict_comparator (eng_le E)"
  shows "(pickDeterministicTieBreakWinner E cs order = None \<longleftrightarrow> cs = [])
    \<and> (pickDeterministicTieBreakWinner E cs order = Some r \<longrightarrow>
      winner r \<in> set cs \<and> (\<forall>c\<in>set cs. beats E order (winner r) c) \<and> length (auditTrail r) = length cs - 1 \<and>
      (2 \<le> length cs \<longrightarrow> winnerId (last (auditTrail r)) = candidateId (winner r)))
    \<and> (pickDeterministicTieBreakWinner E cs order = Some r \<longrightarrow> distinct (map candidateId cs) \<longrightarrow> mset cs' = mset cs \<longrightarrow>
      (\<exists>r'. pickDeterministicTieBreakWinner E cs' order = Some r' \<and> winner r' = winner r))"
  using tie_break_deterministic_parts(1) [OF assms, of cs order]
  by (rule conjI [OF _ conjI]) (rule impI, rule tie_break_deterministic_parts(2) [OF assms], assumption,
    intro impI, rule tie_break_deterministic_parts(3) [OF assms])

definition ex_candidate :: "string \<Rightarrow> rat \<Rightarrow> tb_candidate" where
  "ex_candidate i a = \<lparr>candidateId = i, outputPolygonHash = i, paddingViolationCount = 0,
     metrics = (\<lambda>k. if k = Area_delta then a else 0)\<rparr>"

text \<open>A tie decided by the identifier is reported under the metric \<open>vertex_count\<close>, on which the candidates agree.\<close>

lemma tie_reported_as_vertex_count:
  "map_option auditTrail (pickDeterministicTieBreakWinner demo_engine [ex_candidate ''a'' 1, ex_candidate ''b'' 1] DETERMINISTIC_TIE_BREAK_ORDER) =
   Some [\<lparr>audit_step = 5, audit_key = Vertex_count, winnerMetric = 0, loserMetric = 0, winnerId = ''a'', loserId = ''b''\<rparr>]"
  by (simp add: pickDeterministicTieBreakWinner_def compareWithAudit_def compareByKey_def audit_line_def ex_candidate_def
      DETERMINISTIC_TIE_BREAK_ORDER_def demo_engine_def)

theorem tie_break_deterministic_witness:
  "\<exists>r r'. pickDeterministicTieBreakWinner demo_engine [ex_candidate ''a'' 2, ex_candidate ''b'' 1] DETERMINISTIC_TIE_BREAK_ORDER = Some r \<and>
     pickDeterministicTieBreakWinner demo_engine [ex_candidate ''b'' 1, ex_candidate ''a'' 2] DETERMINISTIC_TIE_BREAK_ORDER = Some r' \<and>
     winner r' = winner r"
proof -
  have e: "strict_comparator (eng_le demo_engine)" by (simp add: demo_engine_def cu.strict_comparator_axioms)
  let ?cs = "[ex_candidate ''a'' 2, ex_candidate ''b'' 1]"
  obtain r where r: "pickDeterministicTieBreakWinner demo_engine ?cs DETERMINISTIC_TIE_BREAK_ORDER = Some r"
    using tie_break_deterministic [OF e, THEN conjunct1, of ?cs] by auto
  have "distinct (map candidateId ?cs)" "mset [ex_candidate ''b'' 1, ex_candidate ''a'' 2] = mset ?cs"
    by (simp_all add: ex_candidate_def)
  from tie_break_deterministic [OF e, THEN conjunct2, THEN conjunct2, rule_format, OF r this] r show ?thesis by blast
qed

end
