(* ===== verification/Transitions.thy ===== *)
theory Transitions
  imports Main
begin

text \<open>
  State machines of the front end. \<open>transition_system\<close> is the interface a component with state offers: which
  states it may start in and which steps it can take. Reachability and the invariant principle are proved once
  here; the components interpret the locale on their own step relations.
\<close>

locale transition_system =
  fixes start :: "'s \<Rightarrow> bool"
    and step :: "'s \<Rightarrow> 's \<Rightarrow> bool"
begin

inductive reachable :: "'s \<Rightarrow> bool" where
  init: "start s \<Longrightarrow> reachable s"
| move: "reachable s \<Longrightarrow> step s t \<Longrightarrow> reachable t"

lemma invariant:
  assumes "reachable s" and "\<And>s. start s \<Longrightarrow> I s" and "\<And>s t. reachable s \<Longrightarrow> I s \<Longrightarrow> step s t \<Longrightarrow> I t"
  shows "I s"
  using assms(1) by (induction rule: reachable.induct) (auto intro: assms(2,3))

lemma reachable_steps:
  assumes "reachable s" and "step\<^sup>*\<^sup>* s t"
  shows "reachable t"
  using assms(2,1) by (induction rule: rtranclp_induct) (auto intro: reachable.move)

lemma monotone:
  assumes "step\<^sup>*\<^sup>* s t" and "\<And>s t. step s t \<Longrightarrow> R s t" and "reflp R" and "transp R"
  shows "R s t"
  using assms(1) by (induction rule: rtranclp_induct) (auto intro: assms(2) reflpD [OF assms(3)] transpD [OF assms(4)])

end

end
