(* ===== verification/Patch_Workspace.thy ===== *)
theory Patch_Workspace
  imports Patch_Core JS_Strings Transitions
begin

text \<open>
  \<open>domain/patch/workspace/ce3_patch_workspace.ts\<close>: the candidate workspace, in which a reviewer records
  decisions on candidates, rolls them back and replays query presets. A decision record (a plain object) is an
  association list in insertion order; its keys are listed by \<open>own_keys\<close>. Candidate identifiers are assumed
  not to be names of \<open>Object.prototype\<close> properties.
\<close>

section \<open>Types\<close>

datatype workspace_decision = Adopt | RejectCandidate | Hold

datatype query_scope = ScopeAll | ScopeSelection | ScopeIsland

datatype workspace_phase = Idle | DecisionRecorded | PresetReplayed | RollbackReady | ErrorPhase

record candidate_preview =
  sourceSnippets :: "string list"
  draftText :: string
  preview_editedText :: "string option"

record candidate_item =
  cand_id :: string
  cand_label :: string
  cand_note :: "string option"
  cand_preview :: "candidate_preview option"

record candidate_diff_summary =
  additions :: nat
  removals :: nat
  hasChanges :: bool

record query_preset_input =
  scope :: query_scope
  depth :: js_num
  filters :: "string list"

type_synonym decisions = "(string \<times> workspace_decision) list"

record workspace_snapshot =
  snap_decisions :: decisions
  snap_selected :: "string option"
  snap_phase :: workspace_phase

datatype audit_reason = ReasonDecision | ReasonRollback

record workspace_audit_entry =
  aud_candidateId :: string
  aud_from :: workspace_decision
  aud_to :: workspace_decision
  aud_at :: string
  aud_reason :: audit_reason

record workspace_state =
  ws_decisions :: decisions
  selectedCandidateId :: "string option"
  rollbackStack :: "workspace_snapshot list"
  auditLog :: "workspace_audit_entry list"
  phase :: workspace_phase
  lastExecutedQuery :: "string option"
  failureMessage :: "string option"

section \<open>Queries\<close>

definition normalize_terms :: "js_engine \<Rightarrow> string list \<Rightarrow> string list" where
  "normalize_terms E xs =
     sort_by (eng_le E) (uniq (filter (\<lambda>item. length item > 0) (map (\<lambda>item. toLowerCase (trim item)) xs)))"

definition normalizeFilters :: "js_engine \<Rightarrow> string \<Rightarrow> string list" where
  "normalizeFilters E value = normalize_terms E (split_on (CHR '','') value)"

definition normalizePresetInput :: "js_engine \<Rightarrow> query_preset_input \<Rightarrow> query_preset_input" where
  "normalizePresetInput E preset =
     \<lparr>scope = scope preset,
      depth = Finite (case depth preset of Finite q \<Rightarrow> max 1 (of_int (floor q)) | _ \<Rightarrow> 1),
      filters = normalize_terms E (filters preset)\<rparr>"

fun scope_str :: "query_scope \<Rightarrow> string" where
  "scope_str ScopeAll = ''all''"
| "scope_str ScopeSelection = ''selection''"
| "scope_str ScopeIsland = ''island''"

definition preset_json :: "query_preset_input \<Rightarrow> json" where
  "preset_json p = JObj [(''scope'', JStr (scope_str (scope p))), (''depth'', JNum (depth p)), (''filters'', JArr (map JStr (filters p)))]"

definition normalizePresetQuery :: "js_engine \<Rightarrow> query_preset_input \<Rightarrow> string" where
  "normalizePresetQuery E preset = printJson (eng_num E) (preset_json (normalizePresetInput E preset))"

section \<open>Text difference of a candidate\<close>

definition tokenizeDiffText :: "string \<Rightarrow> string list" where
  "tokenizeDiffText text = filter (\<lambda>token. length token > 0) (split_ws (trim text))"

definition count_tokens :: "string list \<Rightarrow> (string \<times> nat) list" where
  "count_tokens tokens = fold (\<lambda>token m. AList.update token (nullish (map_of m token) 0 + 1) m) tokens []"

definition diff_step :: "(string \<times> nat) list \<Rightarrow> (string \<times> nat) list \<Rightarrow> string \<Rightarrow> nat \<times> nat \<Rightarrow> nat \<times> nat" where
  "diff_step beforeCount afterCount token acc =
     (let before = nullish (map_of beforeCount token) 0; after = nullish (map_of afterCount token) 0; (adds, rems) = acc
      in if after > before then (adds + (after - before), rems)
         else if before > after then (adds, rems + (before - after)) else (adds, rems))"

definition summarizeCandidatePatchDiff :: "candidate_preview \<Rightarrow> candidate_diff_summary" where
  "summarizeCandidatePatchDiff preview =
     (let beforeTokens = tokenizeDiffText (join_with '' '' (sourceSnippets preview));
          afterTokens = tokenizeDiffText (nullish (preview_editedText preview) (draftText preview));
          beforeCount = count_tokens beforeTokens;
          afterCount = count_tokens afterTokens;
          tokenSet = uniq (map fst beforeCount @ map fst afterCount);
          (adds, rems) = fold (diff_step beforeCount afterCount) tokenSet (0, 0)
      in \<lparr>additions = adds, removals = rems, hasChanges = (adds > 0 \<or> rems > 0)\<rparr>)"

section \<open>Workspace operations\<close>

definition buildInitialDecisions :: "candidate_item list \<Rightarrow> decisions" where
  "buildInitialDecisions candidates = new_map (map (\<lambda>c. (cand_id c, Hold)) candidates)"

definition snapshotState :: "workspace_state \<Rightarrow> workspace_snapshot" where
  "snapshotState s = \<lparr>snap_decisions = ws_decisions s, snap_selected = selectedCandidateId s, snap_phase = phase s\<rparr>"

definition first_id :: "candidate_item list \<Rightarrow> string option" where
  "first_id candidates = (case candidates of [] \<Rightarrow> None | c # _ \<Rightarrow> Some (cand_id c))"

definition buildInitialWorkspaceState :: "candidate_item list \<Rightarrow> workspace_state" where
  "buildInitialWorkspaceState candidates =
     \<lparr>ws_decisions = buildInitialDecisions candidates, selectedCandidateId = first_id candidates, rollbackStack = [],
      auditLog = [], phase = Idle, lastExecutedQuery = None, failureMessage = None\<rparr>"

definition syncWorkspaceCandidates :: "workspace_state \<Rightarrow> candidate_item list \<Rightarrow> workspace_state" where
  "syncWorkspaceCandidates s candidates =
     s\<lparr>ws_decisions := fold (\<lambda>c next. case map_of (ws_decisions s) (cand_id c) of
                                 None \<Rightarrow> next | Some d \<Rightarrow> AList.update (cand_id c) d next)
                        candidates (buildInitialDecisions candidates),
       selectedCandidateId :=
         (if truthy_str (selectedCandidateId s) \<and> list_ex (\<lambda>c. Some (cand_id c) = selectedCandidateId s) candidates
          then selectedCandidateId s else first_id candidates)\<rparr>"

definition decision_of :: "decisions \<Rightarrow> string \<Rightarrow> workspace_decision" where
  "decision_of ds i = nullish (map_of ds i) Hold"

definition commitWorkspaceDecision :: "workspace_state \<Rightarrow> string \<Rightarrow> workspace_decision \<Rightarrow> string \<Rightarrow> workspace_state" where
  "commitWorkspaceDecision s candidateId newDecision now =
     (let previousDecision = decision_of (ws_decisions s) candidateId in
      if previousDecision = newDecision
      then s\<lparr>phase := (if length (rollbackStack s) > 0 then RollbackReady else Idle), failureMessage := None\<rparr>
      else s\<lparr>ws_decisions := AList.update candidateId newDecision (ws_decisions s),
             rollbackStack := rollbackStack s @ [snapshotState s],
             auditLog := auditLog s @ [\<lparr>aud_candidateId = candidateId, aud_from = previousDecision, aud_to = newDecision,
                                        aud_at = now, aud_reason = ReasonDecision\<rparr>],
             phase := DecisionRecorded, failureMessage := None\<rparr>)"

definition rollback_entries :: "decisions \<Rightarrow> decisions \<Rightarrow> string \<Rightarrow> workspace_audit_entry list" where
  "rollback_entries cur snap now =
     concat (map (\<lambda>i. let from = decision_of cur i; to = decision_of snap i in
                      if from = to then [] else [\<lparr>aud_candidateId = i, aud_from = from, aud_to = to, aud_at = now, aud_reason = ReasonRollback\<rparr>])
                 (uniq (own_keys (map fst cur) @ own_keys (map fst snap))))"

definition rollbackWorkspaceDecision :: "workspace_state \<Rightarrow> string \<Rightarrow> workspace_state" where
  "rollbackWorkspaceDecision s now =
     (if rollbackStack s = [] then s\<lparr>phase := ErrorPhase, failureMessage := Some ''No rollback point available.''\<rparr>
      else let snapshot = last (rollbackStack s)
        in s\<lparr>ws_decisions := snap_decisions snapshot, selectedCandidateId := snap_selected snapshot,
             rollbackStack := butlast (rollbackStack s),
             auditLog := auditLog s @ rollback_entries (ws_decisions s) (snap_decisions snapshot) now,
             phase := (if length (rollbackStack s) > 1 then RollbackReady else Idle), failureMessage := None\<rparr>)"

definition replayPreset :: "js_engine \<Rightarrow> workspace_state \<Rightarrow> query_preset_input \<Rightarrow> bool \<Rightarrow> workspace_state" where
  "replayPreset E s preset hasCandidates =
     (if \<not> hasCandidates
      then s\<lparr>phase := ErrorPhase, failureMessage := Some ''No candidates available. Collect candidates before preset execution.''\<rparr>
      else s\<lparr>phase := PresetReplayed, lastExecutedQuery := Some (normalizePresetQuery E preset), failureMessage := None\<rparr>)"

section \<open>Runs\<close>

inductive ws_step :: "workspace_state \<Rightarrow> workspace_state \<Rightarrow> bool" where
  ws_sync: "ws_step s (syncWorkspaceCandidates s cs)"
| ws_commit: "ws_step s (commitWorkspaceDecision s i d now)"
| ws_rollback: "ws_step s (rollbackWorkspaceDecision s now)"
| ws_replay: "ws_step s (replayPreset E s p b)"

inductive ws_review_step :: "workspace_state \<Rightarrow> workspace_state \<Rightarrow> bool" where
  wr_commit: "ws_review_step s (commitWorkspaceDecision s i d now)"
| wr_rollback: "ws_review_step s (rollbackWorkspaceDecision s now)"
| wr_replay: "ws_review_step s (replayPreset E s p b)"

definition ws_start :: "workspace_state \<Rightarrow> bool" where
  "ws_start s \<longleftrightarrow> (\<exists>cs. s = buildInitialWorkspaceState cs)"

interpretation ws: transition_system ws_start ws_step .

lemma ws_review_step_is_step: "ws_review_step s t \<Longrightarrow> ws_step s t"
  by (auto elim!: ws_review_step.cases intro: ws_step.intros)

section \<open>Text difference: a multiset difference\<close>

lemma map_of_count_tokens: "nullish (map_of (count_tokens ts) t) 0 = count_list ts t"
proof -
  have "nullish (map_of (fold (\<lambda>token m. AList.update token (nullish (map_of m token) 0 + 1) m) ts m) t) 0 =
      nullish (map_of m t) 0 + count_list ts t" for m :: "(string \<times> nat) list"
    by (induction ts arbitrary: m) (simp_all add: update_conv')
  then show ?thesis by (simp add: count_tokens_def)
qed

lemma set_count_tokens: "fst ` set (count_tokens ts) = set ts"
proof -
  have "fst ` set (fold (\<lambda>token m. AList.update token (nullish (map_of m token) 0 + 1) m) ts m) = fst ` set m \<union> set ts" for m :: "(string \<times> nat) list"
    by (induction ts arbitrary: m) (auto simp: dom_update)
  then show ?thesis by (simp add: count_tokens_def)
qed

lemma fold_diff_step:
  "fold (diff_step (count_tokens b) (count_tokens a)) ts (m, n) =
     (m + sum_list (map (\<lambda>t. count_list a t - count_list b t) ts), n + sum_list (map (\<lambda>t. count_list b t - count_list a t) ts))"
  by (induction ts arbitrary: m n) (auto simp: diff_step_def Let_def map_of_count_tokens)

lemma count_mset_list: "count (mset xs) x = count_list xs x"
  by (induction xs) auto

lemma size_diff_mset:
  assumes "set a \<union> set b \<subseteq> S" "finite S"
  shows "size (mset a - mset b) = (\<Sum>t\<in>S. count_list a t - count_list b t)"
proof -
  have "size (mset a - mset b) = (\<Sum>t\<in>set_mset (mset a - mset b). count (mset a - mset b) t)"
    by (simp add: size_multiset_overloaded_eq)
  also have "\<dots> = (\<Sum>t\<in>S. count (mset a - mset b) t)"
    using assms in_diffD [of _ "mset a" "mset b"]
    by (intro sum.mono_neutral_left) (auto simp del: count_diff simp: count_eq_zero_iff)
  finally show ?thesis by (simp add: count_mset_list)
qed

lemma sum_uniq: "sum_list (map f (uniq xs)) = (\<Sum>x\<in>set xs. f x :: nat)"
  using sum_list_distinct_conv_sum_set [of "uniq xs" f] by simp

text \<open>The difference summary of a candidate is the multiset difference of the words before and after: so
  many words are added and removed as the two multisets differ by, and changes are reported exactly when the
  multisets are different.\<close>

theorem candidate_diff_is_multiset_difference:
  fixes p :: candidate_preview
  defines "before \<equiv> mset (tokenizeDiffText (join_with '' '' (sourceSnippets p)))"
    and "after \<equiv> mset (tokenizeDiffText (nullish (preview_editedText p) (draftText p)))"
  shows "summarizeCandidatePatchDiff p =
    \<lparr>additions = size (after - before), removals = size (before - after), hasChanges = (before \<noteq> after)\<rparr>"
proof -
  let ?b = "tokenizeDiffText (join_with '' '' (sourceSnippets p))"
  let ?a = "tokenizeDiffText (nullish (preview_editedText p) (draftText p))"
  have k: "set (map fst (count_tokens ?b) @ map fst (count_tokens ?a)) = set ?b \<union> set ?a"
    by (simp add: set_count_tokens)
  have a: "size (after - before) = (\<Sum>t\<in>set ?b \<union> set ?a. count_list ?a t - count_list ?b t)"
    and r: "size (before - after) = (\<Sum>t\<in>set ?b \<union> set ?a. count_list ?b t - count_list ?a t)"
    unfolding before_def after_def by (rule size_diff_mset; auto)+
  have "before \<noteq> after \<longleftrightarrow> size (after - before) > 0 \<or> size (before - after) > 0"
    by (auto simp: nonempty_has_size [symmetric] Diff_eq_empty_iff_mset subset_mset.antisym_conv)
  then show ?thesis
    unfolding summarizeCandidatePatchDiff_def Let_def fold_diff_step sum_uniq k a r by simp
qed

section \<open>Invariants of the workspace\<close>

definition ws_ok :: "workspace_state \<Rightarrow> bool" where
  "ws_ok s \<longleftrightarrow> (phase s = ErrorPhase \<longleftrightarrow> failureMessage s \<noteq> None) \<and>
     (phase s \<in> {RollbackReady, DecisionRecorded} \<longrightarrow> rollbackStack s \<noteq> []) \<and> distinct (map fst (ws_decisions s)) \<and>
     list_all (\<lambda>n. distinct (map fst (snap_decisions n))) (rollbackStack s)"

lemma distinct_initial_decisions [simp]: "distinct (map fst (buildInitialDecisions cs))"
  by (simp add: buildInitialDecisions_def)

lemma distinct_sync_fold:
  "distinct (map fst m) \<Longrightarrow> distinct (map fst (fold (\<lambda>c next. case f c of None \<Rightarrow> next | Some d \<Rightarrow> AList.update (cand_id c) d next) cs m))"
  by (induction cs arbitrary: m) (auto simp: distinct_update split: option.splits)

lemma ws_ok_initial: "ws_ok (buildInitialWorkspaceState cs)"
  by (simp add: ws_ok_def buildInitialWorkspaceState_def)

lemma last_butlast_list_all: "list_all P xs \<Longrightarrow> xs \<noteq> [] \<Longrightarrow> P (last xs) \<and> list_all P (butlast xs)"
  by (auto simp: list_all_iff dest: in_set_butlastD)

lemma butlast_not_Nil_iff: "butlast xs \<noteq> [] \<longleftrightarrow> length xs > 1"
  by (cases xs rule: rev_cases) auto

lemma ws_ok_step:
  assumes "ws_step s t" "ws_ok s"
  shows "ws_ok t"
  using assms
proof cases
  case (ws_sync cs)
  then show ?thesis using assms(2) by (auto simp: ws_ok_def syncWorkspaceCandidates_def intro: distinct_sync_fold)
next
  case (ws_commit i d now)
  then show ?thesis using assms(2)
    by (auto simp: ws_ok_def commitWorkspaceDecision_def snapshotState_def Let_def distinct_update)
next
  case (ws_rollback now)
  then show ?thesis using assms(2)
    by (cases "rollbackStack s = []")
      (auto simp: ws_ok_def rollbackWorkspaceDecision_def Let_def butlast_not_Nil_iff dest!: last_butlast_list_all)
next
  case (ws_replay E p b)
  then show ?thesis using assms(2) by (auto simp: ws_ok_def replayPreset_def)
qed

text \<open>C36. In every reachable workspace state, whatever the order of synchronisations, decisions, rollbacks and
  replays: a failure message is shown exactly in the error phase; a phase that offers a rollback has a rollback
  point; and the current and all saved decision records hold at most one decision per candidate.\<close>

theorem workspace_invariant: "ws.reachable s \<Longrightarrow> ws_ok s"
  by (rule ws.invariant) (auto simp: ws_start_def intro: ws_ok_initial ws_ok_step)

theorem workspace_invariant_witness:
  "ws_ok (rollbackWorkspaceDecision (commitWorkspaceDecision (buildInitialWorkspaceState []) ''a'' Adopt ''t'') ''u'')"
  by (rule workspace_invariant, rule ws.reachable.move [OF ws.reachable.move [OF ws.reachable.init ws_commit] ws_rollback])
    (auto simp: ws_start_def)

section \<open>Rollback\<close>

lemma decision_of_update: "decision_of (AList.update i d ds) j = (if j = i then d else decision_of ds j)"
  by (auto simp: decision_of_def update_conv')

lemma concat_one:
  assumes "distinct xs" "i \<in> set xs" "\<And>j. j \<in> set xs \<Longrightarrow> j \<noteq> i \<Longrightarrow> f j = []"
  shows "concat (map f xs) = f i"
  using assms
proof (induction xs)
  case (Cons x xs)
  show ?case
  proof (cases "x = i")
    case True
    then have "concat (map f xs) = []" using Cons.prems by auto
    with True show ?thesis by simp
  next
    case False
    then show ?thesis using Cons by auto
  qed
qed simp

text \<open>Round trip: rolling back a decision that changed something restores the decision record, the selection
  and the rollback points exactly, and the log then ends with the decision and the reverse entry.\<close>

theorem commit_rollback_roundtrip:
  assumes "decision_of (ws_decisions s) i \<noteq> d"
  shows "rollbackWorkspaceDecision (commitWorkspaceDecision s i d t) u =
    s\<lparr>auditLog := auditLog s @
        [\<lparr>aud_candidateId = i, aud_from = decision_of (ws_decisions s) i, aud_to = d, aud_at = t, aud_reason = ReasonDecision\<rparr>,
         \<lparr>aud_candidateId = i, aud_from = d, aud_to = decision_of (ws_decisions s) i, aud_at = u, aud_reason = ReasonRollback\<rparr>],
      phase := (if rollbackStack s = [] then Idle else RollbackReady), failureMessage := None\<rparr>"
proof -
  let ?ds = "ws_decisions s"
  let ?f = "\<lambda>j. let from = decision_of (AList.update i d ?ds) j; to = decision_of ?ds j in
      if from = to then [] else [\<lparr>aud_candidateId = j, aud_from = from, aud_to = to, aud_at = u, aud_reason = ReasonRollback\<rparr>]"
  have "rollback_entries (AList.update i d ?ds) ?ds u = ?f i"
    unfolding rollback_entries_def
    by (rule concat_one) (auto simp: decision_of_update Let_def dom_update)
  then have e: "rollback_entries (AList.update i d ?ds) ?ds u =
      [\<lparr>aud_candidateId = i, aud_from = d, aud_to = decision_of ?ds i, aud_at = u, aud_reason = ReasonRollback\<rparr>]"
    using assms by (auto simp: decision_of_update Let_def)
  show ?thesis
    using assms
    by (simp add: commitWorkspaceDecision_def Let_def rollbackWorkspaceDecision_def snapshotState_def e)
qed

theorem commit_rollback_roundtrip_witness:
  "ws_decisions (rollbackWorkspaceDecision (commitWorkspaceDecision (buildInitialWorkspaceState []) ''a'' Adopt ''t'') ''u'') = []"
  using commit_rollback_roundtrip [of "buildInitialWorkspaceState []" "''a''" Adopt "''t''" "''u''"]
  by (simp add: buildInitialWorkspaceState_def buildInitialDecisions_def new_map_def decision_of_def)

section \<open>The audit log explains the decisions\<close>

definition audit_value :: "workspace_audit_entry list \<Rightarrow> string \<Rightarrow> workspace_decision" where
  "audit_value es i = fold (\<lambda>e v. if aud_candidateId e = i then aud_to e else v) es Hold"

lemma audit_value_append: "audit_value (xs @ ys) i = fold (\<lambda>e v. if aud_candidateId e = i then aud_to e else v) ys (audit_value xs i)"
  by (simp add: audit_value_def)

lemma fold_rollback_entries:
  "distinct js \<Longrightarrow> fold (\<lambda>e v. if aud_candidateId e = i then aud_to e else v)
     (concat (map (\<lambda>j. let from = f j; to = g j in if from = to then [] else [\<lparr>aud_candidateId = j, aud_from = from, aud_to = to, aud_at = now, aud_reason = r\<rparr>]) js)) v
   = (if i \<in> set js \<and> f i \<noteq> g i then g i else v)"
  by (induction js arbitrary: v) (auto simp: Let_def)

lemma decision_of_absent: "i \<notin> fst ` set ds \<Longrightarrow> decision_of ds i = Hold"
  by (metis decision_of_def map_of_eq_None_iff nullish_simps(1))

lemma audit_rollback:
  "fold (\<lambda>e v. if aud_candidateId e = i then aud_to e else v) (rollback_entries cur snap now) (decision_of cur i) = decision_of snap i"
  unfolding rollback_entries_def by (subst fold_rollback_entries) (auto simp: decision_of_absent)

definition review_ok :: "candidate_item list \<Rightarrow> workspace_state \<Rightarrow> bool" where
  "review_ok cs s \<longleftrightarrow> (\<forall>i. decision_of (ws_decisions s) i = audit_value (auditLog s) i) \<and>
     (if rollbackStack s = [] then ws_decisions s else snap_decisions (hd (rollbackStack s))) = buildInitialDecisions cs"

lemma review_ok_initial: "review_ok cs (buildInitialWorkspaceState cs)"
proof -
  have "nullish (map_of (new_map (map (\<lambda>c. (cand_id c, Hold)) cs)) i) Hold = Hold" for i
    by (cases "map_of (new_map (map (\<lambda>c. (cand_id c, Hold)) cs)) i") (auto simp: map_of_new_map dest!: map_of_SomeD)
  then show ?thesis
    by (simp add: review_ok_def buildInitialWorkspaceState_def audit_value_def decision_of_def buildInitialDecisions_def)
qed

lemma review_ok_step:
  assumes "ws_review_step s t" "review_ok cs s"
  shows "review_ok cs t"
  using assms(1)
proof cases
  case (wr_commit i d now)
  then show ?thesis using assms(2)
    by (auto simp: review_ok_def commitWorkspaceDecision_def Let_def decision_of_update audit_value_append snapshotState_def hd_append split: if_splits)
next
  case (wr_rollback now)
  show ?thesis
  proof (cases "rollbackStack s" rule: rev_cases)
    case Nil
    then show ?thesis using wr_rollback assms(2) by (auto simp: review_ok_def rollbackWorkspaceDecision_def)
  next
    case (snoc xs n)
    then show ?thesis using wr_rollback assms(2)
      by (cases "xs = []") (simp_all add: review_ok_def rollbackWorkspaceDecision_def Let_def audit_value_append
          audit_rollback hd_append flip: assms(2) [unfolded review_ok_def, THEN conjunct1, rule_format])
  qed
next
  case (wr_replay E p b)
  then show ?thesis using assms(2) by (auto split: if_splits simp: review_ok_def replayPreset_def)
qed

lemma undo_all:
  "rollbackStack s \<noteq> [] \<Longrightarrow> ws_decisions (((\<lambda>s. rollbackWorkspaceDecision s u) ^^ length (rollbackStack s)) s) = snap_decisions (hd (rollbackStack s)) \<and>
     rollbackStack (((\<lambda>s. rollbackWorkspaceDecision s u) ^^ length (rollbackStack s)) s) = []"
proof (induction "rollbackStack s" arbitrary: s rule: rev_induct)
  case (snoc n xs)
  let ?r = "rollbackWorkspaceDecision s u"
  have r: "rollbackStack ?r = xs" "ws_decisions ?r = snap_decisions n"
    using snoc.hyps(2) [symmetric] by (auto simp: rollbackWorkspaceDecision_def Let_def)
  show ?case
  proof (cases "xs = []")
    case True
    then show ?thesis using r snoc.hyps(2) [symmetric] by simp
  next
    case False
    then show ?thesis
      using snoc.hyps(1) [of ?r] r snoc.hyps(2) [symmetric] by (simp add: hd_append funpow_Suc_right del: funpow.simps(2))
  qed
qed simp

text \<open>C35. Between two synchronisations the audit log explains the state: after any sequence of decisions,
  rollbacks and replays from the initial state, the decision on every candidate is the one its last log entry
  names (hold when it has none), and undoing as many times as there are rollback points returns to the initial
  decisions with no rollback point left.\<close>

theorem audit_log_explains_decisions:
  assumes "ws_review_step\<^sup>*\<^sup>* (buildInitialWorkspaceState cs) s"
  shows "(\<forall>i. decision_of (ws_decisions s) i = audit_value (auditLog s) i) \<and>
    ws_decisions (((\<lambda>s. rollbackWorkspaceDecision s u) ^^ length (rollbackStack s)) s) = buildInitialDecisions cs \<and>
    rollbackStack (((\<lambda>s. rollbackWorkspaceDecision s u) ^^ length (rollbackStack s)) s) = []"
proof -
  have "review_ok cs s"
    using assms by (induction rule: rtranclp_induct) (auto intro: review_ok_initial review_ok_step)
  then show ?thesis using undo_all [of s u] by (cases "rollbackStack s = []") (auto simp: review_ok_def)
qed

theorem audit_log_explains_decisions_witness:
  "decision_of (ws_decisions (commitWorkspaceDecision (buildInitialWorkspaceState []) ''a'' Adopt ''t'')) ''a'' =
     audit_value (auditLog (commitWorkspaceDecision (buildInitialWorkspaceState []) ''a'' Adopt ''t'')) ''a''"
  by (rule audit_log_explains_decisions [THEN conjunct1, rule_format, of "[]"]) (rule r_into_rtranclp, rule wr_commit)

section \<open>Normalised queries\<close>

lemma normalize_terms_cong:
  assumes "strict_comparator (eng_le E)" "(\<lambda>x. toLowerCase (trim x)) ` set xs - {[]} = (\<lambda>x. toLowerCase (trim x)) ` set ys - {[]}"
  shows "normalize_terms E xs = normalize_terms E ys"
  unfolding normalize_terms_def
  by (rule strict_comparator.sort_uniq_cong_set [OF assms(1)]) (use assms(2) in \<open>auto simp: set_eq_iff; blast\<close>)

definition query_terms :: "string list \<Rightarrow> string set" where
  "query_terms xs = (\<lambda>x. toLowerCase (trim x)) ` set xs - {[]}"

definition query_depth :: "js_num \<Rightarrow> int" where
  "query_depth n = (case n of Finite q \<Rightarrow> max 1 \<lfloor>q\<rfloor> | _ \<Rightarrow> 1)"

lemma set_normalize_terms: "set (normalize_terms E xs) = query_terms xs"
  by (auto simp: normalize_terms_def query_terms_def)

lemma scope_str_inject [simp]: "scope_str a = scope_str b \<longleftrightarrow> a = b"
  by (cases a; cases b) auto

lemma map_JStr_inject: "map JStr xs = map JStr ys \<longleftrightarrow> xs = ys"
  by (simp add: inj_map_eq_map inj_def)

lemma depth_normalized: "depth (normalizePresetInput E p) = Finite (of_int (query_depth (depth p)))"
proof (cases "depth p")
  case (Finite q)
  have "max (1 :: rat) (of_int \<lfloor>q\<rfloor>) = of_int (max 1 \<lfloor>q\<rfloor>)" by (simp add: of_int_max)
  then show ?thesis by (simp add: normalizePresetInput_def query_depth_def Finite)
qed (simp_all add: normalizePresetInput_def query_depth_def)

text \<open>The text under which a preset query is stored is canonical: two presets have the same text exactly when
  they have the same scope, the same depth after rounding down to an integer of at least one (a depth that is not
  finite counts as one), and the same filters up to case, surrounding white space, order, repetition and empty
  entries.\<close>

theorem preset_query_canonical:
  assumes "strict_comparator (eng_le E)" and "number_format (eng_num E)"
  shows "normalizePresetQuery E p = normalizePresetQuery E q \<longleftrightarrow>
    scope p = scope q \<and> query_depth (depth p) = query_depth (depth q) \<and> query_terms (filters p) = query_terms (filters q)"
proof -
  let ?n = "normalizePresetInput E"
  have fin: "finite_nums (preset_json (?n r))" for r
    by (simp add: preset_json_def depth_normalized list_all_iff)
  have "normalizePresetQuery E p = normalizePresetQuery E q \<longleftrightarrow> preset_json (?n p) = preset_json (?n q)"
    unfolding normalizePresetQuery_def
    using printJson_prefix [OF assms(2) fin fin, of "[]" "[]" p q] by (auto simp: delimited_def)
  also have "\<dots> \<longleftrightarrow> scope p = scope q \<and> query_depth (depth p) = query_depth (depth q) \<and>
      normalize_terms E (filters p) = normalize_terms E (filters q)"
    by (simp add: preset_json_def depth_normalized map_JStr_inject) (simp add: normalizePresetInput_def)
  also have "normalize_terms E (filters p) = normalize_terms E (filters q) \<longleftrightarrow> query_terms (filters p) = query_terms (filters q)"
    using normalize_terms_cong [OF assms(1), of "filters p" "filters q"] set_normalize_terms [of E "filters p"]
      set_normalize_terms [of E "filters q"] unfolding query_terms_def [symmetric] by argo
  finally show ?thesis .
qed

theorem preset_query_canonical_witness:
  "normalizePresetQuery demo_engine \<lparr>scope = ScopeAll, depth = NaN, filters = ['' Ab'', ''c'']\<rparr> =
   normalizePresetQuery demo_engine \<lparr>scope = ScopeAll, depth = Finite 1, filters = [''c'', ''AB '', '''', ''c'']\<rparr>"
proof -
  have "strict_comparator (eng_le demo_engine)" by (simp add: demo_engine_def cu.strict_comparator_axioms)
  moreover have "query_terms ['' Ab'', ''c''] = query_terms [''c'', ''AB '', '''', ''c'']" by code_simp
  ultimately show ?thesis using preset_query_canonical [of demo_engine] by (simp add: query_depth_def)
qed

end
