(* ===== verification/JS_Date.thy ===== *)
theory JS_Date
  imports JS_Text
begin

text \<open>
  Timestamps as the source uses them. A time value is an integer number of milliseconds since the epoch.
  \<open>toISOString\<close> is defined here; \<open>Date.parse\<close>, whose result on texts outside the ISO format is left to the
  engine, is an argument \<open>dateParse\<close> of the definitions that use it (\<open>None\<close> is \<open>NaN\<close>).
\<close>

definition civil_from_days :: "int \<Rightarrow> int \<times> int \<times> int" where
  "civil_from_days z0 =
     (let z = z0 + 719468; era = z div 146097; doe = z mod 146097;
          yoe = (doe - doe div 1460 + doe div 36524 - doe div 146096) div 365;
          doy = doe - (365 * yoe + yoe div 4 - yoe div 100);
          mp = (5 * doy + 2) div 153;
          d = doy - (153 * mp + 2) div 5 + 1;
          m = (if mp < 10 then mp + 3 else mp - 9)
      in (yoe + era * 400 + (if m \<le> 2 then 1 else 0), m, d))"

definition pad :: "nat \<Rightarrow> int \<Rightarrow> string" where
  "pad n v = padStart n (CHR ''0'') (nat_str (nat v))"

definition year_str :: "int \<Rightarrow> string" where
  "year_str y = (if 0 \<le> y \<and> y \<le> 9999 then pad 4 y else if y < 0 then ''-'' @ pad 6 (- y) else ''+'' @ pad 6 y)"

definition toISOString :: "int \<Rightarrow> string" where
  "toISOString t =
     (let days = t div 86400000; ms = t mod 86400000; (y, m, d) = civil_from_days days
      in year_str y @ ''-'' @ pad 2 m @ ''-'' @ pad 2 d @ ''T'' @ pad 2 (ms div 3600000) @ '':'' @
         pad 2 (ms div 60000 mod 60) @ '':'' @ pad 2 (ms div 1000 mod 60) @ ''.'' @ pad 3 (ms mod 1000) @ ''Z'')"

definition isCanonicalTimestamp :: "(string \<Rightarrow> int option) \<Rightarrow> string \<Rightarrow> bool" where
  "isCanonicalTimestamp dateParse value =
     (case dateParse value of None \<Rightarrow> False | Some timestamp \<Rightarrow> toISOString timestamp = value)"

definition parse_less :: "(string \<Rightarrow> int option) \<Rightarrow> string \<Rightarrow> string \<Rightarrow> bool" where
  "parse_less dateParse a b = (case (dateParse a, dateParse b) of (Some x, Some y) \<Rightarrow> x < y | _ \<Rightarrow> False)"

lemma epoch_text: "toISOString 0 = ''1970-01-01T00:00:00.000Z''"
  by code_simp

lemma leap_day_text: "toISOString 1709210096789 = ''2024-02-29T12:34:56.789Z''"
  by code_simp

lemma before_epoch_text: "toISOString (- 1) = ''1969-12-31T23:59:59.999Z''"
  by code_simp

end
