(* ===== verification/Inquiry_Journey.thy ===== *)
theory Inquiry_Journey
  imports Document_Model Keyed_Store JS_Date
begin

text \<open>
  \<open>domain/inquiry_journey.ts\<close>, first part: the journey of rounds, the collection of ancestors, and appending a
  round. Stages and statuses are strings, as the validator checks them at run time; an iteration is a finite
  number. The map from identifiers to rounds is an association list, as \<open>new Map\<close> builds it.
\<close>

section \<open>Types\<close>

definition INQUIRY_SCHEMA_VERSION :: string where
  "INQUIRY_SCHEMA_VERSION = ''1.0.0''"

definition ROUND_STAGES :: "string list" where
  "ROUND_STAGES = [''r1_problem_setting'', ''r2_situation_grasp'', ''r3_essence_pursuit'', ''r4_concept_planning'',
     ''r5_concrete_measures'', ''r6_procedure_planning'']"

definition ROUND_STATUSES :: "string list" where
  "ROUND_STATUSES = [''working'', ''paused'', ''handed_off'', ''superseded'']"

datatype artifact_kind = ArtCard | ArtIsland | ArtNarrative | ArtRelationSummary

record artifact_ref =
  ref_snapshotId :: string
  ref_kind :: artifact_kind
  ref_entityId :: string

record card_address =
  addr_snapshotId :: string
  addr_cardId :: string

datatype outcome_kind = Answered | NoResult | Unexpected

record fieldwork_outcome =
  outcome_kind_of :: outcome_kind
  responseCardRefs :: "card_address list"
  outcome_note :: "string option"

record fieldwork_request =
  requestId :: string
  question :: string
  outcome :: "fieldwork_outcome option"

record round_handoff =
  carryoverRefs :: "artifact_ref list"
  heldRefs :: "artifact_ref list"
  unresolvedQuestions :: "string list"
  fieldworkRequests :: "fieldwork_request list"
  understandingDelta :: "string option"

record round_record =
  roundId :: string
  round_createdAt :: string
  round_updatedAt :: string
  stage :: string
  iteration :: rat
  parentRoundIds :: "string list"
  status :: string
  theme :: string
  inputSnapshotIds :: "string list"
  outputSnapshotId :: "string option"
  handoff :: "round_handoff option"

record inquiry_journey =
  journey_schemaVersion :: string
  journeyId :: string
  journey_title :: string
  originSnapshotIds :: "string list"
  roundRecords :: "round_record list"
  headRoundIds :: "string list"
  defaultHeadRoundId :: "string option"
  journey_createdAt :: string
  journey_updatedAt :: string

datatype append_error = DuplicateRoundId | DuplicateParentRound | MissingParentRound | ParentWithoutSnapshot | InvalidTimestamp

type_synonym rounds_map = "(string \<times> round_record) list"

section \<open>Ancestors\<close>

definition findDuplicates :: "string list \<Rightarrow> string list" where
  "findDuplicates values =
     snd (fold (\<lambda>v (seen, duplicates). (js_add v seen, if v \<in> set seen then js_add v duplicates else duplicates)) values ([], []))"

definition parents_of :: "rounds_map \<Rightarrow> string \<Rightarrow> string list" where
  "parents_of m i = (case map_of m i of None \<Rightarrow> [] | Some r \<Rightarrow> parentRoundIds r)"

definition rounds_by_id :: "round_record list \<Rightarrow> rounds_map" where
  "rounds_by_id rs = new_map (map (\<lambda>r. (roundId r, r)) rs)"

definition all_parents :: "rounds_map \<Rightarrow> string set" where
  "all_parents m = (\<Union>x\<in>set m. set (parentRoundIds (snd x)))"

lemma finite_all_parents [simp]: "finite (all_parents m)"
  by (auto simp: all_parents_def)

lemma parents_in_all: "set (parents_of m i) \<subseteq> all_parents m"
  by (cases "map_of m i") (auto simp: parents_of_def all_parents_def dest: map_of_SomeD intro!: bexI)

function collect_loop :: "rounds_map \<Rightarrow> string list \<Rightarrow> string list \<Rightarrow> string list" where
  "collect_loop m ancestors pending =
     (if pending = [] then ancestors
      else let parentId = last pending; rest = butlast pending in
        if parentId \<in> set ancestors then collect_loop m ancestors rest
        else collect_loop m (js_add parentId ancestors) (rest @ parents_of m parentId))"
  by pat_completeness auto
termination
proof (relation "measures [\<lambda>(m, anc, pend). card ((set pend \<union> all_parents m) - set anc), \<lambda>(m, anc, pend). length pend]", goal_cases)
  case 1
  show ?case by (rule wf_measures)
next
  case (2 m anc pend x xa)
  have "(set xa \<union> all_parents m) - set anc \<subseteq> (set pend \<union> all_parents m) - set anc"
    using 2 by (auto dest: in_set_butlastD)
  then have "card ((set xa \<union> all_parents m) - set anc) \<le> card ((set pend \<union> all_parents m) - set anc)"
    by (intro card_mono) auto
  with 2 show ?case by (auto simp: le_less)
next
  case (3 m anc pend x xa)
  have "x \<in> set pend" using 3 last_in_set [of pend] by simp
  then have "(set (xa @ parents_of m x) \<union> all_parents m) - set (js_add x anc) \<subset> (set pend \<union> all_parents m) - set anc"
    using 3 parents_in_all [of m x] by (auto dest: in_set_butlastD)
  then have "card ((set (xa @ parents_of m x) \<union> all_parents m) - set (js_add x anc)) < card ((set pend \<union> all_parents m) - set anc)"
    by (intro psubset_card_mono) auto
  then show ?case by simp
qed

definition collectAncestorIds :: "string \<Rightarrow> rounds_map \<Rightarrow> string list" where
  "collectAncestorIds i m = collect_loop m [] (parents_of m i)"

definition max_iteration :: "rounds_map \<Rightarrow> string \<Rightarrow> string list \<Rightarrow> rat" where
  "max_iteration m stg ancestors =
     fold (\<lambda>a best. case map_of m a of
                      None \<Rightarrow> best
                    | Some r \<Rightarrow> if stage r = stg then max best (iteration r) else best) ancestors 0"

definition expectedIteration :: "round_record \<Rightarrow> rounds_map \<Rightarrow> rat" where
  "expectedIteration r m = max_iteration m (stage r) (collectAncestorIds (roundId r) m) + 1"

definition nextRoundIteration :: "inquiry_journey \<Rightarrow> string \<Rightarrow> string list \<Rightarrow> rat" where
  "nextRoundIteration journey stg parents =
     (let m = rounds_by_id (roundRecords journey);
          ancestors = fold (\<lambda>p anc. fold js_add (collectAncestorIds p m) (js_add p anc)) parents []
      in max_iteration m stg ancestors + 1)"

fun parent_check :: "rounds_map \<Rightarrow> string list \<Rightarrow> append_error option" where
  "parent_check m [] = None"
| "parent_check m (p # ps) =
     (case map_of m p of
        None \<Rightarrow> Some MissingParentRound
      | Some parent \<Rightarrow> if \<not> truthy_str (outputSnapshotId parent) then Some ParentWithoutSnapshot else parent_check m ps)"

definition appendRoundRecord ::
  "(string \<Rightarrow> int option) \<Rightarrow> inquiry_journey \<Rightarrow> round_record \<Rightarrow> append_error + inquiry_journey" where
  "appendRoundRecord dateParse journey rec =
     (let m = rounds_by_id (roundRecords journey) in
      if map_of m (roundId rec) \<noteq> None then Inl DuplicateRoundId
      else if findDuplicates (parentRoundIds rec) \<noteq> [] then Inl DuplicateParentRound
      else if \<not> isCanonicalTimestamp dateParse (round_createdAt rec) \<or> \<not> isCanonicalTimestamp dateParse (round_updatedAt rec) \<or>
              parse_less dateParse (round_updatedAt rec) (round_createdAt rec) \<or>
              parse_less dateParse (round_updatedAt rec) (journey_updatedAt journey) then Inl InvalidTimestamp
      else case parent_check m (parentRoundIds rec) of
        Some e \<Rightarrow> Inl e
      | None \<Rightarrow>
          Inr (journey\<lparr>roundRecords := roundRecords journey @
                         [rec\<lparr>iteration := nextRoundIteration journey (stage rec) (parentRoundIds rec)\<rparr>],
                       headRoundIds := filter (\<lambda>h. h \<notin> set (parentRoundIds rec)) (headRoundIds journey) @ [roundId rec],
                       defaultHeadRoundId := Some (roundId rec),
                       journey_updatedAt := round_updatedAt rec\<rparr>))"

section \<open>Ancestors are the transitive closure\<close>

definition parent_rel :: "rounds_map \<Rightarrow> (string \<times> string) set" where
  "parent_rel m = {(i, p). p \<in> set (parents_of m i)}"

declare collect_loop.simps [simp del]

lemma closed_reach:
  assumes "\<forall>a\<in>A. set (parents_of m a) \<subseteq> A \<union> P" "a \<in> A" "(a, x) \<in> (parent_rel m)\<^sup>*"
  shows "x \<in> A \<union> (parent_rel m)\<^sup>* `` P"
  using assms(3,2)
proof (induction rule: rtrancl_induct)
  case (step y z)
  then consider "y \<in> A" | q where "q \<in> P" "(q, y) \<in> (parent_rel m)\<^sup>*" by auto
  then show ?case
  proof cases
    case 1
    with step.hyps(2) assms(1) have "z \<in> A \<union> P" by (auto simp: parent_rel_def)
    then show ?thesis by auto
  next
    case 2
    with step.hyps(2) show ?thesis by (auto intro: rtrancl_into_rtrancl)
  qed
qed simp

lemma collect_loop_correct:
  "\<forall>a\<in>set anc. set (parents_of m a) \<subseteq> set anc \<union> set pend \<Longrightarrow>
   set (collect_loop m anc pend) = set anc \<union> (parent_rel m)\<^sup>* `` set pend"
proof (induction m anc pend rule: collect_loop.induct)
  case (1 m anc pend)
  note IH = 1(1,2) and closed = 1(3)
  show ?case
  proof (cases "pend = []")
    case True
    then show ?thesis by (simp add: collect_loop.simps)
  next
    case False
    let ?p = "last pend" and ?rest = "butlast pend"
    have pend: "set pend = insert ?p (set ?rest)"
      using False by (metis append_butlast_last_id list.simps(15) rotate1.simps(2) set_rotate1)
    show ?thesis
    proof (cases "?p \<in> set anc")
      case True
      have rest: "\<forall>a\<in>set anc. set (parents_of m a) \<subseteq> set anc \<union> set ?rest" using closed pend True by auto
      from IH(1) [OF False refl refl True rest] have "set (collect_loop m anc pend) = set anc \<union> (parent_rel m)\<^sup>* `` set ?rest"
        using False True by (subst collect_loop.simps) (simp add: Let_def)
      then show ?thesis using closed_reach [OF rest True] unfolding pend by blast
    next
      case new: False
      have "\<forall>a\<in>set (js_add ?p anc). set (parents_of m a) \<subseteq> set (js_add ?p anc) \<union> set (?rest @ parents_of m ?p)"
        using closed pend by auto
      from IH(2) [OF False refl refl new this]
      have "set (collect_loop m anc pend) = insert ?p (set anc) \<union> (parent_rel m)\<^sup>* `` (set ?rest \<union> set (parents_of m ?p))"
        using False new by (subst collect_loop.simps) (simp add: Let_def)
      moreover have "(parent_rel m)\<^sup>* `` {?p} = insert ?p ((parent_rel m)\<^sup>* `` set (parents_of m ?p))"
        by (auto simp: parent_rel_def intro: converse_rtrancl_into_rtrancl elim: converse_rtranclE)
      ultimately show ?thesis unfolding pend by blast
    qed
  qed
qed

lemma set_collectAncestorIds: "set (collectAncestorIds i m) = {a. (i, a) \<in> (parent_rel m)\<^sup>+}"
proof -
  have "set (collectAncestorIds i m) = (parent_rel m)\<^sup>* `` set (parents_of m i)"
    unfolding collectAncestorIds_def using collect_loop_correct [of "[]" m "parents_of m i"] by simp
  then show ?thesis by (auto simp: parent_rel_def trancl_unfold_left)
qed

section \<open>Iterations\<close>

definition same_stage :: "rounds_map \<Rightarrow> string \<Rightarrow> string set \<Rightarrow> rat set" where
  "same_stage m stg A = {iteration r | a r. a \<in> A \<and> map_of m a = Some r \<and> stage r = stg}"

lemma same_stage_insert:
  "same_stage m stg (insert a A) =
     (case map_of m a of None \<Rightarrow> {} | Some r \<Rightarrow> if stage r = stg then {iteration r} else {}) \<union> same_stage m stg A"
  by (auto simp: same_stage_def split: option.splits)

lemma same_stage_empty [simp]: "same_stage m stg {} = {}"
  by (simp add: same_stage_def)

lemma finite_same_stage [simp]: "finite A \<Longrightarrow> finite (same_stage m stg A)"
  by (induction rule: finite_induct) (auto simp: same_stage_insert split: option.splits)

lemma max_iteration_Max: "max_iteration m stg xs = Max (insert 0 (same_stage m stg (set xs)))"
proof -
  have "fold (\<lambda>a best. case map_of m a of None \<Rightarrow> best | Some r \<Rightarrow> if stage r = stg then max best (iteration r) else best) xs b =
      Max (insert b (same_stage m stg (set xs)))" for b
  proof (induction xs arbitrary: b)
    case (Cons a xs)
    show ?case
    proof (cases "\<exists>r. map_of m a = Some r \<and> stage r = stg")
      case True
      then obtain r where "map_of m a = Some r" "stage r = stg" by blast
      moreover have "Max (insert (max b x) S) = Max (insert b (insert x S))" if "finite S" for x and S :: "rat set"
        by (cases "S = {}") (use that in \<open>auto simp: max.assoc Max_insert\<close>)
      ultimately show ?thesis using Cons by (simp add: same_stage_insert)
    next
      case False
      then show ?thesis using Cons by (auto simp: same_stage_insert split: option.splits)
    qed
  qed simp
  then show ?thesis by (simp add: max_iteration_def)
qed

lemma set_next_ancestors:
  "set (fold (\<lambda>p anc. fold js_add (collectAncestorIds p m) (js_add p anc)) ps anc) =
     set anc \<union> (\<Union>p\<in>set ps. insert p {a. (p, a) \<in> (parent_rel m)\<^sup>+})"
  by (induction ps arbitrary: anc) (auto simp: set_collectAncestorIds)

lemma nextRoundIteration_eq:
  "nextRoundIteration j stg ps = Max (insert 0 (same_stage (rounds_by_id (roundRecords j)) stg
     (\<Union>p\<in>set ps. insert p {a. (p, a) \<in> (parent_rel (rounds_by_id (roundRecords j)))\<^sup>+}))) + 1"
  by (simp add: nextRoundIteration_def Let_def max_iteration_Max set_next_ancestors)

lemma expectedIteration_eq:
  "expectedIteration r m = Max (insert 0 (same_stage m (stage r) {a. (roundId r, a) \<in> (parent_rel m)\<^sup>+})) + 1"
  by (simp add: expectedIteration_def max_iteration_Max set_collectAncestorIds)

section \<open>Adding a round\<close>

lemma map_of_rounds_by_id:
  assumes "distinct (map roundId rs)"
  shows "map_of (rounds_by_id rs) i = Some r \<longleftrightarrow> r \<in> set rs \<and> roundId r = i"
proof -
  have "distinct (map fst (map (\<lambda>r. (roundId r, r)) rs))" using assms by (simp add: o_def)
  from map_of_new_map_distinct [OF this] show ?thesis
    unfolding rounds_by_id_def using assms by (auto simp: o_def map_of_eq_Some_iff)
qed

lemma rounds_by_id_snoc: "map_of (rounds_by_id (rs @ [r])) = (map_of (rounds_by_id rs))(roundId r \<mapsto> r)"
  by (simp add: rounds_by_id_def map_of_new_map fun_eq_iff)

lemma dom_rounds_by_id: "dom (map_of (rounds_by_id rs)) = roundId ` set rs"
  by (simp add: rounds_by_id_def dom_map_of_conv_image_fst image_image)

lemma findDuplicates_Nil: "findDuplicates xs = [] \<longleftrightarrow> distinct xs"
proof -
  have "snd (fold (\<lambda>v (seen, dups). (js_add v seen, if v \<in> set seen then js_add v dups else dups)) xs (s, d)) = [] \<longleftrightarrow>
      d = [] \<and> distinct xs \<and> set xs \<inter> set s = {}" for s d :: "string list"
    by (induction xs arbitrary: s d) (auto simp: js_add_def)
  from this [of "[]" "[]"] show ?thesis by (simp add: findDuplicates_def)
qed

lemma parent_check_None:
  "parent_check m ps = None \<longleftrightarrow> (\<forall>p\<in>set ps. \<exists>r. map_of m p = Some r \<and> truthy_str (outputSnapshotId r))"
  by (induction ps) (auto split: option.splits)

definition leaves :: "round_record list \<Rightarrow> string set" where
  "leaves rs = roundId ` set rs - (\<Union>r\<in>set rs. set (parentRoundIds r))"

definition times_ok :: "(string \<Rightarrow> int option) \<Rightarrow> string \<Rightarrow> string \<Rightarrow> bool" where
  "times_ok dp created updated \<longleftrightarrow>
     isCanonicalTimestamp dp created \<and> isCanonicalTimestamp dp updated \<and> \<not> parse_less dp updated created"

definition rounds_consistent :: "round_record list \<Rightarrow> bool" where
  "rounds_consistent rs \<longleftrightarrow> distinct (map roundId rs) \<and>
     (\<forall>r\<in>set rs. distinct (parentRoundIds r) \<and> set (parentRoundIds r) \<subseteq> roundId ` set rs) \<and>
     acyclic (parent_rel (rounds_by_id rs)) \<and>
     (\<forall>r\<in>set rs. iteration r = expectedIteration r (rounds_by_id rs))"

definition round_rel :: "round_record list \<Rightarrow> (string \<times> string) set" where
  "round_rel rs = {(roundId r, p) | r p. r \<in> set rs \<and> p \<in> set (parentRoundIds r)}"

definition rounds_ok :: "round_record list \<Rightarrow> bool" where
  "rounds_ok rs \<longleftrightarrow> distinct (map roundId rs) \<and>
     (\<forall>r\<in>set rs. distinct (parentRoundIds r) \<and> set (parentRoundIds r) \<subseteq> roundId ` set rs) \<and>
     acyclic (round_rel rs) \<and>
     (\<forall>r\<in>set rs. iteration r = Max (insert 0 {iteration q | q. q \<in> set rs \<and> (roundId r, roundId q) \<in> (round_rel rs)\<^sup>+ \<and> stage q = stage r}) + 1)"

lemma parent_rel_iff: "(i, p) \<in> parent_rel m \<longleftrightarrow> (\<exists>r. map_of m i = Some r \<and> p \<in> set (parentRoundIds r))"
  by (cases "map_of m i") (auto simp: parent_rel_def parents_of_def)

lemma parent_rel_rounds:
  assumes "distinct (map roundId rs)"
  shows "parent_rel (rounds_by_id rs) = round_rel rs"
  unfolding set_eq_iff split_paired_All parent_rel_iff map_of_rounds_by_id [OF assms] round_rel_def by blast

lemma same_stage_rounds:
  assumes "distinct (map roundId rs)"
  shows "same_stage (rounds_by_id rs) stg A = {iteration q | q. q \<in> set rs \<and> roundId q \<in> A \<and> stage q = stg}"
  unfolding same_stage_def map_of_rounds_by_id [OF assms] by blast

lemma rounds_ok_iff: "rounds_ok rs \<longleftrightarrow> rounds_consistent rs"
proof (cases "distinct (map roundId rs)")
  case True
  show ?thesis
    unfolding rounds_ok_def rounds_consistent_def expectedIteration_eq parent_rel_rounds [OF True] same_stage_rounds [OF True] mem_Collect_eq ..
next
  case False
  then show ?thesis by (simp add: rounds_ok_def rounds_consistent_def)
qed

definition journey_ok :: "(string \<Rightarrow> int option) \<Rightarrow> inquiry_journey \<Rightarrow> bool" where
  "journey_ok dp j \<longleftrightarrow> rounds_ok (roundRecords j) \<and>
     distinct (headRoundIds j) \<and> set (headRoundIds j) = leaves (roundRecords j) \<and>
     (\<forall>h. defaultHeadRoundId j = Some h \<longrightarrow> h \<in> set (headRoundIds j)) \<and>
     times_ok dp (journey_createdAt j) (journey_updatedAt j) \<and>
     (\<forall>r\<in>set (roundRecords j). times_ok dp (round_createdAt r) (round_updatedAt r))"

lemma parent_rel_snoc:
  assumes "roundId r \<notin> roundId ` set rs"
  shows "parent_rel (rounds_by_id (rs @ [r])) = parent_rel (rounds_by_id rs) \<union> {roundId r} \<times> set (parentRoundIds r)"
proof -
  have "map_of (rounds_by_id rs) (roundId r) = None"
    using assms dom_rounds_by_id [of rs] by blast
  then show ?thesis by (auto simp: parent_rel_def parents_of_def rounds_by_id_snoc split: if_splits)
qed

lemma parent_rel_range:
  assumes "distinct (map roundId rs)" "(i, p) \<in> parent_rel (rounds_by_id rs)"
  shows "i \<in> roundId ` set rs \<and> (\<exists>r\<in>set rs. roundId r = i \<and> p \<in> set (parentRoundIds r))"
proof -
  from assms(2) obtain r where "map_of (rounds_by_id rs) i = Some r" "p \<in> set (parentRoundIds r)"
    by (cases "map_of (rounds_by_id rs) i") (auto simp: parent_rel_def parents_of_def)
  then show ?thesis using map_of_rounds_by_id [OF assms(1)] by auto
qed

text \<open>Transitive closure after adding edges out of a fresh node that nothing points to.\<close>

lemma trancl_fresh_source:
  assumes "\<And>i p. (i, p) \<in> R \<Longrightarrow> i \<noteq> n \<and> p \<noteq> n" "n \<notin> P"
  shows "(i, a) \<in> (R \<union> {n} \<times> P)\<^sup>+ \<longleftrightarrow> (if i = n then \<exists>p\<in>P. a = p \<or> (p, a) \<in> R\<^sup>+ else (i, a) \<in> R\<^sup>+)"
proof
  assume "(i, a) \<in> (R \<union> {n} \<times> P)\<^sup>+"
  then show "if i = n then \<exists>p\<in>P. a = p \<or> (p, a) \<in> R\<^sup>+ else (i, a) \<in> R\<^sup>+"
  proof (induction rule: trancl_induct)
    case (step y z)
    have "y \<noteq> n" using step.hyps(1) assms by (auto elim: tranclE)
    then have "(y, z) \<in> R" using step.hyps(2) by auto
    then show ?case using step.IH by (auto split: if_splits intro: trancl_into_trancl)
  qed (use assms(1) in auto)
next
  have mono: "(x, y) \<in> R\<^sup>+ \<Longrightarrow> (x, y) \<in> (R \<union> {n} \<times> P)\<^sup>+" for x y by (erule trancl_mono) auto
  assume "if i = n then \<exists>p\<in>P. a = p \<or> (p, a) \<in> R\<^sup>+ else (i, a) \<in> R\<^sup>+"
  then show "(i, a) \<in> (R \<union> {n} \<times> P)\<^sup>+"
    by (auto split: if_splits intro: mono trancl_into_trancl2)
qed

lemma rounds_consistent_snoc:
  assumes ok: "rounds_consistent (roundRecords j)" and fresh: "roundId r \<notin> roundId ` set (roundRecords j)"
    and ps: "distinct (parentRoundIds r)" "set (parentRoundIds r) \<subseteq> roundId ` set (roundRecords j)"
    and it: "iteration r = nextRoundIteration j (stage r) (parentRoundIds r)"
  shows "rounds_consistent (roundRecords j @ [r])"
proof -
  let ?rs = "roundRecords j"
  let ?m = "rounds_by_id ?rs" and ?m' = "rounds_by_id (?rs @ [r])"
  let ?R = "parent_rel ?m" and ?R' = "parent_rel ?m'"
  have d: "distinct (map roundId ?rs)" using ok by (simp add: rounds_consistent_def)
  have edge: "(i, p) \<in> ?R \<Longrightarrow> i \<noteq> roundId r \<and> p \<noteq> roundId r" for i p
    using parent_rel_range [OF d, of i p] fresh ok unfolding rounds_consistent_def by blast
  have nin: "roundId r \<notin> set (parentRoundIds r)" using ps(2) fresh by blast
  note R' = trancl_fresh_source [of ?R "roundId r" "set (parentRoundIds r)", OF edge nin, folded parent_rel_snoc [OF fresh]]
  have nr: "a \<noteq> roundId r" if "(i, a) \<in> ?R\<^sup>+" for i a using that edge by (auto elim: tranclE)
  have "(x, x) \<notin> ?R'\<^sup>+" for x
  proof
    assume "(x, x) \<in> ?R'\<^sup>+"
    then consider "x = roundId r" "\<exists>p\<in>set (parentRoundIds r). x = p \<or> (p, x) \<in> ?R\<^sup>+" | "(x, x) \<in> ?R\<^sup>+"
      by (auto simp: R' split: if_splits)
    then show False using nin nr ok by cases (auto simp: rounds_consistent_def acyclic_def)
  qed
  then have ac: "acyclic ?R'" by (simp add: acyclic_def)
  have st: "same_stage ?m' stg A = same_stage ?m stg A" if "roundId r \<notin> A" for stg A
  proof -
    have "a \<in> A \<Longrightarrow> map_of ?m' a = map_of ?m a" for a using that by (auto simp: rounds_by_id_snoc)
    then show ?thesis unfolding same_stage_def by (intro Collect_cong) metis
  qed
  have itn: "iteration q = expectedIteration q ?m'" if "q \<in> set (?rs @ [r])" for q
  proof (cases "q = r")
    case True
    have "{a. (roundId r, a) \<in> ?R'\<^sup>+} = (\<Union>p\<in>set (parentRoundIds r). insert p {a. (p, a) \<in> ?R\<^sup>+})"
      by (auto simp: R')
    moreover have "roundId r \<notin> (\<Union>p\<in>set (parentRoundIds r). insert p {a. (p, a) \<in> ?R\<^sup>+})" using nin nr by auto
    note st [OF this]
    ultimately show ?thesis
      by (simp only: True it nextRoundIteration_eq expectedIteration_eq)
  next
    case False
    then have q: "q \<in> set ?rs" "roundId q \<noteq> roundId r" using that fresh by (auto simp: image_iff)
    have "roundId r \<notin> {a. (roundId q, a) \<in> ?R\<^sup>+}" using nr by auto
    then have "expectedIteration q ?m' = expectedIteration q ?m" using q(2) by (simp add: expectedIteration_eq R' st)
    then show ?thesis using ok q(1) by (simp add: rounds_consistent_def)
  qed
  show ?thesis
    using d fresh ps ok ac itn unfolding rounds_consistent_def by auto
qed

lemma leaves_snoc:
  assumes "roundId r \<notin> roundId ` set rs" "\<forall>q\<in>set rs. set (parentRoundIds q) \<subseteq> roundId ` set rs" "roundId r \<notin> set (parentRoundIds r)"
  shows "leaves (rs @ [r]) = insert (roundId r) (leaves rs - set (parentRoundIds r))"
  using assms unfolding leaves_def by (auto; blast)

lemma parse_less_trans:
  assumes "\<not> parse_less dp b a" "\<not> parse_less dp c b" "isCanonicalTimestamp dp b"
  shows "\<not> parse_less dp c a"
  using assms by (auto simp: parse_less_def isCanonicalTimestamp_def split: option.splits)

lemma appendRoundRecord_Inr:
  assumes "appendRoundRecord dp j r = Inr j'"
  shows "roundId r \<notin> roundId ` set (roundRecords j)" "distinct (parentRoundIds r)"
    "\<And>p. p \<in> set (parentRoundIds r) \<Longrightarrow> \<exists>q. map_of (rounds_by_id (roundRecords j)) p = Some q \<and> truthy_str (outputSnapshotId q)"
    "times_ok dp (round_createdAt r) (round_updatedAt r)" "\<not> parse_less dp (round_updatedAt r) (journey_updatedAt j)"
    "j' = j\<lparr>roundRecords := roundRecords j @ [r\<lparr>iteration := nextRoundIteration j (stage r) (parentRoundIds r)\<rparr>],
           headRoundIds := filter (\<lambda>h. h \<notin> set (parentRoundIds r)) (headRoundIds j) @ [roundId r],
           defaultHeadRoundId := Some (roundId r), journey_updatedAt := round_updatedAt r\<rparr>"
  using assms dom_rounds_by_id [of "roundRecords j"]
  by (auto simp: appendRoundRecord_def Let_def times_ok_def findDuplicates_Nil parent_check_None split: if_splits option.splits)

lemma append_ok:
  assumes "appendRoundRecord dp j r = Inr j'" and "journey_ok dp j"
  shows "journey_ok dp j'"
proof -
  note e = appendRoundRecord_Inr [OF assms(1)]
  let ?r = "r\<lparr>iteration := nextRoundIteration j (stage r) (parentRoundIds r)\<rparr>"
  have ok: "rounds_ok (roundRecords j)" using assms(2) unfolding journey_ok_def by blast
  then have d: "distinct (map roundId (roundRecords j))" unfolding rounds_ok_def by blast
  have ps: "set (parentRoundIds r) \<subseteq> roundId ` set (roundRecords j)"
    using e(3) map_of_rounds_by_id [OF d] by fastforce
  have nin: "roundId r \<notin> set (parentRoundIds r)" using ps e(1) by blast
  have "rounds_ok (roundRecords j @ [?r])"
    unfolding rounds_ok_iff by (rule rounds_consistent_snoc) (use ok e(1,2) ps in \<open>simp_all add: rounds_ok_iff\<close>)
  moreover have "leaves (roundRecords j @ [?r]) = insert (roundId r) (leaves (roundRecords j) - set (parentRoundIds r))"
    using leaves_snoc [of ?r "roundRecords j"] e(1) nin ok by (simp add: rounds_ok_def)
  moreover have "roundId r \<notin> set (headRoundIds j)" using assms(2) e(1) by (auto simp: journey_ok_def leaves_def)
  moreover have "\<not> parse_less dp (round_updatedAt r) (journey_createdAt j)"
    using assms(2) e(5) parse_less_trans [of dp "journey_updatedAt j" "journey_createdAt j" "round_updatedAt r"]
    by (auto simp: journey_ok_def times_ok_def)
  ultimately show ?thesis
    using assms(2) e(4) unfolding e(6) journey_ok_def by (auto simp: times_ok_def)
qed

text \<open>C12. Appending a round keeps a journey well formed: identifiers stay distinct, every parent exists, the
  parent relation stays acyclic, every round's iteration is one more than the greatest iteration of the same stage
  among its ancestors, the heads are exactly the rounds without children (each once), the default head is one of
  them, and timestamps stay canonical and ordered.\<close>

theorem append_keeps_journey_ok:
  assumes "appendRoundRecord dp j r = Inr j'" and "journey_ok dp j"
  shows "journey_ok dp j'"
  using assms by (rule append_ok)

text \<open>Which error appending reports, on a journey with distinct rounds: it fails exactly when the identifier is
  taken, a parent is repeated, a timestamp is not canonical or goes backwards, or a parent is missing or has no
  output snapshot; the first of these decides the error, and for parents the first offending one.\<close>

theorem append_outcome:
  assumes "distinct (map roundId (roundRecords j))"
  shows "appendRoundRecord dp j r =
    (if roundId r \<in> roundId ` set (roundRecords j) then Inl DuplicateRoundId
     else if \<not> distinct (parentRoundIds r) then Inl DuplicateParentRound
     else if \<not> times_ok dp (round_createdAt r) (round_updatedAt r) \<or> parse_less dp (round_updatedAt r) (journey_updatedAt j)
       then Inl InvalidTimestamp
     else case find (\<lambda>p. \<not> (\<exists>q\<in>set (roundRecords j). roundId q = p \<and> outputSnapshotId q \<notin> {None, Some []})) (parentRoundIds r) of
       Some p \<Rightarrow> Inl (if p \<in> roundId ` set (roundRecords j) then ParentWithoutSnapshot else MissingParentRound)
     | None \<Rightarrow> Inr (j\<lparr>roundRecords := roundRecords j @ [r\<lparr>iteration := nextRoundIteration j (stage r) (parentRoundIds r)\<rparr>],
           headRoundIds := filter (\<lambda>h. h \<notin> set (parentRoundIds r)) (headRoundIds j) @ [roundId r],
           defaultHeadRoundId := Some (roundId r), journey_updatedAt := round_updatedAt r\<rparr>))"
proof -
  let ?rs = "roundRecords j"
  have ts: "truthy_str s \<longleftrightarrow> s \<notin> {None, Some []}" for s by (cases s) auto
  have look: "map_of (rounds_by_id ?rs) p = Some q \<Longrightarrow> q' \<in> set ?rs \<Longrightarrow> roundId q' = p \<Longrightarrow> q' = q" for p q q'
    using map_of_rounds_by_id [OF assms, of p q'] by simp
  have pc: "parent_check (rounds_by_id ?rs) ps = map_option (\<lambda>p. if p \<in> roundId ` set ?rs then ParentWithoutSnapshot else MissingParentRound)
      (find (\<lambda>p. \<not> (\<exists>q\<in>set ?rs. roundId q = p \<and> outputSnapshotId q \<notin> {None, Some []})) ps)" for ps
  proof (induction ps)
    case (Cons p ps)
    show ?case
    proof (cases "map_of (rounds_by_id ?rs) p")
      case None
      then have "p \<notin> roundId ` set ?rs" using dom_rounds_by_id [of ?rs] by blast
      then show ?thesis using None by auto
    next
      case (Some q)
      then have q: "q \<in> set ?rs" "roundId q = p" using map_of_rounds_by_id [OF assms] by auto
      then have "(\<exists>q\<in>set ?rs. roundId q = p \<and> outputSnapshotId q \<notin> {None, Some []}) \<longleftrightarrow> truthy_str (outputSnapshotId q)"
        using look [OF Some] unfolding ts by blast
      then show ?thesis using Some q Cons.IH by auto
    qed
  qed simp
  have "map_of (rounds_by_id ?rs) (roundId r) \<noteq> None \<longleftrightarrow> roundId r \<in> roundId ` set ?rs"
    using dom_rounds_by_id [of ?rs] by blast
  then show ?thesis
    unfolding appendRoundRecord_def Let_def pc times_ok_def findDuplicates_Nil
    by (simp split: option.split)
qed

section \<open>Example\<close>

definition ex_dp :: "string \<Rightarrow> int option" where
  "ex_dp s = (if s = ''1970-01-01T00:00:00.000Z'' then Some 0 else None)"

definition ex_journey :: inquiry_journey where
  "ex_journey = \<lparr>journey_schemaVersion = INQUIRY_SCHEMA_VERSION, journeyId = ''j'', journey_title = ''t'', originSnapshotIds = [''s0''],
     roundRecords = [], headRoundIds = [], defaultHeadRoundId = None,
     journey_createdAt = ''1970-01-01T00:00:00.000Z'', journey_updatedAt = ''1970-01-01T00:00:00.000Z''\<rparr>"

definition ex_round :: "string \<Rightarrow> string list \<Rightarrow> round_record" where
  "ex_round i ps = \<lparr>roundId = i, round_createdAt = ''1970-01-01T00:00:00.000Z'', round_updatedAt = ''1970-01-01T00:00:00.000Z'',
     stage = ''r1_problem_setting'', iteration = 1, parentRoundIds = ps, status = ''working'', theme = ''t'',
     inputSnapshotIds = [], outputSnapshotId = Some (''out-'' @ i), handoff = None\<rparr>"

lemma ex_times: "times_ok ex_dp ''1970-01-01T00:00:00.000Z'' ''1970-01-01T00:00:00.000Z''"
  by (simp add: times_ok_def isCanonicalTimestamp_def ex_dp_def parse_less_def epoch_text)

lemma ex_journey_ok: "journey_ok ex_dp ex_journey"
  using ex_times
  by (auto simp: journey_ok_def rounds_ok_def ex_journey_def leaves_def acyclic_def round_rel_def)

theorem append_outcome_witness:
  "appendRoundRecord ex_dp ex_journey (ex_round ''a'' [''x'']) = Inl MissingParentRound"
proof -
  have "distinct (map roundId (roundRecords ex_journey))" by (simp add: ex_journey_def)
  from append_outcome [OF this, of ex_dp "ex_round ''a'' [''x'']"] show ?thesis
    using ex_times by (simp add: ex_journey_def ex_round_def parse_less_def ex_dp_def)
qed

theorem append_keeps_journey_ok_witness:
  "\<exists>j'. appendRoundRecord ex_dp ex_journey (ex_round ''a'' []) = Inr j' \<and> journey_ok ex_dp j' \<and> headRoundIds j' = [''a'']"
proof -
  have "\<exists>j'. appendRoundRecord ex_dp ex_journey (ex_round ''a'' []) = Inr j' \<and> headRoundIds j' = [''a'']"
    using ex_times unfolding appendRoundRecord_def times_ok_def
    by (simp add: ex_journey_def ex_round_def Let_def rounds_by_id_def new_map_def findDuplicates_Nil parse_less_def ex_dp_def)
  then show ?thesis using append_keeps_journey_ok ex_journey_ok by blast
qed

text \<open>Collecting ancestors ends on every map, cyclic ones included, and yields exactly the rounds that can be
  reached from the given one over one or more parent links.\<close>

theorem ancestors_exact: "set (collectAncestorIds i m) = {a. (i, a) \<in> (parent_rel m)\<^sup>+}"
  by (rule set_collectAncestorIds)

end
