(* ===== verification/Inquiry_Validate.thy ===== *)
theory Inquiry_Validate
  imports Inquiry_Journey
begin

text \<open>
  \<open>domain/inquiry_journey.ts\<close>, second part: \<open>validateInquiryBundle\<close>. The checks are one definition per block of the
  function, in its order, each returning the issues the block adds. The depth-first search for cycles is bounded by
  fuel, one more than the number of rounds, which \<open>visit_total\<close> shows to be enough.
\<close>

section \<open>Types\<close>

record round_snapshot =
  snap_schemaVersion :: string
  snapshotId :: string
  snap_createdAt :: string
  canonicalDigest :: string
  snap_document :: document

datatype export_info = FullExport | RoundExport string

datatype lineage_edge =
    OneToOne (lineageId: string) bool card_address card_address
  | Derived (lineageId: string) "card_address list" card_address
  | Split (lineageId: string) card_address "card_address list"
  | Merged (lineageId: string) "card_address list" card_address
  | NewCard (lineageId: string) card_address
  | Retired (lineageId: string) card_address

record inquiry_bundle =
  bundle_schemaVersion :: string
  journey :: inquiry_journey
  snapshots :: "round_snapshot list"
  cardLineage :: "lineage_edge list"
  exportInfo :: "export_info option"

datatype issue_code =
    I_schema_version | I_invalid_timestamp | I_duplicate_round_id | I_invalid_round_stage | I_invalid_round_status_value
  | I_duplicate_parent_round | I_missing_parent_round | I_round_cycle | I_invalid_iteration | I_invalid_round_status
  | I_duplicate_head_round | I_invalid_head_round | I_missing_leaf_head | I_invalid_default_head | I_invalid_export_info
  | I_duplicate_snapshot_id | I_missing_origin_snapshot | I_duplicate_origin_snapshot | I_invalid_snapshot_digest
  | I_duplicate_snapshot_card_id | I_missing_snapshot | I_duplicate_output_snapshot | I_unowned_snapshot
  | I_duplicate_input_snapshot | I_invalid_input_snapshot | I_duplicate_lineage_id | I_invalid_lineage_cardinality
  | I_missing_lineage_card | I_invalid_lineage_direction | I_missing_handoff_artifact

type_synonym issue = "issue_code \<times> string"

section \<open>Helpers\<close>

definition getArtifactIds :: "round_snapshot \<Rightarrow> artifact_kind \<Rightarrow> string list" where
  "getArtifactIds snapshot k =
     (case k of
        ArtCard \<Rightarrow> uniq (map card_id (cards (snap_document snapshot)))
      | ArtIsland \<Rightarrow> uniq (map island_id (islands (snap_document snapshot)))
      | ArtNarrative \<Rightarrow> uniq (map narr_id (nullish (narratives (snap_document snapshot)) []))
      | ArtRelationSummary \<Rightarrow> uniq (map rel_id (nullish (relationSummaries (snap_document snapshot)) [])))"

fun getLineageAddresses :: "lineage_edge \<Rightarrow> card_address list \<times> card_address list" where
  "getLineageAddresses (NewCard _ t) = ([], [t])"
| "getLineageAddresses (Retired _ f) = ([f], [])"
| "getLineageAddresses (OneToOne _ _ f t) = ([f], [t])"
| "getLineageAddresses (Derived _ fs t) = (fs, [t])"
| "getLineageAddresses (Split _ f ts) = ([f], ts)"
| "getLineageAddresses (Merged _ fs t) = (fs, [t])"

definition addressKey :: "card_address \<Rightarrow> string" where
  "addressKey a = addr_snapshotId a @ [CHR 0x00] @ addr_cardId a"

definition is_hex :: "char \<Rightarrow> bool" where
  "is_hex c \<longleftrightarrow> c \<in> set ''0123456789abcdef''"

definition digest_ok :: "string \<Rightarrow> bool" where
  "digest_ok s \<longleftrightarrow> starts_with ''sha256:'' s \<and> length s = 71 \<and> list_all is_hex (drop 7 s)"

definition round_path :: "string \<Rightarrow> string \<Rightarrow> string" where
  "round_path i rest = ''journey.roundRecords.'' @ i @ rest"

section \<open>Journey and rounds\<close>

definition schema_issues :: "(string \<Rightarrow> int option) \<Rightarrow> inquiry_bundle \<Rightarrow> issue list" where
  "schema_issues dp b =
     (if bundle_schemaVersion b \<noteq> INQUIRY_SCHEMA_VERSION then [(I_schema_version, ''schemaVersion'')] else []) @
     (if journey_schemaVersion (journey b) \<noteq> INQUIRY_SCHEMA_VERSION then [(I_schema_version, ''journey.schemaVersion'')] else []) @
     (if \<not> isCanonicalTimestamp dp (journey_createdAt (journey b)) \<or> \<not> isCanonicalTimestamp dp (journey_updatedAt (journey b)) \<or>
         parse_less dp (journey_updatedAt (journey b)) (journey_createdAt (journey b))
      then [(I_invalid_timestamp, ''journey.updatedAt'')] else [])"

definition safe_integer :: "rat \<Rightarrow> bool" where
  "safe_integer q \<longleftrightarrow> q = of_int \<lfloor>q\<rfloor> \<and> \<bar>q\<bar> \<le> 9007199254740991"

definition round_issues :: "(string \<Rightarrow> int option) \<Rightarrow> rounds_map \<Rightarrow> round_record \<Rightarrow> issue list" where
  "round_issues dp m r =
     (if \<not> isCanonicalTimestamp dp (round_createdAt r) \<or> \<not> isCanonicalTimestamp dp (round_updatedAt r) \<or>
         parse_less dp (round_updatedAt r) (round_createdAt r)
      then [(I_invalid_timestamp, round_path (roundId r) ''.updatedAt'')] else []) @
     (if stage r \<notin> set ROUND_STAGES then [(I_invalid_round_stage, round_path (roundId r) ''.stage'')] else []) @
     (if status r \<notin> set ROUND_STATUSES then [(I_invalid_round_status_value, round_path (roundId r) ''.status'')] else []) @
     map (\<lambda>d. (I_duplicate_parent_round, round_path (roundId r) (''.parentRoundIds.'' @ d))) (findDuplicates (parentRoundIds r)) @
     map (\<lambda>p. (I_missing_parent_round, round_path (roundId r) (''.parentRoundIds.'' @ p)))
       (filter (\<lambda>p. map_of m p = None) (parentRoundIds r)) @
     (if \<not> safe_integer (iteration r) \<or> iteration r < 1 \<or> iteration r \<noteq> expectedIteration r m
      then [(I_invalid_iteration, round_path (roundId r) ''.iteration'')] else []) @
     (if status r \<noteq> ''working'' \<and> \<not> truthy_str (outputSnapshotId r)
      then [(I_invalid_round_status, round_path (roundId r) ''.outputSnapshotId'')] else [])"

section \<open>Cycles\<close>

datatype visit_mark = Visiting | Visited

type_synonym visit_state = "(string \<rightharpoonup> visit_mark) \<times> issue list"

primrec fold_opt :: "('a \<Rightarrow> 's \<Rightarrow> 's option) \<Rightarrow> 'a list \<Rightarrow> 's \<Rightarrow> 's option" where
  "fold_opt f [] s = Some s"
| "fold_opt f (x # xs) s = (case f x s of None \<Rightarrow> None | Some s' \<Rightarrow> fold_opt f xs s')"

definition known_parents :: "rounds_map \<Rightarrow> string \<Rightarrow> string list" where
  "known_parents m i = filter (\<lambda>p. map_of m p \<noteq> None) (parents_of m i)"

fun visit :: "rounds_map \<Rightarrow> nat \<Rightarrow> string \<Rightarrow> visit_state \<Rightarrow> visit_state option" where
  "visit m 0 i st = None"
| "visit m (Suc n) i (marks, issues) =
     (case marks i of
        Some Visiting \<Rightarrow> Some (marks, issues @ [(I_round_cycle, round_path i ''.parentRoundIds'')])
      | Some Visited \<Rightarrow> Some (marks, issues)
      | None \<Rightarrow>
          (case fold_opt (\<lambda>p s. visit m n p s) (known_parents m i) (marks(i \<mapsto> Visiting), issues) of
             None \<Rightarrow> None
           | Some (marks', issues') \<Rightarrow> Some (marks'(i \<mapsto> Visited), issues')))"

definition cycle_issues :: "rounds_map \<Rightarrow> round_record list \<Rightarrow> issue list" where
  "cycle_issues m rs =
     (case fold_opt (visit m (Suc (length m))) (map roundId rs) (Map.empty, []) of None \<Rightarrow> [] | Some (marks, issues) \<Rightarrow> issues)"

section \<open>Heads\<close>

definition head_issues :: "inquiry_bundle \<Rightarrow> rounds_map \<Rightarrow> issue list" where
  "head_issues b m =
     (let j = journey b; rounds = roundRecords j;
          parentIds = uniq (concat (map parentRoundIds rounds));
          leafIds = uniq (filter (\<lambda>i. i \<notin> set parentIds) (map roundId rounds));
          headIds = uniq (headRoundIds j)
      in map (\<lambda>d. (I_duplicate_head_round, ''journey.headRoundIds.'' @ d)) (findDuplicates (headRoundIds j)) @
         map (\<lambda>h. (I_invalid_head_round, ''journey.headRoundIds.'' @ h)) (filter (\<lambda>h. map_of m h = None \<or> h \<notin> set leafIds) headIds) @
         map (\<lambda>l. (I_missing_leaf_head, ''journey.headRoundIds.'' @ l)) (filter (\<lambda>l. l \<notin> set headIds) leafIds) @
         (case defaultHeadRoundId j of
            Some h \<Rightarrow> if h \<notin> set headIds then [(I_invalid_default_head, ''journey.defaultHeadRoundId'')] else []
          | None \<Rightarrow> []) @
         (case exportInfo b of
            Some (RoundExport sel) \<Rightarrow>
              if length (headRoundIds j) \<noteq> 1 \<or> headRoundIds j ! 0 \<noteq> sel \<or> defaultHeadRoundId j \<noteq> Some sel
              then [(I_invalid_export_info, ''exportInfo.selectedRoundId'')] else []
          | _ \<Rightarrow> []))"

section \<open>Snapshots\<close>

definition snapshot_issues :: "(string \<Rightarrow> int option) \<Rightarrow> round_snapshot \<Rightarrow> issue list" where
  "snapshot_issues dp s =
     (if snap_schemaVersion s \<noteq> INQUIRY_SCHEMA_VERSION then [(I_schema_version, ''snapshots.'' @ snapshotId s @ ''.schemaVersion'')] else []) @
     (if \<not> digest_ok (canonicalDigest s) then [(I_invalid_snapshot_digest, ''snapshots.'' @ snapshotId s @ ''.canonicalDigest'')] else []) @
     (if \<not> isCanonicalTimestamp dp (snap_createdAt s) then [(I_invalid_timestamp, ''snapshots.'' @ snapshotId s @ ''.createdAt'')] else []) @
     map (\<lambda>d. (I_duplicate_snapshot_card_id, ''snapshots.'' @ snapshotId s @ ''.document.cards.'' @ d))
       (findDuplicates (map card_id (cards (snap_document s))))"

definition snapshots_by_id :: "round_snapshot list \<Rightarrow> (string \<times> round_snapshot) list" where
  "snapshots_by_id ss = new_map (map (\<lambda>s. (snapshotId s, s)) ss)"

definition origin_issues :: "inquiry_journey \<Rightarrow> (string \<times> round_snapshot) list \<Rightarrow> issue list" where
  "origin_issues j snaps =
     (if length (originSnapshotIds j) = 0 then [(I_missing_origin_snapshot, ''journey.originSnapshotIds'')] else []) @
     map (\<lambda>d. (I_duplicate_origin_snapshot, ''journey.originSnapshotIds.'' @ d)) (findDuplicates (originSnapshotIds j)) @
     map (\<lambda>i. (I_missing_snapshot, ''journey.originSnapshotIds.'' @ i)) (filter (\<lambda>i. map_of snaps i = None) (uniq (originSnapshotIds j)))"

definition output_step ::
  "(string \<times> round_snapshot) list \<Rightarrow> string list \<Rightarrow> round_record \<Rightarrow> (string \<times> string) list \<times> issue list \<Rightarrow> (string \<times> string) list \<times> issue list" where
  "output_step snaps originIds r st =
     (let (owners, issues) = st in
      if \<not> truthy_str (outputSnapshotId r) then (owners, issues)
      else let out = the (outputSnapshotId r);
               path = round_path (roundId r) ''.outputSnapshotId'';
               missing = (if map_of snaps out = None then [(I_missing_snapshot, path)] else []);
               taken = truthy_str (map_of owners out);
               dup = (if taken then [(I_duplicate_output_snapshot, path)] else []);
               owners' = (if taken then owners else AList.update out (roundId r) owners);
               orig = (if out \<in> set originIds then [(I_duplicate_output_snapshot, path)] else [])
        in (owners', issues @ missing @ dup @ orig))"

definition output_owners :: "(string \<times> round_snapshot) list \<Rightarrow> string list \<Rightarrow> round_record list \<Rightarrow> (string \<times> string) list \<times> issue list" where
  "output_owners snaps originIds rs = fold (output_step snaps originIds) rs ([], [])"

definition unowned_issues :: "round_snapshot list \<Rightarrow> string list \<Rightarrow> (string \<times> string) list \<Rightarrow> issue list" where
  "unowned_issues ss originIds owners =
     map (\<lambda>s. (I_unowned_snapshot, ''snapshots.'' @ snapshotId s))
       (filter (\<lambda>s. snapshotId s \<notin> set originIds \<and> map_of owners (snapshotId s) = None) ss)"

section \<open>Inputs, hand-offs and lineage\<close>

definition has_card :: "(string \<times> round_snapshot) list \<Rightarrow> card_address \<Rightarrow> bool" where
  "has_card snaps a = (case map_of snaps (addr_snapshotId a) of
     None \<Rightarrow> False | Some s \<Rightarrow> list_ex (\<lambda>c. card_id c = addr_cardId a) (cards (snap_document s)))"

definition input_issues ::
  "rounds_map \<Rightarrow> (string \<times> round_snapshot) list \<Rightarrow> string list \<Rightarrow> (string \<times> string) list \<Rightarrow> round_record \<Rightarrow> issue list" where
  "input_issues m snaps originIds owners r =
     (let ancestorIds = collectAncestorIds (roundId r) m in
      map (\<lambda>d. (I_duplicate_input_snapshot, round_path (roundId r) (''.inputSnapshotIds.'' @ d))) (findDuplicates (inputSnapshotIds r)) @
      concat (map (\<lambda>i.
        if map_of snaps i = None then [(I_missing_snapshot, round_path (roundId r) (''.inputSnapshotIds.'' @ i))]
        else if i \<notin> set originIds \<and> (\<not> truthy_str (map_of owners i) \<or> the (map_of owners i) \<notin> set ancestorIds)
        then [(I_invalid_input_snapshot, round_path (roundId r) (''.inputSnapshotIds.'' @ i))] else []) (inputSnapshotIds r)))"

definition handoff_issues :: "(string \<times> round_snapshot) list \<Rightarrow> round_record \<Rightarrow> issue list" where
  "handoff_issues snaps r =
     (case handoff r of
        None \<Rightarrow> []
      | Some h \<Rightarrow>
          concat (map (\<lambda>ref. case map_of snaps (ref_snapshotId ref) of
              None \<Rightarrow> [(I_missing_handoff_artifact, round_path (roundId r) (''.handoff.'' @ ref_entityId ref))]
            | Some s \<Rightarrow> if ref_entityId ref \<notin> set (getArtifactIds s (ref_kind ref))
                        then [(I_missing_handoff_artifact, round_path (roundId r) (''.handoff.'' @ ref_entityId ref))] else [])
            (carryoverRefs h @ heldRefs h)) @
          concat (map (\<lambda>q. concat (map (\<lambda>a. if has_card snaps a then []
                                             else [(I_missing_handoff_artifact, round_path (roundId r) (''.handoff.'' @ requestId q))])
                                        (case outcome q of None \<Rightarrow> [] | Some out \<Rightarrow> responseCardRefs out)))
            (fieldworkRequests h)))"

definition lineage_cardinality_bad :: "lineage_edge \<Rightarrow> bool" where
  "lineage_cardinality_bad e =
     (let (from, to) = getLineageAddresses e in
      (case e of Split _ _ _ \<Rightarrow> length to < 2 | Merged _ _ _ \<Rightarrow> length from < 2 | Derived _ _ _ \<Rightarrow> length from < 1 | _ \<Rightarrow> False) \<or>
      findDuplicates (map addressKey from) \<noteq> [] \<or> findDuplicates (map addressKey to) \<noteq> [])"

definition lineage_issues ::
  "rounds_map \<Rightarrow> (string \<times> round_snapshot) list \<Rightarrow> string list \<Rightarrow> (string \<times> string) list \<Rightarrow> lineage_edge \<Rightarrow> issue list" where
  "lineage_issues m snaps originIds owners e =
     (let (from, to) = getLineageAddresses e in
      (if lineage_cardinality_bad e then [(I_invalid_lineage_cardinality, ''cardLineage.'' @ lineageId e)] else []) @
      concat (map (\<lambda>a. if has_card snaps a then []
                       else [(I_missing_lineage_card, ''cardLineage.'' @ lineageId e @ ''.'' @ addr_snapshotId a @ ''.'' @ addr_cardId a)]) (from @ to)) @
      concat (map (\<lambda>target.
        if \<not> truthy_str (map_of owners (addr_snapshotId target)) then [(I_invalid_lineage_direction, ''cardLineage.'' @ lineageId e @ ''.to'')]
        else let targetAncestors = collectAncestorIds (the (map_of owners (addr_snapshotId target))) m in
          concat (map (\<lambda>source.
            if addr_snapshotId source \<notin> set originIds \<and>
               (\<not> truthy_str (map_of owners (addr_snapshotId source)) \<or> the (map_of owners (addr_snapshotId source)) \<notin> set targetAncestors)
            then [(I_invalid_lineage_direction, ''cardLineage.'' @ lineageId e @ ''.from'')] else []) from)) to))"

definition validateInquiryBundle :: "(string \<Rightarrow> int option) \<Rightarrow> inquiry_bundle \<Rightarrow> issue list" where
  "validateInquiryBundle dp b =
     (let j = journey b; rounds = roundRecords j; m = rounds_by_id rounds; snaps = snapshots_by_id (snapshots b);
          originIds = uniq (originSnapshotIds j); (owners, ownerIssues) = output_owners snaps originIds rounds
      in schema_issues dp b @
         map (\<lambda>d. (I_duplicate_round_id, round_path d '''')) (findDuplicates (map roundId rounds)) @
         concat (map (round_issues dp m) rounds) @
         cycle_issues m rounds @
         head_issues b m @
         map (\<lambda>d. (I_duplicate_snapshot_id, ''snapshots.'' @ d)) (findDuplicates (map snapshotId (snapshots b))) @
         concat (map (snapshot_issues dp) (snapshots b)) @
         origin_issues j snaps @
         ownerIssues @
         unowned_issues (snapshots b) originIds owners @
         concat (map (\<lambda>r. input_issues m snaps originIds owners r @ handoff_issues snaps r) rounds) @
         map (\<lambda>d. (I_duplicate_lineage_id, ''cardLineage.'' @ d)) (findDuplicates (map lineageId (cardLineage b))) @
         concat (map (lineage_issues m snaps originIds owners) (cardLineage b)))"

section \<open>The search for cycles\<close>

definition known_rel :: "rounds_map \<Rightarrow> (string \<times> string) set" where
  "known_rel m = {(i, p). p \<in> set (known_parents m i)}"

definition marked :: "visit_mark \<Rightarrow> visit_state \<Rightarrow> string set" where
  "marked k st = {i. fst st i = Some k}"

definition finish_order :: "rounds_map \<Rightarrow> visit_state \<Rightarrow> bool" where
  "finish_order m st \<longleftrightarrow> (\<exists>L. set L = marked Visited st \<and> distinct L \<and>
     (\<forall>k < length L. set (known_parents m (L ! k)) \<subseteq> set (take k L)))"

definition visit_post :: "rounds_map \<Rightarrow> string set \<Rightarrow> visit_state \<Rightarrow> visit_state \<Rightarrow> bool" where
  "visit_post m I st st' \<longleftrightarrow> marked Visiting st' = marked Visiting st \<and> marked Visited st \<subseteq> marked Visited st' \<and>
     (\<exists>new. snd st' = snd st @ new) \<and>
     (snd st' = snd st \<longrightarrow> I \<subseteq> marked Visited st' \<and> (finish_order m st \<longrightarrow> finish_order m st'))"

lemma visit_post_trans:
  "visit_post m I st st1 \<Longrightarrow> visit_post m J st1 st2 \<Longrightarrow> visit_post m (I \<union> J) st st2"
  by (auto simp: visit_post_def)

lemma fold_visit_post:
  assumes "\<And>x s s'. x \<in> set xs \<Longrightarrow> f x s = Some s' \<Longrightarrow> visit_post m {x} s s'"
  shows "fold_opt f xs s = Some s' \<Longrightarrow> visit_post m (set xs) s s'"
  using assms
proof (induction xs arbitrary: s)
  case Nil
  then show ?case by (simp add: visit_post_def)
next
  case (Cons x xs)
  then obtain s1 where s1: "f x s = Some s1" "fold_opt f xs s1 = Some s'" by (auto split: option.splits)
  have "visit_post m {x} s s1" using Cons.prems(2) s1(1) by simp
  from visit_post_trans [OF this Cons.IH [OF s1(2)]] Cons.prems(2) show ?case by simp
qed

lemma finish_order_snoc:
  assumes "finish_order m (M, iss)" "i \<notin> marked Visited (M, iss)" "set (known_parents m i) \<subseteq> marked Visited (M, iss)"
  shows "finish_order m (M(i \<mapsto> Visited), iss')"
proof -
  obtain L where L: "set L = marked Visited (M, iss)" "distinct L"
    "\<And>k. k < length L \<Longrightarrow> set (known_parents m (L ! k)) \<subseteq> set (take k L)"
    using assms(1) by (auto simp: finish_order_def)
  have "set (L @ [i]) = marked Visited (M(i \<mapsto> Visited), iss')" using L(1) by (auto simp: marked_def)
  moreover have "distinct (L @ [i])" using L(1,2) assms(2) by simp
  moreover have "set (known_parents m ((L @ [i]) ! k)) \<subseteq> set (take k (L @ [i]))" if "k < length (L @ [i])" for k
    using that L(3) [of k] assms(3) L(1) by (cases "k < length L") (auto simp: nth_append)
  ultimately show ?thesis unfolding finish_order_def by blast
qed

lemma visit_post_visit: "visit m n i st = Some st' \<Longrightarrow> visit_post m {i} st st'"
proof (induction n arbitrary: i st st')
  case (Suc n)
  obtain M iss where st: "st = (M, iss)" by fastforce
  show ?case
  proof (cases "M i")
    case None
    let ?s1 = "(M(i \<mapsto> Visiting), iss)"
    from Suc.prems None st obtain M' iss' where f: "fold_opt (\<lambda>p s. visit m n p s) (known_parents m i) ?s1 = Some (M', iss')"
      and st': "st' = (M'(i \<mapsto> Visited), iss')" by (auto split: option.splits)
    have p: "visit_post m (set (known_parents m i)) ?s1 (M', iss')"
      by (rule fold_visit_post [OF _ f]) (use Suc.IH in blast)
    have vg: "marked Visiting ?s1 = insert i (marked Visiting st)" "marked Visited ?s1 = marked Visited st"
      using None by (auto simp: marked_def st)
    have M'i: "M' i = Some Visiting" using p vg(1) by (auto simp: visit_post_def marked_def)
    have "marked Visiting st' = marked Visiting (M', iss') - {i}" "marked Visited st' = insert i (marked Visited (M', iss'))"
      using M'i by (auto simp: marked_def st')
    moreover have "i \<notin> marked Visiting st" using None by (simp add: marked_def st)
    ultimately have sets: "marked Visiting st' = marked Visiting st" "marked Visited st' = insert i (marked Visited (M', iss'))"
      using p vg(1) by (auto simp: visit_post_def)
    have "finish_order m ?s1 \<longleftrightarrow> finish_order m st" using vg(2) by (simp add: finish_order_def)
    moreover have "i \<notin> marked Visited (M', iss')" using M'i by (simp add: marked_def)
    ultimately have "iss' = iss \<Longrightarrow> finish_order m st \<Longrightarrow> finish_order m st'"
      using p finish_order_snoc [of m M' iss' i iss'] by (simp add: visit_post_def st')
    then show ?thesis using p sets vg(2) by (auto simp: visit_post_def st st')
  next
    case (Some k)
    then show ?thesis using Suc.prems st by (cases k) (auto simp: visit_post_def marked_def)
  qed
qed simp

lemma fold_opt_inv:
  assumes "fold_opt f xs s = Some s'" "I s" "\<And>x s s'. x \<in> set xs \<Longrightarrow> I s \<Longrightarrow> f x s = Some s' \<Longrightarrow> I s'"
  shows "I s'"
  using assms
proof (induction xs arbitrary: s)
  case (Cons x xs)
  from Cons.prems(1) obtain s1 where s1: "f x s = Some s1" "fold_opt f xs s1 = Some s'" by (auto split: option.splits)
  have "I s1" using Cons.prems(2,3) s1(1) by (meson list.set_intros(1))
  then show ?case using Cons.IH [OF s1(2)] Cons.prems(3) by (meson list.set_intros(2))
qed simp

lemma visit_no_cycle:
  "acyclic (known_rel m) \<Longrightarrow> \<forall>g\<in>marked Visiting st. (g, i) \<in> (known_rel m)\<^sup>+ \<Longrightarrow> visit m n i st = Some st' \<Longrightarrow> snd st' = snd st"
proof (induction n arbitrary: i st st')
  case (Suc n)
  obtain M iss where st: "st = (M, iss)" by fastforce
  show ?case
  proof (cases "M i")
    case None
    let ?s1 = "(M(i \<mapsto> Visiting), iss)"
    from Suc.prems None st obtain M' iss' where f: "fold_opt (\<lambda>p s. visit m n p s) (known_parents m i) ?s1 = Some (M', iss')"
      and st': "st' = (M'(i \<mapsto> Visited), iss')" by (auto split: option.splits)
    have "snd (M', iss') = iss \<and> marked Visiting (M', iss') = marked Visiting ?s1"
    proof (rule fold_opt_inv [OF f])
      fix p s s'
      assume p: "p \<in> set (known_parents m i)" and s: "snd s = iss \<and> marked Visiting s = marked Visiting ?s1" and v: "visit m n p s = Some s'"
      have ip: "(i, p) \<in> known_rel m" using p by (simp add: known_rel_def)
      have "\<forall>g\<in>marked Visiting s. (g, p) \<in> (known_rel m)\<^sup>+"
      proof
        fix g assume "g \<in> marked Visiting s"
        then consider "g = i" | "g \<in> marked Visiting st" using s by (auto simp: marked_def st split: if_splits)
        then show "(g, p) \<in> (known_rel m)\<^sup>+" using ip Suc.prems(2) by cases (auto intro: trancl_into_trancl)
      qed
      from Suc.IH [OF Suc.prems(1) this v] visit_post_visit [OF v] s
      show "snd s' = iss \<and> marked Visiting s' = marked Visiting ?s1" by (simp add: visit_post_def)
    qed (simp_all add: fun_upd_def)
    then show ?thesis by (simp add: st st')
  next
    case (Some k)
    then show ?thesis using Suc.prems st by (cases k) (auto simp: marked_def acyclic_def)
  qed
qed simp

definition unmarked :: "rounds_map \<Rightarrow> visit_state \<Rightarrow> string set" where
  "unmarked m st = {i \<in> dom (map_of m). fst st i = None}"

lemma finite_unmarked [simp]: "finite (unmarked m st)"
  by (rule finite_subset [of _ "dom (map_of m)"]) (auto simp: unmarked_def finite_dom_map_of)

lemma visit_unmarked: "visit m n i st = Some st' \<Longrightarrow> unmarked m st' \<subseteq> unmarked m st"
proof -
  assume v: "visit m n i st = Some st'"
  have "fst s j = None \<longleftrightarrow> j \<notin> marked Visiting s \<union> marked Visited s" for s :: visit_state and j
    by (cases "fst s j") (auto simp: marked_def intro: visit_mark.exhaust)
  then show ?thesis using visit_post_visit [OF v] by (auto simp: unmarked_def visit_post_def)
qed

lemma fold_opt_total:
  assumes "\<And>x s. x \<in> set xs \<Longrightarrow> I s \<Longrightarrow> \<exists>s'. f x s = Some s' \<and> I s'" "I s"
  shows "\<exists>s'. fold_opt f xs s = Some s' \<and> I s'"
  using assms
proof (induction xs arbitrary: s)
  case (Cons x xs)
  from Cons.prems obtain s1 where "f x s = Some s1" "I s1" by (meson list.set_intros(1))
  then show ?case using Cons.IH [of s1] Cons.prems(1) by auto
qed simp

lemma visit_total:
  "i \<in> dom (map_of m) \<Longrightarrow> card (unmarked m st) < n \<Longrightarrow> \<exists>st'. visit m n i st = Some st' \<and> unmarked m st' \<subseteq> unmarked m st"
proof (induction n arbitrary: i st)
  case (Suc n)
  obtain M iss where st: "st = (M, iss)" by fastforce
  have "\<exists>st'. visit m (Suc n) i st = Some st'"
  proof (cases "M i")
    case None
    let ?s1 = "(M(i \<mapsto> Visiting), iss)"
    have "unmarked m ?s1 \<subset> unmarked m st" using None Suc.prems(1) by (auto simp: unmarked_def st)
    then have "card (unmarked m ?s1) < n" using Suc.prems(2) psubset_card_mono [OF finite_unmarked, of "unmarked m ?s1" m st] by simp
    moreover have "card (unmarked m s) \<le> card (unmarked m ?s1)" if "unmarked m s \<subseteq> unmarked m ?s1" for s
      using that by (rule card_mono [OF finite_unmarked])
    ultimately have small: "card (unmarked m s) < n" if "unmarked m s \<subseteq> unmarked m ?s1" for s
      using that by (meson order.strict_trans1)
    have "\<exists>s'. fold_opt (\<lambda>p s. visit m n p s) (known_parents m i) ?s1 = Some s' \<and> unmarked m s' \<subseteq> unmarked m ?s1"
    proof (rule fold_opt_total)
      fix p s assume "p \<in> set (known_parents m i)" and s: "unmarked m s \<subseteq> unmarked m ?s1"
      then have "p \<in> dom (map_of m)" by (auto simp: known_parents_def)
      from Suc.IH [OF this small [OF s]] s show "\<exists>s'. visit m n p s = Some s' \<and> unmarked m s' \<subseteq> unmarked m ?s1" by blast
    qed simp
    then show ?thesis using None st by fastforce
  next
    case (Some k)
    then show ?thesis by (cases k) (auto simp: st)
  qed
  then show ?case using visit_unmarked by blast
qed simp

lemma known_rel_dom: "(i, p) \<in> known_rel m \<Longrightarrow> i \<in> dom (map_of m) \<and> p \<in> dom (map_of m)"
  by (cases "map_of m i") (auto simp: known_rel_def known_parents_def parents_of_def)

lemma finish_order_acyclic:
  assumes "finish_order m st" "dom (map_of m) \<subseteq> marked Visited st"
  shows "acyclic (known_rel m)"
proof -
  obtain L where L: "set L = marked Visited st" "distinct L" "\<And>k. k < length L \<Longrightarrow> set (known_parents m (L ! k)) \<subseteq> set (take k L)"
    using assms(1) by (auto simp: finish_order_def)
  define pos where "pos x = (LEAST k. k < length L \<and> L ! k = x)" for x
  have pos: "k < length L \<Longrightarrow> pos (L ! k) = k" for k
    unfolding pos_def using L(2) by (intro Least_equality) (auto simp: nth_eq_iff_index_eq)
  have "(p, i) \<in> measure pos" if "(i, p) \<in> known_rel m" for i p
  proof -
    have "i \<in> dom (map_of m)" "p \<in> set (known_parents m i)"
      using that known_rel_dom [OF that] by (auto simp: known_rel_def)
    then obtain k where k: "k < length L" "L ! k = i" using assms(2) L(1) by (metis in_set_conv_nth subsetD)
    then have "p \<in> set (take k L)" using L(3) \<open>p \<in> set (known_parents m i)\<close> by blast
    then obtain l where "l < k" "L ! l = p" using k(1) by (auto simp: in_set_conv_nth)
    then show ?thesis using pos [of l] pos [of k] k by simp
  qed
  then have "known_rel m \<subseteq> (measure pos)\<inverse>" by auto
  moreover have "acyclic ((measure pos)\<inverse>)" by (simp add: wf_acyclic)
  ultimately show ?thesis by (rule acyclic_subset [rotated])
qed

lemma known_rel_cycle:
  assumes "(x, y) \<in> (parent_rel m)\<^sup>+" "y \<in> dom (map_of m)"
  shows "(x, y) \<in> (known_rel m)\<^sup>+"
  using assms
proof (induction rule: trancl_induct)
  case (base y)
  then show ?case by (auto simp: known_rel_def known_parents_def parent_rel_def)
next
  case (step y z)
  have "y \<in> dom (map_of m)" using step.hyps(2) by (auto simp: parent_rel_iff)
  moreover have "(y, z) \<in> known_rel m" using step by (auto simp: known_rel_def known_parents_def parent_rel_def)
  ultimately show ?case using step.IH by (meson trancl_into_trancl)
qed

lemma acyclic_known_rel: "acyclic (known_rel m) \<longleftrightarrow> acyclic (parent_rel m)"
proof
  assume k: "acyclic (known_rel m)"
  show "acyclic (parent_rel m)"
  proof (rule acyclicI, rule allI, rule notI)
    fix x assume x: "(x, x) \<in> (parent_rel m)\<^sup>+"
    then obtain z where "(x, z) \<in> parent_rel m" by (meson tranclD)
    then have "x \<in> dom (map_of m)" by (auto simp: parent_rel_iff)
    from known_rel_cycle [OF x this] k show False by (simp add: acyclic_def)
  qed
next
  assume "acyclic (parent_rel m)"
  moreover have "known_rel m \<subseteq> parent_rel m" by (auto simp: known_rel_def known_parents_def parent_rel_def)
  ultimately show "acyclic (known_rel m)" by (rule acyclic_subset)
qed

lemma cycle_issues_exact: "cycle_issues (rounds_by_id rs) rs = [] \<longleftrightarrow> acyclic (parent_rel (rounds_by_id rs))"
proof -
  let ?m = "rounds_by_id rs" and ?s = "(Map.empty, []) :: visit_state"
  have ids: "set (map roundId rs) = dom (map_of ?m)" by (simp add: dom_rounds_by_id)
  have "card (unmarked ?m st) \<le> length ?m" for st
  proof -
    have "unmarked ?m st \<subseteq> set (map fst ?m)" by (auto simp: unmarked_def dom_map_of_conv_image_fst)
    then have "card (unmarked ?m st) \<le> card (set (map fst ?m))" by (rule card_mono [OF finite_set])
    then show ?thesis using card_length [of "map fst ?m"] by simp
  qed
  then have tot: "i \<in> dom (map_of ?m) \<Longrightarrow> \<exists>st'. visit ?m (Suc (length ?m)) i st = Some st'" for i st
    using visit_total [of i ?m st "Suc (length ?m)"] by (auto simp: less_Suc_eq_le)
  obtain M iss where f: "fold_opt (visit ?m (Suc (length ?m))) (map roundId rs) ?s = Some (M, iss)"
    using fold_opt_total [where I = "\<lambda>_. True" and f = "visit ?m (Suc (length ?m))" and xs = "map roundId rs" and s = ?s] tot ids by fastforce
  have p: "visit_post ?m (dom (map_of ?m)) ?s (M, iss)"
    using fold_visit_post [OF _ f, of ?m] visit_post_visit ids by metis
  have "finish_order ?m ?s" by (auto simp: finish_order_def marked_def)
  then have "iss = [] \<Longrightarrow> acyclic (known_rel ?m)" using p finish_order_acyclic [of ?m "(M, iss)"] by (simp add: visit_post_def)
  moreover have "iss = []" if "acyclic (known_rel ?m)"
  proof -
    have "snd (M, iss) = [] \<and> marked Visiting (M, iss) = {}"
    proof (rule fold_opt_inv [OF f])
      fix x s s' assume s: "snd s = [] \<and> marked Visiting s = {}" and v: "visit ?m (Suc (length ?m)) x s = Some s'"
      have "snd s' = snd s" by (rule visit_no_cycle [OF that _ v]) (use s in blast)
      moreover have "marked Visiting s' = marked Visiting s" using visit_post_visit [OF v] unfolding visit_post_def by blast
      ultimately show "snd s' = [] \<and> marked Visiting s' = {}" using s by argo
    qed (simp add: marked_def)
    then show ?thesis by simp
  qed
  moreover have "cycle_issues ?m rs = iss" by (simp only: cycle_issues_def f option.case prod.case)
  ultimately show ?thesis using acyclic_known_rel [of ?m] by blast
qed

section \<open>What a valid bundle is\<close>

definition outputs :: "round_record \<Rightarrow> string \<Rightarrow> bool" where
  "outputs r s \<longleftrightarrow> outputSnapshotId r = Some s \<and> s \<noteq> []"

definition output_list :: "round_record list \<Rightarrow> string list" where
  "output_list rs = map (the \<circ> outputSnapshotId) (filter (\<lambda>r. truthy_str (outputSnapshotId r)) rs)"

definition available :: "inquiry_journey \<Rightarrow> string \<Rightarrow> string \<Rightarrow> bool" where
  "available j i s \<longleftrightarrow> s \<in> set (originSnapshotIds j) \<or>
     (\<exists>q\<in>set (roundRecords j). outputs q s \<and> (i, roundId q) \<in> (round_rel (roundRecords j))\<^sup>+)"

definition card_in :: "round_snapshot list \<Rightarrow> card_address \<Rightarrow> bool" where
  "card_in ss a \<longleftrightarrow> (\<exists>s\<in>set ss. snapshotId s = addr_snapshotId a \<and> addr_cardId a \<in> card_id ` set (cards (snap_document s)))"

definition artifact_in :: "round_snapshot list \<Rightarrow> artifact_ref \<Rightarrow> bool" where
  "artifact_in ss x \<longleftrightarrow> (\<exists>s\<in>set ss. snapshotId s = ref_snapshotId x \<and> ref_entityId x \<in> set (getArtifactIds s (ref_kind x)))"

definition round_fields_ok :: "(string \<Rightarrow> int option) \<Rightarrow> round_record \<Rightarrow> bool" where
  "round_fields_ok dp r \<longleftrightarrow> times_ok dp (round_createdAt r) (round_updatedAt r) \<and> stage r \<in> set ROUND_STAGES \<and>
     status r \<in> set ROUND_STATUSES \<and> safe_integer (iteration r) \<and> 1 \<le> iteration r \<and>
     (status r \<noteq> ''working'' \<longrightarrow> (\<exists>s. outputs r s))"

definition snapshot_ok :: "(string \<Rightarrow> int option) \<Rightarrow> round_snapshot \<Rightarrow> bool" where
  "snapshot_ok dp s \<longleftrightarrow> snap_schemaVersion s = INQUIRY_SCHEMA_VERSION \<and> digest_ok (canonicalDigest s) \<and>
     isCanonicalTimestamp dp (snap_createdAt s) \<and> distinct (map card_id (cards (snap_document s)))"

definition handoff_ok :: "round_snapshot list \<Rightarrow> round_handoff \<Rightarrow> bool" where
  "handoff_ok ss h \<longleftrightarrow> (\<forall>x\<in>set (carryoverRefs h) \<union> set (heldRefs h). artifact_in ss x) \<and>
     (\<forall>q\<in>set (fieldworkRequests h). \<forall>out. outcome q = Some out \<longrightarrow> (\<forall>a\<in>set (responseCardRefs out). card_in ss a))"

definition lineage_ok :: "inquiry_bundle \<Rightarrow> lineage_edge \<Rightarrow> bool" where
  "lineage_ok b e \<longleftrightarrow> \<not> lineage_cardinality_bad e \<and>
     (\<forall>a\<in>set (fst (getLineageAddresses e)) \<union> set (snd (getLineageAddresses e)). card_in (snapshots b) a) \<and>
     (\<forall>t\<in>set (snd (getLineageAddresses e)). \<exists>q\<in>set (roundRecords (journey b)). outputs q (addr_snapshotId t) \<and>
        (\<forall>f\<in>set (fst (getLineageAddresses e)). available (journey b) (roundId q) (addr_snapshotId f)))"

definition export_ok :: "inquiry_bundle \<Rightarrow> bool" where
  "export_ok b \<longleftrightarrow> (\<forall>sel. exportInfo b = Some (RoundExport sel) \<longrightarrow>
     headRoundIds (journey b) = [sel] \<and> defaultHeadRoundId (journey b) = Some sel)"

definition bundle_ok :: "(string \<Rightarrow> int option) \<Rightarrow> inquiry_bundle \<Rightarrow> bool" where
  "bundle_ok dp b \<longleftrightarrow>
     bundle_schemaVersion b = INQUIRY_SCHEMA_VERSION \<and> journey_schemaVersion (journey b) = INQUIRY_SCHEMA_VERSION \<and>
     journey_ok dp (journey b) \<and> (\<forall>r\<in>set (roundRecords (journey b)). round_fields_ok dp r) \<and> export_ok b \<and>
     distinct (map snapshotId (snapshots b)) \<and> (\<forall>s\<in>set (snapshots b). snapshot_ok dp s) \<and>
     originSnapshotIds (journey b) \<noteq> [] \<and> distinct (originSnapshotIds (journey b)) \<and>
     distinct (output_list (roundRecords (journey b))) \<and>
     set (originSnapshotIds (journey b)) \<inter> set (output_list (roundRecords (journey b))) = {} \<and>
     set (originSnapshotIds (journey b)) \<union> set (output_list (roundRecords (journey b))) = snapshotId ` set (snapshots b) \<and>
     (\<forall>r\<in>set (roundRecords (journey b)). distinct (inputSnapshotIds r) \<and>
        (\<forall>i\<in>set (inputSnapshotIds r). available (journey b) (roundId r) i) \<and> (\<forall>h. handoff r = Some h \<longrightarrow> handoff_ok (snapshots b) h)) \<and>
     distinct (map lineageId (cardLineage b)) \<and> (\<forall>e\<in>set (cardLineage b). lineage_ok b e)"

section \<open>Each block of the validator\<close>

lemma times_ok_issue:
  "\<not> isCanonicalTimestamp dp c \<or> \<not> isCanonicalTimestamp dp u \<or> parse_less dp u c \<longleftrightarrow> \<not> times_ok dp c u"
  by (auto simp: times_ok_def)

lemma if_issue_Nil: "(if c then [x] else []) = [] \<longleftrightarrow> \<not> c"
  by simp

lemma schema_issues_Nil:
  "schema_issues dp b = [] \<longleftrightarrow> bundle_schemaVersion b = INQUIRY_SCHEMA_VERSION \<and>
     journey_schemaVersion (journey b) = INQUIRY_SCHEMA_VERSION \<and> times_ok dp (journey_createdAt (journey b)) (journey_updatedAt (journey b))"
  unfolding schema_issues_def times_ok_issue by simp

lemma truthy_outputs: "truthy_str (outputSnapshotId r) \<longleftrightarrow> (\<exists>s. outputs r s)"
  by (cases "outputSnapshotId r") (auto simp: outputs_def)

lemma round_issues_Nil:
  "round_issues dp (rounds_by_id rs) r = [] \<longleftrightarrow> round_fields_ok dp r \<and> distinct (parentRoundIds r) \<and>
     set (parentRoundIds r) \<subseteq> roundId ` set rs \<and> iteration r = expectedIteration r (rounds_by_id rs)"
proof -
  have f: "filter (\<lambda>p. map_of (rounds_by_id rs) p = None) ps = [] \<longleftrightarrow> set ps \<subseteq> roundId ` set rs" for ps
    unfolding filter_empty_conv dom_rounds_by_id [symmetric] by blast
  show ?thesis
    unfolding round_issues_def times_ok_issue append_is_Nil_conv map_is_Nil_conv if_issue_Nil findDuplicates_Nil f round_fields_ok_def
      truthy_outputs de_Morgan_disj not_not not_less by blast
qed

lemma head_issues_Nil:
  assumes "m = rounds_by_id (roundRecords (journey b))"
  shows "head_issues b m = [] \<longleftrightarrow> distinct (headRoundIds (journey b)) \<and>
     set (headRoundIds (journey b)) = leaves (roundRecords (journey b)) \<and>
     (\<forall>h. defaultHeadRoundId (journey b) = Some h \<longrightarrow> h \<in> set (headRoundIds (journey b))) \<and> export_ok b"
proof -
  let ?j = "journey b"
  let ?hs = "headRoundIds ?j" and ?rs = "roundRecords ?j"
  have leaf: "set (uniq (filter (\<lambda>i. i \<notin> set (uniq (concat (map parentRoundIds ?rs)))) (map roundId ?rs))) = leaves ?rs"
    by (auto simp: leaves_def)
  have known: "map_of m h = None \<or> h \<notin> leaves ?rs \<longleftrightarrow> h \<notin> leaves ?rs" for h
    using dom_rounds_by_id [of ?rs] assms by (auto simp: leaves_def)
  have "(case exportInfo b of Some (RoundExport sel) \<Rightarrow> if length ?hs \<noteq> 1 \<or> ?hs ! 0 \<noteq> sel \<or> defaultHeadRoundId ?j \<noteq> Some sel
          then [(I_invalid_export_info, ''exportInfo.selectedRoundId'')] else [] | _ \<Rightarrow> []) = [] \<longleftrightarrow> export_ok b"
    by (auto simp: export_ok_def length_Suc_conv split: option.splits export_info.splits)
  moreover have "filter (\<lambda>h. h \<notin> leaves ?rs) (uniq ?hs) = [] \<and> filter (\<lambda>l. l \<notin> set ?hs)
        (uniq (filter (\<lambda>i. i \<notin> set (uniq (concat (map parentRoundIds ?rs)))) (map roundId ?rs))) = [] \<longleftrightarrow> set ?hs = leaves ?rs"
    unfolding filter_empty_conv leaf by auto
  ultimately show ?thesis
    unfolding head_issues_def Let_def leaf known
    by (auto simp: findDuplicates_Nil split: option.splits)
qed

lemma snapshot_issues_Nil: "snapshot_issues dp s = [] \<longleftrightarrow> snapshot_ok dp s"
  by (simp add: snapshot_issues_def snapshot_ok_def findDuplicates_Nil)

lemma dom_snapshots_by_id: "map_of (snapshots_by_id ss) i = None \<longleftrightarrow> i \<notin> snapshotId ` set ss"
proof -
  have "dom (map_of (snapshots_by_id ss)) = snapshotId ` set ss"
    by (simp add: snapshots_by_id_def dom_map_of_conv_image_fst image_image)
  then show ?thesis by blast
qed

lemma map_of_snapshots_by_id:
  "distinct (map snapshotId ss) \<Longrightarrow> map_of (snapshots_by_id ss) i = Some s \<longleftrightarrow> s \<in> set ss \<and> snapshotId s = i"
  unfolding snapshots_by_id_def by (subst map_of_new_map_distinct) (auto simp: o_def map_of_eq_Some_iff)

lemma origin_issues_Nil:
  "origin_issues j (snapshots_by_id ss) = [] \<longleftrightarrow> originSnapshotIds j \<noteq> [] \<and> distinct (originSnapshotIds j) \<and>
     set (originSnapshotIds j) \<subseteq> snapshotId ` set ss"
  by (auto simp: origin_issues_def findDuplicates_Nil filter_empty_conv dom_snapshots_by_id)

lemma output_list_snoc:
  "output_list (rs @ [r]) = output_list rs @ (if truthy_str (outputSnapshotId r) then [the (outputSnapshotId r)] else [])"
  by (simp add: output_list_def)

lemma set_output_list: "set (output_list rs) = {s. \<exists>r\<in>set rs. outputs r s}"
proof -
  have "s \<in> set (output_list rs) \<longleftrightarrow> (\<exists>r\<in>set rs. outputs r s)" for s
    by (induction rs rule: rev_induct) (auto simp: output_list_snoc truthy_outputs, auto simp: output_list_def outputs_def)
  then show ?thesis by blast
qed

lemma output_owners_snoc: "output_owners sn og (rs @ [r]) = output_step sn og r (output_owners sn og rs)"
  by (simp add: output_owners_def)

lemma find_snoc: "find P (xs @ [x]) = (case find P xs of None \<Rightarrow> if P x then Some x else None | Some y \<Rightarrow> Some y)"
  by (induction xs) auto

lemma find_id_truthy:
  assumes "[] \<notin> roundId ` set rs"
  shows "truthy_str (map_option roundId (find P rs)) \<longleftrightarrow> (\<exists>r\<in>set rs. P r)"
proof (cases "find P rs")
  case None
  then have "\<not> (\<exists>r\<in>set rs. P r)" by (auto simp: find_None_iff)
  then show ?thesis using None by simp
next
  case (Some r)
  then have "r \<in> set rs" "P r" by (auto simp: find_Some_iff)
  moreover have "roundId r \<noteq> []" using \<open>r \<in> set rs\<close> assms by force
  ultimately show ?thesis using Some by (auto simp: truthy_str_def)
qed

lemma owners_spec:
  assumes "[] \<notin> roundId ` set rs"
  shows "map_of (fst (output_owners sn og rs)) s = map_option roundId (find (\<lambda>r. outputs r s) rs)"
  using assms
proof (induction rs arbitrary: s rule: rev_induct)
  case Nil
  then show ?case by (simp add: output_owners_def)
next
  case (snoc r rs)
  obtain ow iss where o: "output_owners sn og rs = (ow, iss)" by fastforce
  have ne: "[] \<notin> roundId ` set rs" using snoc.prems by simp
  have IH: "map_of ow t = map_option roundId (find (\<lambda>r. outputs r t) rs)" for t using snoc.IH [OF ne, of t] o by simp
  show ?case
  proof (cases "truthy_str (outputSnapshotId r)")
    case False
    then have "\<not> outputs r s" by (auto simp: truthy_outputs)
    then show ?thesis using False IH [of s] by (simp add: output_owners_snoc o output_step_def find_snoc split: option.split)
  next
    case True
    then obtain out where out: "outputSnapshotId r = Some out" "out \<noteq> []" by (auto simp: truthy_outputs outputs_def)
    have os: "outputs r s \<longleftrightarrow> s = out" using out by (auto simp: outputs_def)
    have taken: "truthy_str (map_of ow out) \<longleftrightarrow> find (\<lambda>r. outputs r out) rs \<noteq> None"
      unfolding IH find_id_truthy [OF ne] by (auto simp: find_None_iff)
    show ?thesis using True out taken IH [of s] os
      by (auto simp: output_owners_snoc o output_step_def Let_def find_snoc update_conv' split: option.split)
  qed
qed

lemma owner_issues_Nil:
  assumes "[] \<notin> roundId ` set rs"
  shows "snd (output_owners (snapshots_by_id ss) og rs) = [] \<longleftrightarrow> distinct (output_list rs) \<and>
    set (output_list rs) \<inter> set og = {} \<and> set (output_list rs) \<subseteq> snapshotId ` set ss"
  using assms
proof (induction rs rule: rev_induct)
  case Nil
  then show ?case by (simp add: output_owners_def output_list_def)
next
  case (snoc r rs)
  obtain ow iss where o: "output_owners (snapshots_by_id ss) og rs = (ow, iss)" by fastforce
  have ne: "[] \<notin> roundId ` set rs" using snoc.prems by simp
  have IH: "iss = [] \<longleftrightarrow> distinct (output_list rs) \<and> set (output_list rs) \<inter> set og = {} \<and> set (output_list rs) \<subseteq> snapshotId ` set ss"
    using snoc.IH [OF ne] o by simp
  show ?case
  proof (cases "truthy_str (outputSnapshotId r)")
    case False
    then show ?thesis using IH by (simp add: output_owners_snoc o output_step_def output_list_snoc)
  next
    case True
    then obtain out where out: "outputSnapshotId r = Some out" "out \<noteq> []" by (auto simp: truthy_outputs outputs_def)
    have "map_of ow out = map_option roundId (find (\<lambda>r. outputs r out) rs)" using owners_spec [OF ne, of "snapshots_by_id ss" og out] o by simp
    then have taken: "truthy_str (map_of ow out) \<longleftrightarrow> out \<in> set (output_list rs)"
      using find_id_truthy [OF ne, of "\<lambda>r. outputs r out"] by (simp add: set_output_list)
    show ?thesis
      using IH True out taken by (auto simp: output_owners_snoc o output_step_def Let_def output_list_snoc dom_snapshots_by_id)
  qed
qed

lemma unowned_issues_Nil:
  assumes "[] \<notin> roundId ` set rs"
  shows "unowned_issues ss og (fst (output_owners sn og' rs)) = [] \<longleftrightarrow> snapshotId ` set ss \<subseteq> set og \<union> set (output_list rs)"
  by (auto simp: unowned_issues_def filter_empty_conv owners_spec [OF assms] find_None_iff set_output_list)

lemma find_unique:
  assumes "distinct (output_list rs)" "q \<in> set rs" "outputs q s"
  shows "find (\<lambda>r. outputs r s) rs = Some q"
  using assms
proof (induction rs rule: rev_induct)
  case (snoc r rs)
  show ?case
  proof (cases "q \<in> set rs")
    case True
    then show ?thesis using snoc by (auto simp: find_snoc output_list_snoc split: if_splits)
  next
    case False
    then have "q = r" using snoc.prems(2) by simp
    then have "s \<notin> set (output_list rs)" using snoc.prems by (auto simp: output_list_snoc outputs_def split: if_splits)
    then have "find (\<lambda>r. outputs r s) rs = None" by (auto simp: set_output_list find_None_iff)
    then show ?thesis using \<open>q = r\<close> snoc.prems(3) by (simp add: find_snoc)
  qed
qed simp

lemma owner_of:
  assumes "[] \<notin> roundId ` set rs" "distinct (output_list rs)"
  shows "(truthy_str (map_of (fst (output_owners sn og rs)) s) \<and> P (the (map_of (fst (output_owners sn og rs)) s))) \<longleftrightarrow>
    (\<exists>q\<in>set rs. outputs q s \<and> P (roundId q))"
proof (cases "\<exists>q\<in>set rs. outputs q s")
  case True
  then obtain q where q: "q \<in> set rs" "outputs q s" by blast
  note f = find_unique [OF assms(2) q]
  have ne: "roundId q \<noteq> []" using q(1) assms(1) by force
  have same: "q' = q" if "q' \<in> set rs" "outputs q' s" for q' using find_unique [OF assms(2) that] f by simp
  have "map_of (fst (output_owners sn og rs)) s = Some (roundId q)" unfolding owners_spec [OF assms(1)] f by simp
  moreover have "(\<exists>q\<in>set rs. outputs q s \<and> P (roundId q)) \<longleftrightarrow> P (roundId q)" using q same by metis
  ultimately show ?thesis using ne by simp
next
  case False
  then have "find (\<lambda>r. outputs r s) rs = None" by (auto simp: find_None_iff)
  then show ?thesis using False by (simp add: owners_spec [OF assms(1)])
qed

lemma source_available:
  assumes "[] \<notin> roundId ` set (roundRecords j)" "distinct (output_list (roundRecords j))" "distinct (map roundId (roundRecords j))"
    and ow: "ow = fst (output_owners sn og (roundRecords j))" and m: "m = rounds_by_id (roundRecords j)"
  shows "\<not> (s \<notin> set (uniq (originSnapshotIds j)) \<and> (\<not> truthy_str (map_of ow s) \<or> the (map_of ow s) \<notin> set (collectAncestorIds k m))) \<longleftrightarrow> available j k s"
  using owner_of [OF assms(1,2), where P = "\<lambda>i. i \<in> set (collectAncestorIds k m)" and s = s and sn = sn and og = og]
  unfolding available_def set_collectAncestorIds m ow parent_rel_rounds [OF assms(3)] set_uniq by blast

lemma snapshot_lookup:
  assumes "distinct (map snapshotId ss)"
  shows "(\<exists>s\<in>set ss. snapshotId s = i \<and> Q s) \<longleftrightarrow> (case map_of (snapshots_by_id ss) i of None \<Rightarrow> False | Some s \<Rightarrow> Q s)"
proof (cases "map_of (snapshots_by_id ss) i")
  case None
  then have "i \<notin> snapshotId ` set ss" by (rule dom_snapshots_by_id [THEN iffD1])
  then have "\<not> (\<exists>s\<in>set ss. snapshotId s = i \<and> Q s)" by blast
  then show ?thesis by (simp only: None option.case)
next
  case (Some s)
  have "s' = s \<longleftrightarrow> s' \<in> set ss \<and> snapshotId s' = i" for s'
    using map_of_snapshots_by_id [OF assms, of i s'] Some by auto
  then show ?thesis unfolding Some option.case by metis
qed

lemma has_card_iff: "distinct (map snapshotId ss) \<Longrightarrow> has_card (snapshots_by_id ss) a \<longleftrightarrow> card_in ss a"
  unfolding has_card_def card_in_def list_ex_iff by (simp only: snapshot_lookup image_iff) (simp only: eq_commute)

lemma concat_map_Nil: "concat (map f xs) = [] \<longleftrightarrow> (\<forall>x\<in>set xs. f x = [])"
  by auto

lemma input_issues_Nil:
  assumes "[] \<notin> roundId ` set (roundRecords j)" "distinct (output_list (roundRecords j))" "distinct (map roundId (roundRecords j))"
    and ow: "ow = fst (output_owners sn og (roundRecords j))" and m: "m = rounds_by_id (roundRecords j)"
  shows "input_issues m (snapshots_by_id ss) (uniq (originSnapshotIds j)) ow r = [] \<longleftrightarrow>
    distinct (inputSnapshotIds r) \<and> (\<forall>i\<in>set (inputSnapshotIds r). i \<in> snapshotId ` set ss \<and> available j (roundId r) i)"
proof -
  have if2: "(if a then [x] else if b then [y] else []) = [] \<longleftrightarrow> \<not> a \<and> \<not> b" for a b and x y :: issue by simp
  show ?thesis
    unfolding input_issues_def Let_def append_is_Nil_conv map_is_Nil_conv findDuplicates_Nil concat_map_Nil if2
      source_available [OF assms] dom_snapshots_by_id not_not ..
qed

lemma handoff_issues_Nil:
  assumes "distinct (map snapshotId ss)"
  shows "handoff_issues (snapshots_by_id ss) r = [] \<longleftrightarrow> (\<forall>h. handoff r = Some h \<longrightarrow> handoff_ok ss h)"
proof -
  have art: "(case map_of (snapshots_by_id ss) (ref_snapshotId x) of None \<Rightarrow> [i]
      | Some s \<Rightarrow> if ref_entityId x \<notin> set (getArtifactIds s (ref_kind x)) then [i] else []) = [] \<longleftrightarrow> artifact_in ss x" for x and i :: issue
    unfolding artifact_in_def snapshot_lookup [OF assms] by (simp split: option.split)
  have ifc: "(if c then [] else [i]) = [] \<longleftrightarrow> c" for c and i :: issue by simp
  show ?thesis
  proof (cases "handoff r")
    case None
    then show ?thesis by (simp add: handoff_issues_def)
  next
    case (Some h)
    show ?thesis
      unfolding handoff_issues_def Some option.case append_is_Nil_conv concat_map_Nil art ifc has_card_iff [OF assms] handoff_ok_def set_append
      by (force split: option.split)
  qed
qed

lemma lineage_issues_Nil:
  assumes "[] \<notin> roundId ` set (roundRecords (journey b))" "distinct (output_list (roundRecords (journey b)))"
    "distinct (map roundId (roundRecords (journey b)))" "distinct (map snapshotId (snapshots b))"
    and ow: "ow = fst (output_owners sn og (roundRecords (journey b)))" and m: "m = rounds_by_id (roundRecords (journey b))"
  shows "lineage_issues m (snapshots_by_id (snapshots b)) (uniq (originSnapshotIds (journey b))) ow e = [] \<longleftrightarrow> lineage_ok b e"
proof -
  obtain fs ts where a: "getLineageAddresses e = (fs, ts)" by fastforce
  have ifc: "(if c then [] else [i]) = [] \<longleftrightarrow> c" "(if \<not> c then [i] else is') = [] \<longleftrightarrow> c \<and> is' = []" for c and i :: issue and is' by simp_all
  have dir: "truthy_str (map_of ow s) \<and> (\<forall>f\<in>set fs. available (journey b) (the (map_of ow s)) (addr_snapshotId f)) \<longleftrightarrow>
      (\<exists>q\<in>set (roundRecords (journey b)). outputs q s \<and> (\<forall>f\<in>set fs. available (journey b) (roundId q) (addr_snapshotId f)))" for s
    unfolding ow using owner_of [OF assms(1,2), where P = "\<lambda>k. \<forall>f\<in>set fs. available (journey b) k (addr_snapshotId f)"] .
  show ?thesis
    unfolding lineage_issues_def lineage_ok_def a prod.case Let_def append_is_Nil_conv concat_map_Nil ifc(1) has_card_iff [OF assms(4)]
      if_issue_Nil source_available [OF assms(1-3) ow m] fst_conv snd_conv set_append dir [symmetric] ifc(2) ..
qed

lemma expected_in_consistent:
  "distinct (map roundId rs) \<and> (\<forall>r\<in>set rs. round_issues dp (rounds_by_id rs) r = []) \<and> cycle_issues (rounds_by_id rs) rs = [] \<longleftrightarrow>
   rounds_ok rs \<and> (\<forall>r\<in>set rs. round_fields_ok dp r)"
  unfolding rounds_ok_iff rounds_consistent_def round_issues_Nil cycle_issues_exact by blast

lemma validate_blocks:
  "validateInquiryBundle dp b = [] \<longleftrightarrow>
    (let j = journey b; rounds = roundRecords j; m = rounds_by_id rounds; snaps = snapshots_by_id (snapshots b);
         originIds = uniq (originSnapshotIds j); ow = output_owners snaps originIds rounds
     in schema_issues dp b = [] \<and> distinct (map roundId rounds) \<and> (\<forall>r\<in>set rounds. round_issues dp m r = []) \<and>
        cycle_issues m rounds = [] \<and> head_issues b m = [] \<and> distinct (map snapshotId (snapshots b)) \<and>
        (\<forall>s\<in>set (snapshots b). snapshot_ok dp s) \<and> origin_issues j snaps = [] \<and> snd ow = [] \<and>
        unowned_issues (snapshots b) originIds (fst ow) = [] \<and>
        (\<forall>r\<in>set rounds. input_issues m snaps originIds (fst ow) r = [] \<and> handoff_issues snaps r = []) \<and>
        distinct (map lineageId (cardLineage b)) \<and> (\<forall>e\<in>set (cardLineage b). lineage_issues m snaps originIds (fst ow) e = []))"
  unfolding validateInquiryBundle_def Let_def case_prod_beta append_is_Nil_conv map_is_Nil_conv findDuplicates_Nil concat_map_Nil
    snapshot_issues_Nil ..

lemma validator_iff:
  assumes "[] \<notin> roundId ` set (roundRecords (journey b))"
  shows "validateInquiryBundle dp b = [] \<longleftrightarrow> bundle_ok dp b"
proof (cases "distinct (map roundId (roundRecords (journey b))) \<and> distinct (map snapshotId (snapshots b)) \<and>
    distinct (output_list (roundRecords (journey b)))")
  case True
  let ?j = "journey b"
  note d = True [THEN conjunct1] True [THEN conjunct2, THEN conjunct1] True [THEN conjunct2, THEN conjunct2]
  let ?rs = "roundRecords ?j" and ?snap = "snapshotId ` set (snapshots b)" and ?og = "set (originSnapshotIds ?j)"
  let ?out = "set (output_list ?rs)"
  note ex = expected_in_consistent [of ?rs dp]
  have times: "(\<forall>r\<in>set ?rs. round_fields_ok dp r) \<Longrightarrow> \<forall>r\<in>set ?rs. times_ok dp (round_createdAt r) (round_updatedAt r)"
    by (simp add: round_fields_ok_def)
  have cover: "?og \<subseteq> ?snap \<and> ?out \<subseteq> ?snap \<and> ?snap \<subseteq> ?og \<union> ?out \<longleftrightarrow> ?og \<union> ?out = ?snap" by blast
  have "available ?j k i \<Longrightarrow> i \<in> ?og \<union> ?out" for k i by (auto simp: available_def set_output_list)
  then have inputs: "?og \<union> ?out = ?snap \<Longrightarrow>
      (\<forall>r\<in>set ?rs. (distinct (inputSnapshotIds r) \<and> (\<forall>i\<in>set (inputSnapshotIds r). i \<in> ?snap \<and> available ?j (roundId r) i)) \<and>
         (\<forall>h. handoff r = Some h \<longrightarrow> handoff_ok (snapshots b) h)) \<longleftrightarrow>
      (\<forall>r\<in>set ?rs. distinct (inputSnapshotIds r) \<and> (\<forall>i\<in>set (inputSnapshotIds r). available ?j (roundId r) i) \<and>
         (\<forall>h. handoff r = Some h \<longrightarrow> handoff_ok (snapshots b) h))" by blast
  have dis: "?out \<inter> ?og = {} \<longleftrightarrow> ?og \<inter> ?out = {}" by blast
  show ?thesis
    unfolding validate_blocks Let_def schema_issues_Nil head_issues_Nil [OF refl] origin_issues_Nil owner_issues_Nil [OF assms]
      unowned_issues_Nil [OF assms] input_issues_Nil [OF assms d(3,1) refl refl] handoff_issues_Nil [OF d(2)]
      lineage_issues_Nil [OF assms d(3,1,2) refl refl] set_uniq bundle_ok_def journey_ok_def dis
    using ex times cover inputs by argo
next
  case False
  have "\<not> bundle_ok dp b" using False unfolding bundle_ok_def journey_ok_def rounds_ok_def by blast
  moreover have "validateInquiryBundle dp b \<noteq> []"
    using False owner_issues_Nil [OF assms, of "snapshots b" "uniq (originSnapshotIds (journey b))"] unfolding validate_blocks Let_def by blast
  ultimately show ?thesis by blast
qed

text \<open>C11. The validator is exact: for a bundle whose rounds have non-empty identifiers it reports no issue exactly when
  the bundle is valid, that is: schema versions match; the rounds form an acyclic graph with existing parents and
  correct iterations; heads are the leaves; snapshots are well formed and every one of them is either an origin or
  the output of exactly one round; every input and every lineage source is an origin or the output of an ancestor;
  and every hand-off reference and lineage card exists.\<close>

theorem validator_exact:
  assumes "[] \<notin> roundId ` set (roundRecords (journey b))"
  shows "validateInquiryBundle dp b = [] \<longleftrightarrow> bundle_ok dp b"
  using assms by (rule validator_iff)

definition ex_bundle :: inquiry_bundle where
  "ex_bundle = \<lparr>bundle_schemaVersion = INQUIRY_SCHEMA_VERSION, journey = ex_journey,
     snapshots = [\<lparr>snap_schemaVersion = INQUIRY_SCHEMA_VERSION, snapshotId = ''s0'', snap_createdAt = ''1970-01-01T00:00:00.000Z'',
       canonicalDigest = ''sha256:'' @ replicate 64 (CHR ''a''), snap_document = mk_doc [] [] []\<rparr>],
     cardLineage = [], exportInfo = None\<rparr>"

theorem validator_exact_witness: "validateInquiryBundle ex_dp ex_bundle = []"
proof -
  have "isCanonicalTimestamp ex_dp ''1970-01-01T00:00:00.000Z''" using ex_times by (simp add: times_ok_def)
  moreover have "digest_ok (''sha256:'' @ replicate 64 (CHR ''a''))" by code_simp
  ultimately have "bundle_ok ex_dp ex_bundle"
    using ex_journey_ok
    unfolding bundle_ok_def ex_bundle_def inquiry_bundle.simps snapshot_ok_def export_ok_def
    by (simp add: ex_journey_def output_list_def)
  moreover have "[] \<notin> roundId ` set (roundRecords (journey ex_bundle))" by (simp add: ex_bundle_def ex_journey_def)
  ultimately show ?thesis using validator_exact by blast
qed

end
