(* ===== verification/Document_Diff.thy ===== *)
theory Document_Diff
  imports Patch_Core
begin

text \<open>
  \<open>domain/diff/doc_diff.ts\<close>: the comparison of two documents that the diff view shows (identifiers
  added and removed, changed texts, island membership and summaries, relation summaries, reading
  order). \<open>diffDocuments\<close> is one definition per section of its result.
\<close>

record text_change =
  tc_id :: string
  aText :: string
  bText :: string

record membership_change =
  mc_id :: string
  addedCardIds :: "string list"
  mc_removedCardIds :: "string list"

record summary_change =
  sc_id :: string
  aSummary :: "string option"
  bSummary :: "string option"
  sc_aReviewed :: "bool option"
  sc_bReviewed :: "bool option"

record reviewed_change =
  rc_id :: string
  rc_aReviewed :: bool
  rc_bReviewed :: bool

record warnings_change =
  wc_id :: string
  aWarnings :: "string list"
  bWarnings :: "string list"

record cards_diff =
  cd_added :: "string list"
  cd_removed :: "string list"
  cd_changedText :: "text_change list"

record islands_diff =
  id_added :: "string list"
  id_removed :: "string list"
  membershipChanged :: "membership_change list"
  summaryChanged :: "summary_change list"

record relations_diff =
  rd_added :: "string list"
  rd_removed :: "string list"
  rd_changedText :: "text_change list"
  changedReviewed :: "reviewed_change list"
  warningsChanged :: "warnings_change list"

record order_diff =
  od_changed :: bool
  od_firstDifferingIndex :: int
  aOrder :: "string list"
  bOrder :: "string list"

record diff_result =
  dr_cards :: cards_diff
  dr_islands :: islands_diff
  dr_relationSummaries :: relations_diff
  dr_readingOrder :: order_diff

definition sortedIds :: "js_engine \<Rightarrow> string list \<Rightarrow> string list" where
  "sortedIds E values = sort_by (eng_le E) values"

definition toIslandMap :: "island list \<Rightarrow> (string \<times> island) list" where
  "toIslandMap xs = new_map (map (\<lambda>x. (island_id x, x)) xs)"

definition normalizeWarnings :: "js_engine \<Rightarrow> relation_summary \<Rightarrow> string list" where
  "normalizeWarnings E r = sortedIds E (nullish (rel_warnings r) [])"

fun first_diff_from :: "nat \<Rightarrow> string list \<Rightarrow> string list \<Rightarrow> nat option" where
  "first_diff_from n (x # xs) (y # ys) = (if x \<noteq> y then Some n else first_diff_from (Suc n) xs ys)"
| "first_diff_from n _ _ = None"

definition firstDifferingIndex :: "string list \<Rightarrow> string list \<Rightarrow> int" where
  "firstDifferingIndex a b =
     (case first_diff_from 0 a b of
        Some i \<Rightarrow> int i
      | None \<Rightarrow> if length a = length b then -1 else int (min (length a) (length b)))"

abbreviation has_id :: "(string \<times> 'v) list \<Rightarrow> string \<Rightarrow> bool" where
  "has_id m k \<equiv> map_of m k \<noteq> None"

abbreviation get_or :: "(string \<times> 'v) list \<Rightarrow> ('v \<Rightarrow> 'w) \<Rightarrow> string \<Rightarrow> 'w \<Rightarrow> 'w" where
  "get_or m f k d \<equiv> nullish (map_option f (map_of m k)) d"

definition diff_cards :: "js_engine \<Rightarrow> document \<Rightarrow> document \<Rightarrow> cards_diff" where
  "diff_cards E a b =
     (let aCards = new_map (map (\<lambda>c. (card_id c, c)) (cards a)); bCards = new_map (map (\<lambda>c. (card_id c, c)) (cards b))
      in \<lparr>cd_added = sortedIds E (filter (\<lambda>i. \<not> has_id aCards i) (map card_id (cards b))),
          cd_removed = sortedIds E (filter (\<lambda>i. \<not> has_id bCards i) (map card_id (cards a))),
          cd_changedText = filter (\<lambda>e. aText e \<noteq> bText e)
            (map (\<lambda>i. \<lparr>tc_id = i, aText = get_or aCards card_text i [], bText = get_or bCards card_text i []\<rparr>)
              (sortedIds E (filter (has_id bCards) (map card_id (cards a)))))\<rparr>)"

definition membership_entry :: "js_engine \<Rightarrow> (string \<times> island) list \<Rightarrow> (string \<times> island) list \<Rightarrow> string \<Rightarrow> membership_change" where
  "membership_entry E aIslands bIslands i =
     (let aCardIds = uniq (get_or aIslands cardIds i []); bCardIds = uniq (get_or bIslands cardIds i [])
      in \<lparr>mc_id = i, addedCardIds = sortedIds E (filter (\<lambda>c. c \<notin> set aCardIds) bCardIds),
          mc_removedCardIds = sortedIds E (filter (\<lambda>c. c \<notin> set bCardIds) aCardIds)\<rparr>)"

definition summary_entry :: "(string \<times> island) list \<Rightarrow> (string \<times> island) list \<Rightarrow> string \<Rightarrow> summary_change" where
  "summary_entry aIslands bIslands i =
     \<lparr>sc_id = i, aSummary = Option.bind (map_of aIslands i) summaryText, bSummary = Option.bind (map_of bIslands i) summaryText,
      sc_aReviewed = Option.bind (map_of aIslands i) summaryReviewed, sc_bReviewed = Option.bind (map_of bIslands i) summaryReviewed\<rparr>"

definition diff_islands :: "js_engine \<Rightarrow> document \<Rightarrow> document \<Rightarrow> islands_diff" where
  "diff_islands E a b =
     (let aIslands = toIslandMap (islands a); bIslands = toIslandMap (islands b);
          shared = sortedIds E (filter (has_id bIslands) (map island_id (islands a)))
      in \<lparr>id_added = sortedIds E (filter (\<lambda>i. \<not> has_id aIslands i) (map island_id (islands b))),
          id_removed = sortedIds E (filter (\<lambda>i. \<not> has_id bIslands i) (map island_id (islands a))),
          membershipChanged = filter (\<lambda>e. length (addedCardIds e) > 0 \<or> length (mc_removedCardIds e) > 0)
            (map (membership_entry E aIslands bIslands) shared),
          summaryChanged = filter (\<lambda>e. aSummary e \<noteq> bSummary e \<or> sc_aReviewed e \<noteq> sc_bReviewed e)
            (map (summary_entry aIslands bIslands) shared)\<rparr>)"

definition nul :: string where
  "nul = [CHR 0x00]"

definition diff_relations :: "js_engine \<Rightarrow> document \<Rightarrow> document \<Rightarrow> relations_diff" where
  "diff_relations E a b =
     (let aRels = new_map (map (\<lambda>r. (rel_id r, r)) (relations_of a)); bRels = new_map (map (\<lambda>r. (rel_id r, r)) (relations_of b));
          shared = sortedIds E (filter (has_id bRels) (map fst aRels))
      in \<lparr>rd_added = sortedIds E (filter (\<lambda>i. \<not> has_id aRels i) (map fst bRels)),
          rd_removed = sortedIds E (filter (\<lambda>i. \<not> has_id bRels i) (map fst aRels)),
          rd_changedText = filter (\<lambda>e. aText e \<noteq> bText e)
            (map (\<lambda>i. \<lparr>tc_id = i, aText = get_or aRels rel_text i [], bText = get_or bRels rel_text i []\<rparr>) shared),
          changedReviewed = filter (\<lambda>e. rc_aReviewed e \<noteq> rc_bReviewed e)
            (map (\<lambda>i. \<lparr>rc_id = i, rc_aReviewed = get_or aRels rel_reviewed i False, rc_bReviewed = get_or bRels rel_reviewed i False\<rparr>) shared),
          warningsChanged = filter (\<lambda>e. join_with nul (aWarnings e) \<noteq> join_with nul (bWarnings e))
            (map (\<lambda>i. \<lparr>wc_id = i, aWarnings = normalizeWarnings E (the (map_of aRels i)),
                       bWarnings = normalizeWarnings E (the (map_of bRels i))\<rparr>) shared)\<rparr>)"

definition diff_order :: "document \<Rightarrow> document \<Rightarrow> order_diff" where
  "diff_order a b =
     (let ao = nullish (readingOrder a) []; bo = nullish (readingOrder b) []; first = firstDifferingIndex ao bo
      in \<lparr>od_changed = (first \<noteq> -1), od_firstDifferingIndex = first, aOrder = ao, bOrder = bo\<rparr>)"

definition diffDocuments :: "js_engine \<Rightarrow> document \<Rightarrow> document \<Rightarrow> diff_result" where
  "diffDocuments E a b =
     \<lparr>dr_cards = diff_cards E a b, dr_islands = diff_islands E a b, dr_relationSummaries = diff_relations E a b,
      dr_readingOrder = diff_order a b\<rparr>"

section \<open>The first difference of two orders\<close>

lemma first_diff_from_None: "first_diff_from n a b = None \<Longrightarrow> length a = length b \<Longrightarrow> a = b"
  by (induction n a b rule: first_diff_from.induct) (auto split: if_splits)

lemma first_diff_from_refl: "first_diff_from n a a = None"
  by (induction a arbitrary: n) simp_all

lemma first_diff_from_Some:
  "first_diff_from n a b = Some i \<Longrightarrow>
     n \<le> i \<and> i - n < length a \<and> i - n < length b \<and> take (i - n) a = take (i - n) b \<and> a ! (i - n) \<noteq> b ! (i - n)"
proof (induction n a b rule: first_diff_from.induct)
  case (1 n x xs y ys)
  show ?case
  proof (cases "x = y")
    case True
    with 1 have "Suc n \<le> i \<and> i - Suc n < length xs \<and> i - Suc n < length ys \<and>
        take (i - Suc n) xs = take (i - Suc n) ys \<and> xs ! (i - Suc n) \<noteq> ys ! (i - Suc n)" by simp
    moreover then have "i - n = Suc (i - Suc n)" by auto
    ultimately show ?thesis using True by auto
  qed (use "1.prems" in auto)
qed simp_all

lemma first_diff_from_None_take:
  "first_diff_from n a b = None \<Longrightarrow> take (min (length a) (length b)) a = take (min (length a) (length b)) b"
  by (induction n a b rule: first_diff_from.induct) (auto split: if_splits)

section \<open>Projections that the comparison observes\<close>

lemma proj_eq_iff:
  "(\<lambda>i. map_option f (A i)) = (\<lambda>i. map_option f (B i)) \<longleftrightarrow>
     dom A = dom B \<and> (\<forall>i \<in> dom A \<inter> dom B. f (the (A i)) = f (the (B i)))"
  (is "?L \<longleftrightarrow> ?R")
proof
  assume ?L
  then have e: "map_option f (A i) = map_option f (B i)" for i by (rule fun_cong)
  show ?R
  proof (intro conjI set_eqI ballI)
    show "i \<in> dom A \<longleftrightarrow> i \<in> dom B" for i using e [of i] by (cases "A i"; cases "B i") (auto simp: dom_def)
    show "f (the (A i)) = f (the (B i))" if "i \<in> dom A \<inter> dom B" for i using that e [of i] by auto
  qed
next
  assume r: ?R
  show ?L
  proof
    show "map_option f (A i) = map_option f (B i)" for i
      using r by (cases "A i"; cases "B i") (auto simp: dom_def set_eq_iff, metis option.distinct(1), metis option.distinct(1))
  qed
qed

lemma compare_maps:
  assumes "set ia = dom (map_of A)" "set ib = dom (map_of B)"
  shows "filter (\<lambda>i. \<not> has_id A i) ib = [] \<and> filter (\<lambda>i. \<not> has_id B i) ia = [] \<and>
      (\<forall>i \<in> set (filter (has_id B) ia). f (the (map_of A i)) = f (the (map_of B i))) \<longleftrightarrow>
    (\<lambda>i. map_option f (map_of A i)) = (\<lambda>i. map_option f (map_of B i))"
proof -
  have "filter (\<lambda>i. \<not> has_id A i) ib = [] \<longleftrightarrow> dom (map_of B) \<subseteq> dom (map_of A)"
    "filter (\<lambda>i. \<not> has_id B i) ia = [] \<longleftrightarrow> dom (map_of A) \<subseteq> dom (map_of B)"
    unfolding filter_empty_conv assms by blast+
  moreover have "set (filter (has_id B) ia) = dom (map_of A) \<inter> dom (map_of B)"
    unfolding set_filter assms by blast
  ultimately show ?thesis unfolding proj_eq_iff by blast
qed

definition card_view :: "document \<Rightarrow> string \<Rightarrow> string option" where
  "card_view d i = map_option card_text (find_by card_id (cards d) i)"

definition island_view :: "document \<Rightarrow> string \<Rightarrow> (string set \<times> string option \<times> bool option) option" where
  "island_view d i = map_option (\<lambda>x. (set (cardIds x), summaryText x, summaryReviewed x)) (find_by island_id (islands d) i)"

definition relation_view :: "js_engine \<Rightarrow> document \<Rightarrow> string \<Rightarrow> (string \<times> bool \<times> string) option" where
  "relation_view E d i =
     map_option (\<lambda>r. (rel_text r, rel_reviewed r, join_with nul (normalizeWarnings E r))) (find_by rel_id (relations_of d) i)"

definition diff_empty :: "diff_result \<Rightarrow> bool" where
  "diff_empty r \<longleftrightarrow>
     cd_added (dr_cards r) = [] \<and> cd_removed (dr_cards r) = [] \<and> cd_changedText (dr_cards r) = [] \<and>
     id_added (dr_islands r) = [] \<and> id_removed (dr_islands r) = [] \<and> membershipChanged (dr_islands r) = [] \<and>
     summaryChanged (dr_islands r) = [] \<and>
     rd_added (dr_relationSummaries r) = [] \<and> rd_removed (dr_relationSummaries r) = [] \<and>
     rd_changedText (dr_relationSummaries r) = [] \<and> changedReviewed (dr_relationSummaries r) = [] \<and>
     warningsChanged (dr_relationSummaries r) = [] \<and> \<not> od_changed (dr_readingOrder r)"

lemma find_by_dom: "dom (find_by key xs) = key ` set xs"
  by (rule set_eqI) (simp only: domIff find_by_None not_not)

lemma map_filter_empty: "filter P (map f (sort_by le xs)) = [] \<longleftrightarrow> (\<forall>i \<in> set xs. \<not> P (f i))"
  by (auto simp: filter_empty_conv)

lemma dom_new_map_by: "dom (map_of (new_map (map (\<lambda>x. (key x, x)) xs))) = key ` set xs"
  by (simp add: dom_map_of_conv_image_fst image_image)

lemma shared_both:
  "i \<in> set (filter (has_id B) ia) \<Longrightarrow> set ia = dom (map_of A) \<Longrightarrow> \<exists>x y. map_of A i = Some x \<and> map_of B i = Some y"
  by auto

lemma cards_part:
  assumes "distinct (map card_id (cards a))" "distinct (map card_id (cards b))"
  shows "cd_added (diff_cards E a b) = [] \<and> cd_removed (diff_cards E a b) = [] \<and> cd_changedText (diff_cards E a b) = []
    \<longleftrightarrow> card_view a = card_view b"
proof -
  let ?A = "new_map (map (\<lambda>c. (card_id c, c)) (cards a))" and ?B = "new_map (map (\<lambda>c. (card_id c, c)) (cards b))"
  have d: "set (map card_id (cards a)) = dom (map_of ?A)" "set (map card_id (cards b)) = dom (map_of ?B)"
    by (simp_all only: dom_new_map_by set_map)
  have ch: "cd_changedText (diff_cards E a b) = [] \<longleftrightarrow>
      (\<forall>i \<in> set (filter (has_id ?B) (map card_id (cards a))). card_text (the (map_of ?A i)) = card_text (the (map_of ?B i)))"
    unfolding diff_cards_def Let_def sortedIds_def cards_diff.select_convs map_filter_empty text_change.select_convs
    by (rule ball_cong [OF refl], drule shared_both [OF _ d(1)]) auto
  have ar: "cd_added (diff_cards E a b) = [] \<longleftrightarrow> filter (\<lambda>i. \<not> has_id ?A i) (map card_id (cards b)) = []"
    "cd_removed (diff_cards E a b) = [] \<longleftrightarrow> filter (\<lambda>i. \<not> has_id ?B i) (map card_id (cards a)) = []"
    by (simp_all only: diff_cards_def Let_def cards_diff.select_convs sortedIds_def sort_by_eq_Nil)
  have v: "(\<lambda>i. map_option card_text (map_of ?A i)) = card_view a" "(\<lambda>i. map_option card_text (map_of ?B i)) = card_view b"
    using assms by (simp_all only: card_view_def [abs_def] map_of_new_map_by)
  show ?thesis unfolding ar ch compare_maps [OF d, of card_text] v ..
qed

lemma added_removed_empty: "length (sort_by le (filter (\<lambda>c. c \<notin> A) xs)) > 0 \<longleftrightarrow> \<not> set xs \<subseteq> A"
  by (auto simp: filter_empty_conv)

lemma islands_part:
  assumes "distinct (map island_id (islands a))" "distinct (map island_id (islands b))"
  shows "id_added (diff_islands E a b) = [] \<and> id_removed (diff_islands E a b) = [] \<and>
      membershipChanged (diff_islands E a b) = [] \<and> summaryChanged (diff_islands E a b) = []
    \<longleftrightarrow> island_view a = island_view b"
proof -
  let ?A = "toIslandMap (islands a)" and ?B = "toIslandMap (islands b)"
  let ?f = "\<lambda>x. (set (cardIds x), summaryText x, summaryReviewed x)"
  have d: "set (map island_id (islands a)) = dom (map_of ?A)" "set (map island_id (islands b)) = dom (map_of ?B)"
    by (simp_all only: toIslandMap_def dom_new_map_by set_map)
  have m: "map_of ?A = find_by island_id (islands a)" "map_of ?B = find_by island_id (islands b)"
    using assms by (simp_all add: toIslandMap_def map_of_new_map_by)
  have e: "\<not> (length (addedCardIds (membership_entry E ?A ?B i)) > 0 \<or> length (mc_removedCardIds (membership_entry E ?A ?B i)) > 0)
        \<and> \<not> (aSummary (summary_entry ?A ?B i) \<noteq> bSummary (summary_entry ?A ?B i) \<or>
             sc_aReviewed (summary_entry ?A ?B i) \<noteq> sc_bReviewed (summary_entry ?A ?B i))
      \<longleftrightarrow> ?f (the (map_of ?A i)) = ?f (the (map_of ?B i))"
    if i: "i \<in> set (filter (has_id ?B) (map island_id (islands a)))" for i
  proof -
    obtain x y where "map_of ?A i = Some x" "map_of ?B i = Some y" using shared_both [OF i d(1)] by blast
    then show ?thesis
      by (auto simp: membership_entry_def summary_entry_def sortedIds_def added_removed_empty Let_def
          simp del: length_sort_by length_greater_0_conv)
  qed
  have ch: "membershipChanged (diff_islands E a b) = [] \<and> summaryChanged (diff_islands E a b) = [] \<longleftrightarrow>
      (\<forall>i \<in> set (filter (has_id ?B) (map island_id (islands a))). ?f (the (map_of ?A i)) = ?f (the (map_of ?B i)))"
    unfolding diff_islands_def Let_def sortedIds_def islands_diff.select_convs map_filter_empty
    using e by blast
  have ar: "id_added (diff_islands E a b) = [] \<longleftrightarrow> filter (\<lambda>i. \<not> has_id ?A i) (map island_id (islands b)) = []"
    "id_removed (diff_islands E a b) = [] \<longleftrightarrow> filter (\<lambda>i. \<not> has_id ?B i) (map island_id (islands a)) = []"
    by (simp_all only: diff_islands_def Let_def islands_diff.select_convs sortedIds_def sort_by_eq_Nil)
  have v: "(\<lambda>i. map_option ?f (map_of ?A i)) = island_view a" "(\<lambda>i. map_option ?f (map_of ?B i)) = island_view b"
    by (simp_all only: island_view_def [abs_def] m)
  show ?thesis unfolding ar ch compare_maps [OF d, of ?f] v ..
qed

lemma relations_part:
  assumes "distinct (map rel_id (relations_of a))" "distinct (map rel_id (relations_of b))"
  shows "rd_added (diff_relations E a b) = [] \<and> rd_removed (diff_relations E a b) = [] \<and> rd_changedText (diff_relations E a b) = [] \<and>
      changedReviewed (diff_relations E a b) = [] \<and> warningsChanged (diff_relations E a b) = []
    \<longleftrightarrow> relation_view E a = relation_view E b"
proof -
  let ?A = "new_map (map (\<lambda>r. (rel_id r, r)) (relations_of a))" and ?B = "new_map (map (\<lambda>r. (rel_id r, r)) (relations_of b))"
  let ?f = "\<lambda>r. (rel_text r, rel_reviewed r, join_with nul (normalizeWarnings E r))"
  have d: "set (map fst ?A) = dom (map_of ?A)" "set (map fst ?B) = dom (map_of ?B)"
    by (simp_all add: dom_map_of_conv_image_fst)
  have ch: "rd_changedText (diff_relations E a b) = [] \<and> changedReviewed (diff_relations E a b) = [] \<and> warningsChanged (diff_relations E a b) = []
     \<longleftrightarrow> (\<forall>i \<in> set (filter (has_id ?B) (map fst ?A)). ?f (the (map_of ?A i)) = ?f (the (map_of ?B i)))"
    unfolding diff_relations_def Let_def sortedIds_def relations_diff.select_convs map_filter_empty
      text_change.select_convs reviewed_change.select_convs warnings_change.select_convs ball_conj_distrib [symmetric] not_not
    by (rule ball_cong [OF refl], drule shared_both [OF _ d(1)]) auto
  have ar: "rd_added (diff_relations E a b) = [] \<longleftrightarrow> filter (\<lambda>i. \<not> has_id ?A i) (map fst ?B) = []"
    "rd_removed (diff_relations E a b) = [] \<longleftrightarrow> filter (\<lambda>i. \<not> has_id ?B i) (map fst ?A) = []"
    by (simp_all only: diff_relations_def Let_def relations_diff.select_convs sortedIds_def sort_by_eq_Nil)
  have v: "(\<lambda>i. map_option ?f (map_of ?A i)) = relation_view E a" "(\<lambda>i. map_option ?f (map_of ?B i)) = relation_view E b"
    using assms by (simp_all only: relation_view_def [abs_def] map_of_new_map_by)
  show ?thesis unfolding ar ch compare_maps [OF d, of ?f] v ..
qed

lemma firstDifferingIndex_eq: "firstDifferingIndex a b = -1 \<longleftrightarrow> a = b"
  by (auto simp: firstDifferingIndex_def first_diff_from_refl dest: first_diff_from_None split: option.splits if_splits)

section \<open>Properties\<close>

text \<open>The comparison is exact on what it observes: for documents whose identifiers are distinct, the
  result is empty if and only if the documents agree on the cards and their texts, on the islands with
  their members (as sets), summaries and review flags, on the relation summaries with texts, flags and
  sorted warnings, and on the reading order.\<close>

theorem diff_empty_iff:
  assumes "ids_distinct a" and "ids_distinct b"
    and "distinct (map rel_id (relations_of a))" and "distinct (map rel_id (relations_of b))"
  shows "diff_empty (diffDocuments E a b) \<longleftrightarrow>
    card_view a = card_view b \<and> island_view a = island_view b \<and> relation_view E a = relation_view E b \<and>
    nullish (readingOrder a) [] = nullish (readingOrder b) []"
proof -
  have "distinct (map card_id (cards a))" "distinct (map card_id (cards b))"
      "distinct (map island_id (islands a))" "distinct (map island_id (islands b))"
    using assms(1,2) by (simp_all add: ids_distinct_def)
  note parts = cards_part [OF this(1,2), of E] islands_part [OF this(3,4), of E] relations_part [OF assms(3,4), of E]
  have "\<not> od_changed (diff_order a b) \<longleftrightarrow> nullish (readingOrder a) [] = nullish (readingOrder b) []"
    by (simp add: diff_order_def Let_def firstDifferingIndex_eq)
  then show ?thesis
    unfolding diff_empty_def diffDocuments_def diff_result.select_convs parts [symmetric] by blast
qed

theorem diff_empty_iff_witness:
  "\<not> diff_empty (diffDocuments demo_engine ex_base ex_cur)"
proof -
  have "card_view ex_base ''c1'' \<noteq> card_view ex_cur ''c1''" by (simp add: card_view_def ex_base_def ex_cur_def)
  moreover have "ids_distinct ex_base" "ids_distinct ex_cur" by (simp_all add: ex_defs)
  moreover have "distinct (map rel_id (relations_of ex_base))" "distinct (map rel_id (relations_of ex_cur))"
    by (simp_all add: ex_defs)
  ultimately show ?thesis using diff_empty_iff [of ex_base ex_cur demo_engine] by auto
qed

text \<open>Duality and direction: what the comparison reports as added from \<open>a\<close> to \<open>b\<close> is, in the same
  order, what it reports as removed from \<open>b\<close> to \<open>a\<close>, and the added cards are exactly the identifiers
  of \<open>b\<close> that \<open>a\<close> lacks.\<close>

theorem diff_duality:
  "cd_added (dr_cards (diffDocuments E a b)) = cd_removed (dr_cards (diffDocuments E b a)) \<and>
   id_added (dr_islands (diffDocuments E a b)) = id_removed (dr_islands (diffDocuments E b a)) \<and>
   rd_added (dr_relationSummaries (diffDocuments E a b)) = rd_removed (dr_relationSummaries (diffDocuments E b a)) \<and>
   set (cd_added (dr_cards (diffDocuments E a b))) = card_id ` set (cards b) - card_id ` set (cards a)"
proof -
  have "set (cd_added (diff_cards E a b)) = card_id ` set (cards b) - dom (map_of (new_map (map (\<lambda>c. (card_id c, c)) (cards a))))"
    unfolding diff_cards_def Let_def sortedIds_def cards_diff.select_convs set_sort_by set_filter set_map by blast
  moreover have "cd_added (diff_cards E a b) = cd_removed (diff_cards E b a)"
    by (simp only: diff_cards_def Let_def cards_diff.select_convs)
  moreover have "id_added (diff_islands E a b) = id_removed (diff_islands E b a)"
    by (simp only: diff_islands_def Let_def islands_diff.select_convs)
  moreover have "rd_added (diff_relations E a b) = rd_removed (diff_relations E b a)"
    by (simp only: diff_relations_def Let_def relations_diff.select_convs)
  ultimately show ?thesis
    unfolding dom_new_map_by diffDocuments_def diff_result.select_convs by blast
qed

text \<open>The first differing index: \<open>-1\<close> exactly for equal orders; otherwise the orders agree before
  it, and at it they differ or one of them ends.\<close>

theorem firstDifferingIndex_spec:
  "(firstDifferingIndex a b = -1 \<longleftrightarrow> a = b) \<and>
   (a \<noteq> b \<longrightarrow> (\<exists>i. firstDifferingIndex a b = int i \<and> i \<le> length a \<and> i \<le> length b \<and> take i a = take i b \<and>
      (if i < length a \<and> i < length b then a ! i \<noteq> b ! i else length a \<noteq> length b)))"
proof (cases "first_diff_from 0 a b")
  case None
  then show ?thesis
    using first_diff_from_None [OF None] first_diff_from_None_take [OF None] first_diff_from_refl
    by (auto simp: firstDifferingIndex_def)
next
  case (Some i)
  then show ?thesis
    using first_diff_from_Some [OF Some] first_diff_from_refl
    by (auto simp: firstDifferingIndex_def intro!: exI [of _ i])
qed

theorem firstDifferingIndex_spec_witness:
  "firstDifferingIndex [''a'', ''b''] [''a'', ''c''] \<noteq> -1"
  using firstDifferingIndex_spec [of "[''a'', ''b'']" "[''a'', ''c'']"] by simp

end
