(* ===== verification/Inquiry_Session.thy ===== *)
theory Inquiry_Session
  imports Inquiry_Validate Document_Diff Transitions
begin

text \<open>
  \<open>domain/inquiry_journey_session.ts\<close>: starting a journey, recording rounds with their card lineage, comparing
  rounds, tracing a card back, and the resume brief. The identifier factory is a function from the number of earlier
  calls to the identifier; the digest of a document (\<open>computeRoundSnapshotDigest\<close>, WebCrypto) is an argument.
\<close>

section \<open>Journeys and rounds\<close>

datatype record_error = MissingInputSnapshot | InvalidRound

definition createSnapshot :: "string \<Rightarrow> string \<Rightarrow> document \<Rightarrow> string \<Rightarrow> round_snapshot" where
  "createSnapshot sid createdAt doc dig =
     \<lparr>snap_schemaVersion = INQUIRY_SCHEMA_VERSION, snapshotId = sid, snap_createdAt = createdAt, canonicalDigest = dig, snap_document = doc\<rparr>"

lemma snapshotId_createSnapshot [simp]: "snapshotId (createSnapshot sid c d g) = sid"
  by (simp add: createSnapshot_def)

definition title_or_id :: "document \<Rightarrow> string" where
  "title_or_id doc = (let t = map_option trim (doc_title doc) in if truthy_str t then the t else doc_id doc)"

definition startInquiryJourney :: "(document \<Rightarrow> string) \<Rightarrow> document \<Rightarrow> (nat \<Rightarrow> string) \<Rightarrow> string \<Rightarrow> inquiry_bundle" where
  "startInquiryJourney digest doc idFactory createdAt =
     (let sid = ''snapshot-'' @ idFactory 0 in
      \<lparr>bundle_schemaVersion = INQUIRY_SCHEMA_VERSION,
       journey = \<lparr>journey_schemaVersion = INQUIRY_SCHEMA_VERSION, journeyId = ''journey-'' @ idFactory 1, journey_title = title_or_id doc,
         originSnapshotIds = [sid], roundRecords = [], headRoundIds = [], defaultHeadRoundId = None,
         journey_createdAt = createdAt, journey_updatedAt = createdAt\<rparr>,
       snapshots = [createSnapshot sid createdAt doc (digest doc)], cardLineage = [], exportInfo = None\<rparr>)"

definition lineage_entry :: "round_snapshot \<Rightarrow> round_snapshot \<Rightarrow> (string \<times> card) list \<Rightarrow> string \<times> card \<Rightarrow> string \<Rightarrow> lineage_edge" where
  "lineage_entry fromSnap toSnap fromCards entry lid =
     (let cardId = fst entry; to = \<lparr>addr_snapshotId = snapshotId toSnap, addr_cardId = cardId\<rparr> in
      case map_of fromCards cardId of
        None \<Rightarrow> NewCard lid to
      | Some previous \<Rightarrow> OneToOne lid (card_text previous = card_text (snd entry))
                           \<lparr>addr_snapshotId = snapshotId fromSnap, addr_cardId = cardId\<rparr> to)"

definition cards_map :: "document \<Rightarrow> (string \<times> card) list" where
  "cards_map doc = new_map (map (\<lambda>c. (card_id c, c)) (cards doc))"

definition buildCardLineage :: "round_snapshot \<Rightarrow> round_snapshot \<Rightarrow> (nat \<Rightarrow> string) \<Rightarrow> nat \<Rightarrow> lineage_edge list" where
  "buildCardLineage fromSnap toSnap idFactory k =
     (let fromCards = cards_map (snap_document fromSnap); toCards = cards_map (snap_document toSnap);
          gone = filter (\<lambda>i. map_of toCards i = None) (map fst fromCards)
      in map (\<lambda>(n, entry). lineage_entry fromSnap toSnap fromCards entry (''lineage-'' @ idFactory n)) (List.enumerate k toCards) @
         map (\<lambda>(n, i). Retired (''lineage-'' @ idFactory n) \<lparr>addr_snapshotId = snapshotId fromSnap, addr_cardId = i\<rparr>)
           (List.enumerate (k + length toCards) gone))"

definition new_round :: "string \<Rightarrow> string \<Rightarrow> string \<Rightarrow> string list \<Rightarrow> string \<Rightarrow> string \<Rightarrow> string \<Rightarrow> round_record" where
  "new_round rid recordedAt stg parents thme inp out =
     \<lparr>roundId = rid, round_createdAt = recordedAt, round_updatedAt = recordedAt, stage = stg, iteration = 0, parentRoundIds = parents,
      status = ''paused'', theme = thme, inputSnapshotIds = [inp], outputSnapshotId = Some out, handoff = None\<rparr>"

definition recordInquiryRound ::
  "(string \<Rightarrow> int option) \<Rightarrow> (document \<Rightarrow> string) \<Rightarrow> inquiry_bundle \<Rightarrow> document \<Rightarrow> string \<Rightarrow> (nat \<Rightarrow> string) \<Rightarrow> string \<Rightarrow>
   string option \<Rightarrow> record_error + inquiry_bundle" where
  "recordInquiryRound dp digest b doc stg idFactory recordedAt optParent =
     (let j = journey b;
          parentRoundId = (case optParent of Some p \<Rightarrow> Some p | None \<Rightarrow> defaultHeadRoundId j);
          hasParent = truthy_str parentRoundId;
          parentRound = (if hasParent then find (\<lambda>r. roundId r = the parentRoundId) (roundRecords j) else None)
      in if hasParent \<and> parentRound = None then Inl InvalidRound
      else let fromParent = (case parentRound of None \<Rightarrow> None | Some p \<Rightarrow> outputSnapshotId p);
               inputSnapshotId = (case fromParent of Some s \<Rightarrow> Some s
                                  | None \<Rightarrow> (case originSnapshotIds j of [] \<Rightarrow> None | s # _ \<Rightarrow> Some s))
      in case find (\<lambda>s. Some (snapshotId s) = inputSnapshotId) (snapshots b) of
           None \<Rightarrow> Inl MissingInputSnapshot
         | Some inputSnapshot \<Rightarrow>
             (let outputSnapshot = createSnapshot (''snapshot-'' @ idFactory 0) recordedAt doc (digest doc);
                  rec = new_round (''round-'' @ idFactory 1) recordedAt stg (if hasParent then [the parentRoundId] else [])
                          (title_or_id doc) (snapshotId inputSnapshot) (snapshotId outputSnapshot)
              in case appendRoundRecord dp j rec of
                   Inl _ \<Rightarrow> Inl InvalidRound
                 | Inr j' \<Rightarrow> Inr (b\<lparr>journey := j', snapshots := snapshots b @ [outputSnapshot],
                                   cardLineage := cardLineage b @ buildCardLineage inputSnapshot outputSnapshot idFactory 2\<rparr>)))"

definition inquiryBundleOriginatesFromDocument :: "inquiry_bundle \<Rightarrow> string \<Rightarrow> bool" where
  "inquiryBundleOriginatesFromDocument b documentId =
     list_ex (\<lambda>s. snapshotId s \<in> set (originSnapshotIds (journey b)) \<and> doc_id (snap_document s) = documentId) (snapshots b)"

section \<open>Recording a round keeps the bundle valid\<close>

lemma round_rel_mono: "round_rel rs \<subseteq> round_rel (rs @ [r])"
  by (auto simp: round_rel_def)

lemma available_mono:
  assumes "roundRecords j' = roundRecords j @ [r]" "originSnapshotIds j' = originSnapshotIds j" "available j i s"
  shows "available j' i s"
  using assms(3) trancl_mono [OF _ round_rel_mono] unfolding available_def assms(1,2) by fastforce

lemma card_in_mono: "card_in ss a \<Longrightarrow> card_in (ss @ ts) a"
  by (auto simp: card_in_def)

lemma handoff_ok_mono: "handoff_ok ss h \<Longrightarrow> handoff_ok (ss @ ts) h"
  unfolding handoff_ok_def artifact_in_def by (auto intro: card_in_mono)

lemma lineage_ok_mono:
  assumes "lineage_ok b e" "roundRecords (journey b') = roundRecords (journey b) @ [r]"
    "originSnapshotIds (journey b') = originSnapshotIds (journey b)" "snapshots b' = snapshots b @ ss"
  shows "lineage_ok b' e"
  using assms(1) available_mono [OF assms(2,3)] card_in_mono [of "snapshots b" _ ss]
  unfolding lineage_ok_def assms(2,4) by (auto 0 3)

lemma set_cards_map: "fst ` set (cards_map d) = card_id ` set (cards d)"
  by (simp add: cards_map_def image_image)

lemma distinct_cards_map: "distinct (map fst (cards_map d))"
  by (simp add: cards_map_def)

lemma lineageId_entry: "lineageId (lineage_entry f t m e l) = l"
  by (simp add: lineage_entry_def Let_def split: option.split)

lemma map_enumerate_index:
  assumes "\<And>n x. f (h (n, x)) = g n"
  shows "map f (map h (List.enumerate k xs)) = map g [k..<k + length xs]"
proof -
  have "f (h p) = g (fst p)" for p using assms [of "fst p" "snd p"] by simp
  then have "map f (map h (List.enumerate k xs)) = map g (map fst (List.enumerate k xs))" unfolding map_map by (simp add: o_def)
  also have "\<dots> = map g [k..<k + length xs]" by (simp only: map_fst_enumerate)
  finally show ?thesis .
qed

lemma enumerate_mem: "(n, x) \<in> set (List.enumerate k xs) \<Longrightarrow> x \<in> set xs"
  by (auto simp: enumerate_eq_zip dest: set_zip_rightD)

lemma lineage_ids: "\<exists>l. map lineageId (buildCardLineage f t idf k) = map (\<lambda>n. ''lineage-'' @ idf n) [k..<l]"
proof -
  let ?g = "\<lambda>n. ''lineage-'' @ idf n"
  let ?fm = "cards_map (snap_document f)" and ?tm = "cards_map (snap_document t)"
  let ?gone = "filter (\<lambda>i. map_of ?tm i = None) (map fst ?fm)"
  have "map lineageId (map (\<lambda>(n, en). lineage_entry f t ?fm en (?g n)) (List.enumerate k ?tm)) = map ?g [k..<k + length ?tm]"
    by (rule map_enumerate_index) (simp add: lineageId_entry)
  moreover have "map lineageId (map (\<lambda>(n, i). Retired (?g n) \<lparr>addr_snapshotId = snapshotId f, addr_cardId = i\<rparr>) (List.enumerate (k + length ?tm) ?gone)) =
      map ?g [k + length ?tm..<k + length ?tm + length ?gone]"
    by (rule map_enumerate_index) simp
  ultimately have "map lineageId (buildCardLineage f t idf k) = map ?g ([k..<k + length ?tm] @ [k + length ?tm..<k + length ?tm + length ?gone])"
    unfolding buildCardLineage_def Let_def map_append by (simp only:)
  also have "\<dots> = map ?g [k..<k + length ?tm + length ?gone]"
    by (subst upt_add_eq_append) simp_all
  finally show ?thesis by blast
qed

lemma lineage_ok_built:
  assumes e: "e \<in> set (buildCardLineage f t idf k)" and f: "f \<in> set (snapshots b)" and t: "t \<in> set (snapshots b)"
    and q: "q \<in> set (roundRecords (journey b))" "outputs q (snapshotId t)" and av: "available (journey b) (roundId q) (snapshotId f)"
  shows "lineage_ok b e"
proof -
  let ?fm = "cards_map (snap_document f)" and ?tm = "cards_map (snap_document t)"
  have inf: "card_in (snapshots b) \<lparr>addr_snapshotId = snapshotId f, addr_cardId = i\<rparr>" if "i \<in> fst ` set ?fm" for i
    using that f by (auto simp: card_in_def set_cards_map)
  have int: "card_in (snapshots b) \<lparr>addr_snapshotId = snapshotId t, addr_cardId = i\<rparr>" if "i \<in> fst ` set ?tm" for i
    using that t by (auto simp: card_in_def set_cards_map)
  from e consider n en where "en \<in> set ?tm" "e = lineage_entry f t ?fm en (''lineage-'' @ idf n)"
    | n i where "i \<in> fst ` set ?fm" "e = Retired (''lineage-'' @ idf n) \<lparr>addr_snapshotId = snapshotId f, addr_cardId = i\<rparr>"
    unfolding buildCardLineage_def Let_def set_append set_map by (auto dest!: enumerate_mem)
  then show ?thesis
  proof cases
    case 1
    note to = int [OF imageI [OF 1(1), of fst]]
    show ?thesis
    proof (cases "map_of ?fm (fst en)")
      case None
      then show ?thesis using to q 1(2) by (auto simp: lineage_entry_def Let_def lineage_ok_def lineage_cardinality_bad_def findDuplicates_Nil)
    next
      case (Some c)
      then have "fst en \<in> fst ` set ?fm" by (metis map_of_eq_None_iff option.distinct(1))
      from inf [OF this] show ?thesis
        using Some to q av 1(2) by (auto simp: lineage_entry_def Let_def lineage_ok_def lineage_cardinality_bad_def findDuplicates_Nil)
    qed
  next
    case 2
    then show ?thesis using inf by (simp add: lineage_ok_def lineage_cardinality_bad_def findDuplicates_Nil)
  qed
qed

lemma record_Inr:
  assumes "recordInquiryRound dp digest b doc stg idf now par0 = Inr b'"
  obtains ps inp rec j' where "inp \<in> set (snapshots b)" "appendRoundRecord dp (journey b) rec = Inr j'"
    "rec = new_round (''round-'' @ idf 1) now stg ps (title_or_id doc) (snapshotId inp) (''snapshot-'' @ idf 0)"
    "b' = b\<lparr>journey := j', snapshots := snapshots b @ [createSnapshot (''snapshot-'' @ idf 0) now doc (digest doc)],
            cardLineage := cardLineage b @ buildCardLineage inp (createSnapshot (''snapshot-'' @ idf 0) now doc (digest doc)) idf 2\<rparr>"
    "snapshotId inp \<in> set (originSnapshotIds (journey b)) \<or>
     (\<exists>r\<in>set (roundRecords (journey b)). roundId r \<in> set ps \<and> outputSnapshotId r = Some (snapshotId inp))"
proof -
  let ?j = "journey b"
  define pid where "pid = (case par0 of Some p \<Rightarrow> Some p | None \<Rightarrow> defaultHeadRoundId ?j)"
  define par where "par = (if truthy_str pid then find (\<lambda>r. roundId r = the pid) (roundRecords ?j) else None)"
  define ps where "ps = (if truthy_str pid then [the pid] else [])"
  define inpId where "inpId = (case (case par of None \<Rightarrow> None | Some p \<Rightarrow> outputSnapshotId p) of Some s \<Rightarrow> Some s
      | None \<Rightarrow> (case originSnapshotIds ?j of [] \<Rightarrow> None | s # _ \<Rightarrow> Some s))"
  from assms obtain inp where inp: "find (\<lambda>s. Some (snapshotId s) = inpId) (snapshots b) = Some inp"
    unfolding recordInquiryRound_def Let_def pid_def [symmetric] par_def [symmetric] inpId_def [symmetric]
    by (auto split: if_splits option.splits)
  with assms obtain j' where j': "appendRoundRecord dp ?j (new_round (''round-'' @ idf 1) now stg ps (title_or_id doc) (snapshotId inp) (''snapshot-'' @ idf 0)) = Inr j'"
    "b' = b\<lparr>journey := j', snapshots := snapshots b @ [createSnapshot (''snapshot-'' @ idf 0) now doc (digest doc)],
            cardLineage := cardLineage b @ buildCardLineage inp (createSnapshot (''snapshot-'' @ idf 0) now doc (digest doc)) idf 2\<rparr>"
    unfolding recordInquiryRound_def Let_def pid_def [symmetric] par_def [symmetric] inpId_def [symmetric] ps_def [symmetric]
    by (auto simp: createSnapshot_def split: if_splits sum.splits)
  have "inp \<in> set (snapshots b)" "inpId = Some (snapshotId inp)" using inp by (auto simp: find_Some_iff)
  moreover from this(2) have "snapshotId inp \<in> set (originSnapshotIds ?j) \<or>
      (\<exists>r\<in>set (roundRecords ?j). roundId r \<in> set ps \<and> outputSnapshotId r = Some (snapshotId inp))"
    unfolding inpId_def par_def ps_def by (auto simp: find_Some_iff split: option.splits list.splits if_splits)
  ultimately show thesis using that j' by blast
qed

definition record_input_ok :: "(document \<Rightarrow> string) \<Rightarrow> inquiry_bundle \<Rightarrow> document \<Rightarrow> string \<Rightarrow> (nat \<Rightarrow> string) \<Rightarrow> bool" where
  "record_input_ok digest b doc stg idf \<longleftrightarrow> stg \<in> set ROUND_STAGES \<and> distinct (map card_id (cards doc)) \<and> digest_ok (digest doc) \<and>
     inj idf \<and> ''snapshot-'' @ idf 0 \<notin> snapshotId ` set (snapshots b) \<and>
     (\<forall>n. ''lineage-'' @ idf n \<notin> lineageId ` set (cardLineage b)) \<and>
     (\<forall>r\<in>set (roundRecords (journey b)). iteration r < 9007199254740991)"

definition session_ok :: "(string \<Rightarrow> int option) \<Rightarrow> inquiry_bundle \<Rightarrow> bool" where
  "session_ok dp b \<longleftrightarrow> bundle_ok dp b \<and> exportInfo b = None \<and> [] \<notin> roundId ` set (roundRecords (journey b))"

lemma safe_succ:
  assumes "x = of_int \<lfloor>x\<rfloor>" "0 \<le> x" "x < 9007199254740991"
  shows "safe_integer (x + 1) \<and> 1 \<le> x + 1"
proof -
  obtain k where x: "x = of_int k" using assms(1) by blast
  have "(of_int k :: rat) < of_int 9007199254740991" "(0 :: rat) \<le> of_int k" using assms(2,3) x by simp_all
  then have k: "k + 1 \<le> 9007199254740991" "0 \<le> k" by (simp_all only: of_int_less_iff of_int_0_le_iff)
  then have "(of_int (k + 1) :: rat) \<le> of_int 9007199254740991" by (simp only: of_int_le_iff)
  then show ?thesis using k(2) by (simp add: x safe_integer_def)
qed

lemma next_iteration_safe:
  assumes "distinct (map roundId (roundRecords j))" "\<forall>r\<in>set (roundRecords j). safe_integer (iteration r) \<and> iteration r < 9007199254740991"
  shows "safe_integer (nextRoundIteration j stg ps) \<and> 1 \<le> nextRoundIteration j stg ps"
proof -
  let ?A = "\<Union>p\<in>set ps. insert p {a. (p, a) \<in> (parent_rel (rounds_by_id (roundRecords j)))\<^sup>+}"
  let ?S = "insert 0 (same_stage (rounds_by_id (roundRecords j)) stg ?A)"
  have sub: "?S \<subseteq> insert 0 (iteration ` set (roundRecords j))" unfolding same_stage_rounds [OF assms(1)] by blast
  have fin: "finite ?S" by (rule finite_subset [OF sub]) simp
  have "Max ?S \<in> ?S" using fin by (rule Max_in) simp
  then have "Max ?S \<in> insert 0 (iteration ` set (roundRecords j))" using sub by blast
  then have m: "Max ?S = of_int \<lfloor>Max ?S\<rfloor>" "Max ?S < 9007199254740991" using assms(2) by (auto simp: safe_integer_def)
  have "0 \<le> Max ?S" using fin by (rule Max_ge) simp
  from safe_succ [OF m(1) this m(2)] show ?thesis unfolding nextRoundIteration_eq .
qed

lemma record_keeps_ok:
  assumes rec: "recordInquiryRound dp digest b doc stg idf now par0 = Inr b'" and ok: "session_ok dp b"
    and inp: "record_input_ok digest b doc stg idf"
  shows "session_ok dp b'"
proof -
  obtain ps ip r j' where ip: "ip \<in> set (snapshots b)" and ap: "appendRoundRecord dp (journey b) r = Inr j'"
    and r: "r = new_round (''round-'' @ idf 1) now stg ps (title_or_id doc) (snapshotId ip) (''snapshot-'' @ idf 0)"
    and b': "b' = b\<lparr>journey := j', snapshots := snapshots b @ [createSnapshot (''snapshot-'' @ idf 0) now doc (digest doc)],
            cardLineage := cardLineage b @ buildCardLineage ip (createSnapshot (''snapshot-'' @ idf 0) now doc (digest doc)) idf 2\<rparr>"
    and src: "snapshotId ip \<in> set (originSnapshotIds (journey b)) \<or>
     (\<exists>r\<in>set (roundRecords (journey b)). roundId r \<in> set ps \<and> outputSnapshotId r = Some (snapshotId ip))"
    by (rule record_Inr [OF rec])
  let ?j = "journey b" and ?sid = "''snapshot-'' @ idf 0"
  let ?snap = "createSnapshot ?sid now doc (digest doc)"
  let ?r = "r\<lparr>iteration := nextRoundIteration ?j (stage r) (parentRoundIds r)\<rparr>"
  note a = appendRoundRecord_Inr [OF ap]
  have bok: "bundle_ok dp b" and jok: "journey_ok dp ?j" and ei: "exportInfo b = None" using ok by (auto simp: session_ok_def bundle_ok_def)
  have jok': "journey_ok dp j'" by (rule append_ok [OF ap jok])
  have rs': "roundRecords j' = roundRecords ?j @ [?r]" and og: "originSnapshotIds j' = originSnapshotIds ?j"
    and sv: "journey_schemaVersion j' = journey_schemaVersion ?j" unfolding a(6) by simp_all
  have d: "distinct (map roundId (roundRecords ?j))" using jok unfolding journey_ok_def rounds_ok_def by blast
  have outr: "outputs ?r ?sid" by (simp add: r new_round_def outputs_def)
  have ol: "output_list (roundRecords j') = output_list (roundRecords ?j) @ [?sid]"
    unfolding rs' output_list_snoc by (simp add: r new_round_def)
  have fresh: "?sid \<notin> snapshotId ` set (snapshots b)" using inp by (simp add: record_input_ok_def)
  have cover: "set (originSnapshotIds ?j) \<union> set (output_list (roundRecords ?j)) = snapshotId ` set (snapshots b)" using bok unfolding bundle_ok_def by blast
  have "times_ok dp now now" using a(4) by (simp add: r new_round_def)
  then have tm: "isCanonicalTimestamp dp now" by (simp add: times_ok_def)
  have it: "safe_integer (iteration ?r) \<and> 1 \<le> iteration ?r"
    using next_iteration_safe [OF d, of "stage r" "parentRoundIds r"] bok inp unfolding bundle_ok_def round_fields_ok_def record_input_ok_def by simp
  have fields: "round_fields_ok dp ?r"
    using it a(4) inp outr by (auto simp: round_fields_ok_def r new_round_def record_input_ok_def ROUND_STATUSES_def)
  have snapok: "snapshot_ok dp ?snap" using inp tm by (simp add: snapshot_ok_def createSnapshot_def record_input_ok_def)
  have avail: "available j' (roundId ?r) (snapshotId ip)"
    using src
  proof
    assume "\<exists>q\<in>set (roundRecords ?j). roundId q \<in> set ps \<and> outputSnapshotId q = Some (snapshotId ip)"
    then obtain q where q: "q \<in> set (roundRecords ?j)" "roundId q \<in> set ps" "outputSnapshotId q = Some (snapshotId ip)" by blast
    have "truthy_str (outputSnapshotId q)"
      using a(3) [of "roundId q"] q map_of_rounds_by_id [OF d, of "roundId q" q] by (auto simp: r new_round_def)
    then have "outputs q (snapshotId ip)" using q(3) by (auto simp: outputs_def)
    moreover have "(roundId ?r, roundId q) \<in> round_rel (roundRecords j')"
      using q(2) unfolding rs' round_rel_def by (force simp: r new_round_def)
    ultimately show ?thesis using q(1) unfolding available_def rs' by auto
  qed (simp add: available_def og)
  have lin: "lineage_ok b' e" if "e \<in> set (cardLineage b')" for e
  proof (cases "e \<in> set (cardLineage b)")
    case True
    then have "lineage_ok b e" using bok unfolding bundle_ok_def by blast
    then show ?thesis by (rule lineage_ok_mono) (simp_all add: b' rs' og)
  next
    case False
    then have "e \<in> set (buildCardLineage ip ?snap idf 2)" using that by (simp add: b')
    then show ?thesis by (rule lineage_ok_built [where q = ?r]) (use ip avail outr in \<open>simp_all add: b' rs'\<close>)
  qed
  obtain l where l: "map lineageId (buildCardLineage ip ?snap idf 2) = map (\<lambda>n. ''lineage-'' @ idf n) [2..<l]" using lineage_ids by blast
  have "inj (\<lambda>n. ''lineage-'' @ idf n)" using inp by (simp add: record_input_ok_def inj_def)
  then have "distinct (map (\<lambda>n. ''lineage-'' @ idf n) [2..<l])" by (auto simp: distinct_map inj_on_def inj_def)
  moreover have "set (map (\<lambda>n. ''lineage-'' @ idf n) [2..<l]) \<inter> set (map lineageId (cardLineage b)) = {}"
    using inp by (auto simp: record_input_ok_def)
  moreover have "distinct (map lineageId (cardLineage b))" using bok unfolding bundle_ok_def by blast
  moreover have "map lineageId (cardLineage b') = map lineageId (cardLineage b) @ map (\<lambda>n. ''lineage-'' @ idf n) [2..<l]"
    using l by (simp add: b')
  ultimately have lids: "distinct (map lineageId (cardLineage b'))" by (simp only: distinct_append Int_commute)
  have rounds: "\<forall>q\<in>set (roundRecords j'). distinct (inputSnapshotIds q) \<and> (\<forall>i\<in>set (inputSnapshotIds q). available j' (roundId q) i) \<and>
      (\<forall>h. handoff q = Some h \<longrightarrow> handoff_ok (snapshots b') h)"
  proof
    fix q assume q: "q \<in> set (roundRecords j')"
    show "distinct (inputSnapshotIds q) \<and> (\<forall>i\<in>set (inputSnapshotIds q). available j' (roundId q) i) \<and>
      (\<forall>h. handoff q = Some h \<longrightarrow> handoff_ok (snapshots b') h)"
    proof (cases "q \<in> set (roundRecords ?j)")
      case True
      then show ?thesis using bok available_mono [OF rs' og] handoff_ok_mono [of "snapshots b" _ "[?snap]"] unfolding bundle_ok_def b' by auto
    next
      case False
      then have "q = ?r" using q rs' by simp
      then show ?thesis using avail by (simp add: r new_round_def)
    qed
  qed
  have sel: "journey b' = j'" "snapshots b' = snapshots b @ [?snap]" "bundle_schemaVersion b' = bundle_schemaVersion b" "exportInfo b' = None"
    using ei by (simp_all add: b')
  have "bundle_ok dp b'"
    unfolding bundle_ok_def sel(1) og ol sv sel(3)
  proof (intro conjI)
    show "\<forall>q\<in>set (roundRecords j'). round_fields_ok dp q" using bok fields unfolding bundle_ok_def rs' by simp
    show "export_ok b'" by (simp add: export_ok_def sel(4))
    show "distinct (map snapshotId (snapshots b'))" using bok fresh unfolding bundle_ok_def by (simp add: sel(2))
    show "\<forall>s\<in>set (snapshots b'). snapshot_ok dp s" using bok snapok unfolding bundle_ok_def by (simp add: sel(2))
    show "distinct (output_list (roundRecords ?j) @ [?sid])"
      "set (originSnapshotIds ?j) \<inter> set (output_list (roundRecords ?j) @ [?sid]) = {}"
      using bok fresh cover unfolding bundle_ok_def by auto
    show "set (originSnapshotIds ?j) \<union> set (output_list (roundRecords ?j) @ [?sid]) = snapshotId ` set (snapshots b')"
      using cover by (auto simp: sel(2))
  qed (use bok jok' lids lin rounds in \<open>simp_all add: bundle_ok_def\<close>)
  moreover have "roundId ?r \<noteq> []" by (simp add: r new_round_def)
  ultimately show ?thesis using ok ei rs' unfolding session_ok_def by (auto simp: b')
qed

lemma start_ok:
  assumes "isCanonicalTimestamp dp now" "distinct (map card_id (cards doc))" "digest_ok (digest doc)"
  shows "session_ok dp (startInquiryJourney digest doc idf now)"
proof -
  let ?b = "startInquiryJourney digest doc idf now"
  have "\<not> parse_less dp now now" by (simp add: parse_less_def split: option.split)
  then have "journey_ok dp (journey ?b)" using assms(1)
    by (simp add: startInquiryJourney_def Let_def journey_ok_def rounds_ok_def leaves_def times_ok_def acyclic_def round_rel_def)
  then show ?thesis using assms
    unfolding session_ok_def bundle_ok_def
    by (simp add: startInquiryJourney_def Let_def export_ok_def output_list_def snapshot_ok_def createSnapshot_def)
qed

inductive session_step :: "(string \<Rightarrow> int option) \<Rightarrow> (document \<Rightarrow> string) \<Rightarrow> inquiry_bundle \<Rightarrow> inquiry_bundle \<Rightarrow> bool"
  for dp digest where
  "recordInquiryRound dp digest b doc stg idf now par0 = Inr b' \<Longrightarrow> record_input_ok digest b doc stg idf \<Longrightarrow>
   session_step dp digest b b'"

definition session_start :: "(string \<Rightarrow> int option) \<Rightarrow> (document \<Rightarrow> string) \<Rightarrow> inquiry_bundle \<Rightarrow> bool" where
  "session_start dp digest b \<longleftrightarrow> (\<exists>doc idf now. isCanonicalTimestamp dp now \<and> distinct (map card_id (cards doc)) \<and>
     digest_ok (digest doc) \<and> b = startInquiryJourney digest doc idf now)"

interpretation inquiry: transition_system "session_start dp digest" "session_step dp digest" for dp digest .

text \<open>C10. Whatever rounds are recorded, in any order and from any parent, a session only ever holds bundles without
  validation issues: the bundle a journey starts with has none, and a recorded round adds none. The environment
  supplies a canonical starting time, documents with distinct cards, valid digests, fresh identifiers, known stages,
  and fewer iterations than the greatest safe integer.\<close>

theorem session_bundles_valid:
  assumes "inquiry.reachable dp digest b"
  shows "validateInquiryBundle dp b = []"
proof -
  from assms have "session_ok dp b"
    by (rule inquiry.invariant) (auto simp: session_start_def intro: start_ok elim!: session_step.cases dest: record_keeps_ok)
  then show ?thesis by (simp add: session_ok_def validator_iff)
qed

definition ex_digest :: "document \<Rightarrow> string" where
  "ex_digest d = ''sha256:'' @ replicate 64 (CHR ''a'')"

definition ex_ids :: "nat \<Rightarrow> string" where
  "ex_ids n = replicate n (CHR ''x'')"

definition ex_start :: inquiry_bundle where
  "ex_start = startInquiryJourney ex_digest (mk_doc [mk_card ''c1'' ''a'' 0 0] [] []) (\<lambda>n. CHR ''s'' # ex_ids n) ''1970-01-01T00:00:00.000Z''"

lemma ex_digest_ok: "digest_ok (ex_digest d)"
  unfolding ex_digest_def by code_simp

theorem session_bundles_valid_witness:
  "\<exists>b'. recordInquiryRound ex_dp ex_digest ex_start (mk_doc [mk_card ''c1'' ''b'' 0 0] [] []) ''r1_problem_setting'' ex_ids
     ''1970-01-01T00:00:00.000Z'' None = Inr b' \<and> validateInquiryBundle ex_dp b' = []"
proof -
  have t: "isCanonicalTimestamp ex_dp ''1970-01-01T00:00:00.000Z''" using ex_times by (simp add: times_ok_def)
  have s: "inquiry.reachable ex_dp ex_digest ex_start"
  proof (rule inquiry.reachable.init)
    have "distinct (map card_id (cards (mk_doc [mk_card ''c1'' ''a'' 0 0] [] [])))" by simp
    then show "session_start ex_dp ex_digest ex_start" unfolding session_start_def ex_start_def using t ex_digest_ok by blast
  qed
  have i: "record_input_ok ex_digest ex_start (mk_doc [mk_card ''c1'' ''b'' 0 0] [] []) ''r1_problem_setting'' ex_ids"
    using ex_digest_ok by (auto simp: record_input_ok_def ROUND_STAGES_def ex_start_def startInquiryJourney_def Let_def ex_ids_def inj_def
        dest: arg_cong [where f = length])
  obtain b' where b': "recordInquiryRound ex_dp ex_digest ex_start (mk_doc [mk_card ''c1'' ''b'' 0 0] [] []) ''r1_problem_setting'' ex_ids
      ''1970-01-01T00:00:00.000Z'' None = Inr b'"
    using t by (simp add: recordInquiryRound_def ex_start_def startInquiryJourney_def Let_def appendRoundRecord_def new_round_def
        rounds_by_id_def new_map_def findDuplicates_Nil parse_less_def ex_dp_def)
  have "inquiry.reachable ex_dp ex_digest b'" by (rule inquiry.reachable.move [OF s session_step.intros [OF b' i]])
  then show ?thesis using b' session_bundles_valid by blast
qed

end
