(* ===== verification/Inquiry_Trace.thy ===== *)
theory Inquiry_Trace
  imports Inquiry_Session
begin

text \<open>
  The reading side of \<open>domain/inquiry_journey_session.ts\<close>: comparison of two rounds, the resume brief, and the
  breadth-first trace of a card to the cards it came from.
\<close>

section \<open>Comparing rounds\<close>

record comparison_summary =
  cmp_cards :: nat
  cmp_islands :: nat
  cmp_relationSummaries :: nat
  readingOrderChanged :: bool

datatype lookup_error = RoundNotFound | SnapshotNotFound

definition compareInquiryRounds :: "js_engine \<Rightarrow> inquiry_bundle \<Rightarrow> string \<Rightarrow> string \<Rightarrow> lookup_error + comparison_summary" where
  "compareInquiryRounds E b fromRoundId toRoundId =
     (case (find (\<lambda>r. roundId r = fromRoundId) (roundRecords (journey b)), find (\<lambda>r. roundId r = toRoundId) (roundRecords (journey b))) of
        (Some fromRound, Some toRound) \<Rightarrow>
          (case (find (\<lambda>s. Some (snapshotId s) = outputSnapshotId fromRound) (snapshots b),
                 find (\<lambda>s. Some (snapshotId s) = outputSnapshotId toRound) (snapshots b)) of
             (Some fromSnapshot, Some toSnapshot) \<Rightarrow>
               (let d = diffDocuments E (snap_document fromSnapshot) (snap_document toSnapshot)
                in Inr \<lparr>cmp_cards = length (cd_added (dr_cards d)) + length (cd_removed (dr_cards d)) + length (cd_changedText (dr_cards d)),
                        cmp_islands = length (id_added (dr_islands d)) + length (id_removed (dr_islands d)) +
                          length (membershipChanged (dr_islands d)) + length (summaryChanged (dr_islands d)),
                        cmp_relationSummaries = length (rd_added (dr_relationSummaries d)) + length (rd_removed (dr_relationSummaries d)) +
                          length (rd_changedText (dr_relationSummaries d)) + length (changedReviewed (dr_relationSummaries d)) +
                          length (warningsChanged (dr_relationSummaries d)),
                        readingOrderChanged = od_changed (dr_readingOrder d)\<rparr>)
           | _ \<Rightarrow> Inl SnapshotNotFound)
      | _ \<Rightarrow> Inl RoundNotFound)"

section \<open>The resume brief\<close>

record resume_card =
  resc_id :: string
  resc_text :: string
  resc_source :: "string option"

type_synonym round_label = "string \<times> string \<times> rat"

record resume_result =
  rr_round :: "round_label option"
  rr_snapshotId :: string
  rr_title :: string
  rr_cards :: "resume_card list"

record resume_brief =
  rb_round :: round_label
  rb_question :: string
  rb_understandingDelta :: "string option"
  rb_unresolvedQuestions :: "string list"
  rb_nextActions :: "string list"
  previousResults :: "resume_result list"

definition round_label :: "round_record \<Rightarrow> round_label" where
  "round_label r = (roundId r, stage r, iteration r)"

definition card_source :: "card \<Rightarrow> string option" where
  "card_source c = (case card_meta_of c of None \<Rightarrow> None | Some m \<Rightarrow> if truthy_str (meta_source m) then meta_source m else None)"

definition previous_addresses :: "inquiry_bundle \<Rightarrow> round_record \<Rightarrow> (round_record option \<times> string) option list" where
  "previous_addresses b r =
     (if length (parentRoundIds r) > 0
      then map (\<lambda>p. case find (\<lambda>q. roundId q = p) (roundRecords (journey b)) of
                      None \<Rightarrow> None
                    | Some q \<Rightarrow> if truthy_str (outputSnapshotId q) then Some (Some q, the (outputSnapshotId q)) else None) (parentRoundIds r)
      else map (\<lambda>s. Some (None, s)) (originSnapshotIds (journey b)))"

fun previous_results :: "inquiry_bundle \<Rightarrow> (round_record option \<times> string) option list \<Rightarrow> resume_result list option" where
  "previous_results b [] = Some []"
| "previous_results b (None # as) = previous_results b as"
| "previous_results b (Some (r, sid) # as) =
     (case find (\<lambda>s. snapshotId s = sid) (snapshots b) of
        None \<Rightarrow> None
      | Some s \<Rightarrow> map_option (Cons \<lparr>rr_round = map_option round_label r, rr_snapshotId = snapshotId s, rr_title = title_or_id (snap_document s),
                     rr_cards = map (\<lambda>c. \<lparr>resc_id = card_id c, resc_text = card_text c, resc_source = card_source c\<rparr>) (cards (snap_document s))\<rparr>)
                  (previous_results b as))"

definition buildInquiryResumeBrief :: "inquiry_bundle \<Rightarrow> string option \<Rightarrow> lookup_error + resume_brief" where
  "buildInquiryResumeBrief b optRound =
     (let rid = (case optRound of Some r \<Rightarrow> Some r | None \<Rightarrow> defaultHeadRoundId (journey b)) in
      case find (\<lambda>r. Some (roundId r) = rid) (roundRecords (journey b)) of
        None \<Rightarrow> Inl RoundNotFound
      | Some r \<Rightarrow>
          (let addresses = previous_addresses b r in
           if list_ex (\<lambda>a. a = None) addresses then Inl SnapshotNotFound
           else case previous_results b addresses of
             None \<Rightarrow> Inl SnapshotNotFound
           | Some results \<Rightarrow>
               Inr \<lparr>rb_round = round_label r, rb_question = theme r,
                    rb_understandingDelta = (case handoff r of None \<Rightarrow> None
                      | Some h \<Rightarrow> if truthy_str (understandingDelta h) then understandingDelta h else None),
                    rb_unresolvedQuestions = (case handoff r of None \<Rightarrow> [] | Some h \<Rightarrow> unresolvedQuestions h),
                    rb_nextActions = (case handoff r of None \<Rightarrow> [] | Some h \<Rightarrow> map question (fieldworkRequests h)),
                    previousResults = results\<rparr>))"

section \<open>Tracing a card\<close>

datatype lineage_kind = KCarried | KEdited | KDerived | KSplit | KMerged | KNew | KRetired

fun edge_kind :: "lineage_edge \<Rightarrow> lineage_kind" where
  "edge_kind (OneToOne _ same _ _) = (if same then KCarried else KEdited)"
| "edge_kind (Derived _ _ _) = KDerived"
| "edge_kind (Split _ _ _) = KSplit"
| "edge_kind (Merged _ _ _) = KMerged"
| "edge_kind (NewCard _ _) = KNew"
| "edge_kind (Retired _ _) = KRetired"

definition lineageSources :: "lineage_edge \<Rightarrow> card_address list" where
  "lineageSources e = fst (getLineageAddresses e)"

definition lineageTargets :: "lineage_edge \<Rightarrow> card_address list" where
  "lineageTargets e = snd (getLineageAddresses e)"

record lineage_node =
  node_address :: card_address
  node_text :: string
  node_source :: "string option"
  node_round :: "round_label option"
  viaKind :: "lineage_kind option"

definition rounds_by_snapshot :: "inquiry_bundle \<Rightarrow> (string \<times> round_record) list" where
  "rounds_by_snapshot b =
     new_map (map (\<lambda>r. (the (outputSnapshotId r), r)) (filter (\<lambda>r. truthy_str (outputSnapshotId r)) (roundRecords (journey b))))"

definition buildNode :: "inquiry_bundle \<Rightarrow> card_address \<Rightarrow> lineage_kind option \<Rightarrow> lineage_node option" where
  "buildNode b a via =
     (case map_of (snapshots_by_id (snapshots b)) (addr_snapshotId a) of
        None \<Rightarrow> None
      | Some s \<Rightarrow> (case find (\<lambda>c. card_id c = addr_cardId a) (cards (snap_document s)) of
          None \<Rightarrow> None
        | Some c \<Rightarrow> Some \<lparr>node_address = a, node_text = card_text c, node_source = card_source c,
                         node_round = map_option round_label (map_of (rounds_by_snapshot b) (addr_snapshotId a)), viaKind = via\<rparr>))"

definition lineage_steps :: "inquiry_bundle \<Rightarrow> card_address \<Rightarrow> (card_address \<times> lineage_kind) list" where
  "lineage_steps b current =
     concat (map (\<lambda>e. if list_ex (\<lambda>a. addressKey a = addressKey current) (lineageTargets e)
                      then map (\<lambda>s. (s, edge_kind e)) (lineageSources e) else []) (cardLineage b))"

type_synonym trace_state = "lineage_node list \<times> string list \<times> card_address list"

definition trace_step :: "inquiry_bundle \<Rightarrow> card_address \<times> lineage_kind \<Rightarrow> trace_state \<Rightarrow> trace_state" where
  "trace_step b sk st =
     (let (ancestors, visited, queue) = st; key = addressKey (fst sk) in
      if key \<in> set visited then st
      else case buildNode b (fst sk) (Some (snd sk)) of
        None \<Rightarrow> (ancestors, js_add key visited, queue)
      | Some node \<Rightarrow> (ancestors @ [node], js_add key visited, queue @ [fst sk]))"

definition source_keys :: "inquiry_bundle \<Rightarrow> string set" where
  "source_keys b = addressKey ` (\<Union>e\<in>set (cardLineage b). set (lineageSources e))"

lemma finite_source_keys [simp]: "finite (source_keys b)"
  by (simp add: source_keys_def)

lemma lineage_steps_keys: "sk \<in> set (lineage_steps b c) \<Longrightarrow> addressKey (fst sk) \<in> source_keys b"
  by (auto simp: lineage_steps_def source_keys_def split: if_splits)

lemma trace_steps_grow:
  assumes "\<And>sk. sk \<in> set xs \<Longrightarrow> addressKey (fst sk) \<in> K"
  shows "fold (trace_step b) xs (anc, vis, q) = (anc', vis', q') \<Longrightarrow>
    set vis \<subseteq> set vis' \<and> set vis' \<subseteq> set vis \<union> K \<and> (set vis' = set vis \<longrightarrow> q' = q)"
  using assms
proof (induction xs arbitrary: anc vis q)
  case (Cons sk xs)
  obtain a1 v1 q1 where s1: "trace_step b sk (anc, vis, q) = (a1, v1, q1)" by (metis prod_cases3)
  have f: "fold (trace_step b) xs (a1, v1, q1) = (anc', vis', q')" using Cons.prems(1) s1 by simp
  have IH: "set v1 \<subseteq> set vis' \<and> set vis' \<subseteq> set v1 \<union> K \<and> (set vis' = set v1 \<longrightarrow> q' = q1)"
    by (rule Cons.IH [OF f]) (simp add: Cons.prems(2))
  have "(v1 = vis \<and> q1 = q) \<or> (addressKey (fst sk) \<notin> set vis \<and> set v1 = insert (addressKey (fst sk)) (set vis))"
    using s1 by (auto simp: trace_step_def Let_def split: if_splits option.splits)
  then show ?case using IH Cons.prems(2) [of sk] by auto
qed simp

function trace_loop :: "inquiry_bundle \<Rightarrow> trace_state \<Rightarrow> lineage_node list" where
  "trace_loop b (ancestors, visited, []) = ancestors"
| "trace_loop b (ancestors, visited, current # queue) =
     trace_loop b (fold (trace_step b) (lineage_steps b current) (ancestors, visited, queue))"
  by pat_completeness auto
termination
proof (relation "measures [\<lambda>(b, _, vis, _). card (source_keys b - set vis), \<lambda>(b, _, _, q). length q]", goal_cases)
  case (2 b anc vis cur q)
  obtain a1 v1 q1 where f: "fold (trace_step b) (lineage_steps b cur) (anc, vis, q) = (a1, v1, q1)" by (metis prod_cases3)
  have g: "set vis \<subseteq> set v1 \<and> set v1 \<subseteq> set vis \<union> source_keys b \<and> (set v1 = set vis \<longrightarrow> q1 = q)"
    by (rule trace_steps_grow [OF _ f]) (rule lineage_steps_keys)
  show ?case
  proof (cases "set v1 = set vis")
    case True
    then show ?thesis using g f by simp
  next
    case False
    then have "source_keys b - set v1 \<subset> source_keys b - set vis" using g by auto
    then have "card (source_keys b - set v1) < card (source_keys b - set vis)" by (intro psubset_card_mono) auto
    then show ?thesis using f by simp
  qed
qed (rule wf_measures)

definition traceInquiryCardLineage :: "inquiry_bundle \<Rightarrow> card_address \<Rightarrow> (lineage_node \<times> lineage_node list) option" where
  "traceInquiryCardLineage b targetAddress =
     (case buildNode b targetAddress None of
        None \<Rightarrow> None
      | Some target \<Rightarrow> Some (target, trace_loop b ([], [addressKey targetAddress], [targetAddress])))"

section \<open>The trace finds exactly the ancestors\<close>

definition exists_card :: "inquiry_bundle \<Rightarrow> card_address \<Rightarrow> bool" where
  "exists_card b a \<longleftrightarrow> buildNode b a None \<noteq> None"

lemma buildNode_exists: "buildNode b a via = None \<longleftrightarrow> \<not> exists_card b a"
  by (auto simp: exists_card_def buildNode_def split: option.splits)

lemma buildNode_address: "buildNode b a via = Some n \<Longrightarrow> node_address n = a \<and> viaKind n = via"
  by (auto simp: buildNode_def split: option.splits)

definition came_from :: "inquiry_bundle \<Rightarrow> (card_address \<times> card_address) set" where
  "came_from b = {(t, s). exists_card b s \<and> (\<exists>e\<in>set (cardLineage b). t \<in> set (lineageTargets e) \<and> s \<in> set (lineageSources e))}"

definition plain_addresses :: "inquiry_bundle \<Rightarrow> bool" where
  "plain_addresses b \<longleftrightarrow> (\<forall>e\<in>set (cardLineage b). \<forall>a\<in>set (lineageTargets e) \<union> set (lineageSources e). CHR 0x00 \<notin> set (addr_snapshotId a))"

lemma addressKey_inject:
  assumes "addressKey a = addressKey b" "CHR 0x00 \<notin> set (addr_snapshotId a)" "CHR 0x00 \<notin> set (addr_snapshotId b)"
  shows "a = b"
proof -
  have "takeWhile (\<lambda>c. c \<noteq> CHR 0x00) (addressKey a) = addr_snapshotId a" "takeWhile (\<lambda>c. c \<noteq> CHR 0x00) (addressKey b) = addr_snapshotId b"
    using assms(2,3) by (auto simp: addressKey_def takeWhile_append)
  then have "addr_snapshotId a = addr_snapshotId b" using assms(1) by simp
  then show ?thesis using assms(1) by (simp add: addressKey_def card_address.equality)
qed

definition nodes :: "card_address \<Rightarrow> lineage_node list \<Rightarrow> card_address set" where
  "nodes t anc = insert t (node_address ` set anc)"

definition trace_inv :: "inquiry_bundle \<Rightarrow> card_address \<Rightarrow> trace_state \<Rightarrow> bool" where
  "trace_inv b t st \<longleftrightarrow> (case st of (anc, vis, q) \<Rightarrow>
     set q \<subseteq> nodes t anc \<and> nodes t anc \<subseteq> (came_from b)\<^sup>* `` {t} \<and> addressKey ` nodes t anc \<subseteq> set vis \<and>
     (\<forall>k\<in>set vis. k \<in> addressKey ` nodes t anc \<or> (\<exists>a. \<not> exists_card b a \<and> CHR 0x00 \<notin> set (addr_snapshotId a) \<and> addressKey a = k)))"

lemma trace_step_inv:
  assumes "trace_inv b t (anc, vis, q)" "c \<in> nodes t anc" "CHR 0x00 \<notin> set (addr_snapshotId s)"
    "exists_card b s \<Longrightarrow> (c, s) \<in> came_from b" "trace_step b (s, k) (anc, vis, q) = (anc', vis', q')"
  shows "trace_inv b t (anc', vis', q') \<and> nodes t anc \<subseteq> nodes t anc' \<and> set vis \<subseteq> set vis' \<and> set q \<subseteq> set q' \<and>
    nodes t anc' \<subseteq> nodes t anc \<union> set q' \<and> addressKey s \<in> set vis'"
proof (cases "addressKey s \<in> set vis")
  case True
  then show ?thesis using assms(1,5) by (auto simp: trace_step_def)
next
  case new: False
  show ?thesis
  proof (cases "buildNode b s (Some k)")
    case None
    then have "\<not> exists_card b s" by (simp add: buildNode_exists)
    moreover have "anc' = anc" "vis' = js_add (addressKey s) vis" "q' = q" using assms(5) new None by (auto simp: trace_step_def Let_def)
    ultimately show ?thesis using assms(1,3) by (auto simp: trace_inv_def)
  next
    case (Some n)
    then have ex: "exists_card b s" using buildNode_exists [of b s "Some k"] by simp
    have n: "node_address n = s" using buildNode_address [OF Some] by simp
    have e: "anc' = anc @ [n]" "vis' = js_add (addressKey s) vis" "q' = q @ [s]" using assms(5) new Some by (auto simp: trace_step_def Let_def)
    have nd: "nodes t (anc @ [n]) = insert s (nodes t anc)" by (auto simp: nodes_def n)
    have "s \<in> (came_from b)\<^sup>* `` {t}"
      using assms(1,2) assms(4) [OF ex] by (auto simp: trace_inv_def intro: rtrancl_into_rtrancl)
    then show ?thesis using assms(1) by (auto simp: trace_inv_def e nd)
  qed
qed

lemma trace_fold_inv:
  assumes "fold (trace_step b) xs (anc, vis, q) = (anc', vis', q')" "trace_inv b t (anc, vis, q)" "c \<in> nodes t anc"
    "\<And>sk. sk \<in> set xs \<Longrightarrow> CHR 0x00 \<notin> set (addr_snapshotId (fst sk)) \<and> (exists_card b (fst sk) \<longrightarrow> (c, fst sk) \<in> came_from b)"
  shows "trace_inv b t (anc', vis', q') \<and> nodes t anc \<subseteq> nodes t anc' \<and> set vis \<subseteq> set vis' \<and> set q \<subseteq> set q' \<and>
    nodes t anc' \<subseteq> nodes t anc \<union> set q' \<and> addressKey ` fst ` set xs \<subseteq> set vis'"
  using assms
proof (induction xs arbitrary: anc vis q)
  case (Cons sk xs)
  obtain a1 v1 q1 where s1: "trace_step b sk (anc, vis, q) = (a1, v1, q1)" by (metis prod_cases3)
  then have s1': "trace_step b (fst sk, snd sk) (anc, vis, q) = (a1, v1, q1)" by simp
  have step: "trace_inv b t (a1, v1, q1) \<and> nodes t anc \<subseteq> nodes t a1 \<and> set vis \<subseteq> set v1 \<and> set q \<subseteq> set q1 \<and>
    nodes t a1 \<subseteq> nodes t anc \<union> set q1 \<and> addressKey (fst sk) \<in> set v1"
    by (rule trace_step_inv [OF Cons.prems(2,3) _ _ s1']) (use Cons.prems(4) [of sk] in simp_all)
  have f: "fold (trace_step b) xs (a1, v1, q1) = (anc', vis', q')" using Cons.prems(1) s1 by simp
  have "trace_inv b t (anc', vis', q') \<and> nodes t a1 \<subseteq> nodes t anc' \<and> set v1 \<subseteq> set vis' \<and> set q1 \<subseteq> set q' \<and>
    nodes t anc' \<subseteq> nodes t a1 \<union> set q' \<and> addressKey ` fst ` set xs \<subseteq> set vis'"
    by (rule Cons.IH [OF f]) (use step Cons.prems(3,4) in auto)
  then show ?case using step by auto
qed simp

lemma came_from_plain:
  assumes "plain_addresses b" "CHR 0x00 \<notin> set (addr_snapshotId t)" "n \<in> (came_from b)\<^sup>* `` {t}"
  shows "CHR 0x00 \<notin> set (addr_snapshotId n)"
proof -
  have "(t, n) \<in> (came_from b)\<^sup>*" using assms(3) by simp
  then show ?thesis
  proof (cases rule: rtranclE)
    case base
    then show ?thesis using assms(2) by simp
  next
    case (step y)
    then obtain e where "e \<in> set (cardLineage b)" "n \<in> set (lineageSources e)" by (auto simp: came_from_def)
    then show ?thesis using assms(1) unfolding plain_addresses_def by blast
  qed
qed

lemma lineage_steps_iff:
  assumes "plain_addresses b" "CHR 0x00 \<notin> set (addr_snapshotId n)"
  shows "s \<in> fst ` set (lineage_steps b n) \<longleftrightarrow> (\<exists>e\<in>set (cardLineage b). n \<in> set (lineageTargets e) \<and> s \<in> set (lineageSources e))"
proof -
  have "list_ex (\<lambda>a. addressKey a = addressKey n) (lineageTargets e) \<longleftrightarrow> n \<in> set (lineageTargets e)" if "e \<in> set (cardLineage b)" for e
    using that assms addressKey_inject [of _ n] by (auto simp: list_ex_iff plain_addresses_def)
  then show ?thesis by (force simp: lineage_steps_def)
qed

lemma trace_loop_correct:
  "plain_addresses b \<Longrightarrow> CHR 0x00 \<notin> set (addr_snapshotId t) \<Longrightarrow> trace_inv b t st \<Longrightarrow>
   (case st of (anc, vis, q) \<Rightarrow> \<forall>n\<in>nodes t anc. n \<in> set q \<or> addressKey ` fst ` set (lineage_steps b n) \<subseteq> set vis) \<Longrightarrow>
   nodes t (trace_loop b st) = (came_from b)\<^sup>* `` {t}"
proof (induction b st rule: trace_loop.induct)
  case (1 b anc vis)
  have sub: "nodes t anc \<subseteq> (came_from b)\<^sup>* `` {t}" using 1(3) by (simp add: trace_inv_def)
  have closed: "s \<in> nodes t anc" if n: "n \<in> nodes t anc" and ns: "(n, s) \<in> came_from b" for n s
  proof -
    have pn: "CHR 0x00 \<notin> set (addr_snapshotId n)" using n sub by (intro came_from_plain [OF 1(1,2)]) auto
    have "s \<in> fst ` set (lineage_steps b n)" using ns by (auto simp: lineage_steps_iff [OF 1(1) pn] came_from_def)
    then have k: "addressKey s \<in> set vis" using 1(4) n by auto
    have ps: "CHR 0x00 \<notin> set (addr_snapshotId s)" using n ns sub by (intro came_from_plain [OF 1(1,2)]) (auto intro: rtrancl_into_rtrancl)
    have "\<not> (\<exists>a. \<not> exists_card b a \<and> CHR 0x00 \<notin> set (addr_snapshotId a) \<and> addressKey a = addressKey s)"
      using ns ps addressKey_inject [of _ s] by (auto simp: came_from_def)
    then obtain m where m: "m \<in> nodes t anc" "addressKey m = addressKey s" using k 1(3) by (force simp: trace_inv_def)
    have "CHR 0x00 \<notin> set (addr_snapshotId m)" using m(1) sub by (intro came_from_plain [OF 1(1,2)]) auto
    then show ?thesis using addressKey_inject [OF m(2)] ps m(1) by simp
  qed
  have "s \<in> nodes t anc" if "(t, s) \<in> (came_from b)\<^sup>*" for s
    using that by (induction rule: rtrancl_induct) (simp add: nodes_def, rule closed)
  then show ?case using sub by auto
next
  case (2 b anc vis cur q)
  obtain a1 v1 q1 where f: "fold (trace_step b) (lineage_steps b cur) (anc, vis, q) = (a1, v1, q1)" by (metis prod_cases3)
  have cn: "cur \<in> nodes t anc" and inv: "trace_inv b t (anc, vis, q)" using 2(4) by (auto simp: trace_inv_def)
  have "cur \<in> (came_from b)\<^sup>* `` {t}" using 2(4) cn by (auto simp: trace_inv_def)
  then have pc: "CHR 0x00 \<notin> set (addr_snapshotId cur)" by (rule came_from_plain [OF 2(2,3)])
  have src: "CHR 0x00 \<notin> set (addr_snapshotId (fst sk)) \<and> (exists_card b (fst sk) \<longrightarrow> (cur, fst sk) \<in> came_from b)"
    if "sk \<in> set (lineage_steps b cur)" for sk
    using lineage_steps_iff [OF 2(2) pc, of "fst sk"] that 2(2) unfolding came_from_def plain_addresses_def by blast
  note p = trace_fold_inv [OF f inv cn src]
  have "\<forall>n\<in>nodes t a1. n \<in> set q1 \<or> addressKey ` fst ` set (lineage_steps b n) \<subseteq> set v1"
  proof
    fix n assume "n \<in> nodes t a1"
    then have "n \<in> nodes t anc \<or> n \<in> set q1" using p by blast
    moreover have "n \<in> nodes t anc \<Longrightarrow> n = cur \<or> n \<in> set q \<or> addressKey ` fst ` set (lineage_steps b n) \<subseteq> set vis" using 2(5) by simp
    ultimately consider "n \<in> set q1" | "n = cur" | "n \<in> set q" | "addressKey ` fst ` set (lineage_steps b n) \<subseteq> set vis" by argo
    then show "n \<in> set q1 \<or> addressKey ` fst ` set (lineage_steps b n) \<subseteq> set v1"
    proof cases
      case 4
      then show ?thesis using p by (meson subset_trans)
    qed (use p in \<open>auto dest: subsetD\<close>)
  qed
  then show ?case using 2(1) [OF 2(2,3)] p f by simp
qed

subsection \<open>No card is listed twice\<close>

definition trace_fresh :: "card_address \<Rightarrow> trace_state \<Rightarrow> bool" where
  "trace_fresh t st \<longleftrightarrow> (case st of (anc, vis, q) \<Rightarrow> distinct (t # map node_address anc) \<and> addressKey ` nodes t anc \<subseteq> set vis)"

lemma trace_step_fresh:
  assumes "trace_fresh t st" shows "trace_fresh t (trace_step b sk st)"
proof -
  obtain anc vis q where st: "st = (anc, vis, q)" by (metis prod_cases3)
  show ?thesis
  proof (cases "addressKey (fst sk) \<in> set vis")
    case False
    then have fresh: "fst sk \<noteq> t" "fst sk \<notin> node_address ` set anc" using assms by (auto simp: st trace_fresh_def nodes_def)
    show ?thesis
    proof (cases "buildNode b (fst sk) (Some (snd sk))")
      case None
      then show ?thesis using assms False by (auto simp: st trace_fresh_def trace_step_def Let_def)
    next
      case (Some n)
      then have "node_address n = fst sk" using buildNode_address by blast
      then have "nodes t (anc @ [n]) = insert (fst sk) (nodes t anc)" by (auto simp: nodes_def)
      then show ?thesis using assms False fresh Some \<open>node_address n = fst sk\<close>
        by (auto simp: st trace_fresh_def trace_step_def Let_def)
    qed
  qed (use assms in \<open>simp add: st trace_step_def\<close>)
qed

lemma trace_fold_fresh: "trace_fresh t st \<Longrightarrow> trace_fresh t (fold (trace_step b) xs st)"
  by (induction xs arbitrary: st) (simp_all add: trace_step_fresh)

lemma trace_loop_fresh: "trace_fresh t st \<Longrightarrow> distinct (t # map node_address (trace_loop b st))"
proof (induction b st rule: trace_loop.induct)
  case (1 b anc vis)
  then show ?case by (simp add: trace_fresh_def)
next
  case (2 b anc vis cur q)
  have "trace_fresh t (fold (trace_step b) (lineage_steps b cur) (anc, vis, q))"
    by (rule trace_fold_fresh) (use 2(2) in \<open>simp add: trace_fresh_def\<close>)
  then show ?case using 2(1) by simp
qed

text \<open>C13. Tracing a card ends on every lineage, cyclic ones included. It fails exactly when the card itself does not
  exist; otherwise it lists, each exactly once and without the card itself, the other cards it came from: those
  reachable over lineage edges through cards that exist. (Snapshot identifiers must not contain the null character
  that separates the parts of an address.)\<close>

theorem trace_exact:
  assumes "plain_addresses b" and "CHR 0x00 \<notin> set (addr_snapshotId t)"
  shows "case traceInquiryCardLineage b t of
      None \<Rightarrow> \<not> exists_card b t
    | Some (target, ancestors) \<Rightarrow> exists_card b t \<and> node_address target = t \<and> distinct (map node_address ancestors) \<and>
        node_address ` set ancestors = {s. (t, s) \<in> (came_from b)\<^sup>* \<and> s \<noteq> t}"
proof (cases "buildNode b t None")
  case None
  then show ?thesis by (simp add: traceInquiryCardLineage_def exists_card_def)
next
  case (Some n)
  let ?anc = "trace_loop b ([], [addressKey t], [t])"
  have "nodes t ?anc = (came_from b)\<^sup>* `` {t}"
    by (rule trace_loop_correct [OF assms]) (simp_all add: trace_inv_def nodes_def)
  moreover have "distinct (t # map node_address ?anc)"
    by (rule trace_loop_fresh) (simp add: trace_fresh_def nodes_def)
  ultimately have "distinct (map node_address ?anc) \<and> node_address ` set ?anc = {s. (t, s) \<in> (came_from b)\<^sup>* \<and> s \<noteq> t}"
    by (auto simp: nodes_def)
  then show ?thesis
    using Some buildNode_address [OF Some] by (simp add: traceInquiryCardLineage_def exists_card_def)
qed

abbreviation at_snapshot :: "string \<Rightarrow> card_address" where
  "at_snapshot sid \<equiv> \<lparr>addr_snapshotId = sid, addr_cardId = ''c1''\<rparr>"

definition ex_cyclic :: inquiry_bundle where
  "ex_cyclic = ex_start\<lparr>
     snapshots := map (\<lambda>sid. createSnapshot sid ''1970-01-01T00:00:00.000Z'' (mk_doc [mk_card ''c1'' sid 0 0] [] []) ''d'')
       [''s1'', ''s2'', ''s3''],
     cardLineage := [OneToOne ''l1'' False (at_snapshot ''s1'') (at_snapshot ''s2''),
       Merged ''l2'' [at_snapshot ''s2'', at_snapshot ''gone''] (at_snapshot ''s3''),
       OneToOne ''l3'' False (at_snapshot ''s3'') (at_snapshot ''s1'')]\<rparr>"

lemma ex_cyclic_exists: "exists_card ex_cyclic (at_snapshot sid) \<longleftrightarrow> sid \<in> {''s1'', ''s2'', ''s3''}"
  by (simp add: exists_card_def buildNode_def ex_cyclic_def snapshots_by_id_def new_map_def createSnapshot_def)

lemma ex_cyclic_came_from:
  "came_from ex_cyclic = {(at_snapshot ''s2'', at_snapshot ''s1''), (at_snapshot ''s3'', at_snapshot ''s2''),
     (at_snapshot ''s1'', at_snapshot ''s3'')}"
proof -
  have lineage: "cardLineage ex_cyclic = [OneToOne ''l1'' False (at_snapshot ''s1'') (at_snapshot ''s2''),
       Merged ''l2'' [at_snapshot ''s2'', at_snapshot ''gone''] (at_snapshot ''s3''),
       OneToOne ''l3'' False (at_snapshot ''s3'') (at_snapshot ''s1'')]"
    by (simp add: ex_cyclic_def)
  have gone: "\<not> exists_card ex_cyclic (at_snapshot ''gone'')" by (simp add: ex_cyclic_exists)
  have "exists_card ex_cyclic (at_snapshot ''s1'')" "exists_card ex_cyclic (at_snapshot ''s2'')"
    "exists_card ex_cyclic (at_snapshot ''s3'')"
    by (simp_all add: ex_cyclic_exists)
  then show ?thesis using gone by (auto simp: came_from_def lineage lineageTargets_def lineageSources_def)
qed

theorem trace_exact_witness:
  "(at_snapshot ''s3'', at_snapshot ''s3'') \<in> (came_from ex_cyclic)\<^sup>+ \<and>
   (\<exists>target ancestors. traceInquiryCardLineage ex_cyclic (at_snapshot ''s3'') = Some (target, ancestors) \<and>
     distinct (map node_address ancestors) \<and> node_address ` set ancestors = {at_snapshot ''s1'', at_snapshot ''s2''})"
proof -
  have "plain_addresses ex_cyclic" by (simp add: plain_addresses_def ex_cyclic_def lineageTargets_def lineageSources_def)
  from trace_exact [OF this, of "at_snapshot ''s3''"] obtain target ancestors
    where t: "traceInquiryCardLineage ex_cyclic (at_snapshot ''s3'') = Some (target, ancestors)" "distinct (map node_address ancestors)"
      "node_address ` set ancestors = {s. (at_snapshot ''s3'', s) \<in> (came_from ex_cyclic)\<^sup>* \<and> s \<noteq> at_snapshot ''s3''}"
    by (auto simp: ex_cyclic_exists split: option.splits)
  have step: "(at_snapshot ''s3'', at_snapshot ''s2'') \<in> came_from ex_cyclic" "(at_snapshot ''s2'', at_snapshot ''s1'') \<in> came_from ex_cyclic"
    "(at_snapshot ''s1'', at_snapshot ''s3'') \<in> came_from ex_cyclic"
    by (simp_all add: ex_cyclic_came_from)
  have "s \<in> {at_snapshot ''s1'', at_snapshot ''s2'', at_snapshot ''s3''}" if "(at_snapshot ''s3'', s) \<in> (came_from ex_cyclic)\<^sup>*" for s
    using that by (induction rule: rtrancl_induct) (auto simp: ex_cyclic_came_from)
  moreover have "(at_snapshot ''s3'', at_snapshot ''s1'') \<in> (came_from ex_cyclic)\<^sup>*" "(at_snapshot ''s3'', at_snapshot ''s2'') \<in> (came_from ex_cyclic)\<^sup>*"
    by (rule converse_rtrancl_into_rtrancl [OF step(1) r_into_rtrancl [OF step(2)]], rule r_into_rtrancl [OF step(1)])
  ultimately have "{s. (at_snapshot ''s3'', s) \<in> (came_from ex_cyclic)\<^sup>* \<and> s \<noteq> at_snapshot ''s3''} = {at_snapshot ''s1'', at_snapshot ''s2''}"
    by auto
  moreover have "(at_snapshot ''s3'', at_snapshot ''s3'') \<in> (came_from ex_cyclic)\<^sup>+"
    by (rule trancl_into_trancl [OF trancl_into_trancl [OF r_into_trancl [OF step(1)] step(2)] step(3)])
  ultimately show ?thesis using t by auto
qed

end
