(* ===== verification/Tenant_Scope.thy ===== *)
theory Tenant_Scope
  imports JS_Strings Json_Value
begin

text \<open>
  \<open>storage/tenant_scope.ts\<close>: browser storage keys that carry the deployment, the tenant and the principal they
  belong to. A \<open>Storage\<close> object is its items in the order of \<open>Storage.key\<close>; \<open>encodeURIComponent\<close> and the
  character class \<open>\p{C}\<close> are written out on the modelled characters U+0000 to U+00FF (no surrogates, so
  \<open>encodeURIComponent\<close> never throws).

  The locale \<open>scoped_keys\<close> is the contract the readers and writers of scoped items rely on: prefixes of different
  scopes never cover one another. It is interpreted on \<open>buildTenantStoragePrefix\<close> at the end.
\<close>

section \<open>Characters and encoding\<close>

text \<open>\<open>/\p{C}/u\<close>: control characters, and the format character U+00AD.\<close>

definition invalid_scope_character :: "char \<Rightarrow> bool" where
  "invalid_scope_character c =
     (let n = (of_char c :: nat) in n < 32 \<or> (127 \<le> n \<and> n \<le> 159) \<or> n = 173)"

definition uri_unreserved :: "char \<Rightarrow> bool" where
  "uri_unreserved c =
     (let n = (of_char c :: nat) in
      (48 \<le> n \<and> n \<le> 57) \<or> (65 \<le> n \<and> n \<le> 90) \<or> (97 \<le> n \<and> n \<le> 122) \<or>
      n \<in> {45, 95, 46, 33, 126, 42, 39, 40, 41})"

definition upper_hex :: "nat \<Rightarrow> char" where
  "upper_hex d = char_of (if d < 10 then 48 + d else 55 + d)"

definition percent_byte :: "nat \<Rightarrow> string" where
  "percent_byte b = [CHR ''%'', upper_hex (b div 16), upper_hex (b mod 16)]"

definition encode_uri_char :: "char \<Rightarrow> string" where
  "encode_uri_char c =
     (let n = (of_char c :: nat) in
      if uri_unreserved c then [c]
      else if n < 128 then percent_byte n
      else percent_byte (192 + n div 64) @ percent_byte (128 + n mod 64))"

definition encodeURIComponent :: "string \<Rightarrow> string" where
  "encodeURIComponent s = concat (map encode_uri_char s)"

section \<open>Scopes and keys\<close>

datatype tenant_error =
    Scope_value string
  | Invalid_tenant_session_context
  | Aborted
  | Request_failed nat
  | Other_failure

record tenant_scope =
  deployment :: string
  tenantId :: string
  principalId :: string

type_synonym storage = "(string \<times> string) list"

definition TENANT_SCOPE_PREFIX :: string where
  "TENANT_SCOPE_PREFIX = ''sui-sensemaking/tenant-scope/v1''"

definition MAX_SCOPE_LENGTH :: "string \<Rightarrow> nat" where
  "MAX_SCOPE_LENGTH name = nullish (map_of [(''deployment'', 2048), (''tenantId'', 256), (''principalId'', 256), (''baseKey'', 256)] name) 256"

definition encodeRequiredPart :: "string \<Rightarrow> string \<Rightarrow> tenant_error + string" where
  "encodeRequiredPart name v =
     (if v = [] \<or> length v > MAX_SCOPE_LENGTH name \<or> trim v \<noteq> v \<or> list_ex invalid_scope_character v
      then Inl (Scope_value name)
      else Inr (encodeURIComponent v))"

definition buildTenantStoragePrefix :: "tenant_scope \<Rightarrow> tenant_error + string" where
  "buildTenantStoragePrefix scope =
     (case encodeRequiredPart ''deployment'' (deployment scope) of Inl e \<Rightarrow> Inl e
      | Inr d \<Rightarrow> (case encodeRequiredPart ''tenantId'' (tenantId scope) of Inl e \<Rightarrow> Inl e
      | Inr t \<Rightarrow> (case encodeRequiredPart ''principalId'' (principalId scope) of Inl e \<Rightarrow> Inl e
      | Inr p \<Rightarrow> Inr (TENANT_SCOPE_PREFIX @ ''/'' @ d @ ''/'' @ t @ ''/'' @ p @ ''/''))))"

definition buildTenantStorageKey :: "string \<Rightarrow> tenant_scope \<Rightarrow> tenant_error + string" where
  "buildTenantStorageKey baseKey scope =
     (case buildTenantStoragePrefix scope of Inl e \<Rightarrow> Inl e
      | Inr pre \<Rightarrow> (case encodeRequiredPart ''baseKey'' baseKey of Inl e \<Rightarrow> Inl e
      | Inr b \<Rightarrow> Inr (pre @ b)))"

definition storage_key :: "storage \<Rightarrow> nat \<Rightarrow> string option" where
  "storage_key st i = (if i < length st then Some (fst (st ! i)) else None)"

definition keys_with_prefix :: "storage \<Rightarrow> string \<Rightarrow> string list" where
  "keys_with_prefix st pre =
     List.map_filter (\<lambda>i. case storage_key st i of None \<Rightarrow> None
        | Some k \<Rightarrow> if starts_with pre k then Some k else None) [0..<length st]"

definition clearTenantScopedStorage :: "storage \<Rightarrow> tenant_scope \<Rightarrow> tenant_error + nat \<times> storage" where
  "clearTenantScopedStorage st scope =
     (case buildTenantStoragePrefix scope of Inl e \<Rightarrow> Inl e
      | Inr pre \<Rightarrow> (let keysToRemove = keys_with_prefix st pre
          in Inr (length keysToRemove, fold AList.delete keysToRemove st)))"

section \<open>The encoding is a prefix code without separators\<close>

definition hex_val :: "char \<Rightarrow> nat" where
  "hex_val c = (let n = of_char c in if n < 58 then n - 48 else n - 55)"

definition decode_uri_char :: "string \<Rightarrow> (char \<times> string) option" where
  "decode_uri_char s = (case s of
       a # xs \<Rightarrow> if a \<noteq> CHR ''%'' then Some (a, xs) else
         (case xs of h # l # ys \<Rightarrow> (let b = 16 * hex_val h + hex_val l in
            if b < 128 then Some (char_of b, ys)
            else (case ys of _ # h' # l' # zs \<Rightarrow>
               Some (char_of (64 * (b - 192) + (16 * hex_val h' + hex_val l' - 128)), zs)
             | _ \<Rightarrow> None))
          | _ \<Rightarrow> None)
     | [] \<Rightarrow> None)"

lemma hex_val_upper [simp]: "d < 16 \<Longrightarrow> hex_val (upper_hex d) = d"
  by (auto simp: hex_val_def upper_hex_def of_char_of Let_def)

lemma byte_digits: "b < 256 \<Longrightarrow> 16 * hex_val (upper_hex (b div 16)) + hex_val (upper_hex (b mod 16)) = b"
  by (simp add: less_mult_imp_div_less)

lemma decode_two_bytes:
  assumes "192 + a < 256" and "128 + b < 256"
  shows "decode_uri_char (percent_byte (192 + a) @ percent_byte (128 + b) @ xs) = Some (char_of (64 * a + b), xs)"
proof -
  define h l h' l' where "h = upper_hex ((192 + a) div 16)" and "l = upper_hex ((192 + a) mod 16)"
    and "h' = upper_hex ((128 + b) div 16)" and "l' = upper_hex ((128 + b) mod 16)"
  have "16 * hex_val h + hex_val l = 192 + a" "16 * hex_val h' + hex_val l' = 128 + b"
    unfolding h_def l_def h'_def l'_def by (rule byte_digits [OF assms(1)], rule byte_digits [OF assms(2)])
  then show ?thesis
    unfolding percent_byte_def h_def [symmetric] l_def [symmetric] h'_def [symmetric] l'_def [symmetric]
    by (simp add: decode_uri_char_def)
qed

lemma decode_encode_uri_char: "decode_uri_char (encode_uri_char c @ xs) = Some (c, xs)"
proof -
  define n where "n = (of_char c :: nat)"
  have n: "n < 256" "c = char_of n" by (simp_all add: n_def of_char_of)
  have perc: "\<not> uri_unreserved (CHR ''%'')" by (simp add: uri_unreserved_def)
  consider "uri_unreserved c" | "\<not> uri_unreserved c" "n < 128" | "\<not> uri_unreserved c" "128 \<le> n" by linarith
  then show ?thesis
  proof cases
    case 1
    then have "c \<noteq> CHR ''%''" using perc by auto
    with 1 show ?thesis by (simp add: encode_uri_char_def decode_uri_char_def)
  next
    case 2
    then show ?thesis using n byte_digits [of n]
      by (simp add: encode_uri_char_def decode_uri_char_def percent_byte_def n_def [symmetric] Let_def)
  next
    case 3
    have b: "192 + n div 64 < 256" "128 + n mod 64 < 256" using n(1) by linarith+
    have "encode_uri_char c = percent_byte (192 + n div 64) @ percent_byte (128 + n mod 64)"
      using 3 by (simp add: encode_uri_char_def n_def Let_def)
    then show ?thesis
      by (simp only: decode_two_bytes [OF b] n(2) [symmetric] div_mult_mod_eq mult.commute [of 64] append.assoc)
  qed
qed

lemma encode_uri_char_cancel:
  "encode_uri_char c @ xs = encode_uri_char d @ ys \<longleftrightarrow> c = d \<and> xs = ys"
  by (metis decode_encode_uri_char option.inject prod.inject)

lemma encode_uri_char_not_Nil [simp]: "encode_uri_char c \<noteq> []"
  by (simp add: encode_uri_char_def percent_byte_def Let_def)

lemma encodeURIComponent_inject [simp]: "encodeURIComponent s = encodeURIComponent t \<longleftrightarrow> s = t"
proof (induction s arbitrary: t)
  case Nil
  then show ?case by (cases t) (simp_all add: encodeURIComponent_def)
next
  case (Cons c s)
  then show ?case
    by (cases t) (simp_all add: encodeURIComponent_def encode_uri_char_cancel)
qed

lemma upper_hex_no_slash: "d < 16 \<Longrightarrow> upper_hex d \<noteq> CHR ''/''"
proof
  assume "d < 16" "upper_hex d = CHR ''/''"
  then have "of_char (upper_hex d) = (47 :: nat)" by simp
  with \<open>d < 16\<close> show False by (simp add: upper_hex_def of_char_of split: if_splits)
qed

lemma percent_byte_no_slash: "b < 256 \<Longrightarrow> CHR ''/'' \<notin> set (percent_byte b)"
  using upper_hex_no_slash [of "b div 16"] upper_hex_no_slash [of "b mod 16"]
  by (auto simp: percent_byte_def less_mult_imp_div_less)

lemma encode_uri_char_no_slash: "CHR ''/'' \<notin> set (encode_uri_char c)"
proof -
  have "of_char c < (256 :: nat)" by simp
  then have "192 + of_char c div 64 < (256 :: nat)" "128 + of_char c mod 64 < (256 :: nat)" "of_char c < (256 :: nat)"
    by linarith+
  then show ?thesis
    using percent_byte_no_slash [of "of_char c"] percent_byte_no_slash [of "192 + of_char c div 64"]
      percent_byte_no_slash [of "128 + of_char c mod 64"]
    by (auto simp: encode_uri_char_def Let_def uri_unreserved_def)
qed

lemma encodeURIComponent_no_slash [simp]: "CHR ''/'' \<notin> set (encodeURIComponent s)"
  using encode_uri_char_no_slash by (auto simp: encodeURIComponent_def)

section \<open>Clearing\<close>

definition prefix_of_scope :: "tenant_scope \<Rightarrow> string option" where
  "prefix_of_scope s = (case buildTenantStoragePrefix s of Inl e \<Rightarrow> None | Inr p \<Rightarrow> Some p)"

lemma set_keys_with_prefix: "set (keys_with_prefix st p) = {k \<in> fst ` set st. starts_with p k}"
  by (force simp: keys_with_prefix_def storage_key_def map_filter_def in_set_conv_nth split: if_splits option.splits)

lemma keys_with_prefix_eq: "keys_with_prefix st p = filter (starts_with p) (map fst st)"
proof -
  have "keys_with_prefix st p =
      List.map_filter (\<lambda>i. if starts_with p (fst (st ! i)) then Some (fst (st ! i)) else None) [0..<length st]"
    by (auto simp: keys_with_prefix_def storage_key_def map_filter_def intro!: map_cong filter_cong)
  also have "\<dots> = map (\<lambda>i. fst (st ! i)) (filter (\<lambda>i. starts_with p (fst (st ! i))) [0..<length st])"
    by (auto simp: map_filter_def intro!: filter_cong map_cong)
  also have "\<dots> = filter (starts_with p) (map (\<lambda>i. fst (st ! i)) [0..<length st])"
    by (simp add: filter_map o_def)
  also have "map (\<lambda>i. fst (st ! i)) [0..<length st] = map fst st"
    by (rule nth_equalityI) simp_all
  finally show ?thesis .
qed

lemma fold_delete: "fold AList.delete ks st = filter (\<lambda>e. fst e \<notin> set ks) st"
  by (induction ks arbitrary: st) (auto simp: AList.delete_eq intro!: filter_cong)

lemma clear_storage_eq:
  "fold AList.delete (keys_with_prefix st p) st = filter (\<lambda>e. \<not> starts_with p (fst e)) st"
  by (auto simp: fold_delete set_keys_with_prefix intro!: filter_cong)

lemma map_of_filter_key: "map_of (filter (\<lambda>e. P (fst e)) st) k = (if P k then map_of st k else None)"
  by (induction st) auto

locale scoped_keys =
  fixes prefix_of :: "'s \<Rightarrow> string option"
  assumes prefix_separates:
    "prefix_of s = Some p \<Longrightarrow> prefix_of t = Some q \<Longrightarrow> starts_with p (q @ x) \<Longrightarrow> s = t"
begin

lemma prefix_covers: "prefix_of s = Some p \<Longrightarrow> prefix_of t = Some q \<Longrightarrow> starts_with p (q @ x) \<longleftrightarrow> s = t"
  using prefix_separates by auto

text \<open>Clearing a scope empties its keys and none of another scope's.\<close>

lemma clear_lookup:
  assumes "prefix_of s = Some p" and "prefix_of t = Some q"
  shows "map_of (fold AList.delete (keys_with_prefix st p) st) (q @ x) = (if s = t then None else map_of st (q @ x))"
  by (simp add: clear_storage_eq map_of_filter_key [where P = "\<lambda>k. \<not> starts_with p k"] prefix_covers [OF assms])

text \<open>An item written under one scope leaves every other scope's items alone.\<close>

lemma write_frame:
  assumes "prefix_of s = Some p" and "prefix_of t = Some q" and "s \<noteq> t"
  shows "map_of (AList.update (p @ x) v st) (q @ y) = map_of st (q @ y)"
proof -
  have "q @ y \<noteq> p @ x"
    using prefix_separates [OF assms(1,2), of y] assms(3) by (metis starts_with_append)
  then show ?thesis by (simp add: update_conv')
qed

end

lemma cut_at_slash:
  "CHR ''/'' \<notin> set a \<Longrightarrow> CHR ''/'' \<notin> set b \<Longrightarrow>
   a @ CHR ''/'' # x = b @ CHR ''/'' # y \<longleftrightarrow> a = b \<and> x = y"
proof (induction a arbitrary: b)
  case Nil
  then show ?case by (cases b) auto
next
  case (Cons c a)
  then show ?case by (cases b) auto
qed

lemma encodeRequiredPart_Inr:
  "encodeRequiredPart name v = Inr e \<Longrightarrow> e = encodeURIComponent v"
  by (simp add: encodeRequiredPart_def split: if_splits)

lemma prefix_of_scope_Some:
  "prefix_of_scope s = Some p \<Longrightarrow>
   p = TENANT_SCOPE_PREFIX @ CHR ''/'' # encodeURIComponent (deployment s) @ CHR ''/'' #
       encodeURIComponent (tenantId s) @ CHR ''/'' # encodeURIComponent (principalId s) @ ''/''"
  by (auto simp: prefix_of_scope_def buildTenantStoragePrefix_def dest!: encodeRequiredPart_Inr split: sum.splits)

lemma scope_prefix_separates:
  assumes "prefix_of_scope s = Some p" and "prefix_of_scope t = Some q" and "starts_with p (q @ x)"
  shows "s = t"
proof -
  obtain y where "q @ x = p @ y"
    using assms(3) unfolding starts_with_def by (metis append_take_drop_id)
  then have "encodeURIComponent (deployment s) @ CHR ''/'' # encodeURIComponent (tenantId s) @ CHR ''/'' #
      encodeURIComponent (principalId s) @ CHR ''/'' # y =
    encodeURIComponent (deployment t) @ CHR ''/'' # encodeURIComponent (tenantId t) @ CHR ''/'' #
      encodeURIComponent (principalId t) @ CHR ''/'' # x"
    unfolding prefix_of_scope_Some [OF assms(1)] prefix_of_scope_Some [OF assms(2)] by simp
  then show ?thesis by (simp add: cut_at_slash)
qed

interpretation scopes: scoped_keys prefix_of_scope
  by unfold_locales (rule scope_prefix_separates)

lemma buildTenantStorageKey_Inr:
  "buildTenantStorageKey b s = Inr k \<Longrightarrow> \<exists>p. prefix_of_scope s = Some p \<and> k = p @ encodeURIComponent b"
  by (auto simp: buildTenantStorageKey_def prefix_of_scope_def dest!: encodeRequiredPart_Inr split: sum.splits)

lemma tenant_keys_isolated_parts:
  assumes "buildTenantStorageKey b s = Inr k" and "buildTenantStorageKey b' s' = Inr k'"
    and "buildTenantStoragePrefix s = Inr p"
  shows "k = k' \<longleftrightarrow> b = b' \<and> s = s'" and "starts_with p k' \<longleftrightarrow> s = s'"
proof -
  have p: "prefix_of_scope s = Some p" using assms(3) by (simp add: prefix_of_scope_def)
  then have k: "k = p @ encodeURIComponent b" using buildTenantStorageKey_Inr [OF assms(1)] by auto
  obtain q where q: "prefix_of_scope s' = Some q" and k': "k' = q @ encodeURIComponent b'"
    using buildTenantStorageKey_Inr [OF assms(2)] by auto
  show cov: "starts_with p k' \<longleftrightarrow> s = s'"
    unfolding k' by (rule scopes.prefix_covers [OF p q])
  show "k = k' \<longleftrightarrow> b = b' \<and> s = s'"
  proof
    assume "k = k'"
    then have "starts_with p k'" using k by (metis starts_with_append)
    with cov have "s = s'" by simp
    with p q k k' \<open>k = k'\<close> show "b = b' \<and> s = s'" by simp
  next
    assume "b = b' \<and> s = s'"
    with p q k k' show "k = k'" by simp
  qed
qed

text \<open>C30. Keys of different scopes never meet: two storage keys are equal only for the same base key and the same
  deployment, tenant and principal, and the prefix of a scope covers a key exactly when the key belongs to that scope,
  whatever separators or escapes the identifiers contain.\<close>

theorem tenant_keys_isolated:
  assumes "buildTenantStorageKey b s = Inr k" and "buildTenantStorageKey b' s' = Inr k'"
    and "buildTenantStoragePrefix s = Inr p"
  shows "(k = k' \<longleftrightarrow> b = b' \<and> s = s') \<and> (starts_with p k' \<longleftrightarrow> s = s')"
  using tenant_keys_isolated_parts [OF assms] by blast

lemma clear_lookup_key:
  assumes "clearTenantScopedStorage st s = Inr (n, st')" and "buildTenantStorageKey b t = Inr k"
  shows "map_of st' k = (if t = s then None else map_of st k)"
proof -
  obtain p where p: "prefix_of_scope s = Some p" and st': "st' = fold AList.delete (keys_with_prefix st p) st"
    using assms(1) by (auto simp: clearTenantScopedStorage_def prefix_of_scope_def Let_def split: sum.splits)
  obtain q where q: "prefix_of_scope t = Some q" and k: "k = q @ encodeURIComponent b"
    using buildTenantStorageKey_Inr [OF assms(2)] by auto
  show ?thesis unfolding st' k using scopes.clear_lookup [OF p q] by simp
qed

text \<open>Clearing a scope removes exactly the items under its prefix, in place: every item of another scope and
  every unscoped item keeps its value and its position, and the count reported is the number of items removed.\<close>

theorem clear_scope_exact:
  assumes "clearTenantScopedStorage st s = Inr (n, st')" and "buildTenantStorageKey b t = Inr k"
  shows "map_of st' k = (if t = s then None else map_of st k)"
    and "\<exists>p. buildTenantStoragePrefix s = Inr p \<and> st' = filter (\<lambda>e. \<not> starts_with p (fst e)) st"
    and "length st' + n = length st"
proof -
  obtain p where p: "buildTenantStoragePrefix s = Inr p" and n: "n = length (keys_with_prefix st p)"
    and st': "st' = fold AList.delete (keys_with_prefix st p) st"
    using assms(1) by (auto simp: clearTenantScopedStorage_def Let_def split: sum.splits)
  show "map_of st' k = (if t = s then None else map_of st k)" by (rule clear_lookup_key [OF assms])
  show "\<exists>p. buildTenantStoragePrefix s = Inr p \<and> st' = filter (\<lambda>e. \<not> starts_with p (fst e)) st"
    using p by (auto simp: st' clear_storage_eq)
  show "length st' + n = length st"
    using sum_length_filter_compl [of "\<lambda>e. starts_with p (fst e)" st]
    by (simp add: st' n clear_storage_eq) (simp add: keys_with_prefix_eq filter_map o_def)
qed

definition ex_scope :: "string \<Rightarrow> tenant_scope" where
  "ex_scope t = \<lparr>deployment = ''https://a'', tenantId = t, principalId = ''u''\<rparr>"

lemma ex_prefix:
  "buildTenantStoragePrefix (ex_scope ''a'') = Inr ''sui-sensemaking/tenant-scope/v1/https%3A%2F%2Fa/a/u/''"
  by code_simp

lemma ex_keys:
  "buildTenantStorageKey ''k'' (ex_scope ''a'') = Inr ''sui-sensemaking/tenant-scope/v1/https%3A%2F%2Fa/a/u/k''"
  "buildTenantStorageKey ''k'' (ex_scope ''a/u'') = Inr ''sui-sensemaking/tenant-scope/v1/https%3A%2F%2Fa/a%2Fu/u/k''"
  by code_simp+

theorem tenant_keys_isolated_witness:
  "\<not> starts_with ''sui-sensemaking/tenant-scope/v1/https%3A%2F%2Fa/a/u/''
       ''sui-sensemaking/tenant-scope/v1/https%3A%2F%2Fa/a%2Fu/u/k''"
proof -
  have "ex_scope ''a'' \<noteq> ex_scope ''a/u''" by (simp add: ex_scope_def)
  then show ?thesis using tenant_keys_isolated [OF ex_keys ex_prefix] by blast
qed

theorem clear_scope_exact_witness:
  "\<exists>n st'. clearTenantScopedStorage
     [(''sui-sensemaking/tenant-scope/v1/https%3A%2F%2Fa/a/u/k'', ''1''), (''x'', ''2'')] (ex_scope ''a'') = Inr (n, st') \<and>
     length st' + n = 2"
proof -
  define st where "st = [(''sui-sensemaking/tenant-scope/v1/https%3A%2F%2Fa/a/u/k'', ''1''), (''x'', ''2'')]"
  obtain n st' where c: "clearTenantScopedStorage st (ex_scope ''a'') = Inr (n, st')"
    by (simp add: clearTenantScopedStorage_def ex_prefix Let_def)
  then show ?thesis using clear_scope_exact(3) [OF c ex_keys(1)] by (auto simp: st_def)
qed

end
