(* ===== verification/Tenant_Session.thy ===== *)
theory Tenant_Session
  imports Tenant_Scope
begin

text \<open>
  The tenant session of the front end: parsing the session context a server sends (\<open>api/session_context.ts\<close>,
  \<open>api/session_bootstrap_policy.ts\<close>), starting from it (\<open>session/session_bootstrap.ts\<close>, \<open>session/runtime_activation.ts\<close>,
  \<open>session/app_tenant_session.ts\<close>), releasing resources (\<open>session/app_runtime_cleanup.ts\<close>) and switching tenants
  (\<open>session/tenant_transition.ts\<close>, \<open>session/tenant_switch_request.ts\<close>).

  What a callback or a request does is not part of the code, so its outcome is an argument: a sum for a call that may
  fail, a boolean for a step that may throw, a point of failure for a storage that may throw, and for the abort signal its state at each of the points where the code
  reads it. The calls an operation makes are its event log, in order.
\<close>

section \<open>Results\<close>

fun sum_bind :: "'e + 'a \<Rightarrow> ('a \<Rightarrow> 'e + 'b) \<Rightarrow> 'e + 'b" where
  "sum_bind (Inl e) f = Inl e"
| "sum_bind (Inr x) f = f x"

lemma sum_bind_Inr: "sum_bind m f = Inr y \<longleftrightarrow> (\<exists>x. m = Inr x \<and> f x = Inr y)"
  by (cases m) auto

fun map_result :: "('a \<Rightarrow> 'e + 'b) \<Rightarrow> 'a list \<Rightarrow> 'e + 'b list" where
  "map_result f [] = Inr []"
| "map_result f (x # xs) = sum_bind (f x) (\<lambda>y. sum_bind (map_result f xs) (\<lambda>ys. Inr (y # ys)))"

lemma map_result_Inr: "map_result f xs = Inr ys \<longleftrightarrow> list_all2 (\<lambda>x y. f x = Inr y) xs ys"
  by (induction xs arbitrary: ys) (auto simp: sum_bind_Inr list_all2_Cons1)

section \<open>Session contexts\<close>

record tenant_summary =
  summary_id :: string
  summary_displayName :: string

record session_context =
  session_principalId :: string
  activeTenant :: tenant_summary
  availableTenants :: "tenant_summary list"
  effectiveCapabilities :: "string list"
  capabilityVersion :: string
  session_version :: string

definition EFFECTIVE_CAPABILITIES :: "string list" where
  "EFFECTIVE_CAPABILITIES =
     [''document.read'', ''document.write'', ''document.export'', ''document.share'', ''document.policy.manage'',
      ''membership.provision'', ''agent.register'', ''agent.revoke'', ''audit.read'', ''tenant.provision'', ''tenant.suspend'']"

definition canonical_text :: "nat \<Rightarrow> string \<Rightarrow> bool" where
  "canonical_text maxLength s =
     (length s \<noteq> 0 \<and> length s \<le> maxLength \<and> trim s = s \<and> \<not> list_ex invalid_scope_character s)"

definition canonicalString :: "json \<Rightarrow> nat \<Rightarrow> tenant_error + string" where
  "canonicalString v maxLength = (case v of
       JStr s \<Rightarrow> if canonical_text maxLength s then Inr s else Inl Invalid_tenant_session_context
     | _ \<Rightarrow> Inl Invalid_tenant_session_context)"

definition hasExactKeys :: "(string \<times> json) list \<Rightarrow> string list \<Rightarrow> bool" where
  "hasExactKeys es expectedKeys =
     (let actualKeys = own_keys (map fst es)
      in length actualKeys = length expectedKeys \<and> list_all (\<lambda>k. k \<in> set expectedKeys) actualKeys)"

definition effectiveCapability :: "json \<Rightarrow> tenant_error + string" where
  "effectiveCapability v = sum_bind (canonicalString v 64)
     (\<lambda>c. if c \<in> set EFFECTIVE_CAPABILITIES then Inr c else Inl Invalid_tenant_session_context)"

definition alnum :: "char \<Rightarrow> bool" where
  "alnum c = (let n = (of_char c :: nat) in (48 \<le> n \<and> n \<le> 57) \<or> (65 \<le> n \<and> n \<le> 90) \<or> (97 \<le> n \<and> n \<le> 122))"

definition TENANT_SESSION_VERSION_PATTERN :: "string \<Rightarrow> bool" where
  "TENANT_SESSION_VERSION_PATTERN s = (case s of [] \<Rightarrow> False
     | c # cs \<Rightarrow> alnum c \<and> length cs \<le> 127 \<and> list_all (\<lambda>d. alnum d \<or> d \<in> set ''._~-'') cs)"

definition tenantSessionVersion :: "json \<Rightarrow> tenant_error + string" where
  "tenantSessionVersion v = sum_bind (canonicalString v 128)
     (\<lambda>s. if TENANT_SESSION_VERSION_PATTERN s then Inr s else Inl Invalid_tenant_session_context)"

definition parseTenantSummary :: "json \<Rightarrow> tenant_error + tenant_summary" where
  "parseTenantSummary v = (case v of
       JObj es \<Rightarrow>
         if \<not> hasExactKeys es [''displayName'', ''id''] then Inl Invalid_tenant_session_context
         else sum_bind (canonicalString (js_prop v ''id'') 256) (\<lambda>i.
              sum_bind (canonicalString (js_prop v ''displayName'') 256) (\<lambda>d.
              Inr \<lparr>summary_id = i, summary_displayName = d\<rparr>))
     | _ \<Rightarrow> Inl Invalid_tenant_session_context)"

fun tenants_by_id :: "tenant_summary list \<Rightarrow> (string \<times> tenant_summary) list \<Rightarrow>
    tenant_error + (string \<times> tenant_summary) list" where
  "tenants_by_id [] m = Inr m"
| "tenants_by_id (t # ts) m =
     (if map_of m (summary_id t) \<noteq> None then Inl Invalid_tenant_session_context
      else tenants_by_id ts (AList.update (summary_id t) t m))"

definition session_keys :: "string list" where
  "session_keys = [''activeTenant'', ''availableTenants'', ''capabilityVersion'', ''effectiveCapabilities'',
     ''principalId'', ''tenantSessionVersion'']"

definition parseTenantSessionContext :: "json \<Rightarrow> tenant_error + session_context" where
  "parseTenantSessionContext v = (case v of
       JObj es \<Rightarrow>
         if \<not> hasExactKeys es session_keys then Inl Invalid_tenant_session_context
         else (case (js_prop v ''availableTenants'', js_prop v ''effectiveCapabilities'') of
             (JArr ts, JArr cs) \<Rightarrow>
               if length ts = 0 \<or> length ts > 256 \<or> length cs > length EFFECTIVE_CAPABILITIES
               then Inl Invalid_tenant_session_context
               else sum_bind (parseTenantSummary (js_prop v ''activeTenant'')) (\<lambda>active.
                    sum_bind (map_result parseTenantSummary ts) (\<lambda>available.
                    sum_bind (tenants_by_id available []) (\<lambda>tenantById.
                    case map_of tenantById (summary_id active) of
                      None \<Rightarrow> Inl Invalid_tenant_session_context
                    | Some allowlisted \<Rightarrow>
                        if summary_displayName allowlisted \<noteq> summary_displayName active
                        then Inl Invalid_tenant_session_context
                        else sum_bind (map_result effectiveCapability cs) (\<lambda>caps.
                          if length (uniq caps) \<noteq> length caps then Inl Invalid_tenant_session_context
                          else sum_bind (canonicalString (js_prop v ''principalId'') 256) (\<lambda>p.
                               sum_bind (canonicalString (js_prop v ''capabilityVersion'') 128) (\<lambda>cv.
                               sum_bind (tenantSessionVersion (js_prop v ''tenantSessionVersion'')) (\<lambda>sv.
                               Inr \<lparr>session_principalId = p, activeTenant = active, availableTenants = available,
                                    effectiveCapabilities = sort_by code_unit_le caps,
                                    capabilityVersion = cv, session_version = sv\<rparr>)))))))
           | _ \<Rightarrow> Inl Invalid_tenant_session_context)
     | _ \<Rightarrow> Inl Invalid_tenant_session_context)"

definition buildBrowserStorageScopeFromSession :: "session_context \<Rightarrow> string \<Rightarrow> tenant_error + tenant_scope" where
  "buildBrowserStorageScopeFromSession c dep =
     (let scope = \<lparr>deployment = dep, tenantId = summary_id (activeTenant c), principalId = session_principalId c\<rparr>
      in sum_bind (buildTenantStoragePrefix scope) (\<lambda>_. Inr scope))"

text \<open>The context as the object the code passes on.\<close>

definition summary_json :: "tenant_summary \<Rightarrow> json" where
  "summary_json t = JObj [(''id'', JStr (summary_id t)), (''displayName'', JStr (summary_displayName t))]"

definition session_json :: "session_context \<Rightarrow> json" where
  "session_json c = JObj
     [(''principalId'', JStr (session_principalId c)), (''activeTenant'', summary_json (activeTenant c)),
      (''availableTenants'', JArr (map summary_json (availableTenants c))),
      (''effectiveCapabilities'', JArr (map JStr (effectiveCapabilities c))),
      (''capabilityVersion'', JStr (capabilityVersion c)), (''tenantSessionVersion'', JStr (session_version c))]"

section \<open>Well-formed contexts\<close>

definition summary_ok :: "tenant_summary \<Rightarrow> bool" where
  "summary_ok t \<longleftrightarrow> canonical_text 256 (summary_id t) \<and> canonical_text 256 (summary_displayName t)"

definition session_ok :: "session_context \<Rightarrow> bool" where
  "session_ok c \<longleftrightarrow>
     canonical_text 256 (session_principalId c) \<and> canonical_text 128 (capabilityVersion c) \<and>
     canonical_text 128 (session_version c) \<and> TENANT_SESSION_VERSION_PATTERN (session_version c) \<and>
     activeTenant c \<in> set (availableTenants c) \<and> length (availableTenants c) \<le> 256 \<and>
     list_all summary_ok (availableTenants c) \<and> distinct (map summary_id (availableTenants c)) \<and>
     set (effectiveCapabilities c) \<subseteq> set EFFECTIVE_CAPABILITIES \<and> distinct (effectiveCapabilities c) \<and>
     sorted_wrt code_unit_le (effectiveCapabilities c)"

lemma canonicalString_Inr: "canonicalString v n = Inr s \<longleftrightarrow> v = JStr s \<and> canonical_text n s"
  by (auto simp: canonicalString_def split: json.splits)

lemma canonicalString_JStr [simp]: "canonical_text n s \<Longrightarrow> canonicalString (JStr s) n = Inr s"
  by (simp add: canonicalString_def)

lemma parseTenantSummary_ok: "parseTenantSummary v = Inr t \<Longrightarrow> summary_ok t"
  by (auto simp: parseTenantSummary_def summary_ok_def sum_bind_Inr canonicalString_Inr split: json.splits if_splits)

lemma hasExactKeys_iff: "hasExactKeys es ks \<longleftrightarrow> length es = length ks \<and> fst ` set es \<subseteq> set ks"
proof -
  have "mset (own_keys (map fst es)) = mset (map fst es)" by (simp add: own_keys_def)
  then have "length (own_keys (map fst es)) = length es" by (metis length_map size_mset)
  then show ?thesis by (auto simp: hasExactKeys_def list_all_iff)
qed

lemma parseTenantSummary_json: "summary_ok t \<Longrightarrow> parseTenantSummary (summary_json t) = Inr t"
  by (simp add: parseTenantSummary_def summary_json_def summary_ok_def hasExactKeys_iff)

lemma tenants_by_id_spec:
  "tenants_by_id ts m = Inr m' \<longleftrightarrow>
   distinct (map summary_id ts) \<and> (\<forall>t\<in>set ts. map_of m (summary_id t) = None) \<and>
   m' = fold (\<lambda>t. AList.update (summary_id t) t) ts m"
proof (induction ts arbitrary: m)
  case (Cons t ts)
  have "(\<forall>u\<in>set ts. map_of (AList.update (summary_id t) t m) (summary_id u) = None) \<longleftrightarrow>
      summary_id t \<notin> summary_id ` set ts \<and> (\<forall>u\<in>set ts. map_of m (summary_id u) = None)"
    by (auto simp: update_conv' split: if_splits) (metis imageI)
  with Cons.IH show ?case by auto
qed auto

lemma map_of_tenants:
  "distinct (map summary_id ts) \<Longrightarrow>
   map_of (fold (\<lambda>t. AList.update (summary_id t) t) ts m) i =
     (case find (\<lambda>t. summary_id t = i) ts of None \<Rightarrow> map_of m i | Some t \<Rightarrow> Some t)"
proof (induction ts arbitrary: m)
  case (Cons t ts)
  have "find (\<lambda>u. summary_id u = summary_id t) ts = None"
    using Cons.prems by (auto simp: find_None_iff) (metis imageI)
  with Cons show ?case by (auto simp: update_conv' split: option.splits)
qed simp

lemma effectiveCapability_Inr:
  "effectiveCapability v = Inr c \<longleftrightarrow> v = JStr c \<and> c \<in> set EFFECTIVE_CAPABILITIES"
proof -
  have "list_all (canonical_text 64) EFFECTIVE_CAPABILITIES" by code_simp
  then show ?thesis
    by (auto simp: effectiveCapability_def sum_bind_Inr canonicalString_Inr list_all_iff split: if_splits)
qed

lemma capabilities_Inr:
  "map_result effectiveCapability cs = Inr caps \<longleftrightarrow> cs = map JStr caps \<and> set caps \<subseteq> set EFFECTIVE_CAPABILITIES"
  by (induction cs arbitrary: caps) (auto simp: sum_bind_Inr effectiveCapability_Inr map_eq_Cons_conv Cons_eq_map_conv)

lemma summaries_Inr: "map_result parseTenantSummary vs = Inr ts \<Longrightarrow> list_all summary_ok ts \<and> length ts = length vs"
  by (induction vs arbitrary: ts) (auto simp: sum_bind_Inr dest: parseTenantSummary_ok)

lemma summaries_json: "list_all summary_ok ts \<Longrightarrow> map_result parseTenantSummary (map summary_json ts) = Inr ts"
  by (induction ts) (auto simp: parseTenantSummary_json)

lemma tenantSessionVersion_Inr:
  "tenantSessionVersion v = Inr s \<longleftrightarrow> v = JStr s \<and> canonical_text 128 s \<and> TENANT_SESSION_VERSION_PATTERN s"
  by (auto simp: tenantSessionVersion_def sum_bind_Inr canonicalString_Inr split: if_splits)

lemma parse_session_cases:
  assumes "parseTenantSessionContext v = Inr c"
  obtains es ts caps where "v = JObj es" and "hasExactKeys es session_keys"
    and "js_prop v ''availableTenants'' = JArr ts" and "length ts \<noteq> 0" and "length ts \<le> 256"
    and "js_prop v ''effectiveCapabilities'' = JArr (map JStr caps)" and "distinct caps"
    and "set caps \<subseteq> set EFFECTIVE_CAPABILITIES" and "effectiveCapabilities c = sort_by code_unit_le caps"
    and "parseTenantSummary (js_prop v ''activeTenant'') = Inr (activeTenant c)"
    and "map_result parseTenantSummary ts = Inr (availableTenants c)"
    and "distinct (map summary_id (availableTenants c))"
    and "\<exists>t. find (\<lambda>t. summary_id t = summary_id (activeTenant c)) (availableTenants c) = Some t \<and>
           summary_displayName t = summary_displayName (activeTenant c)"
    and "js_prop v ''principalId'' = JStr (session_principalId c)" and "canonical_text 256 (session_principalId c)"
    and "js_prop v ''capabilityVersion'' = JStr (capabilityVersion c)" and "canonical_text 128 (capabilityVersion c)"
    and "tenantSessionVersion (js_prop v ''tenantSessionVersion'') = Inr (session_version c)"
proof -
  obtain es where v: "v = JObj es" using assms by (auto simp: parseTenantSessionContext_def split: json.splits)
  obtain ts cs where arrs: "js_prop v ''availableTenants'' = JArr ts" "js_prop v ''effectiveCapabilities'' = JArr cs"
    using assms unfolding v by (auto simp: parseTenantSessionContext_def split: json.splits if_splits)
  have keys: "hasExactKeys es session_keys" "length ts \<noteq> 0" "length ts \<le> 256"
    using assms arrs unfolding v parseTenantSessionContext_def by (auto split: if_splits)
  obtain m t caps where rest: "parseTenantSummary (js_prop v ''activeTenant'') = Inr (activeTenant c)"
      "map_result parseTenantSummary ts = Inr (availableTenants c)" "tenants_by_id (availableTenants c) [] = Inr m"
      "map_of m (summary_id (activeTenant c)) = Some t" "summary_displayName t = summary_displayName (activeTenant c)"
      "map_result effectiveCapability cs = Inr caps" "length (uniq caps) = length caps"
      "canonicalString (js_prop v ''principalId'') 256 = Inr (session_principalId c)"
      "canonicalString (js_prop v ''capabilityVersion'') 128 = Inr (capabilityVersion c)"
      "tenantSessionVersion (js_prop v ''tenantSessionVersion'') = Inr (session_version c)"
      "effectiveCapabilities c = sort_by code_unit_le caps"
    using assms arrs unfolding v parseTenantSessionContext_def
    by (auto simp: sum_bind_Inr split: if_splits option.splits)
  have "distinct caps" using rest(7) by (metis card_distinct length_uniq)
  with v arrs keys rest show thesis
    by (intro that [of es ts caps])
      (auto simp: capabilities_Inr canonicalString_Inr tenants_by_id_spec map_of_tenants split: option.splits)
qed

lemma parse_session_ok: "parseTenantSessionContext v = Inr c \<Longrightarrow> session_ok c"
proof -
  assume "parseTenantSessionContext v = Inr c"
  then obtain es ts caps where p: "length ts \<le> 256" "distinct caps" "set caps \<subseteq> set EFFECTIVE_CAPABILITIES"
    "effectiveCapabilities c = sort_by code_unit_le caps" "map_result parseTenantSummary ts = Inr (availableTenants c)"
    "distinct (map summary_id (availableTenants c))"
    "\<exists>t. find (\<lambda>t. summary_id t = summary_id (activeTenant c)) (availableTenants c) = Some t \<and>
           summary_displayName t = summary_displayName (activeTenant c)"
    "canonical_text 256 (session_principalId c)" "canonical_text 128 (capabilityVersion c)"
    "tenantSessionVersion (js_prop v ''tenantSessionVersion'') = Inr (session_version c)"
    by (rule parse_session_cases) blast
  have "activeTenant c \<in> set (availableTenants c)"
    using p(7) by (auto simp: find_Some_iff in_set_conv_nth tenant_summary.equality)
  moreover have "list_all summary_ok (availableTenants c) \<and> length (availableTenants c) \<le> 256"
    using summaries_Inr [OF p(5)] p(1) by auto
  ultimately show ?thesis
    using p cu.sorted_wrt_sort_by by (auto simp: session_ok_def tenantSessionVersion_Inr)
qed

lemma sorted_distinct_sort: "sorted_wrt code_unit_le xs \<Longrightarrow> sort_by code_unit_le xs = xs"
  by (rule cu.sorted_wrt_mset_unique) (simp_all add: cu.sorted_wrt_sort_by)

lemma find_own_id:
  "distinct (map summary_id ts) \<Longrightarrow> t \<in> set ts \<Longrightarrow> find (\<lambda>u. summary_id u = summary_id t) ts = Some t"
proof (induction ts)
  case (Cons u ts)
  then show ?case by auto
qed simp

lemma capability_count:
  assumes "distinct cs" and "set cs \<subseteq> set EFFECTIVE_CAPABILITIES"
  shows "length cs \<le> length EFFECTIVE_CAPABILITIES"
  using card_mono [OF _ assms(2)] card_length [of EFFECTIVE_CAPABILITIES] assms(1)
  by (simp add: distinct_card)

lemma session_parse_json:
  assumes "session_ok c"
  shows "parseTenantSessionContext (session_json c) = Inr c"
proof -
  note ok = assms [unfolded session_ok_def]
  have props: "js_prop (session_json c) ''availableTenants'' = JArr (map summary_json (availableTenants c))"
    "js_prop (session_json c) ''effectiveCapabilities'' = JArr (map JStr (effectiveCapabilities c))"
    "js_prop (session_json c) ''activeTenant'' = summary_json (activeTenant c)"
    "js_prop (session_json c) ''principalId'' = JStr (session_principalId c)"
    "js_prop (session_json c) ''capabilityVersion'' = JStr (capabilityVersion c)"
    "js_prop (session_json c) ''tenantSessionVersion'' = JStr (session_version c)"
    by (simp_all add: session_json_def)
  have shape: "\<exists>es. session_json c = JObj es \<and> hasExactKeys es session_keys"
    by (simp add: session_json_def hasExactKeys_iff session_keys_def)
  have active: "parseTenantSummary (summary_json (activeTenant c)) = Inr (activeTenant c)"
    using ok by (intro parseTenantSummary_json) (auto simp: list_all_iff)
  have all: "map_result parseTenantSummary (map summary_json (availableTenants c)) = Inr (availableTenants c)"
    using ok by (simp add: summaries_json)
  have m: "tenants_by_id (availableTenants c) [] = Inr (fold (\<lambda>t. AList.update (summary_id t) t) (availableTenants c) [])"
    using ok by (simp add: tenants_by_id_spec)
  have "find (\<lambda>t. summary_id t = summary_id (activeTenant c)) (availableTenants c) = Some (activeTenant c)"
    using ok by (intro find_own_id) auto
  then have hit: "map_of (fold (\<lambda>t. AList.update (summary_id t) t) (availableTenants c) []) (summary_id (activeTenant c)) =
      Some (activeTenant c)"
    using ok by (simp add: map_of_tenants)
  have caps: "map_result effectiveCapability (map JStr (effectiveCapabilities c)) = Inr (effectiveCapabilities c)"
    using ok by (simp add: capabilities_Inr)
  have ver: "tenantSessionVersion (JStr (session_version c)) = Inr (session_version c)"
    using ok by (simp add: tenantSessionVersion_Inr)
  have rest: "canonicalString (JStr (session_principalId c)) 256 = Inr (session_principalId c)"
    "canonicalString (JStr (capabilityVersion c)) 128 = Inr (capabilityVersion c)"
    "sort_by code_unit_le (effectiveCapabilities c) = effectiveCapabilities c"
    "uniq (effectiveCapabilities c) = effectiveCapabilities c"
    "availableTenants c \<noteq> []" "length (availableTenants c) \<le> 256"
    "length (effectiveCapabilities c) \<le> length EFFECTIVE_CAPABILITIES"
    using ok capability_count by (auto simp: sorted_distinct_sort uniq_distinct_id)
  obtain es where "session_json c = JObj es" "hasExactKeys es session_keys" using shape by blast
  then show ?thesis
    using props active all m hit caps ver rest by (simp add: parseTenantSessionContext_def)
qed

lemma session_parser_exact_parts:
  shows "parseTenantSessionContext v = Inr c \<Longrightarrow> session_ok c"
    and "session_ok c \<Longrightarrow> parseTenantSessionContext (session_json c) = Inr c"
  using parse_session_ok session_parse_json by auto

text \<open>C34. The well-formed session contexts are exactly what the parser produces. A context it accepts has canonical,
  bounded identifiers, distinct tenants, an active tenant that is one of the available ones under the same display name,
  and known, distinct capabilities in code unit order; and a well-formed context, passed on as the object the code
  builds, parses back to itself.\<close>

theorem session_parser_exact:
  "(parseTenantSessionContext v = Inr c \<longrightarrow> session_ok c)
    \<and> (session_ok c \<longrightarrow> parseTenantSessionContext (session_json c) = Inr c)"
  using session_parser_exact_parts by blast

section \<open>Runtime entry\<close>

datatype runtime_entry_mode = Single_tenant | Tenant_session_required | Invalid_mode

definition resolveRuntimeEntryMode :: "json \<Rightarrow> runtime_entry_mode" where
  "resolveRuntimeEntryMode profile =
     (if profile = JUndef \<or> profile = JStr ''local-dev'' \<or> profile = JStr ''evaluation'' \<or>
         profile = JStr ''enterprise-production'' then Single_tenant
      else if profile = JStr ''saas-multitenant'' then Tenant_session_required
      else Invalid_mode)"

definition parseTenantSessionBootstrapPolicy :: "json \<Rightarrow> tenant_error + runtime_entry_mode" where
  "parseTenantSessionBootstrapPolicy v = (case v of
       JObj es \<Rightarrow>
         if own_keys (map fst es) \<noteq> [''tenantSessionMode''] then Inl Other_failure
         else if js_prop v ''tenantSessionMode'' = JStr ''single-tenant'' then Inr Single_tenant
         else if js_prop v ''tenantSessionMode'' = JStr ''tenant-session-required'' then Inr Tenant_session_required
         else Inl Other_failure
     | _ \<Rightarrow> Inl Other_failure)"

definition isAbortFailure :: "tenant_error \<Rightarrow> bool \<Rightarrow> bool" where
  "isAbortFailure e aborted = (aborted \<or> e = Aborted)"

text \<open>\<open>aborted1\<close> is the state of the signal on entry, \<open>aborted2\<close> its state once the request has settled.\<close>

definition verifyTenantSessionRuntimePolicy :: "bool \<Rightarrow> tenant_error + json \<Rightarrow> bool \<Rightarrow> tenant_error + bool" where
  "verifyTenantSessionRuntimePolicy aborted1 loaded aborted2 =
     (if aborted1 then Inl Aborted
      else case sum_bind loaded (\<lambda>rawPolicy. if aborted2 then Inl Aborted
             else sum_bind (parseTenantSessionBootstrapPolicy rawPolicy) (\<lambda>m. Inr (m = Tenant_session_required))) of
          Inl e \<Rightarrow> if isAbortFailure e aborted2 then Inl e else Inr False
        | Inr b \<Rightarrow> Inr b)"

datatype block_reason = Authentication_required | Access_denied | Session_unavailable | Invalid_session_response | Invalid_deployment

datatype bootstrap_result = Ready session_context tenant_scope | Blocked block_reason

definition blockReasonFor :: "tenant_error \<Rightarrow> block_reason" where
  "blockReasonFor e = (case e of
       Invalid_tenant_session_context \<Rightarrow> Invalid_session_response
     | Request_failed status \<Rightarrow> if status = 401 then Authentication_required
         else if status = 403 then Access_denied else Session_unavailable
     | _ \<Rightarrow> Session_unavailable)"

definition bootstrapTenantSession ::
    "string \<Rightarrow> bool \<Rightarrow> tenant_error + json \<Rightarrow> bool \<Rightarrow> tenant_error + bootstrap_result" where
  "bootstrapTenantSession dep aborted1 loaded aborted2 =
     (if aborted1 then Inl Aborted
      else case sum_bind loaded (\<lambda>response. if aborted2 then Inl Aborted else parseTenantSessionContext response) of
          Inl e \<Rightarrow> if isAbortFailure e aborted2 then Inl e else Inr (Blocked (blockReasonFor e))
        | Inr c \<Rightarrow> (case buildBrowserStorageScopeFromSession c dep of
              Inl e \<Rightarrow> Inr (Blocked Invalid_deployment)
            | Inr scope \<Rightarrow> Inr (Ready c scope)))"

definition scopesMatch :: "tenant_scope \<Rightarrow> tenant_scope \<Rightarrow> bool" where
  "scopesMatch actual expected = (deployment actual = deployment expected \<and>
     principalId actual = principalId expected \<and> tenantId actual = tenantId expected)"

definition resolveAppTenantSession :: "json \<Rightarrow> tenant_scope option \<Rightarrow> tenant_error + session_context option" where
  "resolveAppTenantSession sessionContext storageScope =
     (if sessionContext = JUndef then Inr None
      else case storageScope of None \<Rightarrow> Inl Invalid_tenant_session_context
        | Some scope \<Rightarrow> sum_bind (parseTenantSessionContext sessionContext) (\<lambda>c.
            sum_bind (buildBrowserStorageScopeFromSession c (deployment scope)) (\<lambda>expected.
            if scopesMatch scope expected then Inr (Some c) else Inl Invalid_tenant_session_context)))"

section \<open>Releasing resources\<close>

text \<open>A cleanup step is \<open>True\<close> when it throws.\<close>

definition runCleanupSteps :: "bool list \<Rightarrow> nat \<times> nat" where
  "runCleanupSteps steps =
     (length steps, fold (\<lambda>throws failureCount. if throws then failureCount + 1 else failureCount) steps 0)"

definition cleanupAppRuntimeResources :: "bool option list \<Rightarrow> bool option list \<Rightarrow> bool option list \<Rightarrow> nat \<times> nat" where
  "cleanupAppRuntimeResources abortControllers cancelableTasks disposableWorkers =
     runCleanupSteps (List.map_filter id abortControllers @ List.map_filter id cancelableTasks @
       List.map_filter id disposableWorkers)"

section \<open>Switching tenants\<close>

datatype session_event =
    Ask_decision
  | Save_changes
  | Change_tenant string
  | Notify_changed
  | Cleanup_step nat
  | Clear_previous_scope
  | Clear_storage
  | Replace_document

record transition_result =
  nextScope :: tenant_scope
  clearedStorageEntries :: nat
  cleanupFailureCount :: nat
  storageClearFailed :: bool

text \<open>A browser storage may throw: \<open>key\<close> does, or \<open>removeItem\<close> does after \<open>n\<close> removals. The result is the count,
  or none when an exception came, and the items left.\<close>

datatype storage_fault = Key_throws | Remove_throws nat

definition clear_items :: "storage \<Rightarrow> storage_fault option \<Rightarrow> tenant_scope \<Rightarrow> nat option \<times> storage" where
  "clear_items items fault scope = (case fault of
       None \<Rightarrow> (case clearTenantScopedStorage items scope of Inl e \<Rightarrow> (None, items) | Inr (n, items') \<Rightarrow> (Some n, items'))
     | Some throws \<Rightarrow> (case buildTenantStoragePrefix scope of
           Inl e \<Rightarrow> (None, items)
         | Inr pre \<Rightarrow>
             (let keysToRemove = keys_with_prefix items pre in
              case throws of
                Key_throws \<Rightarrow> if length items > 0 then (None, items) else (Some 0, items)
              | Remove_throws n \<Rightarrow> if n < length keysToRemove then (None, fold AList.delete (take n keysToRemove) items)
                  else (Some (length keysToRemove), fold AList.delete keysToRemove items))))"

text \<open>\<open>clearPreviousScope\<close> is absent, or throws (\<open>Some None\<close>), or returns its count. The result is the count, whether
  clearing failed, the calls made and the storage left.\<close>

definition clear_previous :: "tenant_scope \<Rightarrow> storage option \<Rightarrow> storage_fault option \<Rightarrow> nat option option \<Rightarrow>
    nat \<times> bool \<times> session_event list \<times> storage option" where
  "clear_previous scope st fault clearPreviousScope = (case clearPreviousScope of
       Some (Some n) \<Rightarrow> (n, False, [Clear_previous_scope], st)
     | Some None \<Rightarrow> (0, True, [Clear_previous_scope], st)
     | None \<Rightarrow> (case st of
           Some items \<Rightarrow> (case clear_items items fault scope of
               (None, items') \<Rightarrow> (0, True, [Clear_storage], Some items')
             | (Some n, items') \<Rightarrow> (n, False, [Clear_storage], Some items'))
         | None \<Rightarrow> (0, True, [], None)))"

text \<open>An exception of \<open>replaceDocument\<close> is not caught.\<close>

definition executeTenantSessionTransition ::
    "json \<Rightarrow> string \<Rightarrow> tenant_scope \<Rightarrow> storage option \<Rightarrow> storage_fault option \<Rightarrow> nat option option \<Rightarrow> bool list \<Rightarrow> bool \<Rightarrow>
     (tenant_error + transition_result) \<times> session_event list \<times> storage option" where
  "executeTenantSessionTransition nextSessionContext dep previousScope st fault clearPreviousScope cleanupSteps replaceThrows =
     (case sum_bind (parseTenantSessionContext nextSessionContext) (\<lambda>c. buildBrowserStorageScopeFromSession c dep) of
        Inl e \<Rightarrow> (Inl e, [], st)
      | Inr scope \<Rightarrow>
          (let failures = snd (runCleanupSteps cleanupSteps);
               (cleared, failed, calls, st') = clear_previous previousScope st fault clearPreviousScope
           in (if replaceThrows then Inl Other_failure
               else Inr \<lparr>nextScope = scope, clearedStorageEntries = cleared, cleanupFailureCount = failures,
                    storageClearFailed = failed\<rparr>,
               map Cleanup_step [0..<length cleanupSteps] @ calls @ [Replace_document], st')))"

datatype switch_result = Unchanged | Cancelled | Save_failed | Transitioned transition_result

record switch_input =
  currentSessionContext :: json
  requestedTenantId :: string
  switch_deployment :: string
  previousScope :: tenant_scope
  switch_storage :: "storage option"
  storageFault :: "storage_fault option"
  clearPreviousScope :: "nat option option"
  cleanupSteps :: "bool list"
  hasUnsavedChanges :: bool
  requestUnsavedDecision :: "(tenant_error + json) option"
  saveUnsavedChanges :: "(tenant_error + bool) option"
  changeTenant :: "session_context \<Rightarrow> string \<Rightarrow> tenant_error + json"
  notifySessionChanged :: "bool option"
  abortedOnEntry :: bool
  abortedAfterDecision :: bool
  abortedAfterSave :: bool
  replaceDocumentThrows :: bool

definition selectedTenantId :: "session_context \<Rightarrow> string \<Rightarrow> tenant_error + string option" where
  "selectedTenantId current requested =
     (if requested = summary_id (activeTenant current) then Inr None
      else case find (\<lambda>t. summary_id t = requested) (availableTenants current) of
          None \<Rightarrow> Inl Invalid_tenant_session_context
        | Some t \<Rightarrow> Inr (Some (summary_id t)))"

text \<open>The question about unsaved changes: how it ends the request (\<open>Inl\<close>) or that the request goes on (\<open>Inr ()\<close>),
  with the calls made.\<close>

definition settle_unsaved :: "switch_input \<Rightarrow> ((tenant_error + switch_result) + unit) \<times> session_event list" where
  "settle_unsaved inp =
     (if \<not> hasUnsavedChanges inp then (Inr (), [])
      else case requestUnsavedDecision inp of
          None \<Rightarrow> (Inl (Inl Invalid_tenant_session_context), [])
        | Some (Inl e) \<Rightarrow> (Inl (Inl e), [Ask_decision])
        | Some (Inr dec) \<Rightarrow>
            if abortedAfterDecision inp then (Inl (Inl Aborted), [Ask_decision])
            else if dec = JStr ''cancel'' then (Inl (Inr Cancelled), [Ask_decision])
            else if dec = JStr ''save'' then
              (case saveUnsavedChanges inp of
                 None \<Rightarrow> (Inl (Inl Invalid_tenant_session_context), [Ask_decision])
               | Some (Inl e) \<Rightarrow> (Inl (Inl e), [Ask_decision, Save_changes])
               | Some (Inr saved) \<Rightarrow>
                   if \<not> saved then (Inl (Inr Save_failed), [Ask_decision, Save_changes])
                   else if abortedAfterSave inp then (Inl (Inl Aborted), [Ask_decision, Save_changes])
                   else (Inr (), [Ask_decision, Save_changes]))
            else if dec \<noteq> JStr ''discard'' then (Inl (Inl Invalid_tenant_session_context), [Ask_decision])
            else (Inr (), [Ask_decision]))"

definition switch_guards :: "switch_input \<Rightarrow> tenant_error + (session_context \<times> string) option" where
  "switch_guards inp =
     (if abortedOnEntry inp then Inl Aborted
      else sum_bind (parseTenantSessionContext (currentSessionContext inp)) (\<lambda>current.
           sum_bind (selectedTenantId current (requestedTenantId inp)) (\<lambda>sel.
           case sel of None \<Rightarrow> Inr None
           | Some requested \<Rightarrow>
               sum_bind (buildBrowserStorageScopeFromSession current (switch_deployment inp)) (\<lambda>expected.
               if \<not> scopesMatch (previousScope inp) expected then Inl Invalid_tenant_session_context
               else if switch_storage inp = None \<and> clearPreviousScope inp = None
               then Inl Invalid_tenant_session_context
               else Inr (Some (current, requested))))))"

definition confirmed_session :: "session_context \<Rightarrow> string \<Rightarrow> json \<Rightarrow> tenant_error + session_context" where
  "confirmed_session current requested response =
     sum_bind (parseTenantSessionContext response) (\<lambda>next.
       if session_principalId next \<noteq> session_principalId current \<or> summary_id (activeTenant next) \<noteq> requested \<or>
          session_version next = session_version current
       then Inl Invalid_tenant_session_context else Inr next)"

definition requestTenantSessionTransition ::
    "switch_input \<Rightarrow> (tenant_error + switch_result) \<times> session_event list \<times> storage option" where
  "requestTenantSessionTransition inp =
     (case switch_guards inp of
        Inl e \<Rightarrow> (Inl e, [], switch_storage inp)
      | Inr None \<Rightarrow> (Inr Unchanged, [], switch_storage inp)
      | Inr (Some (current, requested)) \<Rightarrow>
          (case settle_unsaved inp of
             (Inl r, calls) \<Rightarrow> (r, calls, switch_storage inp)
           | (Inr _, calls) \<Rightarrow>
               (case sum_bind (changeTenant inp current requested) (confirmed_session current requested) of
                  Inl e \<Rightarrow> (Inl e, calls @ [Change_tenant requested], switch_storage inp)
                | Inr next \<Rightarrow>
                    (let notified = (if notifySessionChanged inp = None then [] else [Notify_changed]);
                         (r, calls', st') = executeTenantSessionTransition (session_json next) (switch_deployment inp)
                            (previousScope inp) (switch_storage inp) (storageFault inp) (clearPreviousScope inp) (cleanupSteps inp)
                            (replaceDocumentThrows inp)
                     in (case r of Inl e \<Rightarrow> Inl e | Inr t \<Rightarrow> Inr (Transitioned t),
                         calls @ [Change_tenant requested] @ notified @ calls', st')))))"

section \<open>Safety and progress of a switch\<close>

lemma encode_canonical: "canonical_text 256 s \<Longrightarrow> MAX_SCOPE_LENGTH name = 256 \<Longrightarrow> \<exists>e. encodeRequiredPart name s = Inr e"
  by (auto simp: encodeRequiredPart_def canonical_text_def)

text \<open>Whether a deployment is acceptable does not depend on the session.\<close>

lemma scope_of_session:
  assumes "session_ok c"
  shows "(\<exists>scope. buildBrowserStorageScopeFromSession c dep = Inr scope) \<longleftrightarrow>
         (\<exists>e. encodeRequiredPart ''deployment'' dep = Inr e)"
proof -
  have "canonical_text 256 (session_principalId c)" "canonical_text 256 (summary_id (activeTenant c))"
    using assms by (auto simp: session_ok_def list_all_iff summary_ok_def)
  moreover have "MAX_SCOPE_LENGTH ''tenantId'' = 256" "MAX_SCOPE_LENGTH ''principalId'' = 256"
    by (simp_all add: MAX_SCOPE_LENGTH_def)
  ultimately obtain t p where "encodeRequiredPart ''tenantId'' (summary_id (activeTenant c)) = Inr t"
    "encodeRequiredPart ''principalId'' (session_principalId c) = Inr p"
    using encode_canonical by meson
  then show ?thesis
    by (auto simp: buildBrowserStorageScopeFromSession_def buildTenantStoragePrefix_def Let_def split: sum.splits)
qed

lemma scope_of_session_eq:
  "buildBrowserStorageScopeFromSession c dep = Inr scope \<Longrightarrow>
   scope = \<lparr>deployment = dep, tenantId = summary_id (activeTenant c), principalId = session_principalId c\<rparr>"
  by (auto simp: buildBrowserStorageScopeFromSession_def Let_def sum_bind_Inr)

lemma switch_guards_Some:
  assumes "switch_guards inp = Inr (Some (current, requested))"
  shows "\<not> abortedOnEntry inp" "parseTenantSessionContext (currentSessionContext inp) = Inr current"
    "requested = requestedTenantId inp" "requested \<noteq> summary_id (activeTenant current)"
    "requested \<in> summary_id ` set (availableTenants current)"
    "buildBrowserStorageScopeFromSession current (switch_deployment inp) = Inr (previousScope inp)"
    "switch_storage inp \<noteq> None \<or> clearPreviousScope inp \<noteq> None"
proof -
  obtain expected where g: "\<not> abortedOnEntry inp" "parseTenantSessionContext (currentSessionContext inp) = Inr current"
    "selectedTenantId current (requestedTenantId inp) = Inr (Some requested)"
    "buildBrowserStorageScopeFromSession current (switch_deployment inp) = Inr expected"
    "scopesMatch (previousScope inp) expected" "switch_storage inp \<noteq> None \<or> clearPreviousScope inp \<noteq> None"
    using assms by (auto simp: switch_guards_def sum_bind_Inr split: if_splits option.splits)
  then show "\<not> abortedOnEntry inp" "parseTenantSessionContext (currentSessionContext inp) = Inr current"
    "switch_storage inp \<noteq> None \<or> clearPreviousScope inp \<noteq> None" by auto
  show "requested = requestedTenantId inp" "requested \<noteq> summary_id (activeTenant current)"
    "requested \<in> summary_id ` set (availableTenants current)"
    using g(3) by (auto simp: selectedTenantId_def find_Some_iff split: if_splits option.splits)
  have "previousScope inp = expected" using g(5) by (simp add: scopesMatch_def tenant_scope.equality)
  with g(4) show "buildBrowserStorageScopeFromSession current (switch_deployment inp) = Inr (previousScope inp)" by simp
qed

lemma confirmed_session_Inr:
  "confirmed_session current requested response = Inr next \<longleftrightarrow>
   parseTenantSessionContext response = Inr next \<and> session_principalId next = session_principalId current \<and>
   summary_id (activeTenant next) = requested \<and> session_version next \<noteq> session_version current"
  by (auto simp: confirmed_session_def sum_bind_Inr split: if_splits)

text \<open>After the server has confirmed the change nothing can stop the transition.\<close>

lemma execute_confirmed:
  assumes "switch_guards inp = Inr (Some (current, requested))"
    and "confirmed_session current requested response = Inr next"
  shows "\<exists>scope. buildBrowserStorageScopeFromSession next (switch_deployment inp) = Inr scope \<and>
    parseTenantSessionContext (session_json next) = Inr next"
proof -
  note g = switch_guards_Some [OF assms(1)]
  have "session_ok current" by (rule parse_session_ok [OF g(2)])
  moreover have ok: "session_ok next"
    using assms(2) parse_session_ok by (auto simp: confirmed_session_Inr)
  ultimately show ?thesis
    using g(6) scope_of_session [of current "switch_deployment inp"] scope_of_session [of "next" "switch_deployment inp"]
      session_parse_json [OF ok] by auto
qed

definition unsaved_settled :: "switch_input \<Rightarrow> bool" where
  "unsaved_settled inp \<longleftrightarrow> hasUnsavedChanges inp \<longrightarrow>
     \<not> abortedAfterDecision inp \<and>
     (requestUnsavedDecision inp = Some (Inr (JStr ''discard'')) \<or>
      requestUnsavedDecision inp = Some (Inr (JStr ''save'')) \<and> saveUnsavedChanges inp = Some (Inr True) \<and>
      \<not> abortedAfterSave inp)"

lemma settle_unsaved_Inr: "fst (settle_unsaved inp) = Inr () \<longleftrightarrow> unsaved_settled inp"
  by (auto simp: settle_unsaved_def unsaved_settled_def split: option.splits sum.splits if_splits)

lemma settle_unsaved_calls: "set (snd (settle_unsaved inp)) \<subseteq> {Ask_decision, Save_changes}"
  by (auto simp: settle_unsaved_def split: option.splits sum.splits if_splits)

lemma settle_unsaved_result: "fst (settle_unsaved inp) \<noteq> Inl (Inr (Transitioned t))"
  by (auto simp: settle_unsaved_def split: option.splits sum.splits if_splits)

text \<open>When a switch may reach the server, and when the server's answer confirms it, condition by condition.\<close>

definition switch_requested :: "switch_input \<Rightarrow> session_context \<Rightarrow> bool" where
  "switch_requested inp current \<longleftrightarrow>
     \<not> abortedOnEntry inp \<and> parseTenantSessionContext (currentSessionContext inp) = Inr current \<and>
     requestedTenantId inp \<noteq> summary_id (activeTenant current) \<and>
     requestedTenantId inp \<in> summary_id ` set (availableTenants current) \<and>
     deployment (previousScope inp) = switch_deployment inp \<and>
     tenantId (previousScope inp) = summary_id (activeTenant current) \<and>
     principalId (previousScope inp) = session_principalId current \<and>
     (\<exists>pre. buildTenantStoragePrefix (previousScope inp) = Inr pre) \<and>
     (switch_storage inp \<noteq> None \<or> clearPreviousScope inp \<noteq> None) \<and>
     (hasUnsavedChanges inp \<longrightarrow> \<not> abortedAfterDecision inp \<and>
       (requestUnsavedDecision inp = Some (Inr (JStr ''discard'')) \<or>
        requestUnsavedDecision inp = Some (Inr (JStr ''save'')) \<and> saveUnsavedChanges inp = Some (Inr True) \<and>
        \<not> abortedAfterSave inp))"

definition switch_confirmed :: "switch_input \<Rightarrow> session_context \<Rightarrow> session_context \<Rightarrow> bool" where
  "switch_confirmed inp current next \<longleftrightarrow> switch_requested inp current \<and>
     (\<exists>response. changeTenant inp current (requestedTenantId inp) = Inr response \<and>
        parseTenantSessionContext response = Inr next \<and> session_principalId next = session_principalId current \<and>
        summary_id (activeTenant next) = requestedTenantId inp \<and> session_version next \<noteq> session_version current)"

lemma find_requested: "x \<in> f ` set xs \<Longrightarrow> \<exists>t. find (\<lambda>t. f t = x) xs = Some t \<and> f t = x"
  by (induction xs) auto

lemma scope_of_session_iff:
  "buildBrowserStorageScopeFromSession c dep = Inr scope \<longleftrightarrow>
     deployment scope = dep \<and> tenantId scope = summary_id (activeTenant c) \<and> principalId scope = session_principalId c \<and>
     (\<exists>pre. buildTenantStoragePrefix scope = Inr pre)"
  by (cases scope) (auto simp: buildBrowserStorageScopeFromSession_def Let_def sum_bind_Inr)

lemma switch_requested_iff:
  "switch_requested inp current \<longleftrightarrow> switch_guards inp = Inr (Some (current, requestedTenantId inp)) \<and> unsaved_settled inp"
proof -
  have "switch_guards inp = Inr (Some (current, requestedTenantId inp)) \<longleftrightarrow>
      \<not> abortedOnEntry inp \<and> parseTenantSessionContext (currentSessionContext inp) = Inr current \<and>
      requestedTenantId inp \<noteq> summary_id (activeTenant current) \<and>
      requestedTenantId inp \<in> summary_id ` set (availableTenants current) \<and>
      buildBrowserStorageScopeFromSession current (switch_deployment inp) = Inr (previousScope inp) \<and>
      (switch_storage inp \<noteq> None \<or> clearPreviousScope inp \<noteq> None)" (is "?g \<longleftrightarrow> ?c")
  proof
    assume g: ?g
    show ?c by (intro conjI switch_guards_Some [OF g])
  next
    assume c: ?c
    then obtain t where "find (\<lambda>t. summary_id t = requestedTenantId inp) (availableTenants current) = Some t"
      "summary_id t = requestedTenantId inp" using find_requested [of "requestedTenantId inp" summary_id "availableTenants current"] by blast
    then show ?g using c by (auto simp: switch_guards_def selectedTenantId_def scopesMatch_def)
  qed
  then show ?thesis unfolding switch_requested_def unsaved_settled_def scope_of_session_iff by blast
qed

lemma switch_confirmed_iff:
  "switch_confirmed inp current next \<longleftrightarrow>
     switch_requested inp current \<and>
     sum_bind (changeTenant inp current (requestedTenantId inp)) (confirmed_session current (requestedTenantId inp)) = Inr next"
  by (auto simp: switch_confirmed_def sum_bind_Inr confirmed_session_Inr)

lemma request_confirmed:
  assumes "switch_confirmed inp current next"
  shows "\<exists>scope cleared failed calls st'.
    buildBrowserStorageScopeFromSession next (switch_deployment inp) = Inr scope \<and>
    clear_previous (previousScope inp) (switch_storage inp) (storageFault inp) (clearPreviousScope inp) = (cleared, failed, calls, st') \<and>
    requestTenantSessionTransition inp =
      (if replaceDocumentThrows inp then Inl Other_failure
       else Inr (Transitioned \<lparr>nextScope = scope, clearedStorageEntries = cleared,
         cleanupFailureCount = snd (runCleanupSteps (cleanupSteps inp)), storageClearFailed = failed\<rparr>),
       snd (settle_unsaved inp) @ [Change_tenant (requestedTenantId inp)] @
         (if notifySessionChanged inp = None then [] else [Notify_changed]) @
         map Cleanup_step [0..<length (cleanupSteps inp)] @ calls @ [Replace_document], st')"
proof -
  have g: "switch_guards inp = Inr (Some (current, requestedTenantId inp))" and u: "fst (settle_unsaved inp) = Inr ()"
    and c: "sum_bind (changeTenant inp current (requestedTenantId inp)) (confirmed_session current (requestedTenantId inp)) = Inr next"
    using assms by (auto simp: switch_confirmed_iff switch_requested_iff settle_unsaved_Inr)
  obtain response where "confirmed_session current (requestedTenantId inp) response = Inr next"
    using c by (auto simp: sum_bind_Inr)
  then obtain scope where s: "buildBrowserStorageScopeFromSession next (switch_deployment inp) = Inr scope"
      "parseTenantSessionContext (session_json next) = Inr next"
    using execute_confirmed [OF g] by blast
  obtain cleared failed calls st' where
    "clear_previous (previousScope inp) (switch_storage inp) (storageFault inp) (clearPreviousScope inp) = (cleared, failed, calls, st')"
    by (metis prod_cases4)
  moreover obtain asked where "settle_unsaved inp = (Inr (), asked)" using u by (cases "settle_unsaved inp") auto
  ultimately show ?thesis
    using g c s by (auto simp: requestTenantSessionTransition_def executeTenantSessionTransition_def Let_def)
qed

lemma request_unconfirmed:
  assumes "\<And>current next. \<not> switch_confirmed inp current next"
  shows "\<exists>r calls. requestTenantSessionTransition inp = (r, calls, switch_storage inp) \<and>
    Replace_document \<notin> set calls \<and> (\<forall>t. r \<noteq> Inr (Transitioned t)) \<and>
    (\<forall>t. Change_tenant t \<in> set calls \<longleftrightarrow> t = requestedTenantId inp \<and> (\<exists>current. switch_requested inp current))"
proof (cases "\<exists>current. switch_guards inp = Inr (Some (current, requestedTenantId inp))")
  case False
  then have "switch_guards inp = Inr None \<or> (\<exists>e. switch_guards inp = Inl e)"
    using switch_guards_Some(3) [of inp] by (cases "switch_guards inp") (auto, metis option.exhaust surj_pair)
  then show ?thesis by (auto simp: requestTenantSessionTransition_def switch_requested_iff)
next
  case True
  then obtain current where g: "switch_guards inp = Inr (Some (current, requestedTenantId inp))" by blast
  obtain out calls where s: "settle_unsaved inp = (out, calls)" by (cases "settle_unsaved inp")
  have calls: "Replace_document \<notin> set calls" "Change_tenant t \<notin> set calls" for t
    using settle_unsaved_calls [of inp] by (auto simp: s)
  show ?thesis
  proof (cases out)
    case (Inl r)
    then have "\<not> unsaved_settled inp" using settle_unsaved_Inr [of inp] s by simp
    with Inl g s calls settle_unsaved_result [of inp] show ?thesis
      by (auto simp: requestTenantSessionTransition_def switch_requested_iff)
  next
    case (Inr u)
    then have u: "unsaved_settled inp" using settle_unsaved_Inr [of inp] s by simp
    then obtain e where
      "sum_bind (changeTenant inp current (requestedTenantId inp)) (confirmed_session current (requestedTenantId inp)) = Inl e"
      using assms [of current] g by (auto simp: switch_confirmed_iff switch_requested_iff) (metis sumE)
    with Inr u g s calls show ?thesis
      by (auto simp: requestTenantSessionTransition_def switch_requested_iff)
  qed
qed

lemma clear_previous_calls:
  "clear_previous scope st fault cb = (n, failed, calls, st') \<Longrightarrow> Change_tenant t \<notin> set calls"
  by (auto simp: clear_previous_def split: option.splits prod.splits)

lemma switch_safe_parts:
  assumes "requestTenantSessionTransition inp = (r, events, st)"
  shows "Change_tenant t \<in> set events \<longleftrightarrow> t = requestedTenantId inp \<and> (\<exists>current. switch_requested inp current)"
    and "Replace_document \<in> set events \<longleftrightarrow> (\<exists>current next. switch_confirmed inp current next)"
    and "(\<exists>res. r = Inr (Transitioned res)) \<longleftrightarrow> (\<exists>current next. switch_confirmed inp current next) \<and> \<not> replaceDocumentThrows inp"
    and "\<not> (\<exists>current next. switch_confirmed inp current next) \<Longrightarrow> st = switch_storage inp"
proof -
  have "(Change_tenant t \<in> set events \<longleftrightarrow> t = requestedTenantId inp \<and> (\<exists>current. switch_requested inp current)) \<and>
    (Replace_document \<in> set events \<longleftrightarrow> (\<exists>current next. switch_confirmed inp current next)) \<and>
    ((\<exists>res. r = Inr (Transitioned res)) \<longleftrightarrow> (\<exists>current next. switch_confirmed inp current next) \<and> \<not> replaceDocumentThrows inp) \<and>
    (\<not> (\<exists>current next. switch_confirmed inp current next) \<longrightarrow> st = switch_storage inp)"
  proof (cases "\<exists>current next. switch_confirmed inp current next")
    case True
    then obtain current "next" where c: "switch_confirmed inp current next" by blast
    then have "\<exists>current. switch_requested inp current" by (auto simp: switch_confirmed_iff)
    moreover have "Change_tenant t \<notin> set (snd (settle_unsaved inp))" using settle_unsaved_calls [of inp] by auto
    ultimately show ?thesis
      using True request_confirmed [OF c] assms by (auto simp: clear_previous_calls split: if_splits)
  next
    case False
    with request_unconfirmed [of inp] assms show ?thesis by auto
  qed
  then show "Change_tenant t \<in> set events \<longleftrightarrow> t = requestedTenantId inp \<and> (\<exists>current. switch_requested inp current)"
    "Replace_document \<in> set events \<longleftrightarrow> (\<exists>current next. switch_confirmed inp current next)"
    "(\<exists>res. r = Inr (Transitioned res)) \<longleftrightarrow> (\<exists>current next. switch_confirmed inp current next) \<and> \<not> replaceDocumentThrows inp"
    "\<not> (\<exists>current next. switch_confirmed inp current next) \<Longrightarrow> st = switch_storage inp" by auto
qed

text \<open>C28. A tenant switch is safe. The server is asked to change the tenant exactly when the request was not aborted, the
  session parses, the requested tenant is an available one other than the active one, the storage scope is the session's own
  (its deployment, active tenant and principal, all encodable), there is a way to clear the old scope, and unsaved changes
  were discarded or saved without an abort. The document is replaced exactly when moreover the server's answer parses and
  names the same principal, the requested tenant and a new session version; the request then succeeds unless replacing
  the document throws. Without such an answer the document is not replaced and the browser storage is untouched.\<close>

theorem switch_safe:
  assumes "requestTenantSessionTransition inp = (r, events, st)"
  shows "(Change_tenant t \<in> set events \<longleftrightarrow> t = requestedTenantId inp \<and> (\<exists>current. switch_requested inp current))
    \<and> (Replace_document \<in> set events \<longleftrightarrow> (\<exists>current next. switch_confirmed inp current next))
    \<and> ((\<exists>res. r = Inr (Transitioned res)) \<longleftrightarrow> (\<exists>current next. switch_confirmed inp current next) \<and> \<not> replaceDocumentThrows inp)
    \<and> (\<not> (\<exists>current next. switch_confirmed inp current next) \<longrightarrow> st = switch_storage inp)"
  using switch_safe_parts [OF assms] by blast

lemma count_cleanup_failures: "snd (runCleanupSteps steps) = length (filter id steps)"
proof -
  have "fold (\<lambda>throws n. if throws then n + 1 else n) steps k = k + length (filter id steps)" for k :: nat
    by (induction steps arbitrary: k) auto
  then show ?thesis by (simp add: runCleanupSteps_def)
qed

lemma fold_delete_lookup: "map_of (fold AList.delete ks items) k = (if k \<in> set ks then None else map_of items k)"
  by (induction ks arbitrary: items) (auto simp: delete_conv')

lemma keys_with_prefix_starts: "k \<in> set (keys_with_prefix items pre) \<Longrightarrow> starts_with pre k"
  by (auto simp: set_keys_with_prefix)

text \<open>Whatever the storage throws, only items of the cleared scope are gone; without an exception all of them are.\<close>

lemma clear_items_effect:
  assumes "clear_items items fault scope = (res, items')" and "buildTenantStorageKey b t = Inr k"
    and "buildTenantStoragePrefix scope = Inr pre"
  shows "t \<noteq> scope \<Longrightarrow> map_of items' k = map_of items k"
    and "res \<noteq> None \<Longrightarrow> t = scope \<Longrightarrow> map_of items' k = None"
    and "fault = None \<Longrightarrow> res \<noteq> None"
proof -
  let ?keys = "keys_with_prefix items pre"
  have clear: "clearTenantScopedStorage items scope = Inr (length ?keys, fold AList.delete ?keys items)"
    by (simp add: clearTenantScopedStorage_def assms(3) Let_def)
  note cleared = clear_lookup_key [OF clear assms(2)]
  have other: "map_of (fold AList.delete (take n ?keys) items) k = map_of items k" if "t \<noteq> scope" for n
  proof -
    have "map_of (fold AList.delete ?keys items) k = map_of items k" using cleared that by simp
    then show ?thesis using in_set_takeD [of k n ?keys] by (auto simp: fold_delete_lookup split: if_splits)
  qed
  have all: "map_of (fold AList.delete ?keys items) k = (if t = scope then None else map_of items k)" using cleared .
  show "t \<noteq> scope \<Longrightarrow> map_of items' k = map_of items k"
    using assms(1,3) other all
    by (auto simp: clear_items_def clear Let_def split: option.splits storage_fault.splits if_splits)
  show "res \<noteq> None \<Longrightarrow> t = scope \<Longrightarrow> map_of items' k = None"
    using assms(1,3) all by (auto simp: clear_items_def clear Let_def split: option.splits storage_fault.splits if_splits)
  show "fault = None \<Longrightarrow> res \<noteq> None" using assms(1) by (auto simp: clear_items_def clear)
qed

definition cleared_storage :: "switch_input \<Rightarrow> transition_result \<Rightarrow> storage option \<Rightarrow> bool" where
  "cleared_storage inp res st \<longleftrightarrow>
     (\<forall>n. clearPreviousScope inp = Some (Some n) \<longrightarrow>
        st = switch_storage inp \<and> clearedStorageEntries res = n \<and> \<not> storageClearFailed res) \<and>
     (clearPreviousScope inp = Some None \<longrightarrow> st = switch_storage inp \<and> storageClearFailed res) \<and>
     (\<forall>items. clearPreviousScope inp = None \<and> switch_storage inp = Some items \<longrightarrow> (\<exists>items'. st = Some items' \<and>
        (\<forall>b t k. buildTenantStorageKey b t = Inr k \<and> t \<noteq> previousScope inp \<longrightarrow> map_of items' k = map_of items k) \<and>
        (\<forall>b k. buildTenantStorageKey b (previousScope inp) = Inr k \<and> \<not> storageClearFailed res \<longrightarrow> map_of items' k = None) \<and>
        (storageFault inp = None \<longrightarrow> \<not> storageClearFailed res)))"

lemma encode_k: "encodeRequiredPart ''baseKey'' ''k'' = Inr ''k''"
  by code_simp

lemma clear_previous_effect:
  assumes "clear_previous (previousScope inp) (switch_storage inp) (storageFault inp) (clearPreviousScope inp) = (cleared, failed, calls, st)"
    and "buildTenantStoragePrefix (previousScope inp) = Inr pre"
    and "clearedStorageEntries res = cleared" "storageClearFailed res = failed"
  shows "cleared_storage inp res st"
proof (cases "clearPreviousScope inp")
  case (Some c)
  then show ?thesis using assms(1,3,4) by (cases c) (auto simp: cleared_storage_def clear_previous_def)
next
  case None
  show ?thesis
  proof (cases "switch_storage inp")
    case (Some items)
    obtain r items' where r: "clear_items items (storageFault inp) (previousScope inp) = (r, items')" by fastforce
    have out: "st = Some items'" "failed \<longleftrightarrow> r = None"
      using assms(1) None Some r by (auto simp: clear_previous_def split: option.splits)
    obtain p where base: "buildTenantStorageKey ''k'' (previousScope inp) = Inr p"
      using assms(2) by (simp add: buildTenantStorageKey_def encode_k)
    show ?thesis
      unfolding cleared_storage_def using None Some out assms(4) clear_items_effect [OF r _ assms(2)] base by auto
  qed (use None in \<open>simp add: cleared_storage_def\<close>)
qed

lemma switch_runs:
  assumes "switch_confirmed inp current next"
  obtains res before clear st where "requestTenantSessionTransition inp =
      (if replaceDocumentThrows inp then Inl Other_failure else Inr (Transitioned res),
       before @ map Cleanup_step [0..<length (cleanupSteps inp)] @ clear @ [Replace_document], st)"
    and "nextScope res = \<lparr>deployment = switch_deployment inp, tenantId = requestedTenantId inp, principalId = session_principalId current\<rparr>"
    and "set before \<subseteq> {Ask_decision, Save_changes, Change_tenant (requestedTenantId inp), Notify_changed}"
    and "set clear \<subseteq> {Clear_previous_scope, Clear_storage}"
    and "cleanupFailureCount res = length (filter id (cleanupSteps inp))"
    and "cleared_storage inp res st"
proof -
  obtain scope cleared failed calls st where
    s: "buildBrowserStorageScopeFromSession next (switch_deployment inp) = Inr scope" and
    c: "clear_previous (previousScope inp) (switch_storage inp) (storageFault inp) (clearPreviousScope inp) = (cleared, failed, calls, st)" and
    r: "requestTenantSessionTransition inp =
      (if replaceDocumentThrows inp then Inl Other_failure
       else Inr (Transitioned \<lparr>nextScope = scope, clearedStorageEntries = cleared,
         cleanupFailureCount = snd (runCleanupSteps (cleanupSteps inp)), storageClearFailed = failed\<rparr>),
       snd (settle_unsaved inp) @ [Change_tenant (requestedTenantId inp)] @
         (if notifySessionChanged inp = None then [] else [Notify_changed]) @
         map Cleanup_step [0..<length (cleanupSteps inp)] @ calls @ [Replace_document], st)"
    using request_confirmed [OF assms] by blast
  have n: "session_principalId next = session_principalId current" "summary_id (activeTenant next) = requestedTenantId inp"
    using assms by (auto simp: switch_confirmed_def)
  obtain pre where pre: "buildTenantStoragePrefix (previousScope inp) = Inr pre"
    using assms by (auto simp: switch_confirmed_def switch_requested_def)
  have calls: "set calls \<subseteq> {Clear_previous_scope, Clear_storage}"
    using c by (auto simp: clear_previous_def split: option.splits prod.splits)
  show thesis
  proof (rule that)
    show "requestTenantSessionTransition inp =
      (if replaceDocumentThrows inp then Inl Other_failure
       else Inr (Transitioned \<lparr>nextScope = scope, clearedStorageEntries = cleared,
         cleanupFailureCount = snd (runCleanupSteps (cleanupSteps inp)), storageClearFailed = failed\<rparr>),
       (snd (settle_unsaved inp) @ [Change_tenant (requestedTenantId inp)] @
         (if notifySessionChanged inp = None then [] else [Notify_changed])) @
       map Cleanup_step [0..<length (cleanupSteps inp)] @ calls @ [Replace_document], st)" using r by simp
  qed (use scope_of_session_eq [OF s] n calls settle_unsaved_calls [of inp] clear_previous_effect [OF c pre]
       in \<open>auto simp: count_cleanup_failures\<close>)
qed

text \<open>C29. Once the server has confirmed the switch it runs to the end, whatever a cleanup step, the notification, the
  clearing of the old scope or the browser storage throws: every cleanup step runs, once and in order, and the failures are
  counted; then the old scope is cleared; the last event replaces the document. The result is a transition to the requested
  tenant under the same principal; only an exception of \<open>replaceDocument\<close> itself, the last call, escapes.
  Clearing: when the caller passes \<open>clearPreviousScope\<close>, the storage argument is untouched and the result reports that
  function's count or failure. Otherwise, whatever the storage throws, no item of another scope is lost; if no failure
  is reported every item of the previous scope is gone, and a storage that does not throw reports none.\<close>

theorem switch_completes:
  assumes "switch_confirmed inp current next"
  shows "\<exists>res before clear st. requestTenantSessionTransition inp =
      (if replaceDocumentThrows inp then Inl Other_failure else Inr (Transitioned res),
       before @ map Cleanup_step [0..<length (cleanupSteps inp)] @ clear @ [Replace_document], st) \<and>
    set before \<subseteq> {Ask_decision, Save_changes, Change_tenant (requestedTenantId inp), Notify_changed} \<and>
    set clear \<subseteq> {Clear_previous_scope, Clear_storage} \<and>
    nextScope res = \<lparr>deployment = switch_deployment inp, tenantId = requestedTenantId inp,
      principalId = session_principalId current\<rparr> \<and>
    cleanupFailureCount res = length (filter id (cleanupSteps inp)) \<and>
    (\<forall>n. clearPreviousScope inp = Some (Some n) \<longrightarrow>
       st = switch_storage inp \<and> clearedStorageEntries res = n \<and> \<not> storageClearFailed res) \<and>
    (clearPreviousScope inp = Some None \<longrightarrow> st = switch_storage inp \<and> storageClearFailed res) \<and>
    (\<forall>items. clearPreviousScope inp = None \<and> switch_storage inp = Some items \<longrightarrow> (\<exists>items'. st = Some items' \<and>
       (\<forall>b t k. buildTenantStorageKey b t = Inr k \<and> t \<noteq> previousScope inp \<longrightarrow> map_of items' k = map_of items k) \<and>
       (\<forall>b k. buildTenantStorageKey b (previousScope inp) = Inr k \<and> \<not> storageClearFailed res \<longrightarrow> map_of items' k = None) \<and>
       (storageFault inp = None \<longrightarrow> \<not> storageClearFailed res)))"
proof -
  obtain res before clear st where r: "requestTenantSessionTransition inp =
      (if replaceDocumentThrows inp then Inl Other_failure else Inr (Transitioned res),
       before @ map Cleanup_step [0..<length (cleanupSteps inp)] @ clear @ [Replace_document], st)"
    "nextScope res = \<lparr>deployment = switch_deployment inp, tenantId = requestedTenantId inp, principalId = session_principalId current\<rparr>"
    "set before \<subseteq> {Ask_decision, Save_changes, Change_tenant (requestedTenantId inp), Notify_changed}"
    "set clear \<subseteq> {Clear_previous_scope, Clear_storage}"
    "cleanupFailureCount res = length (filter id (cleanupSteps inp))"
    and c: "cleared_storage inp res st"
    using assms by (rule switch_runs)
  show ?thesis
    by (intro exI [of _ res] exI [of _ before] exI [of _ clear] exI [of _ st] conjI r c [unfolded cleared_storage_def, THEN conjunct1]
        c [unfolded cleared_storage_def, THEN conjunct2, THEN conjunct1] c [unfolded cleared_storage_def, THEN conjunct2, THEN conjunct2])
qed

text \<open>Starting up is coherent with the rest of the application: when the bootstrap is ready, its context is well
  formed, the application accepts it together with its scope, and a switch to any other available tenant from there
  passes every guard.\<close>

theorem bootstrap_coherent:
  assumes "bootstrapTenantSession dep aborted1 loaded aborted2 = Inr (Ready c scope)"
  shows "session_ok c" and "resolveAppTenantSession (session_json c) (Some scope) = Inr (Some c)"
    and "\<lbrakk>currentSessionContext inp = session_json c; previousScope inp = scope; switch_deployment inp = dep;
      \<not> abortedOnEntry inp; switch_storage inp \<noteq> None; requestedTenantId inp \<noteq> summary_id (activeTenant c);
      requestedTenantId inp \<in> summary_id ` set (availableTenants c)\<rbrakk>
      \<Longrightarrow> switch_guards inp = Inr (Some (c, requestedTenantId inp))"
proof -
  obtain v where v: "parseTenantSessionContext v = Inr c" and s: "buildBrowserStorageScopeFromSession c dep = Inr scope"
    using assms by (auto simp: bootstrapTenantSession_def split: if_splits sum.splits elim!: sum_bind.elims)
  show ok: "session_ok c" by (rule parse_session_ok [OF v])
  have d: "deployment scope = dep" and m: "scopesMatch scope scope"
    using scope_of_session_eq [OF s] by (simp_all add: scopesMatch_def)
  show "resolveAppTenantSession (session_json c) (Some scope) = Inr (Some c)"
    using session_parse_json [OF ok] s d m by (simp add: resolveAppTenantSession_def) (simp add: session_json_def)
  assume "currentSessionContext inp = session_json c" "previousScope inp = scope" "switch_deployment inp = dep"
      "\<not> abortedOnEntry inp" "switch_storage inp \<noteq> None" "requestedTenantId inp \<noteq> summary_id (activeTenant c)"
      "requestedTenantId inp \<in> summary_id ` set (availableTenants c)"
  moreover from this obtain t where "find (\<lambda>t. summary_id t = requestedTenantId inp) (availableTenants c) = Some t"
      "summary_id t = requestedTenantId inp"
    using find_own_id ok by (force simp: session_ok_def)
  ultimately show "switch_guards inp = Inr (Some (c, requestedTenantId inp))"
    using session_parse_json [OF ok] s m by (simp add: switch_guards_def selectedTenantId_def)
qed

section \<open>A concrete switch\<close>

definition ex_session :: "string \<Rightarrow> string \<Rightarrow> session_context" where
  "ex_session t ver = \<lparr>session_principalId = ''u'', activeTenant = \<lparr>summary_id = t, summary_displayName = ''T''\<rparr>,
     availableTenants = [\<lparr>summary_id = ''a'', summary_displayName = ''T''\<rparr>, \<lparr>summary_id = ''b'', summary_displayName = ''T''\<rparr>],
     effectiveCapabilities = [''document.read''], capabilityVersion = ''1'', session_version = ver\<rparr>"

definition ex_switch :: switch_input where
  "ex_switch = \<lparr>currentSessionContext = session_json (ex_session ''a'' ''v1''), requestedTenantId = ''b'',
     switch_deployment = ''https://a'', previousScope = ex_scope ''a'',
     switch_storage = Some [(''sui-sensemaking/tenant-scope/v1/https%3A%2F%2Fa/a/u/k'', ''1''), (''x'', ''2'')],
     storageFault = None, clearPreviousScope = None, cleanupSteps = [True, False], hasUnsavedChanges = True,
     requestUnsavedDecision = Some (Inr (JStr ''discard'')), saveUnsavedChanges = None,
     changeTenant = (\<lambda>c t. Inr (session_json (ex_session t ''v2''))), notifySessionChanged = Some True,
     abortedOnEntry = False, abortedAfterDecision = False, abortedAfterSave = True, replaceDocumentThrows = False\<rparr>"

lemma ex_session_ok: "session_ok (ex_session ''a'' ''v1'')" "session_ok (ex_session ''b'' ''v2'')"
  by code_simp+

lemma ex_bootstrap:
  "bootstrapTenantSession ''https://a'' False (Inr (session_json (ex_session ''a'' ''v1''))) False =
   Inr (Ready (ex_session ''a'' ''v1'') (ex_scope ''a''))"
  by code_simp

lemma ex_confirmed: "switch_confirmed ex_switch (ex_session ''a'' ''v1'') (ex_session ''b'' ''v2'')"
proof -
  have "switch_guards ex_switch = Inr (Some (ex_session ''a'' ''v1'', ''b''))" by code_simp
  moreover have "confirmed_session (ex_session ''a'' ''v1'') ''b'' (session_json (ex_session ''b'' ''v2'')) = Inr (ex_session ''b'' ''v2'')"
    by code_simp
  ultimately show ?thesis
    by (simp add: switch_confirmed_iff switch_requested_iff unsaved_settled_def) (simp add: ex_switch_def)
qed

theorem session_parser_exact_witness:
  "parseTenantSessionContext (session_json (ex_session ''b'' ''v2'')) = Inr (ex_session ''b'' ''v2'') \<and>
   session_ok (ex_session ''b'' ''v2'')"
  using session_parser_exact ex_session_ok(2) by blast

lemma ex_switch_key:
  "buildTenantStorageKey ''k'' (ex_scope ''a'') = Inr ''sui-sensemaking/tenant-scope/v1/https%3A%2F%2Fa/a/u/k''"
  by code_simp

theorem switch_completes_witness:
  "\<exists>res events items. requestTenantSessionTransition ex_switch = (Inr (Transitioned res), events, Some items) \<and>
     tenantId (nextScope res) = ''b'' \<and> cleanupFailureCount res = 1 \<and> last events = Replace_document \<and>
     map_of items ''sui-sensemaking/tenant-scope/v1/https%3A%2F%2Fa/a/u/k'' = None"
proof -
  have e: "requestedTenantId ex_switch = ''b''" "filter id (cleanupSteps ex_switch) = [True]" "\<not> replaceDocumentThrows ex_switch"
    "clearPreviousScope ex_switch = None" "storageFault ex_switch = None" "previousScope ex_switch = ex_scope ''a''"
    by (simp_all add: ex_switch_def)
  obtain stored where st: "switch_storage ex_switch = Some stored" by (simp add: ex_switch_def)
  obtain res before clear st where r: "requestTenantSessionTransition ex_switch =
      (Inr (Transitioned res), before @ map Cleanup_step [0..<length (cleanupSteps ex_switch)] @ clear @ [Replace_document], st)"
    and n: "tenantId (nextScope res) = ''b''" "cleanupFailureCount res = 1"
    and c: "\<exists>items'. st = Some items' \<and> (\<forall>b k. buildTenantStorageKey b (ex_scope ''a'') = Inr k \<longrightarrow> map_of items' k = None)"
    using switch_completes [OF ex_confirmed] e st by (auto simp: st)
  from c obtain items' where "st = Some items'" "map_of items' ''sui-sensemaking/tenant-scope/v1/https%3A%2F%2Fa/a/u/k'' = None"
    using ex_switch_key by blast
  moreover have "last (before @ map Cleanup_step [0..<length (cleanupSteps ex_switch)] @ clear @ [Replace_document]) = Replace_document"
    by (metis append_assoc last_snoc)
  ultimately show ?thesis using r n by blast
qed

theorem switch_safe_witness:
  "\<exists>r events st. requestTenantSessionTransition ex_switch = (r, events, st) \<and> Replace_document \<in> set events"
proof -
  obtain r events st where r: "requestTenantSessionTransition ex_switch = (r, events, st)" by (metis prod_cases3)
  have "Replace_document \<in> set events" using switch_safe [OF r, THEN conjunct2, THEN conjunct1] ex_confirmed by blast
  with r show ?thesis by (intro exI conjI)
qed

theorem bootstrap_coherent_witness:
  "resolveAppTenantSession (session_json (ex_session ''a'' ''v1'')) (Some (ex_scope ''a'')) = Inr (Some (ex_session ''a'' ''v1'')) \<and>
   switch_guards ex_switch = Inr (Some (ex_session ''a'' ''v1'', ''b''))"
proof
  show "resolveAppTenantSession (session_json (ex_session ''a'' ''v1'')) (Some (ex_scope ''a'')) = Inr (Some (ex_session ''a'' ''v1''))"
    by (rule bootstrap_coherent(2) [OF ex_bootstrap])
  show "switch_guards ex_switch = Inr (Some (ex_session ''a'' ''v1'', ''b''))"
    using bootstrap_coherent(3) [OF ex_bootstrap, of ex_switch] by (simp add: ex_switch_def ex_session_def)
qed

end
