(* ===== verification/Tenant_Runtime.thy ===== *)
theory Tenant_Runtime
  imports Tenant_Session Transitions
begin

text \<open>
  The running session: the boundary that invalidates a mounted tenant scope when another tab, the page cache, the
  network or a long absence may have changed the browser session (\<open>session/tenant_session_coherence.ts\<close>), and the
  guard that keeps results of an earlier session generation from being committed (\<open>session/tenant_session_generation.ts\<close>).

  The boundary is a state machine whose steps are the handlers; a handler may run at any time, also after the boundary
  was disposed, so what is proved does not rely on the browser dropping events of removed listeners. Times are numbers
  read from \<open>now()\<close>. The guard is a machine over the interleaving of starting requests, invalidating and settling.
\<close>

section \<open>The coherence boundary\<close>

datatype invalidation_reason = Cross_tab | Bfcache | Online | Resume

record boundary =
  hiddenRevalidationMs :: rat
  channel :: bool
  hiddenAt :: "rat option"
  invalidated :: bool
  disposed :: bool
  listening :: bool
  onInvalidate_calls :: "invalidation_reason list"
  posted :: nat

definition DEFAULT_HIDDEN_REVALIDATION_MS :: rat where
  "DEFAULT_HIDDEN_REVALIDATION_MS = 5 * 60 * 1000"

text \<open>\<open>channelMade\<close>: the channel factory returned a channel (it may throw or return nothing). \<open>None\<close> is the
  \<open>TypeError\<close> of a bad threshold.\<close>

definition installTenantSessionCoherenceBoundary :: "js_num option \<Rightarrow> bool \<Rightarrow> boundary option" where
  "installTenantSessionCoherenceBoundary threshold channelMade =
     (case nullish threshold (Finite DEFAULT_HIDDEN_REVALIDATION_MS) of
        Finite ms \<Rightarrow> if ms < 0 then None
          else Some \<lparr>hiddenRevalidationMs = ms, channel = channelMade, hiddenAt = None, invalidated = False,
                     disposed = False, listening = True, onInvalidate_calls = [], posted = 0\<rparr>
      | _ \<Rightarrow> None)"

definition dispose :: "boundary \<Rightarrow> boundary" where
  "dispose b = (if disposed b then b else b\<lparr>disposed := True, listening := False\<rparr>)"

definition invalidate :: "invalidation_reason \<Rightarrow> boundary \<Rightarrow> boundary" where
  "invalidate reason b =
     (if disposed b \<or> invalidated b then b
      else (let b' = dispose (b\<lparr>invalidated := True\<rparr>)
            in b'\<lparr>onInvalidate_calls := onInvalidate_calls b' @ [reason]\<rparr>))"

definition onChannelMessage :: "boundary \<Rightarrow> boundary" where
  "onChannelMessage b = invalidate Cross_tab b"

definition onPageShow :: "bool \<Rightarrow> boundary \<Rightarrow> boundary" where
  "onPageShow persisted b = (if persisted then invalidate Bfcache b else b)"

definition onOnline :: "boundary \<Rightarrow> boundary" where
  "onOnline b = invalidate Online b"

definition onVisibilityChange :: "string \<Rightarrow> rat \<Rightarrow> boundary \<Rightarrow> boundary" where
  "onVisibilityChange visibilityState now b =
     (if visibilityState = ''hidden'' then b\<lparr>hiddenAt := Some now\<rparr>
      else (let b' = (case hiddenAt b of
                 Some t \<Rightarrow> if visibilityState = ''visible'' \<and> now - t \<ge> hiddenRevalidationMs b
                   then invalidate Resume b else b
               | None \<Rightarrow> b)
            in b'\<lparr>hiddenAt := None\<rparr>))"

definition publishSessionChanged :: "bool \<Rightarrow> boundary \<Rightarrow> bool \<times> boundary" where
  "publishSessionChanged postThrows b =
     (if disposed b \<or> \<not> channel b then (False, b)
      else if postThrows then (False, b)
      else (True, b\<lparr>posted := posted b + 1\<rparr>))"

datatype boundary_event =
    Channel_message
  | Page_show bool
  | Went_online
  | Visibility_change string rat
  | Publish bool
  | Dispose

fun boundary_handle :: "boundary_event \<Rightarrow> boundary \<Rightarrow> boundary" where
  "boundary_handle Channel_message b = onChannelMessage b"
| "boundary_handle (Page_show persisted) b = onPageShow persisted b"
| "boundary_handle Went_online b = onOnline b"
| "boundary_handle (Visibility_change v now) b = onVisibilityChange v now b"
| "boundary_handle (Publish throws) b = snd (publishSessionChanged throws b)"
| "boundary_handle Dispose b = dispose b"

definition boundary_start :: "boundary \<Rightarrow> bool" where
  "boundary_start b \<longleftrightarrow> (\<exists>threshold made. installTenantSessionCoherenceBoundary threshold made = Some b)"

inductive boundary_step :: "boundary \<Rightarrow> boundary \<Rightarrow> bool" where
  handle: "boundary_step b (boundary_handle e b)"

interpretation coherence: transition_system boundary_start boundary_step .

definition boundary_ok :: "boundary \<Rightarrow> bool" where
  "boundary_ok b \<longleftrightarrow> 0 \<le> hiddenRevalidationMs b \<and> (listening b \<longleftrightarrow> \<not> disposed b) \<and>
     (invalidated b \<longrightarrow> disposed b) \<and> length (onInvalidate_calls b) = (if invalidated b then 1 else 0)"

lemma boundary_ok_start: "boundary_start b \<Longrightarrow> boundary_ok b"
proof -
  assume "boundary_start b"
  then obtain threshold made where i: "installTenantSessionCoherenceBoundary threshold made = Some b"
    by (auto simp: boundary_start_def)
  then show ?thesis
    by (cases "nullish threshold (Finite DEFAULT_HIDDEN_REVALIDATION_MS)")
      (auto simp: boundary_ok_def installTenantSessionCoherenceBoundary_def split: if_splits)
qed

lemmas boundary_handler_defs = onChannelMessage_def onPageShow_def onOnline_def onVisibilityChange_def
  publishSessionChanged_def dispose_def

lemma boundary_ok_invalidate: "boundary_ok b \<Longrightarrow> boundary_ok (invalidate r b)"
  by (auto simp: boundary_ok_def invalidate_def dispose_def Let_def)

lemma boundary_ok_handle: "boundary_ok b \<Longrightarrow> boundary_ok (boundary_handle e b)"
proof (cases e)
  case (Visibility_change v now)
  assume ok: "boundary_ok b"
  then have "boundary_ok (invalidate Resume b)" by (rule boundary_ok_invalidate)
  with ok Visibility_change show ?thesis
    by (auto simp: onVisibilityChange_def boundary_ok_def Let_def split: option.splits)
qed (auto simp: boundary_handler_defs boundary_ok_invalidate, auto simp: boundary_ok_def)

text \<open>When a handler call invalidates, and for which reason.\<close>

definition triggers :: "boundary_event \<Rightarrow> boundary \<Rightarrow> invalidation_reason option" where
  "triggers e b = (if disposed b then None else case e of
       Channel_message \<Rightarrow> Some Cross_tab
     | Page_show persisted \<Rightarrow> if persisted then Some Bfcache else None
     | Went_online \<Rightarrow> Some Online
     | Visibility_change v now \<Rightarrow>
         if v = ''visible'' \<and> (\<exists>t. hiddenAt b = Some t \<and> now - t \<ge> hiddenRevalidationMs b) then Some Resume else None
     | _ \<Rightarrow> None)"

lemma handle_calls:
  assumes "boundary_ok b"
  shows "onInvalidate_calls (boundary_handle e b) =
    onInvalidate_calls b @ (case triggers e b of None \<Rightarrow> [] | Some r \<Rightarrow> [r])"
  using assms
  by (cases e) (auto simp: triggers_def boundary_handler_defs invalidate_def boundary_ok_def Let_def split: option.splits)

lemma boundary_invalidates_once_parts:
  assumes "coherence.reachable b"
  shows "length (onInvalidate_calls b) = (if invalidated b then 1 else 0)"
    and "invalidated b \<Longrightarrow> disposed b" and "listening b \<longleftrightarrow> \<not> disposed b"
    and "onInvalidate_calls (boundary_handle e b) = onInvalidate_calls b @ (case triggers e b of None \<Rightarrow> [] | Some r \<Rightarrow> [r])"
proof -
  have ok: "boundary_ok b"
    by (rule coherence.invariant [OF assms]) (auto simp: boundary_ok_start boundary_ok_handle elim: boundary_step.cases)
  then show "length (onInvalidate_calls b) = (if invalidated b then 1 else 0)" "invalidated b \<Longrightarrow> disposed b"
    "listening b \<longleftrightarrow> \<not> disposed b" by (simp_all add: boundary_ok_def)
  show "onInvalidate_calls (boundary_handle e b) = onInvalidate_calls b @ (case triggers e b of None \<Rightarrow> [] | Some r \<Rightarrow> [r])"
    by (rule handle_calls [OF ok])
qed

text \<open>C32. The session boundary invalidates at most once. In every reachable state the callback has run at most once,
  exactly when the boundary is invalidated, and then the boundary is disposed and its listeners are removed; a further
  handler call notifies precisely when the boundary is still live and the event is a trigger (a message of another tab,
  a page restored from the cache, the network coming back, or becoming visible after at least the threshold).\<close>

theorem boundary_invalidates_once:
  assumes "coherence.reachable b"
  shows "(length (onInvalidate_calls b) = (if invalidated b then 1 else 0))
    \<and> (invalidated b \<longrightarrow> disposed b)
    \<and> (listening b \<longleftrightarrow> \<not> disposed b)
    \<and> (onInvalidate_calls (boundary_handle e b) = onInvalidate_calls b @ (case triggers e b of None \<Rightarrow> [] | Some r \<Rightarrow> [r]))"
  using boundary_invalidates_once_parts [OF assms] by blast

lemma ex_boundary_start: "boundary_start \<lparr>hiddenRevalidationMs = 10, channel = True, hiddenAt = None, invalidated = False,
    disposed = False, listening = True, onInvalidate_calls = [], posted = 0\<rparr>"
  unfolding boundary_start_def
  by (rule exI [of _ "Some (Finite 10)"], rule exI [of _ True]) (simp add: installTenantSessionCoherenceBoundary_def)

theorem boundary_invalidates_once_witness:
  "onInvalidate_calls (boundary_handle Went_online \<lparr>hiddenRevalidationMs = 10, channel = True, hiddenAt = None,
     invalidated = False, disposed = False, listening = True, onInvalidate_calls = [], posted = 0\<rparr>) = [Online]"
  using boundary_invalidates_once [OF coherence.reachable.init [OF ex_boundary_start], of Went_online]
  by (simp add: triggers_def)

section \<open>The generation guard\<close>

text \<open>A call of \<open>run\<close> is the generation it captured until its request settles; its outcome is then the value, the
  stale-result error, or the failure of the request itself.\<close>

datatype 'a run_outcome = Committed 'a | Stale_result | Request_rejected

record 'a guard =
  generation :: nat
  pending :: "(nat \<times> nat) list"
  outcomes :: "(nat \<times> 'a run_outcome) list"

datatype 'a guard_event =
    Invalidate
  | Run nat
  | Settle nat "'a option"

definition guard_init :: "'a guard" where
  "guard_init = \<lparr>generation = 0, pending = [], outcomes = []\<rparr>"

definition guard_invalidate :: "'a guard \<Rightarrow> 'a guard" where
  "guard_invalidate g = g\<lparr>generation := generation g + 1\<rparr>"

definition run_begin :: "nat \<Rightarrow> 'a guard \<Rightarrow> 'a guard" where
  "run_begin call g = g\<lparr>pending := AList.update call (generation g) (pending g)\<rparr>"

definition run_settle :: "nat \<Rightarrow> 'a option \<Rightarrow> 'a guard \<Rightarrow> 'a guard" where
  "run_settle call result g = (case map_of (pending g) call of
       None \<Rightarrow> g
     | Some requestGeneration \<Rightarrow> g\<lparr>pending := AList.delete call (pending g),
         outcomes := outcomes g @ [(call, case result of None \<Rightarrow> Request_rejected
           | Some v \<Rightarrow> if requestGeneration \<noteq> generation g then Stale_result else Committed v)]\<rparr>)"

fun guard_handle :: "'a guard_event \<Rightarrow> 'a guard \<Rightarrow> 'a guard" where
  "guard_handle Invalidate g = guard_invalidate g"
| "guard_handle (Run call) g = run_begin call g"
| "guard_handle (Settle call result) g = run_settle call result g"

definition guard_run :: "'a guard_event list \<Rightarrow> 'a guard \<Rightarrow> 'a guard" where
  "guard_run events g = fold guard_handle events g"

definition invalidations :: "'a guard_event list \<Rightarrow> nat" where
  "invalidations events = length (filter (\<lambda>e. e = Invalidate) events)"

lemma generation_run: "generation (guard_run events g) = generation g + invalidations events"
proof (induction events arbitrary: g)
  case (Cons e es)
  have "generation (guard_handle e g) = generation g + (if e = Invalidate then 1 else 0)"
    by (cases e) (auto simp: guard_invalidate_def run_begin_def run_settle_def split: option.splits)
  with Cons show ?case by (simp add: guard_run_def invalidations_def)
qed (simp add: guard_run_def invalidations_def)

lemma pending_run:
  assumes "\<forall>e\<in>set events. e \<noteq> Run call \<and> (\<forall>r. e \<noteq> Settle call r)"
  shows "map_of (pending (guard_run events g)) call = map_of (pending g) call"
  using assms
proof (induction events arbitrary: g)
  case (Cons e es)
  then have "map_of (pending (guard_handle e g)) call = map_of (pending g) call"
    by (cases e) (auto simp: guard_invalidate_def run_begin_def run_settle_def update_conv' delete_conv' split: option.splits)
  with Cons show ?case by (simp add: guard_run_def)
qed (simp add: guard_run_def)

lemma outcomes_mono: "\<exists>more. outcomes (guard_run events g) = outcomes g @ more"
proof (induction events arbitrary: g)
  case (Cons e es)
  have "\<exists>more. outcomes (guard_handle e g) = outcomes g @ more"
    by (cases e) (auto simp: guard_invalidate_def run_begin_def run_settle_def split: option.splits)
  with Cons.IH [of "guard_handle e g"] show ?case by (auto simp: guard_run_def)
qed (simp add: guard_run_def)

lemma guard_commits_current_generation_parts:
  fixes v :: 'a
  assumes "\<forall>e\<in>set between. e \<noteq> Run call \<and> (\<forall>r. e \<noteq> Settle call r)"
    and "g = guard_run (before @ [Run call] @ between) guard_init"
  shows "outcomes (run_settle call (Some v) g) =
      outcomes g @ [(call, if Invalidate \<in> set between then Stale_result else Committed v)]"
    and "outcomes (run_settle call None g) = outcomes g @ [(call, Request_rejected)]"
    and "\<exists>more. outcomes (guard_run later g) = outcomes g @ more"
proof -
  define g0 where "g0 = guard_run before guard_init"
  have g: "g = guard_run between (run_begin call g0)" by (simp add: assms(2) g0_def guard_run_def)
  have "map_of (pending g) call = Some (generation g0)"
    unfolding g pending_run [OF assms(1)] by (simp add: run_begin_def update_conv')
  moreover have "generation g = generation g0 + invalidations between"
    unfolding g generation_run by (simp add: run_begin_def)
  moreover have "invalidations between = 0 \<longleftrightarrow> Invalidate \<notin> set between"
    by (auto simp: invalidations_def filter_empty_conv)
  ultimately show "outcomes (run_settle call (Some v) g) =
      outcomes g @ [(call, if Invalidate \<in> set between then Stale_result else Committed v)]"
    "outcomes (run_settle call None g) = outcomes g @ [(call, Request_rejected)]"
    by (auto simp: run_settle_def)
  show "\<exists>more. outcomes (guard_run later g) = outcomes g @ more" by (rule outcomes_mono)
qed

text \<open>C31. No result crosses a session boundary: whatever else is interleaved, a request that was started by a call and
  settles with a value is committed exactly when no invalidation happened in between, ends as a stale result otherwise,
  and a rejected request stays rejected; outcomes already delivered never change.\<close>

theorem guard_commits_current_generation:
  fixes v :: 'a
  assumes "\<forall>e\<in>set between. e \<noteq> Run call \<and> (\<forall>r. e \<noteq> Settle call r)"
    and "g = guard_run (before @ [Run call] @ between) guard_init"
  shows "(outcomes (run_settle call (Some v) g) =
      outcomes g @ [(call, if Invalidate \<in> set between then Stale_result else Committed v)])
    \<and> (outcomes (run_settle call None g) = outcomes g @ [(call, Request_rejected)])
    \<and> (\<exists>more. outcomes (guard_run later g) = outcomes g @ more)"
  using guard_commits_current_generation_parts [OF assms] by blast

theorem guard_commits_current_generation_witness:
  "outcomes (run_settle 1 (Some ''doc'') (guard_run [Run 0, Run 1, Settle 0 (Some ''x''), Invalidate] guard_init)) =
   [(0, Committed ''x''), (1, Stale_result)]"
proof -
  have "outcomes (run_settle 1 (Some ''doc'') (guard_run ([Run 0] @ [Run 1] @ [Settle 0 (Some ''x''), Invalidate]) guard_init)) =
      outcomes (guard_run ([Run 0] @ [Run 1] @ [Settle 0 (Some ''x''), Invalidate]) guard_init) @ [(1, Stale_result)]"
    by (subst guard_commits_current_generation [OF _ refl, THEN conjunct1]) simp_all
  then show ?thesis
    by (simp add: guard_run_def guard_init_def run_begin_def run_settle_def guard_invalidate_def)
qed

end
