(* ===== verification/Oauth_Flow.thy ===== *)
theory Oauth_Flow
  imports Tenant_Session
begin

text \<open>
  Signing in: the in-memory access token (\<open>session/token_store.ts\<close>), the CSRF cookie (\<open>session/csrf.ts\<close>), the
  redirect to the broker with PKCE (\<open>session/oauth_login.ts\<close>) and the callback that exchanges the code
  (\<open>session/oauth_callback.ts\<close>).

  The random bytes, the SHA-256 digest of the verifier, the broker address of the build and the answer of the token
  endpoint are arguments. The state is the tab's \<open>sessionStorage\<close>, the token, and where the address bar points.
\<close>

section \<open>Tokens\<close>

record browser =
  sessionStorage :: storage
  accessToken :: "string option"
  address :: string

definition storeTokens :: "string \<Rightarrow> browser \<Rightarrow> browser" where
  "storeTokens token b = b\<lparr>accessToken := Some token\<rparr>"

definition clearTokens :: "browser \<Rightarrow> browser" where
  "clearTokens b = b\<lparr>accessToken := None\<rparr>"

definition authorizationHeader :: "browser \<Rightarrow> (string \<times> string) list" where
  "authorizationHeader b =
     (if \<not> truthy_str (accessToken b) then []
      else [(''X-Sui-Sensemaking-Authorization'', ''Bearer '' @ the (accessToken b))])"

definition isAuthenticated :: "browser \<Rightarrow> bool" where
  "isAuthenticated b = (accessToken b \<noteq> None)"

section \<open>The CSRF cookie\<close>

definition CSRF_COOKIE :: string where
  "CSRF_COOKIE = ''Sui-Sensemaking-Csrf''"

definition CSRF_TOKEN_PATTERN :: "string \<Rightarrow> bool" where
  "CSRF_TOKEN_PATTERN v = (length v = 64 \<and>
     list_all (\<lambda>c. let n = (of_char c :: nat) in (48 \<le> n \<and> n \<le> 57) \<or> (97 \<le> n \<and> n \<le> 102)) v)"

definition csrf_of_part :: "string \<Rightarrow> string option" where
  "csrf_of_part part =
     (let trimmed = trim part in
      case find_index (\<lambda>c. c = CHR ''='') trimmed of
        None \<Rightarrow> None
      | Some separator \<Rightarrow>
          if separator = 0 then None
          else if take separator trimmed = CSRF_COOKIE \<and> CSRF_TOKEN_PATTERN (drop (separator + 1) trimmed)
          then Some (drop (separator + 1) trimmed) else None)"

fun first_some :: "('a \<Rightarrow> 'b option) \<Rightarrow> 'a list \<Rightarrow> 'b option" where
  "first_some f [] = None"
| "first_some f (x # xs) = (case f x of Some y \<Rightarrow> Some y | None \<Rightarrow> first_some f xs)"

definition csrfTokenFromCookie :: "string \<Rightarrow> string option" where
  "csrfTokenFromCookie cookieSource = first_some csrf_of_part (split_on (CHR '';'') cookieSource)"

definition csrfHeader :: "string option \<Rightarrow> (string \<times> string) list" where
  "csrfHeader cookie =
     (let token = csrfTokenFromCookie (nullish cookie [])
      in if truthy_str token then [(''X-Sui-Sensemaking-Csrf'', the token)] else [])"

section \<open>PKCE texts\<close>

definition base64_digit :: "nat \<Rightarrow> char" where
  "base64_digit n = char_of (if n < 26 then 65 + n else if n < 52 then 71 + n else if n < 62 then n - 4
     else if n = 62 then 43 else 47)"

fun btoa :: "nat list \<Rightarrow> string" where
  "btoa [] = []"
| "btoa [a] = [base64_digit (a div 4), base64_digit (a mod 4 * 16), CHR ''='', CHR ''='']"
| "btoa [a, b] = [base64_digit (a div 4), base64_digit (a mod 4 * 16 + b div 16), base64_digit (b mod 16 * 4), CHR ''='']"
| "btoa (a # b # c # bs) = [base64_digit (a div 4), base64_digit (a mod 4 * 16 + b div 16),
     base64_digit (b mod 16 * 4 + c div 64), base64_digit (c mod 64)] @ btoa bs"

definition base64url :: "nat list \<Rightarrow> string" where
  "base64url bytes = rev (dropWhile (\<lambda>c. c = CHR ''='') (rev
     (map (\<lambda>c. if c = CHR ''/'' then CHR ''_'' else c) (map (\<lambda>c. if c = CHR ''+'' then CHR ''-'' else c) (btoa bytes)))))"

definition generatePkce :: "(string \<Rightarrow> nat list) \<Rightarrow> nat list \<Rightarrow> string \<times> string" where
  "generatePkce sha256 verifierBytes =
     (let codeVerifier = base64url verifierBytes in (codeVerifier, base64url (sha256 codeVerifier)))"

definition generateState :: "nat list \<Rightarrow> string" where
  "generateState stateBytes = base64url stateBytes"

text \<open>\<open>URLSearchParams.toString\<close>: the form encoding.\<close>

definition form_char :: "char \<Rightarrow> string" where
  "form_char c = (let n = (of_char c :: nat) in
     if alnum c \<or> c \<in> set ''*-._'' then [c]
     else if c = CHR '' '' then ''+''
     else if n < 128 then percent_byte n
     else percent_byte (192 + n div 64) @ percent_byte (128 + n mod 64))"

definition form_text :: "string \<Rightarrow> string" where
  "form_text s = concat (map form_char s)"

definition search_params :: "(string \<times> string) list \<Rightarrow> string" where
  "search_params ps = join_with ''&'' (map (\<lambda>(k, v). form_text k @ ''='' @ form_text v) ps)"

section \<open>Login and callback\<close>

definition PKCE_VERIFIER_KEY :: string where
  "PKCE_VERIFIER_KEY = ''sui_sensemaking_pkce_verifier''"

definition OAUTH_STATE_KEY :: string where
  "OAUTH_STATE_KEY = ''sui_sensemaking_oauth_state''"

definition configured :: "string option \<Rightarrow> string \<Rightarrow> string" where
  "configured setting fallback = (case setting of None \<Rightarrow> fallback | Some s \<Rightarrow> if trim s = [] then fallback else trim s)"

definition resolveBrokerBaseUrl :: "string option \<Rightarrow> string" where
  "resolveBrokerBaseUrl setting = configured setting ''http://localhost:18081''"

definition resolveClientId :: "string option \<Rightarrow> string" where
  "resolveClientId setting = configured setting ''mock-client''"

definition redirectToBrokerLogin ::
    "string option \<Rightarrow> string option \<Rightarrow> string \<Rightarrow> (string \<Rightarrow> nat list) \<Rightarrow> nat list \<Rightarrow> nat list \<Rightarrow> browser \<Rightarrow> browser" where
  "redirectToBrokerLogin brokerSetting clientSetting origin sha256 verifierBytes stateBytes b =
     (let (codeVerifier, codeChallenge) = generatePkce sha256 verifierBytes;
          state = generateState stateBytes;
          params = search_params
            [(''response_type'', ''code''), (''client_id'', resolveClientId clientSetting),
             (''redirect_uri'', origin @ ''/oauth/callback''), (''scope'', ''openid''),
             (''code_challenge'', codeChallenge), (''code_challenge_method'', ''S256''), (''state'', state)]
      in b\<lparr>sessionStorage := AList.update OAUTH_STATE_KEY state (AList.update PKCE_VERIFIER_KEY codeVerifier (sessionStorage b)),
           address := resolveBrokerBaseUrl brokerSetting @ ''/oauth/authorize?'' @ params\<rparr>)"

datatype callback_result = Not_handled | Handled "string option"

text \<open>The answer of the token endpoint: no answer, or a status with a body that may fail to parse. A request
  is its address and its form fields.\<close>

datatype token_answer = No_answer | Answer nat "json option"

type_synonym token_request = "string \<times> (string \<times> string) list"

definition token_exchange :: "token_answer \<Rightarrow> string \<Rightarrow> browser \<Rightarrow> callback_result \<times> browser" where
  "token_exchange answer cleanUrl b = (case answer of
       No_answer \<Rightarrow> (Handled (Some ''oauth_network_error''), b)
     | Answer status body \<Rightarrow>
         if \<not> (200 \<le> status \<and> status \<le> 299) then (Handled (Some (''oauth_token_error_'' @ nat_str status)), b)
         else (case body of
             None \<Rightarrow> (Handled (Some ''oauth_network_error''), b)
           | Some data \<Rightarrow>
               (let b = b\<lparr>address := cleanUrl\<rparr> in
                if data = JNull then (Handled (Some ''oauth_network_error''), b)
                else case js_prop data ''access_token'' of
                    JStr token \<Rightarrow>
                      if ''refresh_token'' \<in> (case data of JObj es \<Rightarrow> fst ` set es | _ \<Rightarrow> {})
                      then (Handled (Some ''oauth_refresh_token_not_allowed''), b)
                      else (Handled None, storeTokens token b)
                  | _ \<Rightarrow> (Handled (Some ''oauth_invalid_token_response''), b))))"

definition token_request :: "string option \<Rightarrow> string \<Rightarrow> string \<Rightarrow> string \<Rightarrow> token_request" where
  "token_request brokerSetting redirectUri code codeVerifier =
     (resolveBrokerBaseUrl brokerSetting @ ''/oauth/token'',
      [(''grant_type'', ''authorization_code''), (''code'', code), (''redirect_uri'', redirectUri),
       (''client_id'', ''mock-client''), (''code_verifier'', codeVerifier)])"

text \<open>\<open>pageUrl\<close> is the origin with the path, without the query.\<close>

definition handleOAuthCallback ::
    "string option \<Rightarrow> string \<Rightarrow> (token_request \<Rightarrow> token_answer) \<Rightarrow> string option \<Rightarrow> string option \<Rightarrow> browser \<Rightarrow>
     callback_result \<times> token_request list \<times> browser" where
  "handleOAuthCallback brokerSetting pageUrl fetch code state b =
     (if \<not> truthy_str code \<or> \<not> truthy_str state then (Not_handled, [], b)
      else let storedState = map_of (sessionStorage b) OAUTH_STATE_KEY;
               b1 = b\<lparr>sessionStorage := AList.delete OAUTH_STATE_KEY (sessionStorage b)\<rparr>
           in if state \<noteq> storedState then (Handled (Some ''oauth_state_mismatch''), [], b1)
           else let codeVerifier = map_of (sessionStorage b1) PKCE_VERIFIER_KEY;
                    b2 = b1\<lparr>sessionStorage := AList.delete PKCE_VERIFIER_KEY (sessionStorage b1)\<rparr>
                in if \<not> truthy_str codeVerifier then (Handled (Some ''oauth_missing_pkce_verifier''), [], b2)
                else let req = token_request brokerSetting pageUrl (the code) (the codeVerifier);
                         (r, b3) = token_exchange (fetch req) pageUrl b2
                     in (r, [req], b3))"

section \<open>What a callback may do\<close>

definition issued_token :: "token_answer \<Rightarrow> string option" where
  "issued_token answer = (case answer of
       Answer status (Some (JObj es)) \<Rightarrow>
         (case map_of es ''access_token'' of
            Some (JStr token) \<Rightarrow> if 200 \<le> status \<and> status \<le> 299 \<and> ''refresh_token'' \<notin> fst ` set es then Some token else None
          | _ \<Rightarrow> None)
     | _ \<Rightarrow> None)"

lemma js_prop_str: "js_prop v k = JStr s \<longleftrightarrow> (\<exists>es. v = JObj es \<and> map_of es k = Some (JStr s))"
  by (cases v) (auto simp: nullish_def split: option.splits)

lemma token_exchange_issued:
  "issued_token answer = Some token \<Longrightarrow>
   token_exchange answer u b = (Handled None, b\<lparr>address := u, accessToken := Some token\<rparr>)"
  by (auto simp: issued_token_def token_exchange_def storeTokens_def
      split: token_answer.splits option.splits json.splits if_splits)

lemma token_exchange_refused:
  assumes "issued_token answer = None"
  shows "\<exists>e. fst (token_exchange answer u b) = Handled (Some e)" and "accessToken (snd (token_exchange answer u b)) = accessToken b"
proof -
  have "(\<exists>e. fst (token_exchange answer u b) = Handled (Some e)) \<and> accessToken (snd (token_exchange answer u b)) = accessToken b"
  proof (cases answer)
    case (Answer status body)
    show ?thesis
    proof (cases body)
      case (Some data)
      with Answer assms show ?thesis
        by (cases data; cases "js_prop data ''access_token''")
          (auto simp: issued_token_def token_exchange_def Let_def nullish_def split: option.splits json.splits)
    qed (use Answer in \<open>simp add: token_exchange_def\<close>)
  qed (simp add: token_exchange_def)
  then show "\<exists>e. fst (token_exchange answer u b) = Handled (Some e)"
    "accessToken (snd (token_exchange answer u b)) = accessToken b" by auto
qed

lemma token_exchange_storage [simp]: "sessionStorage (snd (token_exchange answer u b)) = sessionStorage b"
  by (auto simp: token_exchange_def storeTokens_def Let_def split: token_answer.splits option.splits json.splits)

lemma oauth_keys_differ [simp]: "OAUTH_STATE_KEY \<noteq> PKCE_VERIFIER_KEY" "PKCE_VERIFIER_KEY \<noteq> OAUTH_STATE_KEY"
  by (simp_all add: OAUTH_STATE_KEY_def PKCE_VERIFIER_KEY_def)

text \<open>The callback is genuine: it carries a code and the state this tab stored, and a verifier is at hand.\<close>

definition genuine_callback :: "string option \<Rightarrow> string option \<Rightarrow> browser \<Rightarrow> bool" where
  "genuine_callback code state b \<longleftrightarrow> truthy_str code \<and> truthy_str state \<and>
     map_of (sessionStorage b) OAUTH_STATE_KEY = state \<and> truthy_str (map_of (sessionStorage b) PKCE_VERIFIER_KEY)"

lemma callback_genuine:
  assumes "genuine_callback code state b"
    and "req = token_request broker pageUrl (the code) (the (map_of (sessionStorage b) PKCE_VERIFIER_KEY))"
  shows "handleOAuthCallback broker pageUrl fetch code state b =
    (let (r, b') = token_exchange (fetch req) pageUrl
           (b\<lparr>sessionStorage := AList.delete PKCE_VERIFIER_KEY (AList.delete OAUTH_STATE_KEY (sessionStorage b))\<rparr>)
     in (r, [req], b'))"
  using assms by (auto simp: handleOAuthCallback_def genuine_callback_def Let_def delete_conv')

lemma callback_storage:
  assumes "genuine_callback code state b" and "handleOAuthCallback broker pageUrl fetch code state b = (r, requests, b')"
  shows "sessionStorage b' = AList.delete PKCE_VERIFIER_KEY (AList.delete OAUTH_STATE_KEY (sessionStorage b))"
proof -
  define req where "req = token_request broker pageUrl (the code) (the (map_of (sessionStorage b) PKCE_VERIFIER_KEY))"
  have "b' = snd (token_exchange (fetch req) pageUrl
      (b\<lparr>sessionStorage := AList.delete PKCE_VERIFIER_KEY (AList.delete OAUTH_STATE_KEY (sessionStorage b))\<rparr>))"
    using assms(2) callback_genuine [OF assms(1) req_def, of fetch] by (auto split: prod.splits)
  then show ?thesis by simp
qed

lemma callback_spurious:
  assumes "\<not> genuine_callback code state b"
  shows "\<exists>r b'. handleOAuthCallback broker pageUrl fetch code state b = (r, [], b') \<and>
    r \<noteq> Handled None \<and> accessToken b' = accessToken b \<and> address b' = address b"
  using assms by (auto simp: handleOAuthCallback_def genuine_callback_def Let_def delete_conv')

lemma oauth_callback_authenticates_parts:
  assumes "handleOAuthCallback broker pageUrl fetch code state b = (r, requests, b')"
    and "req = token_request broker pageUrl (the code) (the (map_of (sessionStorage b) PKCE_VERIFIER_KEY))"
  shows "requests = (if genuine_callback code state b then [req] else [])"
    and "r = Handled None \<longleftrightarrow> genuine_callback code state b \<and> issued_token (fetch req) \<noteq> None"
    and "accessToken b' = (if genuine_callback code state b \<and> issued_token (fetch req) \<noteq> None
           then issued_token (fetch req) else accessToken b)"
proof -
  have "requests = (if genuine_callback code state b then [req] else []) \<and>
    (r = Handled None \<longleftrightarrow> genuine_callback code state b \<and> issued_token (fetch req) \<noteq> None) \<and>
    accessToken b' = (if genuine_callback code state b \<and> issued_token (fetch req) \<noteq> None
           then issued_token (fetch req) else accessToken b)"
  proof (cases "genuine_callback code state b")
    case True
    define c where "c = b\<lparr>sessionStorage := AList.delete PKCE_VERIFIER_KEY (AList.delete OAUTH_STATE_KEY (sessionStorage b))\<rparr>"
    have eq: "requests = [req]" "r = fst (token_exchange (fetch req) pageUrl c)" "b' = snd (token_exchange (fetch req) pageUrl c)"
      using assms(1) callback_genuine [OF True assms(2)] by (auto simp: c_def split: prod.splits)
    show ?thesis
    proof (cases "issued_token (fetch req)")
      case None
      with token_exchange_refused [OF None, of pageUrl c] True eq show ?thesis by (auto simp: c_def)
    next
      case (Some token)
      with token_exchange_issued [OF Some, of pageUrl c] True eq show ?thesis by simp
    qed
  next
    case False
    with callback_spurious [OF False, of broker pageUrl fetch] assms(1) show ?thesis by auto
  qed
  then show "requests = (if genuine_callback code state b then [req] else [])"
    "r = Handled None \<longleftrightarrow> genuine_callback code state b \<and> issued_token (fetch req) \<noteq> None"
    "accessToken b' = (if genuine_callback code state b \<and> issued_token (fetch req) \<noteq> None
           then issued_token (fetch req) else accessToken b)" by auto
qed

text \<open>C33. Only a genuine callback authenticates: the token endpoint is asked, with the verifier of this tab, exactly when
  the callback carries a code, this tab stored a verifier and a state, and the state matches the one stored; the callback succeeds exactly when moreover the endpoint issued an access
  token without a refresh token, and then that token is the one held. In every other case the token held before stays.\<close>

theorem oauth_callback_authenticates:
  assumes "handleOAuthCallback broker pageUrl fetch code state b = (r, requests, b')"
    and "req = token_request broker pageUrl (the code) (the (map_of (sessionStorage b) PKCE_VERIFIER_KEY))"
  shows "(requests = (if genuine_callback code state b then [req] else []))
    \<and> (r = Handled None \<longleftrightarrow> genuine_callback code state b \<and> issued_token (fetch req) \<noteq> None)
    \<and> (accessToken b' = (if genuine_callback code state b \<and> issued_token (fetch req) \<noteq> None
           then issued_token (fetch req) else accessToken b))"
  using oauth_callback_authenticates_parts [OF assms] by blast

lemma base64_digit_not_pad: "n < 64 \<Longrightarrow> base64_digit n \<noteq> CHR ''=''"
proof
  assume "n < 64" "base64_digit n = CHR ''=''"
  then have "of_char (base64_digit n) = (61 :: nat)" by simp
  with \<open>n < 64\<close> show False by (simp add: base64_digit_def of_char_of split: if_splits)
qed

lemma base64url_not_Nil: "bytes \<noteq> [] \<Longrightarrow> hd bytes < 256 \<Longrightarrow> base64url bytes \<noteq> []"
proof -
  assume b: "bytes \<noteq> []" "hd bytes < 256"
  then have "base64_digit (hd bytes div 4) \<in> set (btoa bytes)" by (cases bytes rule: btoa.cases) auto
  moreover have "base64_digit (hd bytes div 4) \<noteq> CHR ''=''" using b by (intro base64_digit_not_pad) simp
  ultimately have "\<exists>c\<in>set (btoa bytes). c \<noteq> CHR ''=''" by blast
  then obtain c where c: "c \<in> set (btoa bytes)" "c \<noteq> CHR ''=''" by blast
  define f where "f = (\<lambda>c. if c = CHR ''/'' then CHR ''_'' else c)"
  define g where "g = (\<lambda>c. if c = CHR ''+'' then CHR ''-'' else c)"
  have "f (g c) \<noteq> CHR ''=''" using c(2) by (simp add: f_def g_def)
  moreover have "f (g c) \<in> set (map f (map g (btoa bytes)))" using c(1) by simp
  ultimately have "dropWhile (\<lambda>c. c = CHR ''='') (rev (map f (map g (btoa bytes)))) \<noteq> []"
    by (simp only: dropWhile_eq_Nil_conv set_rev) blast
  then show ?thesis unfolding base64url_def f_def g_def by (simp only: rev_is_Nil_conv not_False_eq_True)
qed

lemma oauth_login_callback_once_parts:
  assumes "login = redirectToBrokerLogin broker client origin sha256 verifierBytes stateBytes b"
    and "verifierBytes \<noteq> []" and "hd verifierBytes < 256" and "stateBytes \<noteq> []" and "hd stateBytes < 256" and "code \<noteq> []"
    and "handleOAuthCallback broker pageUrl fetch (Some code) (Some (generateState stateBytes)) login = (r, requests, b')"
  shows "requests = [token_request broker pageUrl code (base64url verifierBytes)]"
    and "handleOAuthCallback broker pageUrl fetch (Some code) (Some (generateState stateBytes)) b' =
      (Handled (Some ''oauth_state_mismatch''), [], b')"
proof -
  define st where "st = Some (generateState stateBytes)"
  have stored: "map_of (sessionStorage login) OAUTH_STATE_KEY = st"
    "map_of (sessionStorage login) PKCE_VERIFIER_KEY = Some (base64url verifierBytes)"
    by (simp_all add: assms(1) redirectToBrokerLogin_def generatePkce_def Let_def update_conv' st_def)
  have g: "genuine_callback (Some code) st login"
    using stored base64url_not_Nil assms(2-6) by (simp add: genuine_callback_def st_def generateState_def)
  have cb: "handleOAuthCallback broker pageUrl fetch (Some code) st login = (r, requests, b')"
    using assms(7) by (simp add: st_def)
  show "requests = [token_request broker pageUrl code (base64url verifierBytes)]"
    using cb callback_genuine [OF g refl, of broker pageUrl fetch] stored by (auto split: prod.splits)
  have "sessionStorage b' = AList.delete PKCE_VERIFIER_KEY (AList.delete OAUTH_STATE_KEY (sessionStorage login))"
    by (rule callback_storage [OF g cb])
  then have none: "map_of (sessionStorage b') OAUTH_STATE_KEY = None" by (simp add: delete_conv')
  then have "AList.delete OAUTH_STATE_KEY (sessionStorage b') = sessionStorage b'"
    by (simp add: map_of_eq_None_iff delete_id)
  with none assms(4-6) base64url_not_Nil
  show "handleOAuthCallback broker pageUrl fetch (Some code) (Some (generateState stateBytes)) b' =
      (Handled (Some ''oauth_state_mismatch''), [], b')"
    by (auto simp: handleOAuthCallback_def generateState_def Let_def)
qed

text \<open>Logging in and coming back works, once. After the redirect to the broker, the callback with the state of the
  redirect is genuine, so the code is exchanged with the verifier of that redirect; the same callback a second time makes
  no request, is refused as a state mismatch, and keeps the token.\<close>

theorem oauth_login_callback_once:
  assumes "login = redirectToBrokerLogin broker client origin sha256 verifierBytes stateBytes b"
    and "verifierBytes \<noteq> []" and "hd verifierBytes < 256" and "stateBytes \<noteq> []" and "hd stateBytes < 256" and "code \<noteq> []"
    and "handleOAuthCallback broker pageUrl fetch (Some code) (Some (generateState stateBytes)) login = (r, requests, b')"
  shows "(requests = [token_request broker pageUrl code (base64url verifierBytes)])
    \<and> (handleOAuthCallback broker pageUrl fetch (Some code) (Some (generateState stateBytes)) b' =
      (Handled (Some ''oauth_state_mismatch''), [], b'))"
  using oauth_login_callback_once_parts [OF assms] by blast

lemma csrf_of_part_iff:
  "csrf_of_part part = Some t \<longleftrightarrow> trim part = CSRF_COOKIE @ CHR ''='' # t \<and> CSRF_TOKEN_PATTERN t"
proof
  assume "csrf_of_part part = Some t"
  then obtain i where i: "find_index (\<lambda>c. c = CHR ''='') (trim part) = Some i" "take i (trim part) = CSRF_COOKIE"
      "drop (i + 1) (trim part) = t" "CSRF_TOKEN_PATTERN t"
    by (auto simp: csrf_of_part_def Let_def split: option.splits if_splits)
  have "trim part ! i = CHR ''=''" using find_index_Some [OF i(1)] by simp
  with find_index_split [OF i(1)] i show "trim part = CSRF_COOKIE @ CHR ''='' # t \<and> CSRF_TOKEN_PATTERN t" by simp
next
  assume a: "trim part = CSRF_COOKIE @ CHR ''='' # t \<and> CSRF_TOKEN_PATTERN t"
  have "find_index (\<lambda>c. c = CHR ''='') (CSRF_COOKIE @ CHR ''='' # t) = Some 20" by (simp add: CSRF_COOKIE_def)
  with a show "csrf_of_part part = Some t" by (simp add: csrf_of_part_def Let_def CSRF_COOKIE_def)
qed

lemma first_some_iff:
  "first_some f xs = Some y \<longleftrightarrow> (\<exists>pre x post. xs = pre @ x # post \<and> f x = Some y \<and> (\<forall>z\<in>set pre. f z = None))"
proof (induction xs)
  case (Cons a xs)
  show ?case
  proof (cases "f a")
    case None
    then have "first_some f (a # xs) = Some y \<longleftrightarrow> first_some f xs = Some y" by simp
    also have "\<dots> \<longleftrightarrow> (\<exists>pre x post. a # xs = pre @ x # post \<and> f x = Some y \<and> (\<forall>z\<in>set pre. f z = None))"
      unfolding Cons.IH using None by (auto simp: Cons_eq_append_conv) (metis append_Cons set_ConsD)+
    finally show ?thesis .
  next
    case (Some b)
    then have "first_some f (a # xs) = Some y \<longleftrightarrow> b = y" by simp
    also have "\<dots> \<longleftrightarrow> (\<exists>pre x post. a # xs = pre @ x # post \<and> f x = Some y \<and> (\<forall>z\<in>set pre. f z = None))"
      using Some by (metis append_Nil empty_iff list.set(1) option.distinct(1) option.inject append_eq_Cons_conv list.set_intros(1) list.inject)
    finally show ?thesis .
  qed
qed simp

text \<open>The CSRF header carries the value of the first cookie that is named exactly as the CSRF cookie and holds 64
  lower-case hexadecimal digits, and there is none when no cookie does.\<close>

theorem csrf_token_exact:
  "csrfTokenFromCookie cookies = Some t \<longleftrightarrow>
     CSRF_TOKEN_PATTERN t \<and>
     (\<exists>pre part post. split_on (CHR '';'') cookies = pre @ part # post \<and> trim part = CSRF_COOKIE @ ''='' @ t \<and>
        (\<forall>p\<in>set pre. \<forall>u. CSRF_TOKEN_PATTERN u \<longrightarrow> trim p \<noteq> CSRF_COOKIE @ ''='' @ u))"
proof -
  have "csrf_of_part p = None \<longleftrightarrow> (\<forall>u. CSRF_TOKEN_PATTERN u \<longrightarrow> trim p \<noteq> CSRF_COOKIE @ ''='' @ u)" for p
    using csrf_of_part_iff [of p] by (cases "csrf_of_part p") auto
  then show ?thesis by (auto simp: csrfTokenFromCookie_def first_some_iff csrf_of_part_iff)
qed

text \<open>The exchange names a fixed client, whatever client the login was configured with.\<close>

theorem callback_ignores_client_setting:
  "resolveClientId (Some ''atlas'') = ''atlas'' \<and>
   map_of (snd (token_request broker pageUrl code verifier)) ''client_id'' = Some ''mock-client''"
  by (simp add: resolveClientId_def configured_def token_request_def trim_def js_ws_def)

section \<open>A concrete sign-in\<close>

definition ex_browser :: browser where
  "ex_browser = \<lparr>sessionStorage = [], accessToken = None, address = ''https://a/''\<rparr>"

definition ex_login :: browser where
  "ex_login = redirectToBrokerLogin None None ''https://a'' (\<lambda>s. [1, 2, 3]) [7] [9] ex_browser"

definition ex_fetch :: "token_request \<Rightarrow> token_answer" where
  "ex_fetch req = Answer 200 (Some (JObj [(''access_token'', JStr ''jwt'')]))"

theorem oauth_callback_authenticates_witness:
  "\<exists>r requests b'. handleOAuthCallback None ''https://a/'' ex_fetch (Some ''c'') (Some (generateState [9])) ex_login = (r, requests, b') \<and>
     r = Handled None \<and> accessToken b' = Some ''jwt''"
proof -
  obtain r requests b' where
    cb: "handleOAuthCallback None ''https://a/'' ex_fetch (Some ''c'') (Some (generateState [9])) ex_login = (r, requests, b')"
    by (metis prod_cases3)
  have "genuine_callback (Some ''c'') (Some (generateState [9])) ex_login" by code_simp
  moreover have "issued_token (ex_fetch q) = Some ''jwt''" for q by (simp add: ex_fetch_def issued_token_def)
  ultimately show ?thesis using cb oauth_callback_authenticates [OF cb refl] by auto
qed

theorem oauth_login_callback_once_witness:
  "\<exists>r requests b'. handleOAuthCallback None ''https://a/'' ex_fetch (Some ''c'') (Some (generateState [9])) ex_login = (r, requests, b') \<and>
     requests = [token_request None ''https://a/'' ''c'' (base64url [7])]"
proof -
  obtain r requests b' where
    cb: "handleOAuthCallback None ''https://a/'' ex_fetch (Some ''c'') (Some (generateState [9])) ex_login = (r, requests, b')"
    by (metis prod_cases3)
  from oauth_login_callback_once [OF ex_login_def _ _ _ _ _ cb] cb show ?thesis by simp
qed

theorem csrf_token_exact_witness:
  "csrfTokenFromCookie (''a=b; Sui-Sensemaking-Csrf='' @ replicate 64 (CHR ''0'')) = Some (replicate 64 (CHR ''0''))"
proof -
  have "split_on (CHR '';'') (''a=b; Sui-Sensemaking-Csrf='' @ replicate 64 (CHR ''0'')) =
      [''a=b''] @ ('' Sui-Sensemaking-Csrf='' @ replicate 64 (CHR ''0'')) # []"
    "CSRF_TOKEN_PATTERN (replicate 64 (CHR ''0''))"
    "trim ('' Sui-Sensemaking-Csrf='' @ replicate 64 (CHR ''0'')) = CSRF_COOKIE @ ''='' @ replicate 64 (CHR ''0'')"
    "trim ''a=b'' = ''a=b''"
    by code_simp+
  then show ?thesis
    unfolding csrf_token_exact by (auto simp: CSRF_COOKIE_def intro!: exI [of _ "[''a=b'']"])
qed

end
