(* ===== verification/Document_Write.thy ===== *)
theory Document_Write
  imports Document_Json
begin

text \<open>
  A whole document as the JavaScript object that \<open>JSON.stringify\<close> writes. \<open>Document_Json\<close> has the entities a patch
  can name; here are the other records of \<open>domain/types.ts\<close> (shelf, narratives and their checks, review records,
  merge decisions, the patch log, voids) and \<open>document_json\<close>. An absent optional property gives no entry.
\<close>

section \<open>Enumerations\<close>

fun diff_op_type_str :: "diff_op_type \<Rightarrow> string" where
  "diff_op_type_str DAdd = ''add''"
| "diff_op_type_str DRemove = ''remove''"
| "diff_op_type_str DMove = ''move''"
| "diff_op_type_str DRegroup = ''regroup''"
| "diff_op_type_str DRelabel = ''relabel''"

fun severity_str :: "check_severity \<Rightarrow> string" where
  "severity_str CkInfo = ''info''"
| "severity_str CkWarn = ''warn''"
| "severity_str CkError = ''error''"

fun direction_str :: "check_direction \<Rightarrow> string" where
  "direction_str B_missing_in_A = ''b_missing_in_a''"
| "direction_str A_missing_in_B = ''a_missing_in_b''"

fun void_kind_str :: "void_kind \<Rightarrow> string" where
  "void_kind_str UnintegratedCard = ''unintegrated_card''"
| "void_kind_str OrphanedIsland = ''orphaned_island''"
| "void_kind_str UnspokenIsland = ''unspoken_island''"
| "void_kind_str UnexplainedRelation = ''unexplained_relation''"
| "void_kind_str UnreviewedContent = ''unreviewed_content''"

fun signal_status_str :: "signal_review_status \<Rightarrow> string" where
  "signal_status_str SigAccepted = ''accepted''"
| "signal_status_str SigHeld = ''held''"
| "signal_status_str SigRejected = ''rejected''"

fun merge_decision_str :: "merge_decision \<Rightarrow> string" where
  "merge_decision_str Accept = ''accept''"
| "merge_decision_str Partial = ''partial''"
| "merge_decision_str Reject = ''reject''"
| "merge_decision_str Defer = ''defer''"

fun merge_method_str :: "merge_method \<Rightarrow> string" where
  "merge_method_str NearDuplicate = ''near_duplicate''"
| "merge_method_str KernelFusion = ''kernel_fusion''"

fun resolved_by_str :: "resolved_by \<Rightarrow> string" where
  "resolved_by_str ByRepOf = ''repOf''"
| "resolved_by_str ByMergedIntoCardId = ''mergedIntoCardId''"
| "resolved_by_str ByFallback = ''fallback''"
| "resolved_by_str Unresolved = ''unresolved''"

section \<open>Records\<close>

definition jnat :: "nat \<Rightarrow> json" where
  "jnat n = jrat (of_nat n)"

definition jlist :: "('a \<Rightarrow> json) \<Rightarrow> 'a list \<Rightarrow> json" where
  "jlist f xs = JArr (map f xs)"

definition card_json :: "card \<Rightarrow> json" where
  "card_json c = obj (card_fields c)"

definition edge_json :: "edge \<Rightarrow> json" where
  "edge_json e = obj (edge_fields e)"

definition island_json :: "island \<Rightarrow> json" where
  "island_json i = obj (island_fields i)"

definition link_json :: "evidence_link \<Rightarrow> json" where
  "link_json l = obj (link_fields l)"

definition relation_json :: "relation_summary \<Rightarrow> json" where
  "relation_json r = obj (relation_fields r)"

definition transform_json :: "transform \<Rightarrow> json" where
  "transform_json t = obj [req ''panX'' (jrat (panX t)), req ''panY'' (jrat (panY t)), req ''zoom'' (jrat (zoom t))]"

definition shelf_json :: "shelf_entry \<Rightarrow> json" where
  "shelf_json e = obj [req ''cardId'' (JStr (shelf_cardId e)), req ''shelvedAt'' (JStr (shelvedAt e)), opt ''reason'' JStr (shelf_reason e)]"

definition critique_json :: "critique_input \<Rightarrow> json" where
  "critique_json c = obj
     [req ''schemaVersion'' (JStr ''1.0.0''), req ''critiqueId'' (JStr (critiqueId c)), req ''targetRef'' (JStr (critique_targetRef c)),
      req ''critiqueType'' (JStr (critiqueType c)), req ''createdAt'' (JStr (critique_createdAt c)),
      req ''iteration'' (jrat (critique_iteration c)), opt ''comment'' JStr (critique_comment c),
      opt ''constraintHints'' jstrs (constraintHints c)]"

definition diff_op_json :: "reproposal_diff_op \<Rightarrow> json" where
  "diff_op_json q = obj
     [req ''opId'' (JStr (diffOp_id q)), req ''opType'' (JStr (diff_op_type_str (diffOp_type q))), req ''targetRef'' (JStr (diffOp_targetRef q)),
      req ''before'' (nullable JObj (diffOp_before q)), req ''after'' (nullable JObj (diffOp_after q)),
      opt ''rationale'' JStr (diffOp_rationale q)]"

definition diff_json :: "reproposal_diff \<Rightarrow> json" where
  "diff_json p = obj
     [req ''schemaVersion'' (JStr ''1.0.0''), req ''proposalId'' (JStr (proposalId p)), req ''basedOnIteration'' (jrat (basedOnIteration p)),
      req ''diffOps'' (jlist diff_op_json (diffOps p)), req ''traceKey'' (JStr (traceKey p)), opt ''rationale'' JStr (diff_rationale p)]"

definition attribution_json :: "review_attribution \<Rightarrow> json" where
  "attribution_json a = obj
     [req ''schemaVersion'' (JStr ''1.0.0''), req ''reviewState'' (JStr (if human_reviewed a then ''human_reviewed'' else ''unreviewed'')),
      req ''reviewedAt'' (nullable JStr (reviewedAt a)), req ''reviewerRef'' (JStr (reviewerRef a)),
      req ''auditRecordedAt'' (JStr (auditRecordedAt a)), req ''overridePolicy'' (JStr ''human_dual_control_only''),
      opt ''reviewContext'' JStr (reviewContext a), opt ''ownerRef'' JStr (ownerRef a)]"

definition reference_json :: "string \<times> endpoint_kind \<Rightarrow> json" where
  "reference_json x = obj [req ''id'' (JStr (fst x)), req ''kind'' (JStr (endpoint_kind_str (snd x)))]"

definition check_issue_json :: "narrative_check_issue \<Rightarrow> json" where
  "check_issue_json i = obj
     [req ''severity'' (JStr (severity_str (ck_severity i))), req ''message'' (JStr (ck_message i)),
      opt ''references'' (jlist reference_json) (ck_references i),
      opt ''direction'' (\<lambda>d. JStr (direction_str d)) (ck_direction i)]"

definition counts_json :: "rat \<times> rat \<Rightarrow> json" where
  "counts_json x = obj [req ''bMissingInA'' (jrat (fst x)), req ''aMissingInB'' (jrat (snd x))]"

definition check_json :: "narrative_check \<Rightarrow> json" where
  "check_json c = obj
     [req ''id'' (JStr (ck_id c)), req ''createdAt'' (JStr (ck_createdAt c)), req ''kind'' (JStr ''consistency''),
      req ''issues'' (jlist check_issue_json (ck_issues c)), opt ''counts'' counts_json (ck_counts c)]"

definition narrative_json :: "narrative \<Rightarrow> json" where
  "narrative_json n = obj
     [req ''id'' (JStr (narr_id n)), req ''title'' (JStr (narr_title n)), req ''text'' (JStr (narr_text n)),
      opt ''createdAt'' JStr (narr_createdAt n), opt ''basedOnReadingOrder'' jstrs (basedOnReadingOrder n),
      req ''reviewed'' (JBool (narr_reviewed n)), opt ''checks'' (jlist check_json) (narr_checks n)]"

definition void_json :: "void_entry \<Rightarrow> json" where
  "void_json v = obj
     [req ''id'' (JStr (void_id v)), req ''kind'' (JStr (void_kind_str (void_kind_of v))), req ''title'' (JStr (void_title v)),
      req ''detail'' (JStr (void_detail v)), opt ''cardIds'' jstrs (void_cardIds v), opt ''islandIds'' jstrs (void_islandIds v),
      opt ''resolved'' JBool (void_resolved v), req ''createdAt'' (JStr (void_createdAt v))]"

definition signal_json :: "signal_decision \<Rightarrow> json" where
  "signal_json s = obj
     [req ''signatureKey'' (JStr (signatureKey s)), req ''status'' (JStr (signal_status_str (sig_status s))),
      req ''decidedAt'' (JStr (sig_decidedAt s))]"

definition merge_decision_json :: "merge_decision_entry \<Rightarrow> json" where
  "merge_decision_json e = obj
     [req ''id'' (JStr (dec_id e)), opt ''decisionId'' JStr (decisionId e), req ''groupId'' (JStr (groupId e)),
      req ''decision'' (JStr (merge_decision_str (decision e))), opt ''action'' (\<lambda>a. JStr (merge_decision_str a)) (dec_action e),
      req ''decidedAt'' (JStr (decidedAt e)), opt ''decidedBy'' JStr (decidedBy e), req ''cardIds'' (jstrs (dec_cardIds e)),
      opt ''selectedCardIds'' jstrs (selectedCardIds e), req ''mergedTextDraft'' (JStr (mergedTextDraft e)),
      req ''editedText'' (JStr (editedText e)), opt ''note'' JStr (dec_note e), opt ''snapshotVersion'' JStr (snapshotVersion e),
      opt ''rationale'' JStr (rationale e), opt ''mergeMethod'' (\<lambda>m. JStr (merge_method_str m)) (mergeMethod e),
      opt ''representativeCardId'' JStr (representativeCardId e),
      opt ''representativeResolvedBy'' (\<lambda>r. JStr (resolved_by_str r)) (representativeResolvedBy e),
      opt ''sourceCardIds'' jstrs (sourceCardIds e), opt ''missingSourceCardIds'' jstrs (missingSourceCardIds e)]"

definition stats_json :: "patch_stats \<Rightarrow> json" where
  "stats_json s = obj
     [req ''upsertCards'' (jnat (upsertCards s)), req ''deleteCards'' (jnat (deleteCards s)),
      req ''upsertIslands'' (jnat (upsertIslands s)), req ''deleteIslands'' (jnat (deleteIslands s)),
      req ''upsertEdges'' (jnat (upsertEdges s)), req ''deleteEdges'' (jnat (deleteEdges s)),
      req ''upsertRelationSummaries'' (jnat (upsertRelationSummaries s)), req ''deleteRelationSummaries'' (jnat (deleteRelationSummaries s)),
      req ''upsertEvidenceLinks'' (jnat (upsertEvidenceLinks s)), req ''deleteEvidenceLinks'' (jnat (deleteEvidenceLinks s))]"

definition conflict_meta_json :: "conflict_meta \<Rightarrow> json" where
  "conflict_meta_json m = obj
     [req ''totalConflicts'' (jnat (totalConflicts m)), req ''chosenYours'' (jnat (chosenYours m)),
      req ''chosenTheirs'' (jnat (chosenTheirs m)), req ''chosenSkip'' (jnat (chosenSkip m))]"

definition log_json :: "patch_log_entry \<Rightarrow> json" where
  "log_json e = obj
     [req ''id'' (JStr (log_id e)), req ''createdAt'' (JStr (log_createdAt e)), req ''patchVersion'' (JStr (patchVersion e)),
      opt ''patchTitle'' JStr (log_patchTitle e), opt ''baseDocSignature'' JStr (log_baseDocSignature e),
      opt ''patchSourceSignature'' JStr (patchSourceSignature e), req ''appliedOpIds'' (jstrs (log_appliedOpIds e)),
      req ''stats'' (stats_json (log_stats e)), opt ''conflictMeta'' conflict_meta_json (log_conflictMeta e),
      opt ''note'' JStr (log_note e)]"

definition tie_break_json :: "string list \<Rightarrow> json" where
  "tie_break_json order = obj [req ''schemaVersion'' (JStr ''1.0.0''), req ''order'' (jstrs order)]"

section \<open>The document\<close>

definition document_fields :: "document \<Rightarrow> fields" where
  "document_fields d =
     [req ''version'' (jnat 1), req ''id'' (JStr (doc_id d)), opt ''title'' JStr (doc_title d),
      req ''createdAt'' (JStr (doc_createdAt d)), req ''updatedAt'' (JStr (updatedAt d)), req ''transform'' (transform_json (doc_transform d)),
      req ''cards'' (jlist card_json (cards d)), req ''edges'' (jlist edge_json (edges d)), req ''islands'' (jlist island_json (islands d)),
      opt ''readingOrder'' jstrs (readingOrder d), opt ''narratives'' (jlist narrative_json) (narratives d),
      opt ''relationSummaries'' (jlist relation_json) (relationSummaries d), opt ''evidenceLinks'' (jlist link_json) (evidenceLinks d),
      opt ''patchApplyLog'' (jlist log_json) (patchApplyLog d),
      opt ''mergeSuggestionDecisions'' (jlist merge_decision_json) (mergeSuggestionDecisions d),
      opt ''critiqueInputs'' (jlist critique_json) (critiqueInputs d), opt ''reproposalDiffs'' (jlist diff_json) (reproposalDiffs d),
      opt ''reviewAttribution'' attribution_json (reviewAttribution d), opt ''deterministicTieBreak'' tie_break_json (deterministicTieBreak d),
      opt ''shelf'' (jlist shelf_json) (shelf d), opt ''contradictionSignalDecisions'' (jlist signal_json) (signalDecisions d),
      opt ''voids'' (jlist void_json) (voids d)]"

definition document_json :: "document \<Rightarrow> json" where
  "document_json d = obj (document_fields d)"

end
