(* ===== verification/Safe_Mode_Document.thy ===== *)
theory Safe_Mode_Document
  imports Safe_Mode Document_Write
begin

text \<open>
  \<open>domain/inquiry_bundle_safe_mode.ts\<close>, first part: the SafeMode projection of a document, in which every free text is
  replaced by a placeholder. The \<open>sanitize\<close> functions rebuild each record field by field; the tables \<open>X_FIELDS\<close> say what is
  meant to happen to each persisted field (\<open>preserve\<close>, \<open>redact\<close>, \<open>omit\<close>, \<open>rebuild\<close>). The source keeps the tables as
  declarations only; here they are given a meaning (\<open>by_table\<close>, on JSON values), and \<open>projection_follows_tables\<close> shows that
  the functions do what the tables say, but for three fields.
\<close>

section \<open>Placeholders\<close>

definition decimal_digit :: "char \<Rightarrow> bool" where
  "decimal_digit c \<longleftrightarrow> c \<in> set ''0123456789''"

text \<open>The pattern \<open>^\[REDACTED\](?: \(len:\d+\))?$\<close>.\<close>

definition already_redacted :: "string \<Rightarrow> bool" where
  "already_redacted s \<longleftrightarrow> s = REDACTED \<or>
     (let p = REDACTED @ '' (len:''; rest = drop (length p) s in
      starts_with p s \<and> rest \<noteq> [] \<and> last rest = CHR '')'' \<and> butlast rest \<noteq> [] \<and> list_all decimal_digit (butlast rest))"

definition redact :: "string \<Rightarrow> string" where
  "redact value = (if already_redacted value then value else redactText value True)"

definition redactNullable :: "string option \<Rightarrow> string option" where
  "redactNullable value = (case value of None \<Rightarrow> None | Some v \<Rightarrow> Some (redact v))"

section \<open>The sanitizers\<close>

definition cloneTransform :: "transform \<Rightarrow> transform" where
  "cloneTransform t = \<lparr>panX = panX t, panY = panY t, zoom = zoom t\<rparr>"

definition sanitizeCardMeta :: "card_meta \<Rightarrow> bool \<Rightarrow> card_meta option" where
  "sanitizeCardMeta m includeSourceReferences =
     (let sanitized = \<lparr>meta_seq = meta_seq m, meta_source = (if includeSourceReferences then meta_source m else None)\<rparr>
      in if meta_seq sanitized = None \<and> meta_source sanitized = None then None else Some sanitized)"

definition sanitizeCardKa :: "card_ka \<Rightarrow> card_ka" where
  "sanitizeCardKa k = \<lparr>ka_voice = map_option redact (ka_voice k), ka_value = map_option redact (ka_value k)\<rparr>"

definition sanitizeCard :: "card \<Rightarrow> bool \<Rightarrow> card" where
  "sanitizeCard c includeSourceReferences =
     \<lparr>card_id = card_id c, card_text = redact (card_text c), card_x = card_x c, card_y = card_y c, claimType = claimType c,
      mergedIntoCardId = mergedIntoCardId c, repOf = repOf c, canonicalId = canonicalId c, sources = sources c,
      card_critique = map_option redact (card_critique c), card_critiqueTags = map_option (map redact) (card_critiqueTags c),
      textReviewed = textReviewed c, holdState = holdState c,
      card_meta_of = (case card_meta_of c of None \<Rightarrow> None | Some m \<Rightarrow> sanitizeCardMeta m includeSourceReferences),
      card_ka_of = map_option sanitizeCardKa (card_ka_of c)\<rparr>"

definition sanitizeEdge :: "edge \<Rightarrow> edge" where
  "sanitizeEdge e = \<lparr>edge_id = edge_id e, fromId = fromId e, toId = toId e, fromKind = fromKind e, toKind = toKind e,
     edge_type = resolveKnownEdgeType (edge_type e)\<rparr>"

definition clonePoint :: "point \<Rightarrow> point" where
  "clonePoint p = \<lparr>pt_x = pt_x p, pt_y = pt_y p\<rparr>"

fun cloneGeometry :: "island_geometry \<Rightarrow> island_geometry" where
  "cloneGeometry (PolygonGeometry ps) = PolygonGeometry (map clonePoint ps)"
| "cloneGeometry (RectGeometry x y w h) = RectGeometry x y w h"

definition sanitizeShapeGeneratedFrom :: "shape_generated_from \<Rightarrow> shape_generated_from" where
  "sanitizeShapeGeneratedFrom g = \<lparr>gen_cardIds = gen_cardIds g, versionToken = redact (versionToken g)\<rparr>"

fun sanitizeShape :: "island_shape \<Rightarrow> island_shape" where
  "sanitizeShape (PolygonShape ps g) = PolygonShape (map clonePoint ps) (map_option sanitizeShapeGeneratedFrom g)"
| "sanitizeShape (RectShape g) = RectShape (map_option sanitizeShapeGeneratedFrom g)"

definition sanitizeSummaryHistory :: "summary_history_entry \<Rightarrow> summary_history_entry" where
  "sanitizeSummaryHistory e =
     \<lparr>she_id = she_id e, she_createdAt = she_createdAt e, she_fromText = redactNullable (she_fromText e),
      she_toText = redactNullable (she_toText e), she_fromReviewed = she_fromReviewed e, she_toReviewed = she_toReviewed e,
      she_changeKind = she_changeKind e, she_note = map_option redact (she_note e), she_groundingIds = she_groundingIds e\<rparr>"

definition sanitizeRepresentativeCue :: "visual_cue \<Rightarrow> visual_cue" where
  "sanitizeRepresentativeCue q =
     \<lparr>cue_kind_of = cue_kind_of q, cueId = cueId q, altText = redact (altText q), imageRef = imageRef q\<rparr>"

definition sanitizeIsland :: "island \<Rightarrow> island" where
  "sanitizeIsland i =
     \<lparr>island_id = island_id i, cardIds = cardIds i, parentIslandId = parentIslandId i, placardCardId = placardCardId i,
      collapsed = collapsed i, island_title = map_option redact (island_title i), titleReviewed = titleReviewed i,
      summaryText = map_option redact (summaryText i), summaryReviewed = summaryReviewed i, summaryGrounding = summaryGrounding i,
      summaryHistory = map_option (map sanitizeSummaryHistory) (summaryHistory i), imageUrl = None, imageReviewed = None,
      island_critique = map_option redact (island_critique i), island_critiqueTags = map_option (map redact) (island_critiqueTags i),
      geometry = map_option cloneGeometry (geometry i), shape = map_option sanitizeShape (shape i), shapeStale = shapeStale i,
      representativeCue = map_option sanitizeRepresentativeCue (representativeCue i)\<rparr>"

definition sanitizeEvidenceLink :: "evidence_link \<Rightarrow> evidence_link" where
  "sanitizeEvidenceLink l =
     \<lparr>link_id = link_id l, link_type = link_type l, fromCardId = fromCardId l, toCardId = toCardId l,
      link_note = map_option redact (link_note l), link_createdAt = link_createdAt l, contradictionState = contradictionState l\<rparr>"

definition sanitizeCritiqueInput :: "critique_input \<Rightarrow> critique_input" where
  "sanitizeCritiqueInput c =
     \<lparr>critiqueId = critiqueId c, critique_targetRef = critique_targetRef c, critiqueType = critiqueType c,
      critique_createdAt = critique_createdAt c, critique_iteration = critique_iteration c,
      critique_comment = map_option redact (critique_comment c), constraintHints = map_option (map redact) (constraintHints c)\<rparr>"

definition sanitizeReviewAttribution :: "review_attribution \<Rightarrow> review_attribution" where
  "sanitizeReviewAttribution a =
     \<lparr>human_reviewed = human_reviewed a, reviewedAt = reviewedAt a, reviewerRef = redact (reviewerRef a),
      auditRecordedAt = auditRecordedAt a, reviewContext = map_option redact (reviewContext a), ownerRef = None\<rparr>"

definition cloneNarrativeReference :: "string \<times> endpoint_kind \<Rightarrow> string \<times> endpoint_kind" where
  "cloneNarrativeReference x = (fst x, snd x)"

definition sanitizeNarrativeIssue :: "narrative_check_issue \<Rightarrow> narrative_check_issue" where
  "sanitizeNarrativeIssue i =
     \<lparr>ck_severity = ck_severity i, ck_message = redact (ck_message i),
      ck_references = map_option (map cloneNarrativeReference) (ck_references i), ck_direction = None\<rparr>"

definition sanitizeNarrativeCheck :: "narrative_check \<Rightarrow> narrative_check" where
  "sanitizeNarrativeCheck c =
     \<lparr>ck_id = ck_id c, ck_createdAt = ck_createdAt c, ck_issues = map sanitizeNarrativeIssue (ck_issues c), ck_counts = None\<rparr>"

definition sanitizeNarrative :: "narrative \<Rightarrow> narrative" where
  "sanitizeNarrative n =
     \<lparr>narr_id = narr_id n, narr_title = redact (narr_title n), narr_text = redact (narr_text n), narr_createdAt = narr_createdAt n,
      basedOnReadingOrder = basedOnReadingOrder n, narr_reviewed = narr_reviewed n,
      narr_checks = map_option (map sanitizeNarrativeCheck) (narr_checks n)\<rparr>"

definition sanitizeRelationHistory :: "relation_history_entry \<Rightarrow> relation_history_entry" where
  "sanitizeRelationHistory e =
     \<lparr>rhe_id = rhe_id e, rhe_createdAt = rhe_createdAt e, rhe_changeKind = rhe_changeKind e,
      rhe_fromText = redactNullable (rhe_fromText e), rhe_toText = redactNullable (rhe_toText e),
      rhe_fromReviewed = rhe_fromReviewed e, rhe_toReviewed = rhe_toReviewed e,
      warningsSnapshot = map_option (map redact) (warningsSnapshot e), groundingCardIdsSnapshot = groundingCardIdsSnapshot e,
      groundingEdgeIdsSnapshot = groundingEdgeIdsSnapshot e, rhe_note = map_option redact (rhe_note e)\<rparr>"

definition sanitizeRelationSummary :: "relation_summary \<Rightarrow> relation_summary" where
  "sanitizeRelationSummary r =
     \<lparr>rel_id = rel_id r, rel_createdAt = rel_createdAt r, islandAId = islandAId r, islandBId = islandBId r,
      relationType = relationType r, derived = derived r, rel_text = redact (rel_text r), rel_reviewed = rel_reviewed r,
      groundingCardIds = groundingCardIds r, groundingEdgeIds = groundingEdgeIds r, rel_warnings = map_option (map redact) (rel_warnings r),
      sourceSignature = redact (sourceSignature r), rel_history = map_option (map sanitizeRelationHistory) (rel_history r)\<rparr>"

definition clonePatchStats :: "patch_stats \<Rightarrow> patch_stats" where
  "clonePatchStats s =
     \<lparr>upsertCards = upsertCards s, deleteCards = deleteCards s, upsertIslands = upsertIslands s, deleteIslands = deleteIslands s,
      upsertEdges = upsertEdges s, deleteEdges = deleteEdges s, upsertRelationSummaries = upsertRelationSummaries s,
      deleteRelationSummaries = deleteRelationSummaries s, upsertEvidenceLinks = upsertEvidenceLinks s,
      deleteEvidenceLinks = deleteEvidenceLinks s\<rparr>"

definition clonePatchConflictMeta :: "conflict_meta \<Rightarrow> conflict_meta" where
  "clonePatchConflictMeta m = \<lparr>totalConflicts = totalConflicts m, chosenYours = chosenYours m, chosenTheirs = chosenTheirs m,
     chosenSkip = chosenSkip m\<rparr>"

definition sanitizePatchLog :: "patch_log_entry \<Rightarrow> patch_log_entry" where
  "sanitizePatchLog e =
     \<lparr>log_id = log_id e, log_createdAt = log_createdAt e, patchVersion = patchVersion e,
      log_patchTitle = map_option redact (log_patchTitle e), log_baseDocSignature = None, patchSourceSignature = None,
      log_appliedOpIds = log_appliedOpIds e, log_stats = clonePatchStats (log_stats e),
      log_conflictMeta = map_option clonePatchConflictMeta (log_conflictMeta e), log_note = map_option redact (log_note e)\<rparr>"

definition sanitizeMergeDecision :: "merge_decision_entry \<Rightarrow> merge_decision_entry" where
  "sanitizeMergeDecision e =
     \<lparr>dec_id = dec_id e, decisionId = decisionId e, groupId = groupId e, decision = decision e, dec_action = dec_action e,
      decidedAt = decidedAt e, decidedBy = None, dec_cardIds = dec_cardIds e, selectedCardIds = selectedCardIds e,
      mergedTextDraft = redact (mergedTextDraft e), editedText = redact (editedText e), dec_note = map_option redact (dec_note e),
      snapshotVersion = map_option redact (snapshotVersion e), rationale = map_option redact (rationale e), mergeMethod = None,
      representativeCardId = representativeCardId e, representativeResolvedBy = representativeResolvedBy e,
      sourceCardIds = sourceCardIds e, missingSourceCardIds = missingSourceCardIds e\<rparr>"

text \<open>The tie-break record is its list \<open>order\<close>; the schema version is a constant.\<close>

definition cloneTieBreak :: "string list \<Rightarrow> string list" where
  "cloneTieBreak order = order"

definition sanitizeShelfEntry :: "shelf_entry \<Rightarrow> shelf_entry" where
  "sanitizeShelfEntry e =
     \<lparr>shelf_cardId = shelf_cardId e, shelvedAt = shelvedAt e, shelf_reason = map_option redact (shelf_reason e)\<rparr>"

definition sanitizeVoidEntry :: "void_entry \<Rightarrow> void_entry" where
  "sanitizeVoidEntry v =
     \<lparr>void_id = void_id v, void_kind_of = void_kind_of v, void_title = redact (void_title v), void_detail = redact (void_detail v),
      void_cardIds = void_cardIds v, void_islandIds = void_islandIds v, void_resolved = void_resolved v,
      void_createdAt = void_createdAt v\<rparr>"

text \<open>\<open>options.includeSourceReferences\<close>, absent by default.\<close>

definition deriveDocumentSafeModeProjection :: "bool option \<Rightarrow> document \<Rightarrow> document" where
  "deriveDocumentSafeModeProjection includeSourceReferences d =
     \<lparr>doc_id = doc_id d, doc_title = map_option redact (doc_title d), doc_createdAt = doc_createdAt d, updatedAt = updatedAt d,
      doc_transform = cloneTransform (doc_transform d),
      cards = map (\<lambda>c. sanitizeCard c (nullish includeSourceReferences False)) (cards d),
      edges = map sanitizeEdge (edges d), islands = map sanitizeIsland (islands d), readingOrder = readingOrder d,
      narratives = map_option (map sanitizeNarrative) (narratives d),
      relationSummaries = map_option (map sanitizeRelationSummary) (relationSummaries d),
      evidenceLinks = map_option (map sanitizeEvidenceLink) (evidenceLinks d),
      patchApplyLog = map_option (map sanitizePatchLog) (patchApplyLog d),
      mergeSuggestionDecisions = map_option (map sanitizeMergeDecision) (mergeSuggestionDecisions d),
      critiqueInputs = map_option (map sanitizeCritiqueInput) (critiqueInputs d), reproposalDiffs = None,
      reviewAttribution = map_option sanitizeReviewAttribution (reviewAttribution d),
      deterministicTieBreak = map_option cloneTieBreak (deterministicTieBreak d),
      shelf = map_option (map sanitizeShelfEntry) (shelf d), signalDecisions = None,
      voids = map_option (map sanitizeVoidEntry) (voids d)\<rparr>"

section \<open>The policy tables\<close>

datatype field_policy = Preserve | Redact | Omit | Rebuild

type_synonym policy_table = "(string \<times> field_policy) list"

definition DOCUMENT_FIELDS :: policy_table where
  "DOCUMENT_FIELDS =
    [(''version'', Preserve), (''id'', Preserve), (''title'', Redact), (''createdAt'', Preserve),
     (''updatedAt'', Preserve), (''transform'', Rebuild), (''cards'', Rebuild), (''edges'', Rebuild),
     (''islands'', Rebuild), (''readingOrder'', Preserve), (''narratives'', Rebuild), (''relationSummaries'', Rebuild),
     (''evidenceLinks'', Rebuild), (''patchApplyLog'', Rebuild), (''mergeSuggestionDecisions'', Rebuild),
     (''critiqueInputs'', Rebuild), (''reproposalDiffs'', Omit), (''reviewAttribution'', Rebuild),
     (''deterministicTieBreak'', Rebuild), (''shelf'', Rebuild), (''contradictionSignalDecisions'', Omit),
     (''voids'', Rebuild)]"

definition CARD_FIELDS :: policy_table where
  "CARD_FIELDS =
    [(''id'', Preserve), (''text'', Redact), (''x'', Preserve), (''y'', Preserve), (''claimType'', Preserve),
     (''mergedIntoCardId'', Preserve), (''repOf'', Preserve), (''canonicalId'', Preserve), (''sources'', Preserve),
     (''critique'', Redact), (''critiqueTags'', Redact), (''textReviewed'', Preserve), (''holdState'', Preserve),
     (''meta'', Rebuild), (''ka'', Rebuild)]"

definition CARD_META_FIELDS :: policy_table where
  "CARD_META_FIELDS =
    [(''seq'', Preserve), (''source'', Rebuild)]"

definition CARD_KA_FIELDS :: policy_table where
  "CARD_KA_FIELDS =
    [(''voice'', Redact), (''value'', Redact)]"

definition TRANSFORM_FIELDS :: policy_table where
  "TRANSFORM_FIELDS =
    [(''panX'', Preserve), (''panY'', Preserve), (''zoom'', Preserve)]"

definition EDGE_FIELDS :: policy_table where
  "EDGE_FIELDS =
    [(''id'', Preserve), (''fromId'', Preserve), (''toId'', Preserve), (''fromKind'', Preserve),
     (''toKind'', Preserve), (''type'', Rebuild)]"

definition ISLAND_FIELDS :: policy_table where
  "ISLAND_FIELDS =
    [(''id'', Preserve), (''cardIds'', Preserve), (''parentIslandId'', Preserve), (''placardCardId'', Preserve),
     (''collapsed'', Preserve), (''title'', Redact), (''titleReviewed'', Preserve), (''summaryText'', Redact),
     (''summaryReviewed'', Preserve), (''summaryGrounding'', Preserve), (''summaryHistory'', Rebuild),
     (''imageUrl'', Omit), (''imageReviewed'', Omit), (''critique'', Redact), (''critiqueTags'', Redact),
     (''geometry'', Rebuild), (''shape'', Rebuild), (''shapeStale'', Preserve), (''representativeCue'', Rebuild)]"

definition RECT_GEOMETRY_FIELDS :: policy_table where
  "RECT_GEOMETRY_FIELDS =
    [(''type'', Preserve), (''x'', Preserve), (''y'', Preserve), (''w'', Preserve), (''h'', Preserve)]"

definition POLYGON_GEOMETRY_FIELDS :: policy_table where
  "POLYGON_GEOMETRY_FIELDS =
    [(''type'', Preserve), (''points'', Rebuild)]"

definition RECT_SHAPE_FIELDS :: policy_table where
  "RECT_SHAPE_FIELDS =
    [(''kind'', Preserve), (''generatedFrom'', Rebuild)]"

definition POLYGON_SHAPE_FIELDS :: policy_table where
  "POLYGON_SHAPE_FIELDS =
    [(''kind'', Preserve), (''points'', Rebuild), (''generatedFrom'', Rebuild)]"

definition SHAPE_GENERATED_FROM_FIELDS :: policy_table where
  "SHAPE_GENERATED_FROM_FIELDS =
    [(''cardIds'', Preserve), (''versionToken'', Redact)]"

definition SUMMARY_HISTORY_FIELDS :: policy_table where
  "SUMMARY_HISTORY_FIELDS =
    [(''id'', Preserve), (''createdAt'', Preserve), (''fromText'', Redact), (''toText'', Redact),
     (''fromReviewed'', Preserve), (''toReviewed'', Preserve), (''changeKind'', Preserve), (''note'', Redact),
     (''groundingIds'', Preserve)]"

definition EVIDENCE_FIELDS :: policy_table where
  "EVIDENCE_FIELDS =
    [(''id'', Preserve), (''type'', Preserve), (''fromCardId'', Preserve), (''toCardId'', Preserve),
     (''note'', Redact), (''createdAt'', Preserve), (''contradictionState'', Preserve)]"

definition CRITIQUE_INPUT_FIELDS :: policy_table where
  "CRITIQUE_INPUT_FIELDS =
    [(''schemaVersion'', Preserve), (''critiqueId'', Preserve), (''targetRef'', Preserve),
     (''critiqueType'', Preserve), (''createdAt'', Preserve), (''iteration'', Preserve), (''comment'', Redact),
     (''constraintHints'', Redact)]"

definition REVIEW_ATTRIBUTION_FIELDS :: policy_table where
  "REVIEW_ATTRIBUTION_FIELDS =
    [(''schemaVersion'', Preserve), (''reviewState'', Preserve), (''reviewedAt'', Preserve), (''reviewerRef'', Redact),
     (''auditRecordedAt'', Preserve), (''overridePolicy'', Preserve), (''reviewContext'', Redact), (''ownerRef'', Omit)]"

definition NARRATIVE_FIELDS :: policy_table where
  "NARRATIVE_FIELDS =
    [(''id'', Preserve), (''title'', Redact), (''text'', Redact), (''createdAt'', Preserve),
     (''basedOnReadingOrder'', Preserve), (''reviewed'', Preserve), (''checks'', Rebuild)]"

definition NARRATIVE_CHECK_FIELDS :: policy_table where
  "NARRATIVE_CHECK_FIELDS =
    [(''id'', Preserve), (''createdAt'', Preserve), (''kind'', Preserve), (''issues'', Rebuild), (''counts'', Preserve)]"

definition NARRATIVE_ISSUE_FIELDS :: policy_table where
  "NARRATIVE_ISSUE_FIELDS =
    [(''severity'', Preserve), (''message'', Redact), (''references'', Rebuild), (''direction'', Preserve)]"

definition NARRATIVE_REFERENCE_FIELDS :: policy_table where
  "NARRATIVE_REFERENCE_FIELDS =
    [(''id'', Preserve), (''kind'', Preserve)]"

definition RELATION_SUMMARY_FIELDS :: policy_table where
  "RELATION_SUMMARY_FIELDS =
    [(''id'', Preserve), (''createdAt'', Preserve), (''islandAId'', Preserve), (''islandBId'', Preserve),
     (''relationType'', Preserve), (''derived'', Preserve), (''text'', Redact), (''reviewed'', Preserve),
     (''groundingCardIds'', Preserve), (''groundingEdgeIds'', Preserve), (''warnings'', Redact),
     (''sourceSignature'', Redact), (''history'', Rebuild)]"

definition RELATION_HISTORY_FIELDS :: policy_table where
  "RELATION_HISTORY_FIELDS =
    [(''id'', Preserve), (''createdAt'', Preserve), (''changeKind'', Preserve), (''fromText'', Redact),
     (''toText'', Redact), (''fromReviewed'', Preserve), (''toReviewed'', Preserve), (''warningsSnapshot'', Redact),
     (''groundingCardIdsSnapshot'', Preserve), (''groundingEdgeIdsSnapshot'', Preserve), (''note'', Redact)]"

definition MERGE_DECISION_FIELDS :: policy_table where
  "MERGE_DECISION_FIELDS =
    [(''id'', Preserve), (''decisionId'', Preserve), (''groupId'', Preserve), (''decision'', Preserve),
     (''action'', Preserve), (''decidedAt'', Preserve), (''decidedBy'', Omit), (''cardIds'', Preserve),
     (''selectedCardIds'', Preserve), (''mergedTextDraft'', Redact), (''editedText'', Redact), (''note'', Redact),
     (''snapshotVersion'', Redact), (''rationale'', Redact), (''mergeMethod'', Preserve),
     (''representativeCardId'', Preserve), (''representativeResolvedBy'', Preserve), (''sourceCardIds'', Preserve),
     (''missingSourceCardIds'', Preserve)]"

definition PATCH_LOG_FIELDS :: policy_table where
  "PATCH_LOG_FIELDS =
    [(''id'', Preserve), (''createdAt'', Preserve), (''patchVersion'', Preserve), (''patchTitle'', Redact),
     (''baseDocSignature'', Omit), (''patchSourceSignature'', Omit), (''appliedOpIds'', Preserve),
     (''stats'', Rebuild), (''conflictMeta'', Rebuild), (''note'', Redact)]"

definition PATCH_STATS_FIELDS :: policy_table where
  "PATCH_STATS_FIELDS =
    [(''upsertCards'', Preserve), (''deleteCards'', Preserve), (''upsertIslands'', Preserve),
     (''deleteIslands'', Preserve), (''upsertEdges'', Preserve), (''deleteEdges'', Preserve),
     (''upsertRelationSummaries'', Preserve), (''deleteRelationSummaries'', Preserve),
     (''upsertEvidenceLinks'', Preserve), (''deleteEvidenceLinks'', Preserve)]"

definition PATCH_CONFLICT_FIELDS :: policy_table where
  "PATCH_CONFLICT_FIELDS =
    [(''totalConflicts'', Preserve), (''chosenYours'', Preserve), (''chosenTheirs'', Preserve),
     (''chosenSkip'', Preserve)]"

definition TIE_BREAK_FIELDS :: policy_table where
  "TIE_BREAK_FIELDS =
    [(''schemaVersion'', Preserve), (''order'', Preserve)]"

definition SHELF_FIELDS :: policy_table where
  "SHELF_FIELDS =
    [(''cardId'', Preserve), (''shelvedAt'', Preserve), (''reason'', Redact)]"

definition VOID_FIELDS :: policy_table where
  "VOID_FIELDS =
    [(''id'', Preserve), (''kind'', Preserve), (''title'', Redact), (''detail'', Redact), (''cardIds'', Preserve),
     (''islandIds'', Preserve), (''resolved'', Preserve), (''createdAt'', Preserve)]"

section \<open>The meaning of the tables\<close>

fun redact_json :: "json \<Rightarrow> json" where
  "redact_json (JStr s) = JStr (redact s)"
| "redact_json (JArr vs) = JArr (map redact_json vs)"
| "redact_json v = v"

type_synonym rebuilders = "(string \<times> (json \<Rightarrow> json option)) list"

definition policy_value :: "rebuilders \<Rightarrow> policy_table \<Rightarrow> string \<Rightarrow> json \<Rightarrow> json option" where
  "policy_value R T k v = (case map_of T k of
     Some Preserve \<Rightarrow> Some v
   | Some Redact \<Rightarrow> Some (redact_json v)
   | Some Rebuild \<Rightarrow> (case map_of R k of None \<Rightarrow> None | Some f \<Rightarrow> f v)
   | _ \<Rightarrow> None)"

text \<open>A record under a table: a field that the table does not name, or omits, is left out; a rebuilt field gets the value that
  its own rule gives it.\<close>

fun by_table :: "policy_table \<Rightarrow> rebuilders \<Rightarrow> json \<Rightarrow> json" where
  "by_table T R (JObj es) = JObj (List.map_filter (\<lambda>(k, v). map_option (Pair k) (policy_value R T k v)) es)"
| "by_table T R v = v"

fun each :: "(json \<Rightarrow> json) \<Rightarrow> json \<Rightarrow> json option" where
  "each f (JArr vs) = Some (JArr (map f vs))"
| "each f v = None"

definition whole :: "(json \<Rightarrow> json) \<Rightarrow> json \<Rightarrow> json option" where
  "whole f v = Some (f v)"

definition unless_empty :: "json \<Rightarrow> json option" where
  "unless_empty v = (if v = JObj [] then None else Some v)"

definition card_rules :: "bool \<Rightarrow> rebuilders" where
  "card_rules inc =
     [(''meta'', \<lambda>v. unless_empty (by_table CARD_META_FIELDS [(''source'', \<lambda>s. if inc then Some s else None)] v)),
      (''ka'', whole (by_table CARD_KA_FIELDS []))]"

definition known_type :: "json \<Rightarrow> json" where
  "known_type v = (case v of JStr t \<Rightarrow> JStr (resolveKnownEdgeType t) | _ \<Rightarrow> v)"

definition geometry_rule :: "json \<Rightarrow> json" where
  "geometry_rule v = (if js_prop v ''type'' = JStr ''polygon'' then by_table POLYGON_GEOMETRY_FIELDS [(''points'', Some)] v
     else by_table RECT_GEOMETRY_FIELDS [] v)"

definition shape_rules :: rebuilders where
  "shape_rules = [(''points'', Some), (''generatedFrom'', whole (by_table SHAPE_GENERATED_FROM_FIELDS []))]"

definition shape_rule :: "json \<Rightarrow> json" where
  "shape_rule v = (if js_prop v ''kind'' = JStr ''polygon'' then by_table POLYGON_SHAPE_FIELDS shape_rules v
     else by_table RECT_SHAPE_FIELDS shape_rules v)"

text \<open>The cue has no table in the source; the comment above its function gives the policy.\<close>

definition cue_policy :: policy_table where
  "cue_policy = [(''kind'', Preserve), (''cueId'', Preserve), (''altText'', Redact), (''imageRef'', Preserve)]"

definition island_rules :: rebuilders where
  "island_rules =
     [(''summaryHistory'', each (by_table SUMMARY_HISTORY_FIELDS [])), (''geometry'', whole geometry_rule), (''shape'', whole shape_rule),
      (''representativeCue'', whole (by_table cue_policy []))]"

definition check_rules :: rebuilders where
  "check_rules = [(''issues'', each (by_table NARRATIVE_ISSUE_FIELDS [(''references'', each (by_table NARRATIVE_REFERENCE_FIELDS []))]))]"

definition log_rules :: rebuilders where
  "log_rules = [(''stats'', whole (by_table PATCH_STATS_FIELDS [])), (''conflictMeta'', whole (by_table PATCH_CONFLICT_FIELDS []))]"

definition document_rules :: "bool \<Rightarrow> rebuilders" where
  "document_rules inc =
     [(''transform'', whole (by_table TRANSFORM_FIELDS [])), (''cards'', each (by_table CARD_FIELDS (card_rules inc))),
      (''edges'', each (by_table EDGE_FIELDS [(''type'', whole known_type)])), (''islands'', each (by_table ISLAND_FIELDS island_rules)),
      (''narratives'', each (by_table NARRATIVE_FIELDS [(''checks'', each (by_table NARRATIVE_CHECK_FIELDS check_rules))])),
      (''relationSummaries'', each (by_table RELATION_SUMMARY_FIELDS [(''history'', each (by_table RELATION_HISTORY_FIELDS []))])),
      (''evidenceLinks'', each (by_table EVIDENCE_FIELDS [])), (''patchApplyLog'', each (by_table PATCH_LOG_FIELDS log_rules)),
      (''mergeSuggestionDecisions'', each (by_table MERGE_DECISION_FIELDS [])), (''critiqueInputs'', each (by_table CRITIQUE_INPUT_FIELDS [])),
      (''reviewAttribution'', whole (by_table REVIEW_ATTRIBUTION_FIELDS [])), (''deterministicTieBreak'', whole (by_table TIE_BREAK_FIELDS [])),
      (''shelf'', each (by_table SHELF_FIELDS [])), (''voids'', each (by_table VOID_FIELDS []))]"

section \<open>Redaction\<close>

lemma already_redacted_redactText: "already_redacted (redactText s True)"
proof -
  have "list_all decimal_digit (nat_str n)" for n unfolding list_all_iff decimal_digit_def using nat_str_digits [of n] by blast
  moreover have "nat_str n \<noteq> []" for n by (simp only: nat_str_def radix_str_not_Nil not_False_eq_True)
  ultimately show ?thesis
    by (simp add: redactText_def already_redacted_def Let_def starts_with_def butlast_append)
qed

lemma already_redacted_redact [simp]: "already_redacted (redact s)"
  by (simp add: redact_def already_redacted_redactText)

lemma redact_fixed_iff: "redact s = s \<longleftrightarrow> already_redacted s"
  using already_redacted_redactText [of s] by (auto simp: redact_def)

lemma redact_idem [simp]: "redact (redact s) = redact s"
  by (simp add: redact_fixed_iff)

lemma redact_o_redact [simp]: "redact \<circ> redact = redact"
  by (simp add: fun_eq_iff)

section \<open>The sanitizers follow the tables\<close>

lemma by_table_obj:
  "by_table T R (obj fs) = obj (map (\<lambda>(k, x). (k, Option.bind x (policy_value R T k))) fs)"
proof -
  have "List.map_filter (\<lambda>(k, v). map_option (Pair k) (policy_value R T k v)) (present fs) =
      present (map (\<lambda>(k, x). (k, Option.bind x (policy_value R T k))) fs)"
  proof (induction fs rule: present.induct)
    case (3 k v fs)
    then show ?case by (cases "policy_value R T k v") (simp_all add: List.map_filter_simps)
  qed (simp_all add: List.map_filter_simps)
  then show ?thesis by (simp add: obj_def)
qed

lemma bind_map_opt: "Option.bind (map_option f x) g = Option.bind x (\<lambda>z. g (f z))"
  by (cases x) auto

lemma bind_Some_map: "Option.bind x (\<lambda>z. Some (f z)) = map_option f x"
  by (cases x) auto

lemma redact_json_jstrs [simp]: "redact_json (jstrs xs) = jstrs (map redact xs)"
  by (simp add: jstrs_def)

lemma redact_json_nullable [simp]: "redact_json (nullable JStr x) = nullable JStr (redactNullable x)"
  by (cases x) (simp_all add: nullable_def redactNullable_def)

lemma each_jlist [simp]: "each f (jlist g xs) = Some (jlist (f \<circ> g) xs)"
  by (simp add: jlist_def)

lemma jlist_map [simp]: "jlist g (map f xs) = jlist (g \<circ> f) xs"
  by (simp add: jlist_def)

lemmas table_simps = policy_value_def req_def opt_def bind_map_opt bind_Some_map option.map_comp o_def whole_def

lemma transform_follows: "by_table TRANSFORM_FIELDS [] (transform_json t) = transform_json (cloneTransform t)"
  unfolding transform_json_def by_table_obj by (simp add: table_simps TRANSFORM_FIELDS_def cloneTransform_def)

lemma ka_follows: "by_table CARD_KA_FIELDS [] (obj (ka_fields k)) = obj (ka_fields (sanitizeCardKa k))"
  unfolding by_table_obj by (simp add: table_simps ka_fields_def CARD_KA_FIELDS_def sanitizeCardKa_def)

lemma meta_follows:
  "unless_empty (by_table CARD_META_FIELDS [(''source'', \<lambda>s. if inc then Some s else None)] (obj (meta_fields m))) =
   map_option (\<lambda>m. obj (meta_fields m)) (sanitizeCardMeta m inc)"
  unfolding by_table_obj
  by (cases "meta_seq m"; cases "meta_source m"; cases inc)
    (simp_all add: table_simps meta_fields_def CARD_META_FIELDS_def sanitizeCardMeta_def unless_empty_def obj_def Let_def)

lemma card_follows: "by_table CARD_FIELDS (card_rules inc) (card_json c) = card_json (sanitizeCard c inc)"
proof -
  have meta: "Option.bind x (\<lambda>m. unless_empty (by_table CARD_META_FIELDS [(''source'', \<lambda>s. if inc then Some s else None)] (obj (meta_fields m)))) =
      map_option (\<lambda>m. obj (meta_fields m)) (case x of None \<Rightarrow> None | Some m \<Rightarrow> sanitizeCardMeta m inc)" for x
    by (cases x) (simp_all add: meta_follows)
  show ?thesis
    unfolding card_json_def by_table_obj
    by (simp add: table_simps card_fields_def CARD_FIELDS_def card_rules_def sanitizeCard_def ka_follows meta)
qed

lemma edge_follows: "by_table EDGE_FIELDS [(''type'', whole known_type)] (edge_json e) = edge_json (sanitizeEdge e)"
  unfolding edge_json_def by_table_obj
  by (simp add: table_simps edge_fields_def EDGE_FIELDS_def sanitizeEdge_def known_type_def)

lemma clonePoint_id [simp]: "clonePoint p = p"
  by (simp add: clonePoint_def)

lemma clone_ids [simp]:
  "cloneGeometry g = g" "cloneTransform t = t" "cloneNarrativeReference x = x" "clonePatchStats s = s" "clonePatchConflictMeta m = m"
  "cloneTieBreak order = order"
  by (cases g; simp add: cloneTransform_def cloneNarrativeReference_def clonePatchStats_def clonePatchConflictMeta_def cloneTieBreak_def
      map_idI)+

lemma clone_id [simp]: "cloneNarrativeReference = id" "cloneGeometry = id" "clonePoint = id" "cloneTieBreak = id" "clonePatchConflictMeta = id"
  by (simp_all add: fun_eq_iff)

lemma geometry_follows: "geometry_rule (obj (geometry_fields g)) = obj (geometry_fields (cloneGeometry g))"
proof (cases g)
  case (RectGeometry x y w h)
  have "js_prop (obj (geometry_fields g)) ''type'' = JStr ''rect''"
    unfolding RectGeometry by (simp add: geometry_fields_def obj_def req_def)
  then show ?thesis
    unfolding geometry_rule_def by_table_obj unfolding RectGeometry
    by (simp add: table_simps geometry_fields_def RECT_GEOMETRY_FIELDS_def)
next
  case (PolygonGeometry ps)
  have "js_prop (obj (geometry_fields g)) ''type'' = JStr ''polygon''"
    unfolding PolygonGeometry by (simp add: geometry_fields_def obj_def req_def)
  then show ?thesis
    unfolding geometry_rule_def by_table_obj unfolding PolygonGeometry
    by (simp add: table_simps geometry_fields_def POLYGON_GEOMETRY_FIELDS_def)
qed

lemma generated_follows: "by_table SHAPE_GENERATED_FROM_FIELDS [] (generated_json g) = generated_json (sanitizeShapeGeneratedFrom g)"
  unfolding generated_json_def by_table_obj
  by (simp add: table_simps SHAPE_GENERATED_FROM_FIELDS_def sanitizeShapeGeneratedFrom_def)

lemma shape_follows: "shape_rule (obj (shape_fields s)) = obj (shape_fields (sanitizeShape s))"
proof (cases s)
  case (RectShape g)
  have "js_prop (obj (shape_fields s)) ''kind'' = JStr ''rect''"
    unfolding RectShape by (simp add: shape_fields_def obj_def req_def)
  then show ?thesis
    unfolding shape_rule_def by_table_obj unfolding RectShape
    by (simp add: table_simps shape_fields_def RECT_SHAPE_FIELDS_def shape_rules_def generated_follows)
next
  case (PolygonShape ps g)
  have "js_prop (obj (shape_fields s)) ''kind'' = JStr ''polygon''"
    unfolding PolygonShape by (simp add: shape_fields_def obj_def req_def)
  then show ?thesis
    unfolding shape_rule_def by_table_obj unfolding PolygonShape
    by (simp add: table_simps shape_fields_def POLYGON_SHAPE_FIELDS_def shape_rules_def generated_follows map_idI)
qed

lemma history_follows: "by_table SUMMARY_HISTORY_FIELDS [] (summary_history_json h) = summary_history_json (sanitizeSummaryHistory h)"
  unfolding summary_history_json_def by_table_obj
  by (simp add: table_simps SUMMARY_HISTORY_FIELDS_def sanitizeSummaryHistory_def)

lemma cue_follows: "by_table cue_policy [] (cue_json q) = cue_json (sanitizeRepresentativeCue q)"
  unfolding cue_json_def by_table_obj
  by (simp add: table_simps cue_policy_def sanitizeRepresentativeCue_def)

lemma island_follows: "by_table ISLAND_FIELDS island_rules (island_json i) = island_json (sanitizeIsland i)"
proof -
  have omitted: "Option.bind x (\<lambda>_. None) = None" for x :: "'x option" by (cases x) auto
  show ?thesis
    unfolding island_json_def by_table_obj
    by (simp add: table_simps island_fields_def ISLAND_FIELDS_def island_rules_def sanitizeIsland_def geometry_follows shape_follows
        history_follows cue_follows omitted)
qed

lemma reference_follows: "by_table NARRATIVE_REFERENCE_FIELDS [] (reference_json x) = reference_json (cloneNarrativeReference x)"
  unfolding reference_json_def by_table_obj by (simp add: table_simps NARRATIVE_REFERENCE_FIELDS_def)

lemma issue_follows:
  assumes "ck_direction i = None"
  shows "by_table NARRATIVE_ISSUE_FIELDS [(''references'', each (by_table NARRATIVE_REFERENCE_FIELDS []))] (check_issue_json i) =
    check_issue_json (sanitizeNarrativeIssue i)"
  unfolding check_issue_json_def by_table_obj
  by (simp add: table_simps NARRATIVE_ISSUE_FIELDS_def sanitizeNarrativeIssue_def reference_follows assms)

lemma jlist_cong [cong]: "xs = ys \<Longrightarrow> (\<And>x. x \<in> set ys \<Longrightarrow> f x = g x) \<Longrightarrow> jlist f xs = jlist g ys"
  by (simp add: jlist_def)

definition plain_check :: "narrative_check \<Rightarrow> bool" where
  "plain_check c \<longleftrightarrow> ck_counts c = None \<and> list_all (\<lambda>i. ck_direction i = None) (ck_issues c)"

lemma check_follows:
  assumes "plain_check c"
  shows "by_table NARRATIVE_CHECK_FIELDS check_rules (check_json c) = check_json (sanitizeNarrativeCheck c)"
  unfolding check_json_def by_table_obj using assms
  by (simp add: table_simps NARRATIVE_CHECK_FIELDS_def check_rules_def sanitizeNarrativeCheck_def issue_follows plain_check_def list_all_iff)

definition plain_narrative :: "narrative \<Rightarrow> bool" where
  "plain_narrative n \<longleftrightarrow> list_all plain_check (nullish (narr_checks n) [])"

lemma narrative_follows:
  assumes "plain_narrative n"
  shows "by_table NARRATIVE_FIELDS [(''checks'', each (by_table NARRATIVE_CHECK_FIELDS check_rules))] (narrative_json n) =
    narrative_json (sanitizeNarrative n)"
proof -
  have "map_option (\<lambda>cs. jlist (\<lambda>c. by_table NARRATIVE_CHECK_FIELDS check_rules (check_json c)) cs) (narr_checks n) =
      map_option (\<lambda>cs. jlist (\<lambda>c. check_json (sanitizeNarrativeCheck c)) cs) (narr_checks n)"
    using assms by (cases "narr_checks n") (simp_all add: plain_narrative_def list_all_iff check_follows)
  then show ?thesis
    unfolding narrative_json_def by_table_obj
    by (simp add: table_simps NARRATIVE_FIELDS_def sanitizeNarrative_def)
qed

lemma relation_history_follows:
  "by_table RELATION_HISTORY_FIELDS [] (relation_history_json h) = relation_history_json (sanitizeRelationHistory h)"
  unfolding relation_history_json_def by_table_obj
  by (simp add: table_simps RELATION_HISTORY_FIELDS_def sanitizeRelationHistory_def)

lemma relation_follows:
  "by_table RELATION_SUMMARY_FIELDS [(''history'', each (by_table RELATION_HISTORY_FIELDS []))] (relation_json r) =
   relation_json (sanitizeRelationSummary r)"
  unfolding relation_json_def by_table_obj
  by (simp add: table_simps relation_fields_def RELATION_SUMMARY_FIELDS_def sanitizeRelationSummary_def relation_history_follows)

lemma link_follows: "by_table EVIDENCE_FIELDS [] (link_json l) = link_json (sanitizeEvidenceLink l)"
  unfolding link_json_def by_table_obj
  by (simp add: table_simps link_fields_def EVIDENCE_FIELDS_def sanitizeEvidenceLink_def)

lemma bind_None_fun [simp]: "Option.bind x (\<lambda>_. None) = None"
  by (cases x) auto

lemma log_follows: "by_table PATCH_LOG_FIELDS log_rules (log_json e) = log_json (sanitizePatchLog e)"
proof -
  have "by_table PATCH_STATS_FIELDS [] (stats_json s) = stats_json s" for s
    unfolding stats_json_def by_table_obj by (simp add: table_simps PATCH_STATS_FIELDS_def)
  moreover have "by_table PATCH_CONFLICT_FIELDS [] (conflict_meta_json m) = conflict_meta_json m" for m
    unfolding conflict_meta_json_def by_table_obj by (simp add: table_simps PATCH_CONFLICT_FIELDS_def)
  ultimately show ?thesis
    unfolding log_json_def by_table_obj
    by (simp add: table_simps PATCH_LOG_FIELDS_def log_rules_def sanitizePatchLog_def)
qed

lemma merge_decision_follows:
  assumes "mergeMethod e = None"
  shows "by_table MERGE_DECISION_FIELDS [] (merge_decision_json e) = merge_decision_json (sanitizeMergeDecision e)"
  unfolding merge_decision_json_def by_table_obj
  by (simp add: table_simps MERGE_DECISION_FIELDS_def sanitizeMergeDecision_def assms)

lemma critique_follows: "by_table CRITIQUE_INPUT_FIELDS [] (critique_json c) = critique_json (sanitizeCritiqueInput c)"
  unfolding critique_json_def by_table_obj
  by (simp add: table_simps CRITIQUE_INPUT_FIELDS_def sanitizeCritiqueInput_def)

lemma attribution_follows: "by_table REVIEW_ATTRIBUTION_FIELDS [] (attribution_json a) = attribution_json (sanitizeReviewAttribution a)"
  unfolding attribution_json_def by_table_obj
  by (simp add: table_simps REVIEW_ATTRIBUTION_FIELDS_def sanitizeReviewAttribution_def)

lemma tie_break_follows: "by_table TIE_BREAK_FIELDS [] (tie_break_json x) = tie_break_json (cloneTieBreak x)"
  unfolding tie_break_json_def by_table_obj by (simp add: table_simps TIE_BREAK_FIELDS_def)

lemma shelf_follows: "by_table SHELF_FIELDS [] (shelf_json e) = shelf_json (sanitizeShelfEntry e)"
  unfolding shelf_json_def by_table_obj by (simp add: table_simps SHELF_FIELDS_def sanitizeShelfEntry_def)

lemma void_follows: "by_table VOID_FIELDS [] (void_json v) = void_json (sanitizeVoidEntry v)"
  unfolding void_json_def by_table_obj by (simp add: table_simps VOID_FIELDS_def sanitizeVoidEntry_def)

section \<open>The document\<close>

text \<open>What the tables promise to keep and the functions drop: the totals of a narrative check, the direction of an issue, the
  method of a merge decision. A document is plain when it has none of them.\<close>

definition plain_document :: "document \<Rightarrow> bool" where
  "plain_document d \<longleftrightarrow> list_all plain_narrative (nullish (narratives d) []) \<and>
     list_all (\<lambda>e. mergeMethod e = None) (nullish (mergeSuggestionDecisions d) [])"

lemma map_option_jlist_cong:
  assumes "\<And>x. x \<in> set (nullish xs []) \<Longrightarrow> f x = g x"
  shows "map_option (jlist f) xs = map_option (jlist g) xs"
  using assms by (cases xs) (simp_all cong: jlist_cong)

lemma document_follows:
  assumes "plain_document d"
  shows "by_table DOCUMENT_FIELDS (document_rules inc) (document_json d) = document_json (deriveDocumentSafeModeProjection (Some inc) d)"
proof -
  have n: "map_option (jlist (\<lambda>n. by_table NARRATIVE_FIELDS [(''checks'', each (by_table NARRATIVE_CHECK_FIELDS check_rules))] (narrative_json n)))
      (narratives d) = map_option (jlist (\<lambda>n. narrative_json (sanitizeNarrative n))) (narratives d)"
    using assms by (intro map_option_jlist_cong) (simp add: plain_document_def list_all_iff narrative_follows)
  have m: "map_option (jlist (\<lambda>e. by_table MERGE_DECISION_FIELDS [] (merge_decision_json e))) (mergeSuggestionDecisions d) =
      map_option (jlist (\<lambda>e. merge_decision_json (sanitizeMergeDecision e))) (mergeSuggestionDecisions d)"
    using assms by (intro map_option_jlist_cong) (simp add: plain_document_def list_all_iff merge_decision_follows)
  show ?thesis
    unfolding document_json_def by_table_obj
    by (simp add: table_simps document_fields_def DOCUMENT_FIELDS_def document_rules_def deriveDocumentSafeModeProjection_def
        transform_follows card_follows edge_follows island_follows relation_follows link_follows log_follows critique_follows
        attribution_follows tie_break_follows shelf_follows void_follows n m)
qed

section \<open>Applying the projection twice\<close>

lemma redactNullable_idem [simp]: "redactNullable (redactNullable x) = redactNullable x"
  by (cases x) (simp_all add: redactNullable_def)

lemma map_option_idem: "(\<And>x. f (f x) = f x) \<Longrightarrow> map_option f (map_option f x) = map_option f x"
  by (cases x) auto

lemma map_list_idem: "(\<And>x. f (f x) = f x) \<Longrightarrow> map f (map f xs) = map f xs"
  by simp

lemma sanitize_small_idem [simp]:
  "sanitizeCardKa (sanitizeCardKa k) = sanitizeCardKa k" "sanitizeEdge (sanitizeEdge e) = sanitizeEdge e"
  "sanitizeShapeGeneratedFrom (sanitizeShapeGeneratedFrom g) = sanitizeShapeGeneratedFrom g"
  "sanitizeSummaryHistory (sanitizeSummaryHistory h) = sanitizeSummaryHistory h"
  "sanitizeRepresentativeCue (sanitizeRepresentativeCue q) = sanitizeRepresentativeCue q"
  "sanitizeEvidenceLink (sanitizeEvidenceLink l) = sanitizeEvidenceLink l"
  "sanitizeCritiqueInput (sanitizeCritiqueInput c) = sanitizeCritiqueInput c"
  "sanitizeReviewAttribution (sanitizeReviewAttribution a) = sanitizeReviewAttribution a"
  "sanitizeNarrativeIssue (sanitizeNarrativeIssue i) = sanitizeNarrativeIssue i"
  "sanitizeRelationHistory (sanitizeRelationHistory r) = sanitizeRelationHistory r"
  "sanitizePatchLog (sanitizePatchLog p) = sanitizePatchLog p"
  "sanitizeMergeDecision (sanitizeMergeDecision m) = sanitizeMergeDecision m"
  "sanitizeShelfEntry (sanitizeShelfEntry s) = sanitizeShelfEntry s"
  "sanitizeVoidEntry (sanitizeVoidEntry v) = sanitizeVoidEntry v"
  by (simp_all add: sanitizeCardKa_def sanitizeEdge_def sanitizeShapeGeneratedFrom_def sanitizeSummaryHistory_def
      sanitizeRepresentativeCue_def sanitizeEvidenceLink_def sanitizeCritiqueInput_def sanitizeReviewAttribution_def
      sanitizeNarrativeIssue_def sanitizeRelationHistory_def sanitizePatchLog_def sanitizeMergeDecision_def sanitizeShelfEntry_def
      sanitizeVoidEntry_def resolveKnownEdgeType_def KNOWN_EDGE_TYPES_def option.map_comp o_def id_def)

lemma sanitize_nested_idem [simp]:
  "sanitizeShape (sanitizeShape s) = sanitizeShape s" "sanitizeNarrativeCheck (sanitizeNarrativeCheck c) = sanitizeNarrativeCheck c"
  by (cases s; simp add: option.map_comp o_def id_def sanitizeNarrativeCheck_def)+

lemma sanitizeNarrative_idem [simp]: "sanitizeNarrative (sanitizeNarrative n) = sanitizeNarrative n"
  by (simp add: sanitizeNarrative_def option.map_comp o_def id_def)

lemma sanitizeRelationSummary_idem [simp]: "sanitizeRelationSummary (sanitizeRelationSummary r) = sanitizeRelationSummary r"
  by (simp add: sanitizeRelationSummary_def option.map_comp o_def id_def)

lemma sanitizeIsland_idem [simp]: "sanitizeIsland (sanitizeIsland i) = sanitizeIsland i"
  by (simp add: sanitizeIsland_def option.map_comp o_def id_def)

lemma sanitizeCard_idem [simp]: "sanitizeCard (sanitizeCard c inc) inc = sanitizeCard c inc"
proof -
  have "(case (case x of None \<Rightarrow> None | Some m \<Rightarrow> sanitizeCardMeta m inc) of None \<Rightarrow> None | Some m \<Rightarrow> sanitizeCardMeta m inc) =
      (case x of None \<Rightarrow> None | Some m \<Rightarrow> sanitizeCardMeta m inc)" for x
    by (cases x) (simp_all add: sanitizeCardMeta_def Let_def)
  then show ?thesis by (simp add: sanitizeCard_def option.map_comp o_def id_def)
qed

lemma projection_idem:
  "deriveDocumentSafeModeProjection inc (deriveDocumentSafeModeProjection inc d) = deriveDocumentSafeModeProjection inc d"
  by (simp add: deriveDocumentSafeModeProjection_def option.map_comp o_def id_def)

section \<open>Properties\<close>

text \<open>C23. The projection does what the policy tables say. For a document without the three fields that the functions drop
  against their tables, the projection written as JSON is the document written as JSON under the tables: identifiers,
  structure, flags and times are kept, every text field holds a placeholder, omitted fields are gone, and the nested records
  are treated likewise; source references appear only on request. Every text of the projection is in placeholder form, so
  projecting again changes nothing.\<close>

theorem projection_follows_tables:
  assumes "plain_document d"
  shows "document_json (deriveDocumentSafeModeProjection (Some inc) d) = by_table DOCUMENT_FIELDS (document_rules inc) (document_json d) \<and>
    deriveDocumentSafeModeProjection (Some inc) (deriveDocumentSafeModeProjection (Some inc) d) =
      deriveDocumentSafeModeProjection (Some inc) d"
  using document_follows [OF assms] projection_idem by simp

definition ex_private :: document where
  "ex_private = (mk_doc [mk_card ''c1'' ''a secret'' 0 0] [mk_edge ''e1'' ''c1'' ''c1'' ''rumour''] [])\<lparr>doc_title := Some ''  ''\<rparr>"

theorem projection_follows_tables_witness:
  "document_json (deriveDocumentSafeModeProjection (Some False) ex_private) =
     by_table DOCUMENT_FIELDS (document_rules False) (document_json ex_private) \<and>
   map card_text (cards (deriveDocumentSafeModeProjection (Some False) ex_private)) = [''[REDACTED] (len:8)''] \<and>
   doc_title (deriveDocumentSafeModeProjection (Some False) ex_private) = Some ''[REDACTED]'' \<and>
   map edge_type (edges (deriveDocumentSafeModeProjection (Some False) ex_private)) = [''related'']"
proof -
  have "plain_document ex_private" by (simp add: plain_document_def ex_private_def)
  moreover have "redact ''a secret'' = ''[REDACTED] (len:8)''" "redact ''  '' = ''[REDACTED]''" "resolveKnownEdgeType ''rumour'' = ''related''"
    by code_simp+
  ultimately show ?thesis
    using projection_follows_tables [of ex_private False]
    by (simp add: deriveDocumentSafeModeProjection_def ex_private_def sanitizeCard_def sanitizeEdge_def)
qed

text \<open>The three exceptions: a document that is not plain, and whose projection differs from its tables.\<close>

definition ex_narrative :: narrative where
  "ex_narrative = \<lparr>narr_id = ''n'', narr_title = ''t'', narr_text = ''x'', narr_createdAt = None, basedOnReadingOrder = None,
     narr_reviewed = False, narr_checks = Some [\<lparr>ck_id = ''k'', ck_createdAt = ''t0'', ck_issues = [], ck_counts = Some (1, 0)\<rparr>]\<rparr>"

lemma projection_drops_check_counts:
  "by_table NARRATIVE_FIELDS [(''checks'', each (by_table NARRATIVE_CHECK_FIELDS check_rules))] (narrative_json ex_narrative) \<noteq>
   narrative_json (sanitizeNarrative ex_narrative)"
  unfolding narrative_json_def by_table_obj check_json_def ex_narrative_def
  by (simp add: table_simps NARRATIVE_FIELDS_def sanitizeNarrative_def by_table_obj NARRATIVE_CHECK_FIELDS_def check_rules_def
      sanitizeNarrativeCheck_def jlist_def obj_def)

lemma projection_drops_direction:
  assumes "ck_direction i = Some dir"
  shows "js_prop (check_issue_json (sanitizeNarrativeIssue i)) ''direction'' = JUndef"
    and "map_of NARRATIVE_ISSUE_FIELDS ''direction'' = Some Preserve"
  by (cases "ck_references i"; simp add: check_issue_json_def sanitizeNarrativeIssue_def obj_def req_def opt_def)
    (simp add: NARRATIVE_ISSUE_FIELDS_def)

lemma projection_drops_merge_method:
  "mergeMethod (sanitizeMergeDecision e) = None" "map_of MERGE_DECISION_FIELDS ''mergeMethod'' = Some Preserve"
  by (simp_all add: sanitizeMergeDecision_def MERGE_DECISION_FIELDS_def)

end
