(* ===== verification/Safe_Mode_Bundle.thy ===== *)
theory Safe_Mode_Bundle
  imports Safe_Mode_Document Inquiry_Validate
begin

text \<open>
  \<open>domain/inquiry_bundle_safe_mode.ts\<close>, second part: the SafeMode projection of an inquiry bundle. Lineage edges are rebuilt by
  reading the first one or two addresses of a list; on a shorter list the code throws (\<open>None\<close> here), which a bundle that passed
  \<open>validateInquiryBundle\<close> never causes. The tables of the bundle's records have the meaning given in \<open>Safe_Mode_Document\<close>, on the
  JSON of the bundle, which is defined here too. The asynchronous \<open>deriveInquirySafeModeBundle\<close> is in \<open>Bundle_Exchange\<close>.
\<close>

section \<open>The sanitizers\<close>

definition cloneAddress :: "card_address \<Rightarrow> card_address" where
  "cloneAddress a = \<lparr>addr_snapshotId = addr_snapshotId a, addr_cardId = addr_cardId a\<rparr>"

fun sanitizeLineage :: "lineage_edge \<Rightarrow> lineage_edge option" where
  "sanitizeLineage (NewCard i t) = Some (NewCard i (cloneAddress t))"
| "sanitizeLineage (Retired i f) = Some (Retired i (cloneAddress f))"
| "sanitizeLineage (Derived i fs t) =
     (case fs of f # rest \<Rightarrow> Some (Derived i (cloneAddress f # map cloneAddress rest) (cloneAddress t)) | _ \<Rightarrow> None)"
| "sanitizeLineage (Merged i fs t) =
     (case fs of f # g # rest \<Rightarrow> Some (Merged i (cloneAddress f # cloneAddress g # map cloneAddress rest) (cloneAddress t)) | _ \<Rightarrow> None)"
| "sanitizeLineage (Split i f ts) =
     (case ts of t # u # rest \<Rightarrow> Some (Split i (cloneAddress f) (cloneAddress t # cloneAddress u # map cloneAddress rest)) | _ \<Rightarrow> None)"
| "sanitizeLineage (OneToOne i edited f t) = Some (OneToOne i edited (cloneAddress f) (cloneAddress t))"

definition cloneArtifactRef :: "artifact_ref \<Rightarrow> artifact_ref" where
  "cloneArtifactRef r = \<lparr>ref_snapshotId = ref_snapshotId r, ref_kind = ref_kind r, ref_entityId = ref_entityId r\<rparr>"

definition sanitizeFieldworkOutcome :: "fieldwork_outcome \<Rightarrow> fieldwork_outcome" where
  "sanitizeFieldworkOutcome q = \<lparr>outcome_kind_of = outcome_kind_of q, responseCardRefs = map cloneAddress (responseCardRefs q),
     outcome_note = map_option redact (outcome_note q)\<rparr>"

definition sanitizeFieldworkRequest :: "fieldwork_request \<Rightarrow> fieldwork_request" where
  "sanitizeFieldworkRequest q = \<lparr>requestId = requestId q, question = redact (question q),
     outcome = map_option sanitizeFieldworkOutcome (outcome q)\<rparr>"

definition sanitizeHandoff :: "round_handoff \<Rightarrow> round_handoff" where
  "sanitizeHandoff h = \<lparr>carryoverRefs = map cloneArtifactRef (carryoverRefs h), heldRefs = map cloneArtifactRef (heldRefs h),
     unresolvedQuestions = map redact (unresolvedQuestions h), fieldworkRequests = map sanitizeFieldworkRequest (fieldworkRequests h),
     understandingDelta = map_option redact (understandingDelta h)\<rparr>"

definition sanitizeRound :: "round_record \<Rightarrow> round_record" where
  "sanitizeRound r = \<lparr>roundId = roundId r, round_createdAt = round_createdAt r, round_updatedAt = round_updatedAt r, stage = stage r,
     iteration = iteration r, parentRoundIds = parentRoundIds r, status = status r, theme = redact (theme r),
     inputSnapshotIds = inputSnapshotIds r, outputSnapshotId = outputSnapshotId r, handoff = map_option sanitizeHandoff (handoff r)\<rparr>"

definition sanitizeJourney :: "inquiry_journey \<Rightarrow> inquiry_journey" where
  "sanitizeJourney j = \<lparr>journey_schemaVersion = journey_schemaVersion j, journeyId = journeyId j, journey_title = redact (journey_title j),
     originSnapshotIds = originSnapshotIds j, roundRecords = map sanitizeRound (roundRecords j), headRoundIds = headRoundIds j,
     defaultHeadRoundId = defaultHeadRoundId j, journey_createdAt = journey_createdAt j, journey_updatedAt = journey_updatedAt j\<rparr>"

definition sanitizeSnapshot :: "round_snapshot \<Rightarrow> round_snapshot" where
  "sanitizeSnapshot s = \<lparr>snap_schemaVersion = snap_schemaVersion s, snapshotId = snapshotId s, snap_createdAt = snap_createdAt s,
     canonicalDigest = canonicalDigest s, snap_document = deriveDocumentSafeModeProjection None (snap_document s)\<rparr>"

definition sanitizeBundleContents :: "inquiry_bundle \<Rightarrow> inquiry_bundle option" where
  "sanitizeBundleContents b =
     (case those (map sanitizeLineage (cardLineage b)) of
        None \<Rightarrow> None
      | Some lineage \<Rightarrow> Some \<lparr>bundle_schemaVersion = bundle_schemaVersion b, journey = sanitizeJourney (journey b),
          snapshots = map sanitizeSnapshot (snapshots b), cardLineage = lineage, exportInfo = exportInfo b\<rparr>)"

section \<open>The bundle as JSON\<close>

fun artifact_kind_str :: "artifact_kind \<Rightarrow> string" where
  "artifact_kind_str ArtCard = ''card''"
| "artifact_kind_str ArtIsland = ''island''"
| "artifact_kind_str ArtNarrative = ''narrative''"
| "artifact_kind_str ArtRelationSummary = ''relation_summary''"

fun outcome_kind_str :: "outcome_kind \<Rightarrow> string" where
  "outcome_kind_str Answered = ''answered''"
| "outcome_kind_str NoResult = ''no_result''"
| "outcome_kind_str Unexpected = ''unexpected''"

definition address_json :: "card_address \<Rightarrow> json" where
  "address_json a = obj [req ''snapshotId'' (JStr (addr_snapshotId a)), req ''cardId'' (JStr (addr_cardId a))]"

definition artifact_ref_json :: "artifact_ref \<Rightarrow> json" where
  "artifact_ref_json r = obj [req ''snapshotId'' (JStr (ref_snapshotId r)), req ''kind'' (JStr (artifact_kind_str (ref_kind r))),
     req ''entityId'' (JStr (ref_entityId r))]"

definition outcome_json :: "fieldwork_outcome \<Rightarrow> json" where
  "outcome_json q = obj [req ''kind'' (JStr (outcome_kind_str (outcome_kind_of q))),
     req ''responseCardRefs'' (jlist address_json (responseCardRefs q)), opt ''note'' JStr (outcome_note q)]"

definition fieldwork_json :: "fieldwork_request \<Rightarrow> json" where
  "fieldwork_json q = obj [req ''requestId'' (JStr (requestId q)), req ''question'' (JStr (question q)), opt ''outcome'' outcome_json (outcome q)]"

definition handoff_json :: "round_handoff \<Rightarrow> json" where
  "handoff_json h = obj
     [req ''carryoverRefs'' (jlist artifact_ref_json (carryoverRefs h)), req ''heldRefs'' (jlist artifact_ref_json (heldRefs h)),
      req ''unresolvedQuestions'' (jstrs (unresolvedQuestions h)), req ''fieldworkRequests'' (jlist fieldwork_json (fieldworkRequests h)),
      opt ''understandingDelta'' JStr (understandingDelta h)]"

definition round_json :: "round_record \<Rightarrow> json" where
  "round_json r = obj
     [req ''roundId'' (JStr (roundId r)), req ''createdAt'' (JStr (round_createdAt r)), req ''updatedAt'' (JStr (round_updatedAt r)),
      req ''stage'' (JStr (stage r)), req ''iteration'' (jrat (iteration r)), req ''parentRoundIds'' (jstrs (parentRoundIds r)),
      req ''status'' (JStr (status r)), req ''theme'' (JStr (theme r)), req ''inputSnapshotIds'' (jstrs (inputSnapshotIds r)),
      opt ''outputSnapshotId'' JStr (outputSnapshotId r), opt ''handoff'' handoff_json (handoff r)]"

definition journey_json :: "inquiry_journey \<Rightarrow> json" where
  "journey_json j = obj
     [req ''schemaVersion'' (JStr (journey_schemaVersion j)), req ''journeyId'' (JStr (journeyId j)), req ''title'' (JStr (journey_title j)),
      req ''originSnapshotIds'' (jstrs (originSnapshotIds j)), req ''roundRecords'' (jlist round_json (roundRecords j)),
      req ''headRoundIds'' (jstrs (headRoundIds j)), opt ''defaultHeadRoundId'' JStr (defaultHeadRoundId j),
      req ''createdAt'' (JStr (journey_createdAt j)), req ''updatedAt'' (JStr (journey_updatedAt j))]"

definition snapshot_json :: "round_snapshot \<Rightarrow> json" where
  "snapshot_json s = obj
     [req ''schemaVersion'' (JStr (snap_schemaVersion s)), req ''snapshotId'' (JStr (snapshotId s)), req ''createdAt'' (JStr (snap_createdAt s)),
      req ''canonicalDigest'' (JStr (canonicalDigest s)), req ''document'' (document_json (snap_document s))]"

definition lineage_obj :: "string \<Rightarrow> string \<Rightarrow> json option \<Rightarrow> json option \<Rightarrow> json" where
  "lineage_obj i kind from to = obj [req ''lineageId'' (JStr i), req ''kind'' (JStr kind), (''from'', from), (''to'', to)]"

fun lineage_json :: "lineage_edge \<Rightarrow> json" where
  "lineage_json (OneToOne i edited f t) =
     lineage_obj i (if edited then ''edited'' else ''carried'') (Some (address_json f)) (Some (address_json t))"
| "lineage_json (Derived i fs t) = lineage_obj i ''derived'' (Some (jlist address_json fs)) (Some (address_json t))"
| "lineage_json (Split i f ts) = lineage_obj i ''split'' (Some (address_json f)) (Some (jlist address_json ts))"
| "lineage_json (Merged i fs t) = lineage_obj i ''merged'' (Some (jlist address_json fs)) (Some (address_json t))"
| "lineage_json (NewCard i t) = lineage_obj i ''new'' None (Some (address_json t))"
| "lineage_json (Retired i f) = lineage_obj i ''retired'' (Some (address_json f)) None"

fun export_info_json :: "export_info \<Rightarrow> json" where
  "export_info_json FullExport = obj [req ''scope'' (JStr ''full''), req ''safeModeApplied'' (JBool True)]"
| "export_info_json (RoundExport i) =
     obj [req ''scope'' (JStr ''round''), req ''selectedRoundId'' (JStr i), req ''safeModeApplied'' (JBool True)]"

definition bundle_json :: "inquiry_bundle \<Rightarrow> json" where
  "bundle_json b = obj
     [req ''schemaVersion'' (JStr (bundle_schemaVersion b)), req ''journey'' (journey_json (journey b)),
      req ''snapshots'' (jlist snapshot_json (snapshots b)), req ''cardLineage'' (jlist lineage_json (cardLineage b)),
      opt ''exportInfo'' export_info_json (exportInfo b)]"

section \<open>The policy tables\<close>

definition BUNDLE_FIELDS :: policy_table where
  "BUNDLE_FIELDS =
    [(''schemaVersion'', Preserve), (''journey'', Rebuild), (''snapshots'', Rebuild), (''cardLineage'', Rebuild),
     (''exportInfo'', Preserve)]"

definition JOURNEY_FIELDS :: policy_table where
  "JOURNEY_FIELDS =
    [(''schemaVersion'', Preserve), (''journeyId'', Preserve), (''title'', Redact), (''originSnapshotIds'', Preserve),
     (''roundRecords'', Rebuild), (''headRoundIds'', Preserve), (''defaultHeadRoundId'', Preserve),
     (''createdAt'', Preserve), (''updatedAt'', Preserve)]"

definition ROUND_FIELDS :: policy_table where
  "ROUND_FIELDS =
    [(''roundId'', Preserve), (''createdAt'', Preserve), (''updatedAt'', Preserve), (''stage'', Preserve),
     (''iteration'', Preserve), (''parentRoundIds'', Preserve), (''status'', Preserve), (''theme'', Redact),
     (''inputSnapshotIds'', Preserve), (''outputSnapshotId'', Preserve), (''handoff'', Rebuild)]"

definition HANDOFF_FIELDS :: policy_table where
  "HANDOFF_FIELDS =
    [(''carryoverRefs'', Rebuild), (''heldRefs'', Rebuild), (''unresolvedQuestions'', Redact),
     (''fieldworkRequests'', Rebuild), (''understandingDelta'', Redact)]"

definition FIELDWORK_REQUEST_FIELDS :: policy_table where
  "FIELDWORK_REQUEST_FIELDS =
    [(''requestId'', Preserve), (''question'', Redact), (''outcome'', Rebuild)]"

definition FIELDWORK_OUTCOME_FIELDS :: policy_table where
  "FIELDWORK_OUTCOME_FIELDS =
    [(''kind'', Preserve), (''responseCardRefs'', Rebuild), (''note'', Redact)]"

definition SNAPSHOT_FIELDS :: policy_table where
  "SNAPSHOT_FIELDS =
    [(''schemaVersion'', Preserve), (''snapshotId'', Preserve), (''createdAt'', Preserve),
     (''canonicalDigest'', Rebuild), (''document'', Rebuild)]"

definition CARD_ADDRESS_FIELDS :: policy_table where
  "CARD_ADDRESS_FIELDS =
    [(''snapshotId'', Preserve), (''cardId'', Preserve)]"

definition ARTIFACT_REF_FIELDS :: policy_table where
  "ARTIFACT_REF_FIELDS =
    [(''snapshotId'', Preserve), (''kind'', Preserve), (''entityId'', Preserve)]"

definition ONE_TO_ONE_LINEAGE_FIELDS :: policy_table where
  "ONE_TO_ONE_LINEAGE_FIELDS =
    [(''lineageId'', Preserve), (''kind'', Preserve), (''from'', Rebuild), (''to'', Rebuild)]"

definition DERIVED_LINEAGE_FIELDS :: policy_table where
  "DERIVED_LINEAGE_FIELDS =
    [(''lineageId'', Preserve), (''kind'', Preserve), (''from'', Rebuild), (''to'', Rebuild)]"

definition SPLIT_LINEAGE_FIELDS :: policy_table where
  "SPLIT_LINEAGE_FIELDS =
    [(''lineageId'', Preserve), (''kind'', Preserve), (''from'', Rebuild), (''to'', Rebuild)]"

definition MERGED_LINEAGE_FIELDS :: policy_table where
  "MERGED_LINEAGE_FIELDS =
    [(''lineageId'', Preserve), (''kind'', Preserve), (''from'', Rebuild), (''to'', Rebuild)]"

definition NEW_LINEAGE_FIELDS :: policy_table where
  "NEW_LINEAGE_FIELDS =
    [(''lineageId'', Preserve), (''kind'', Preserve), (''to'', Rebuild)]"

definition RETIRED_LINEAGE_FIELDS :: policy_table where
  "RETIRED_LINEAGE_FIELDS =
    [(''lineageId'', Preserve), (''kind'', Preserve), (''from'', Rebuild)]"


definition handoff_rules :: rebuilders where
  "handoff_rules =
     [(''carryoverRefs'', each (by_table ARTIFACT_REF_FIELDS [])), (''heldRefs'', each (by_table ARTIFACT_REF_FIELDS [])),
      (''fieldworkRequests'', each (by_table FIELDWORK_REQUEST_FIELDS [(''outcome'',
         whole (by_table FIELDWORK_OUTCOME_FIELDS [(''responseCardRefs'', each (by_table CARD_ADDRESS_FIELDS []))]))]))]"

definition round_rules :: rebuilders where
  "round_rules = [(''handoff'', whole (by_table HANDOFF_FIELDS handoff_rules))]"

text \<open>The digest is kept at this point, and computed again when the projection is serialised.\<close>

definition snapshot_rules :: rebuilders where
  "snapshot_rules = [(''canonicalDigest'', Some), (''document'', whole (by_table DOCUMENT_FIELDS (document_rules False)))]"

definition one_or_many :: "json \<Rightarrow> json option" where
  "one_or_many v = (case v of JArr vs \<Rightarrow> each (by_table CARD_ADDRESS_FIELDS []) v | _ \<Rightarrow> Some (by_table CARD_ADDRESS_FIELDS [] v))"

definition lineage_table :: "json \<Rightarrow> policy_table" where
  "lineage_table v =
     (if js_prop v ''kind'' = JStr ''new'' then NEW_LINEAGE_FIELDS
      else if js_prop v ''kind'' = JStr ''retired'' then RETIRED_LINEAGE_FIELDS
      else if js_prop v ''kind'' = JStr ''derived'' then DERIVED_LINEAGE_FIELDS
      else if js_prop v ''kind'' = JStr ''merged'' then MERGED_LINEAGE_FIELDS
      else if js_prop v ''kind'' = JStr ''split'' then SPLIT_LINEAGE_FIELDS
      else ONE_TO_ONE_LINEAGE_FIELDS)"

definition lineage_rule :: "json \<Rightarrow> json" where
  "lineage_rule v = by_table (lineage_table v) [(''from'', one_or_many), (''to'', one_or_many)] v"

definition bundle_rules :: rebuilders where
  "bundle_rules =
     [(''journey'', whole (by_table JOURNEY_FIELDS [(''roundRecords'', each (by_table ROUND_FIELDS round_rules))])),
      (''snapshots'', each (by_table SNAPSHOT_FIELDS snapshot_rules)), (''cardLineage'', each lineage_rule)]"

section \<open>Rebuilding a bundle\<close>

lemma cloneAddress_id [simp]: "cloneAddress a = a" "cloneAddress = id"
  by (simp_all add: cloneAddress_def fun_eq_iff)

lemma cloneArtifactRef_id [simp]: "cloneArtifactRef r = r" "cloneArtifactRef = id"
  by (simp_all add: cloneArtifactRef_def fun_eq_iff)

lemma sanitizeLineage_eq:
  "sanitizeLineage e = (if (case e of Derived _ fs _ \<Rightarrow> length fs < 1 | Merged _ fs _ \<Rightarrow> length fs < 2 | Split _ _ ts \<Rightarrow> length ts < 2 | _ \<Rightarrow> False)
     then None else Some e)"
  by (cases e) (auto split: list.splits)

lemma those_Some_id: "(\<forall>x\<in>set xs. f x = Some x) \<Longrightarrow> those (map f xs) = Some xs"
  by (induction xs) auto

lemma those_None: "x \<in> set xs \<Longrightarrow> f x = None \<Longrightarrow> those (map f xs) = None"
  by (induction xs) (auto split: option.splits)

definition lineage_short :: "lineage_edge \<Rightarrow> bool" where
  "lineage_short e = (case e of Derived _ fs _ \<Rightarrow> length fs < 1 | Merged _ fs _ \<Rightarrow> length fs < 2 | Split _ _ ts \<Rightarrow> length ts < 2 | _ \<Rightarrow> False)"

lemma lineage_kept: "those (map sanitizeLineage es) = (if list_all (\<lambda>e. \<not> lineage_short e) es then Some es else None)"
proof (cases "list_all (\<lambda>e. \<not> lineage_short e) es")
  case True
  then show ?thesis by (subst those_Some_id) (auto simp: sanitizeLineage_eq list_all_iff lineage_short_def)
next
  case False
  then obtain e where "e \<in> set es" "lineage_short e" by (auto simp: list_all_iff)
  then show ?thesis using False by (subst those_None [of e]) (auto simp: sanitizeLineage_eq lineage_short_def)
qed

lemma sanitizeBundleContents_eq:
  "sanitizeBundleContents b = (if list_all (\<lambda>e. \<not> lineage_short e) (cardLineage b)
     then Some (b\<lparr>journey := sanitizeJourney (journey b), snapshots := map sanitizeSnapshot (snapshots b)\<rparr>) else None)"
  by (simp add: sanitizeBundleContents_def lineage_kept)

lemma short_bad: "lineage_short e \<Longrightarrow> lineage_cardinality_bad e"
  by (cases e) (simp_all add: lineage_short_def lineage_cardinality_bad_def)

lemma short_issues: "lineage_short e \<Longrightarrow> lineage_issues m sn og ow e \<noteq> []"
  by (simp add: lineage_issues_def short_bad case_prod_beta)

lemma valid_lineage_long: "validateInquiryBundle dp b = [] \<Longrightarrow> list_all (\<lambda>e. \<not> lineage_short e) (cardLineage b)"
  unfolding validate_blocks Let_def list_all_iff using short_issues by blast

section \<open>Validation does not see the texts\<close>

abbreviation over :: "('b \<Rightarrow> 'c) \<Rightarrow> ('a \<times> 'b) list \<Rightarrow> ('a \<times> 'c) list" where
  "over f m \<equiv> map (\<lambda>(k, v). (k, f v)) m"

lemma update_over: "AList.update k (f v) (over f m) = over f (AList.update k v m)"
  by (induction m) auto

lemma new_map_over: "new_map (map (\<lambda>x. (g x, f (h x))) xs) = over f (new_map (map (\<lambda>x. (g x, h x)) xs))"
proof -
  have "fold (\<lambda>(k, v) m. AList.update k v m) (map (\<lambda>x. (g x, f (h x))) xs) (over f m) =
      over f (fold (\<lambda>(k, v) m. AList.update k v m) (map (\<lambda>x. (g x, h x)) xs) m)" for m
    by (induction xs arbitrary: m) (simp_all add: update_over)
  from this [of "[]"] show ?thesis by (simp add: new_map_def case_prod_beta)
qed

lemma map_of_over [simp]: "map_of (over f m) k = map_option f (map_of m k)"
  by (induction m) auto

lemma sanitizeRound_keeps [simp]:
  "roundId (sanitizeRound r) = roundId r" "round_createdAt (sanitizeRound r) = round_createdAt r"
  "round_updatedAt (sanitizeRound r) = round_updatedAt r" "stage (sanitizeRound r) = stage r" "iteration (sanitizeRound r) = iteration r"
  "parentRoundIds (sanitizeRound r) = parentRoundIds r" "status (sanitizeRound r) = status r"
  "inputSnapshotIds (sanitizeRound r) = inputSnapshotIds r" "outputSnapshotId (sanitizeRound r) = outputSnapshotId r"
  "handoff (sanitizeRound r) = map_option sanitizeHandoff (handoff r)"
  by (simp_all add: sanitizeRound_def)

lemma rounds_by_id_sanitized: "rounds_by_id (map sanitizeRound rs) = over sanitizeRound (rounds_by_id rs)"
  using new_map_over [of roundId sanitizeRound id rs] by (simp add: rounds_by_id_def o_def)

lemma parents_over [simp]: "parents_of (over sanitizeRound m) i = parents_of m i"
  by (cases "map_of m i") (simp_all add: parents_of_def)

lemma collect_loop_parents:
  "(\<And>i. parents_of m' i = parents_of m i) \<Longrightarrow> collect_loop m' anc pend = collect_loop m anc pend"
proof (induction m anc pend rule: collect_loop.induct)
  case (1 m anc pend)
  show ?case
  proof (cases "pend = []")
    case True
    then show ?thesis by (simp add: collect_loop.simps)
  next
    case False
    show ?thesis
      unfolding collect_loop.simps [of m' anc pend] collect_loop.simps [of m anc pend] Let_def
      using 1(1) [OF False refl refl _ 1(3)] 1(2) [OF False refl refl _ 1(3)] by (simp add: 1(3))
  qed
qed

lemma collectAncestorIds_over [simp]: "collectAncestorIds i (over sanitizeRound m) = collectAncestorIds i m"
  unfolding collectAncestorIds_def parents_over by (rule collect_loop_parents) simp

lemma max_iteration_over [simp]: "max_iteration (over sanitizeRound m) stg anc = max_iteration m stg anc"
proof -
  have "(\<lambda>a best. case map_of (over sanitizeRound m) a of None \<Rightarrow> best | Some r \<Rightarrow> if stage r = stg then max best (iteration r) else best) =
      (\<lambda>a best. case map_of m a of None \<Rightarrow> best | Some r \<Rightarrow> if stage r = stg then max best (iteration r) else best)"
    by (simp add: fun_eq_iff split: option.split)
  then show ?thesis by (simp add: max_iteration_def)
qed

lemma round_issues_sanitized: "round_issues dp (over sanitizeRound m) (sanitizeRound r) = round_issues dp m r"
  unfolding round_issues_def expectedIteration_def sanitizeRound_keeps collectAncestorIds_over max_iteration_over map_of_over
    option.map_disc_iff ..

lemma known_parents_over [simp]: "known_parents (over sanitizeRound m) i = known_parents m i"
  by (simp add: known_parents_def)

lemma visit_over: "visit (over sanitizeRound m) n i st = visit m n i st"
proof (induction n arbitrary: i st)
  case (Suc n)
  then have "(\<lambda>p s. visit (over sanitizeRound m) n p s) = (\<lambda>p s. visit m n p s)" by (simp add: fun_eq_iff)
  then show ?case by (cases st) (simp split: option.split)
qed simp

lemma cycle_issues_sanitized: "cycle_issues (over sanitizeRound m) (map sanitizeRound rs) = cycle_issues m rs"
proof -
  have "visit (over sanitizeRound m) n = visit m n" for n by (simp add: fun_eq_iff visit_over)
  then show ?thesis by (simp add: cycle_issues_def o_def)
qed

lemma sanitizeJourney_keeps [simp]:
  "journey_schemaVersion (sanitizeJourney j) = journey_schemaVersion j" "originSnapshotIds (sanitizeJourney j) = originSnapshotIds j"
  "roundRecords (sanitizeJourney j) = map sanitizeRound (roundRecords j)" "headRoundIds (sanitizeJourney j) = headRoundIds j"
  "defaultHeadRoundId (sanitizeJourney j) = defaultHeadRoundId j" "journey_createdAt (sanitizeJourney j) = journey_createdAt j"
  "journey_updatedAt (sanitizeJourney j) = journey_updatedAt j"
  by (simp_all add: sanitizeJourney_def)

lemma sanitized_ids [simp]:
  "card_id (sanitizeCard c inc) = card_id c" "island_id (sanitizeIsland i) = island_id i" "narr_id (sanitizeNarrative n) = narr_id n"
  "rel_id (sanitizeRelationSummary r) = rel_id r"
  by (simp_all add: sanitizeCard_def sanitizeIsland_def sanitizeNarrative_def sanitizeRelationSummary_def)

lemma sanitizeSnapshot_keeps [simp]:
  "snap_schemaVersion (sanitizeSnapshot s) = snap_schemaVersion s" "snapshotId (sanitizeSnapshot s) = snapshotId s"
  "snap_createdAt (sanitizeSnapshot s) = snap_createdAt s" "canonicalDigest (sanitizeSnapshot s) = canonicalDigest s"
  "map card_id (cards (snap_document (sanitizeSnapshot s))) = map card_id (cards (snap_document s))"
  "getArtifactIds (sanitizeSnapshot s) k = getArtifactIds s k"
proof -
  have n: "nullish (map_option (map f) x) [] = map f (nullish x [])" for f and x :: "'b list option" by (cases x) auto
  show "getArtifactIds (sanitizeSnapshot s) k = getArtifactIds s k"
    by (cases k) (simp_all add: getArtifactIds_def sanitizeSnapshot_def deriveDocumentSafeModeProjection_def o_def n)
qed (simp_all add: sanitizeSnapshot_def deriveDocumentSafeModeProjection_def o_def)

lemma snapshots_by_id_sanitized: "snapshots_by_id (map sanitizeSnapshot ss) = over sanitizeSnapshot (snapshots_by_id ss)"
  using new_map_over [of snapshotId sanitizeSnapshot id ss] by (simp add: snapshots_by_id_def o_def)

lemma has_card_sanitized [simp]: "has_card (over sanitizeSnapshot sn) a = has_card sn a"
proof -
  have "list_ex (\<lambda>c. card_id c = i) (cards (snap_document (sanitizeSnapshot s))) = list_ex (\<lambda>c. card_id c = i) (cards (snap_document s))" for i s
    by (simp add: sanitizeSnapshot_def deriveDocumentSafeModeProjection_def list_ex_iff)
  then show ?thesis by (simp add: has_card_def split: option.split)
qed

lemma sanitized_blocks:
  "snapshot_issues dp (sanitizeSnapshot s) = snapshot_issues dp s"
  "origin_issues (sanitizeJourney j) (over sanitizeSnapshot sn) = origin_issues j sn"
  "output_owners (over sanitizeSnapshot sn) og (map sanitizeRound rs) = output_owners sn og rs"
  "unowned_issues (map sanitizeSnapshot ss) og ow = unowned_issues ss og ow"
  "input_issues (over sanitizeRound m) (over sanitizeSnapshot sn) og ow (sanitizeRound r) = input_issues m sn og ow r"
  "lineage_issues (over sanitizeRound m) (over sanitizeSnapshot sn) og ow e = lineage_issues m sn og ow e"
proof -
  show "output_owners (over sanitizeSnapshot sn) og (map sanitizeRound rs) = output_owners sn og rs"
  proof -
    have "output_step (over sanitizeSnapshot sn) og (sanitizeRound r) = output_step sn og r" for r
      unfolding fun_eq_iff output_step_def sanitizeRound_keeps map_of_over option.map_disc_iff by simp
    then show ?thesis by (simp add: output_owners_def fold_map o_def)
  qed
  show "lineage_issues (over sanitizeRound m) (over sanitizeSnapshot sn) og ow e = lineage_issues m sn og ow e"
    unfolding lineage_issues_def has_card_sanitized collectAncestorIds_over ..
  show "input_issues (over sanitizeRound m) (over sanitizeSnapshot sn) og ow (sanitizeRound r) = input_issues m sn og ow r"
    unfolding input_issues_def sanitizeRound_keeps collectAncestorIds_over map_of_over option.map_disc_iff ..
qed (simp_all add: snapshot_issues_def origin_issues_def unowned_issues_def filter_map o_def)

lemma handoff_issues_sanitized: "handoff_issues (over sanitizeSnapshot sn) (sanitizeRound r) = handoff_issues sn r"
proof (cases "handoff r")
  case None
  then show ?thesis by (simp add: handoff_issues_def)
next
  case (Some h)
  have refs: "carryoverRefs (sanitizeHandoff h) = carryoverRefs h" "heldRefs (sanitizeHandoff h) = heldRefs h"
    "fieldworkRequests (sanitizeHandoff h) = map sanitizeFieldworkRequest (fieldworkRequests h)"
    by (simp_all add: sanitizeHandoff_def)
  have art: "(case map_option sanitizeSnapshot x of None \<Rightarrow> a | Some s \<Rightarrow> if e \<notin> set (getArtifactIds s k) then b else c) =
      (case x of None \<Rightarrow> a | Some s \<Rightarrow> if e \<notin> set (getArtifactIds s k) then b else c)" for x e k and a b c :: "issue list"
    by (cases x) simp_all
  have req: "requestId (sanitizeFieldworkRequest q) = requestId q"
    "(case outcome (sanitizeFieldworkRequest q) of None \<Rightarrow> [] | Some out \<Rightarrow> responseCardRefs out) =
     (case outcome q of None \<Rightarrow> [] | Some out \<Rightarrow> responseCardRefs out)" for q
    by (cases "outcome q"; simp add: sanitizeFieldworkRequest_def sanitizeFieldworkOutcome_def)+
  show ?thesis
    unfolding handoff_issues_def sanitizeRound_keeps Some option.map option.case refs map_of_over art has_card_sanitized list.map_comp o_def req ..
qed

lemma validate_sanitized:
  "validateInquiryBundle dp (b\<lparr>journey := sanitizeJourney (journey b), snapshots := map sanitizeSnapshot (snapshots b)\<rparr>) =
   validateInquiryBundle dp b"
proof -
  let ?b = "b\<lparr>journey := sanitizeJourney (journey b), snapshots := map sanitizeSnapshot (snapshots b)\<rparr>"
  have parts: "bundle_schemaVersion ?b = bundle_schemaVersion b" "journey ?b = sanitizeJourney (journey b)"
    "snapshots ?b = map sanitizeSnapshot (snapshots b)" "cardLineage ?b = cardLineage b" "exportInfo ?b = exportInfo b" by simp_all
  have ids: "map roundId (map sanitizeRound rs) = map roundId rs" "map parentRoundIds (map sanitizeRound rs) = map parentRoundIds rs"
    "map snapshotId (map sanitizeSnapshot ss) = map snapshotId ss" for rs ss by (simp_all add: o_def)
  have s: "schema_issues dp ?b = schema_issues dp b" unfolding schema_issues_def parts sanitizeJourney_keeps ..
  have h: "head_issues ?b (over sanitizeRound m) = head_issues b m" for m
    unfolding head_issues_def Let_def parts sanitizeJourney_keeps ids map_of_over option.map_disc_iff ..
  show ?thesis
    unfolding validateInquiryBundle_def parts Let_def s sanitizeJourney_keeps rounds_by_id_sanitized snapshots_by_id_sanitized
      sanitized_blocks ids h list.map_comp o_def round_issues_sanitized cycle_issues_sanitized handoff_issues_sanitized
    by (simp only: list.map_comp o_def sanitizeRound_keeps sanitizeSnapshot_keeps)
qed

section \<open>The bundle follows its tables\<close>

lemma address_follows [simp]: "by_table CARD_ADDRESS_FIELDS [] (address_json a) = address_json a"
  unfolding address_json_def by_table_obj by (simp add: table_simps CARD_ADDRESS_FIELDS_def)

lemma artifact_follows [simp]: "by_table ARTIFACT_REF_FIELDS [] (artifact_ref_json r) = artifact_ref_json r"
  unfolding artifact_ref_json_def by_table_obj by (simp add: table_simps ARTIFACT_REF_FIELDS_def)

lemma address_follows_o [simp]: "by_table CARD_ADDRESS_FIELDS [] \<circ> address_json = address_json"
  "by_table ARTIFACT_REF_FIELDS [] \<circ> artifact_ref_json = artifact_ref_json"
  by (simp_all add: fun_eq_iff)

lemma outcome_follows:
  "by_table FIELDWORK_OUTCOME_FIELDS [(''responseCardRefs'', each (by_table CARD_ADDRESS_FIELDS []))] (outcome_json q) =
   outcome_json (sanitizeFieldworkOutcome q)"
  unfolding outcome_json_def by_table_obj by (simp add: table_simps FIELDWORK_OUTCOME_FIELDS_def sanitizeFieldworkOutcome_def)

lemma fieldwork_follows:
  "by_table FIELDWORK_REQUEST_FIELDS [(''outcome'',
     whole (by_table FIELDWORK_OUTCOME_FIELDS [(''responseCardRefs'', each (by_table CARD_ADDRESS_FIELDS []))]))] (fieldwork_json q) =
   fieldwork_json (sanitizeFieldworkRequest q)"
  unfolding fieldwork_json_def by_table_obj
  by (simp add: table_simps FIELDWORK_REQUEST_FIELDS_def sanitizeFieldworkRequest_def outcome_follows)

lemma handoff_follows: "by_table HANDOFF_FIELDS handoff_rules (handoff_json h) = handoff_json (sanitizeHandoff h)"
  unfolding handoff_json_def by_table_obj
  by (simp add: table_simps HANDOFF_FIELDS_def handoff_rules_def sanitizeHandoff_def fieldwork_follows)

lemma round_follows: "by_table ROUND_FIELDS round_rules (round_json r) = round_json (sanitizeRound r)"
  unfolding round_json_def by_table_obj
  by (simp add: table_simps ROUND_FIELDS_def round_rules_def sanitizeRound_def handoff_follows)

lemma journey_follows:
  "by_table JOURNEY_FIELDS [(''roundRecords'', each (by_table ROUND_FIELDS round_rules))] (journey_json j) = journey_json (sanitizeJourney j)"
  unfolding journey_json_def by_table_obj
  by (simp add: table_simps JOURNEY_FIELDS_def sanitizeJourney_def round_follows)

lemma snapshot_follows:
  assumes "plain_document (snap_document s)"
  shows "by_table SNAPSHOT_FIELDS snapshot_rules (snapshot_json s) = snapshot_json (sanitizeSnapshot s)"
proof -
  have "deriveDocumentSafeModeProjection None = deriveDocumentSafeModeProjection (Some False)"
    by (simp add: deriveDocumentSafeModeProjection_def fun_eq_iff)
  then show ?thesis
    unfolding snapshot_json_def by_table_obj
    by (simp add: table_simps SNAPSHOT_FIELDS_def snapshot_rules_def sanitizeSnapshot_def document_follows [OF assms])
qed

lemma one_or_many_json [simp]:
  "one_or_many (address_json a) = Some (address_json a)" "one_or_many (jlist address_json as) = Some (jlist address_json as)"
proof -
  obtain es where "address_json a = JObj es" by (simp add: address_json_def obj_def)
  then have "one_or_many (address_json a) = Some (by_table CARD_ADDRESS_FIELDS [] (address_json a))"
    unfolding one_or_many_def by (simp only: json.case)
  then show "one_or_many (address_json a) = Some (address_json a)" by simp
  show "one_or_many (jlist address_json as) = Some (jlist address_json as)"
    using each_jlist [of "by_table CARD_ADDRESS_FIELDS []" address_json as] by (simp add: one_or_many_def jlist_def)
qed

lemma lineage_kind: "js_prop (lineage_obj i k f t) ''kind'' = JStr k"
  by (simp add: lineage_obj_def obj_def req_def)

lemma lineage_follows: "lineage_rule (lineage_json e) = lineage_json e"
  by (cases e; simp add: lineage_rule_def lineage_table_def lineage_kind;
      simp add: lineage_obj_def by_table_obj table_simps NEW_LINEAGE_FIELDS_def
      RETIRED_LINEAGE_FIELDS_def DERIVED_LINEAGE_FIELDS_def MERGED_LINEAGE_FIELDS_def SPLIT_LINEAGE_FIELDS_def ONE_TO_ONE_LINEAGE_FIELDS_def)

lemma bundle_follows:
  assumes "sanitizeBundleContents b = Some b'" and "list_all (\<lambda>s. plain_document (snap_document s)) (snapshots b)"
  shows "bundle_json b' = by_table BUNDLE_FIELDS bundle_rules (bundle_json b)"
proof -
  have b': "b' = b\<lparr>journey := sanitizeJourney (journey b), snapshots := map sanitizeSnapshot (snapshots b)\<rparr>"
    using assms(1) by (simp add: sanitizeBundleContents_eq split: if_splits)
  have "jlist (\<lambda>s. by_table SNAPSHOT_FIELDS snapshot_rules (snapshot_json s)) (snapshots b) =
      jlist (\<lambda>s. snapshot_json (sanitizeSnapshot s)) (snapshots b)"
    using assms(2) by (intro jlist_cong) (simp_all add: snapshot_follows list_all_iff)
  then show ?thesis
    unfolding bundle_json_def by_table_obj b'
    by (simp add: table_simps BUNDLE_FIELDS_def bundle_rules_def journey_follows lineage_follows)
qed

section \<open>A bundle that may be shared\<close>

lemma sanitizeHandoff_idem [simp]: "sanitizeHandoff (sanitizeHandoff h) = sanitizeHandoff h"
proof -
  have "sanitizeFieldworkOutcome (sanitizeFieldworkOutcome q) = sanitizeFieldworkOutcome q" for q
    by (simp add: sanitizeFieldworkOutcome_def option.map_comp o_def)
  then have "sanitizeFieldworkRequest (sanitizeFieldworkRequest r) = sanitizeFieldworkRequest r" for r
    by (simp add: sanitizeFieldworkRequest_def map_option_idem)
  then show ?thesis by (simp add: sanitizeHandoff_def option.map_comp o_def)
qed

lemma sanitizeJourney_idem [simp]: "sanitizeJourney (sanitizeJourney j) = sanitizeJourney j"
proof -
  have "sanitizeRound (sanitizeRound r) = sanitizeRound r" for r
    by (simp add: sanitizeRound_def map_option_idem)
  then show ?thesis by (simp add: sanitizeJourney_def)
qed

lemma sanitizeSnapshot_idem [simp]: "sanitizeSnapshot (sanitizeSnapshot s) = sanitizeSnapshot s"
proof -
  have "deriveDocumentSafeModeProjection None = deriveDocumentSafeModeProjection (Some False)"
    by (simp add: deriveDocumentSafeModeProjection_def fun_eq_iff)
  then show ?thesis by (simp add: sanitizeSnapshot_def projection_idem)
qed

lemma safe_mode_bundle_parts:
  assumes "validateInquiryBundle dp b = []"
  shows "\<exists>b'. sanitizeBundleContents b = Some b' \<and> validateInquiryBundle dp b' = [] \<and> sanitizeBundleContents b' = Some b' \<and>
    (list_all (\<lambda>s. plain_document (snap_document s)) (snapshots b) \<longrightarrow> bundle_json b' = by_table BUNDLE_FIELDS bundle_rules (bundle_json b))"
proof -
  let ?b = "b\<lparr>journey := sanitizeJourney (journey b), snapshots := map sanitizeSnapshot (snapshots b)\<rparr>"
  have long: "list_all (\<lambda>e. \<not> lineage_short e) (cardLineage b)" by (rule valid_lineage_long [OF assms])
  then have b': "sanitizeBundleContents b = Some ?b" by (simp add: sanitizeBundleContents_eq)
  moreover have "sanitizeBundleContents ?b = Some ?b" using long by (simp add: sanitizeBundleContents_eq o_def)
  ultimately show ?thesis using bundle_follows [OF b'] assms by (auto simp only: validate_sanitized)
qed

text \<open>C25. \<open>sanitizeBundleContents\<close> never throws on a bundle that \<open>validateInquiryBundle\<close> accepts (a short lineage list would make it
  throw); its result passes the same validation, is a fixed point of the projection, and, where the snapshots carry none of the three
  field groups whose sanitizer departs from its table, is exactly what the declared policy tables keep of the bundle's JSON.\<close>

theorem safe_mode_bundle:
  assumes "validateInquiryBundle dateParse b = []"
  shows "\<exists>b'. sanitizeBundleContents b = Some b' \<and> validateInquiryBundle dateParse b' = [] \<and> sanitizeBundleContents b' = Some b' \<and>
    (list_all (\<lambda>s. plain_document (snap_document s)) (snapshots b) \<longrightarrow> bundle_json b' = by_table BUNDLE_FIELDS bundle_rules (bundle_json b))"
  using assms by (rule safe_mode_bundle_parts)

lemma ex_bundle_valid: "validateInquiryBundle ex_dp ex_bundle = []"
proof -
  have "isCanonicalTimestamp ex_dp ''1970-01-01T00:00:00.000Z''" using ex_times by (simp add: times_ok_def)
  moreover have "digest_ok (''sha256:'' @ replicate 64 (CHR ''a''))" by code_simp
  ultimately have "bundle_ok ex_dp ex_bundle"
    using ex_journey_ok
    unfolding bundle_ok_def ex_bundle_def inquiry_bundle.simps snapshot_ok_def export_ok_def
    by (simp add: ex_journey_def output_list_def)
  moreover have "[] \<notin> roundId ` set (roundRecords (journey ex_bundle))" by (simp add: ex_bundle_def ex_journey_def)
  ultimately show ?thesis using validator_iff by blast
qed

theorem safe_mode_bundle_witness:
  "\<exists>b'. sanitizeBundleContents ex_bundle = Some b' \<and> validateInquiryBundle ex_dp b' = [] \<and>
     bundle_json b' = by_table BUNDLE_FIELDS bundle_rules (bundle_json ex_bundle)"
proof -
  have "list_all (\<lambda>s. plain_document (snap_document s)) (snapshots ex_bundle)"
    by (simp add: ex_bundle_def plain_document_def)
  then show ?thesis using safe_mode_bundle [OF ex_bundle_valid] by blast
qed

end
