(* ===== verification/Hil_Contract.thy ===== *)
theory Hil_Contract
  imports Json_Value JS_Strings JS_Date
begin

text \<open>
  \<open>domain/hil_rs_contract.ts\<close>: the checks at the boundary between a reviewer and the re-proposal service, on arbitrary
  parsed values. \<open>Date.parse\<close> is the argument \<open>dateParse\<close>. Objects are plain, so \<open>key in value\<close> asks for an own key.
\<close>

section \<open>Reading values\<close>

definition object_keys :: "json \<Rightarrow> string list" where
  "object_keys v = (case v of JObj es \<Rightarrow> own_keys (map fst es) | JArr vs \<Rightarrow> map nat_str [0..<length vs] | _ \<Rightarrow> [])"

definition own_key :: "string \<Rightarrow> json \<Rightarrow> bool" where
  "own_key k v = (k \<in> set (object_keys v))"

definition isNonEmptyString :: "json \<Rightarrow> bool" where
  "isNonEmptyString v = (case v of JStr s \<Rightarrow> trim s \<noteq> [] | _ \<Rightarrow> False)"

definition isIntegerNumber :: "json \<Rightarrow> bool" where
  "isIntegerNumber v = (case v of JNum (Finite r) \<Rightarrow> r = of_int \<lfloor>r\<rfloor> | _ \<Rightarrow> False)"

definition at_least_one :: "json \<Rightarrow> bool" where
  "at_least_one v = (case v of JNum (Finite r) \<Rightarrow> 1 \<le> r | _ \<Rightarrow> False)"

definition isPlainPayloadObject :: "json \<Rightarrow> bool" where
  "isPlainPayloadObject v = (case v of JObj _ \<Rightarrow> True | _ \<Rightarrow> False)"

definition is_str :: "json \<Rightarrow> bool" where
  "is_str v = (as_string v \<noteq> None)"

definition isIsoTimestamp :: "(string \<Rightarrow> int option) \<Rightarrow> json \<Rightarrow> bool" where
  "isIsoTimestamp dateParse v = (case v of JStr s \<Rightarrow> dateParse s \<noteq> None | _ \<Rightarrow> False)"

definition target_tail :: "string \<Rightarrow> bool" where
  "target_tail s = (case s of [] \<Rightarrow> False | c # cs \<Rightarrow> c \<noteq> CHR '':'' \<and> \<not> js_ws c \<and> list_all (\<lambda>d. \<not> js_ws d) cs)"

text \<open>\<open>/^(card|island|cluster|edge|proposal):[^:\s][^\s]*$/\<close>\<close>

definition isA1TargetRef :: "json \<Rightarrow> bool" where
  "isA1TargetRef v = (case v of
       JStr s \<Rightarrow> list_ex (\<lambda>p. starts_with (p @ '':'') s \<and> target_tail (drop (length p + 1) s))
         [''card'', ''island'', ''cluster'', ''edge'', ''proposal'']
     | _ \<Rightarrow> False)"

section \<open>Personal data\<close>

definition hasPiiLikeIdentityFields :: "json \<Rightarrow> bool" where
  "hasPiiLikeIdentityFields v = list_ex (\<lambda>k. own_key k v) [''provider'', ''external_uid'', ''email'']"

definition after_spaces :: "string \<Rightarrow> string option" where
  "after_spaces s = (case s of [] \<Rightarrow> None | c # cs \<Rightarrow> if js_ws c then Some (dropWhile js_ws cs) else None)"

definition provider_user_id_at :: "string \<Rightarrow> bool" where
  "provider_user_id_at s =
     (starts_with ''provider'' s \<and>
      (case after_spaces (drop 8 s) of None \<Rightarrow> False
       | Some t \<Rightarrow> starts_with ''user'' t \<and>
           (case after_spaces (drop 4 t) of None \<Rightarrow> False | Some u \<Rightarrow> starts_with ''id'' u)))"

fun some_suffix :: "(string \<Rightarrow> bool) \<Rightarrow> string \<Rightarrow> bool" where
  "some_suffix P [] \<longleftrightarrow> P []"
| "some_suffix P (c # cs) \<longleftrightarrow> P (c # cs) \<or> some_suffix P cs"

text \<open>\<open>/@|external_uid|provider\s+user\s+id|provider_user_id/i\<close>\<close>

definition hasPiiLikeText :: "string \<Rightarrow> bool" where
  "hasPiiLikeText s = some_suffix (\<lambda>t. starts_with ''@'' t \<or> starts_with ''external_uid'' t \<or> provider_user_id_at t \<or>
     starts_with ''provider_user_id'' t) (toLowerCase s)"

section \<open>Protected fields\<close>

definition HIL_RS_REVIEW_PROTECTED_KEYS :: "string list" where
  "HIL_RS_REVIEW_PROTECTED_KEYS = [''textReviewed'', ''reviewed'', ''reviewState'', ''reviewedAt'', ''reviewerRef'', ''reviewAttribution'']"

fun hasReviewProtectedField :: "json \<Rightarrow> bool" where
  "hasReviewProtectedField (JArr vs) = list_ex hasReviewProtectedField vs"
| "hasReviewProtectedField (JObj es) =
     list_ex (\<lambda>e. fst e \<in> set HIL_RS_REVIEW_PROTECTED_KEYS \<or> hasReviewProtectedField (snd e)) es"
| "hasReviewProtectedField _ = False"

definition hasOnlyAllowedKeys :: "json \<Rightarrow> string list \<Rightarrow> bool" where
  "hasOnlyAllowedKeys v allowed = list_all (\<lambda>k. k \<in> set allowed) (object_keys v)"

section \<open>The contracts\<close>

definition validateHilRsCritiqueInput :: "(string \<Rightarrow> int option) \<Rightarrow> json \<Rightarrow> bool" where
  "validateHilRsCritiqueInput dateParse v =
     (if \<not> isRecord v then False
      else if \<not> hasOnlyAllowedKeys v [''schemaVersion'', ''critiqueId'', ''targetRef'', ''critiqueType'', ''createdAt'',
          ''iteration'', ''comment'', ''constraintHints''] then False
      else if js_prop v ''schemaVersion'' \<noteq> JStr ''1.0.0'' then False
      else if \<not> isNonEmptyString (js_prop v ''critiqueId'') then False
      else if \<not> isA1TargetRef (js_prop v ''targetRef'') then False
      else if \<not> isNonEmptyString (js_prop v ''createdAt'') \<or> \<not> isIsoTimestamp dateParse (js_prop v ''createdAt'') then False
      else if \<not> isIntegerNumber (js_prop v ''iteration'') \<or> \<not> at_least_one (js_prop v ''iteration'') then False
      else if js_prop v ''critiqueType'' \<notin> JStr ` set [''too_close'', ''too_far'', ''not_the_same'', ''feels_off'',
          ''no_articulable_reason''] then False
      else if js_prop v ''comment'' \<noteq> JUndef \<and> \<not> is_str (js_prop v ''comment'') then False
      else if js_prop v ''constraintHints'' \<noteq> JUndef \<and>
          \<not> (case js_prop v ''constraintHints'' of JArr _ \<Rightarrow> True | _ \<Rightarrow> False) then False
      else if (case js_prop v ''constraintHints'' of JArr hs \<Rightarrow> list_ex (\<lambda>h. \<not> is_str h) hs | _ \<Rightarrow> False) then False
      else if own_key ''reviewed'' v \<or> own_key ''reviewState'' v \<or> own_key ''reviewedAt'' v \<or> own_key ''reviewerRef'' v then False
      else \<not> hasPiiLikeIdentityFields v)"

definition diff_op_valid :: "json \<Rightarrow> bool" where
  "diff_op_valid v =
     (if \<not> isRecord v then False
      else if \<not> hasOnlyAllowedKeys v [''opId'', ''opType'', ''targetRef'', ''before'', ''after'', ''rationale''] then False
      else if \<not> isNonEmptyString (js_prop v ''opId'') then False
      else if js_prop v ''opType'' \<notin> JStr ` set [''add'', ''remove'', ''move'', ''regroup'', ''relabel''] then False
      else if \<not> isA1TargetRef (js_prop v ''targetRef'') then False
      else if \<not> own_key ''before'' v \<or> \<not> own_key ''after'' v then False
      else if js_prop v ''before'' = JNull \<and> js_prop v ''after'' = JNull then False
      else if js_prop v ''before'' \<noteq> JNull \<and> \<not> isPlainPayloadObject (js_prop v ''before'') then False
      else if js_prop v ''after'' \<noteq> JNull \<and> \<not> isPlainPayloadObject (js_prop v ''after'') then False
      else if hasReviewProtectedField (js_prop v ''before'') \<or> hasReviewProtectedField (js_prop v ''after'') then False
      else \<not> (js_prop v ''rationale'' \<noteq> JUndef \<and> \<not> is_str (js_prop v ''rationale'')))"

definition validateHilRsRediffPayload :: "json \<Rightarrow> bool" where
  "validateHilRsRediffPayload v =
     (if \<not> isRecord v then False
      else if \<not> hasOnlyAllowedKeys v [''schemaVersion'', ''proposalId'', ''basedOnIteration'', ''diffOps'', ''traceKey'', ''rationale''] then False
      else if js_prop v ''schemaVersion'' \<noteq> JStr ''1.0.0'' then False
      else if \<not> isNonEmptyString (js_prop v ''proposalId'') then False
      else if \<not> isIntegerNumber (js_prop v ''basedOnIteration'') \<or> \<not> at_least_one (js_prop v ''basedOnIteration'') then False
      else if \<not> isNonEmptyString (js_prop v ''traceKey'') then False
      else if js_prop v ''rationale'' \<noteq> JUndef \<and> \<not> is_str (js_prop v ''rationale'') then False
      else (case js_prop v ''diffOps'' of JArr ops \<Rightarrow> ops \<noteq> [] \<and> list_all diff_op_valid ops | _ \<Rightarrow> False))"

definition validateHilRsContractErrorEnvelope :: "(string \<Rightarrow> int option) \<Rightarrow> json \<Rightarrow> bool" where
  "validateHilRsContractErrorEnvelope dateParse v =
     (if \<not> isRecord v then False
      else if \<not> hasOnlyAllowedKeys v [''schemaVersion'', ''errorCode'', ''message'', ''contractId'', ''retryable'', ''occurredAt''] then False
      else if js_prop v ''schemaVersion'' \<noteq> JStr ''1.0.0'' then False
      else if js_prop v ''errorCode'' \<notin> JStr ` set [''A1_SCHEMA_VERSION_MISMATCH'', ''A1_REQUIRED_FIELD_MISSING'',
          ''A1_TRACE_KEY_MISSING'', ''A1_OVERRIDE_POLICY_VIOLATION'', ''A1_PII_POLICY_VIOLATION''] then False
      else if \<not> isNonEmptyString (js_prop v ''message'') \<or> hasPiiLikeText (the (as_string (js_prop v ''message''))) then False
      else if js_prop v ''contractId'' \<notin> JStr ` set [''A1-CRITIQUE-IF'', ''A1-REDIFF-IF'', ''A1-ATTR-IF''] then False
      else if (case js_prop v ''retryable'' of JBool _ \<Rightarrow> False | _ \<Rightarrow> True) then False
      else isNonEmptyString (js_prop v ''occurredAt'') \<and> isIsoTimestamp dateParse (js_prop v ''occurredAt''))"

definition validateHilRsReviewAttribution :: "(string \<Rightarrow> int option) \<Rightarrow> json \<Rightarrow> bool" where
  "validateHilRsReviewAttribution dateParse v =
     (if \<not> isRecord v then False
      else if \<not> hasOnlyAllowedKeys v [''schemaVersion'', ''reviewState'', ''reviewedAt'', ''reviewerRef'', ''auditRecordedAt'',
          ''overridePolicy'', ''reviewContext'', ''ownerRef''] then False
      else if js_prop v ''schemaVersion'' \<noteq> JStr ''1.0.0'' then False
      else if js_prop v ''reviewState'' \<notin> JStr ` set [''unreviewed'', ''human_reviewed''] then False
      else if \<not> isNonEmptyString (js_prop v ''reviewerRef'') then False
      else if hasPiiLikeText (the (as_string (js_prop v ''reviewerRef''))) then False
      else if \<not> isNonEmptyString (js_prop v ''auditRecordedAt'') \<or> \<not> isIsoTimestamp dateParse (js_prop v ''auditRecordedAt'') then False
      else if js_prop v ''overridePolicy'' \<noteq> JStr ''human_dual_control_only'' then False
      else if js_prop v ''reviewContext'' \<noteq> JUndef \<and> \<not> is_str (js_prop v ''reviewContext'') then False
      else if js_prop v ''ownerRef'' \<noteq> JUndef \<and> \<not> is_str (js_prop v ''ownerRef'') then False
      else if is_str (js_prop v ''ownerRef'') \<and> hasPiiLikeText (the (as_string (js_prop v ''ownerRef''))) then False
      else if \<not> (is_str (js_prop v ''reviewedAt'') \<or> js_prop v ''reviewedAt'' = JNull) then False
      else if is_str (js_prop v ''reviewedAt'') \<and> \<not> isIsoTimestamp dateParse (js_prop v ''reviewedAt'') then False
      else if js_prop v ''reviewState'' = JStr ''human_reviewed'' \<and> \<not> isNonEmptyString (js_prop v ''reviewedAt'') then False
      else if js_prop v ''reviewState'' = JStr ''unreviewed'' \<and> js_prop v ''reviewedAt'' \<noteq> JNull then False
      else \<not> hasPiiLikeIdentityFields v)"

section \<open>What an accepted payload cannot contain\<close>

text \<open>A key that occurs anywhere inside a value.\<close>

inductive field_within :: "string \<Rightarrow> json \<Rightarrow> bool" where
  here: "(k, v) \<in> set es \<Longrightarrow> field_within k (JObj es)"
| in_field: "(k', v) \<in> set es \<Longrightarrow> field_within k v \<Longrightarrow> field_within k (JObj es)"
| in_item: "v \<in> set vs \<Longrightarrow> field_within k v \<Longrightarrow> field_within k (JArr vs)"

inductive_simps field_within_simps [simp]:
  "field_within k (JObj es)" "field_within k (JArr vs)" "field_within k JNull" "field_within k JUndef"
  "field_within k (JStr s)" "field_within k (JNum n)" "field_within k (JBool b)"

lemma protected_field_iff:
  "hasReviewProtectedField v \<longleftrightarrow> (\<exists>k\<in>set HIL_RS_REVIEW_PROTECTED_KEYS. field_within k v)"
proof (induction v rule: hasReviewProtectedField.induct)
  case (1 vs)
  then show ?case by (auto simp: list_ex_iff)
next
  case (2 es)
  have IH: "hasReviewProtectedField (snd e) \<longleftrightarrow> (\<exists>k\<in>set HIL_RS_REVIEW_PROTECTED_KEYS. field_within k (snd e))" if "e \<in> set es" for e
    using 2 that by blast
  have "hasReviewProtectedField (JObj es) \<longleftrightarrow>
      (\<exists>e\<in>set es. fst e \<in> set HIL_RS_REVIEW_PROTECTED_KEYS \<or> (\<exists>k\<in>set HIL_RS_REVIEW_PROTECTED_KEYS. field_within k (snd e)))"
    using IH by (auto simp: list_ex_iff)
  then show ?case by (simp only: field_within_simps) (metis fst_conv snd_conv prod.collapse)
qed simp_all

lemma some_suffix_iff: "some_suffix P s \<longleftrightarrow> (\<exists>pre t. s = pre @ t \<and> P t)"
proof (induction s)
  case (Cons c cs)
  then show ?case by (auto simp: Cons_eq_append_conv)
qed simp

lemma no_pii_no_at: "\<not> hasPiiLikeText s \<Longrightarrow> CHR ''@'' \<notin> set s"
proof
  assume n: "\<not> hasPiiLikeText s" and "CHR ''@'' \<in> set s"
  then obtain a b where "s = a @ CHR ''@'' # b" by (metis split_list)
  then have "toLowerCase s = toLowerCase a @ CHR ''@'' # toLowerCase b"
    by (simp add: toLowerCase_def lower_char_def)
  then have "some_suffix (starts_with ''@'') (toLowerCase s)"
    unfolding some_suffix_iff
    by (intro exI [of _ "toLowerCase a"] exI [of _ "CHR ''@'' # toLowerCase b"]) (simp add: starts_with_def)
  with n show False by (auto simp: hasPiiLikeText_def some_suffix_iff)
qed

lemma protected_keys:
  "set HIL_RS_REVIEW_PROTECTED_KEYS = {''textReviewed'', ''reviewed'', ''reviewState'', ''reviewedAt'', ''reviewerRef'', ''reviewAttribution''}"
  by (simp add: HIL_RS_REVIEW_PROTECTED_KEYS_def)

lemma valid_diff_op:
  assumes "diff_op_valid op"
  shows "js_prop op ''before'' \<noteq> JNull \<or> js_prop op ''after'' \<noteq> JNull"
    and "js_prop op ''before'' = JNull \<or> isPlainPayloadObject (js_prop op ''before'')"
    and "js_prop op ''after'' = JNull \<or> isPlainPayloadObject (js_prop op ''after'')"
    and "k \<in> set HIL_RS_REVIEW_PROTECTED_KEYS \<Longrightarrow> \<not> field_within k (js_prop op ''before'') \<and> \<not> field_within k (js_prop op ''after'')"
proof -
  show "js_prop op ''before'' \<noteq> JNull \<or> js_prop op ''after'' \<noteq> JNull"
    "js_prop op ''before'' = JNull \<or> isPlainPayloadObject (js_prop op ''before'')"
    "js_prop op ''after'' = JNull \<or> isPlainPayloadObject (js_prop op ''after'')"
    using assms by (auto simp: diff_op_valid_def split: if_splits)
  have "\<not> hasReviewProtectedField (js_prop op ''before'')" "\<not> hasReviewProtectedField (js_prop op ''after'')"
    using assms by (auto simp: diff_op_valid_def split: if_splits)
  then show "k \<in> set HIL_RS_REVIEW_PROTECTED_KEYS \<Longrightarrow> \<not> field_within k (js_prop op ''before'') \<and> \<not> field_within k (js_prop op ''after'')"
    unfolding protected_field_iff by blast
qed

text \<open>C40. A re-proposal cannot touch the protected review fields. An accepted payload has a non-empty list of operations; each
  changes something (one side is present), each side is \<open>null\<close> or a plain object, and neither side contains, at any depth, a
  property named \<open>textReviewed\<close>, \<open>reviewed\<close>, \<open>reviewState\<close>, \<open>reviewedAt\<close>, \<open>reviewerRef\<close> or \<open>reviewAttribution\<close>. These are the
  fields of cards, narratives, relation summaries and review records; the review flags of an island
  have other names and are not refused (\<open>rediff_accepts_island_review\<close>).\<close>

theorem rediff_keeps_review_state:
  assumes "validateHilRsRediffPayload v"
  shows "\<exists>ops. js_prop v ''diffOps'' = JArr ops \<and> ops \<noteq> [] \<and> (\<forall>op\<in>set ops.
    (js_prop op ''before'' \<noteq> JNull \<or> js_prop op ''after'' \<noteq> JNull) \<and>
    (\<forall>side\<in>{js_prop op ''before'', js_prop op ''after''}. side = JNull \<or> (\<exists>es. side = JObj es)) \<and>
    (\<forall>side\<in>{js_prop op ''before'', js_prop op ''after''}.
      \<forall>k\<in>{''textReviewed'', ''reviewed'', ''reviewState'', ''reviewedAt'', ''reviewerRef'', ''reviewAttribution''}.
        \<not> field_within k side))"
proof -
  obtain ops where ops: "js_prop v ''diffOps'' = JArr ops" "ops \<noteq> []" "list_all diff_op_valid ops"
    using assms by (auto simp: validateHilRsRediffPayload_def split: if_splits json.splits)
  have plain: "isPlainPayloadObject w \<Longrightarrow> \<exists>es. w = JObj es" for w by (cases w) (simp_all add: isPlainPayloadObject_def)
  have "(js_prop op ''before'' \<noteq> JNull \<or> js_prop op ''after'' \<noteq> JNull) \<and>
    (\<forall>side\<in>{js_prop op ''before'', js_prop op ''after''}. side = JNull \<or> (\<exists>es. side = JObj es)) \<and>
    (\<forall>side\<in>{js_prop op ''before'', js_prop op ''after''}. \<forall>k\<in>set HIL_RS_REVIEW_PROTECTED_KEYS. \<not> field_within k side)"
    if "op \<in> set ops" for op
  proof -
    have "diff_op_valid op" using ops(3) that by (simp add: list_all_iff)
    note v = valid_diff_op [OF this]
    show ?thesis
    proof (intro conjI ballI)
      fix side assume side: "side \<in> {js_prop op ''before'', js_prop op ''after''}"
      show "side = JNull \<or> (\<exists>es. side = JObj es)" using side v(2,3) plain by blast
      fix k assume "k \<in> set HIL_RS_REVIEW_PROTECTED_KEYS"
      from v(4) [OF this] show "\<not> field_within k side" using side by blast
    qed (rule v(1))
  qed
  then have "\<forall>op\<in>set ops. (js_prop op ''before'' \<noteq> JNull \<or> js_prop op ''after'' \<noteq> JNull) \<and>
    (\<forall>side\<in>{js_prop op ''before'', js_prop op ''after''}. side = JNull \<or> (\<exists>es. side = JObj es)) \<and>
    (\<forall>side\<in>{js_prop op ''before'', js_prop op ''after''}. \<forall>k\<in>set HIL_RS_REVIEW_PROTECTED_KEYS. \<not> field_within k side)"
    by (rule ballI)
  from this [unfolded protected_keys] show ?thesis by (intro exI [of _ ops] conjI ops(1,2))
qed

text \<open>An accepted review attribution is consistent and names nobody: it is dated exactly when a human reviewed it, the
  date parses, and neither reviewer nor owner reference contains an at sign.\<close>

theorem attribution_consistent:
  assumes "validateHilRsReviewAttribution dateParse v"
  shows "js_prop v ''reviewState'' = JStr ''human_reviewed'' \<longleftrightarrow> js_prop v ''reviewedAt'' \<noteq> JNull"
    and "js_prop v ''reviewedAt'' \<noteq> JNull \<Longrightarrow> isIsoTimestamp dateParse (js_prop v ''reviewedAt'')"
    and "\<exists>s. js_prop v ''reviewerRef'' = JStr s \<and> trim s \<noteq> [] \<and> CHR ''@'' \<notin> set s"
    and "js_prop v ''ownerRef'' = JStr s \<Longrightarrow> CHR ''@'' \<notin> set s"
proof -
  have c: "js_prop v ''reviewState'' \<in> JStr ` set [''unreviewed'', ''human_reviewed'']" "isNonEmptyString (js_prop v ''reviewerRef'')"
    "\<not> hasPiiLikeText (the (as_string (js_prop v ''reviewerRef'')))"
    "\<not> (is_str (js_prop v ''ownerRef'') \<and> hasPiiLikeText (the (as_string (js_prop v ''ownerRef''))))"
    "is_str (js_prop v ''reviewedAt'') \<or> js_prop v ''reviewedAt'' = JNull"
    "is_str (js_prop v ''reviewedAt'') \<Longrightarrow> isIsoTimestamp dateParse (js_prop v ''reviewedAt'')"
    "js_prop v ''reviewState'' = JStr ''human_reviewed'' \<Longrightarrow> isNonEmptyString (js_prop v ''reviewedAt'')"
    "js_prop v ''reviewState'' = JStr ''unreviewed'' \<Longrightarrow> js_prop v ''reviewedAt'' = JNull"
    using assms unfolding validateHilRsReviewAttribution_def by presburger+
  show "js_prop v ''reviewState'' = JStr ''human_reviewed'' \<longleftrightarrow> js_prop v ''reviewedAt'' \<noteq> JNull"
    using c(1,7,8) by (auto simp: isNonEmptyString_def)
  show "js_prop v ''reviewedAt'' \<noteq> JNull \<Longrightarrow> isIsoTimestamp dateParse (js_prop v ''reviewedAt'')"
    using c(5,6) by blast
  show "\<exists>s. js_prop v ''reviewerRef'' = JStr s \<and> trim s \<noteq> [] \<and> CHR ''@'' \<notin> set s"
    using c(2,3) no_pii_no_at by (auto simp: isNonEmptyString_def split: json.splits)
  show "js_prop v ''ownerRef'' = JStr s \<Longrightarrow> CHR ''@'' \<notin> set s"
    using c(4) no_pii_no_at by (auto simp: is_str_def)
qed

section \<open>Concrete payloads\<close>

definition ex_rediff :: json where
  "ex_rediff = JObj [(''schemaVersion'', JStr ''1.0.0''), (''proposalId'', JStr ''p''), (''basedOnIteration'', JNum (Finite 1)),
     (''traceKey'', JStr ''t''), (''diffOps'', JArr [JObj [(''opId'', JStr ''o''), (''opType'', JStr ''relabel''),
       (''targetRef'', JStr ''card:c1''), (''before'', JNull), (''after'', JObj [(''text'', JStr ''x'')])]])]"

definition ex_attribution :: json where
  "ex_attribution = JObj [(''schemaVersion'', JStr ''1.0.0''), (''reviewState'', JStr ''human_reviewed''),
     (''reviewedAt'', JStr ''now''), (''reviewerRef'', JStr ''r1''), (''auditRecordedAt'', JStr ''now''),
     (''overridePolicy'', JStr ''human_dual_control_only'')]"

theorem rediff_keeps_review_state_witness:
  "\<not> field_within ''reviewed'' (JObj [(''text'', JStr ''x'')])"
proof -
  have v: "validateHilRsRediffPayload ex_rediff" by code_simp
  have ops: "js_prop ex_rediff ''diffOps'' = JArr [JObj [(''opId'', JStr ''o''), (''opType'', JStr ''relabel''),
       (''targetRef'', JStr ''card:c1''), (''before'', JNull), (''after'', JObj [(''text'', JStr ''x'')])]]"
    by (simp add: ex_rediff_def)
  show ?thesis using rediff_keeps_review_state [OF v] by (simp add: ops)
qed

text \<open>The review flags of an island, \<open>titleReviewed\<close>, \<open>summaryReviewed\<close> and \<open>imageReviewed\<close>, are not among the
  protected names: a re-proposal that declares an island's title, summary and image reviewed is accepted.\<close>

definition island_review_rediff :: json where
  "island_review_rediff = JObj [(''schemaVersion'', JStr ''1.0.0''), (''proposalId'', JStr ''p''), (''basedOnIteration'', JNum (Finite 1)),
     (''traceKey'', JStr ''t''), (''diffOps'', JArr [JObj [(''opId'', JStr ''o''), (''opType'', JStr ''relabel''),
       (''targetRef'', JStr ''island:i1''), (''before'', JNull),
       (''after'', JObj [(''title'', JStr ''x''), (''titleReviewed'', JBool True), (''summaryReviewed'', JBool True),
          (''imageReviewed'', JBool True)])]])]"

lemma rediff_accepts_island_review: "validateHilRsRediffPayload island_review_rediff"
  by code_simp

theorem attribution_consistent_witness: "js_prop ex_attribution ''reviewedAt'' \<noteq> JNull"
proof -
  have "validateHilRsReviewAttribution (\<lambda>s. Some 0) ex_attribution" by code_simp
  from attribution_consistent(1) [OF this] show ?thesis by (simp add: ex_attribution_def)
qed

end
