(* ===== verification/Polygon_Edit.thy ===== *)
theory Polygon_Edit
  imports Document_Model
begin

text \<open>
  \<open>domain/geometry/polygon_self_intersection.ts\<close> and \<open>domain/geometry/polygon_edit.ts\<close>: which point lists are usable
  as an island outline, and moving, adding and removing a vertex. Coordinates are exact rationals: the rounding error of
  floating-point arithmetic is not modelled, the code's own tolerance and rounding are. \<open>Math.round\<close> rounds halves up.
\<close>

section \<open>Self-intersection\<close>

definition EPSILON :: rat where
  "EPSILON = 1 / 1000000000"

definition orientation :: "point \<Rightarrow> point \<Rightarrow> point \<Rightarrow> int" where
  "orientation a b c =
     (let cross = (pt_x b - pt_x a) * (pt_y c - pt_y a) - (pt_y b - pt_y a) * (pt_x c - pt_x a)
      in if \<bar>cross\<bar> \<le> EPSILON then 0 else if cross > 0 then 1 else -1)"

definition onSegment :: "point \<Rightarrow> point \<Rightarrow> point \<Rightarrow> bool" where
  "onSegment a b p =
     (pt_x p \<ge> min (pt_x a) (pt_x b) - EPSILON \<and> pt_x p \<le> max (pt_x a) (pt_x b) + EPSILON \<and>
      pt_y p \<ge> min (pt_y a) (pt_y b) - EPSILON \<and> pt_y p \<le> max (pt_y a) (pt_y b) + EPSILON)"

definition segmentsIntersect :: "point \<Rightarrow> point \<Rightarrow> point \<Rightarrow> point \<Rightarrow> bool" where
  "segmentsIntersect a1 a2 b1 b2 =
     (let o1 = orientation a1 a2 b1; o2 = orientation a1 a2 b2; o3 = orientation b1 b2 a1; o4 = orientation b1 b2 a2
      in if o1 \<noteq> o2 \<and> o3 \<noteq> o4 then True
      else if o1 = 0 \<and> onSegment a1 a2 b1 then True
      else if o2 = 0 \<and> onSegment a1 a2 b2 then True
      else if o3 = 0 \<and> onSegment b1 b2 a1 then True
      else if o4 = 0 \<and> onSegment b1 b2 a2 then True
      else False)"

definition sharesVertex :: "nat \<Rightarrow> nat \<Rightarrow> nat \<Rightarrow> bool" where
  "sharesVertex n i j = (i = j \<or> (i + 1) mod n = j \<or> i = (j + 1) mod n)"

definition isSelfIntersectingPolygon :: "point list \<Rightarrow> bool" where
  "isSelfIntersectingPolygon points =
     (let n = length points in
      if n < 4 then False
      else list_ex (\<lambda>i. list_ex (\<lambda>j. \<not> sharesVertex n i j \<and>
          segmentsIntersect (points ! i) (points ! ((i + 1) mod n)) (points ! j) (points ! ((j + 1) mod n)))
        [i + 1..<n]) [0..<n])"

section \<open>Editing\<close>

definition MIN_POLYGON_VERTEX_COUNT :: nat where
  "MIN_POLYGON_VERTEX_COUNT = 3"

datatype polygon_edit_error = Vertex_out_of_range | Min_vertex_count | Self_intersection_error

definition math_round :: "rat \<Rightarrow> int" where
  "math_round v = \<lfloor>v + 1 / 2\<rfloor>"

definition roundCoordinate :: "rat \<Rightarrow> rat" where
  "roundCoordinate v = of_int (math_round (v * 100)) / 100"

definition roundPoint :: "point \<Rightarrow> point" where
  "roundPoint p = \<lparr>pt_x = roundCoordinate (pt_x p), pt_y = roundCoordinate (pt_y p)\<rparr>"

definition validatePolygonPoints :: "point list \<Rightarrow> polygon_edit_error + point list" where
  "validatePolygonPoints points =
     (if length points < MIN_POLYGON_VERTEX_COUNT then Inl Min_vertex_count
      else if isSelfIntersectingPolygon points then Inl Self_intersection_error
      else Inr points)"

definition canUsePolygonPoints :: "point list \<Rightarrow> bool" where
  "canUsePolygonPoints points = (case validatePolygonPoints points of Inr _ \<Rightarrow> True | Inl _ \<Rightarrow> False)"

definition movePolygonVertex :: "point list \<Rightarrow> int \<Rightarrow> point \<Rightarrow> polygon_edit_error + point list" where
  "movePolygonVertex points vertexIndex p =
     (if vertexIndex < 0 \<or> vertexIndex \<ge> int (length points) then Inl Vertex_out_of_range
      else let nextPoint = roundPoint p;
               nextPoints = map (\<lambda>(index, target). if int index = vertexIndex then nextPoint else roundPoint target)
                 (enumerate 0 points)
           in validatePolygonPoints nextPoints)"

definition addPolygonVertex :: "point list \<Rightarrow> int \<Rightarrow> point \<Rightarrow> polygon_edit_error + point list" where
  "addPolygonVertex points segmentStartIndex p =
     (if segmentStartIndex < 0 \<or> segmentStartIndex \<ge> int (length points) then Inl Vertex_out_of_range
      else let nextPoints = map roundPoint points; k = nat (segmentStartIndex + 1)
           in validatePolygonPoints (take k nextPoints @ [roundPoint p] @ drop k nextPoints))"

definition removePolygonVertex :: "point list \<Rightarrow> int \<Rightarrow> polygon_edit_error + point list" where
  "removePolygonVertex points vertexIndex =
     (if vertexIndex < 0 \<or> vertexIndex \<ge> int (length points) then Inl Vertex_out_of_range
      else if length points \<le> MIN_POLYGON_VERTEX_COUNT then Inl Min_vertex_count
      else let nextPoints = map snd (filter (\<lambda>(index, _). int index \<noteq> vertexIndex) (enumerate 0 (map roundPoint points)))
           in validatePolygonPoints nextPoints)"

section \<open>Rounding\<close>

lemma round_near: "\<bar>roundCoordinate v - v\<bar> \<le> 1 / 200"
proof -
  have "of_int (math_round (v * 100)) \<le> v * 100 + 1 / 2" "v * 100 + 1 / 2 < of_int (math_round (v * 100)) + 1"
    unfolding math_round_def using floor_correct [of "v * 100 + 1 / 2"] by simp_all
  then have "\<bar>of_int (math_round (v * 100)) - v * 100\<bar> \<le> 1 / 2" by linarith
  then have "\<bar>(of_int (math_round (v * 100)) - v * 100) / 100\<bar> \<le> 1 / 200" by simp
  then show ?thesis by (simp add: roundCoordinate_def diff_divide_distrib)
qed

lemma round_of_grid: "math_round (of_int k) = k"
  by (simp add: math_round_def floor_eq_iff)

lemma roundCoordinate_idem [simp]: "roundCoordinate (roundCoordinate v) = roundCoordinate v"
  by (simp add: roundCoordinate_def round_of_grid)

lemma roundPoint_idem [simp]: "roundPoint (roundPoint p) = roundPoint p"
  by (simp add: roundPoint_def)

section \<open>Symmetry\<close>

lemma segmentsIntersect_commute: "segmentsIntersect a b c d = segmentsIntersect c d a b"
  unfolding segmentsIntersect_def Let_def by presburger

lemma sharesVertex_commute: "sharesVertex n i j = sharesVertex n j i"
  by (auto simp: sharesVertex_def)

lemma sharesVertex_refl [simp]: "sharesVertex n i i"
  by (simp add: sharesVertex_def)

text \<open>The loops look at each unordered pair once; that is every pair of segments without a common vertex.\<close>

lemma self_intersecting_iff:
  "isSelfIntersectingPolygon points \<longleftrightarrow> 4 \<le> length points \<and>
     (\<exists>i j. i < length points \<and> j < length points \<and> \<not> sharesVertex (length points) i j \<and>
        segmentsIntersect (points ! i) (points ! ((i + 1) mod length points)) (points ! j) (points ! ((j + 1) mod length points)))"
proof -
  define n where "n = length points"
  define P where "P i j \<longleftrightarrow> \<not> sharesVertex n i j \<and>
    segmentsIntersect (points ! i) (points ! ((i + 1) mod n)) (points ! j) (points ! ((j + 1) mod n))" for i j
  have sym: "P i j \<longleftrightarrow> P j i" for i j
    unfolding P_def using segmentsIntersect_commute sharesVertex_commute by blast
  have "isSelfIntersectingPolygon points \<longleftrightarrow> 4 \<le> n \<and> (\<exists>i\<in>set [0..<n]. \<exists>j\<in>set [i + 1..<n]. P i j)"
    unfolding isSelfIntersectingPolygon_def Let_def list_ex_iff P_def n_def by (simp only: not_less [symmetric]) argo
  also have "(\<exists>i\<in>set [0..<n]. \<exists>j\<in>set [i + 1..<n]. P i j) \<longleftrightarrow> (\<exists>i j. i < n \<and> j < n \<and> P i j)"
  proof
    assume "\<exists>i j. i < n \<and> j < n \<and> P i j"
    then obtain i j where ij: "i < n" "j < n" "P i j" by blast
    then have "i \<noteq> j" by (auto simp: P_def)
    then have "i < j \<or> j < i" by linarith
    then show "\<exists>i\<in>set [0..<n]. \<exists>j\<in>set [i + 1..<n]. P i j"
    proof
      assume "i < j"
      then have "i \<in> set [0..<n]" "j \<in> set [i + 1..<n]" using ij by auto
      then show ?thesis using ij(3) by blast
    next
      assume "j < i"
      then have "j \<in> set [0..<n]" "i \<in> set [j + 1..<n]" using ij by auto
      then show ?thesis using ij(3) sym by blast
    qed
  next
    assume "\<exists>i\<in>set [0..<n]. \<exists>j\<in>set [i + 1..<n]. P i j"
    then show "\<exists>i j. i < n \<and> j < n \<and> P i j" by (metis atLeastLessThan_iff set_upt)
  qed
  finally show ?thesis by (simp only: P_def n_def)
qed

definition usable :: "point list \<Rightarrow> bool" where
  "usable ps \<longleftrightarrow> 3 \<le> length ps \<and> \<not> isSelfIntersectingPolygon ps"

lemma validatePolygonPoints_Inr: "validatePolygonPoints ps = Inr qs \<longleftrightarrow> usable ps \<and> qs = ps"
  by (auto simp: validatePolygonPoints_def usable_def MIN_POLYGON_VERTEX_COUNT_def)

lemma canUse_usable: "canUsePolygonPoints ps = usable ps"
  by (auto simp: canUsePolygonPoints_def validatePolygonPoints_def usable_def MIN_POLYGON_VERTEX_COUNT_def)

lemma enumerate_update:
  "i < length ps \<Longrightarrow> map (\<lambda>(index, t). if int index = int i then v else f t) (enumerate 0 ps) = (map f ps)[i := v]"
  by (rule nth_equalityI) (auto simp: nth_enumerate_eq nth_list_update)


lemma enumerate_remove:
  "map snd (filter (\<lambda>(k, _). k \<noteq> n + i) (enumerate n ps)) = take i ps @ drop (Suc i) ps"
proof (induction ps arbitrary: n i)
  case (Cons p ps)
  show ?case
  proof (cases i)
    case 0
    have "filter (\<lambda>(k, _). k \<noteq> n) (enumerate (Suc n) ps) = enumerate (Suc n) ps"
      by (rule filter_True) (auto simp: in_set_enumerate_eq)
    with 0 show ?thesis by simp
  next
    case (Suc m)
    then show ?thesis using Cons.IH [of "Suc n" m] by simp
  qed
qed simp

text \<open>The three edits as list operations on the rounded polygon.\<close>

definition remove_at :: "nat \<Rightarrow> 'a list \<Rightarrow> 'a list" where
  "remove_at i ps = take i ps @ drop (Suc i) ps"

definition insert_at :: "nat \<Rightarrow> 'a \<Rightarrow> 'a list \<Rightarrow> 'a list" where
  "insert_at i p ps = take i ps @ [p] @ drop i ps"

lemma remove_insert [simp]: "i \<le> length ps \<Longrightarrow> remove_at i (insert_at i p ps) = ps"
  by (simp add: remove_at_def insert_at_def)

lemma move_eq:
  "movePolygonVertex ps (int i) p =
     (if i < length ps then validatePolygonPoints ((map roundPoint ps)[i := roundPoint p]) else Inl Vertex_out_of_range)"
  using enumerate_update [of i ps "roundPoint p" roundPoint] by (simp add: movePolygonVertex_def Let_def)

lemma add_eq:
  "addPolygonVertex ps (int i) p =
     (if i < length ps then validatePolygonPoints (insert_at (Suc i) (roundPoint p) (map roundPoint ps)) else Inl Vertex_out_of_range)"
  by (simp add: addPolygonVertex_def insert_at_def Let_def nat_add_distrib)

lemma remove_eq:
  "removePolygonVertex ps (int i) =
     (if i \<ge> length ps then Inl Vertex_out_of_range
      else if length ps \<le> 3 then Inl Min_vertex_count
      else validatePolygonPoints (remove_at i (map roundPoint ps)))"
proof -
  have "map snd (filter (\<lambda>(index, _). int index \<noteq> int i) (enumerate 0 (map roundPoint ps))) = remove_at i (map roundPoint ps)"
    using enumerate_remove [of 0 i "map roundPoint ps"] by (simp add: remove_at_def)
  then show ?thesis by (auto simp: removePolygonVertex_def MIN_POLYGON_VERTEX_COUNT_def Let_def)
qed

definition on_grid :: "point \<Rightarrow> bool" where
  "on_grid p \<longleftrightarrow> roundPoint p = p"

lemma polygon_edit_usable_parts:
  assumes "movePolygonVertex ps i p = Inr qs \<or> addPolygonVertex ps i p = Inr qs \<or> removePolygonVertex ps i = Inr qs"
  shows "3 \<le> length qs"
    and "\<not> (\<exists>i j. i < length qs \<and> j < length qs \<and> 4 \<le> length qs \<and> \<not> sharesVertex (length qs) i j \<and>
      segmentsIntersect (qs ! i) (qs ! ((i + 1) mod length qs)) (qs ! j) (qs ! ((j + 1) mod length qs)))"
    and "list_all on_grid qs"
    and "\<forall>q\<in>set qs. \<exists>r\<in>insert p (set ps). \<bar>pt_x q - pt_x r\<bar> \<le> 1 / 200 \<and> \<bar>pt_y q - pt_y r\<bar> \<le> 1 / 200"
proof -
  have "0 \<le> i"
    using assms by (auto simp: movePolygonVertex_def addPolygonVertex_def removePolygonVertex_def split: if_splits)
  then obtain k where k: "i = int k" by (metis nonneg_int_cases)
  have u: "usable qs" and sub: "set qs \<subseteq> roundPoint ` insert p (set ps)"
    using assms set_update_subset_insert [of "map roundPoint ps" k "roundPoint p"]
    by (auto simp: k move_eq add_eq remove_eq validatePolygonPoints_Inr insert_at_def remove_at_def
        split: if_splits dest!: in_set_takeD in_set_dropD)
  from u show "3 \<le> length qs" by (simp add: usable_def)
  from u show "\<not> (\<exists>i j. i < length qs \<and> j < length qs \<and> 4 \<le> length qs \<and> \<not> sharesVertex (length qs) i j \<and>
      segmentsIntersect (qs ! i) (qs ! ((i + 1) mod length qs)) (qs ! j) (qs ! ((j + 1) mod length qs)))"
    unfolding usable_def self_intersecting_iff by blast
  from sub show "list_all on_grid qs" by (auto simp: list_all_iff on_grid_def)
  from sub show "\<forall>q\<in>set qs. \<exists>r\<in>insert p (set ps). \<bar>pt_x q - pt_x r\<bar> \<le> 1 / 200 \<and> \<bar>pt_y q - pt_y r\<bar> \<le> 1 / 200"
    using round_near by (fastforce simp: roundPoint_def)
qed

text \<open>A polygon edit keeps the outline usable. Whatever the outline was, an edit that succeeds gives at least three
  vertices, no two sides without a common vertex that meet, and coordinates on the grid of hundredths, each vertex kept
  within half a hundredth of where it was.\<close>

theorem polygon_edit_usable:
  assumes "movePolygonVertex ps i p = Inr qs \<or> addPolygonVertex ps i p = Inr qs \<or> removePolygonVertex ps i = Inr qs"
  shows "(3 \<le> length qs)
    \<and> (\<not> (\<exists>i j. i < length qs \<and> j < length qs \<and> 4 \<le> length qs \<and> \<not> sharesVertex (length qs) i j \<and>
      segmentsIntersect (qs ! i) (qs ! ((i + 1) mod length qs)) (qs ! j) (qs ! ((j + 1) mod length qs))))
    \<and> (list_all on_grid qs)
    \<and> (\<forall>q\<in>set qs. \<exists>r\<in>insert p (set ps). \<bar>pt_x q - pt_x r\<bar> \<le> 1 / 200 \<and> \<bar>pt_y q - pt_y r\<bar> \<le> 1 / 200)"
  using polygon_edit_usable_parts [OF assms] by blast

text \<open>Removing the vertex just added gives back the outline: for a usable outline on the grid, if a vertex can be added
  behind a vertex, removing it again succeeds with the outline unchanged.\<close>

theorem add_remove_vertex:
  assumes "addPolygonVertex ps i p = Inr qs" and "usable ps" and "list_all on_grid ps"
  shows "removePolygonVertex qs (i + 1) = Inr ps"
proof -
  have "0 \<le> i" using assms(1) by (auto simp: addPolygonVertex_def split: if_splits)
  then obtain k where k: "i = int k" by (metis nonneg_int_cases)
  have grid: "map roundPoint ps = ps" using assms(3) by (auto simp: list_all_iff on_grid_def intro: map_idI)
  have a: "k < length ps" "qs = insert_at (Suc k) (roundPoint p) ps"
    using assms(1) by (auto simp: k add_eq grid validatePolygonPoints_Inr split: if_splits)
  have len: "length qs = Suc (length ps)" using a by (simp add: insert_at_def)
  have qs: "map roundPoint qs = qs"
    using grid by (simp add: a(2) insert_at_def take_map [symmetric] drop_map [symmetric])
  have r: "remove_at (Suc k) qs = ps" using a by simp
  have "removePolygonVertex qs (int (Suc k)) = validatePolygonPoints ps"
    using a(1) assms(2) unfolding remove_eq qs r by (simp add: len usable_def)
  moreover have "validatePolygonPoints ps = Inr ps" using assms(2) by (simp add: validatePolygonPoints_Inr)
  moreover have "i + 1 = int (Suc k)" by (simp add: k)
  ultimately show ?thesis by (simp only:)
qed

section \<open>A concrete edit\<close>

definition ex_square :: "point list" where
  "ex_square = [\<lparr>pt_x = 0, pt_y = 0\<rparr>, \<lparr>pt_x = 4, pt_y = 0\<rparr>, \<lparr>pt_x = 4, pt_y = 4\<rparr>, \<lparr>pt_x = 0, pt_y = 4\<rparr>]"

lemma ex_added: "\<exists>qs. addPolygonVertex ex_square 0 \<lparr>pt_x = 2, pt_y = -1\<rparr> = Inr qs"
proof -
  have "(case addPolygonVertex ex_square 0 \<lparr>pt_x = 2, pt_y = -1\<rparr> of Inr _ \<Rightarrow> True | Inl _ \<Rightarrow> False)" by code_simp
  then show ?thesis by (auto split: sum.splits)
qed

theorem polygon_edit_usable_witness:
  "\<exists>qs. addPolygonVertex ex_square 0 \<lparr>pt_x = 2, pt_y = -1\<rparr> = Inr qs \<and> list_all on_grid qs"
  using ex_added polygon_edit_usable by blast

theorem add_remove_vertex_witness:
  "\<exists>qs. addPolygonVertex ex_square 0 \<lparr>pt_x = 2, pt_y = -1\<rparr> = Inr qs \<and> removePolygonVertex qs 1 = Inr ex_square"
proof -
  have "usable ex_square" "list_all on_grid ex_square" by code_simp+
  with ex_added show ?thesis using add_remove_vertex [of ex_square 0] by fastforce
qed

end
