(* ===== verification/Import_Document.thy ===== *)
theory Import_Document
  imports Document_Model Hil_Contract Polygon_Edit
begin

text \<open>
  \<open>domain/validate.ts\<close>: reading an arbitrary parsed value as a document. Required parts reject the value with an error;
  optional parts are repaired: entries that do not fit are dropped, unknown fields are not copied, dates are rewritten
  in the canonical form, and parent references of islands that lead nowhere or in a circle are removed.

  The result is typed where the code rebuilds the part from known fields. The critique inputs, re-proposal diffs and the
  review attribution are passed through as they came once their contract accepts them, so they stay raw values; the counts
  of a patch log entry may be any finite number. The clock is the argument \<open>now\<close>, \<open>Date.parse\<close> the argument
  \<open>dateParse\<close>.
\<close>

section \<open>Small readers\<close>

definition toNumber :: "json \<Rightarrow> rat option" where
  "toNumber v = (case v of JNum (Finite r) \<Rightarrow> Some r | _ \<Rightarrow> None)"

definition as_bool :: "json \<Rightarrow> bool option" where
  "as_bool v = (case v of JBool b \<Rightarrow> Some b | _ \<Rightarrow> None)"

definition as_array :: "json \<Rightarrow> json list option" where
  "as_array v = (case v of JArr vs \<Rightarrow> Some vs | _ \<Rightarrow> None)"

text \<open>\<open>Array.isArray(v) ? v.filter(isString) : undefined\<close>, and the variant that wants only strings.\<close>

definition strings_of :: "json \<Rightarrow> string list option" where
  "strings_of v = map_option (List.map_filter as_string) (as_array v)"

definition all_strings :: "json \<Rightarrow> string list option" where
  "all_strings v = (case as_array v of None \<Rightarrow> None
     | Some vs \<Rightarrow> if list_all is_str vs then Some (List.map_filter as_string vs) else None)"

definition enum_of :: "(string \<times> 'a) list \<Rightarrow> json \<Rightarrow> 'a option" where
  "enum_of table v = (case v of JStr s \<Rightarrow> map_of table s | _ \<Rightarrow> None)"

text \<open>A value that is \<open>null\<close> or fits: \<open>Some None\<close>, \<open>Some (Some x)\<close>, or no reading.\<close>

definition null_or :: "(json \<Rightarrow> 'a option) \<Rightarrow> json \<Rightarrow> 'a option option" where
  "null_or f v = (if v = JNull then Some None else map_option Some (f v))"

definition nonempty_opt :: "'a list \<Rightarrow> 'a list option" where
  "nonempty_opt xs = (if length xs > 0 then Some xs else None)"

definition nonempty_str :: "json \<Rightarrow> string option" where
  "nonempty_str v = (case v of JStr s \<Rightarrow> if length s > 0 then Some s else None | _ \<Rightarrow> None)"

section \<open>Transform, cards, edges\<close>

definition parseTransform :: "json \<Rightarrow> transform option" where
  "parseTransform v =
     (if \<not> isRecord v then None
      else case (toNumber (js_prop v ''panX''), toNumber (js_prop v ''panY''), toNumber (js_prop v ''zoom'')) of
        (Some x, Some y, Some z) \<Rightarrow> Some \<lparr>panX = x, panY = y, zoom = z\<rparr>
      | _ \<Rightarrow> None)"

definition claim_type_names :: "(string \<times> claim_type) list" where
  "claim_type_names = [(''fact'', Fact), (''claim'', Claim), (''hypothesis'', Hypothesis), (''unknown'', UnknownClaim)]"

definition parseClaimType :: "json \<Rightarrow> claim_type option" where
  "parseClaimType v = enum_of claim_type_names v"

definition parseCritiqueTags :: "json \<Rightarrow> string list option" where
  "parseCritiqueTags v = Option.bind (strings_of v) nonempty_opt"

definition parseCardMeta :: "json \<Rightarrow> card_meta option" where
  "parseCardMeta v =
     (if \<not> isRecord v then None
      else let seq = toNumber (js_prop v ''seq''); source = nonempty_str (js_prop v ''source'')
        in if seq = None \<and> source = None then None else Some \<lparr>meta_seq = seq, meta_source = source\<rparr>)"

definition parseCardKa :: "json \<Rightarrow> card_ka option" where
  "parseCardKa v =
     (if \<not> isRecord v then None
      else let voice = nonempty_str (js_prop v ''voice''); cardValue = nonempty_str (js_prop v ''value'')
        in if voice = None \<and> cardValue = None then None else Some \<lparr>ka_voice = voice, ka_value = cardValue\<rparr>)"

definition hold_state_names :: "(string \<times> hold_state) list" where
  "hold_state_names = [(''held'', Held), (''pending'', Pending), (''shelved'', Shelved)]"

definition parse_card_item :: "json \<Rightarrow> card option" where
  "parse_card_item item =
     (if \<not> isRecord item then None
      else case (as_string (js_prop item ''id''), as_string (js_prop item ''text''),
                 toNumber (js_prop item ''x''), toNumber (js_prop item ''y'')) of
        (Some i, Some t, Some x, Some y) \<Rightarrow> Some
          \<lparr>card_id = i, card_text = t, card_x = x, card_y = y, claimType = parseClaimType (js_prop item ''claimType''),
           mergedIntoCardId = as_string (js_prop item ''mergedIntoCardId''), repOf = all_strings (js_prop item ''repOf''),
           canonicalId = as_string (js_prop item ''canonicalId''), sources = all_strings (js_prop item ''sources''),
           card_critique = as_string (js_prop item ''critique''), card_critiqueTags = parseCritiqueTags (js_prop item ''critiqueTags''),
           textReviewed = as_bool (js_prop item ''textReviewed''), holdState = enum_of hold_state_names (js_prop item ''holdState''),
           card_meta_of = parseCardMeta (js_prop item ''meta''), card_ka_of = parseCardKa (js_prop item ''ka'')\<rparr>
      | _ \<Rightarrow> None)"

fun all_or_none :: "('a \<Rightarrow> 'b option) \<Rightarrow> 'a list \<Rightarrow> 'b list option" where
  "all_or_none f [] = Some []"
| "all_or_none f (x # xs) = (case f x of None \<Rightarrow> None | Some y \<Rightarrow> map_option (Cons y) (all_or_none f xs))"

definition parseCards :: "json \<Rightarrow> card list option" where
  "parseCards v = Option.bind (as_array v) (all_or_none parse_card_item)"

definition end_kind :: "json \<Rightarrow> endpoint_kind" where
  "end_kind v = (if v = JStr ''island'' then IslandEnd else CardEnd)"

definition parse_edge_item :: "json \<Rightarrow> edge option" where
  "parse_edge_item item =
     (if \<not> isRecord item then None
      else case (as_string (js_prop item ''id''), as_string (js_prop item ''fromId''), as_string (js_prop item ''toId''),
                 nonempty_str (js_prop item ''type'')) of
        (Some i, Some f, Some t, Some ty) \<Rightarrow> Some \<lparr>edge_id = i, fromId = f, toId = t,
           fromKind = Some (end_kind (js_prop item ''fromKind'')), toKind = Some (end_kind (js_prop item ''toKind'')), edge_type = ty\<rparr>
      | _ \<Rightarrow> None)"

definition parseEdges :: "json \<Rightarrow> edge list" where
  "parseEdges v = List.map_filter parse_edge_item (nullish (as_array v) [])"

section \<open>Islands\<close>

definition parse_point :: "json \<Rightarrow> point option" where
  "parse_point v =
     (if \<not> isRecord v then None
      else case (toNumber (js_prop v ''x''), toNumber (js_prop v ''y'')) of
        (Some x, Some y) \<Rightarrow> Some \<lparr>pt_x = x, pt_y = y\<rparr> | _ \<Rightarrow> None)"

definition parseIslandGeometry :: "json \<Rightarrow> island_geometry option" where
  "parseIslandGeometry v =
     (if \<not> isRecord v then None
      else if js_prop v ''type'' = JStr ''rect''
      then Some (RectGeometry (toNumber (js_prop v ''x'')) (toNumber (js_prop v ''y'')) (toNumber (js_prop v ''w'')) (toNumber (js_prop v ''h'')))
      else if js_prop v ''type'' = JStr ''polygon''
      then let rawPoints = (case as_array (js_prop v ''points'') of Some ps \<Rightarrow> ps
                 | None \<Rightarrow> if isRecord (js_prop v ''polygon'') then nullish (as_array (js_prop (js_prop v ''polygon'') ''points'')) [] else []);
               points = List.map_filter parse_point rawPoints
           in if canUsePolygonPoints points then Some (PolygonGeometry points) else None
      else None)"

definition summary_kind_names :: "(string \<times> summary_change_kind) list" where
  "summary_kind_names = [(''manual'', SManual), (''ai'', SAi), (''import'', SImport), (''unknown'', SUnknown)]"

definition parse_summary_entry :: "json \<Rightarrow> summary_history_entry option" where
  "parse_summary_entry item =
     (if \<not> isRecord item then None
      else case (as_string (js_prop item ''id''), as_string (js_prop item ''createdAt''),
                 null_or as_string (js_prop item ''fromText''), null_or as_string (js_prop item ''toText''),
                 null_or as_bool (js_prop item ''fromReviewed''), null_or as_bool (js_prop item ''toReviewed''),
                 enum_of summary_kind_names (js_prop item ''changeKind'')) of
        (Some i, Some c, Some ft, Some tt, Some fr, Some tr, Some k) \<Rightarrow> Some
          \<lparr>she_id = i, she_createdAt = c, she_fromText = ft, she_toText = tt, she_fromReviewed = fr, she_toReviewed = tr,
           she_changeKind = k, she_note = as_string (js_prop item ''note''), she_groundingIds = strings_of (js_prop item ''groundingIds'')\<rparr>
      | _ \<Rightarrow> None)"

definition parseSummaryHistory :: "json \<Rightarrow> summary_history_entry list option" where
  "parseSummaryHistory v = Option.bind (as_array v) (\<lambda>vs. nonempty_opt (List.map_filter parse_summary_entry vs))"

definition cue_kind_names :: "(string \<times> cue_kind) list" where
  "cue_kind_names = [(''hand_drawn'', HandDrawn), (''user_image'', UserImage), (''preset_svg'', PresetSvg), (''emoji'', Emoji)]"

definition parseRepresentativeCue :: "json \<Rightarrow> visual_cue option" where
  "parseRepresentativeCue v =
     (if \<not> isRecord v then None
      else case (enum_of cue_kind_names (js_prop v ''kind''), as_string (js_prop v ''cueId''), as_string (js_prop v ''altText'')) of
        (Some k, Some c, Some a) \<Rightarrow> Some \<lparr>cue_kind_of = k, cueId = c, altText = a,
           imageRef = (if k = HandDrawn \<or> k = UserImage then as_string (js_prop v ''imageRef'') else None)\<rparr>
      | _ \<Rightarrow> None)"

definition parse_generated_from :: "json \<Rightarrow> shape_generated_from option" where
  "parse_generated_from v =
     (if \<not> isRecord v then None
      else case (strings_of (js_prop v ''cardIds''), as_string (js_prop v ''versionToken'')) of
        (Some cs, Some t) \<Rightarrow> Some \<lparr>gen_cardIds = cs, versionToken = t\<rparr> | _ \<Rightarrow> None)"

definition parse_shape :: "json \<Rightarrow> island_shape option" where
  "parse_shape v =
     (if \<not> isRecord v then None
      else let generatedFrom = parse_generated_from (js_prop v ''generatedFrom'') in
      if js_prop v ''kind'' = JStr ''rect'' then Some (RectShape generatedFrom)
      else case (js_prop v ''kind'' = JStr ''polygon'', as_array (js_prop v ''points'')) of
          (True, Some ps) \<Rightarrow> (let points = List.map_filter parse_point ps
             in if canUsePolygonPoints points then Some (PolygonShape points generatedFrom) else None)
        | _ \<Rightarrow> None)"

definition settle_shape :: "island_shape option \<Rightarrow> island_geometry option \<Rightarrow> island_shape option" where
  "settle_shape s g = (case s of Some s \<Rightarrow> Some s
     | None \<Rightarrow> (case g of Some (PolygonGeometry ps) \<Rightarrow> Some (PolygonShape ps None) | _ \<Rightarrow> Some (RectShape None)))"

definition settle_geometry :: "island_geometry option \<Rightarrow> island_shape option \<Rightarrow> island_geometry option" where
  "settle_geometry g s = (case g of Some g \<Rightarrow> Some g
     | None \<Rightarrow> (case s of Some (PolygonShape ps _) \<Rightarrow> Some (PolygonGeometry ps)
         | Some (RectShape _) \<Rightarrow> Some (RectGeometry None None None None) | None \<Rightarrow> None))"

definition parse_island_item :: "json \<Rightarrow> island option" where
  "parse_island_item item =
     (if \<not> isRecord item then None
      else case (as_string (js_prop item ''id''), strings_of (js_prop item ''cardIds'')) of
        (Some i, Some cs) \<Rightarrow>
          (let g = parseIslandGeometry (js_prop item ''geometry''); s = settle_shape (parse_shape (js_prop item ''shape'')) g
           in Some \<lparr>island_id = i, cardIds = cs, parentIslandId = as_string (js_prop item ''parentIslandId''),
             placardCardId = as_string (js_prop item ''placardCardId''), collapsed = Some (nullish (as_bool (js_prop item ''collapsed'')) False),
             island_title = as_string (js_prop item ''title''), titleReviewed = as_bool (js_prop item ''titleReviewed''),
             summaryText = as_string (js_prop item ''summaryText''), summaryReviewed = as_bool (js_prop item ''summaryReviewed''),
             summaryGrounding = strings_of (js_prop item ''summaryGrounding''), summaryHistory = parseSummaryHistory (js_prop item ''summaryHistory''),
             imageUrl = as_string (js_prop item ''imageUrl''), imageReviewed = as_bool (js_prop item ''imageReviewed''),
             island_critique = as_string (js_prop item ''critique''), island_critiqueTags = parseCritiqueTags (js_prop item ''critiqueTags''),
             geometry = settle_geometry g s, shape = s, shapeStale = as_bool (js_prop item ''shapeStale''),
             representativeCue = parseRepresentativeCue (js_prop item ''representativeCue'')\<rparr>)
      | _ \<Rightarrow> None)"

text \<open>The walk up the parents: it visits each island at most once.\<close>

function parent_walk :: "(string \<times> island) list \<Rightarrow> string list \<Rightarrow> string \<Rightarrow> bool" where
  "parent_walk islandsById visited cursor =
     (if cursor \<in> set visited then False
      else case map_of islandsById cursor of
          None \<Rightarrow> False
        | Some parent \<Rightarrow>
            (if truthy_str (parentIslandId parent)
             then parent_walk islandsById (cursor # visited) (the (parentIslandId parent)) else True))"
  by pat_completeness auto
termination
proof (relation "measure (\<lambda>(m, visited, cursor). card (fst ` set m - set visited))")
  fix m :: "(string \<times> island) list" and visited cursor p
  assume "cursor \<notin> set visited" "map_of m cursor = Some p"
  then have "cursor \<in> fst ` set m - set visited" by (force dest: map_of_SomeD)
  moreover have "fst ` set m - set (cursor # visited) = fst ` set m - set visited - {cursor}" by auto
  ultimately have "card (fst ` set m - set (cursor # visited)) < card (fst ` set m - set visited)"
    by (metis card_Diff1_less finite_Diff finite_imageI finite_set)
  then show "((m, cursor # visited, the (parentIslandId p)), m, visited, cursor)
      \<in> measure (\<lambda>(m, visited, cursor). card (fst ` set m - set visited))"
    by simp
qed simp

declare parent_walk.simps [simp del]

definition resolveParentIslandId :: "(string \<times> island) list \<Rightarrow> string \<Rightarrow> string option \<Rightarrow> string option" where
  "resolveParentIslandId islandsById islandId parent =
     (if truthy_str parent \<and> parent_walk islandsById [islandId] (the parent) then parent else None)"

definition parseIslands :: "json \<Rightarrow> island list" where
  "parseIslands v =
     (let islands = List.map_filter parse_island_item (nullish (as_array v) []);
          islandsById = new_map (map (\<lambda>i. (island_id i, i)) islands)
      in map (\<lambda>i. let p = resolveParentIslandId islandsById (island_id i) (parentIslandId i)
                  in if p = parentIslandId i then i else i\<lparr>parentIslandId := p\<rparr>) islands)"

section \<open>Evidence links\<close>

definition evidence_type_names :: "(string \<times> evidence_type) list" where
  "evidence_type_names = [(''supports'', Supports), (''contradicts'', Contradicts)]"

definition contradiction_state_names :: "(string \<times> contradiction_state) list" where
  "contradiction_state_names = [(''unconfirmed'', CUnconfirmed), (''confirmed'', CConfirmed), (''held'', CHeld), (''resolved'', CResolved)]"

definition parse_link_item :: "json \<Rightarrow> evidence_link option" where
  "parse_link_item item =
     (if \<not> isRecord item then None
      else case (as_string (js_prop item ''id''), as_string (js_prop item ''fromCardId''), as_string (js_prop item ''toCardId''),
                 enum_of evidence_type_names (js_prop item ''type'')) of
        (Some i, Some f, Some t, Some ty) \<Rightarrow> Some \<lparr>link_id = i, link_type = ty, fromCardId = f, toCardId = t,
           link_note = as_string (js_prop item ''note''), link_createdAt = as_string (js_prop item ''createdAt''),
           contradictionState = enum_of contradiction_state_names (js_prop item ''contradictionState'')\<rparr>
      | _ \<Rightarrow> None)"

text \<open>\<open>${fromCardId}:${toCardId}:${type}\<close>\<close>

definition import_duplicate_key :: "evidence_link \<Rightarrow> string" where
  "import_duplicate_key l = fromCardId l @ '':'' @ toCardId l @ '':'' @
     (case link_type l of Supports \<Rightarrow> ''supports'' | Contradicts \<Rightarrow> ''contradicts'')"

text \<open>The loop: the links kept so far in order, and the sets \<open>seenIds\<close> and \<open>seenKeys\<close>.\<close>

fun keep_links :: "string list \<Rightarrow> string list \<Rightarrow> json list \<Rightarrow> evidence_link list" where
  "keep_links seenIds seenKeys [] = []"
| "keep_links seenIds seenKeys (item # items) =
     (case parse_link_item item of
        None \<Rightarrow> keep_links seenIds seenKeys items
      | Some l \<Rightarrow>
          if fromCardId l = toCardId l \<or> link_id l \<in> set seenIds then keep_links seenIds seenKeys items
          else if import_duplicate_key l \<in> set seenKeys then keep_links seenIds seenKeys items
          else l # keep_links (js_add (link_id l) seenIds) (js_add (import_duplicate_key l) seenKeys) items)"

definition parseEvidenceLinks :: "json \<Rightarrow> evidence_link list option" where
  "parseEvidenceLinks v = map_option (keep_links [] []) (as_array v)"

section \<open>Review contracts, shelf and voids\<close>

definition parseCritiqueInputs :: "(string \<Rightarrow> int option) \<Rightarrow> json \<Rightarrow> json list option" where
  "parseCritiqueInputs dateParse v = map_option (filter (validateHilRsCritiqueInput dateParse)) (as_array v)"

definition parseReproposalDiffs :: "json \<Rightarrow> json list option" where
  "parseReproposalDiffs v = map_option (filter validateHilRsRediffPayload) (as_array v)"

definition parseReviewAttribution :: "(string \<Rightarrow> int option) \<Rightarrow> json \<Rightarrow> json option" where
  "parseReviewAttribution dateParse v = (if validateHilRsReviewAttribution dateParse v then Some v else None)"

text \<open>A date text that parses, rewritten by \<open>new Date(s).toISOString()\<close>.\<close>

definition iso_of :: "(string \<Rightarrow> int option) \<Rightarrow> json \<Rightarrow> string option" where
  "iso_of dateParse v = map_option toISOString (Option.bind (as_string v) dateParse)"

definition parse_shelf_item :: "(string \<Rightarrow> int option) \<Rightarrow> string list \<Rightarrow> json \<Rightarrow> shelf_entry option" where
  "parse_shelf_item dateParse ids item =
     (if \<not> isRecord item then None
      else case (as_string (js_prop item ''cardId''), iso_of dateParse (js_prop item ''shelvedAt'')) of
        (Some c, Some t) \<Rightarrow>
          if c \<in> set ids \<and> (js_prop item ''reason'' = JUndef \<or> is_str (js_prop item ''reason''))
          then Some \<lparr>shelf_cardId = c, shelvedAt = t, shelf_reason = as_string (js_prop item ''reason'')\<rparr> else None
      | _ \<Rightarrow> None)"

text \<open>The first entry of each key among those that can be read.\<close>

fun keep_first :: "('a \<Rightarrow> 'b option) \<Rightarrow> ('b \<Rightarrow> string) \<Rightarrow> string list \<Rightarrow> 'a list \<Rightarrow> 'b list" where
  "keep_first parse key seen [] = []"
| "keep_first parse key seen (item # items) =
     (case parse item of
        None \<Rightarrow> keep_first parse key seen items
      | Some e \<Rightarrow> if key e \<in> set seen then keep_first parse key seen items
                  else e # keep_first parse key (js_add (key e) seen) items)"

definition parseShelf :: "(string \<Rightarrow> int option) \<Rightarrow> json \<Rightarrow> string list \<Rightarrow> shelf_entry list option" where
  "parseShelf dateParse v ids =
     Option.bind (as_array v) (\<lambda>vs. nonempty_opt (keep_first (parse_shelf_item dateParse ids) shelf_cardId [] vs))"

definition VOID_KINDS :: "(string \<times> void_kind) list" where
  "VOID_KINDS = [(''unintegrated_card'', UnintegratedCard), (''orphaned_island'', OrphanedIsland), (''unspoken_island'', UnspokenIsland),
     (''unexplained_relation'', UnexplainedRelation), (''unreviewed_content'', UnreviewedContent)]"

definition parse_void_item :: "(string \<Rightarrow> int option) \<Rightarrow> json \<Rightarrow> void_entry option" where
  "parse_void_item dateParse item =
     (if \<not> isRecord item then None
      else case (as_string (js_prop item ''id''), as_string (js_prop item ''title''), as_string (js_prop item ''detail''),
                 enum_of VOID_KINDS (js_prop item ''kind''), iso_of dateParse (js_prop item ''createdAt'')) of
        (Some i, Some t, Some d, Some k, Some c) \<Rightarrow> Some \<lparr>void_id = i, void_kind_of = k, void_title = t, void_detail = d,
           void_cardIds = strings_of (js_prop item ''cardIds''), void_islandIds = strings_of (js_prop item ''islandIds''),
           void_resolved = as_bool (js_prop item ''resolved''), void_createdAt = c\<rparr>
      | _ \<Rightarrow> None)"

definition parseVoids :: "(string \<Rightarrow> int option) \<Rightarrow> json \<Rightarrow> void_entry list option" where
  "parseVoids dateParse v = Option.bind (as_array v) (\<lambda>vs. nonempty_opt (keep_first (parse_void_item dateParse) void_id [] vs))"

definition tie_break_order :: "string list" where
  "tie_break_order = [''padding_compliance'', ''self_intersection_avoidance'', ''minimum_area_delta'', ''minimum_vertex_count'']"

definition parseDeterministicTieBreak :: "json \<Rightarrow> string list option" where
  "parseDeterministicTieBreak v =
     (if \<not> isRecord v then None
      else case as_array (js_prop v ''order'') of
        None \<Rightarrow> None
      | Some order' \<Rightarrow>
          if js_prop v ''schemaVersion'' \<noteq> JStr ''1.0.0'' \<or> take 4 order' \<noteq> map JStr tie_break_order then None
          else Some tie_break_order)"

definition parseReadingOrder :: "json \<Rightarrow> string list option" where
  "parseReadingOrder v = Option.bind (strings_of v) nonempty_opt"

section \<open>Narratives and relation summaries\<close>

definition ref_kind_names :: "(string \<times> endpoint_kind) list" where
  "ref_kind_names = [(''card'', CardEnd), (''island'', IslandEnd)]"

definition parseNarrativeCheckReference :: "json \<Rightarrow> (string \<times> endpoint_kind) option" where
  "parseNarrativeCheckReference v =
     (if \<not> isRecord v then None
      else case (as_string (js_prop v ''id''), enum_of ref_kind_names (js_prop v ''kind'')) of
        (Some i, Some k) \<Rightarrow> Some (i, k) | _ \<Rightarrow> None)"

definition parseNarrativeCheckDirection :: "json \<Rightarrow> check_direction option" where
  "parseNarrativeCheckDirection v = enum_of [(''b_missing_in_a'', B_missing_in_A), (''a_missing_in_b'', A_missing_in_B)] v"

text \<open>\<open>Number.isInteger(n) && n >= 0\<close>\<close>

definition count_of :: "json \<Rightarrow> rat option" where
  "count_of v = (case v of JNum (Finite r) \<Rightarrow> if r = of_int \<lfloor>r\<rfloor> \<and> 0 \<le> r then Some r else None | _ \<Rightarrow> None)"

definition parseNarrativeCheckCounts :: "json \<Rightarrow> (rat \<times> rat) option" where
  "parseNarrativeCheckCounts v =
     (if \<not> isRecord v then None
      else case (count_of (js_prop v ''bMissingInA''), count_of (js_prop v ''aMissingInB'')) of
        (Some b, Some a) \<Rightarrow> Some (b, a) | _ \<Rightarrow> None)"

definition severity_names :: "(string \<times> check_severity) list" where
  "severity_names = [(''info'', CkInfo), (''warn'', CkWarn), (''error'', CkError)]"

definition parseNarrativeCheckIssue :: "json \<Rightarrow> narrative_check_issue option" where
  "parseNarrativeCheckIssue v =
     (if \<not> isRecord v then None
      else case (enum_of severity_names (js_prop v ''severity''), as_string (js_prop v ''message'')) of
        (Some s, Some m) \<Rightarrow> Some \<lparr>ck_severity = s, ck_message = m,
           ck_references = map_option (List.map_filter parseNarrativeCheckReference) (as_array (js_prop v ''references'')),
           ck_direction = parseNarrativeCheckDirection (js_prop v ''direction'')\<rparr>
      | _ \<Rightarrow> None)"

definition parseNarrativeCheck :: "json \<Rightarrow> narrative_check option" where
  "parseNarrativeCheck v =
     (if \<not> isRecord v \<or> js_prop v ''kind'' \<noteq> JStr ''consistency'' then None
      else case (as_string (js_prop v ''id''), as_string (js_prop v ''createdAt''), as_array (js_prop v ''issues'')) of
        (Some i, Some c, Some vs) \<Rightarrow> Some \<lparr>ck_id = i, ck_createdAt = c, ck_issues = List.map_filter parseNarrativeCheckIssue vs,
           ck_counts = parseNarrativeCheckCounts (js_prop v ''counts'')\<rparr>
      | _ \<Rightarrow> None)"

definition relation_kind_names :: "(string \<times> relation_change_kind) list" where
  "relation_kind_names = [(''ai'', RAi), (''manual'', RManual), (''rollback'', RRollback), (''import'', RImport), (''unknown'', RUnknown)]"

text \<open>The note of a history entry is not copied.\<close>

definition parseRelationSummaryHistoryEntry :: "json \<Rightarrow> relation_history_entry option" where
  "parseRelationSummaryHistoryEntry v =
     (if \<not> isRecord v then None
      else case (as_string (js_prop v ''id''), as_string (js_prop v ''createdAt''), enum_of relation_kind_names (js_prop v ''changeKind''),
                 null_or as_string (js_prop v ''fromText''), null_or as_string (js_prop v ''toText''),
                 null_or as_bool (js_prop v ''fromReviewed''), null_or as_bool (js_prop v ''toReviewed'')) of
        (Some i, Some c, Some k, Some ft, Some tt, Some fr, Some tr) \<Rightarrow> Some
          \<lparr>rhe_id = i, rhe_createdAt = c, rhe_changeKind = k, rhe_fromText = ft, rhe_toText = tt, rhe_fromReviewed = fr,
           rhe_toReviewed = tr, warningsSnapshot = strings_of (js_prop v ''warningsSnapshot''),
           groundingCardIdsSnapshot = strings_of (js_prop v ''groundingCardIdsSnapshot''),
           groundingEdgeIdsSnapshot = strings_of (js_prop v ''groundingEdgeIdsSnapshot''), rhe_note = None\<rparr>
      | _ \<Rightarrow> None)"

definition parse_narrative_item :: "json \<Rightarrow> narrative option" where
  "parse_narrative_item item =
     (if \<not> isRecord item then None
      else case (as_string (js_prop item ''id''), as_string (js_prop item ''title''), as_string (js_prop item ''text''),
                 as_bool (js_prop item ''reviewed'')) of
        (Some i, Some t, Some x, Some r) \<Rightarrow> Some \<lparr>narr_id = i, narr_title = t, narr_text = x,
           narr_createdAt = as_string (js_prop item ''createdAt''), basedOnReadingOrder = strings_of (js_prop item ''basedOnReadingOrder''),
           narr_reviewed = r, narr_checks = map_option (List.map_filter parseNarrativeCheck) (as_array (js_prop item ''checks''))\<rparr>
      | _ \<Rightarrow> None)"

definition parseNarratives :: "json \<Rightarrow> narrative list option" where
  "parseNarratives v = Option.bind (as_array v) (\<lambda>vs. nonempty_opt (List.map_filter parse_narrative_item vs))"

definition import_relation_type :: "string \<Rightarrow> string" where
  "import_relation_type t = (if t \<in> set KNOWN_EDGE_TYPES \<or> t = ''unknown'' then t else ''unknown'')"

definition parse_relation_item :: "json \<Rightarrow> relation_summary option" where
  "parse_relation_item item =
     (if \<not> isRecord item then None
      else case (as_string (js_prop item ''id''), as_string (js_prop item ''createdAt''), as_string (js_prop item ''islandAId''),
                 as_string (js_prop item ''islandBId''), as_string (js_prop item ''relationType''), as_bool (js_prop item ''derived'')) of
        (Some i, Some c, Some a, Some b, Some ty, Some der) \<Rightarrow>
          (case (as_string (js_prop item ''text''), as_bool (js_prop item ''reviewed''), strings_of (js_prop item ''groundingCardIds''),
                 strings_of (js_prop item ''groundingEdgeIds''), as_string (js_prop item ''sourceSignature'')) of
             (Some x, Some r, Some gc, Some ge, Some sig) \<Rightarrow> Some
               \<lparr>rel_id = i, rel_createdAt = c, islandAId = a, islandBId = b, relationType = import_relation_type ty, derived = der,
                rel_text = x, rel_reviewed = r, groundingCardIds = gc, groundingEdgeIds = ge,
                rel_warnings = strings_of (js_prop item ''warnings''), sourceSignature = sig,
                rel_history = map_option (List.map_filter parseRelationSummaryHistoryEntry) (as_array (js_prop item ''history''))\<rparr>
           | _ \<Rightarrow> None)
      | _ \<Rightarrow> None)"

definition parseRelationSummaries :: "json \<Rightarrow> relation_summary list option" where
  "parseRelationSummaries v = Option.bind (as_array v) (\<lambda>vs. nonempty_opt (List.map_filter parse_relation_item vs))"

section \<open>Patch log and decisions\<close>

definition number_fields :: "string list \<Rightarrow> json \<Rightarrow> (string \<times> rat) list option" where
  "number_fields keys v =
     (if \<not> isRecord v then None else all_or_none (\<lambda>k. map_option (Pair k) (toNumber (js_prop v k))) keys)"

definition patch_stat_keys :: "string list" where
  "patch_stat_keys = [''upsertCards'', ''deleteCards'', ''upsertIslands'', ''deleteIslands'', ''upsertEdges'', ''deleteEdges'',
     ''upsertRelationSummaries'', ''deleteRelationSummaries'', ''upsertEvidenceLinks'', ''deleteEvidenceLinks'']"

definition parsePatchApplyStats :: "json \<Rightarrow> (string \<times> rat) list option" where
  "parsePatchApplyStats v = number_fields patch_stat_keys v"

definition parsePatchConflictMeta :: "json \<Rightarrow> (string \<times> rat) list option" where
  "parsePatchConflictMeta v = number_fields [''totalConflicts'', ''chosenYours'', ''chosenTheirs'', ''chosenSkip''] v"

record imported_log_entry =
  il_id :: string
  il_createdAt :: string
  il_appliedOpIds :: "string list"
  il_stats :: "(string \<times> rat) list"
  il_patchTitle :: "string option"
  il_baseDocSignature :: "string option"
  il_patchSourceSignature :: "string option"
  il_conflictMeta :: "(string \<times> rat) list option"
  il_note :: "string option"

definition parse_log_item :: "json \<Rightarrow> imported_log_entry option" where
  "parse_log_item item =
     (if \<not> isRecord item \<or> js_prop item ''patchVersion'' \<noteq> JStr ''1'' then None
      else case (as_string (js_prop item ''id''), as_string (js_prop item ''createdAt''), strings_of (js_prop item ''appliedOpIds''),
                 parsePatchApplyStats (js_prop item ''stats'')) of
        (Some i, Some c, Some ids, Some st) \<Rightarrow> Some \<lparr>il_id = i, il_createdAt = c, il_appliedOpIds = ids, il_stats = st,
           il_patchTitle = as_string (js_prop item ''patchTitle''), il_baseDocSignature = as_string (js_prop item ''baseDocSignature''),
           il_patchSourceSignature = as_string (js_prop item ''patchSourceSignature''),
           il_conflictMeta = (if js_prop item ''conflictMeta'' \<noteq> JUndef then parsePatchConflictMeta (js_prop item ''conflictMeta'') else None),
           il_note = as_string (js_prop item ''note'')\<rparr>
      | _ \<Rightarrow> None)"

definition parsePatchApplyLog :: "json \<Rightarrow> imported_log_entry list option" where
  "parsePatchApplyLog v = Option.bind (as_array v) (\<lambda>vs. nonempty_opt (List.map_filter parse_log_item vs))"

definition merge_decision_names :: "(string \<times> merge_decision) list" where
  "merge_decision_names = [(''accept'', Accept), (''partial'', Partial), (''reject'', Reject), (''defer'', Defer)]"

definition merge_method_names :: "(string \<times> merge_method) list" where
  "merge_method_names = [(''near_duplicate'', NearDuplicate), (''kernel_fusion'', KernelFusion)]"

definition resolved_by_names :: "(string \<times> resolved_by) list" where
  "resolved_by_names = [(''repOf'', ByRepOf), (''mergedIntoCardId'', ByMergedIntoCardId), (''fallback'', ByFallback), (''unresolved'', Unresolved)]"

definition parse_merge_decision_item :: "json \<Rightarrow> merge_decision_entry option" where
  "parse_merge_decision_item item =
     (if \<not> isRecord item then None
      else case (as_string (js_prop item ''id''), as_string (js_prop item ''groupId''), enum_of merge_decision_names (js_prop item ''decision''),
                 as_string (js_prop item ''decidedAt''), strings_of (js_prop item ''cardIds''), as_string (js_prop item ''mergedTextDraft''),
                 as_string (js_prop item ''editedText'')) of
        (Some i, Some g, Some d, Some t, Some cs, Some m, Some e) \<Rightarrow> Some
          \<lparr>dec_id = i, decisionId = as_string (js_prop item ''decisionId''), groupId = g, decision = d,
           dec_action = enum_of merge_decision_names (js_prop item ''action''), decidedAt = t,
           decidedBy = as_string (js_prop item ''decidedBy''), dec_cardIds = cs, selectedCardIds = strings_of (js_prop item ''selectedCardIds''),
           mergedTextDraft = m, editedText = e, dec_note = as_string (js_prop item ''note''),
           snapshotVersion = as_string (js_prop item ''snapshotVersion''), rationale = as_string (js_prop item ''rationale''),
           mergeMethod = enum_of merge_method_names (js_prop item ''mergeMethod''),
           representativeCardId = as_string (js_prop item ''representativeCardId''),
           representativeResolvedBy = enum_of resolved_by_names (js_prop item ''representativeResolvedBy''),
           sourceCardIds = strings_of (js_prop item ''sourceCardIds''),
           missingSourceCardIds = strings_of (js_prop item ''missingSourceCardIds'')\<rparr>
      | _ \<Rightarrow> None)"

definition parseMergeSuggestionDecisions :: "json \<Rightarrow> merge_decision_entry list option" where
  "parseMergeSuggestionDecisions v = Option.bind (as_array v) (\<lambda>vs. nonempty_opt (List.map_filter parse_merge_decision_item vs))"

definition signal_status_names :: "(string \<times> signal_review_status) list" where
  "signal_status_names = [(''accepted'', SigAccepted), (''held'', SigHeld), (''rejected'', SigRejected)]"

definition parse_signal_item :: "json \<Rightarrow> signal_decision option" where
  "parse_signal_item item =
     (if \<not> isRecord item then None
      else case (nonempty_str (js_prop item ''signatureKey''), enum_of signal_status_names (js_prop item ''status''),
                 as_string (js_prop item ''decidedAt'')) of
        (Some k, Some s, Some t) \<Rightarrow> Some \<lparr>signatureKey = k, sig_status = s, sig_decidedAt = t\<rparr> | _ \<Rightarrow> None)"

definition parseContradictionSignalDecisions :: "json \<Rightarrow> signal_decision list option" where
  "parseContradictionSignalDecisions v = Option.bind (as_array v) (\<lambda>vs. nonempty_opt (List.map_filter parse_signal_item vs))"

section \<open>The document\<close>

definition parseIsoDate :: "(string \<Rightarrow> int option) \<Rightarrow> json \<Rightarrow> string \<Rightarrow> string" where
  "parseIsoDate dateParse v fallback = nullish (iso_of dateParse v) fallback"

datatype import_error =
    NotAnObject
  | VersionRequired
  | UnsupportedVersion
  | PartsMissing
  | IdNotString
  | BadTransform
  | BadCards
  | EdgesNotArray
  | IslandsNotArray

record imported =
  im_id :: string
  im_title :: "string option"
  im_createdAt :: string
  im_updatedAt :: string
  im_transform :: transform
  im_cards :: "card list"
  im_edges :: "edge list"
  im_islands :: "island list"
  im_evidenceLinks :: "evidence_link list"
  im_critiqueInputs :: "json list option"
  im_reproposalDiffs :: "json list option"
  im_reviewAttribution :: "json option"
  im_tieBreak :: "string list option"
  im_readingOrder :: "string list option"
  im_narratives :: "narrative list option"
  im_relationSummaries :: "relation_summary list option"
  im_patchApplyLog :: "imported_log_entry list option"
  im_mergeDecisions :: "merge_decision_entry list option"
  im_signalDecisions :: "signal_decision list option"
  im_shelf :: "shelf_entry list option"
  im_voids :: "void_entry list option"

definition shelve_cards :: "string list \<Rightarrow> card list \<Rightarrow> card list" where
  "shelve_cards shelved cs =
     (if length shelved = 0 then cs else map (\<lambda>c. if card_id c \<in> set shelved then c\<lparr>holdState := Some Shelved\<rparr> else c) cs)"

definition import_parts :: "(string \<Rightarrow> int option) \<Rightarrow> string \<Rightarrow> json \<Rightarrow> string \<Rightarrow> transform \<Rightarrow> card list \<Rightarrow> imported" where
  "import_parts dateParse now v i t cs =
     (let sh = parseShelf dateParse (js_prop v ''shelf'') (uniq (map card_id cs));
          shelvedCardIds = uniq (map shelf_cardId (nullish sh []))
      in \<lparr>im_id = i, im_title = as_string (js_prop v ''title''),
          im_createdAt = parseIsoDate dateParse (js_prop v ''createdAt'') now,
          im_updatedAt = parseIsoDate dateParse (js_prop v ''updatedAt'') now,
          im_transform = t, im_cards = shelve_cards shelvedCardIds cs, im_edges = parseEdges (js_prop v ''edges''),
          im_islands = parseIslands (js_prop v ''islands''),
          im_evidenceLinks = nullish (parseEvidenceLinks (js_prop v ''evidenceLinks'')) [],
          im_critiqueInputs = parseCritiqueInputs dateParse (js_prop v ''critiqueInputs''),
          im_reproposalDiffs = parseReproposalDiffs (js_prop v ''reproposalDiffs''),
          im_reviewAttribution = parseReviewAttribution dateParse (js_prop v ''reviewAttribution''),
          im_tieBreak = parseDeterministicTieBreak (js_prop v ''deterministicTieBreak''),
          im_readingOrder = parseReadingOrder (js_prop v ''readingOrder''),
          im_narratives = parseNarratives (js_prop v ''narratives''),
          im_relationSummaries = parseRelationSummaries (js_prop v ''relationSummaries''),
          im_patchApplyLog = parsePatchApplyLog (js_prop v ''patchApplyLog''),
          im_mergeDecisions = parseMergeSuggestionDecisions (js_prop v ''mergeSuggestionDecisions''),
          im_signalDecisions = parseContradictionSignalDecisions (js_prop v ''contradictionSignalDecisions''),
          im_shelf = sh, im_voids = parseVoids dateParse (js_prop v ''voids'')\<rparr>)"

definition validateImportedDocument :: "(string \<Rightarrow> int option) \<Rightarrow> string \<Rightarrow> json \<Rightarrow> import_error + imported" where
  "validateImportedDocument dateParse now v =
     (if \<not> isRecord v then Inl NotAnObject
      else if \<not> own_key ''version'' v then Inl VersionRequired
      else if js_prop v ''version'' \<noteq> JNum (Finite 1) then Inl UnsupportedVersion
      else if list_ex (\<lambda>k. \<not> own_key k v) [''id'', ''transform'', ''cards'', ''edges'', ''islands''] then Inl PartsMissing
      else case as_string (js_prop v ''id'') of None \<Rightarrow> Inl IdNotString | Some i \<Rightarrow>
        (case parseTransform (js_prop v ''transform'') of None \<Rightarrow> Inl BadTransform | Some t \<Rightarrow>
          (case parseCards (js_prop v ''cards'') of None \<Rightarrow> Inl BadCards | Some cs \<Rightarrow>
            (if as_array (js_prop v ''edges'') = None then Inl EdgesNotArray
             else if as_array (js_prop v ''islands'') = None then Inl IslandsNotArray
             else Inr (import_parts dateParse now v i t cs)))))"

section \<open>Parents\<close>

text \<open>What the islands say about parents, read through the index by id.\<close>

definition island_parent_rel :: "(string \<times> island) list \<Rightarrow> (string \<times> string) set" where
  "island_parent_rel m = {(c, p). \<exists>i. map_of m c = Some i \<and> parentIslandId i = Some p \<and> p \<noteq> []}"

lemma parent_walkE:
  assumes "parent_walk m vis c"
  obtains i where "c \<notin> set vis" "map_of m c = Some i"
    "\<not> truthy_str (parentIslandId i) \<or> (\<exists>p. parentIslandId i = Some p \<and> p \<noteq> [] \<and> parent_walk m (c # vis) p)"
proof -
  have walk: "c \<notin> set vis \<and> (\<exists>i. map_of m c = Some i \<and>
      (truthy_str (parentIslandId i) \<longrightarrow> parent_walk m (c # vis) (the (parentIslandId i))))"
    using assms by (subst (asm) parent_walk.simps) (simp split: if_splits option.splits)
  then obtain i where i: "c \<notin> set vis" "map_of m c = Some i"
    "truthy_str (parentIslandId i) \<longrightarrow> parent_walk m (c # vis) (the (parentIslandId i))" by blast
  from i(3) have "\<not> truthy_str (parentIslandId i) \<or> (\<exists>p. parentIslandId i = Some p \<and> p \<noteq> [] \<and> parent_walk m (c # vis) p)"
    by (cases "parentIslandId i") auto
  with i(1,2) show thesis by (rule that)
qed

lemma parent_walkI:
  assumes "c \<notin> set vis" "map_of m c = Some i"
    "\<And>p. parentIslandId i = Some p \<Longrightarrow> p \<noteq> [] \<Longrightarrow> parent_walk m (c # vis) p"
  shows "parent_walk m vis c"
  using assms by (subst parent_walk.simps) (cases "parentIslandId i"; simp)

lemma parent_walk_fresh:
  assumes "(c, d) \<in> (island_parent_rel m)\<^sup>*" "parent_walk m vis c"
  shows "d \<notin> set vis"
  using assms
proof (induction arbitrary: vis rule: converse_rtrancl_induct)
  case base
  then show ?case by (blast elim: parent_walkE)
next
  case (step c e)
  from step.hyps(1) obtain i where i: "map_of m c = Some i" "parentIslandId i = Some e" "e \<noteq> []"
    by (auto simp: island_parent_rel_def)
  from step.prems have "parent_walk m (c # vis) e" by (rule parent_walkE) (use i in simp)
  then have "d \<notin> set (c # vis)" by (rule step.IH)
  then show ?case by simp
qed

lemma parent_walk_mono:
  "parent_walk m vis c \<Longrightarrow> set vis' \<subseteq> set vis \<Longrightarrow> parent_walk m vis' c"
proof (induction m vis c arbitrary: vis' rule: parent_walk.induct)
  case (1 m vis c)
  from "1.prems"(1) obtain i where i: "c \<notin> set vis" "map_of m c = Some i"
    "\<not> truthy_str (parentIslandId i) \<or> (\<exists>p. parentIslandId i = Some p \<and> p \<noteq> [] \<and> parent_walk m (c # vis) p)"
    by (rule parent_walkE)
  show ?case
  proof (rule parent_walkI)
    show "c \<notin> set vis'" "map_of m c = Some i" using i "1.prems"(2) by auto
    fix p assume p: "parentIslandId i = Some p" "p \<noteq> []"
    with i(3) have "parent_walk m (c # vis) p" by auto
    moreover have "set (c # vis') \<subseteq> set (c # vis)" using "1.prems"(2) by auto
    ultimately show "parent_walk m (c # vis') p" using "1.IH"[OF i(1,2)] p by simp
  qed
qed

definition settle_parent :: "(string \<times> island) list \<Rightarrow> island \<Rightarrow> island" where
  "settle_parent m i = (let p = resolveParentIslandId m (island_id i) (parentIslandId i)
     in if p = parentIslandId i then i else i\<lparr>parentIslandId := p\<rparr>)"

definition index_islands :: "island list \<Rightarrow> (string \<times> island) list" where
  "index_islands is' = new_map (map (\<lambda>i. (island_id i, i)) is')"

definition settle_parents :: "island list \<Rightarrow> island list" where
  "settle_parents is' = map (settle_parent (index_islands is')) is'"

lemma parseIslands_settle: "parseIslands v = settle_parents (List.map_filter parse_island_item (nullish (as_array v) []))"
  by (simp add: parseIslands_def settle_parents_def index_islands_def Let_def settle_parent_def[abs_def])

lemma settle_parent_simps [simp]:
  "island_id (settle_parent m i) = island_id i"
  "parentIslandId (settle_parent m i) = resolveParentIslandId m (island_id i) (parentIslandId i)"
  by (simp_all add: settle_parent_def Let_def)

lemma map_of_index: "map_of (index_islands is') c = find (\<lambda>i. island_id i = c) (rev is')"
proof -
  have "map_of (map (\<lambda>i. (island_id i, i)) xs) c = find (\<lambda>i. island_id i = c) xs" for xs
    by (induction xs) auto
  then show ?thesis by (simp add: index_islands_def map_of_new_map rev_map)
qed

lemma index_id: "map_of (index_islands is') c = Some i \<Longrightarrow> island_id i = c \<and> i \<in> set is'"
  by (auto simp: map_of_index find_Some_iff) (metis nth_mem set_rev length_rev)

lemma find_map_same: "(\<And>x. P (f x) = P x) \<Longrightarrow> find P (map f xs) = map_option f (find P xs)"
  by (induction xs) auto

lemma index_settled: "map_of (index_islands (settle_parents is')) c
    = map_option (settle_parent (index_islands is')) (map_of (index_islands is') c)"
  by (simp add: map_of_index settle_parents_def rev_map find_map_same)

lemma walk_settled:
  "parent_walk m vis c \<Longrightarrow> m = index_islands is' \<Longrightarrow> parent_walk (index_islands (settle_parents is')) vis c"
proof (induction m vis c rule: parent_walk.induct)
  case (1 m vis c)
  from "1.prems"(1) obtain i where i: "c \<notin> set vis" "map_of m c = Some i"
    "\<not> truthy_str (parentIslandId i) \<or> (\<exists>p. parentIslandId i = Some p \<and> p \<noteq> [] \<and> parent_walk m (c # vis) p)"
    by (rule parent_walkE)
  show ?case
  proof (rule parent_walkI[OF i(1)])
    show "map_of (index_islands (settle_parents is')) c = Some (settle_parent m i)"
      using i(2) "1.prems"(2) by (simp add: index_settled)
    fix p assume p: "parentIslandId (settle_parent m i) = Some p" "p \<noteq> []"
    then have "parentIslandId i = Some p" by (auto simp: resolveParentIslandId_def split: if_splits)
    with i(3) p(2) show "parent_walk (index_islands (settle_parents is')) (c # vis) p"
      using "1.IH"[OF i(1,2)] "1.prems"(2) by auto
  qed
qed

lemma resolve_settled:
  assumes "resolveParentIslandId (index_islands is') c q = Some p"
  shows "resolveParentIslandId (index_islands (settle_parents is')) c (Some p) = Some p"
  using assms walk_settled[OF _ refl, of is'] by (auto simp: resolveParentIslandId_def split: if_splits)

text \<open>Settling once is enough.\<close>

lemma settle_parents_idem: "settle_parents (settle_parents is') = settle_parents is'"
proof -
  have "settle_parent (index_islands (settle_parents is')) (settle_parent (index_islands is') i) = settle_parent (index_islands is') i" for i
  proof (cases "resolveParentIslandId (index_islands is') (island_id i) (parentIslandId i)")
    case None
    then show ?thesis by (simp add: settle_parent_def[of "index_islands (settle_parents is')"] resolveParentIslandId_def)
  next
    case (Some p)
    then show ?thesis by (simp add: settle_parent_def[of "index_islands (settle_parents is')"] resolve_settled)
  qed
  then show ?thesis by (subst (1 2) settle_parents_def) (simp add: settle_parents_def)
qed

lemma kept_parent_walks:
  assumes "i \<in> set (settle_parents is')" "parentIslandId i = Some p"
  shows "p \<noteq> [] \<and> parent_walk (index_islands (settle_parents is')) [island_id i] p"
proof -
  from assms obtain j where j: "i = settle_parent (index_islands is') j" "j \<in> set is'" by (auto simp: settle_parents_def)
  with assms(2) have "parent_walk (index_islands is') [island_id j] p" "p \<noteq> []"
    by (auto simp: resolveParentIslandId_def split: if_splits)
  then show ?thesis using walk_settled[OF _ refl, of is'] j by simp
qed

section \<open>What an accepted document satisfies\<close>

lemma keep_links_fresh:
  "link_id ` set (keep_links ids keys vs) \<inter> set ids = {} \<and> import_duplicate_key ` set (keep_links ids keys vs) \<inter> set keys = {}"
proof (induction vs arbitrary: ids keys)
  case (Cons v vs)
  show ?case
  proof (cases "parse_link_item v")
    case None
    then show ?thesis using Cons by simp
  next
    case (Some l)
    have "link_id ` set (keep_links (js_add (link_id l) ids) (js_add (import_duplicate_key l) keys) vs) \<inter> insert (link_id l) (set ids) = {}"
      "import_duplicate_key ` set (keep_links (js_add (link_id l) ids) (js_add (import_duplicate_key l) keys) vs)
         \<inter> insert (import_duplicate_key l) (set keys) = {}"
      using Cons[of "js_add (link_id l) ids" "js_add (import_duplicate_key l) keys"] by simp_all
    then show ?thesis using Some Cons by (simp split: if_splits)
  qed
qed simp

lemma keep_links_distinct:
  "distinct (map link_id (keep_links ids keys vs)) \<and> distinct (map import_duplicate_key (keep_links ids keys vs))
     \<and> (\<forall>l\<in>set (keep_links ids keys vs). fromCardId l \<noteq> toCardId l)"
proof (induction vs arbitrary: ids keys)
  case (Cons v vs)
  show ?case
  proof (cases "parse_link_item v")
    case None
    then show ?thesis using Cons by simp
  next
    case (Some l)
    let ?r = "keep_links (js_add (link_id l) ids) (js_add (import_duplicate_key l) keys) vs"
    have "link_id l \<notin> link_id ` set ?r" "import_duplicate_key l \<notin> import_duplicate_key ` set ?r"
      using keep_links_fresh[of "js_add (link_id l) ids" "js_add (import_duplicate_key l) keys" vs] by auto
    then show ?thesis using Some Cons by simp
  qed
qed simp

lemma keep_first_distinct:
  "distinct (map key (keep_first parse key seen vs)) \<and> key ` set (keep_first parse key seen vs) \<inter> set seen = {}"
proof (induction vs arbitrary: seen)
  case (Cons v vs)
  show ?case
  proof (cases "parse v")
    case None
    then show ?thesis using Cons by simp
  next
    case (Some e)
    then show ?thesis using Cons[of seen] Cons[of "js_add (key e) seen"] by auto
  qed
qed simp

lemma keep_first_parsed: "e \<in> set (keep_first parse key seen vs) \<Longrightarrow> \<exists>v\<in>set vs. parse v = Some e"
  by (induction vs arbitrary: seen) (auto split: option.splits if_splits)

lemma duplicate_key_of_triple:
  "fromCardId l = fromCardId k \<Longrightarrow> toCardId l = toCardId k \<Longrightarrow> link_type l = link_type k \<Longrightarrow> import_duplicate_key l = import_duplicate_key k"
  by (simp add: import_duplicate_key_def)

lemma set_map_filter: "set (List.map_filter f xs) = {y. \<exists>x\<in>set xs. f x = Some y}"
  by (induction xs) (auto simp: List.map_filter_simps split: option.splits)

lemma nonempty_optD: "nonempty_opt xs = Some ys \<Longrightarrow> ys = xs \<and> xs \<noteq> []"
  by (simp add: nonempty_opt_def split: if_splits)

definition usable_geometry :: "island_geometry option \<Rightarrow> bool" where
  "usable_geometry g = (case g of Some (PolygonGeometry ps) \<Rightarrow> canUsePolygonPoints ps | Some (RectGeometry _ _ _ _) \<Rightarrow> True | None \<Rightarrow> False)"

definition usable_shape :: "island_shape option \<Rightarrow> bool" where
  "usable_shape s = (case s of Some (PolygonShape ps _) \<Rightarrow> canUsePolygonPoints ps | Some (RectShape _) \<Rightarrow> True | None \<Rightarrow> False)"

lemma parseIslandGeometry_usable: "parseIslandGeometry v = Some g \<Longrightarrow> usable_geometry (Some g)"
  by (auto simp: parseIslandGeometry_def usable_geometry_def Let_def split: if_splits)

lemma parse_shape_usable: "parse_shape v = Some s \<Longrightarrow> usable_shape (Some s)"
  by (auto simp: parse_shape_def usable_shape_def Let_def split: if_splits bool.splits option.splits)

lemma settle_shape_usable: "usable_shape (settle_shape (parse_shape v) (parseIslandGeometry w))"
proof (cases "parse_shape v")
  case None
  then show ?thesis using parseIslandGeometry_usable[of w]
    by (auto simp: settle_shape_def usable_shape_def usable_geometry_def split: option.splits island_geometry.splits)
next
  case (Some s)
  then show ?thesis using parse_shape_usable[of v] by (simp add: settle_shape_def)
qed

lemma settle_geometry_usable:
  assumes "usable_shape s" shows "usable_geometry (settle_geometry (parseIslandGeometry w) s)"
  using assms parseIslandGeometry_usable[of w]
  by (auto simp: settle_geometry_def usable_shape_def usable_geometry_def split: option.splits island_shape.splits)

lemma parsed_island_usable:
  assumes "parse_island_item v = Some i" shows "usable_geometry (geometry i) \<and> usable_shape (shape i)"
proof -
  from assms have "shape i = settle_shape (parse_shape (js_prop v ''shape'')) (parseIslandGeometry (js_prop v ''geometry''))"
    "geometry i = settle_geometry (parseIslandGeometry (js_prop v ''geometry'')) (shape i)"
    by (auto simp: parse_island_item_def Let_def split: if_splits option.splits)
  then show ?thesis by (simp add: settle_shape_usable settle_geometry_usable)
qed

lemma settle_parent_shapes [simp]: "geometry (settle_parent m i) = geometry i" "shape (settle_parent m i) = shape i"
  by (simp_all add: settle_parent_def Let_def)

lemma imported_island_usable: "i \<in> set (parseIslands v) \<Longrightarrow> usable_geometry (geometry i) \<and> usable_shape (shape i)"
  by (auto simp: parseIslands_settle settle_parents_def set_map_filter dest: parsed_island_usable)

lemma shelve_cards_ids [simp]: "map card_id (shelve_cards sh cs) = map card_id cs"
  by (simp add: shelve_cards_def)

lemma shelve_cards_hold: "c \<in> set (shelve_cards sh cs) \<Longrightarrow> card_id c \<in> set sh \<Longrightarrow> holdState c = Some Shelved"
  by (auto simp: shelve_cards_def split: if_splits)

lemma shelf_item_card: "parse_shelf_item dp ids v = Some e \<Longrightarrow> shelf_cardId e \<in> set ids"
  by (auto simp: parse_shelf_item_def split: if_splits option.splits)

lemma parseShelf_sound:
  assumes "parseShelf dp v ids = Some sh"
  shows "distinct (map shelf_cardId sh)" "shelf_cardId ` set sh \<subseteq> set ids"
proof -
  from assms obtain vs where sh: "sh = keep_first (parse_shelf_item dp ids) shelf_cardId [] vs"
    by (auto simp: parseShelf_def nonempty_opt_def split: Option.bind_splits if_splits)
  show "distinct (map shelf_cardId sh)" by (simp add: sh keep_first_distinct)
  show "shelf_cardId ` set sh \<subseteq> set ids" by (auto simp: sh dest!: keep_first_parsed shelf_item_card)
qed

lemma import_InrD:
  assumes "validateImportedDocument dp now v = Inr d"
  shows "\<exists>i t cs. parseCards (js_prop v ''cards'') = Some cs \<and> d = import_parts dp now v i t cs"
  using assms by (auto simp: validateImportedDocument_def split: if_splits option.splits)

section \<open>Theorems\<close>

definition no_dates :: "string \<Rightarrow> int option" where
  "no_dates s = (if s = ''2024-02-29'' then Some 1709164800000 else None)"

definition ex_import :: json where
  "ex_import = JObj [(''version'', JNum (Finite 1)), (''id'', JStr ''d''), (''createdAt'', JStr ''2024-02-29''),
     (''transform'', JObj [(''panX'', JNum (Finite 0)), (''panY'', JNum (Finite 0)), (''zoom'', JNum (Finite 1))]),
     (''cards'', JArr [JObj [(''id'', JStr ''a''), (''text'', JStr ''A''), (''x'', JNum (Finite 0)), (''y'', JNum (Finite 0))],
        JObj [(''id'', JStr ''b''), (''text'', JStr ''B''), (''x'', JNum (Finite 1)), (''y'', JNum (Finite 0))]]),
     (''edges'', JArr [JObj [(''id'', JStr ''e''), (''fromId'', JStr ''a''), (''toId'', JStr ''b''), (''type'', JStr ''causal'')], JNull]),
     (''islands'', JArr [JObj [(''id'', JStr ''i''), (''cardIds'', JArr [JStr ''a'', JNull]), (''parentIslandId'', JStr ''j'')],
        JObj [(''id'', JStr ''j''), (''cardIds'', JArr [JStr ''b'']), (''parentIslandId'', JStr ''i'')],
        JObj [(''id'', JStr ''k''), (''cardIds'', JArr []), (''parentIslandId'', JStr ''l'')],
        JObj [(''id'', JStr ''l''), (''cardIds'', JArr [])]]),
     (''evidenceLinks'', JArr [JObj [(''id'', JStr ''s''), (''type'', JStr ''supports''), (''fromCardId'', JStr ''a''), (''toCardId'', JStr ''b'')],
        JObj [(''id'', JStr ''t''), (''type'', JStr ''supports''), (''fromCardId'', JStr ''a''), (''toCardId'', JStr ''b'')]]),
     (''shelf'', JArr [JObj [(''cardId'', JStr ''b''), (''shelvedAt'', JStr ''2024-02-29'')], JObj [(''cardId'', JStr ''z''), (''shelvedAt'', JStr ''2024-02-29'')]])]"

definition ex_imported :: imported where
  "ex_imported = import_parts no_dates ''now'' ex_import ''d'' (the (parseTransform (js_prop ex_import ''transform'')))
     (the (parseCards (js_prop ex_import ''cards'')))"

lemma ex_import_ok: "validateImportedDocument no_dates ''now'' ex_import = Inr ex_imported"
  by (simp add: ex_imported_def validateImportedDocument_def ex_import_def own_key_def object_keys_def
    parseTransform_def toNumber_def parseCards_def as_array_def parse_card_item_def)

lemma ex_islands: "im_islands ex_imported = parseIslands (js_prop ex_import ''islands'')"
  by (simp add: ex_imported_def import_parts_def Let_def)

lemma imported_islands_forest_parts:
  assumes "validateImportedDocument dateParse now v = Inr d"
  shows "acyclic (island_parent_rel (index_islands (im_islands d)))"
    and "\<And>i p. i \<in> set (im_islands d) \<Longrightarrow> parentIslandId i = Some p \<Longrightarrow> p \<in> island_id ` set (im_islands d)"
proof -
  let ?is = "im_islands d" and ?m = "index_islands (im_islands d)"
  obtain is' where is': "?is = settle_parents is'"
    using import_InrD[OF assms] by (auto simp: import_parts_def Let_def parseIslands_settle)
  show "acyclic (island_parent_rel ?m)"
  proof (rule acyclicI, intro allI notI)
    fix c assume "(c, c) \<in> (island_parent_rel ?m)\<^sup>+"
    then obtain p where p: "(c, p) \<in> island_parent_rel ?m" "(p, c) \<in> (island_parent_rel ?m)\<^sup>*" by (blast dest: tranclD)
    from p(1) obtain i where "map_of ?m c = Some i" "parentIslandId i = Some p" by (auto simp: island_parent_rel_def)
    then have "parent_walk ?m [c] p" using index_id[of ?is c i] kept_parent_walks[of i is' p] by (auto simp: is')
    from parent_walk_fresh[OF p(2) this] show False by simp
  qed
  fix i p assume "i \<in> set ?is" "parentIslandId i = Some p"
  then have "parent_walk ?m [island_id i] p" using kept_parent_walks[of i is' p] by (simp add: is')
  then obtain j where "map_of ?m p = Some j" by (rule parent_walkE)
  then show "p \<in> island_id ` set ?is" by (auto dest: index_id)
qed

text \<open>C14. The islands of an accepted document form a forest: read through the index by id, the parent relation has no cycle, and
  every parent that an island still names is an island of the document.\<close>

theorem imported_islands_forest:
  assumes "validateImportedDocument dateParse now v = Inr d"
  shows "(acyclic (island_parent_rel (index_islands (im_islands d))))
    \<and> (\<forall>i p. i \<in> set (im_islands d) \<longrightarrow> parentIslandId i = Some p \<longrightarrow> p \<in> island_id ` set (im_islands d))"
  using imported_islands_forest_parts [OF assms] by blast

theorem imported_islands_forest_witness:
  "acyclic (island_parent_rel (index_islands (im_islands ex_imported)))
   \<and> map parentIslandId (im_islands ex_imported) = [None, None, Some ''l'', None]
   \<and> ''l'' \<in> island_id ` set (im_islands ex_imported)"
proof (intro conjI)
  show "acyclic (island_parent_rel (index_islands (im_islands ex_imported)))" using imported_islands_forest[OF ex_import_ok] by blast
  show parents: "map parentIslandId (im_islands ex_imported) = [None, None, Some ''l'', None]" unfolding ex_islands by code_simp
  have "im_islands ex_imported ! 2 \<in> set (im_islands ex_imported)" "parentIslandId (im_islands ex_imported ! 2) = Some ''l''"
    using arg_cong[OF parents, of length] arg_cong[OF parents, of "\<lambda>xs. xs ! 2"] by simp_all
  then show "''l'' \<in> island_id ` set (im_islands ex_imported)" using imported_islands_forest[OF ex_import_ok] by blast
qed

lemma imported_document_sound_parts:
  assumes "validateImportedDocument dateParse now v = Inr d"
  shows "distinct (map link_id (im_evidenceLinks d))"
    and "l \<in> set (im_evidenceLinks d) \<Longrightarrow> fromCardId l \<noteq> toCardId l"
    and "l \<in> set (im_evidenceLinks d) \<Longrightarrow> k \<in> set (im_evidenceLinks d) \<Longrightarrow> l \<noteq> k \<Longrightarrow>
      (fromCardId l, toCardId l, link_type l) \<noteq> (fromCardId k, toCardId k, link_type k)"
    and "im_shelf d = Some sh \<Longrightarrow> distinct (map shelf_cardId sh) \<and> set (map shelf_cardId sh) \<subseteq> card_id ` set (im_cards d)
      \<and> (\<forall>c\<in>set (im_cards d). card_id c \<in> shelf_cardId ` set sh \<longrightarrow> holdState c = Some Shelved)"
    and "im_voids d = Some vs \<Longrightarrow> distinct (map void_id vs)"
    and "i \<in> set (im_islands d) \<Longrightarrow> usable_geometry (geometry i) \<and> usable_shape (shape i)"
proof -
  from import_InrD[OF assms] obtain j t cs where d: "d = import_parts dateParse now v j t cs" by blast
  define links where "links = nullish (as_array (js_prop v ''evidenceLinks'')) []"
  have ls: "im_evidenceLinks d = keep_links [] [] links"
    by (cases "as_array (js_prop v ''evidenceLinks'')") (simp_all add: d import_parts_def Let_def parseEvidenceLinks_def links_def)
  show "distinct (map link_id (im_evidenceLinks d))" using keep_links_distinct by (simp add: ls)
  show "fromCardId l \<noteq> toCardId l" if "l \<in> set (im_evidenceLinks d)"
    using keep_links_distinct[of "[]" "[]" links] that by (auto simp: ls)
  show "(fromCardId l, toCardId l, link_type l) \<noteq> (fromCardId k, toCardId k, link_type k)"
    if lk: "l \<in> set (im_evidenceLinks d)" "k \<in> set (im_evidenceLinks d)" "l \<noteq> k"
  proof -
    have "distinct (map import_duplicate_key (im_evidenceLinks d))" using keep_links_distinct by (simp add: ls)
    then have "import_duplicate_key l \<noteq> import_duplicate_key k" using lk by (auto simp: distinct_map dest: inj_onD)
    then show ?thesis using duplicate_key_of_triple[of l k] by blast
  qed
  show "distinct (map shelf_cardId sh) \<and> set (map shelf_cardId sh) \<subseteq> card_id ` set (im_cards d)
      \<and> (\<forall>c\<in>set (im_cards d). card_id c \<in> shelf_cardId ` set sh \<longrightarrow> holdState c = Some Shelved)" if "im_shelf d = Some sh"
  proof -
    from that have sh: "parseShelf dateParse (js_prop v ''shelf'') (uniq (map card_id cs)) = Some sh"
      and cards: "im_cards d = shelve_cards (uniq (map shelf_cardId sh)) cs" by (simp_all add: d import_parts_def Let_def)
    have "card_id ` set (im_cards d) = set (map card_id cs)"
      unfolding cards set_map[symmetric] by (simp only: shelve_cards_ids)
    then show ?thesis using parseShelf_sound[OF sh] shelve_cards_hold[of _ "uniq (map shelf_cardId sh)" cs] by (auto simp: cards)
  qed
  show "distinct (map void_id vs)" if "im_voids d = Some vs"
    using that keep_first_distinct
    by (auto simp: d import_parts_def Let_def parseVoids_def split: Option.bind_splits dest!: nonempty_optD)
  show "usable_geometry (geometry i) \<and> usable_shape (shape i)" if "i \<in> set (im_islands d)"
    using that by (intro imported_island_usable[of _ "js_prop v ''islands''"]) (simp add: d import_parts_def Let_def)
qed

text \<open>C15. What else an accepted document satisfies: evidence links have distinct ids, none joins a card with itself, and no two
  join the same cards with the same type; the shelf names each card at most once, only cards of the document, and
  those cards carry the hold state \<open>shelved\<close> after the import whatever the value said; void ids are distinct; every polygon of an island
  is one that the editor accepts.\<close>

theorem imported_document_sound:
  assumes "validateImportedDocument dateParse now v = Inr d"
  shows "(distinct (map link_id (im_evidenceLinks d)))
    \<and> (l \<in> set (im_evidenceLinks d) \<longrightarrow> fromCardId l \<noteq> toCardId l)
    \<and> (l \<in> set (im_evidenceLinks d) \<longrightarrow> k \<in> set (im_evidenceLinks d) \<longrightarrow> l \<noteq> k \<longrightarrow>
      (fromCardId l, toCardId l, link_type l) \<noteq> (fromCardId k, toCardId k, link_type k))
    \<and> (im_shelf d = Some sh \<longrightarrow> distinct (map shelf_cardId sh) \<and> set (map shelf_cardId sh) \<subseteq> card_id ` set (im_cards d)
      \<and> (\<forall>c\<in>set (im_cards d). card_id c \<in> shelf_cardId ` set sh \<longrightarrow> holdState c = Some Shelved))
    \<and> (im_voids d = Some vs \<longrightarrow> distinct (map void_id vs))
    \<and> (i \<in> set (im_islands d) \<longrightarrow> usable_geometry (geometry i) \<and> usable_shape (shape i))"
  using imported_document_sound_parts [OF assms] by blast

lemma ex_shelf: "im_shelf ex_imported = Some [\<lparr>shelf_cardId = ''b'', shelvedAt = toISOString 1709164800000, shelf_reason = None\<rparr>]"
  by (simp add: ex_imported_def import_parts_def Let_def ex_import_def parseShelf_def parseCards_def as_array_def parse_card_item_def
    toNumber_def parse_shelf_item_def iso_of_def no_dates_def nonempty_opt_def js_add_def is_str_def)

lemma ex_links: "im_evidenceLinks ex_imported = nullish (parseEvidenceLinks (js_prop ex_import ''evidenceLinks'')) []"
  by (simp add: ex_imported_def import_parts_def Let_def)

lemma ex_cards: "map card_id (im_cards ex_imported) = [''a'', ''b'']"
  by (simp add: ex_imported_def import_parts_def Let_def ex_import_def parseCards_def as_array_def parse_card_item_def toNumber_def)

theorem imported_document_sound_witness:
  "distinct (map link_id (im_evidenceLinks ex_imported)) \<and> map link_id (im_evidenceLinks ex_imported) = [''s'']
   \<and> holdState (im_cards ex_imported ! 1) = Some Shelved \<and> usable_shape (shape (im_islands ex_imported ! 0))"
proof (intro conjI)
  note sound = imported_document_sound[OF ex_import_ok]
  show "distinct (map link_id (im_evidenceLinks ex_imported))" using sound by blast
  show "map link_id (im_evidenceLinks ex_imported) = [''s'']" unfolding ex_links by code_simp
  have "im_cards ex_imported ! 1 \<in> set (im_cards ex_imported)" "card_id (im_cards ex_imported ! 1) = ''b''"
    using arg_cong[OF ex_cards, of length] arg_cong[OF ex_cards, of "\<lambda>xs. xs ! 1"] by simp_all
  then show "holdState (im_cards ex_imported ! 1) = Some Shelved" using sound ex_shelf by simp
  have "length (im_islands ex_imported) = 4" unfolding ex_islands by code_simp
  then have "im_islands ex_imported ! 0 \<in> set (im_islands ex_imported)" by simp
  then show "usable_shape (shape (im_islands ex_imported ! 0))" using sound by blast
qed

text \<open>The key by which duplicate links are recognised joins ids with a colon, so two different links may share it and
  the second is dropped.\<close>

lemma import_drops_distinct_link:
  "map link_id (nullish (parseEvidenceLinks (JArr
      [JObj [(''id'', JStr ''s''), (''type'', JStr ''supports''), (''fromCardId'', JStr ''a:b''), (''toCardId'', JStr ''c'')],
       JObj [(''id'', JStr ''t''), (''type'', JStr ''supports''), (''fromCardId'', JStr ''a''), (''toCardId'', JStr ''b:c'')]])) []) = [''s'']"
  by code_simp

end
