(* ===== verification/Strict_Document.thy ===== *)
theory Strict_Document
  imports Import_Document
begin

text \<open>
  \<open>domain/validate_doc.ts\<close>: the strict reading of a parsed value as a document. Nothing is repaired; every deviation is an
  error with its path, in the order in which the code finds them, and the value is accepted exactly when there is none.

  A validator of the source returns whether the part fits and appends to a shared list of errors; here it returns both
  (\<open>outcome\<close>). Unknown fields are errors that do not make the part unfit, as in the source. The text of an error is written
  out, except that the length bound is a number of its own.
\<close>

section \<open>Outcomes\<close>

datatype reason = Says string | AtMost nat

type_synonym outcome = "bool \<times> (string \<times> reason) list"

definition check :: "bool \<Rightarrow> string \<Rightarrow> string \<Rightarrow> outcome" where
  "check ok path what = (ok, if ok then [] else [(path, Says what)])"

definition check_length :: "nat \<Rightarrow> json \<Rightarrow> string \<Rightarrow> outcome" where
  "check_length n v path = (case v of JStr s \<Rightarrow> if length s > n then (False, [(path, AtMost n)]) else (True, []) | _ \<Rightarrow> (True, []))"

definition all_of :: "outcome list \<Rightarrow> outcome" where
  "all_of rs = (list_all fst rs, concat (map snd rs))"

definition when_given :: "json \<Rightarrow> outcome \<Rightarrow> outcome" where
  "when_given v r = (if v = JUndef then (True, []) else r)"

definition at_index :: "string \<Rightarrow> nat \<Rightarrow> string" where
  "at_index path i = path @ ''['' @ nat_str i @ '']''"

definition quote :: "string \<Rightarrow> string" where
  "quote s = [CHR 0x27] @ s @ [CHR 0x27]"

definition for_each :: "(json \<Rightarrow> nat \<Rightarrow> outcome) \<Rightarrow> json list \<Rightarrow> outcome" where
  "for_each f vs = all_of (map (\<lambda>(i, v). f v i) (enumerate 0 vs))"

text \<open>Unknown fields add errors and leave the verdict.\<close>

definition hasOnlyKeys :: "json \<Rightarrow> string list \<Rightarrow> string \<Rightarrow> outcome" where
  "hasOnlyKeys v allowed path =
     (True, map (\<lambda>k. (path, Says (''unknown field '' @ quote k))) (filter (\<lambda>k. k \<notin> set allowed) (object_keys v)))"

definition is_finite_number :: "json \<Rightarrow> bool" where
  "is_finite_number v = (toNumber v \<noteq> None)"

definition is_bool :: "json \<Rightarrow> bool" where
  "is_bool v = (as_bool v \<noteq> None)"

definition one_of :: "string list \<Rightarrow> json \<Rightarrow> bool" where
  "one_of xs v = (case v of JStr s \<Rightarrow> s \<in> set xs | _ \<Rightarrow> False)"

definition validateStringArray :: "json \<Rightarrow> string \<Rightarrow> outcome" where
  "validateStringArray v path =
     (case as_array v of
        None \<Rightarrow> (False, [(path, Says ''must be an array of strings'')])
      | Some vs \<Rightarrow> for_each (\<lambda>item i. check (is_str item) (at_index path i) ''must be a string'') vs)"

text \<open>The shapes that most fields have.\<close>

definition str_field :: "json \<Rightarrow> string \<Rightarrow> string \<Rightarrow> outcome" where
  "str_field v k path = check (is_str (js_prop v k)) (path @ ''.'' @ k) ''must be a string''"

definition opt_str_field :: "json \<Rightarrow> string \<Rightarrow> string \<Rightarrow> outcome" where
  "opt_str_field v k path = when_given (js_prop v k) (check (is_str (js_prop v k)) (path @ ''.'' @ k) ''must be a string when provided'')"

definition opt_bool_field :: "json \<Rightarrow> string \<Rightarrow> string \<Rightarrow> outcome" where
  "opt_bool_field v k path = when_given (js_prop v k) (check (is_bool (js_prop v k)) (path @ ''.'' @ k) ''must be a boolean when provided'')"

definition strings_field :: "json \<Rightarrow> string \<Rightarrow> string \<Rightarrow> outcome" where
  "strings_field v k path = validateStringArray (js_prop v k) (path @ ''.'' @ k)"

definition opt_strings_field :: "json \<Rightarrow> string \<Rightarrow> string \<Rightarrow> outcome" where
  "opt_strings_field v k path = when_given (js_prop v k) (validateStringArray (js_prop v k) (path @ ''.'' @ k))"

definition number_field :: "json \<Rightarrow> string \<Rightarrow> string \<Rightarrow> outcome" where
  "number_field v k path = check (is_finite_number (js_prop v k)) (path @ ''.'' @ k) ''must be a finite number''"

definition opt_number_field :: "json \<Rightarrow> string \<Rightarrow> string \<Rightarrow> outcome" where
  "opt_number_field v k path =
     when_given (js_prop v k) (check (is_finite_number (js_prop v k)) (path @ ''.'' @ k) ''must be a finite number when provided'')"

definition limit_field :: "nat \<Rightarrow> json \<Rightarrow> string \<Rightarrow> string \<Rightarrow> outcome" where
  "limit_field n v k path = check_length n (js_prop v k) (path @ ''.'' @ k)"

definition not_object :: "string \<Rightarrow> outcome" where
  "not_object path = (False, [(path, Says ''must be an object'')])"

definition DOCUMENT_TITLE_MAX_LENGTH :: nat where "DOCUMENT_TITLE_MAX_LENGTH = 500"
definition CARD_TEXT_MAX_LENGTH :: nat where "CARD_TEXT_MAX_LENGTH = 2000"
definition CRITIQUE_MAX_LENGTH :: nat where "CRITIQUE_MAX_LENGTH = 2000"
definition ISLAND_TITLE_MAX_LENGTH :: nat where "ISLAND_TITLE_MAX_LENGTH = 500"
definition ISLAND_SUMMARY_MAX_LENGTH :: nat where "ISLAND_SUMMARY_MAX_LENGTH = 2000"
definition NARRATIVE_TITLE_MAX_LENGTH :: nat where "NARRATIVE_TITLE_MAX_LENGTH = 500"
definition NARRATIVE_TEXT_MAX_LENGTH :: nat where "NARRATIVE_TEXT_MAX_LENGTH = 20000"
definition EVIDENCE_NOTE_MAX_LENGTH :: nat where "EVIDENCE_NOTE_MAX_LENGTH = 2000"

section \<open>Cards, shelf, edges\<close>

definition validate_meta :: "json \<Rightarrow> string \<Rightarrow> outcome" where
  "validate_meta m path =
     (if \<not> isRecord m then (False, [(path, Says ''must be an object when provided'')])
      else all_of [hasOnlyKeys m [''seq'', ''source''] path, opt_number_field m ''seq'' path, opt_str_field m ''source'' path])"

definition validate_ka :: "json \<Rightarrow> string \<Rightarrow> outcome" where
  "validate_ka k path =
     (if \<not> isRecord k then (False, [(path, Says ''must be an object when provided'')])
      else all_of [hasOnlyKeys k [''voice'', ''value''] path, opt_str_field k ''voice'' path, opt_str_field k ''value'' path])"

definition card_keys :: "string list" where
  "card_keys = [''id'', ''text'', ''x'', ''y'', ''claimType'', ''mergedIntoCardId'', ''repOf'', ''canonicalId'', ''sources'', ''critique'',
     ''critiqueTags'', ''textReviewed'', ''holdState'', ''meta'', ''ka'']"

definition validateCard :: "json \<Rightarrow> nat \<Rightarrow> outcome" where
  "validateCard item i =
     (let path = at_index ''cards'' i in
      if \<not> isRecord item then not_object path
      else all_of
        [hasOnlyKeys item card_keys path,
         str_field item ''id'' path,
         str_field item ''text'' path,
         limit_field CARD_TEXT_MAX_LENGTH item ''text'' path,
         limit_field CRITIQUE_MAX_LENGTH item ''critique'' path,
         number_field item ''x'' path,
         number_field item ''y'' path,
         opt_str_field item ''canonicalId'' path,
         opt_str_field item ''mergedIntoCardId'' path,
         when_given (js_prop item ''claimType'') (check (one_of [''fact'', ''claim'', ''hypothesis'', ''unknown''] (js_prop item ''claimType''))
           (path @ ''.claimType'') (''must be '' @ quote ''fact'' @ '' | '' @ quote ''claim'' @ '' | '' @ quote ''hypothesis'' @ '' | '' @ quote ''unknown'' @ '' when provided'')),
         opt_strings_field item ''repOf'' path,
         opt_strings_field item ''sources'' path,
         opt_str_field item ''critique'' path,
         opt_strings_field item ''critiqueTags'' path,
         opt_bool_field item ''textReviewed'' path,
         when_given (js_prop item ''holdState'') (check (one_of [''held'', ''pending'', ''shelved''] (js_prop item ''holdState''))
           (path @ ''.holdState'') (''must be '' @ quote ''held'' @ '' | '' @ quote ''pending'' @ '' | '' @ quote ''shelved'' @ '' when provided'')),
         when_given (js_prop item ''meta'') (validate_meta (js_prop item ''meta'') (path @ ''.meta'')),
         when_given (js_prop item ''ka'') (validate_ka (js_prop item ''ka'') (path @ ''.ka''))])"

definition validateShelfEntry :: "(string \<Rightarrow> int option) \<Rightarrow> json \<Rightarrow> nat \<Rightarrow> outcome" where
  "validateShelfEntry dateParse item i =
     (let path = at_index ''shelf'' i in
      if \<not> isRecord item then not_object path
      else all_of
        [hasOnlyKeys item [''cardId'', ''shelvedAt'', ''reason''] path,
         check (isNonEmptyString (js_prop item ''cardId'')) (path @ ''.cardId'') ''must be a non-empty string'',
         check (isIsoTimestamp dateParse (js_prop item ''shelvedAt'')) (path @ ''.shelvedAt'') ''must be an ISO timestamp'',
         opt_str_field item ''reason'' path])"

definition validateEdge :: "json \<Rightarrow> nat \<Rightarrow> outcome" where
  "validateEdge item i =
     (let path = at_index ''edges'' i in
      if \<not> isRecord item then not_object path
      else all_of
        [hasOnlyKeys item [''id'', ''fromId'', ''toId'', ''fromKind'', ''toKind'', ''type''] path,
         str_field item ''id'' path,
         str_field item ''fromId'' path,
         str_field item ''toId'' path,
         when_given (js_prop item ''fromKind'') (check (one_of [''card'', ''island''] (js_prop item ''fromKind''))
           (path @ ''.fromKind'') (''must be '' @ quote ''card'' @ '' or '' @ quote ''island'' @ '' when provided'')),
         when_given (js_prop item ''toKind'') (check (one_of [''card'', ''island''] (js_prop item ''toKind''))
           (path @ ''.toKind'') (''must be '' @ quote ''card'' @ '' or '' @ quote ''island'' @ '' when provided'')),
         check (nonempty_str (js_prop item ''type'') \<noteq> None) (path @ ''.type'') ''must be a non-empty string''])"

section \<open>Islands\<close>

definition validate_point :: "json \<Rightarrow> string \<Rightarrow> outcome" where
  "validate_point p path =
     (if \<not> isRecord p then not_object path
      else all_of [hasOnlyKeys p [''x'', ''y''] path, number_field p ''x'' path, number_field p ''y'' path])"

text \<open>The polygon of points that were found valid.\<close>

definition validate_points :: "json list \<Rightarrow> string \<Rightarrow> outcome" where
  "validate_points ps path =
     (let r = for_each (\<lambda>p i. validate_point p (at_index path i)) ps in
      if fst r \<and> \<not> canUsePolygonPoints (List.map_filter parse_point ps)
      then (False, snd r @ [(path, Says ''polygon must not self-intersect'')]) else r)"

definition few_points :: "string \<Rightarrow> outcome" where
  "few_points path = (False, [(path @ ''.points'', Says ''must contain at least 3 points for polygon'')])"

definition geometry_points :: "json \<Rightarrow> json list option" where
  "geometry_points v = (case as_array (js_prop v ''points'') of Some ps \<Rightarrow> Some ps
     | None \<Rightarrow> if isRecord (js_prop v ''polygon'') then as_array (js_prop (js_prop v ''polygon'') ''points'') else None)"

definition validateIslandGeometry :: "json \<Rightarrow> string \<Rightarrow> outcome" where
  "validateIslandGeometry v path =
     (if \<not> isRecord v then not_object path
      else all_of
        [hasOnlyKeys v [''type'', ''x'', ''y'', ''w'', ''h'', ''points'', ''polygon''] path,
         (if \<not> one_of [''rect'', ''polygon''] (js_prop v ''type'')
          then (False, [(path @ ''.type'', Says (''must be '' @ quote ''rect'' @ '' or '' @ quote ''polygon''))])
          else if js_prop v ''type'' = JStr ''polygon''
          then (case geometry_points v of
                  None \<Rightarrow> few_points path
                | Some ps \<Rightarrow> if length ps < 3 then few_points path else validate_points ps (path @ ''.points''))
          else all_of
            [check (js_prop v ''points'' = JUndef \<and> js_prop v ''polygon'' = JUndef) (path @ ''.points'')
               ''rect geometry must not include polygon points'',
             opt_number_field v ''x'' path, opt_number_field v ''y'' path, opt_number_field v ''w'' path, opt_number_field v ''h'' path])])"

definition validate_generated_from :: "json \<Rightarrow> string \<Rightarrow> outcome" where
  "validate_generated_from g path =
     (if \<not> isRecord g then not_object path
      else all_of [hasOnlyKeys g [''cardIds'', ''versionToken''] path, strings_field g ''cardIds'' path, str_field g ''versionToken'' path])"

definition validateIslandShape :: "json \<Rightarrow> string \<Rightarrow> outcome" where
  "validateIslandShape v path =
     (if \<not> isRecord v then not_object path
      else if \<not> one_of [''rect'', ''polygon''] (js_prop v ''kind'')
      then all_of [hasOnlyKeys v [''kind'', ''points'', ''generatedFrom''] path,
        (False, [(path @ ''.kind'', Says (''must be '' @ quote ''rect'' @ '' or '' @ quote ''polygon''))])]
      else all_of
        [hasOnlyKeys v [''kind'', ''points'', ''generatedFrom''] path,
         (if js_prop v ''kind'' = JStr ''polygon''
          then (case as_array (js_prop v ''points'') of
                  None \<Rightarrow> few_points path
                | Some ps \<Rightarrow> if length ps < 3 then few_points path else validate_points ps (path @ ''.points''))
          else check (js_prop v ''points'' = JUndef) (path @ ''.points'') ''rect shape must not include points''),
         when_given (js_prop v ''generatedFrom'') (validate_generated_from (js_prop v ''generatedFrom'') (path @ ''.generatedFrom''))])"

definition validate_cue :: "json \<Rightarrow> string \<Rightarrow> outcome" where
  "validate_cue cue path =
     (if \<not> isRecord cue then (False, [(path, Says ''must be an object when provided'')])
      else all_of
        [hasOnlyKeys cue [''kind'', ''cueId'', ''altText'', ''imageRef''] path,
         check (one_of [''hand_drawn'', ''user_image'', ''preset_svg'', ''emoji''] (js_prop cue ''kind'')) (path @ ''.kind'')
           (''must be '' @ quote ''hand_drawn'' @ '' | '' @ quote ''user_image'' @ '' | '' @ quote ''preset_svg'' @ '' | '' @ quote ''emoji''),
         str_field cue ''cueId'' path,
         str_field cue ''altText'' path,
         opt_str_field cue ''imageRef'' path])"

definition island_keys :: "string list" where
  "island_keys = [''id'', ''cardIds'', ''parentIslandId'', ''placardCardId'', ''collapsed'', ''title'', ''titleReviewed'', ''summaryText'',
     ''summaryReviewed'', ''summaryGrounding'', ''summaryHistory'', ''imageUrl'', ''imageReviewed'', ''critique'', ''critiqueTags'',
     ''geometry'', ''shape'', ''shapeStale'', ''representativeCue'']"

definition validateIsland :: "json \<Rightarrow> nat \<Rightarrow> outcome" where
  "validateIsland item i =
     (let path = at_index ''islands'' i in
      if \<not> isRecord item then not_object path
      else all_of
        [hasOnlyKeys item island_keys path,
         str_field item ''id'' path,
         strings_field item ''cardIds'' path,
         opt_str_field item ''parentIslandId'' path,
         opt_str_field item ''placardCardId'' path,
         limit_field ISLAND_TITLE_MAX_LENGTH item ''title'' path,
         limit_field ISLAND_SUMMARY_MAX_LENGTH item ''summaryText'' path,
         opt_bool_field item ''collapsed'' path,
         opt_str_field item ''title'' path,
         opt_bool_field item ''titleReviewed'' path,
         opt_str_field item ''summaryText'' path,
         opt_bool_field item ''summaryReviewed'' path,
         opt_strings_field item ''summaryGrounding'' path,
         opt_str_field item ''imageUrl'' path,
         opt_bool_field item ''imageReviewed'' path,
         opt_str_field item ''critique'' path,
         opt_strings_field item ''critiqueTags'' path,
         when_given (js_prop item ''geometry'') (validateIslandGeometry (js_prop item ''geometry'') (path @ ''.geometry'')),
         when_given (js_prop item ''shape'') (validateIslandShape (js_prop item ''shape'') (path @ ''.shape'')),
         opt_bool_field item ''shapeStale'' path,
         when_given (js_prop item ''representativeCue'') (validate_cue (js_prop item ''representativeCue'') (path @ ''.representativeCue''))])"

section \<open>Relation summaries, patch log, evidence links\<close>

definition bool_field :: "json \<Rightarrow> string \<Rightarrow> string \<Rightarrow> outcome" where
  "bool_field v k path = check (is_bool (js_prop v k)) (path @ ''.'' @ k) ''must be a boolean''"

definition relation_keys :: "string list" where
  "relation_keys = [''id'', ''createdAt'', ''islandAId'', ''islandBId'', ''relationType'', ''derived'', ''text'', ''reviewed'',
     ''groundingCardIds'', ''groundingEdgeIds'', ''warnings'', ''sourceSignature'', ''history'']"

definition validateRelationSummary :: "json \<Rightarrow> nat \<Rightarrow> outcome" where
  "validateRelationSummary item i =
     (let path = at_index ''relationSummaries'' i in
      if \<not> isRecord item then not_object path
      else all_of
        [hasOnlyKeys item relation_keys path,
         str_field item ''id'' path,
         str_field item ''createdAt'' path,
         str_field item ''islandAId'' path,
         str_field item ''islandBId'' path,
         check (one_of (''unknown'' # KNOWN_EDGE_TYPES) (js_prop item ''relationType'')) (path @ ''.relationType'')
           (''must be one of '' @ join_with '', '' KNOWN_EDGE_TYPES @ '', or '' @ quote ''unknown''),
         bool_field item ''derived'' path,
         str_field item ''text'' path,
         bool_field item ''reviewed'' path,
         strings_field item ''groundingCardIds'' path,
         strings_field item ''groundingEdgeIds'' path,
         opt_strings_field item ''warnings'' path,
         str_field item ''sourceSignature'' path])"

definition validatePatchApplyStats :: "json \<Rightarrow> string \<Rightarrow> outcome" where
  "validatePatchApplyStats v path =
     (if \<not> isRecord v then not_object path
      else all_of (hasOnlyKeys v patch_stat_keys path # map (\<lambda>k. number_field v k path) patch_stat_keys))"

definition conflict_keys :: "string list" where
  "conflict_keys = [''totalConflicts'', ''chosenYours'', ''chosenTheirs'', ''chosenSkip'']"

definition validate_conflict_meta :: "json \<Rightarrow> string \<Rightarrow> outcome" where
  "validate_conflict_meta v path =
     (if \<not> isRecord v then (False, [(path, Says ''must be an object when provided'')])
      else all_of (hasOnlyKeys v conflict_keys path # map (\<lambda>k. number_field v k path) conflict_keys))"

definition validatePatchApplyLogEntry :: "json \<Rightarrow> nat \<Rightarrow> outcome" where
  "validatePatchApplyLogEntry item i =
     (let path = at_index ''patchApplyLog'' i in
      if \<not> isRecord item then not_object path
      else all_of
        [hasOnlyKeys item [''id'', ''createdAt'', ''patchVersion'', ''patchTitle'', ''baseDocSignature'', ''patchSourceSignature'',
           ''appliedOpIds'', ''stats'', ''conflictMeta'', ''note''] path,
         str_field item ''id'' path,
         str_field item ''createdAt'' path,
         check (js_prop item ''patchVersion'' = JStr ''1'') (path @ ''.patchVersion'') (''must be '' @ quote ''1''),
         opt_str_field item ''patchTitle'' path,
         opt_str_field item ''baseDocSignature'' path,
         opt_str_field item ''patchSourceSignature'' path,
         strings_field item ''appliedOpIds'' path,
         validatePatchApplyStats (js_prop item ''stats'') (path @ ''.stats''),
         when_given (js_prop item ''conflictMeta'') (validate_conflict_meta (js_prop item ''conflictMeta'') (path @ ''.conflictMeta'')),
         opt_str_field item ''note'' path])"

text \<open>\<open>===\<close> on values that come from different places: objects are never identical.\<close>

definition strict_eq :: "json \<Rightarrow> json \<Rightarrow> bool" where
  "strict_eq v w = (v = w \<and> \<not> isRecord v \<and> v \<noteq> JNum NaN)"

definition evidence_keys :: "string list" where
  "evidence_keys = [''id'', ''type'', ''fromCardId'', ''toCardId'', ''note'', ''createdAt'']"

definition validateEvidenceLink :: "json \<Rightarrow> nat \<Rightarrow> outcome" where
  "validateEvidenceLink item i =
     (let path = at_index ''evidenceLinks'' i in
      if \<not> isRecord item then not_object path
      else all_of
        [hasOnlyKeys item evidence_keys path,
         str_field item ''id'' path,
         check (one_of [''supports'', ''contradicts''] (js_prop item ''type'')) (path @ ''.type'')
           (''must be '' @ quote ''supports'' @ '' or '' @ quote ''contradicts''),
         str_field item ''fromCardId'' path,
         str_field item ''toCardId'' path,
         check (\<not> strict_eq (js_prop item ''fromCardId'') (js_prop item ''toCardId'')) path ''self-link is not allowed'',
         opt_str_field item ''note'' path,
         limit_field EVIDENCE_NOTE_MAX_LENGTH item ''note'' path,
         opt_str_field item ''createdAt'' path])"

section \<open>Review records\<close>

definition target_ref_text :: string where
  "target_ref_text = ''must start with '' @ quote ''card:'' @ '', '' @ quote ''island:'' @ '', '' @ quote ''cluster:'' @ '', '' @
     quote ''edge:'' @ '', or '' @ quote ''proposal:''"

definition positive_integer :: "json \<Rightarrow> bool" where
  "positive_integer v = (isIntegerNumber v \<and> at_least_one v)"

definition validateCritiqueInput :: "(string \<Rightarrow> int option) \<Rightarrow> json \<Rightarrow> nat \<Rightarrow> outcome" where
  "validateCritiqueInput dateParse item i =
     (let path = at_index ''critiqueInputs'' i in
      if \<not> isRecord item then not_object path
      else all_of
        [hasOnlyKeys item [''schemaVersion'', ''critiqueId'', ''targetRef'', ''critiqueType'', ''createdAt'', ''iteration'', ''comment'',
           ''constraintHints''] path,
         check (js_prop item ''schemaVersion'' = JStr ''1.0.0'') (path @ ''.schemaVersion'') (''must be '' @ quote ''1.0.0''),
         check (isNonEmptyString (js_prop item ''critiqueId'')) (path @ ''.critiqueId'') ''must be a non-empty string'',
         check (isA1TargetRef (js_prop item ''targetRef'')) (path @ ''.targetRef'') target_ref_text,
         check (one_of CRITIQUE_TAGS (js_prop item ''critiqueType'')) (path @ ''.critiqueType'') ''must be a known A1 critique type'',
         check (isIsoTimestamp dateParse (js_prop item ''createdAt'')) (path @ ''.createdAt'') ''must be an ISO timestamp'',
         check (positive_integer (js_prop item ''iteration'')) (path @ ''.iteration'') ''must be an integer greater than or equal to 1'',
         opt_str_field item ''comment'' path,
         opt_strings_field item ''constraintHints'' path])"

definition payload_field :: "json \<Rightarrow> string \<Rightarrow> string \<Rightarrow> outcome" where
  "payload_field item k path =
     check (own_key k item \<longrightarrow> js_prop item k = JNull \<or> isPlainPayloadObject (js_prop item k)) (path @ ''.'' @ k) ''must be an object or null''"

definition validateReproposalDiffOp :: "json \<Rightarrow> string \<Rightarrow> outcome" where
  "validateReproposalDiffOp item path =
     (if \<not> isRecord item then not_object path
      else all_of
        [hasOnlyKeys item [''opId'', ''opType'', ''targetRef'', ''before'', ''after'', ''rationale''] path,
         check (isNonEmptyString (js_prop item ''opId'')) (path @ ''.opId'') ''must be a non-empty string'',
         check (one_of [''add'', ''remove'', ''move'', ''regroup'', ''relabel''] (js_prop item ''opType'')) (path @ ''.opType'')
           (''must be '' @ quote ''add'' @ '' | '' @ quote ''remove'' @ '' | '' @ quote ''move'' @ '' | '' @ quote ''regroup'' @ '' | '' @ quote ''relabel''),
         check (isA1TargetRef (js_prop item ''targetRef'')) (path @ ''.targetRef'') target_ref_text,
         check (own_key ''before'' item) (path @ ''.before'') ''field is required'',
         check (own_key ''after'' item) (path @ ''.after'') ''field is required'',
         payload_field item ''before'' path,
         payload_field item ''after'' path,
         check (\<not> (own_key ''before'' item \<and> own_key ''after'' item \<and> js_prop item ''before'' = JNull \<and> js_prop item ''after'' = JNull))
           path ''before and after must not both be null'',
         opt_str_field item ''rationale'' path])"

definition validateReproposalDiff :: "json \<Rightarrow> nat \<Rightarrow> outcome" where
  "validateReproposalDiff item i =
     (let path = at_index ''reproposalDiffs'' i in
      if \<not> isRecord item then not_object path
      else all_of
        [hasOnlyKeys item [''schemaVersion'', ''proposalId'', ''basedOnIteration'', ''diffOps'', ''traceKey'', ''rationale''] path,
         check (js_prop item ''schemaVersion'' = JStr ''1.0.0'') (path @ ''.schemaVersion'') (''must be '' @ quote ''1.0.0''),
         check (isNonEmptyString (js_prop item ''proposalId'')) (path @ ''.proposalId'') ''must be a non-empty string'',
         check (positive_integer (js_prop item ''basedOnIteration'')) (path @ ''.basedOnIteration'') ''must be an integer greater than or equal to 1'',
         check (isNonEmptyString (js_prop item ''traceKey'')) (path @ ''.traceKey'') ''must be a non-empty string'',
         opt_str_field item ''rationale'' path,
         (case as_array (js_prop item ''diffOps'') of
            Some (op # ops) \<Rightarrow> for_each (\<lambda>op k. validateReproposalDiffOp op (at_index (path @ ''.diffOps'') k)) (op # ops)
          | _ \<Rightarrow> (False, [(path @ ''.diffOps'', Says ''must be a non-empty array'')]))])"

definition NON_OPAQUE_REF_PREFIXES :: "string list" where
  "NON_OPAQUE_REF_PREFIXES = [''sso:'', ''oidc:'', ''saml:'', ''provider:'']"

definition isOpaqueRef :: "string \<Rightarrow> bool" where
  "isOpaqueRef s = (CHR ''@'' \<notin> set s \<and> \<not> list_ex (\<lambda>p. starts_with p s) NON_OPAQUE_REF_PREFIXES)"

definition opaque_ref :: "json \<Rightarrow> bool" where
  "opaque_ref v = (case v of JStr s \<Rightarrow> isOpaqueRef s | _ \<Rightarrow> True)"

definition validateReviewAttribution :: "(string \<Rightarrow> int option) \<Rightarrow> json \<Rightarrow> outcome" where
  "validateReviewAttribution dateParse item =
     (let path = ''reviewAttribution''; refused = ''must not contain email-like/provider identifiers'' in
      if \<not> isRecord item then not_object path
      else all_of
        [hasOnlyKeys item [''schemaVersion'', ''reviewState'', ''reviewedAt'', ''reviewerRef'', ''auditRecordedAt'', ''overridePolicy'',
           ''reviewContext'', ''ownerRef''] path,
         check (js_prop item ''schemaVersion'' = JStr ''1.0.0'') (path @ ''.schemaVersion'') (''must be '' @ quote ''1.0.0''),
         check (one_of [''unreviewed'', ''human_reviewed''] (js_prop item ''reviewState'')) (path @ ''.reviewState'')
           (''must be '' @ quote ''unreviewed'' @ '' or '' @ quote ''human_reviewed''),
         (if \<not> isNonEmptyString (js_prop item ''reviewerRef'')
          then (False, [(path @ ''.reviewerRef'', Says ''must be a non-empty opaque string'')])
          else check (opaque_ref (js_prop item ''reviewerRef'')) (path @ ''.reviewerRef'') refused),
         check (isIsoTimestamp dateParse (js_prop item ''auditRecordedAt'')) (path @ ''.auditRecordedAt'') ''must be an ISO timestamp'',
         check (js_prop item ''overridePolicy'' = JStr ''human_dual_control_only'') (path @ ''.overridePolicy'')
           (''must be '' @ quote ''human_dual_control_only''),
         opt_str_field item ''reviewContext'' path,
         opt_str_field item ''ownerRef'' path,
         check (opaque_ref (js_prop item ''ownerRef'')) (path @ ''.ownerRef'') refused,
         check (js_prop item ''reviewState'' = JStr ''human_reviewed'' \<longrightarrow> isIsoTimestamp dateParse (js_prop item ''reviewedAt''))
           (path @ ''.reviewedAt'') (''must be an ISO timestamp when reviewState is '' @ quote ''human_reviewed''),
         check (js_prop item ''reviewState'' = JStr ''unreviewed'' \<longrightarrow> js_prop item ''reviewedAt'' = JNull)
           (path @ ''.reviewedAt'') (''must be null when reviewState is '' @ quote ''unreviewed'')])"

definition validateDeterministicTieBreak :: "json \<Rightarrow> outcome" where
  "validateDeterministicTieBreak item =
     (let path = ''deterministicTieBreak'' in
      if \<not> isRecord item then not_object path
      else all_of
        [hasOnlyKeys item [''schemaVersion'', ''order''] path,
         check (js_prop item ''schemaVersion'' = JStr ''1.0.0'') (path @ ''.schemaVersion'') (''must be '' @ quote ''1.0.0''),
         (case as_array (js_prop item ''order'') of
            None \<Rightarrow> (False, [(path @ ''.order'', Says ''must contain the fixed deterministic order'')])
          | Some vs \<Rightarrow>
              if length vs \<noteq> length tie_break_order then (False, [(path @ ''.order'', Says ''must contain the fixed deterministic order'')])
              else all_of (map (\<lambda>(i, expected). check (vs ! i = JStr expected) (at_index (path @ ''.order'') i) (''must be '' @ quote expected))
                (enumerate 0 tie_break_order)))])"

section \<open>Decisions and narratives\<close>

definition decision_text :: string where
  "decision_text = ''must be '' @ quote ''accept'' @ '' | '' @ quote ''partial'' @ '' | '' @ quote ''reject'' @ '' | '' @ quote ''defer''"

definition decision_words :: "string list" where
  "decision_words = [''accept'', ''partial'', ''reject'', ''defer'']"

definition validateMergeSuggestionDecisionEntry :: "json \<Rightarrow> nat \<Rightarrow> outcome" where
  "validateMergeSuggestionDecisionEntry item i =
     (let path = at_index ''mergeSuggestionDecisions'' i in
      if \<not> isRecord item then not_object path
      else all_of
        [hasOnlyKeys item [''id'', ''decisionId'', ''groupId'', ''decision'', ''action'', ''decidedAt'', ''decidedBy'', ''cardIds'',
           ''selectedCardIds'', ''mergedTextDraft'', ''editedText'', ''note'', ''snapshotVersion'', ''rationale'', ''mergeMethod'',
           ''representativeCardId'', ''representativeResolvedBy'', ''sourceCardIds'', ''missingSourceCardIds''] path,
         str_field item ''id'' path,
         str_field item ''groupId'' path,
         opt_str_field item ''decisionId'' path,
         check (one_of decision_words (js_prop item ''decision'')) (path @ ''.decision'') decision_text,
         when_given (js_prop item ''action'') (check (one_of decision_words (js_prop item ''action'')) (path @ ''.action'')
           (decision_text @ '' when provided'')),
         str_field item ''decidedAt'' path,
         opt_str_field item ''decidedBy'' path,
         strings_field item ''cardIds'' path,
         opt_strings_field item ''selectedCardIds'' path,
         str_field item ''mergedTextDraft'' path,
         str_field item ''editedText'' path,
         opt_str_field item ''note'' path,
         opt_str_field item ''snapshotVersion'' path,
         opt_str_field item ''rationale'' path,
         when_given (js_prop item ''mergeMethod'') (check (one_of [''near_duplicate'', ''kernel_fusion''] (js_prop item ''mergeMethod''))
           (path @ ''.mergeMethod'') (''must be '' @ quote ''near_duplicate'' @ '' | '' @ quote ''kernel_fusion'' @ '' when provided'')),
         opt_str_field item ''representativeCardId'' path,
         when_given (js_prop item ''representativeResolvedBy'')
           (check (one_of [''repOf'', ''mergedIntoCardId'', ''fallback'', ''unresolved''] (js_prop item ''representativeResolvedBy''))
             (path @ ''.representativeResolvedBy'') (''must be '' @ quote ''repOf'' @ '' | '' @ quote ''mergedIntoCardId'' @ '' | '' @
               quote ''fallback'' @ '' | '' @ quote ''unresolved'' @ '' when provided'')),
         opt_strings_field item ''sourceCardIds'' path,
         opt_strings_field item ''missingSourceCardIds'' path])"

definition validateContradictionSignalDecisionEntry :: "json \<Rightarrow> nat \<Rightarrow> outcome" where
  "validateContradictionSignalDecisionEntry item i =
     (let path = at_index ''contradictionSignalDecisions'' i in
      if \<not> isRecord item then not_object path
      else all_of
        [hasOnlyKeys item [''signatureKey'', ''status'', ''decidedAt''] path,
         check (nonempty_str (js_prop item ''signatureKey'') \<noteq> None) (path @ ''.signatureKey'') ''must be a non-empty string'',
         check (one_of [''accepted'', ''held'', ''rejected''] (js_prop item ''status'')) (path @ ''.status'')
           (''must be '' @ quote ''accepted'' @ '' | '' @ quote ''held'' @ '' | '' @ quote ''rejected''),
         str_field item ''decidedAt'' path])"

definition validateNarrative :: "json \<Rightarrow> nat \<Rightarrow> outcome" where
  "validateNarrative item i =
     (let path = at_index ''narratives'' i in
      if \<not> isRecord item then not_object path
      else all_of
        [hasOnlyKeys item [''id'', ''title'', ''text'', ''createdAt'', ''basedOnReadingOrder'', ''reviewed'', ''checks''] path,
         str_field item ''id'' path,
         str_field item ''title'' path,
         limit_field NARRATIVE_TITLE_MAX_LENGTH item ''title'' path,
         str_field item ''text'' path,
         limit_field NARRATIVE_TEXT_MAX_LENGTH item ''text'' path,
         opt_str_field item ''createdAt'' path,
         opt_strings_field item ''basedOnReadingOrder'' path,
         bool_field item ''reviewed'' path])"

section \<open>The document\<close>

definition validate_transform :: "json \<Rightarrow> outcome" where
  "validate_transform v =
     (let path = ''document.transform'' in
      if \<not> isRecord v then not_object path
      else all_of [hasOnlyKeys v [''panX'', ''panY'', ''zoom''] path, number_field v ''panX'' path, number_field v ''panY'' path,
        number_field v ''zoom'' path])"

definition list_part :: "json \<Rightarrow> string \<Rightarrow> (json \<Rightarrow> nat \<Rightarrow> outcome) \<Rightarrow> outcome" where
  "list_part v k f = (case as_array (js_prop v k) of
     None \<Rightarrow> (False, [(''document.'' @ k, Says ''must be an array'')]) | Some vs \<Rightarrow> for_each f vs)"

definition opt_list_part :: "json \<Rightarrow> string \<Rightarrow> (json \<Rightarrow> nat \<Rightarrow> outcome) \<Rightarrow> outcome" where
  "opt_list_part v k f = when_given (js_prop v k) (case as_array (js_prop v k) of
     None \<Rightarrow> (False, [(''document.'' @ k, Says ''must be an array when provided'')]) | Some vs \<Rightarrow> for_each f vs)"

text \<open>The loop over the shelf; the cards by id are those that have one, the last of equal ids.\<close>

definition raw_cards_by_id :: "json \<Rightarrow> (string \<times> json) list" where
  "raw_cards_by_id v = new_map (List.map_filter
     (\<lambda>c. if isRecord c then map_option (\<lambda>i. (i, c)) (as_string (js_prop c ''id'')) else None) (nullish (as_array v) []))"

fun shelf_errors :: "(string \<Rightarrow> int option) \<Rightarrow> (string \<times> json) list \<Rightarrow> string list \<Rightarrow> nat \<Rightarrow> json list \<Rightarrow> (string \<times> reason) list" where
  "shelf_errors dateParse cardById seen i [] = []"
| "shelf_errors dateParse cardById seen i (item # items) =
     (let r = validateShelfEntry dateParse item i; cardId = the (as_string (js_prop item ''cardId''));
          path = at_index ''shelf'' i @ ''.cardId''
      in snd r @
         (if \<not> fst r then shelf_errors dateParse cardById seen (Suc i) items
          else (if cardId \<in> set seen then [(path, Says (''duplicate card id '' @ quote cardId))] else []) @
               (case map_of cardById cardId of
                  None \<Rightarrow> [(path, Says (''unknown card '' @ quote cardId))]
                | Some c \<Rightarrow> if js_prop c ''holdState'' \<noteq> JStr ''shelved''
                    then [(path, Says (''card '' @ quote cardId @ '' must have holdState '' @ quote ''shelved''))] else []) @
               shelf_errors dateParse cardById (js_add cardId seen) (Suc i) items))"

definition raw_key :: "json \<Rightarrow> string" where
  "raw_key item = the (as_string (js_prop item ''fromCardId'')) @ '':'' @ the (as_string (js_prop item ''toCardId'')) @ '':'' @
     the (as_string (js_prop item ''type''))"

fun evidence_errors :: "string list \<Rightarrow> string list \<Rightarrow> nat \<Rightarrow> json list \<Rightarrow> (string \<times> reason) list" where
  "evidence_errors ids tuples i [] = []"
| "evidence_errors ids tuples i (item # items) =
     (let r = validateEvidenceLink item i; linkId = the (as_string (js_prop item ''id'')); path = at_index ''evidenceLinks'' i
      in snd r @
         (if \<not> fst r then evidence_errors ids tuples (Suc i) items
          else (if linkId \<in> set ids then [(path @ ''.id'', Says (''duplicate id '' @ quote linkId))] else []) @
               (if raw_key item \<in> set tuples then [(path, Says (''duplicate link tuple '' @ quote (raw_key item)))] else []) @
               evidence_errors (js_add linkId ids) (js_add (raw_key item) tuples) (Suc i) items))"

definition document_keys :: "string list" where
  "document_keys = [''version'', ''id'', ''title'', ''createdAt'', ''updatedAt'', ''transform'', ''cards'', ''edges'', ''islands'',
     ''readingOrder'', ''narratives'', ''relationSummaries'', ''evidenceLinks'', ''patchApplyLog'', ''mergeSuggestionDecisions'',
     ''contradictionSignalDecisions'', ''critiqueInputs'', ''reproposalDiffs'', ''reviewAttribution'', ''deterministicTieBreak'', ''shelf'']"

definition strict_errors :: "(string \<Rightarrow> int option) \<Rightarrow> json \<Rightarrow> (string \<times> reason) list" where
  "strict_errors dateParse v = snd (all_of
     [hasOnlyKeys v document_keys ''document'',
      check (js_prop v ''version'' = JNum (Finite 1)) ''document.version'' ''must be the number 1 (DocumentV1 only)'',
      str_field v ''id'' ''document'',
      opt_str_field v ''title'' ''document'',
      limit_field DOCUMENT_TITLE_MAX_LENGTH v ''title'' ''document'',
      str_field v ''createdAt'' ''document'',
      str_field v ''updatedAt'' ''document'',
      validate_transform (js_prop v ''transform''),
      list_part v ''cards'' validateCard,
      list_part v ''edges'' validateEdge,
      list_part v ''islands'' validateIsland,
      opt_strings_field v ''readingOrder'' ''document'',
      opt_list_part v ''narratives'' validateNarrative,
      when_given (js_prop v ''shelf'') (case as_array (js_prop v ''shelf'') of
          None \<Rightarrow> (False, [(''document.shelf'', Says ''must be an array when provided'')])
        | Some vs \<Rightarrow> (True, shelf_errors dateParse (raw_cards_by_id (js_prop v ''cards'')) [] 0 vs)),
      opt_list_part v ''relationSummaries'' validateRelationSummary,
      when_given (js_prop v ''evidenceLinks'') (case as_array (js_prop v ''evidenceLinks'') of
          None \<Rightarrow> (False, [(''document.evidenceLinks'', Says ''must be an array when provided'')])
        | Some vs \<Rightarrow> (True, evidence_errors [] [] 0 vs)),
      opt_list_part v ''patchApplyLog'' validatePatchApplyLogEntry,
      opt_list_part v ''mergeSuggestionDecisions'' validateMergeSuggestionDecisionEntry,
      opt_list_part v ''contradictionSignalDecisions'' validateContradictionSignalDecisionEntry,
      opt_list_part v ''critiqueInputs'' (validateCritiqueInput dateParse),
      opt_list_part v ''reproposalDiffs'' validateReproposalDiff,
      when_given (js_prop v ''reviewAttribution'') (validateReviewAttribution dateParse (js_prop v ''reviewAttribution'')),
      when_given (js_prop v ''deterministicTieBreak'') (validateDeterministicTieBreak (js_prop v ''deterministicTieBreak''))])"

definition validateDocumentV1Strict :: "(string \<Rightarrow> int option) \<Rightarrow> json \<Rightarrow> (string \<times> reason) list + json" where
  "validateDocumentV1Strict dateParse v =
     (if \<not> isRecord v then Inl [(''document'', Says ''must be a JSON object'')]
      else if length (strict_errors dateParse v) > 0 then Inl (strict_errors dateParse v) else Inr v)"

section \<open>Membership advice\<close>

definition add_member :: "string \<Rightarrow> string \<Rightarrow> (string \<times> string list) list \<Rightarrow> (string \<times> string list) list" where
  "add_member islandId cardId m = AList.update cardId (nullish (map_of m cardId) [] @ [islandId]) m"

definition advised_id :: "nat \<Rightarrow> island \<Rightarrow> string" where
  "advised_id i island' = (if length (island_id island') > 0 then island_id island' else at_index ''islands'' i)"

definition memberships :: "island list \<Rightarrow> (string \<times> string list) list" where
  "memberships is' = fold (\<lambda>(i, island') m. fold (add_member (advised_id i island')) (uniq (cardIds island')) m) (enumerate 0 is') []"

definition advisory :: "string \<times> string list \<Rightarrow> string" where
  "advisory e = ''islands: card '' @ quote (fst e) @ '' belongs to '' @ nat_str (length (snd e)) @ '' islands ('' @ join_with '', '' (snd e) @
     ''): a card should belong to at most one island''"

definition checkIslandMembershipIntegrity :: "island list \<Rightarrow> string list" where
  "checkIslandMembershipIntegrity is' = map advisory (filter (\<lambda>e. \<not> length (snd e) < 2) (memberships is'))"

section \<open>No errors\<close>

named_theorems no_error

lemma check_ok [no_error]: "snd (check ok p w) = [] \<longleftrightarrow> ok"
  by (simp add: check_def)

lemma all_of_ok [no_error]: "snd (all_of rs) = [] \<longleftrightarrow> list_all (\<lambda>r. snd r = []) rs"
  by (simp add: all_of_def list_all_iff)

lemma when_given_ok [no_error]: "snd (when_given v r) = [] \<longleftrightarrow> v = JUndef \<or> snd r = []"
  by (simp add: when_given_def)

lemma hasOnlyKeys_ok [no_error]: "snd (hasOnlyKeys v ks p) = [] \<longleftrightarrow> set (object_keys v) \<subseteq> set ks"
  by (auto simp: hasOnlyKeys_def filter_empty_conv)

lemma check_length_ok [no_error]: "snd (check_length n v p) = [] \<longleftrightarrow> (\<forall>s. as_string v = Some s \<longrightarrow> length s \<le> n)"
  by (cases v) (auto simp: check_length_def)

lemma for_each_ok [no_error]: "snd (for_each f vs) = [] \<longleftrightarrow> (\<forall>i<length vs. snd (f (vs ! i) i) = [])"
proof -
  have "set (enumerate 0 vs) = {(i, vs ! i) | i. i < length vs}"
    by (auto simp: in_set_enumerate_eq)
  then show ?thesis by (auto simp: for_each_def all_of_ok list_all_iff)
qed

lemma validateStringArray_ok [no_error]: "snd (validateStringArray v p) = [] \<longleftrightarrow> all_strings v \<noteq> None"
  by (cases "as_array v") (simp_all add: validateStringArray_def for_each_ok check_ok list_all_length all_strings_def)

lemma not_object_bad [no_error]: "snd (not_object p) \<noteq> []" "snd (few_points p) \<noteq> []"
  by (simp_all add: not_object_def few_points_def)

lemma opt_list_part_ok [no_error]: "snd (opt_list_part v k f) = [] \<longleftrightarrow>
    js_prop v k = JUndef \<or> (\<exists>vs. as_array (js_prop v k) = Some vs \<and> (\<forall>i<length vs. snd (f (vs ! i) i) = []))"
  by (cases "as_array (js_prop v k)") (auto simp: opt_list_part_def when_given_ok for_each_ok)

lemma list_part_ok [no_error]: "snd (list_part v k f) = [] \<longleftrightarrow>
    (\<exists>vs. as_array (js_prop v k) = Some vs \<and> (\<forall>i<length vs. snd (f (vs ! i) i) = []))"
  by (cases "as_array (js_prop v k)") (auto simp: list_part_def for_each_ok)

lemmas fields_def = str_field_def opt_str_field_def opt_bool_field_def strings_field_def opt_strings_field_def number_field_def
  opt_number_field_def limit_field_def bool_field_def

lemma accepted_no_error: "validateDocumentV1Strict dp v = Inr w \<longleftrightarrow> w = v \<and> isRecord v \<and> strict_errors dp v = []"
  by (auto simp: validateDocumentV1Strict_def)

lemma is_strD: "is_str v \<Longrightarrow> \<exists>s. as_string v = Some s"
  by (simp add: is_str_def)

lemma strings_of_ok: "all_strings v \<noteq> None \<Longrightarrow> \<exists>xs. strings_of v = Some xs"
  by (simp add: strings_of_def all_strings_def split: option.splits)

lemma enum_of_ok: "one_of xs v \<Longrightarrow> set xs \<subseteq> fst ` set table \<Longrightarrow> \<exists>x. enum_of table v = Some x"
  by (cases v) (auto simp: one_of_def enum_of_def dest!: subsetD intro: weak_map_of_SomeI)

lemma one_of_str: "one_of xs v \<Longrightarrow> \<exists>s. as_string v = Some s \<and> s \<in> set xs"
  by (cases v) (simp_all add: one_of_def)

lemma card_accepted:
  assumes "snd (validateCard v i) = []"
  shows "\<exists>c. parse_card_item v = Some c \<and> length (card_text c) \<le> CARD_TEXT_MAX_LENGTH
    \<and> (\<forall>t. card_critique c = Some t \<longrightarrow> length t \<le> CRITIQUE_MAX_LENGTH)"
proof -
  from assms have rec: "isRecord v" by (auto simp: validateCard_def Let_def no_error split: if_splits)
  with assms have "is_str (js_prop v ''id'')" "is_str (js_prop v ''text'')" "is_finite_number (js_prop v ''x'')" "is_finite_number (js_prop v ''y'')"
    "\<forall>s. as_string (js_prop v ''text'') = Some s \<longrightarrow> length s \<le> CARD_TEXT_MAX_LENGTH"
    "\<forall>s. as_string (js_prop v ''critique'') = Some s \<longrightarrow> length s \<le> CRITIQUE_MAX_LENGTH"
    by (simp_all add: validateCard_def Let_def no_error fields_def)
  with rec show ?thesis by (auto simp: parse_card_item_def is_str_def is_finite_number_def)
qed

lemma edge_accepted:
  assumes "snd (validateEdge v i) = []" shows "\<exists>e. parse_edge_item v = Some e"
proof -
  from assms have rec: "isRecord v" by (auto simp: validateEdge_def Let_def no_error split: if_splits)
  with assms have "is_str (js_prop v ''id'')" "is_str (js_prop v ''fromId'')" "is_str (js_prop v ''toId'')" "nonempty_str (js_prop v ''type'') \<noteq> None"
    by (simp_all add: validateEdge_def Let_def no_error fields_def)
  with rec show ?thesis by (auto simp: parse_edge_item_def is_str_def)
qed

lemma island_accepted:
  assumes "snd (validateIsland v i) = []"
  shows "\<exists>n. parse_island_item v = Some n \<and> (\<forall>t. island_title n = Some t \<longrightarrow> length t \<le> ISLAND_TITLE_MAX_LENGTH)
    \<and> (\<forall>t. summaryText n = Some t \<longrightarrow> length t \<le> ISLAND_SUMMARY_MAX_LENGTH)"
proof -
  from assms have rec: "isRecord v" by (auto simp: validateIsland_def Let_def no_error split: if_splits)
  with assms have parts: "is_str (js_prop v ''id'')" "all_strings (js_prop v ''cardIds'') \<noteq> None"
    "\<forall>s. as_string (js_prop v ''title'') = Some s \<longrightarrow> length s \<le> ISLAND_TITLE_MAX_LENGTH"
    "\<forall>s. as_string (js_prop v ''summaryText'') = Some s \<longrightarrow> length s \<le> ISLAND_SUMMARY_MAX_LENGTH"
    by (simp_all add: validateIsland_def Let_def no_error fields_def)
  from parts(1) obtain a where "as_string (js_prop v ''id'') = Some a" by (blast dest: is_strD)
  moreover obtain cs where "strings_of (js_prop v ''cardIds'') = Some cs" using strings_of_ok[OF parts(2)] by blast
  ultimately show ?thesis using rec parts(3,4) by (simp add: parse_island_item_def Let_def)
qed

lemma narrative_accepted:
  assumes "snd (validateNarrative v i) = []"
  shows "\<exists>n. parse_narrative_item v = Some n \<and> length (narr_title n) \<le> NARRATIVE_TITLE_MAX_LENGTH \<and> length (narr_text n) \<le> NARRATIVE_TEXT_MAX_LENGTH"
proof -
  from assms have rec: "isRecord v" by (auto simp: validateNarrative_def Let_def no_error split: if_splits)
  with assms have "is_str (js_prop v ''id'')" "is_str (js_prop v ''title'')" "is_str (js_prop v ''text'')" "is_bool (js_prop v ''reviewed'')"
    "\<forall>s. as_string (js_prop v ''title'') = Some s \<longrightarrow> length s \<le> NARRATIVE_TITLE_MAX_LENGTH"
    "\<forall>s. as_string (js_prop v ''text'') = Some s \<longrightarrow> length s \<le> NARRATIVE_TEXT_MAX_LENGTH"
    by (simp_all add: validateNarrative_def Let_def no_error fields_def)
  with rec show ?thesis by (auto simp: parse_narrative_item_def is_str_def is_bool_def)
qed

lemma relation_accepted:
  assumes "snd (validateRelationSummary v i) = []" shows "\<exists>r. parse_relation_item v = Some r"
proof -
  from assms have rec: "isRecord v" by (auto simp: validateRelationSummary_def Let_def no_error split: if_splits)
  with assms have parts: "is_str (js_prop v ''id'')" "is_str (js_prop v ''createdAt'')" "is_str (js_prop v ''islandAId'')" "is_str (js_prop v ''islandBId'')"
    "one_of (''unknown'' # KNOWN_EDGE_TYPES) (js_prop v ''relationType'')" "is_bool (js_prop v ''derived'')" "is_str (js_prop v ''text'')" "is_bool (js_prop v ''reviewed'')"
    "all_strings (js_prop v ''groundingCardIds'') \<noteq> None" "all_strings (js_prop v ''groundingEdgeIds'') \<noteq> None"
    "is_str (js_prop v ''sourceSignature'')"
    by (simp_all add: validateRelationSummary_def Let_def no_error fields_def)
  from parts strings_of_ok[OF parts(9)] strings_of_ok[OF parts(10)] one_of_str[OF parts(5)]
  show ?thesis by (elim exE conjE) (auto simp: parse_relation_item_def is_str_def is_bool_def rec)
qed

lemma number_fields_ok: "isRecord v \<Longrightarrow> \<forall>k\<in>set ks. is_finite_number (js_prop v k) \<Longrightarrow> \<exists>ns. number_fields ks v = Some ns"
proof -
  assume "isRecord v"
  moreover assume "\<forall>k\<in>set ks. is_finite_number (js_prop v k)"
  then have "\<exists>ns. all_or_none (\<lambda>k. map_option (Pair k) (toNumber (js_prop v k))) ks = Some ns"
    by (induction ks) (auto simp: is_finite_number_def)
  ultimately show ?thesis by (simp add: number_fields_def)
qed

lemma log_accepted:
  assumes "snd (validatePatchApplyLogEntry v i) = []" shows "\<exists>e. parse_log_item v = Some e"
proof -
  from assms have rec: "isRecord v" by (auto simp: validatePatchApplyLogEntry_def Let_def no_error split: if_splits)
  with assms have parts: "is_str (js_prop v ''id'')" "is_str (js_prop v ''createdAt'')" "js_prop v ''patchVersion'' = JStr ''1''"
    "all_strings (js_prop v ''appliedOpIds'') \<noteq> None" "snd (validatePatchApplyStats (js_prop v ''stats'') (at_index ''patchApplyLog'' i @ ''.stats'')) = []"
    by (simp_all add: validatePatchApplyLogEntry_def Let_def no_error fields_def)
  from parts(5) have "isRecord (js_prop v ''stats'')"
    by (auto simp: validatePatchApplyStats_def no_error split: if_splits)
  moreover with parts(5) have "\<forall>k\<in>set patch_stat_keys. is_finite_number (js_prop (js_prop v ''stats'') k)"
    by (simp add: validatePatchApplyStats_def no_error number_field_def list_all_iff)
  ultimately have "\<exists>ns. parsePatchApplyStats (js_prop v ''stats'') = Some ns" unfolding parsePatchApplyStats_def by (rule number_fields_ok)
  with parts(1,2,3) strings_of_ok[OF parts(4)] show ?thesis
    by (elim exE) (auto simp: parse_log_item_def is_str_def rec)
qed

lemma merge_decision_accepted:
  assumes "snd (validateMergeSuggestionDecisionEntry v i) = []" shows "\<exists>e. parse_merge_decision_item v = Some e"
proof -
  from assms have rec: "isRecord v" by (auto simp: validateMergeSuggestionDecisionEntry_def Let_def no_error split: if_splits)
  with assms have parts: "is_str (js_prop v ''id'')" "is_str (js_prop v ''groupId'')" "one_of decision_words (js_prop v ''decision'')"
    "is_str (js_prop v ''decidedAt'')" "all_strings (js_prop v ''cardIds'') \<noteq> None" "is_str (js_prop v ''mergedTextDraft'')"
    "is_str (js_prop v ''editedText'')"
    by (simp_all add: validateMergeSuggestionDecisionEntry_def Let_def no_error fields_def)
  have "\<exists>x. enum_of merge_decision_names (js_prop v ''decision'') = Some x"
    using parts(3) by (rule enum_of_ok) (simp add: decision_words_def merge_decision_names_def)
  with parts strings_of_ok[OF parts(5)] show ?thesis
    by (elim exE) (auto simp: parse_merge_decision_item_def is_str_def rec)
qed

lemma signal_accepted:
  assumes "snd (validateContradictionSignalDecisionEntry v i) = []" shows "\<exists>e. parse_signal_item v = Some e"
proof -
  from assms have rec: "isRecord v" by (auto simp: validateContradictionSignalDecisionEntry_def Let_def no_error split: if_splits)
  with assms have parts: "nonempty_str (js_prop v ''signatureKey'') \<noteq> None" "one_of [''accepted'', ''held'', ''rejected''] (js_prop v ''status'')"
    "is_str (js_prop v ''decidedAt'')"
    by (simp_all add: validateContradictionSignalDecisionEntry_def Let_def no_error fields_def)
  have "\<exists>x. enum_of signal_status_names (js_prop v ''status'') = Some x"
    using parts(2) by (rule enum_of_ok) (simp add: signal_status_names_def)
  with parts show ?thesis by (elim exE) (auto simp: parse_signal_item_def is_str_def rec)
qed

section \<open>Evidence links and shelf\<close>

lemma all_of_fst: "fst (all_of rs) \<longleftrightarrow> list_all fst rs"
  by (simp add: all_of_def)

lemma quiet_fst:
  "snd (check ok p w) = [] \<Longrightarrow> fst (check ok p w)" "snd (check_length n v p) = [] \<Longrightarrow> fst (check_length n v p)"
  "fst (hasOnlyKeys v ks p)" "fst (when_given v r) \<longleftrightarrow> v = JUndef \<or> fst r"
  by (auto simp: check_def check_length_def hasOnlyKeys_def when_given_def split: json.splits if_splits)

lemma quiet_optional: "snd (opt_str_field v k p) = [] \<Longrightarrow> fst (opt_str_field v k p)"
  by (simp add: opt_str_field_def when_given_def check_def split: if_splits)

lemma link_accepted:
  assumes "snd (validateEvidenceLink v i) = []"
  shows "fst (validateEvidenceLink v i)" "\<exists>l. parse_link_item v = Some l \<and> fromCardId l \<noteq> toCardId l
    \<and> link_id l = the (as_string (js_prop v ''id'')) \<and> import_duplicate_key l = raw_key v
    \<and> (\<forall>t. link_note l = Some t \<longrightarrow> length t \<le> EVIDENCE_NOTE_MAX_LENGTH)"
proof -
  from assms have rec: "isRecord v" by (auto simp: validateEvidenceLink_def Let_def no_error split: if_splits)
  with assms show "fst (validateEvidenceLink v i)"
    by (simp add: validateEvidenceLink_def Let_def all_of_fst all_of_ok quiet_fst quiet_optional str_field_def limit_field_def)
  from assms rec have parts: "is_str (js_prop v ''id'')" "one_of [''supports'', ''contradicts''] (js_prop v ''type'')"
    "is_str (js_prop v ''fromCardId'')" "is_str (js_prop v ''toCardId'')" "\<not> strict_eq (js_prop v ''fromCardId'') (js_prop v ''toCardId'')"
    "\<forall>s. as_string (js_prop v ''note'') = Some s \<longrightarrow> length s \<le> EVIDENCE_NOTE_MAX_LENGTH"
    by (simp_all add: validateEvidenceLink_def Let_def no_error fields_def)
  obtain a f t where ids: "js_prop v ''id'' = JStr a" "js_prop v ''fromCardId'' = JStr f" "js_prop v ''toCardId'' = JStr t"
    using parts(1,3,4) by (cases "js_prop v ''id''"; cases "js_prop v ''fromCardId''"; cases "js_prop v ''toCardId''") (simp_all add: is_str_def)
  have "js_prop v ''type'' = JStr ''supports'' \<or> js_prop v ''type'' = JStr ''contradicts''"
    using parts(2) by (cases "js_prop v ''type''") (auto simp: one_of_def)
  then show "\<exists>l. parse_link_item v = Some l \<and> fromCardId l \<noteq> toCardId l \<and> link_id l = the (as_string (js_prop v ''id''))
      \<and> import_duplicate_key l = raw_key v \<and> (\<forall>t. link_note l = Some t \<longrightarrow> length t \<le> EVIDENCE_NOTE_MAX_LENGTH)"
    using rec parts(5,6) ids
    by (auto simp: parse_link_item_def enum_of_def evidence_type_names_def import_duplicate_key_def raw_key_def strict_eq_def)
qed

lemma evidence_kept:
  assumes "evidence_errors ids tuples i vs = []"
  shows "map Some (keep_links ids tuples vs) = map parse_link_item vs
    \<and> (\<forall>l\<in>set (keep_links ids tuples vs). \<forall>t. link_note l = Some t \<longrightarrow> length t \<le> EVIDENCE_NOTE_MAX_LENGTH)"
  using assms
proof (induction vs arbitrary: ids tuples i)
  case (Cons v vs)
  then have ok: "snd (validateEvidenceLink v i) = []" by (simp add: Let_def)
  note fit = link_accepted(1)[OF ok]
  from link_accepted(2)[OF ok] obtain l where l: "parse_link_item v = Some l" "fromCardId l \<noteq> toCardId l"
    "link_id l = the (as_string (js_prop v ''id''))" "import_duplicate_key l = raw_key v"
    "\<forall>t. link_note l = Some t \<longrightarrow> length t \<le> EVIDENCE_NOTE_MAX_LENGTH" by blast
  from Cons.prems fit have "link_id l \<notin> set ids" "import_duplicate_key l \<notin> set tuples"
    "evidence_errors (js_add (link_id l) ids) (js_add (import_duplicate_key l) tuples) (Suc i) vs = []"
    by (simp_all add: Let_def l split: if_splits)
  with Cons.IH[OF this(3)] l show ?case by simp
qed simp

lemma shelf_entry_accepted:
  assumes "snd (validateShelfEntry dp v i) = []"
  shows "fst (validateShelfEntry dp v i)" "\<exists>c. as_string (js_prop v ''cardId'') = Some c \<and>
    (c \<in> set ids \<longrightarrow> (\<exists>e. parse_shelf_item dp ids v = Some e \<and> shelf_cardId e = c))"
proof -
  from assms have rec: "isRecord v" by (auto simp: validateShelfEntry_def Let_def no_error split: if_splits)
  with assms show "fst (validateShelfEntry dp v i)"
    by (simp add: validateShelfEntry_def Let_def all_of_fst all_of_ok quiet_fst quiet_optional)
  from assms rec have parts: "isNonEmptyString (js_prop v ''cardId'')" "isIsoTimestamp dp (js_prop v ''shelvedAt'')"
    "js_prop v ''reason'' = JUndef \<or> is_str (js_prop v ''reason'')"
    by (simp_all add: validateShelfEntry_def Let_def no_error fields_def)
  from parts(1) obtain c where "js_prop v ''cardId'' = JStr c" by (cases "js_prop v ''cardId''") (simp_all add: isNonEmptyString_def)
  moreover from parts(2) obtain s t where "js_prop v ''shelvedAt'' = JStr s" "dp s = Some t"
    by (cases "js_prop v ''shelvedAt''") (auto simp: isIsoTimestamp_def)
  ultimately show "\<exists>c. as_string (js_prop v ''cardId'') = Some c \<and>
      (c \<in> set ids \<longrightarrow> (\<exists>e. parse_shelf_item dp ids v = Some e \<and> shelf_cardId e = c))"
    using rec parts(3) by (simp add: parse_shelf_item_def iso_of_def)
qed

lemma shelf_kept:
  assumes "shelf_errors dp m seen i vs = []" "fst ` set m \<subseteq> set ids"
  shows "map Some (keep_first (parse_shelf_item dp ids) shelf_cardId seen vs) = map (parse_shelf_item dp ids) vs"
  using assms
proof (induction vs arbitrary: seen i)
  case (Cons v vs)
  then have ok: "snd (validateShelfEntry dp v i) = []" by (simp add: Let_def)
  note fit = shelf_entry_accepted(1)[OF ok]
  from shelf_entry_accepted(2)[OF ok] obtain c where c: "as_string (js_prop v ''cardId'') = Some c"
    "c \<in> set ids \<longrightarrow> (\<exists>e. parse_shelf_item dp ids v = Some e \<and> shelf_cardId e = c)" by blast
  from Cons.prems(1) fit c(1) have step: "c \<notin> set seen" "map_of m c \<noteq> None" "shelf_errors dp m (js_add c seen) (Suc i) vs = []"
    by (simp_all add: Let_def split: if_splits option.splits)
  from step(2) have "c \<in> fst ` set m" by (simp add: map_of_eq_None_iff)
  with Cons.prems(2) have "c \<in> set ids" by blast
  with c obtain e where "parse_shelf_item dp ids v = Some e" "shelf_cardId e = c" by blast
  with step Cons.IH[OF step(3) Cons.prems(2)] show ?case by simp
qed simp

section \<open>Strict acceptance and import\<close>

definition items :: "json \<Rightarrow> string \<Rightarrow> json list" where
  "items v k = nullish (as_array (js_prop v k)) []"

lemma map_filter_kept: "(\<And>x. x \<in> set xs \<Longrightarrow> \<exists>y. f x = Some y) \<Longrightarrow> map Some (List.map_filter f xs) = map f xs"
proof (induction xs)
  case (Cons x xs)
  then show ?case by (cases "f x") (fastforce simp: List.map_filter_simps)+
qed (simp add: List.map_filter_simps)

lemma all_or_none_kept: "(\<And>x. x \<in> set xs \<Longrightarrow> \<exists>y. f x = Some y) \<Longrightarrow> \<exists>ys. all_or_none f xs = Some ys \<and> map Some ys = map f xs"
proof (induction xs)
  case (Cons x xs)
  obtain y where "f x = Some y" using Cons.prems[of x] by auto
  moreover obtain ys where "all_or_none f xs = Some ys" "map Some ys = map f xs" using Cons.IH Cons.prems by auto
  ultimately show ?case by simp
qed simp

lemma kept_in: "map Some ys = map f xs \<Longrightarrow> y \<in> set ys \<Longrightarrow> \<exists>x\<in>set xs. f x = Some y"
  by (metis (no_types, lifting) image_eqI imageE list.set_map)

lemma optional_items_ok:
  assumes "snd (opt_list_part v k f) = []" "x \<in> set (items v k)" shows "\<exists>i. snd (f x i) = []"
proof -
  from assms obtain vs where vs: "as_array (js_prop v k) = Some vs" "\<forall>i<length vs. snd (f (vs ! i) i) = []"
    by (auto simp: no_error items_def as_array_def)
  with assms(2) obtain i where "i < length vs" "x = vs ! i" by (auto simp: items_def in_set_conv_nth)
  with vs(2) show ?thesis by blast
qed

lemma items_ok:
  assumes "snd (list_part v k f) = []" "x \<in> set (items v k)" shows "\<exists>i. snd (f x i) = []"
proof -
  from assms obtain vs where vs: "as_array (js_prop v k) = Some vs" "\<forall>i<length vs. snd (f (vs ! i) i) = []"
    by (auto simp: no_error)
  with assms(2) obtain i where "i < length vs" "x = vs ! i" by (auto simp: items_def in_set_conv_nth)
  with vs(2) show ?thesis by blast
qed

lemma optional_part_kept:
  assumes "snd (opt_list_part v k f) = []" "\<And>x i. snd (f x i) = [] \<Longrightarrow> \<exists>y. p x = Some y"
  shows "map Some (nullish (Option.bind (as_array (js_prop v k)) (\<lambda>vs. nonempty_opt (List.map_filter p vs))) []) = map p (items v k)"
proof -
  have "map Some (List.map_filter p (items v k)) = map p (items v k)"
    using optional_items_ok[OF assms(1)] assms(2) by (intro map_filter_kept) blast
  then show ?thesis by (cases "as_array (js_prop v k)") (auto simp: nonempty_opt_def items_def)
qed

lemma own_key_of_prop: "js_prop v k \<noteq> JUndef \<Longrightarrow> own_key k v"
proof (cases v)
  case (JObj es)
  moreover assume "js_prop v k \<noteq> JUndef"
  ultimately have "map_of es k \<noteq> None" by (cases "map_of es k") simp_all
  with JObj show ?thesis by (simp add: own_key_def object_keys_def map_of_eq_None_iff)
qed simp_all

lemma optional_loop: "snd (when_given (js_prop v k) (case as_array (js_prop v k) of None \<Rightarrow> (False, [e]) | Some vs \<Rightarrow> (True, f vs))) = []
    \<Longrightarrow> f [] = [] \<Longrightarrow> f (items v k) = []"
  by (cases "js_prop v k") (simp_all add: when_given_ok items_def as_array_def)

lemma strict_parts:
  assumes "validateDocumentV1Strict dp v = Inr w"
  shows "isRecord v" "js_prop v ''version'' = JNum (Finite 1)" "is_str (js_prop v ''id'')"
    "\<forall>s. as_string (js_prop v ''title'') = Some s \<longrightarrow> length s \<le> DOCUMENT_TITLE_MAX_LENGTH"
    "snd (validate_transform (js_prop v ''transform'')) = []"
    "snd (list_part v ''cards'' validateCard) = []" "snd (list_part v ''edges'' validateEdge) = []"
    "snd (list_part v ''islands'' validateIsland) = []"
    "snd (opt_list_part v ''narratives'' validateNarrative) = []"
    "snd (opt_list_part v ''relationSummaries'' validateRelationSummary) = []"
    "snd (opt_list_part v ''patchApplyLog'' validatePatchApplyLogEntry) = []"
    "snd (opt_list_part v ''mergeSuggestionDecisions'' validateMergeSuggestionDecisionEntry) = []"
    "snd (opt_list_part v ''contradictionSignalDecisions'' validateContradictionSignalDecisionEntry) = []"
    "evidence_errors [] [] 0 (items v ''evidenceLinks'') = []"
    "shelf_errors dp (raw_cards_by_id (js_prop v ''cards'')) [] 0 (items v ''shelf'') = []"
    "set (object_keys v) \<subseteq> set document_keys"
proof -
  from assms have rec: "isRecord v" and quiet: "strict_errors dp v = []" by (simp_all add: accepted_no_error)
  show "isRecord v" by (rule rec)
  note quiet = quiet[unfolded strict_errors_def all_of_ok list.pred_inject]
  show "js_prop v ''version'' = JNum (Finite 1)" "is_str (js_prop v ''id'')"
    "\<forall>s. as_string (js_prop v ''title'') = Some s \<longrightarrow> length s \<le> DOCUMENT_TITLE_MAX_LENGTH"
    "snd (validate_transform (js_prop v ''transform'')) = []"
    "snd (list_part v ''cards'' validateCard) = []" "snd (list_part v ''edges'' validateEdge) = []"
    "snd (list_part v ''islands'' validateIsland) = []"
    "snd (opt_list_part v ''narratives'' validateNarrative) = []"
    "snd (opt_list_part v ''relationSummaries'' validateRelationSummary) = []"
    "snd (opt_list_part v ''patchApplyLog'' validatePatchApplyLogEntry) = []"
    "snd (opt_list_part v ''mergeSuggestionDecisions'' validateMergeSuggestionDecisionEntry) = []"
    "snd (opt_list_part v ''contradictionSignalDecisions'' validateContradictionSignalDecisionEntry) = []"
    "set (object_keys v) \<subseteq> set document_keys"
    using quiet by (simp_all add: check_ok hasOnlyKeys_ok str_field_def limit_field_def check_length_ok)
  show "evidence_errors [] [] 0 (items v ''evidenceLinks'') = []" "shelf_errors dp (raw_cards_by_id (js_prop v ''cards'')) [] 0 (items v ''shelf'') = []"
    using quiet
      optional_loop[of v "''evidenceLinks''" "(''document.evidenceLinks'', Says ''must be an array when provided'')" "evidence_errors [] [] 0"]
      optional_loop[of v "''shelf''" "(''document.shelf'', Says ''must be an array when provided'')"
        "shelf_errors dp (raw_cards_by_id (js_prop v ''cards'')) [] 0"]
    by simp_all
qed

lemma strict_imports:
  assumes "validateDocumentV1Strict dp v = Inr w"
  shows "\<exists>i t cs. validateImportedDocument dp now v = Inr (import_parts dp now v i t cs)
    \<and> parseCards (js_prop v ''cards'') = Some cs \<and> map Some cs = map parse_card_item (items v ''cards'')"
proof -
  note parts = strict_parts[OF assms]
  obtain i where i: "as_string (js_prop v ''id'') = Some i" using is_strD[OF parts(3)] by blast
  have trec: "isRecord (js_prop v ''transform'')" using parts(5) by (auto simp: validate_transform_def Let_def no_error split: if_splits)
  then have "is_finite_number (js_prop (js_prop v ''transform'') ''panX'')" "is_finite_number (js_prop (js_prop v ''transform'') ''panY'')"
    "is_finite_number (js_prop (js_prop v ''transform'') ''zoom'')"
    using parts(5) by (simp_all add: validate_transform_def Let_def no_error number_field_def)
  then obtain t where t: "parseTransform (js_prop v ''transform'') = Some t"
    using trec by (auto simp: parseTransform_def is_finite_number_def)
  obtain raw where raw: "as_array (js_prop v ''cards'') = Some raw" using parts(6) by (auto simp: no_error)
  obtain es where es: "as_array (js_prop v ''edges'') = Some es" using parts(7) by (auto simp: no_error)
  obtain is' where is': "as_array (js_prop v ''islands'') = Some is'" using parts(8) by (auto simp: no_error)
  have "\<exists>cs. all_or_none parse_card_item raw = Some cs \<and> map Some cs = map parse_card_item raw"
    using items_ok[OF parts(6)] card_accepted by (intro all_or_none_kept) (fastforce simp: items_def raw)
  then obtain cs where cs: "parseCards (js_prop v ''cards'') = Some cs" "map Some cs = map parse_card_item (items v ''cards'')"
    by (auto simp: parseCards_def raw items_def)
  have keys: "own_key k v" if "k \<in> set [''version'', ''id'', ''transform'', ''cards'', ''edges'', ''islands'']" for k
    using that parts(2) i trec raw es is' by (intro own_key_of_prop) (auto simp: as_array_def)
  have "validateImportedDocument dp now v = Inr (import_parts dp now v i t cs)"
    using parts(1,2) keys by (simp add: validateImportedDocument_def i t cs(1) es is')
  with cs show ?thesis by blast
qed

lemma raw_ids_parsed:
  assumes "map Some cs = map parse_card_item (items v ''cards'')"
  shows "fst ` set (raw_cards_by_id (js_prop v ''cards'')) \<subseteq> set (uniq (map card_id cs))"
proof
  fix k assume "k \<in> fst ` set (raw_cards_by_id (js_prop v ''cards''))"
  then obtain r where r: "r \<in> set (items v ''cards'')" "as_string (js_prop r ''id'') = Some k"
    by (auto simp: raw_cards_by_id_def items_def set_map_filter split: if_splits)
  then have "parse_card_item r \<in> set (map parse_card_item (items v ''cards''))" by simp
  then obtain c where "c \<in> set cs" "parse_card_item r = Some c" by (auto simp flip: assms)
  moreover from this(2) r(2) have "card_id c = k" by (auto simp: parse_card_item_def split: if_splits option.splits)
  ultimately show "k \<in> set (uniq (map card_id cs))" by auto
qed

text \<open>An accepted shelf names cards that already carry the hold state \<open>shelved\<close>.\<close>

lemma shelf_names_shelved:
  assumes "shelf_errors dp m seen i vs = []" "e \<in> set (keep_first (parse_shelf_item dp ids) shelf_cardId seen' vs)"
  shows "\<exists>c. map_of m (shelf_cardId e) = Some c \<and> js_prop c ''holdState'' = JStr ''shelved''"
  using assms
proof (induction vs arbitrary: seen seen' i)
  case (Cons v vs)
  then have ok: "snd (validateShelfEntry dp v i) = []" by (simp add: Let_def)
  obtain c where c: "as_string (js_prop v ''cardId'') = Some c" using shelf_entry_accepted(2) [OF ok] by blast
  from Cons.prems(1) shelf_entry_accepted(1) [OF ok] c have step: "\<exists>r. map_of m c = Some r \<and> js_prop r ''holdState'' = JStr ''shelved''"
    "shelf_errors dp m (js_add c seen) (Suc i) vs = []"
    by (simp_all add: Let_def split: if_splits option.splits)
  have id: "shelf_cardId x = c" if "parse_shelf_item dp ids v = Some x" for x
    using that c by (auto simp: parse_shelf_item_def split: if_splits option.splits)
  note IH = Cons.IH [OF step(2)]
  show ?case
  proof (cases "parse_shelf_item dp ids v")
    case None
    then show ?thesis using IH Cons.prems(2) by simp
  next
    case (Some x)
    then consider "e \<in> set (keep_first (parse_shelf_item dp ids) shelf_cardId seen' vs)" | "e = x" |
        "e \<in> set (keep_first (parse_shelf_item dp ids) shelf_cardId (js_add (shelf_cardId x) seen') vs)"
      using Cons.prems(2) by (auto split: if_splits)
    then show ?thesis using IH id [OF Some] step(1) by cases simp_all
  qed
qed simp

lemma parsed_card_hold: "parse_card_item r = Some q \<Longrightarrow>
    as_string (js_prop r ''id'') = Some (card_id q) \<and> holdState q = enum_of hold_state_names (js_prop r ''holdState'')"
  by (auto simp: parse_card_item_def split: if_splits option.splits)

lemma shelf_changes_nothing:
  assumes "shelf_errors dp (raw_cards_by_id (js_prop v ''cards'')) [] 0 (items v ''shelf'') = []"
    and "map Some cs = map parse_card_item (items v ''cards'')" and "distinct (map card_id cs)"
  shows "shelve_cards (uniq (map shelf_cardId (keep_first (parse_shelf_item dp ids) shelf_cardId [] (items v ''shelf'')))) cs = cs"
proof -
  have "holdState c = Some Shelved"
    if ce: "c \<in> set cs" "e \<in> set (keep_first (parse_shelf_item dp ids) shelf_cardId [] (items v ''shelf''))" "shelf_cardId e = card_id c" for c e
  proof -
    from shelf_names_shelved [OF assms(1) ce(2)] obtain r where
      r: "map_of (raw_cards_by_id (js_prop v ''cards'')) (card_id c) = Some r" "js_prop r ''holdState'' = JStr ''shelved''"
      using ce(3) by auto
    from r(1) have ri: "r \<in> set (items v ''cards'')" "as_string (js_prop r ''id'') = Some (card_id c)"
      by (auto simp: raw_cards_by_id_def items_def map_of_new_map set_map_filter dest!: map_of_SomeD split: if_splits)
    have "parse_card_item r \<in> set (map Some cs)" unfolding assms(2) using ri(1) by simp
    then obtain q where q: "q \<in> set cs" "parse_card_item r = Some q" by auto
    have "card_id q = card_id c" "holdState q = Some Shelved"
      using r(2) ri(2) parsed_card_hold [OF q(2)] by (simp_all add: enum_of_def hold_state_names_def)
    moreover from this(1) have "q = c" using q(1) ce(1) assms(3) by (auto simp: distinct_map dest: inj_onD)
    ultimately show ?thesis by simp
  qed
  then show ?thesis by (auto simp: shelve_cards_def intro!: map_idI)
qed

subsection \<open>A forest keeps its parents\<close>

definition parents_ok :: "island list \<Rightarrow> bool" where
  "parents_ok is' \<longleftrightarrow> distinct (map island_id is') \<and>
     (\<forall>i\<in>set is'. \<forall>p. parentIslandId i = Some p \<longrightarrow> p \<noteq> [] \<and> p \<in> island_id ` set is') \<and>
     acyclic {(c, p). \<exists>i\<in>set is'. island_id i = c \<and> parentIslandId i = Some p}"

lemma index_find:
  assumes "distinct (map island_id is')" "i \<in> set is'" shows "map_of (index_islands is') (island_id i) = Some i"
proof -
  have "map_of (index_islands is') (island_id i) \<noteq> None"
    using assms(2) by (auto simp: map_of_index find_None_iff)
  then obtain j where j: "map_of (index_islands is') (island_id i) = Some j" by blast
  then have "island_id j = island_id i" "j \<in> set is'" using index_id by blast+
  then show ?thesis using j assms by (auto simp: distinct_map dest: inj_onD)
qed

lemma forest_walks:
  assumes "parents_ok is'"
  shows "\<forall>vis c. c \<in> island_id ` set is' \<longrightarrow>
     (\<forall>x\<in>set vis. (c, x) \<notin> {(c, p). \<exists>i\<in>set is'. island_id i = c \<and> parentIslandId i = Some p}\<^sup>*) \<longrightarrow>
     parent_walk (index_islands is') vis c"
proof -
  let ?R = "{(c, p). \<exists>i\<in>set is'. island_id i = c \<and> parentIslandId i = Some p}"
  have "?R \<subseteq> (\<lambda>i. (island_id i, the (parentIslandId i))) ` set is'" by force
  then have "finite ?R" by (rule finite_subset) simp
  moreover have acyc: "acyclic ?R" using assms by (simp add: parents_ok_def)
  ultimately have wf: "wf (?R\<inverse>)" by (rule finite_acyclic_wf_converse)
  have "c \<in> island_id ` set is' \<Longrightarrow> \<forall>x\<in>set vis. (c, x) \<notin> ?R\<^sup>* \<Longrightarrow> parent_walk (index_islands is') vis c" for c vis
    using wf
  proof (induction c arbitrary: vis rule: wf_induct_rule)
    case (less c)
    then obtain i where i: "i \<in> set is'" "island_id i = c" by auto
    show ?case
    proof (rule parent_walkI)
      show "c \<notin> set vis" using less.prems(2) by auto
      show "map_of (index_islands is') c = Some i" using index_find [of is' i] i assms by (simp add: parents_ok_def)
      fix p assume p: "parentIslandId i = Some p"
      then have cp: "(c, p) \<in> ?R" using i by auto
      have "p \<in> island_id ` set is'" using assms i(1) p by (simp add: parents_ok_def)
      moreover have "(p, x) \<notin> ?R\<^sup>*" if "x \<in> set (c # vis)" for x
      proof
        assume px: "(p, x) \<in> ?R\<^sup>*"
        then have "(c, x) \<in> ?R\<^sup>+" using cp by (rule rtrancl_into_trancl2 [rotated])
        then show False using that less.prems(2) acyc by (auto simp: acyclic_def dest: trancl_into_rtrancl)
      qed
      ultimately show "parent_walk (index_islands is') (c # vis) p" using less.IH [of p "c # vis"] cp by blast
    qed
  qed
  then show ?thesis by blast
qed

lemma forest_kept:
  assumes "parents_ok is'" shows "settle_parents is' = is'"
proof -
  let ?R = "{(c, p). \<exists>i\<in>set is'. island_id i = c \<and> parentIslandId i = Some p}"
  have "settle_parent (index_islands is') i = i" if i: "i \<in> set is'" for i
  proof (cases "parentIslandId i")
    case None
    then show ?thesis by (simp add: settle_parent_def resolveParentIslandId_def)
  next
    case (Some p)
    then have p: "p \<noteq> []" "p \<in> island_id ` set is'" "(island_id i, p) \<in> ?R" using assms i by (auto simp: parents_ok_def)
    have "(p, island_id i) \<notin> ?R\<^sup>*"
      using rtrancl_into_trancl2 [OF p(3)] assms by (auto simp: parents_ok_def acyclic_def)
    then have "parent_walk (index_islands is') [island_id i] p" using forest_walks [OF assms] p(2) by simp
    then show ?thesis using Some p(1) by (simp add: settle_parent_def resolveParentIslandId_def)
  qed
  then show ?thesis by (simp add: settle_parents_def map_idI)
qed

lemma settle_parent_cases: "settle_parent m i = i \<or> settle_parent m i = i\<lparr>parentIslandId := None\<rparr>"
  by (auto simp: settle_parent_def resolveParentIslandId_def Let_def)

lemma shelf_item_ids: "set ids = set ids' \<Longrightarrow> parse_shelf_item dp ids = parse_shelf_item dp ids'"
  by (rule ext) (auto simp: parse_shelf_item_def split: option.splits)


lemma strict_text_bounds_parts:
  assumes "validateDocumentV1Strict dateParse v = Inr w" "validateImportedDocument dateParse now v = Inr d"
  shows "\<And>s. im_title d = Some s \<Longrightarrow> length s \<le> 500"
    and "\<And>c. c \<in> set (im_cards d) \<Longrightarrow> length (card_text c) \<le> 2000"
    and "\<And>c s. c \<in> set (im_cards d) \<Longrightarrow> card_critique c = Some s \<Longrightarrow> length s \<le> 2000"
    and "\<And>i s. i \<in> set (im_islands d) \<Longrightarrow> island_title i = Some s \<Longrightarrow> length s \<le> 500"
    and "\<And>i s. i \<in> set (im_islands d) \<Longrightarrow> summaryText i = Some s \<Longrightarrow> length s \<le> 2000"
    and "\<And>n. n \<in> set (nullish (im_narratives d) []) \<Longrightarrow> length (narr_title n) \<le> 500 \<and> length (narr_text n) \<le> 20000"
    and "\<And>l s. l \<in> set (im_evidenceLinks d) \<Longrightarrow> link_note l = Some s \<Longrightarrow> length s \<le> 2000"
proof -
  note parts = strict_parts[OF assms(1)]
  from strict_imports[OF assms(1), of now] obtain j t cs where cs: "map Some cs = map parse_card_item (items v ''cards'')"
    and d: "d = import_parts dateParse now v j t cs" using assms(2) by auto
  note d = d import_parts_def Let_def
  show "\<And>s. im_title d = Some s \<Longrightarrow> length s \<le> 500" using parts(4) by (simp add: d DOCUMENT_TITLE_MAX_LENGTH_def)
  have card: "length (card_text c) \<le> 2000 \<and> (\<forall>s. card_critique c = Some s \<longrightarrow> length s \<le> 2000)" if "c \<in> set cs" for c
  proof -
    from kept_in[OF cs that] obtain r where "r \<in> set (items v ''cards'')" "parse_card_item r = Some c" by blast
    then show ?thesis using items_ok[OF parts(6)] card_accepted[of r] by (force simp: CARD_TEXT_MAX_LENGTH_def CRITIQUE_MAX_LENGTH_def)
  qed
  show "\<And>c. c \<in> set (im_cards d) \<Longrightarrow> length (card_text c) \<le> 2000"
    "\<And>c s. c \<in> set (im_cards d) \<Longrightarrow> card_critique c = Some s \<Longrightarrow> length s \<le> 2000"
    using card by (auto simp: d shelve_cards_def split: if_splits)
  have "(\<forall>s. island_title n = Some s \<longrightarrow> length s \<le> 500) \<and> (\<forall>s. summaryText n = Some s \<longrightarrow> length s \<le> 2000)"
    if "parse_island_item r = Some n" "r \<in> set (items v ''islands'')" for n r
    using items_ok[OF parts(8) that(2)] island_accepted[of r] that(1) by (auto simp: ISLAND_TITLE_MAX_LENGTH_def ISLAND_SUMMARY_MAX_LENGTH_def)
  then show "\<And>i s. i \<in> set (im_islands d) \<Longrightarrow> island_title i = Some s \<Longrightarrow> length s \<le> 500"
    "\<And>i s. i \<in> set (im_islands d) \<Longrightarrow> summaryText i = Some s \<Longrightarrow> length s \<le> 2000"
    by (auto simp: d parseIslands_settle settle_parents_def set_map_filter settle_parent_def Let_def items_def split: if_splits)
  have nar: "map Some (nullish (im_narratives d) []) = map parse_narrative_item (items v ''narratives'')"
    by (simp add: d parseNarratives_def) (rule optional_part_kept[OF parts(9)], blast dest: narrative_accepted)
  show "length (narr_title n) \<le> 500 \<and> length (narr_text n) \<le> 20000" if "n \<in> set (nullish (im_narratives d) [])" for n
    using kept_in[OF nar that] optional_items_ok[OF parts(9)] narrative_accepted
    by (force simp: NARRATIVE_TITLE_MAX_LENGTH_def NARRATIVE_TEXT_MAX_LENGTH_def)
  have "im_evidenceLinks d = keep_links [] [] (items v ''evidenceLinks'')"
    by (cases "as_array (js_prop v ''evidenceLinks'')") (simp_all add: d parseEvidenceLinks_def items_def)
  then show "\<And>l s. l \<in> set (im_evidenceLinks d) \<Longrightarrow> link_note l = Some s \<Longrightarrow> length s \<le> 2000"
    using evidence_kept[OF parts(14)] by (simp add: EVIDENCE_NOTE_MAX_LENGTH_def)
qed

text \<open>C18. The texts of a strictly accepted document stay within the published limits after the import: the title of the
  document, the text and the critique of a card, the title and the summary of an island, the title and the text of a
  narrative and the note of an evidence link.\<close>

theorem strict_text_bounds:
  assumes "validateDocumentV1Strict dateParse v = Inr w" "validateImportedDocument dateParse now v = Inr d"
  shows "(\<forall>s. im_title d = Some s \<longrightarrow> length s \<le> 500)
    \<and> (\<forall>c. c \<in> set (im_cards d) \<longrightarrow> length (card_text c) \<le> 2000)
    \<and> (\<forall>c s. c \<in> set (im_cards d) \<longrightarrow> card_critique c = Some s \<longrightarrow> length s \<le> 2000)
    \<and> (\<forall>i s. i \<in> set (im_islands d) \<longrightarrow> island_title i = Some s \<longrightarrow> length s \<le> 500)
    \<and> (\<forall>i s. i \<in> set (im_islands d) \<longrightarrow> summaryText i = Some s \<longrightarrow> length s \<le> 2000)
    \<and> (\<forall>n. n \<in> set (nullish (im_narratives d) []) \<longrightarrow> length (narr_title n) \<le> 500 \<and> length (narr_text n) \<le> 20000)
    \<and> (\<forall>l s. l \<in> set (im_evidenceLinks d) \<longrightarrow> link_note l = Some s \<longrightarrow> length s \<le> 2000)"
  using strict_text_bounds_parts [OF assms] by blast

text \<open>Two fields of the document type are not among the allowed ones: a document with voids, or with an evidence link
  that carries a contradiction state, is rejected whatever else it holds.\<close>

lemma strict_rejects_voids:
  assumes "own_key ''voids'' v" shows "\<exists>es. validateDocumentV1Strict dp v = Inl es"
proof -
  have "''voids'' \<in> set (object_keys v)" using assms by (simp add: own_key_def)
  moreover have "''voids'' \<notin> set document_keys" by (simp add: document_keys_def)
  ultimately have "\<not> set (object_keys v) \<subseteq> set document_keys" by blast
  then have "validateDocumentV1Strict dp v \<noteq> Inr w" for w using strict_parts(16) by blast
  then show ?thesis by (cases "validateDocumentV1Strict dp v") auto
qed

lemma evidence_keys_checked: "evidence_errors ids tuples i vs = [] \<Longrightarrow> x \<in> set vs \<Longrightarrow> set (object_keys x) \<subseteq> set evidence_keys"
proof (induction vs arbitrary: ids tuples i)
  case (Cons v vs)
  then have ok: "snd (validateEvidenceLink v i) = []" by (simp add: Let_def)
  then have "set (object_keys v) \<subseteq> set evidence_keys"
    by (simp add: validateEvidenceLink_def Let_def no_error split: if_splits)
  moreover have "evidence_errors (js_add (the (as_string (js_prop v ''id''))) ids) (js_add (raw_key v) tuples) (Suc i) vs = []"
    using Cons.prems(1) link_accepted(1)[OF ok] by (simp add: Let_def)
  moreover from Cons.IH[OF this] have "x \<in> set vs \<Longrightarrow> set (object_keys x) \<subseteq> set evidence_keys" .
  ultimately show ?case using Cons.prems(2) by (cases "x = v") simp_all
qed simp

lemma strict_rejects_contradiction_state:
  assumes "l \<in> set (items v ''evidenceLinks'')" "own_key ''contradictionState'' l"
  shows "\<exists>es. validateDocumentV1Strict dp v = Inl es"
proof -
  have "''contradictionState'' \<in> set (object_keys l)" using assms(2) by (simp add: own_key_def)
  moreover have "''contradictionState'' \<notin> set evidence_keys" by (simp add: evidence_keys_def)
  ultimately have "validateDocumentV1Strict dp v \<noteq> Inr w" for w using evidence_keys_checked[OF strict_parts(14) assms(1)] by blast
  then show ?thesis by (cases "validateDocumentV1Strict dp v") auto
qed

section \<open>Examples and membership\<close>

definition ex_strict :: json where
  "ex_strict = JObj [(''version'', JNum (Finite 1)), (''id'', JStr ''d''), (''createdAt'', JStr ''2024-02-29''), (''updatedAt'', JStr ''x''),
     (''transform'', JObj [(''panX'', JNum (Finite 0)), (''panY'', JNum (Finite 0)), (''zoom'', JNum (Finite 1))]),
     (''cards'', JArr [JObj [(''id'', JStr ''a''), (''text'', JStr ''A''), (''x'', JNum (Finite 0)), (''y'', JNum (Finite 0))],
        JObj [(''id'', JStr ''b''), (''text'', JStr ''B''), (''x'', JNum (Finite 1)), (''y'', JNum (Finite 0)), (''holdState'', JStr ''shelved'')]]),
     (''edges'', JArr [JObj [(''id'', JStr ''e''), (''fromId'', JStr ''a''), (''toId'', JStr ''b''), (''type'', JStr ''causal'')]]),
     (''islands'', JArr [JObj [(''id'', JStr ''i''), (''cardIds'', JArr [JStr ''a'']), (''parentIslandId'', JStr ''j'')],
        JObj [(''id'', JStr ''j''), (''cardIds'', JArr [])]]),
     (''evidenceLinks'', JArr [JObj [(''id'', JStr ''s''), (''type'', JStr ''supports''), (''fromCardId'', JStr ''a''), (''toCardId'', JStr ''b'')]]),
     (''shelf'', JArr [JObj [(''cardId'', JStr ''b''), (''shelvedAt'', JStr ''2024-02-29'')]])]"

lemma ex_strict_ok: "validateDocumentV1Strict no_dates ex_strict = Inr ex_strict"
  by code_simp


theorem strict_text_bounds_witness:
  "\<exists>d. validateImportedDocument no_dates ''now'' ex_strict = Inr d \<and> list_all (\<lambda>c. length (card_text c) \<le> 2000) (im_cards d)"
proof -
  from strict_imports[OF ex_strict_ok, of "''now''"] obtain d where d: "validateImportedDocument no_dates ''now'' ex_strict = Inr d" by blast
  with strict_text_bounds[OF ex_strict_ok d] show ?thesis by (intro exI[of _ d]) (simp add: list_all_iff)
qed

lemma map_of_add_members:
  "distinct cs \<Longrightarrow> map_of (fold (add_member a) cs m) c = (if c \<in> set cs then Some (nullish (map_of m c) [] @ [a]) else map_of m c)"
  by (induction cs arbitrary: m) (auto simp: add_member_def update_conv')

lemma distinct_add_members: "distinct (map fst m) \<Longrightarrow> distinct (map fst (fold (add_member a) cs m))"
  by (induction cs arbitrary: m) (simp_all add: add_member_def distinct_update)

lemma map_of_memberships_step:
  "map_of (fold (\<lambda>(i, n) m. fold (add_member (advised_id i n)) (uniq (cardIds n)) m) ps m) c =
     (if map_of m c = None \<and> filter (\<lambda>(i, n). c \<in> set (cardIds n)) ps = [] then None
      else Some (nullish (map_of m c) [] @ map (\<lambda>(i, n). advised_id i n) (filter (\<lambda>(i, n). c \<in> set (cardIds n)) ps)))"
proof (induction ps arbitrary: m)
  case Nil
  then show ?case by (cases "map_of m c") simp_all
next
  case (Cons p ps)
  obtain i n where p: "p = (i, n)" by (cases p)
  show ?case by (simp add: p Cons map_of_add_members)
qed

lemma distinct_memberships: "distinct (map fst (memberships is'))"
proof -
  have "distinct (map fst m) \<Longrightarrow>
      distinct (map fst (fold (\<lambda>(i, n) m. fold (add_member (advised_id i n)) (uniq (cardIds n)) m) ps m))" for ps m
    by (induction ps arbitrary: m) (auto intro: distinct_add_members)
  then show ?thesis by (simp add: memberships_def)
qed

lemma length_filter_enumerate: "length (filter (\<lambda>(i, n). P n) (enumerate k xs)) = length (filter P xs)"
  by (induction xs arbitrary: k) simp_all

lemma membership_iff:
  "(\<exists>ids. (c, ids) \<in> set (memberships is') \<and> \<not> length ids < 2) \<longleftrightarrow> 2 \<le> length (filter (\<lambda>n. c \<in> set (cardIds n)) is')"
proof -
  have "map_of (memberships is') c = (if filter (\<lambda>(i, n). c \<in> set (cardIds n)) (enumerate 0 is') = [] then None
      else Some (map (\<lambda>(i, n). advised_id i n) (filter (\<lambda>(i, n). c \<in> set (cardIds n)) (enumerate 0 is'))))"
    using map_of_memberships_step[of "enumerate 0 is'" "[]" c] by (simp add: memberships_def)
  moreover have "(c, ids) \<in> set (memberships is') \<longleftrightarrow> map_of (memberships is') c = Some ids" for ids
    using distinct_memberships by simp
  ultimately show ?thesis using length_filter_enumerate[of "\<lambda>n. c \<in> set (cardIds n)" 0 is'] by auto
qed

lemma two_in_filter:
  "2 \<le> length (filter P xs) \<longleftrightarrow> (\<exists>i j. i < j \<and> j < length xs \<and> P (xs ! i) \<and> P (xs ! j))"
proof -
  have "2 \<le> card A \<longleftrightarrow> (\<exists>i j. i < j \<and> i \<in> A \<and> j \<in> A)" if "finite A" for A :: "nat set"
  proof -
    have "2 \<le> card A \<longleftrightarrow> \<not> card A \<le> Suc 0" by arith
    also have "\<dots> \<longleftrightarrow> (\<exists>i\<in>A. \<exists>j\<in>A. i \<noteq> j)" using card_le_Suc0_iff_eq[OF that] by blast
    also have "\<dots> \<longleftrightarrow> (\<exists>i j. i < j \<and> i \<in> A \<and> j \<in> A)" by (metis linorder_neq_iff)
    finally show ?thesis .
  qed
  from this[of "{i. i < length xs \<and> P (xs ! i)}"] show ?thesis
    by (auto simp: length_filter_conv_card)
qed

lemma membership_check_exact_parts:
  "length (checkIslandMembershipIntegrity is') = card {c. 2 \<le> length (filter (\<lambda>n. c \<in> set (cardIds n)) is')}"
  "checkIslandMembershipIntegrity is' = [] \<longleftrightarrow>
     (\<nexists>c i j. i < j \<and> j < length is' \<and> c \<in> set (cardIds (is' ! i)) \<and> c \<in> set (cardIds (is' ! j)))"
proof -
  let ?P = "\<lambda>e :: string \<times> string list. \<not> length (snd e) < 2"
  have keys: "fst ` set (filter ?P (memberships is')) = {c. 2 \<le> length (filter (\<lambda>n. c \<in> set (cardIds n)) is')}"
    using membership_iff[of _ is'] by force
  have "distinct (map fst (filter ?P (memberships is')))" using distinct_memberships by (rule distinct_map_filter)
  then have "length (filter ?P (memberships is')) = card (fst ` set (filter ?P (memberships is')))"
    using distinct_card[of "map fst (filter ?P (memberships is'))"] by simp
  then show len: "length (checkIslandMembershipIntegrity is') = card {c. 2 \<le> length (filter (\<lambda>n. c \<in> set (cardIds n)) is')}"
    unfolding keys by (simp add: checkIslandMembershipIntegrity_def)
  have "checkIslandMembershipIntegrity is' = [] \<longleftrightarrow> {c. 2 \<le> length (filter (\<lambda>n. c \<in> set (cardIds n)) is')} = {}"
    unfolding keys[symmetric] checkIslandMembershipIntegrity_def by (simp only: image_is_empty set_empty map_is_Nil_conv)
  moreover have "2 \<le> length (filter (\<lambda>n. c \<in> set (cardIds n)) is') \<longleftrightarrow>
      (\<exists>i j. i < j \<and> j < length is' \<and> c \<in> set (cardIds (is' ! i)) \<and> c \<in> set (cardIds (is' ! j)))" for c
    by (rule two_in_filter)
  ultimately show "checkIslandMembershipIntegrity is' = [] \<longleftrightarrow>
     (\<nexists>c i j. i < j \<and> j < length is' \<and> c \<in> set (cardIds (is' ! i)) \<and> c \<in> set (cardIds (is' ! j)))"
    by (simp only: empty_Collect_eq) blast
qed

text \<open>The membership check gives one advice for each card that lies in more than one island of the list, and none for the
  others; it is silent exactly when no card lies in two islands.\<close>

theorem membership_check_exact:
  "(length (checkIslandMembershipIntegrity is') = card {c. 2 \<le> length (filter (\<lambda>n. c \<in> set (cardIds n)) is')})
    \<and> (checkIslandMembershipIntegrity is' = [] \<longleftrightarrow>
     (\<nexists>c i j. i < j \<and> j < length is' \<and> c \<in> set (cardIds (is' ! i)) \<and> c \<in> set (cardIds (is' ! j))))"
  using membership_check_exact_parts by blast

end
