(* ===== verification/Import_Roundtrip.thy ===== *)
theory Import_Roundtrip
  imports Import_Document Document_Write
begin

text \<open>
  Import after export. The entities that \<open>domain/validate.ts\<close> accepts, written as objects again (\<open>X_fields\<close> of
  \<open>Document_Json\<close>: an absent property has no entry, as in the saved text), are read back unchanged: the import repairs a value once
  and never again. The predicates \<open>stable_X\<close> say which entities survive; every entity that the import produces is stable. The other parts of the document are
  readers that are \<open>settled\<close> under their writers; \<open>reimport_is_stable\<close> puts them together for the whole document.
\<close>

section \<open>Reading a written object\<close>

lemma written_prop: "distinct (map fst fs) \<Longrightarrow> js_prop (obj fs) k = nullish (Option.bind (map_of fs k) id) JUndef"
  by (simp add: obj_def map_of_present split: option.splits)

lemma written_record [simp]: "isRecord (obj fs)"
  by (simp add: obj_def)

lemma nullish_map_option [simp]:
  "as_string (nullish (map_option JStr x) JUndef) = x"
  "as_bool (nullish (map_option JBool b) JUndef) = b"
  "toNumber (nullish (map_option jrat r) JUndef) = r"
  by ((cases x; simp), (cases b; simp add: as_bool_def), (cases r; simp add: toNumber_def jrat_def))

lemma map_filter_total: "(\<And>x. x \<in> set xs \<Longrightarrow> f (g x) = Some x) \<Longrightarrow> List.map_filter f (map g xs) = xs"
  by (induction xs) (simp_all add: List.map_filter_simps)

lemma strings_of_jstrs [simp]:
  "strings_of (jstrs xs) = Some xs" "strings_of (nullish (map_option jstrs x) JUndef) = x"
  "all_strings (nullish (map_option jstrs x) JUndef) = x"
proof -
  have "List.map_filter as_string (map JStr ys) = ys" for ys by (rule map_filter_total) simp
  then have written: "strings_of (jstrs ys) = Some ys" "all_strings (jstrs ys) = Some ys" for ys
    by (simp_all add: strings_of_def all_strings_def jstrs_def as_array_def list_all_iff is_str_def)
  moreover have "strings_of JUndef = None" "all_strings JUndef = None" by (simp_all add: strings_of_def all_strings_def as_array_def)
  ultimately show "strings_of (jstrs xs) = Some xs" "strings_of (nullish (map_option jstrs x) JUndef) = x"
    "all_strings (nullish (map_option jstrs x) JUndef) = x"
    by (simp, (cases x; simp), (cases x; simp))
qed

lemma undef_no_array: "as_array JUndef = None" "strings_of JUndef = None"
  by (simp_all add: strings_of_def as_array_def)

lemma toNumber_jrat [simp]: "toNumber (jrat r) = Some r"
  by (simp add: toNumber_def jrat_def)

lemma as_bool_JBool [simp]: "as_bool (JBool b) = Some b"
  by (simp add: as_bool_def)

lemma as_array_JArr [simp]: "as_array (JArr vs) = Some vs"
  by (simp add: as_array_def)

lemma enum_names [simp]:
  "enum_of claim_type_names (nullish (map_option (\<lambda>t. JStr (claim_type_str t)) a) JUndef) = a"
  "enum_of hold_state_names (nullish (map_option (\<lambda>t. JStr (hold_state_str t)) b) JUndef) = b"
  "enum_of contradiction_state_names (nullish (map_option (\<lambda>t. JStr (contradiction_state_str t)) c) JUndef) = c"
  "enum_of evidence_type_names (JStr (evidence_type_str ty)) = Some ty"
  "enum_of summary_kind_names (JStr (summary_change_kind_str sk)) = Some sk"
  "enum_of cue_kind_names (JStr (cue_kind_str ck)) = Some ck"
proof -
  show "enum_of claim_type_names (nullish (map_option (\<lambda>t. JStr (claim_type_str t)) a) JUndef) = a"
    by (cases a rule: option.exhaust; simp add: enum_of_def; rename_tac t; case_tac t; simp add: claim_type_names_def)
  show "enum_of hold_state_names (nullish (map_option (\<lambda>t. JStr (hold_state_str t)) b) JUndef) = b"
    by (cases b rule: option.exhaust; simp add: enum_of_def; rename_tac t; case_tac t; simp add: hold_state_names_def)
  show "enum_of contradiction_state_names (nullish (map_option (\<lambda>t. JStr (contradiction_state_str t)) c) JUndef) = c"
    by (cases c rule: option.exhaust; simp add: enum_of_def; rename_tac t; case_tac t; simp add: contradiction_state_names_def)
  show "enum_of evidence_type_names (JStr (evidence_type_str ty)) = Some ty"
    by (cases ty) (simp_all add: enum_of_def evidence_type_names_def)
  show "enum_of summary_kind_names (JStr (summary_change_kind_str sk)) = Some sk"
    by (cases sk) (simp_all add: enum_of_def summary_kind_names_def)
  show "enum_of cue_kind_names (JStr (cue_kind_str ck)) = Some ck"
    by (cases ck) (simp_all add: enum_of_def cue_kind_names_def)
qed

lemmas read_back = written_prop req_def opt_def

text \<open>The note of a relation history entry is lost on import.\<close>

lemma import_drops_history_note:
  "map_option rhe_note (parseRelationSummaryHistoryEntry (relation_history_json
     \<lparr>rhe_id = ''h'', rhe_createdAt = ''t'', rhe_changeKind = RManual, rhe_fromText = None, rhe_toText = Some ''x'', rhe_fromReviewed = None,
      rhe_toReviewed = Some False, warningsSnapshot = None, groundingCardIdsSnapshot = None, groundingEdgeIdsSnapshot = None,
      rhe_note = Some ''why''\<rparr>)) = Some None"
  by code_simp

section \<open>Cards\<close>

definition stable_card :: "card \<Rightarrow> bool" where
  "stable_card c = (card_critiqueTags c \<noteq> Some []
     \<and> (\<forall>m. card_meta_of c = Some m \<longrightarrow> (meta_seq m \<noteq> None \<or> meta_source m \<noteq> None) \<and> meta_source m \<noteq> Some [])
     \<and> (\<forall>k. card_ka_of c = Some k \<longrightarrow> (ka_voice k \<noteq> None \<or> ka_value k \<noteq> None) \<and> ka_voice k \<noteq> Some [] \<and> ka_value k \<noteq> Some []))"

lemma nonempty_str_opt: "x \<noteq> Some [] \<Longrightarrow> nonempty_str (nullish (map_option JStr x) JUndef) = x"
  by (cases x) (auto simp: nonempty_str_def)

lemma nonempty_str_not_Nil [simp]: "nonempty_str v \<noteq> Some []"
  by (simp add: nonempty_str_def split: json.splits)

lemma parse_tags_back: "x \<noteq> Some [] \<Longrightarrow> parseCritiqueTags (nullish (map_option jstrs x) JUndef) = x"
  by (cases x) (auto simp: parseCritiqueTags_def nonempty_opt_def undef_no_array)

lemma parse_tags_not_Nil [simp]: "parseCritiqueTags v \<noteq> Some []"
  by (auto simp: parseCritiqueTags_def nonempty_opt_def split: Option.bind_splits if_splits)

lemma parse_meta_back:
  assumes "meta_seq m \<noteq> None \<or> meta_source m \<noteq> None" "meta_source m \<noteq> Some []"
  shows "parseCardMeta (obj (meta_fields m)) = Some m"
  using assms by (auto simp: parseCardMeta_def meta_fields_def read_back nonempty_str_opt Let_def)

lemma parse_ka_back:
  assumes "ka_voice k \<noteq> None \<or> ka_value k \<noteq> None" "ka_voice k \<noteq> Some []" "ka_value k \<noteq> Some []"
  shows "parseCardKa (obj (ka_fields k)) = Some k"
  using assms by (auto simp: parseCardKa_def ka_fields_def read_back nonempty_str_opt Let_def)

lemma parse_meta_opt: "(\<And>m. x = Some m \<Longrightarrow> parseCardMeta (obj (meta_fields m)) = Some m) \<Longrightarrow>
    parseCardMeta (nullish (map_option (\<lambda>m. obj (meta_fields m)) x) JUndef) = x"
  by (cases x) (simp_all add: parseCardMeta_def)

lemma parse_ka_opt: "(\<And>k. x = Some k \<Longrightarrow> parseCardKa (obj (ka_fields k)) = Some k) \<Longrightarrow>
    parseCardKa (nullish (map_option (\<lambda>k. obj (ka_fields k)) x) JUndef) = x"
  by (cases x) (simp_all add: parseCardKa_def)

lemma card_read_back:
  assumes "stable_card c" shows "parse_card_item (obj (card_fields c)) = Some c"
proof -
  have "parseCardMeta (nullish (map_option (\<lambda>m. obj (meta_fields m)) (card_meta_of c)) JUndef) = card_meta_of c"
    "parseCardKa (nullish (map_option (\<lambda>k. obj (ka_fields k)) (card_ka_of c)) JUndef) = card_ka_of c"
    using assms by (auto simp: stable_card_def intro!: parse_meta_opt parse_ka_opt parse_meta_back parse_ka_back)
  moreover have "parseCritiqueTags (nullish (map_option jstrs (card_critiqueTags c)) JUndef) = card_critiqueTags c"
    using assms by (intro parse_tags_back) (simp add: stable_card_def)
  ultimately show ?thesis
    by (simp add: parse_card_item_def card_fields_def read_back parseClaimType_def)
qed

lemma parsed_meta_stable:
  "parseCardMeta v = Some m \<Longrightarrow> (meta_seq m \<noteq> None \<or> meta_source m \<noteq> None) \<and> meta_source m \<noteq> Some []"
  by (auto simp: parseCardMeta_def Let_def split: if_splits)

lemma parsed_ka_stable:
  "parseCardKa v = Some k \<Longrightarrow> (ka_voice k \<noteq> None \<or> ka_value k \<noteq> None) \<and> ka_voice k \<noteq> Some [] \<and> ka_value k \<noteq> Some []"
  by (auto simp: parseCardKa_def Let_def split: if_splits)

lemma parsed_card_stable: assumes "parse_card_item v = Some c" shows "stable_card c"
proof -
  from assms have "card_critiqueTags c = parseCritiqueTags (js_prop v ''critiqueTags'')"
    "card_meta_of c = parseCardMeta (js_prop v ''meta'')" "card_ka_of c = parseCardKa (js_prop v ''ka'')"
    by (auto simp: parse_card_item_def split: if_splits option.splits)
  then show ?thesis by (auto simp: stable_card_def dest: parsed_meta_stable parsed_ka_stable)
qed

lemma all_or_none_set: "all_or_none f xs = Some ys \<Longrightarrow> \<forall>y\<in>set ys. \<exists>x\<in>set xs. f x = Some y"
  by (induction xs arbitrary: ys) (fastforce split: option.splits)+

lemma all_or_none_back: "(\<And>x. x \<in> set xs \<Longrightarrow> f (g x) = Some x) \<Longrightarrow> all_or_none f (map g xs) = Some xs"
  by (induction xs) auto

lemma shelved_stable: "stable_card (c\<lparr>holdState := h\<rparr>) = stable_card c"
  by (simp add: stable_card_def)

lemma imported_cards_stable:
  assumes "parseCards v = Some cs" "c \<in> set (shelve_cards sh cs)" shows "stable_card c"
proof -
  from assms(1) obtain vs where "all_or_none parse_card_item vs = Some cs"
    by (auto simp: parseCards_def split: Option.bind_splits)
  then have "\<forall>c\<in>set cs. stable_card c" using all_or_none_set parsed_card_stable by metis
  with assms(2) show ?thesis by (auto simp: shelve_cards_def shelved_stable split: if_splits)
qed

section \<open>Edges and evidence links\<close>

definition stable_edge :: "edge \<Rightarrow> bool" where
  "stable_edge e = (fromKind e \<noteq> None \<and> toKind e \<noteq> None \<and> edge_type e \<noteq> [])"

lemma end_kind_back: "k \<noteq> None \<Longrightarrow> Some (end_kind (nullish (map_option (\<lambda>k. JStr (endpoint_kind_str k)) k) JUndef)) = k"
proof -
  have "end_kind (JStr (endpoint_kind_str e)) = e" for e by (cases e) (simp_all add: end_kind_def)
  then show "k \<noteq> None \<Longrightarrow> ?thesis" by (cases k) simp_all
qed

lemma edge_read_back: "stable_edge e \<Longrightarrow> parse_edge_item (obj (edge_fields e)) = Some e"
  using end_kind_back[of "fromKind e"] end_kind_back[of "toKind e"]
  by (simp add: parse_edge_item_def edge_fields_def read_back stable_edge_def nonempty_str_def)

lemma parsed_edge_stable: "parse_edge_item v = Some e \<Longrightarrow> stable_edge e"
  using nonempty_str_not_Nil[of "js_prop v ''type''"]
  by (auto simp: parse_edge_item_def stable_edge_def split: if_splits option.splits)

lemma link_read_back: "parse_link_item (obj (link_fields l)) = Some l"
  by (simp add: parse_link_item_def link_fields_def read_back)

lemma keep_links_back:
  assumes "distinct (map link_id ls)" "distinct (map import_duplicate_key ls)" "\<forall>l\<in>set ls. fromCardId l \<noteq> toCardId l"
    "link_id ` set ls \<inter> set ids = {}" "import_duplicate_key ` set ls \<inter> set keys = {}"
  shows "keep_links ids keys (map (\<lambda>l. obj (link_fields l)) ls) = ls"
  using assms
proof (induction ls arbitrary: ids keys)
  case (Cons l ls)
  have "keep_links (js_add (link_id l) ids) (js_add (import_duplicate_key l) keys) (map (\<lambda>l. obj (link_fields l)) ls) = ls"
    using Cons.prems by (intro Cons.IH) auto
  then show ?case using Cons.prems by (simp add: link_read_back)
qed simp
section \<open>Islands\<close>

definition stable_cue :: "visual_cue \<Rightarrow> bool" where
  "stable_cue q = (cue_kind_of q = HandDrawn \<or> cue_kind_of q = UserImage \<or> imageRef q = None)"

definition stable_island :: "island \<Rightarrow> bool" where
  "stable_island i = (collapsed i \<noteq> None \<and> island_critiqueTags i \<noteq> Some [] \<and> summaryHistory i \<noteq> Some []
     \<and> usable_geometry (geometry i) \<and> usable_shape (shape i) \<and> (\<forall>q. representativeCue i = Some q \<longrightarrow> stable_cue q))"

lemma point_read_back: "parse_point (point_json p) = Some p"
  by (simp add: parse_point_def point_json_def read_back)

lemma points_read_back: "List.map_filter parse_point (map point_json ps) = ps"
  by (rule map_filter_total) (rule point_read_back)

lemma geometry_read_back: "usable_geometry (Some g) \<Longrightarrow> parseIslandGeometry (obj (geometry_fields g)) = Some g"
  by (cases g) (simp_all add: parseIslandGeometry_def geometry_fields_def read_back points_read_back usable_geometry_def Let_def)

lemma generated_read_back: "parse_generated_from (generated_json g) = Some g"
  by (simp add: parse_generated_from_def generated_json_def read_back)

lemma generated_opt_back: "parse_generated_from (nullish (map_option generated_json x) JUndef) = x"
  by (cases x) (simp_all add: generated_read_back, simp add: parse_generated_from_def)

lemma shape_read_back: "usable_shape (Some s) \<Longrightarrow> parse_shape (obj (shape_fields s)) = Some s"
  by (cases s) (simp_all add: parse_shape_def shape_fields_def read_back points_read_back usable_shape_def Let_def generated_opt_back)

lemma nullable_back:
  "null_or as_string (nullable JStr x) = Some x" "null_or as_bool (nullable JBool b) = Some b"
  by ((cases x; simp add: null_or_def nullable_def), (cases b; simp add: null_or_def nullable_def))

lemma summary_entry_read_back: "parse_summary_entry (summary_history_json h) = Some h"
  by (simp add: parse_summary_entry_def summary_history_json_def read_back nullable_back)

lemma summary_history_back: "x \<noteq> Some [] \<Longrightarrow>
    parseSummaryHistory (nullish (map_option (\<lambda>hs. JArr (map summary_history_json hs)) x) JUndef) = x"
  by (cases x) (auto simp: parseSummaryHistory_def undef_no_array nonempty_opt_def map_filter_total summary_entry_read_back)

lemma cue_read_back: "stable_cue q \<Longrightarrow> parseRepresentativeCue (cue_json q) = Some q"
  by (cases q) (auto simp: parseRepresentativeCue_def cue_json_def read_back stable_cue_def)

lemma cue_opt_back: "(\<And>q. x = Some q \<Longrightarrow> stable_cue q) \<Longrightarrow>
    parseRepresentativeCue (nullish (map_option cue_json x) JUndef) = x"
  by (cases x) (simp_all add: cue_read_back, simp add: parseRepresentativeCue_def)

lemma island_read_back:
  assumes "stable_island i" shows "parse_island_item (obj (island_fields i)) = Some i"
proof -
  obtain b where col: "collapsed i = Some b" using assms by (auto simp: stable_island_def)
  obtain g where g: "geometry i = Some g" "usable_geometry (Some g)"
    using assms by (cases "geometry i") (auto simp: stable_island_def usable_geometry_def)
  obtain s where s: "shape i = Some s" "usable_shape (Some s)"
    using assms by (cases "shape i") (auto simp: stable_island_def usable_shape_def)
  have cue: "parseRepresentativeCue (nullish (map_option cue_json (representativeCue i)) JUndef) = representativeCue i"
    using assms by (intro cue_opt_back) (simp add: stable_island_def)
  have hist: "parseSummaryHistory (nullish (map_option (\<lambda>hs. JArr (map summary_history_json hs)) (summaryHistory i)) JUndef) = summaryHistory i"
    using assms by (intro summary_history_back) (simp add: stable_island_def)
  have tags: "parseCritiqueTags (nullish (map_option jstrs (island_critiqueTags i)) JUndef) = island_critiqueTags i"
    using assms by (intro parse_tags_back) (simp add: stable_island_def)
  show ?thesis
    by (simp add: parse_island_item_def island_fields_def read_back cue hist tags col g s geometry_read_back shape_read_back
      Let_def settle_shape_def settle_geometry_def)
qed

lemma parsed_cue_stable: "parseRepresentativeCue v = Some q \<Longrightarrow> stable_cue q"
  by (auto simp: parseRepresentativeCue_def stable_cue_def split: if_splits option.splits)

lemma parsed_history_not_Nil [simp]: "parseSummaryHistory v \<noteq> Some []"
  by (auto simp: parseSummaryHistory_def nonempty_opt_def split: Option.bind_splits if_splits)

lemma parsed_island_stable: assumes "parse_island_item v = Some i" shows "stable_island i"
proof -
  from assms have "collapsed i \<noteq> None" "island_critiqueTags i = parseCritiqueTags (js_prop v ''critiqueTags'')"
    "summaryHistory i = parseSummaryHistory (js_prop v ''summaryHistory'')"
    "representativeCue i = parseRepresentativeCue (js_prop v ''representativeCue'')"
    by (auto simp: parse_island_item_def Let_def split: if_splits option.splits)
  then show ?thesis using parsed_island_usable[OF assms] by (auto simp: stable_island_def dest: parsed_cue_stable)
qed

lemma settle_parent_stable: "stable_island i \<Longrightarrow> stable_island (settle_parent m i)"
  by (simp add: settle_parent_def stable_island_def Let_def)

lemma islands_back: "parseIslands (JArr (map (\<lambda>i. obj (island_fields i)) (parseIslands v))) = parseIslands v"
proof -
  have "stable_island i" if "i \<in> set (parseIslands v)" for i
    using that by (auto simp: parseIslands_settle settle_parents_def set_map_filter intro!: settle_parent_stable dest: parsed_island_stable)
  then have "List.map_filter parse_island_item (map (\<lambda>i. obj (island_fields i)) (parseIslands v)) = parseIslands v"
    by (intro map_filter_total island_read_back)
  then show ?thesis by (subst parseIslands_settle) (simp add: parseIslands_settle settle_parents_idem)
qed

section \<open>Lists of records that are repaired once\<close>

text \<open>A reader \<open>p\<close> is settled under a writer \<open>f\<close> when what it has read once, it reads again.\<close>

definition settled :: "(json \<Rightarrow> 'a option) \<Rightarrow> ('a \<Rightarrow> json) \<Rightarrow> bool" where
  "settled p f \<longleftrightarrow> (\<forall>v x. p v = Some x \<longrightarrow> p (f x) = Some x)"

lemma settledI: "(\<And>v x. p v = Some x \<Longrightarrow> p (f x) = Some x) \<Longrightarrow> settled p f"
  by (simp add: settled_def)

lemma settled_map_filter:
  "settled p f \<Longrightarrow> List.map_filter p (map f (List.map_filter p vs)) = List.map_filter p vs"
  by (rule map_filter_total) (auto simp: set_map_filter settled_def)

lemma settled_opt_list:
  assumes "settled p f"
  shows "settled (\<lambda>v. map_option (List.map_filter p) (as_array v)) (jlist f)"
  using assms by (auto simp: settled_map_filter jlist_def intro!: settledI)

lemma settled_nonempty_list:
  assumes "settled p f"
  shows "settled (\<lambda>v. Option.bind (as_array v) (\<lambda>vs. nonempty_opt (List.map_filter p vs))) (jlist f)"
  using assms by (auto simp: settled_map_filter jlist_def split: Option.bind_splits intro!: settledI dest!: nonempty_optD)
    (simp add: nonempty_opt_def)

lemma settled_back:
  assumes "settled p f" "p JUndef = None"
  shows "p (nullish (map_option f (p v)) JUndef) = p v"
  using assms by (cases "p v") (auto simp: settled_def)

lemma settled_enum_of:
  assumes "list_all (\<lambda>(k, x). str x = k) table" shows "settled (enum_of table) (\<lambda>x. JStr (str x))"
proof -
  have "str x = k" if "map_of table k = Some x" for k x
    using assms map_of_SomeD [OF that] by (auto simp: list_all_iff)
  then show ?thesis by (auto simp: settled_def enum_of_def split: json.splits)
qed

lemma settled_enum:
  "settled (enum_of ref_kind_names) (\<lambda>k. JStr (endpoint_kind_str k))"
  "settled (enum_of [(''b_missing_in_a'', B_missing_in_A), (''a_missing_in_b'', A_missing_in_B)]) (\<lambda>d. JStr (direction_str d))"
  "settled (enum_of severity_names) (\<lambda>s. JStr (severity_str s))"
  "settled (enum_of relation_kind_names) (\<lambda>k. JStr (relation_change_kind_str k))"
  "settled (enum_of merge_decision_names) (\<lambda>m. JStr (merge_decision_str m))"
  "settled (enum_of merge_method_names) (\<lambda>m. JStr (merge_method_str m))"
  "settled (enum_of resolved_by_names) (\<lambda>r. JStr (resolved_by_str r))"
  "settled (enum_of signal_status_names) (\<lambda>s. JStr (signal_status_str s))"
  "settled (enum_of VOID_KINDS) (\<lambda>k. JStr (void_kind_str k))"
  by (rule settled_enum_of; simp add: ref_kind_names_def severity_names_def relation_kind_names_def merge_decision_names_def
      merge_method_names_def resolved_by_names_def signal_status_names_def VOID_KINDS_def)+

lemma enum_undef [simp]: "enum_of table JUndef = None"
  by (simp add: enum_of_def)

lemmas enum_settled = settled_enum [unfolded settled_def, rule_format]
lemmas enum_back = settled_enum [THEN settled_back, OF enum_undef]

lemma settled_reference: "settled parseNarrativeCheckReference reference_json"
  by (auto simp: settled_def parseNarrativeCheckReference_def reference_json_def read_back
      split: if_splits option.splits dest: enum_settled)

lemma direction_back: "parseNarrativeCheckDirection (nullish (map_option (\<lambda>d. JStr (direction_str d)) (parseNarrativeCheckDirection v)) JUndef) =
    parseNarrativeCheckDirection v"
  unfolding parseNarrativeCheckDirection_def by (rule enum_back)

lemma settled_issue: "settled parseNarrativeCheckIssue check_issue_json"
proof (rule settledI)
  fix v i assume "parseNarrativeCheckIssue v = Some i"
  then have i: "enum_of severity_names (js_prop v ''severity'') = Some (ck_severity i)"
    "ck_references i = map_option (List.map_filter parseNarrativeCheckReference) (as_array (js_prop v ''references''))"
    "ck_direction i = parseNarrativeCheckDirection (js_prop v ''direction'')"
    by (auto simp: parseNarrativeCheckIssue_def split: if_splits option.splits)
  have "map_option (List.map_filter parseNarrativeCheckReference) (as_array (nullish (map_option (jlist reference_json) (ck_references i)) JUndef)) =
      ck_references i"
    unfolding i(2) by (rule settled_back [OF settled_opt_list [OF settled_reference]]) (simp add: undef_no_array)
  then show "parseNarrativeCheckIssue (check_issue_json i) = Some i"
    using enum_settled(3) [OF i(1)] by (simp add: parseNarrativeCheckIssue_def check_issue_json_def read_back i(3) direction_back)
qed

lemma count_read_back: "count_of v = Some r \<Longrightarrow> count_of (jrat r) = Some r"
  by (auto simp: count_of_def jrat_def split: json.splits js_num.splits if_splits)

lemma settled_counts: "settled parseNarrativeCheckCounts counts_json"
  by (auto simp: settled_def parseNarrativeCheckCounts_def counts_json_def read_back split: if_splits option.splits
      dest: count_read_back)

lemma settled_check: "settled parseNarrativeCheck check_json"
proof (rule settledI)
  fix v c assume "parseNarrativeCheck v = Some c"
  then obtain vs where c: "ck_issues c = List.map_filter parseNarrativeCheckIssue vs"
    "ck_counts c = parseNarrativeCheckCounts (js_prop v ''counts'')"
    by (auto simp: parseNarrativeCheck_def split: if_splits option.splits)
  have "parseNarrativeCheckCounts (nullish (map_option counts_json (ck_counts c)) JUndef) = ck_counts c"
    unfolding c(2) by (rule settled_back [OF settled_counts]) (simp add: parseNarrativeCheckCounts_def)
  moreover have "List.map_filter parseNarrativeCheckIssue (map check_issue_json (ck_issues c)) = ck_issues c"
    unfolding c(1) by (rule settled_map_filter [OF settled_issue])
  ultimately show "parseNarrativeCheck (check_json c) = Some c"
    by (simp add: parseNarrativeCheck_def check_json_def read_back jlist_def)
qed

lemma settled_narrative: "settled parse_narrative_item narrative_json"
proof (rule settledI)
  fix v n assume "parse_narrative_item v = Some n"
  then have n: "narr_checks n = map_option (List.map_filter parseNarrativeCheck) (as_array (js_prop v ''checks''))"
    by (auto simp: parse_narrative_item_def split: if_splits option.splits)
  have "map_option (List.map_filter parseNarrativeCheck) (as_array (nullish (map_option (jlist check_json) (narr_checks n)) JUndef)) = narr_checks n"
    unfolding n by (rule settled_back [OF settled_opt_list [OF settled_check]]) (simp add: undef_no_array)
  then show "parse_narrative_item (narrative_json n) = Some n"
    by (simp add: parse_narrative_item_def narrative_json_def read_back)
qed

lemma settled_relation_history: "settled parseRelationSummaryHistoryEntry relation_history_json"
proof (rule settledI)
  fix v h assume "parseRelationSummaryHistoryEntry v = Some h"
  then have h: "enum_of relation_kind_names (js_prop v ''changeKind'') = Some (rhe_changeKind h)" "rhe_note h = None"
    by (auto simp: parseRelationSummaryHistoryEntry_def split: if_splits option.splits)
  then show "parseRelationSummaryHistoryEntry (relation_history_json h) = Some h"
    using enum_settled(4) [OF h(1)] by (simp add: parseRelationSummaryHistoryEntry_def relation_history_json_def read_back nullable_back)
qed

lemma settled_relation: "settled parse_relation_item relation_json"
proof (rule settledI)
  fix v r assume "parse_relation_item v = Some r"
  then obtain ty where r: "rel_history r = map_option (List.map_filter parseRelationSummaryHistoryEntry) (as_array (js_prop v ''history''))"
    "relationType r = import_relation_type ty"
    by (auto simp: parse_relation_item_def split: if_splits option.splits)
  have "map_option (List.map_filter parseRelationSummaryHistoryEntry)
      (as_array (nullish (map_option (jlist relation_history_json) (rel_history r)) JUndef)) = rel_history r"
    unfolding r(1) by (rule settled_back [OF settled_opt_list [OF settled_relation_history]]) (simp add: undef_no_array)
  moreover have "import_relation_type (relationType r) = relationType r" by (simp add: r(2) import_relation_type_def)
  ultimately show "parse_relation_item (relation_json r) = Some r"
    by (simp add: parse_relation_item_def relation_json_def relation_fields_def read_back jlist_def [abs_def])
qed

lemma settled_signal: "settled parse_signal_item signal_json"
  by (auto simp: settled_def parse_signal_item_def signal_json_def read_back split: if_splits option.splits
      dest: enum_settled) (auto simp: nonempty_str_def split: json.splits if_splits)

lemma settled_decision: "settled parse_merge_decision_item merge_decision_json"
proof (rule settledI)
  fix v e assume "parse_merge_decision_item v = Some e"
  then have e: "enum_of merge_decision_names (js_prop v ''decision'') = Some (decision e)"
    "dec_action e = enum_of merge_decision_names (js_prop v ''action'')"
    "mergeMethod e = enum_of merge_method_names (js_prop v ''mergeMethod'')"
    "representativeResolvedBy e = enum_of resolved_by_names (js_prop v ''representativeResolvedBy'')"
    by (auto simp: parse_merge_decision_item_def split: if_splits option.splits)
  show "parse_merge_decision_item (merge_decision_json e) = Some e"
    using enum_settled(5) [OF e(1)] enum_back(5) [of "js_prop v ''action''"] enum_back(6) [of "js_prop v ''mergeMethod''"]
      enum_back(7) [of "js_prop v ''representativeResolvedBy''"]
    by (simp add: parse_merge_decision_item_def merge_decision_json_def read_back flip: e(2-4))
qed

lemma settled_islands: "parseIslands (jlist island_json (parseIslands v)) = parseIslands v"
  using islands_back [of v] by (simp add: jlist_def island_json_def [abs_def])

definition numbers_json :: "(string \<times> rat) list \<Rightarrow> json" where
  "numbers_json xs = obj (map (\<lambda>(k, r). req k (jrat r)) xs)"

lemma number_fields_keys: "number_fields keys v = Some xs \<Longrightarrow> map fst xs = keys"
proof -
  have "all_or_none (\<lambda>k. map_option (Pair k) (f k)) keys = Some xs \<Longrightarrow> map fst xs = keys" for f :: "string \<Rightarrow> rat option"
    by (induction keys arbitrary: xs) (auto split: option.splits)
  then show "number_fields keys v = Some xs \<Longrightarrow> map fst xs = keys" by (auto simp: number_fields_def split: if_splits)
qed

lemma numbers_read_back:
  assumes "distinct keys" shows "settled (number_fields keys) numbers_json"
proof (rule settledI)
  fix v xs assume "number_fields keys v = Some xs"
  then have keys: "map fst xs = keys" by (rule number_fields_keys)
  have "map fst (map (\<lambda>(k, r). req k (jrat r)) xs) = keys" using keys by (auto simp: req_def)
  then have got: "js_prop (numbers_json xs) k = nullish (Option.bind (map_of (map (\<lambda>(k, r). req k (jrat r)) xs) k) id) JUndef" for k
    using assms by (simp add: numbers_json_def written_prop)
  have found: "map_of (map (\<lambda>(k, r). req k (jrat r)) xs) k = map_option (\<lambda>r. Some (jrat r)) (map_of xs k)" for k
    by (induction xs) (auto simp: req_def)
  have "all_or_none (\<lambda>k. map_option (Pair k) (toNumber (js_prop (numbers_json xs) k))) (map fst xs) = Some xs"
  proof (rule all_or_none_back)
    fix x assume x: "x \<in> set xs"
    then have "map_of xs (fst x) = Some (snd x)" using assms keys by simp
    then show "map_option (Pair (fst x)) (toNumber (js_prop (numbers_json xs) (fst x))) = Some x" by (simp add: got found)
  qed
  then show "number_fields keys (numbers_json xs) = Some xs" by (simp add: number_fields_def keys numbers_json_def)
qed

definition imported_log_json :: "imported_log_entry \<Rightarrow> json" where
  "imported_log_json e = obj
     [req ''id'' (JStr (il_id e)), req ''createdAt'' (JStr (il_createdAt e)), req ''patchVersion'' (JStr ''1''),
      opt ''patchTitle'' JStr (il_patchTitle e), opt ''baseDocSignature'' JStr (il_baseDocSignature e),
      opt ''patchSourceSignature'' JStr (il_patchSourceSignature e), req ''appliedOpIds'' (jstrs (il_appliedOpIds e)),
      req ''stats'' (numbers_json (il_stats e)), opt ''conflictMeta'' numbers_json (il_conflictMeta e),
      opt ''note'' JStr (il_note e)]"

lemma settled_log: "settled parse_log_item imported_log_json"
proof (rule settledI)
  fix v e assume "parse_log_item v = Some e"
  then have e: "parsePatchApplyStats (js_prop v ''stats'') = Some (il_stats e)"
    "il_conflictMeta e = (if js_prop v ''conflictMeta'' \<noteq> JUndef then parsePatchConflictMeta (js_prop v ''conflictMeta'') else None)"
    by (auto simp: parse_log_item_def split: if_splits option.splits)
  have stats: "parsePatchApplyStats (numbers_json (il_stats e)) = Some (il_stats e)"
    using numbers_read_back [of patch_stat_keys] e(1) by (simp add: settled_def parsePatchApplyStats_def patch_stat_keys_def)
  have conflicts: "settled parsePatchConflictMeta numbers_json"
    unfolding parsePatchConflictMeta_def [abs_def] by (rule numbers_read_back) simp
  have undef: "parsePatchConflictMeta JUndef = None" by (simp add: parsePatchConflictMeta_def number_fields_def)
  have "il_conflictMeta e = parsePatchConflictMeta (js_prop v ''conflictMeta'')" using undef by (simp add: e(2))
  then have meta: "parsePatchConflictMeta (nullish (map_option numbers_json (il_conflictMeta e)) JUndef) = il_conflictMeta e"
    using settled_back [where p = parsePatchConflictMeta, OF conflicts undef] by simp
  show "parse_log_item (imported_log_json e) = Some e"
    by (cases "il_conflictMeta e") (use stats meta undef in \<open>auto simp: parse_log_item_def imported_log_json_def read_back\<close>)
qed

section \<open>Dates, shelf and voids\<close>

text \<open>What \<open>Date.parse\<close> promises: it reads the text that \<open>toISOString\<close> gives for a date that it has read.\<close>

definition reads_own_dates :: "(string \<Rightarrow> int option) \<Rightarrow> bool" where
  "reads_own_dates dateParse \<longleftrightarrow> (\<forall>s t. dateParse s = Some t \<longrightarrow> dateParse (toISOString t) = Some t)"

lemma settled_iso: "reads_own_dates dateParse \<Longrightarrow> settled (iso_of dateParse) JStr"
  by (auto simp: settled_def iso_of_def reads_own_dates_def split: Option.bind_splits)

lemma reason_written: "nullish (map_option JStr x) JUndef = JUndef \<or> is_str (nullish (map_option JStr x) JUndef)"
  by (cases x) (simp_all add: is_str_def)

lemma settled_shelf: "reads_own_dates dateParse \<Longrightarrow> settled (parse_shelf_item dateParse ids) shelf_json"
  using settled_iso [of dateParse]
  by (auto simp: settled_def parse_shelf_item_def shelf_json_def read_back reason_written split: if_splits option.splits)

lemma settled_void: "reads_own_dates dateParse \<Longrightarrow> settled (parse_void_item dateParse) void_json"
  using settled_iso [of dateParse]
  by (auto simp: settled_def parse_void_item_def void_json_def read_back split: if_splits option.splits dest: enum_settled(9))

lemma keep_first_back:
  assumes "\<And>x. x \<in> set xs \<Longrightarrow> p (f x) = Some x" "distinct (map key xs)" "key ` set xs \<inter> set seen = {}"
  shows "keep_first p key seen (map f xs) = xs"
  using assms by (induction xs arbitrary: seen) auto

lemma settled_keep_first:
  assumes "settled p f"
  shows "settled (\<lambda>v. Option.bind (as_array v) (\<lambda>vs. nonempty_opt (keep_first p key [] vs))) (jlist f)"
proof (rule settledI)
  fix v xs assume "Option.bind (as_array v) (\<lambda>vs. nonempty_opt (keep_first p key [] vs)) = Some xs"
  then obtain vs where xs: "xs = keep_first p key [] vs" "xs \<noteq> []"
    by (auto split: Option.bind_splits dest: nonempty_optD)
  have "p (f x) = Some x" if "x \<in> set xs" for x
    using keep_first_parsed [of x p key "[]" vs] that assms by (auto simp: xs(1) settled_def)
  moreover have "distinct (map key xs)" unfolding xs(1) using keep_first_distinct by blast
  ultimately have "keep_first p key [] (map f xs) = xs" by (intro keep_first_back) simp_all
  then show "Option.bind (as_array (jlist f xs)) (\<lambda>vs. nonempty_opt (keep_first p key [] vs)) = Some xs"
    using xs(2) by (simp add: jlist_def nonempty_opt_def)
qed

lemma settled_shelf_list: "reads_own_dates dateParse \<Longrightarrow> settled (\<lambda>v. parseShelf dateParse v ids) (jlist shelf_json)"
  unfolding parseShelf_def by (rule settled_keep_first [OF settled_shelf])

lemma settled_void_list: "reads_own_dates dateParse \<Longrightarrow> settled (parseVoids dateParse) (jlist void_json)"
  unfolding parseVoids_def [abs_def] by (rule settled_keep_first [OF settled_void])

section \<open>The whole document\<close>

text \<open>The document that the import returns, as the object that is saved: \<open>undefined\<close> properties have no entry. The
  review records are the values that the import passed through.\<close>

definition imported_fields :: "imported \<Rightarrow> fields" where
  "imported_fields d =
     [req ''version'' (jnat 1), req ''id'' (JStr (im_id d)), opt ''title'' JStr (im_title d),
      req ''createdAt'' (JStr (im_createdAt d)), req ''updatedAt'' (JStr (im_updatedAt d)), req ''transform'' (transform_json (im_transform d)),
      req ''cards'' (jlist card_json (im_cards d)), req ''edges'' (jlist edge_json (im_edges d)),
      req ''islands'' (jlist island_json (im_islands d)), req ''evidenceLinks'' (jlist link_json (im_evidenceLinks d)),
      opt ''critiqueInputs'' JArr (im_critiqueInputs d), opt ''reproposalDiffs'' JArr (im_reproposalDiffs d),
      opt ''reviewAttribution'' id (im_reviewAttribution d), opt ''deterministicTieBreak'' tie_break_json (im_tieBreak d),
      opt ''readingOrder'' jstrs (im_readingOrder d), opt ''narratives'' (jlist narrative_json) (im_narratives d),
      opt ''relationSummaries'' (jlist relation_json) (im_relationSummaries d),
      opt ''patchApplyLog'' (jlist imported_log_json) (im_patchApplyLog d),
      opt ''mergeSuggestionDecisions'' (jlist merge_decision_json) (im_mergeDecisions d),
      opt ''contradictionSignalDecisions'' (jlist signal_json) (im_signalDecisions d),
      opt ''shelf'' (jlist shelf_json) (im_shelf d), opt ''voids'' (jlist void_json) (im_voids d)]"

definition imported_json :: "imported \<Rightarrow> json" where
  "imported_json d = obj (imported_fields d)"

lemma imported_props:
  "js_prop (imported_json d) ''version'' = JNum (Finite 1)" "js_prop (imported_json d) ''id'' = JStr (im_id d)"
  "js_prop (imported_json d) ''title'' = nullish (map_option JStr (im_title d)) JUndef"
  "js_prop (imported_json d) ''createdAt'' = JStr (im_createdAt d)" "js_prop (imported_json d) ''updatedAt'' = JStr (im_updatedAt d)"
  "js_prop (imported_json d) ''transform'' = transform_json (im_transform d)"
  "js_prop (imported_json d) ''cards'' = jlist card_json (im_cards d)" "js_prop (imported_json d) ''edges'' = jlist edge_json (im_edges d)"
  "js_prop (imported_json d) ''islands'' = jlist island_json (im_islands d)"
  "js_prop (imported_json d) ''evidenceLinks'' = jlist link_json (im_evidenceLinks d)"
  "js_prop (imported_json d) ''critiqueInputs'' = nullish (map_option JArr (im_critiqueInputs d)) JUndef"
  "js_prop (imported_json d) ''reproposalDiffs'' = nullish (map_option JArr (im_reproposalDiffs d)) JUndef"
  "js_prop (imported_json d) ''reviewAttribution'' = nullish (im_reviewAttribution d) JUndef"
  "js_prop (imported_json d) ''deterministicTieBreak'' = nullish (map_option tie_break_json (im_tieBreak d)) JUndef"
  "js_prop (imported_json d) ''readingOrder'' = nullish (map_option jstrs (im_readingOrder d)) JUndef"
  "js_prop (imported_json d) ''narratives'' = nullish (map_option (jlist narrative_json) (im_narratives d)) JUndef"
  "js_prop (imported_json d) ''relationSummaries'' = nullish (map_option (jlist relation_json) (im_relationSummaries d)) JUndef"
  "js_prop (imported_json d) ''patchApplyLog'' = nullish (map_option (jlist imported_log_json) (im_patchApplyLog d)) JUndef"
  "js_prop (imported_json d) ''mergeSuggestionDecisions'' = nullish (map_option (jlist merge_decision_json) (im_mergeDecisions d)) JUndef"
  "js_prop (imported_json d) ''contradictionSignalDecisions'' = nullish (map_option (jlist signal_json) (im_signalDecisions d)) JUndef"
  "js_prop (imported_json d) ''shelf'' = nullish (map_option (jlist shelf_json) (im_shelf d)) JUndef"
  "js_prop (imported_json d) ''voids'' = nullish (map_option (jlist void_json) (im_voids d)) JUndef"
  unfolding imported_json_def by (simp_all add: imported_fields_def read_back jnat_def jrat_def option.map_id)

lemma own_key_given: "js_prop (JObj es) k \<noteq> JUndef \<Longrightarrow> own_key k (JObj es)"
  by (cases "map_of es k") (auto simp: own_key_def object_keys_def dest: map_of_SomeD intro: rev_image_eqI)

lemma imported_keys:
  "own_key ''version'' (imported_json d)" "own_key ''id'' (imported_json d)" "own_key ''transform'' (imported_json d)"
  "own_key ''cards'' (imported_json d)" "own_key ''edges'' (imported_json d)" "own_key ''islands'' (imported_json d)"
  using own_key_given [of "present (imported_fields d)"] imported_props [of d]
  by (simp_all add: imported_json_def obj_def jlist_def transform_json_def)

lemma transform_read_back: "parseTransform (transform_json t) = Some t"
  by (simp add: parseTransform_def transform_json_def read_back)

lemma shelve_cards_idem: "shelve_cards sh (shelve_cards sh cs) = shelve_cards sh cs"
  by (simp add: shelve_cards_def)

lemma reading_order_back: "parseReadingOrder (nullish (map_option jstrs (parseReadingOrder v)) JUndef) = parseReadingOrder v"
proof -
  have "settled parseReadingOrder jstrs"
    by (auto simp: settled_def parseReadingOrder_def nonempty_opt_def split: Option.bind_splits if_splits)
  then show ?thesis by (rule settled_back) (simp add: parseReadingOrder_def undef_no_array)
qed

lemma tie_break_back: "parseDeterministicTieBreak (nullish (map_option tie_break_json (parseDeterministicTieBreak v)) JUndef) =
    parseDeterministicTieBreak v"
proof -
  have "parseDeterministicTieBreak v = None \<or> parseDeterministicTieBreak v = Some tie_break_order"
    by (simp add: parseDeterministicTieBreak_def split: option.splits)
  moreover have "parseDeterministicTieBreak (tie_break_json tie_break_order) = Some tie_break_order"
    by (simp add: parseDeterministicTieBreak_def tie_break_json_def read_back jstrs_def tie_break_order_def)
  moreover have "parseDeterministicTieBreak JUndef = None" by (simp add: parseDeterministicTieBreak_def)
  ultimately show ?thesis by (elim disjE) simp_all
qed

lemma passed_through:
  "parseCritiqueInputs dp (nullish (map_option JArr (parseCritiqueInputs dp v)) JUndef) = parseCritiqueInputs dp v"
  "parseReproposalDiffs (nullish (map_option JArr (parseReproposalDiffs v)) JUndef) = parseReproposalDiffs v"
  by (cases "as_array v"; simp add: parseCritiqueInputs_def parseReproposalDiffs_def undef_no_array)+

lemma attribution_back: "parseReviewAttribution dp (nullish (parseReviewAttribution dp v) JUndef) = parseReviewAttribution dp v"
proof -
  have "\<not> validateHilRsReviewAttribution dp JUndef" by (simp add: validateHilRsReviewAttribution_def)
  then show ?thesis by (cases "validateHilRsReviewAttribution dp v") (simp_all add: parseReviewAttribution_def)
qed

lemma list_parts_back:
  "parseNarratives (nullish (map_option (jlist narrative_json) (parseNarratives v)) JUndef) = parseNarratives v"
  "parseRelationSummaries (nullish (map_option (jlist relation_json) (parseRelationSummaries v)) JUndef) = parseRelationSummaries v"
  "parsePatchApplyLog (nullish (map_option (jlist imported_log_json) (parsePatchApplyLog v)) JUndef) = parsePatchApplyLog v"
  "parseMergeSuggestionDecisions (nullish (map_option (jlist merge_decision_json) (parseMergeSuggestionDecisions v)) JUndef) =
     parseMergeSuggestionDecisions v"
  "parseContradictionSignalDecisions (nullish (map_option (jlist signal_json) (parseContradictionSignalDecisions v)) JUndef) =
     parseContradictionSignalDecisions v"
  unfolding parseNarratives_def parseRelationSummaries_def parsePatchApplyLog_def parseMergeSuggestionDecisions_def
    parseContradictionSignalDecisions_def
  by (rule settled_back [OF settled_nonempty_list [OF settled_narrative]], simp add: undef_no_array)
    (rule settled_back [OF settled_nonempty_list [OF settled_relation]], simp add: undef_no_array,
     rule settled_back [OF settled_nonempty_list [OF settled_log]], simp add: undef_no_array,
     rule settled_back [OF settled_nonempty_list [OF settled_decision]], simp add: undef_no_array,
     rule settled_back [OF settled_nonempty_list [OF settled_signal]], simp add: undef_no_array)

lemma dated_parts_back:
  assumes "reads_own_dates dateParse"
  shows "parseShelf dateParse (nullish (map_option (jlist shelf_json) (parseShelf dateParse v ids)) JUndef) ids = parseShelf dateParse v ids"
    and "parseVoids dateParse (nullish (map_option (jlist void_json) (parseVoids dateParse v)) JUndef) = parseVoids dateParse v"
  by (rule settled_back [OF settled_shelf_list [OF assms]], simp add: parseShelf_def undef_no_array)
    (rule settled_back [OF settled_void_list [OF assms]], simp add: parseVoids_def undef_no_array)

lemma date_back:
  assumes "reads_own_dates dateParse" "dateParse (toISOString t) = Some t"
  shows "parseIsoDate dateParse (JStr (parseIsoDate dateParse v (toISOString t))) now' = parseIsoDate dateParse v (toISOString t)"
proof -
  have "iso_of dateParse (JStr (nullish (iso_of dateParse v) (toISOString t))) = Some (nullish (iso_of dateParse v) (toISOString t))"
    using settled_iso [OF assms(1)] assms(2) by (cases "iso_of dateParse v") (auto simp: settled_def, simp add: iso_of_def)
  then show ?thesis by (simp add: parseIsoDate_def)
qed

section \<open>Import of an exported import\<close>

lemma reimport_is_stable_parts:
  assumes "validateImportedDocument dateParse now v = Inr d"
  shows "parseCards (JArr (map (\<lambda>c. obj (card_fields c)) (im_cards d))) = Some (im_cards d)"
    and "parseEdges (JArr (map (\<lambda>e. obj (edge_fields e)) (im_edges d))) = im_edges d"
    and "parseIslands (JArr (map (\<lambda>i. obj (island_fields i)) (im_islands d))) = im_islands d"
    and "parseEvidenceLinks (JArr (map (\<lambda>l. obj (link_fields l)) (im_evidenceLinks d))) = Some (im_evidenceLinks d)"
proof -
  from import_InrD[OF assms] obtain j t cs where cs: "parseCards (js_prop v ''cards'') = Some cs"
    and d: "d = import_parts dateParse now v j t cs" by blast
  obtain sh where cards: "im_cards d = shelve_cards sh cs" by (simp add: d import_parts_def Let_def)
  have "all_or_none parse_card_item (map (\<lambda>c. obj (card_fields c)) (im_cards d)) = Some (im_cards d)"
    unfolding cards by (intro all_or_none_back card_read_back imported_cards_stable[OF cs])
  then show "parseCards (JArr (map (\<lambda>c. obj (card_fields c)) (im_cards d))) = Some (im_cards d)" by (simp add: parseCards_def)
  have "stable_edge e" if "e \<in> set (im_edges d)" for e
    using that by (auto simp: d import_parts_def Let_def parseEdges_def set_map_filter dest: parsed_edge_stable)
  then have "List.map_filter parse_edge_item (map (\<lambda>e. obj (edge_fields e)) (im_edges d)) = im_edges d"
    by (intro map_filter_total edge_read_back)
  then show "parseEdges (JArr (map (\<lambda>e. obj (edge_fields e)) (im_edges d))) = im_edges d" by (simp add: parseEdges_def)
  show "parseIslands (JArr (map (\<lambda>i. obj (island_fields i)) (im_islands d))) = im_islands d"
    by (simp add: d import_parts_def Let_def islands_back)
  obtain vs where ls: "im_evidenceLinks d = keep_links [] [] vs"
    by (cases "as_array (js_prop v ''evidenceLinks'')")
      (auto simp: d import_parts_def Let_def parseEvidenceLinks_def intro: that[of "[]"])
  have "keep_links [] [] (map (\<lambda>l. obj (link_fields l)) (im_evidenceLinks d)) = im_evidenceLinks d"
    using keep_links_distinct[of "[]" "[]" vs] by (intro keep_links_back) (simp_all add: ls)
  then show "parseEvidenceLinks (JArr (map (\<lambda>l. obj (link_fields l)) (im_evidenceLinks d))) = Some (im_evidenceLinks d)"
    by (simp add: parseEvidenceLinks_def)
qed

lemma reimport_parts:
  assumes "reads_own_dates dateParse" "dateParse (toISOString t) = Some t"
    and "validateImportedDocument dateParse (toISOString t) v = Inr d"
  shows "import_parts dateParse now' (imported_json d) (im_id d) (im_transform d) (im_cards d) = d"
proof -
  from import_InrD [OF assms(3)] obtain i tr cs where cs: "parseCards (js_prop v ''cards'') = Some cs"
    and d: "d = import_parts dateParse (toISOString t) v i tr cs" by blast
  let ?sh = "parseShelf dateParse (js_prop v ''shelf'') (uniq (map card_id cs))"
  note settled_facts = list_parts_back dated_parts_back [OF assms(1)] date_back [OF assms(1,2)] reading_order_back tie_break_back
    passed_through attribution_back
  have fields: "im_createdAt d = parseIsoDate dateParse (js_prop v ''createdAt'') (toISOString t)"
    "im_updatedAt d = parseIsoDate dateParse (js_prop v ''updatedAt'') (toISOString t)"
    "im_critiqueInputs d = parseCritiqueInputs dateParse (js_prop v ''critiqueInputs'')"
    "im_reproposalDiffs d = parseReproposalDiffs (js_prop v ''reproposalDiffs'')"
    "im_reviewAttribution d = parseReviewAttribution dateParse (js_prop v ''reviewAttribution'')"
    "im_tieBreak d = parseDeterministicTieBreak (js_prop v ''deterministicTieBreak'')"
    "im_readingOrder d = parseReadingOrder (js_prop v ''readingOrder'')"
    "im_narratives d = parseNarratives (js_prop v ''narratives'')"
    "im_relationSummaries d = parseRelationSummaries (js_prop v ''relationSummaries'')"
    "im_patchApplyLog d = parsePatchApplyLog (js_prop v ''patchApplyLog'')"
    "im_mergeDecisions d = parseMergeSuggestionDecisions (js_prop v ''mergeSuggestionDecisions'')"
    "im_signalDecisions d = parseContradictionSignalDecisions (js_prop v ''contradictionSignalDecisions'')"
    "im_voids d = parseVoids dateParse (js_prop v ''voids'')"
    and sh: "im_shelf d = ?sh" and cards: "im_cards d = shelve_cards (uniq (map shelf_cardId (nullish ?sh []))) cs"
    by (simp_all add: d import_parts_def Let_def)
  have ids: "map card_id (im_cards d) = map card_id cs" unfolding cards by (rule shelve_cards_ids)
  have parts: "parseEdges (jlist edge_json (im_edges d)) = im_edges d" "parseIslands (jlist island_json (im_islands d)) = im_islands d"
    "parseEvidenceLinks (jlist link_json (im_evidenceLinks d)) = Some (im_evidenceLinks d)"
    using reimport_is_stable_parts [OF assms(3)]
    by (simp_all add: jlist_def edge_json_def [abs_def] island_json_def [abs_def] link_json_def [abs_def])
  have shelf: "parseShelf dateParse (nullish (map_option (jlist shelf_json) (im_shelf d)) JUndef) (uniq (map card_id (im_cards d))) = im_shelf d"
    unfolding ids sh by (rule settled_facts)
  have shelved: "shelve_cards (uniq (map shelf_cardId (nullish (im_shelf d) []))) (im_cards d) = im_cards d"
    unfolding sh cards by (rule shelve_cards_idem)
  show ?thesis
    by (rule imported.equality)
      (simp_all add: import_parts_def Let_def imported_props parts shelf shelved, simp_all only: fields settled_facts)
qed

text \<open>C16. What the import accepted is a fixed point of the import: the imported document, written as an object the way
  it is saved (a property that is \<open>undefined\<close> has no entry), is accepted, at any later time, and gives the same document
  again: cards with the hold state that the shelf settled, edges, islands with their shapes and the parents that were
  kept, evidence links, narratives with their checks, relation summaries with their history, the patch log, the decisions,
  the shelf, the voids, the review records and the dates. So after the first repair, saving and opening
  changes nothing. (\<open>Date.parse\<close> must read the text that \<open>toISOString\<close> writes, for the dates it has read and for the time
  of the first import.)\<close>

theorem reimport_is_stable:
  assumes "reads_own_dates dateParse" and "dateParse (toISOString t) = Some t"
    and "validateImportedDocument dateParse (toISOString t) v = Inr d"
  shows "validateImportedDocument dateParse now' (imported_json d) = Inr d"
proof -
  have cards: "parseCards (jlist card_json (im_cards d)) = Some (im_cards d)"
    using reimport_is_stable_parts(1) [OF assms(3)] by (simp add: jlist_def card_json_def [abs_def])
  have is_rec: "isRecord (imported_json d)" by (simp add: imported_json_def)
  show ?thesis
    unfolding validateImportedDocument_def
    by (simp add: is_rec imported_keys imported_props transform_read_back cards jlist_def [of edge_json] jlist_def [of island_json]
        reimport_parts [OF assms])
qed

definition iso_dates :: "string \<Rightarrow> int option" where
  "iso_dates s = (if s = ''2024-02-29'' \<or> s = ''2024-02-29T00:00:00.000Z'' then Some 1709164800000 else None)"

definition ex_full :: json where
  "ex_full = JObj ((case ex_import of JObj es \<Rightarrow> es | _ \<Rightarrow> []) @
     [(''narratives'', JArr [JObj [(''id'', JStr ''n''), (''title'', JStr ''T''), (''text'', JStr ''body''), (''reviewed'', JBool False),
         (''checks'', JArr [JObj [(''id'', JStr ''q''), (''kind'', JStr ''consistency''), (''createdAt'', JStr ''x''), (''issues'', JArr [JNull])], JNull])]]),
      (''relationSummaries'', JArr [JNull, JObj [(''id'', JStr ''r''), (''createdAt'', JStr ''x''), (''islandAId'', JStr ''i''),
         (''islandBId'', JStr ''j''), (''relationType'', JStr ''strange''), (''derived'', JBool True), (''text'', JStr []),
         (''reviewed'', JBool False), (''groundingCardIds'', JArr []), (''groundingEdgeIds'', JArr []), (''sourceSignature'', JStr ''s'')]]),
      (''voids'', JArr [JObj [(''id'', JStr ''v''), (''kind'', JStr ''orphaned_island''), (''title'', JStr ''V''), (''detail'', JStr ''d''),
         (''createdAt'', JStr ''2024-02-29'')]])])"

definition ex_full_imported :: imported where
  "ex_full_imported = import_parts iso_dates (toISOString 1709164800000) ex_full ''d''
     (the (parseTransform (js_prop ex_full ''transform''))) (the (parseCards (js_prop ex_full ''cards'')))"

lemma iso_text: "toISOString 1709164800000 = ''2024-02-29T00:00:00.000Z''"
  by code_simp

lemma ex_full_ok: "validateImportedDocument iso_dates (toISOString 1709164800000) ex_full = Inr ex_full_imported"
  by (simp add: ex_full_imported_def validateImportedDocument_def ex_full_def ex_import_def own_key_def object_keys_def
    parseTransform_def toNumber_def parseCards_def as_array_def parse_card_item_def)

lemma ex_full_parts:
  "map rel_id (nullish (im_relationSummaries ex_full_imported) []) = [''r'']"
  "map relationType (nullish (im_relationSummaries ex_full_imported) []) = [''unknown'']"
  "map narr_id (nullish (im_narratives ex_full_imported) []) = [''n'']"
  "map void_createdAt (nullish (im_voids ex_full_imported) []) = [''2024-02-29T00:00:00.000Z'']"
proof -
  have parts: "im_relationSummaries ex_full_imported = parseRelationSummaries (js_prop ex_full ''relationSummaries'')"
    "im_narratives ex_full_imported = parseNarratives (js_prop ex_full ''narratives'')"
    "im_voids ex_full_imported = parseVoids iso_dates (js_prop ex_full ''voids'')"
    by (simp_all add: ex_full_imported_def import_parts_def Let_def)
  show "map rel_id (nullish (im_relationSummaries ex_full_imported) []) = [''r'']"
    "map relationType (nullish (im_relationSummaries ex_full_imported) []) = [''unknown'']"
    "map narr_id (nullish (im_narratives ex_full_imported) []) = [''n'']"
    "map void_createdAt (nullish (im_voids ex_full_imported) []) = [''2024-02-29T00:00:00.000Z'']"
    unfolding parts by code_simp+
qed

theorem reimport_is_stable_witness:
  "validateImportedDocument iso_dates ''later'' (imported_json ex_full_imported) = Inr ex_full_imported \<and>
   map relationType (nullish (im_relationSummaries ex_full_imported) []) = [''unknown''] \<and>
   map narr_id (nullish (im_narratives ex_full_imported) []) = [''n''] \<and>
   map void_createdAt (nullish (im_voids ex_full_imported) []) = [''2024-02-29T00:00:00.000Z'']"
proof (intro conjI)
  have "reads_own_dates iso_dates" "iso_dates (toISOString 1709164800000) = Some 1709164800000"
    by (auto simp: reads_own_dates_def iso_dates_def iso_text split: if_splits)
  then show "validateImportedDocument iso_dates ''later'' (imported_json ex_full_imported) = Inr ex_full_imported"
    using ex_full_ok by (rule reimport_is_stable)
qed (rule ex_full_parts)+

end
