(* ===== verification/Safe_Mode_Strict.thy ===== *)
theory Safe_Mode_Strict
  imports Safe_Mode_Bundle Strict_Document Import_Roundtrip
begin

text \<open>
  The SafeMode projection and the strict reader: \<open>deriveDocumentSafeModeProjection\<close> is documented to build a structurally importable
  document. A document that \<open>validateDocumentV1Strict\<close> accepts stays accepted when it is projected: placeholders keep within every
  length limit, are never empty, and carry no identifier that the reader refuses.
\<close>

section \<open>Placeholders within limits\<close>

lemma length_redact:
  assumes "length s \<le> n" and "n \<le> 99999" and "22 \<le> n"
  shows "length (redact s) \<le> n"
proof (cases "already_redacted s")
  case True
  then show ?thesis using assms by (simp add: redact_def)
next
  case False
  have "length (trim s) \<le> length s"
    unfolding trim_def by (metis length_dropWhile_le le_trans length_rev)
  then have "length (trim s) < 10 ^ 5" using assms by simp
  then have "length (nat_str (length (trim s))) \<le> 5" unfolding nat_str_def by (intro length_radix_str_le) simp_all
  then show ?thesis using False assms by (simp add: redact_def redactText_def REDACTED_def Let_def)
qed

lemma redact_not_Nil [simp]: "redact s \<noteq> []"
  by (auto simp: redact_def redactText_def REDACTED_def already_redacted_def Let_def starts_with_def)

section \<open>The checks on written records\<close>

lemma given_written:
  "nullish (map_option f x) JUndef = JUndef \<longleftrightarrow> x = None \<or> f (the x) = JUndef"
  "is_str (nullish (map_option f x) JUndef) \<longleftrightarrow> x \<noteq> None \<and> is_str (f (the x))"
  "is_bool (nullish (map_option f x) JUndef) \<longleftrightarrow> x \<noteq> None \<and> is_bool (f (the x))"
  "is_finite_number (nullish (map_option f x) JUndef) \<longleftrightarrow> x \<noteq> None \<and> is_finite_number (f (the x))"
  "all_strings (nullish (map_option f x) JUndef) = None \<longleftrightarrow> x = None \<or> all_strings (f (the x)) = None"
  "one_of ws (nullish (map_option f x) JUndef) \<longleftrightarrow> x \<noteq> None \<and> one_of ws (f (the x))"
  by (cases x; simp add: is_str_def is_bool_def is_finite_number_def all_strings_def one_of_def as_bool_def toNumber_def as_array_def)+

lemma nested_written:
  "snd (validate_meta (nullish (map_option f x) JUndef) p) = [] \<longleftrightarrow> x \<noteq> None \<and> snd (validate_meta (f (the x)) p) = []"
  "snd (validate_ka (nullish (map_option f x) JUndef) p) = [] \<longleftrightarrow> x \<noteq> None \<and> snd (validate_ka (f (the x)) p) = []"
  "snd (validateIslandGeometry (nullish (map_option f x) JUndef) p) = [] \<longleftrightarrow> x \<noteq> None \<and> snd (validateIslandGeometry (f (the x)) p) = []"
  "snd (validateIslandShape (nullish (map_option f x) JUndef) p) = [] \<longleftrightarrow> x \<noteq> None \<and> snd (validateIslandShape (f (the x)) p) = []"
  "snd (validate_generated_from (nullish (map_option f x) JUndef) p) = [] \<longleftrightarrow> x \<noteq> None \<and> snd (validate_generated_from (f (the x)) p) = []"
  "snd (validate_cue (nullish (map_option f x) JUndef) p) = [] \<longleftrightarrow> x \<noteq> None \<and> snd (validate_cue (f (the x)) p) = []"
  "snd (validate_conflict_meta (nullish (map_option f x) JUndef) p) = [] \<longleftrightarrow> x \<noteq> None \<and> snd (validate_conflict_meta (f (the x)) p) = []"
  by (cases x; simp add: validate_meta_def validate_ka_def validateIslandGeometry_def validateIslandShape_def validate_generated_from_def
      validate_cue_def validate_conflict_meta_def not_object_def)+

lemma keys_written: "fst ` set fs \<subseteq> K \<Longrightarrow> set (object_keys (obj fs)) \<subseteq> K"
  using keys_present [of fs] by (auto simp: object_keys_def obj_def)

lemma checks_written [simp]:
  "is_str (JStr s)" "is_finite_number (jrat q)" "is_bool (JBool b)" "all_strings (jstrs xs) \<noteq> None" "JStr s \<noteq> JUndef" "JBool b \<noteq> JUndef"
  "jrat q \<noteq> JUndef" "jstrs xs \<noteq> JUndef" "jlist g ys \<noteq> JUndef" "obj fs \<noteq> JUndef"
  by (simp_all add: is_str_def is_finite_number_def jrat_def is_bool_def all_strings_def jstrs_def as_array_def list_all_iff jlist_def obj_def toNumber_def as_bool_def)

lemma enum_written [simp]:
  "one_of [''fact'', ''claim'', ''hypothesis'', ''unknown''] (JStr (claim_type_str ct))"
  "one_of [''held'', ''pending'', ''shelved''] (JStr (hold_state_str hs))"
  "one_of [''card'', ''island''] (JStr (endpoint_kind_str ek))"
  "one_of [''hand_drawn'', ''user_image'', ''preset_svg'', ''emoji''] (JStr (cue_kind_str ck))"
  "one_of [''supports'', ''contradicts''] (JStr (evidence_type_str et))"
  "one_of decision_words (JStr (merge_decision_str md))"
  "one_of [''near_duplicate'', ''kernel_fusion''] (JStr (merge_method_str mm))"
  "one_of [''repOf'', ''mergedIntoCardId'', ''fallback'', ''unresolved''] (JStr (resolved_by_str rb))"
  by ((cases ct; simp add: one_of_def), (cases hs; simp add: one_of_def), (cases ek; simp add: one_of_def), (cases ck; simp add: one_of_def),
      (cases et; simp add: one_of_def), (cases md; simp add: one_of_def decision_words_def), (cases mm; simp add: one_of_def),
      (cases rb; simp add: one_of_def))

lemma or_not_and: "(P \<or> \<not> P \<and> Q) \<longleftrightarrow> P \<or> Q"
  by blast

lemmas written = or_not_and no_error fields_def read_back given_written nested_written Let_def

lemma meta_strict: "snd (validate_meta (obj (meta_fields m)) p) = []"
  by (simp add: validate_meta_def meta_fields_def written keys_written del: not_None_eq)

lemma ka_strict: "snd (validate_ka (obj (ka_fields k)) p) = []"
  by (simp add: validate_ka_def ka_fields_def written keys_written del: not_None_eq)

lemma card_strict:
  "snd (validateCard (card_json c) i) = [] \<longleftrightarrow> length (card_text c) \<le> CARD_TEXT_MAX_LENGTH \<and>
     (\<forall>t. card_critique c = Some t \<longrightarrow> length t \<le> CRITIQUE_MAX_LENGTH)"
  unfolding card_json_def
  by (simp add: validateCard_def card_fields_def written keys_written card_keys_def meta_strict ka_strict del: not_None_eq)

lemma edge_strict: "snd (validateEdge (edge_json e) i) = [] \<longleftrightarrow> edge_type e \<noteq> []"
  unfolding edge_json_def by (simp add: validateEdge_def edge_fields_def written keys_written nonempty_str_def del: not_None_eq)

section \<open>Projected records stay valid\<close>

lemma card_projected: "snd (validateCard (card_json c) i) = [] \<Longrightarrow> snd (validateCard (card_json (sanitizeCard c inc)) i) = []"
  unfolding card_strict by (auto simp: sanitizeCard_def CARD_TEXT_MAX_LENGTH_def CRITIQUE_MAX_LENGTH_def intro!: length_redact)

lemma edge_projected: "snd (validateEdge (edge_json (sanitizeEdge e)) i) = []"
  unfolding edge_strict by (simp add: sanitizeEdge_def resolveKnownEdgeType_def KNOWN_EDGE_TYPES_def)

lemma generated_strict: "snd (validate_generated_from (generated_json g) p) = []"
  by (simp add: validate_generated_from_def generated_json_def written keys_written del: not_None_eq)

lemma shape_projected:
  "snd (validateIslandShape (obj (shape_fields (sanitizeShape s))) p) = snd (validateIslandShape (obj (shape_fields s)) p)"
proof -
  have undef: "generated_json g \<noteq> JUndef" for g by (simp add: generated_json_def)
  have gen: "snd (when_given (nullish (map_option generated_json g) JUndef) (validate_generated_from (nullish (map_option generated_json g) JUndef) p)) = []" for g p
    by (cases g) (simp_all add: when_given_def generated_strict)
  show ?thesis
  proof (cases s)
    case (RectShape g)
    have "object_keys (obj (shape_fields (RectShape (map_option f g)))) = object_keys (obj (shape_fields (RectShape g)))" for f
      by (cases g) (simp_all add: shape_fields_def obj_def req_def opt_def object_keys_def)
    then show ?thesis
      unfolding RectShape sanitizeShape.simps validateIslandShape_def hasOnlyKeys_def
      by (simp add: shape_fields_def read_back all_of_def gen one_of_def)
  next
    case (PolygonShape ps g)
    have "object_keys (obj (shape_fields (PolygonShape ps (map_option f g)))) = object_keys (obj (shape_fields (PolygonShape ps g)))" for f
      by (cases g) (simp_all add: shape_fields_def obj_def req_def opt_def object_keys_def)
    then show ?thesis
      unfolding PolygonShape sanitizeShape.simps validateIslandShape_def hasOnlyKeys_def
      by (simp add: shape_fields_def read_back all_of_def gen one_of_def)
  qed
qed

lemma cue_strict: "snd (validate_cue (cue_json q) p) = []"
  by (simp add: validate_cue_def cue_json_def written keys_written del: not_None_eq)

lemma cue_given: "cue_json q \<noteq> JUndef"
  by (simp add: cue_json_def)

lemma island_strict:
  "snd (validateIsland (island_json n) i) = [] \<longleftrightarrow>
     (\<forall>t. island_title n = Some t \<longrightarrow> length t \<le> ISLAND_TITLE_MAX_LENGTH) \<and>
     (\<forall>t. summaryText n = Some t \<longrightarrow> length t \<le> ISLAND_SUMMARY_MAX_LENGTH) \<and>
     (geometry n = None \<or> snd (validateIslandGeometry (obj (geometry_fields (the (geometry n)))) (at_index ''islands'' i @ ''.geometry'')) = []) \<and>
     (shape n = None \<or> snd (validateIslandShape (obj (shape_fields (the (shape n)))) (at_index ''islands'' i @ ''.shape'')) = [])"
  unfolding island_json_def
  by (simp add: validateIsland_def island_fields_def written keys_written island_keys_def cue_strict cue_given del: not_None_eq)

lemma island_projected: "snd (validateIsland (island_json n) i) = [] \<Longrightarrow> snd (validateIsland (island_json (sanitizeIsland n)) i) = []"
  unfolding island_strict
  by (cases "geometry n"; cases "shape n"; auto simp: sanitizeIsland_def ISLAND_TITLE_MAX_LENGTH_def ISLAND_SUMMARY_MAX_LENGTH_def shape_projected intro!: length_redact)

lemma relation_strict: "snd (validateRelationSummary (relation_json r) i) = [] \<longleftrightarrow> one_of (''unknown'' # KNOWN_EDGE_TYPES) (JStr (relationType r))"
  unfolding relation_json_def
  by (simp add: validateRelationSummary_def relation_fields_def written keys_written relation_keys_def del: not_None_eq)

lemma relation_projected:
  "snd (validateRelationSummary (relation_json r) i) = [] \<Longrightarrow> snd (validateRelationSummary (relation_json (sanitizeRelationSummary r)) i) = []"
  unfolding relation_strict by (simp add: sanitizeRelationSummary_def)

lemma stats_strict: "snd (validatePatchApplyStats (stats_json s) p) = []"
  by (simp add: validatePatchApplyStats_def patch_stat_keys_def stats_json_def written keys_written jnat_def del: not_None_eq)

lemma conflict_strict: "snd (validate_conflict_meta (conflict_meta_json m) p) = []" "conflict_meta_json m \<noteq> JUndef"
  by (simp_all add: validate_conflict_meta_def conflict_keys_def conflict_meta_json_def written keys_written jnat_def del: not_None_eq)

lemma log_strict: "snd (validatePatchApplyLogEntry (log_json e) i) = [] \<longleftrightarrow> patchVersion e = ''1''"
  unfolding log_json_def
  by (simp add: validatePatchApplyLogEntry_def written keys_written stats_strict conflict_strict del: not_None_eq)

lemma log_projected:
  "snd (validatePatchApplyLogEntry (log_json e) i) = [] \<Longrightarrow> snd (validatePatchApplyLogEntry (log_json (sanitizePatchLog e)) i) = []"
  unfolding log_strict by (simp add: sanitizePatchLog_def)

lemma present_key: "(k, Some v) \<in> set fs \<Longrightarrow> k \<in> set (object_keys (obj fs))"
  by (induction fs rule: present.induct) (auto simp: object_keys_def obj_def)

lemma link_keys: "set (object_keys (link_json l)) \<subseteq> set evidence_keys \<longleftrightarrow> contradictionState l = None"
proof (cases "contradictionState l")
  case None
  then have "obj (link_fields l) = obj (butlast (link_fields l))"
    by (simp add: link_fields_def obj_def opt_def req_def) (cases "link_note l"; cases "link_createdAt l"; simp)
  then show ?thesis
    using None keys_written [of "butlast (link_fields l)" "set evidence_keys"]
    by (simp add: link_json_def link_fields_def opt_def req_def evidence_keys_def)
next
  case (Some s)
  have "''contradictionState'' \<in> set (object_keys (link_json l))"
    unfolding link_json_def by (rule present_key [of _ "JStr (contradiction_state_str s)"]) (simp add: link_fields_def opt_def Some)
  then show ?thesis using Some by (auto simp: evidence_keys_def)
qed

lemma link_strict:
  "snd (validateEvidenceLink (link_json l) i) = [] \<longleftrightarrow> contradictionState l = None \<and> fromCardId l \<noteq> toCardId l \<and>
     (\<forall>t. link_note l = Some t \<longrightarrow> length t \<le> EVIDENCE_NOTE_MAX_LENGTH)"
  unfolding validateEvidenceLink_def Let_def
  by (simp add: written link_keys del: not_None_eq) (auto simp: link_json_def link_fields_def written strict_eq_def)

lemma link_projected:
  "snd (validateEvidenceLink (link_json l) i) = [] \<Longrightarrow> snd (validateEvidenceLink (link_json (sanitizeEvidenceLink l)) i) = []"
  unfolding link_strict by (auto simp: sanitizeEvidenceLink_def EVIDENCE_NOTE_MAX_LENGTH_def intro!: length_redact)

lemma critique_projected:
  "snd (validateCritiqueInput dp (critique_json c) i) = [] \<Longrightarrow> snd (validateCritiqueInput dp (critique_json (sanitizeCritiqueInput c)) i) = []"
  unfolding critique_json_def
  by (simp add: validateCritiqueInput_def written keys_written sanitizeCritiqueInput_def option.map_comp del: not_None_eq)

lemma starts_with_split: "starts_with p s \<Longrightarrow> s = p @ drop (length p) s"
  unfolding starts_with_def by (metis append_take_drop_id)

lemma already_redactedE:
  assumes "already_redacted t"
  obtains "t = REDACTED"
    | rest where "t = REDACTED @ '' (len:'' @ rest" "rest \<noteq> []" "last rest = CHR '')''" "list_all decimal_digit (butlast rest)"
proof (cases "t = REDACTED")
  case False
  define rest where "rest = drop (length (REDACTED @ '' (len:'')) t"
  have r: "starts_with (REDACTED @ '' (len:'') t" "rest \<noteq> []" "last rest = CHR '')''" "list_all decimal_digit (butlast rest)"
    using assms False unfolding already_redacted_def Let_def rest_def by blast+
  show thesis by (rule that(2) [OF _ r(2-4)]) (use starts_with_split [OF r(1)] in \<open>simp only: rest_def append_assoc\<close>)
qed (rule that(1))

lemma redact_chars: "CHR ''@'' \<notin> set (redact s)"
proof -
  have "CHR ''@'' \<notin> set t" if "already_redacted t" for t
    using that
  proof (cases rule: already_redactedE)
    case (2 rest)
    have "set rest = insert (last rest) (set (butlast rest))"
      using 2(2) by (metis append_butlast_last_id list.simps(15) rotate1.simps(2) set_rotate1)
    moreover have "CHR ''@'' \<notin> set (butlast rest)"
    proof
      assume "CHR ''@'' \<in> set (butlast rest)"
      then have "decimal_digit (CHR ''@'')" using 2(4) unfolding list_all_iff by blast
      then show False by (simp add: decimal_digit_def)
    qed
    ultimately have "CHR ''@'' \<notin> set rest" using 2(3) by simp
    then show ?thesis unfolding 2(1) by (simp add: REDACTED_def)
  qed (simp add: REDACTED_def)
  then show ?thesis by simp
qed

lemma redact_first: "\<exists>cs. redact s = CHR ''['' # cs"
  by (rule already_redactedE [OF already_redacted_redact [of s]]) (simp_all add: REDACTED_def)

lemma redact_opaque: "opaque_ref (JStr (redact s))" "isNonEmptyString (JStr (redact s))"
proof -
  show "opaque_ref (JStr (redact s))"
    using redact_chars [of s] redact_first [of s] by (auto simp: opaque_ref_def isOpaqueRef_def NON_OPAQUE_REF_PREFIXES_def starts_with_def)
  have "dropWhile js_ws (CHR ''['' # cs) = CHR ''['' # cs" for cs by (simp add: js_ws_def)
  then show "isNonEmptyString (JStr (redact s))"
    using redact_first [of s] by (auto simp: isNonEmptyString_def trim_def dropWhile_eq_Nil_conv js_ws_def)
qed

lemma attribution_projected:
  assumes "snd (validateReviewAttribution dp (attribution_json a)) = []"
  shows "snd (validateReviewAttribution dp (attribution_json (sanitizeReviewAttribution a))) = []"
proof -
  have undef: "opaque_ref JUndef" by (simp add: opaque_ref_def)
  show ?thesis
    using assms unfolding attribution_json_def
    by (simp add: validateReviewAttribution_def written keys_written sanitizeReviewAttribution_def redact_opaque undef del: not_None_eq split: if_splits)
qed

lemma narrative_strict:
  "snd (validateNarrative (narrative_json n) i) = [] \<longleftrightarrow> length (narr_title n) \<le> NARRATIVE_TITLE_MAX_LENGTH \<and> length (narr_text n) \<le> NARRATIVE_TEXT_MAX_LENGTH"
  unfolding narrative_json_def by (simp add: validateNarrative_def written keys_written del: not_None_eq)

lemma narrative_projected:
  "snd (validateNarrative (narrative_json n) i) = [] \<Longrightarrow> snd (validateNarrative (narrative_json (sanitizeNarrative n)) i) = []"
  unfolding narrative_strict
  by (auto simp: sanitizeNarrative_def NARRATIVE_TITLE_MAX_LENGTH_def NARRATIVE_TEXT_MAX_LENGTH_def intro!: length_redact)

lemma merge_decision_strict: "snd (validateMergeSuggestionDecisionEntry (merge_decision_json e) i) = []"
  unfolding merge_decision_json_def
  by (simp add: validateMergeSuggestionDecisionEntry_def written keys_written del: not_None_eq)

lemma transform_strict: "snd (validate_transform (transform_json t)) = []"
  by (simp add: validate_transform_def transform_json_def written keys_written del: not_None_eq)

lemma link_raw:
  "as_string (js_prop (link_json (sanitizeEvidenceLink l)) ''id'') = as_string (js_prop (link_json l) ''id'')"
  "raw_key (link_json (sanitizeEvidenceLink l)) = raw_key (link_json l)"
  by (simp_all add: raw_key_def link_json_def link_fields_def read_back sanitizeEvidenceLink_def)

lemma evidence_projected:
  "evidence_errors ids tuples i (map link_json ls) = [] \<Longrightarrow> evidence_errors ids tuples i (map (\<lambda>l. link_json (sanitizeEvidenceLink l)) ls) = []"
proof (induction ls arbitrary: ids tuples i)
  case (Cons l ls)
  then have ok: "snd (validateEvidenceLink (link_json l) i) = []" by (simp add: Let_def)
  note s = link_projected [OF ok]
  show ?case using Cons link_accepted(1) [OF ok] link_accepted(1) [OF s] s by (simp add: Let_def link_raw split: if_splits)
qed simp

lemma shelf_entry_projected:
  "snd (validateShelfEntry dp (shelf_json e) i) = [] \<Longrightarrow> snd (validateShelfEntry dp (shelf_json (sanitizeShelfEntry e)) i) = []"
  unfolding shelf_json_def
  by (simp add: validateShelfEntry_def written keys_written sanitizeShelfEntry_def del: not_None_eq)

lemma shelf_raw: "js_prop (shelf_json (sanitizeShelfEntry e)) ''cardId'' = js_prop (shelf_json e) ''cardId''"
  by (simp add: shelf_json_def read_back sanitizeShelfEntry_def)

lemma shelf_projected:
  assumes "shelf_errors dp m seen i (map shelf_json es) = []"
    and same: "\<And>k. map_option (\<lambda>c. js_prop c ''holdState'') (map_of m' k) = map_option (\<lambda>c. js_prop c ''holdState'') (map_of m k)"
  shows "shelf_errors dp m' seen i (map (\<lambda>e. shelf_json (sanitizeShelfEntry e)) es) = []"
  using assms(1)
proof (induction es arbitrary: seen i)
  case (Cons e es)
  let ?k = "the (as_string (js_prop (shelf_json e) ''cardId''))"
  from Cons.prems have ok: "snd (validateShelfEntry dp (shelf_json e) i) = []" by (simp add: Let_def)
  note s = shelf_entry_projected [OF ok]
  from Cons.prems shelf_entry_accepted(1) [OF ok] obtain c where c: "?k \<notin> set seen" "map_of m ?k = Some c" "js_prop c ''holdState'' = JStr ''shelved''"
    and rest: "shelf_errors dp m (js_add ?k seen) (Suc i) (map shelf_json es) = []"
    by (simp add: Let_def split: if_splits option.splits)
  obtain c' where "map_of m' ?k = Some c'" "js_prop c' ''holdState'' = JStr ''shelved''" using same [of ?k] c by auto
  then show ?case using Cons.IH [OF rest] s shelf_entry_accepted(1) [OF s] c(1) by (simp add: Let_def shelf_raw)
qed simp

lemma raw_cards_written: "raw_cards_by_id (jlist card_json cs) = over card_json (new_map (map (\<lambda>c. (card_id c, c)) cs))"
proof -
  have "List.map_filter (\<lambda>c. if isRecord c then map_option (\<lambda>i. (i, c)) (as_string (js_prop c ''id'')) else None) (map card_json cs) =
      map (\<lambda>c. (card_id c, card_json c)) cs"
    by (induction cs) (simp_all add: List.map_filter_simps card_json_def card_fields_def read_back)
  then show ?thesis using new_map_over [of card_id card_json id cs] by (simp add: raw_cards_by_id_def jlist_def)
qed

lemma hold_state_raw: "js_prop (card_json (sanitizeCard c inc)) ''holdState'' = js_prop (card_json c) ''holdState''"
  by (simp add: card_json_def card_fields_def read_back sanitizeCard_def)

lemma raw_cards_projected:
  "map_option (\<lambda>c. js_prop c ''holdState'') (map_of (raw_cards_by_id (jlist card_json (map (\<lambda>c. sanitizeCard c inc) cs))) k) =
   map_option (\<lambda>c. js_prop c ''holdState'') (map_of (raw_cards_by_id (jlist card_json cs)) k)"
proof -
  have "new_map (map (\<lambda>c. (card_id c, c)) (map (\<lambda>c. sanitizeCard c inc) cs)) = over (\<lambda>c. sanitizeCard c inc) (new_map (map (\<lambda>c. (card_id c, c)) cs))"
    using new_map_over [of card_id "\<lambda>c. sanitizeCard c inc" id cs] by (simp add: o_def)
  then show ?thesis
    unfolding raw_cards_written by (simp only: map_of_over option.map_comp o_def hold_state_raw)
qed

section \<open>The document\<close>

lemma document_props:
  "js_prop (document_json d) ''version'' = JNum (Finite 1)" "js_prop (document_json d) ''id'' = JStr (doc_id d)"
  "js_prop (document_json d) ''title'' = nullish (map_option JStr (doc_title d)) JUndef"
  "js_prop (document_json d) ''createdAt'' = JStr (doc_createdAt d)" "js_prop (document_json d) ''updatedAt'' = JStr (updatedAt d)"
  "js_prop (document_json d) ''transform'' = transform_json (doc_transform d)"
  "js_prop (document_json d) ''cards'' = jlist card_json (cards d)" "js_prop (document_json d) ''edges'' = jlist edge_json (edges d)"
  "js_prop (document_json d) ''islands'' = jlist island_json (islands d)"
  "js_prop (document_json d) ''readingOrder'' = nullish (map_option jstrs (readingOrder d)) JUndef"
  "js_prop (document_json d) ''narratives'' = nullish (map_option (jlist narrative_json) (narratives d)) JUndef"
  "js_prop (document_json d) ''relationSummaries'' = nullish (map_option (jlist relation_json) (relationSummaries d)) JUndef"
  "js_prop (document_json d) ''evidenceLinks'' = nullish (map_option (jlist link_json) (evidenceLinks d)) JUndef"
  "js_prop (document_json d) ''patchApplyLog'' = nullish (map_option (jlist log_json) (patchApplyLog d)) JUndef"
  "js_prop (document_json d) ''mergeSuggestionDecisions'' = nullish (map_option (jlist merge_decision_json) (mergeSuggestionDecisions d)) JUndef"
  "js_prop (document_json d) ''contradictionSignalDecisions'' = nullish (map_option (jlist signal_json) (signalDecisions d)) JUndef"
  "js_prop (document_json d) ''critiqueInputs'' = nullish (map_option (jlist critique_json) (critiqueInputs d)) JUndef"
  "js_prop (document_json d) ''reproposalDiffs'' = nullish (map_option (jlist diff_json) (reproposalDiffs d)) JUndef"
  "js_prop (document_json d) ''reviewAttribution'' = nullish (map_option attribution_json (reviewAttribution d)) JUndef"
  "js_prop (document_json d) ''deterministicTieBreak'' = nullish (map_option tie_break_json (deterministicTieBreak d)) JUndef"
  "js_prop (document_json d) ''shelf'' = nullish (map_option (jlist shelf_json) (shelf d)) JUndef"
  unfolding document_json_def by (simp_all add: document_fields_def read_back jnat_def jrat_def)

lemma document_keys_written: "set (object_keys (document_json d)) \<subseteq> set document_keys \<longleftrightarrow> voids d = None"
proof (cases "voids d")
  case None
  have "present (fs @ [(''voids'', None)]) = present fs" for fs by (induction fs rule: present.induct) auto
  moreover have "document_fields d = butlast (document_fields d) @ [(''voids'', None)]" by (simp add: document_fields_def opt_def None)
  ultimately have "document_json d = obj (butlast (document_fields d))" unfolding document_json_def obj_def by metis
  moreover have "fst ` set (butlast (document_fields d)) \<subseteq> set document_keys"
    by (simp add: document_fields_def opt_def req_def document_keys_def)
  ultimately show ?thesis using None keys_written by simp
next
  case (Some vs)
  have "''voids'' \<in> set (object_keys (document_json d))"
    unfolding document_json_def by (rule present_key [of _ "jlist void_json vs"]) (simp add: document_fields_def opt_def Some)
  then show ?thesis using Some by (auto simp: document_keys_def)
qed

lemma list_written:
  "snd (list_part v k f) = [] \<longleftrightarrow> (\<forall>i<length xs. snd (f (g (xs ! i)) i) = [])" if "js_prop v k = jlist g xs"
  using that by (simp add: list_part_ok jlist_def as_array_def)

lemma opt_list_written:
  "snd (opt_list_part v k f) = [] \<longleftrightarrow> (\<forall>i<length (nullish x []). snd (f (g (nullish x [] ! i)) i) = [])"
  if "js_prop v k = nullish (map_option (jlist g) x) JUndef"
  using that by (cases x) (simp_all add: opt_list_part_ok jlist_def as_array_def)

lemma shelf_written: "js_prop v k = nullish (map_option (jlist g) x) JUndef \<Longrightarrow>
    snd (when_given (js_prop v k) (case as_array (js_prop v k) of None \<Rightarrow> (False, [e]) | Some vs \<Rightarrow> (True, f vs))) = [] \<longleftrightarrow>
    x = None \<or> f (map g (the x)) = []"
  by (cases x) (simp_all add: when_given_ok jlist_def as_array_def)

lemma given_part: "js_prop v k = nullish (map_option g x) JUndef \<Longrightarrow> (\<And>a. g a \<noteq> JUndef) \<Longrightarrow>
    snd (when_given (js_prop v k) (f (js_prop v k))) = [] \<longleftrightarrow> x = None \<or> snd (f (g (the x))) = []"
  by (cases x) (simp_all add: when_given_ok)

lemma document_strict:
  "strict_errors dp (document_json d) = [] \<longleftrightarrow>
     voids d = None \<and> (\<forall>t. doc_title d = Some t \<longrightarrow> length t \<le> DOCUMENT_TITLE_MAX_LENGTH) \<and>
     (\<forall>i<length (cards d). snd (validateCard (card_json (cards d ! i)) i) = []) \<and>
     (\<forall>i<length (edges d). snd (validateEdge (edge_json (edges d ! i)) i) = []) \<and>
     (\<forall>i<length (islands d). snd (validateIsland (island_json (islands d ! i)) i) = []) \<and>
     (\<forall>i<length (nullish (narratives d) []). snd (validateNarrative (narrative_json (nullish (narratives d) [] ! i)) i) = []) \<and>
     (shelf d = None \<or> shelf_errors dp (raw_cards_by_id (jlist card_json (cards d))) [] 0 (map shelf_json (the (shelf d))) = []) \<and>
     (\<forall>i<length (nullish (relationSummaries d) []). snd (validateRelationSummary (relation_json (nullish (relationSummaries d) [] ! i)) i) = []) \<and>
     (evidenceLinks d = None \<or> evidence_errors [] [] 0 (map link_json (the (evidenceLinks d))) = []) \<and>
     (\<forall>i<length (nullish (patchApplyLog d) []). snd (validatePatchApplyLogEntry (log_json (nullish (patchApplyLog d) [] ! i)) i) = []) \<and>
     (\<forall>i<length (nullish (signalDecisions d) []). snd (validateContradictionSignalDecisionEntry (signal_json (nullish (signalDecisions d) [] ! i)) i) = []) \<and>
     (\<forall>i<length (nullish (critiqueInputs d) []). snd (validateCritiqueInput dp (critique_json (nullish (critiqueInputs d) [] ! i)) i) = []) \<and>
     (\<forall>i<length (nullish (reproposalDiffs d) []). snd (validateReproposalDiff (diff_json (nullish (reproposalDiffs d) [] ! i)) i) = []) \<and>
     (reviewAttribution d = None \<or> snd (validateReviewAttribution dp (attribution_json (the (reviewAttribution d)))) = []) \<and>
     (deterministicTieBreak d = None \<or> snd (validateDeterministicTieBreak (tie_break_json (the (deterministicTieBreak d)))) = [])"
proof -
  note lists = list_written [OF document_props(7)] list_written [OF document_props(8)] list_written [OF document_props(9)]
    opt_list_written [OF document_props(11)] opt_list_written [OF document_props(12)] opt_list_written [OF document_props(14)]
    opt_list_written [OF document_props(15)] opt_list_written [OF document_props(16)] opt_list_written [OF document_props(17)]
    opt_list_written [OF document_props(18)] shelf_written [OF document_props(13)] shelf_written [OF document_props(21)]
  have given: "attribution_json a \<noteq> JUndef" "tie_break_json t \<noteq> JUndef" for a t
    by (simp_all add: attribution_json_def tie_break_json_def)
  note given_parts = given_part [OF document_props(19) given(1), where f = "validateReviewAttribution dp"]
    given_part [OF document_props(20) given(2), where f = validateDeterministicTieBreak]
  show ?thesis
    unfolding strict_errors_def all_of_ok list.pred_inject lists given_parts
    by (simp add: document_props check_ok hasOnlyKeys_ok document_keys_written fields_def no_error given_written merge_decision_strict
        transform_strict raw_cards_by_id_def del: not_None_eq)
qed

section \<open>The projection stays strictly valid\<close>

lemma nullish_map: "nullish (map_option (map f) x) [] = map f (nullish x [])"
  by (cases x) simp_all

lemma all_projected:
  "(\<And>x i. P (g x) i \<Longrightarrow> P (g (s x)) i) \<Longrightarrow> \<forall>i<length xs. P (g (xs ! i)) i \<Longrightarrow> \<forall>i<length (map s xs). P (g (map s xs ! i)) i"
  by simp

lemma strict_errors_projected:
  assumes "strict_errors dp (document_json d) = []"
  shows "strict_errors dp (document_json (deriveDocumentSafeModeProjection inc d)) = []"
proof -
  let ?p = "deriveDocumentSafeModeProjection inc d"
  note parts = assms [unfolded document_strict]
  have shelf: "shelf_errors dp (raw_cards_by_id (jlist card_json (cards ?p))) [] 0 (map shelf_json (the (shelf ?p))) = []" if "shelf d \<noteq> None"
    using that parts shelf_projected [OF _ raw_cards_projected]
    by (auto simp: deriveDocumentSafeModeProjection_def o_def)
  have evidence: "evidence_errors [] [] 0 (map link_json (the (evidenceLinks ?p))) = []" if "evidenceLinks d \<noteq> None"
    using that parts evidence_projected by (auto simp: deriveDocumentSafeModeProjection_def o_def)
  show ?thesis
    unfolding document_strict
  proof (intro conjI)
    show "voids ?p = None" using parts by (simp add: deriveDocumentSafeModeProjection_def)
    show "\<forall>t. doc_title ?p = Some t \<longrightarrow> length t \<le> DOCUMENT_TITLE_MAX_LENGTH"
      using parts by (auto simp: deriveDocumentSafeModeProjection_def DOCUMENT_TITLE_MAX_LENGTH_def intro!: length_redact)
    show "shelf ?p = None \<or> shelf_errors dp (raw_cards_by_id (jlist card_json (cards ?p))) [] 0 (map shelf_json (the (shelf ?p))) = []"
      using shelf by (cases "shelf d") (simp_all add: deriveDocumentSafeModeProjection_def)
    show "evidenceLinks ?p = None \<or> evidence_errors [] [] 0 (map link_json (the (evidenceLinks ?p))) = []"
      using evidence by (cases "evidenceLinks d") (simp_all add: deriveDocumentSafeModeProjection_def)
    show "reviewAttribution ?p = None \<or> snd (validateReviewAttribution dp (attribution_json (the (reviewAttribution ?p)))) = []"
      using parts attribution_projected by (cases "reviewAttribution d") (simp_all add: deriveDocumentSafeModeProjection_def)
    show "deterministicTieBreak ?p = None \<or> snd (validateDeterministicTieBreak (tie_break_json (the (deterministicTieBreak ?p)))) = []"
      using parts by (cases "deterministicTieBreak d") (simp_all add: deriveDocumentSafeModeProjection_def cloneTieBreak_def)
  qed (use parts card_projected edge_projected island_projected narrative_projected relation_projected log_projected critique_projected in
      \<open>simp_all add: deriveDocumentSafeModeProjection_def nullish_map\<close>)
qed

text \<open>C24. A document that the strict reader of \<open>document_v1_strict.ts\<close> accepts is still accepted when SafeMode has projected it, whatever
  the source-reference choice: no placeholder exceeds a length limit, becomes an empty identifier or a refused reference, and no record
  the reader compares (shelf against cards, evidence tuples) falls out of step.\<close>

theorem projection_stays_strict:
  assumes "validateDocumentV1Strict dateParse (document_json d) = Inr v"
  shows "validateDocumentV1Strict dateParse (document_json (deriveDocumentSafeModeProjection inc d)) =
    Inr (document_json (deriveDocumentSafeModeProjection inc d))"
proof -
  have "isRecord (document_json e)" for e by (simp add: document_json_def)
  then show ?thesis using assms strict_errors_projected by (simp add: accepted_no_error)
qed

definition ex_kept :: document where
  "ex_kept = (mk_doc [mk_card ''c1'' ''a secret'' 0 0] [mk_edge ''e1'' ''c1'' ''c1'' ''related''] [])\<lparr>doc_title := Some ''plan''\<rparr>"

theorem projection_stays_strict_witness:
  "validateDocumentV1Strict no_dates (document_json ex_kept) = Inr (document_json ex_kept) \<and>
   validateDocumentV1Strict no_dates (document_json (deriveDocumentSafeModeProjection None ex_kept)) =
     Inr (document_json (deriveDocumentSafeModeProjection None ex_kept)) \<and>
   doc_title (deriveDocumentSafeModeProjection None ex_kept) = Some ''[REDACTED] (len:4)''"
proof -
  have "strict_errors no_dates (document_json ex_kept) = []"
    unfolding document_strict
    by (simp add: ex_kept_def card_strict edge_strict CARD_TEXT_MAX_LENGTH_def DOCUMENT_TITLE_MAX_LENGTH_def)
  then have ok: "validateDocumentV1Strict no_dates (document_json ex_kept) = Inr (document_json ex_kept)"
    by (simp add: accepted_no_error document_json_def)
  have "redact ''plan'' = ''[REDACTED] (len:4)''" by code_simp
  then show ?thesis
    using projection_stays_strict [OF ok, of None] ok
    by (simp add: deriveDocumentSafeModeProjection_def ex_kept_def)
qed

end
