(* ===== verification/Bundle_Projection.thy ===== *)
theory Bundle_Projection
  imports Inquiry_Validate
begin

text \<open>
  \<open>domain/inquiry_bundle_projection.ts\<close>: the smallest self-contained bundle for one round and its ancestors. The walk over the
  parents is the loop of \<open>collectAncestorIds\<close>, started at the selected round. \<open>round_projection\<close> shows what the result contains,
  and that for a valid bundle the only ways to fail are an unknown round and a reference that leaves the scope: the
  validation of the result never reports anything.
\<close>

section \<open>The model\<close>

datatype projection_error = RoundNotFound | InvalidBundle "issue list" | DependencyOutsideScope "string list"

fun lineageAddresses :: "lineage_edge \<Rightarrow> card_address list \<times> card_address list" where
  "lineageAddresses (NewCard _ t) = ([], [t])"
| "lineageAddresses (Retired _ f) = ([f], [])"
| "lineageAddresses (OneToOne _ _ f t) = ([f], [t])"
| "lineageAddresses (Derived _ fs t) = (fs, [t])"
| "lineageAddresses (Split _ f ts) = ([f], ts)"
| "lineageAddresses (Merged _ fs t) = (fs, [t])"

definition collectRoundScope :: "inquiry_bundle \<Rightarrow> string \<Rightarrow> string list option" where
  "collectRoundScope b selectedRoundId =
     (let roundsById = rounds_by_id (roundRecords (journey b)) in
      if map_of roundsById selectedRoundId = None then None else Some (collect_loop roundsById [] [selectedRoundId]))"

definition snapshot_scope :: "string list \<Rightarrow> round_record list \<Rightarrow> string list" where
  "snapshot_scope origins rs =
     fold (\<lambda>r ids. let ids = fold js_add (inputSnapshotIds r) ids
                    in if truthy_str (outputSnapshotId r) then js_add (the (outputSnapshotId r)) ids else ids) rs (uniq origins)"

definition handoff_snapshots :: "round_handoff \<Rightarrow> string list" where
  "handoff_snapshots h = map ref_snapshotId (carryoverRefs h @ heldRefs h) @
     concat (map (\<lambda>q. case outcome q of None \<Rightarrow> [] | Some out \<Rightarrow> map addr_snapshotId (responseCardRefs out)) (fieldworkRequests h))"

definition outside_handoffs :: "string list \<Rightarrow> round_record list \<Rightarrow> string list" where
  "outside_handoffs ids rs =
     fold (\<lambda>r out. case handoff r of None \<Rightarrow> out | Some h \<Rightarrow> fold js_add (filter (\<lambda>s. s \<notin> set ids) (handoff_snapshots h)) out) rs []"

definition edge_in_scope :: "string list \<Rightarrow> lineage_edge \<Rightarrow> bool" where
  "edge_in_scope ids e =
     (let (from, to) = lineageAddresses e in
      \<not> (length to > 0 \<and> \<not> list_ex (\<lambda>a. addr_snapshotId a \<in> set ids) to) \<and>
      \<not> (length to = 0 \<and> \<not> list_ex (\<lambda>a. addr_snapshotId a \<in> set ids) from))"

definition edge_outside :: "string list \<Rightarrow> lineage_edge \<Rightarrow> string list" where
  "edge_outside ids e =
     (let (from, to) = lineageAddresses e in filter (\<lambda>s. s \<notin> set ids) (map addr_snapshotId (from @ to)))"

definition lineage_step :: "string list \<Rightarrow> lineage_edge \<Rightarrow> string list \<times> lineage_edge list \<Rightarrow> string list \<times> lineage_edge list" where
  "lineage_step ids e st =
     (let (out, included) = st in
      if \<not> edge_in_scope ids e then (out, included)
      else if length (edge_outside ids e) > 0 then (fold js_add (edge_outside ids e) out, included)
      else (out, included @ [e]))"

definition deriveInquiryRoundBundle ::
  "(string \<Rightarrow> int option) \<Rightarrow> inquiry_bundle \<Rightarrow> string \<Rightarrow> projection_error + inquiry_bundle" where
  "deriveInquiryRoundBundle dateParse source selectedRoundId =
     (let sourceIssues = validateInquiryBundle dateParse source in
      if length sourceIssues > 0 then Inl (InvalidBundle sourceIssues)
      else case collectRoundScope source selectedRoundId of
        None \<Rightarrow> Inl RoundNotFound
      | Some includedRoundIds \<Rightarrow>
          let includedRounds = filter (\<lambda>r. roundId r \<in> set includedRoundIds) (roundRecords (journey source));
              ids = snapshot_scope (originSnapshotIds (journey source)) includedRounds;
              (outside, includedLineage) = fold (lineage_step ids) (cardLineage source) (outside_handoffs ids includedRounds, [])
          in if length outside > 0 then Inl (DependencyOutsideScope (sort_by code_unit_le outside))
             else let projected = source\<lparr>
                        journey := (journey source)\<lparr>roundRecords := includedRounds, headRoundIds := [selectedRoundId],
                                                      defaultHeadRoundId := Some selectedRoundId\<rparr>,
                        snapshots := filter (\<lambda>s. snapshotId s \<in> set ids) (snapshots source),
                        cardLineage := includedLineage\<rparr>;
                      projectedIssues = validateInquiryBundle dateParse projected
                  in if length projectedIssues > 0 then Inl (InvalidBundle projectedIssues) else Inr projected)"

section \<open>Scope\<close>

definition round_scope :: "round_record list \<Rightarrow> string \<Rightarrow> string set" where
  "round_scope rs sel = {i. (sel, i) \<in> (round_rel rs)\<^sup>*}"

lemma collectRoundScope_eq:
  assumes "distinct (map roundId (roundRecords (journey b)))"
  shows "case collectRoundScope b sel of None \<Rightarrow> sel \<notin> roundId ` set (roundRecords (journey b))
     | Some ids \<Rightarrow> sel \<in> roundId ` set (roundRecords (journey b)) \<and> set ids = round_scope (roundRecords (journey b)) sel"
proof (cases "map_of (rounds_by_id (roundRecords (journey b))) sel")
  case None
  then show ?thesis using dom_rounds_by_id [of "roundRecords (journey b)"] by (auto simp: collectRoundScope_def)
next
  case (Some r)
  then have "sel \<in> roundId ` set (roundRecords (journey b))" using dom_rounds_by_id [of "roundRecords (journey b)"] by auto
  then show ?thesis
    using Some collect_loop_correct [of "[]" "rounds_by_id (roundRecords (journey b))" "[sel]"]
    by (auto simp: collectRoundScope_def round_scope_def parent_rel_rounds [OF assms] Let_def)
qed

lemma set_snapshot_scope: "set (snapshot_scope og rs) = set og \<union> (\<Union>r\<in>set rs. set (inputSnapshotIds r)) \<union> set (output_list rs)"
proof -
  have "set (fold (\<lambda>r ids. let ids = fold js_add (inputSnapshotIds r) ids
        in if truthy_str (outputSnapshotId r) then js_add (the (outputSnapshotId r)) ids else ids) rs ids) =
      set ids \<union> (\<Union>r\<in>set rs. set (inputSnapshotIds r)) \<union> set (output_list rs)" for ids
    by (induction rs arbitrary: ids) (auto simp: output_list_def Let_def)
  then show ?thesis by (simp add: snapshot_scope_def)
qed

lemma set_outside_handoffs:
  "set (outside_handoffs ids rs) = {s. \<exists>r\<in>set rs. \<exists>h. handoff r = Some h \<and> s \<in> set (handoff_snapshots h)} - set ids"
proof -
  have "set (fold (\<lambda>r out. case handoff r of None \<Rightarrow> out | Some h \<Rightarrow> fold js_add (filter (\<lambda>s. s \<notin> set ids) (handoff_snapshots h)) out) rs out) =
      set out \<union> ({s. \<exists>r\<in>set rs. \<exists>h. handoff r = Some h \<and> s \<in> set (handoff_snapshots h)} - set ids)" for out
    by (induction rs arbitrary: out) (auto split: option.splits)
  then show ?thesis by (simp add: outside_handoffs_def)
qed

lemma lineage_fold:
  "set (fst (fold (lineage_step ids) es st)) = set (fst st) \<union> (\<Union>e\<in>{e\<in>set es. edge_in_scope ids e}. set (edge_outside ids e))"
  "snd (fold (lineage_step ids) es st) = snd st @ filter (\<lambda>e. edge_in_scope ids e \<and> edge_outside ids e = []) es"
  by (induction es arbitrary: st) (auto simp: lineage_step_def Let_def case_prod_beta)

lemma lineageAddresses_eq: "lineageAddresses e = getLineageAddresses e"
  by (cases e) simp_all

section \<open>Rounds in scope\<close>

abbreviation scoped :: "round_record list \<Rightarrow> string \<Rightarrow> round_record list" where
  "scoped rs sel \<equiv> filter (\<lambda>r. roundId r \<in> round_scope rs sel) rs"

lemma scope_self: "sel \<in> round_scope rs sel"
  by (simp add: round_scope_def)

lemma scope_closed: "i \<in> round_scope rs sel \<Longrightarrow> (i, p) \<in> (round_rel rs)\<^sup>* \<Longrightarrow> p \<in> round_scope rs sel"
  by (auto simp: round_scope_def)

lemma round_rel_scoped: "(i, p) \<in> round_rel (scoped rs sel) \<longleftrightarrow> (i, p) \<in> round_rel rs \<and> i \<in> round_scope rs sel"
  by (auto simp: round_rel_def)

lemma reach_scoped:
  assumes "i \<in> round_scope rs sel"
  shows "(i, p) \<in> (round_rel (scoped rs sel))\<^sup>+ \<longleftrightarrow> (i, p) \<in> (round_rel rs)\<^sup>+"
proof
  assume "(i, p) \<in> (round_rel (scoped rs sel))\<^sup>+"
  then show "(i, p) \<in> (round_rel rs)\<^sup>+" by (rule trancl_mono) (auto simp: round_rel_scoped)
next
  assume "(i, p) \<in> (round_rel rs)\<^sup>+"
  then show "(i, p) \<in> (round_rel (scoped rs sel))\<^sup>+"
  proof (induction rule: trancl_induct)
    case (base p)
    then show ?case using assms by (intro r_into_trancl) (simp add: round_rel_scoped)
  next
    case (step p q)
    have "p \<in> round_scope rs sel" using scope_closed [OF assms] step.hyps(1) by (simp add: trancl_into_rtrancl)
    then have "(p, q) \<in> round_rel (scoped rs sel)" using step.hyps(2) by (simp add: round_rel_scoped)
    with step.IH show ?case by (rule trancl_into_trancl)
  qed
qed

lemma scope_ids:
  assumes "rounds_ok rs" and "sel \<in> roundId ` set rs"
  shows "roundId ` set (scoped rs sel) = round_scope rs sel"
proof
  show "round_scope rs sel \<subseteq> roundId ` set (scoped rs sel)"
  proof
    fix i assume i: "i \<in> round_scope rs sel"
    then have "(sel, i) \<in> (round_rel rs)\<^sup>*" by (simp add: round_scope_def)
    then have "i \<in> roundId ` set rs"
      by (cases rule: rtranclE) (use assms in \<open>auto simp: round_rel_def rounds_ok_def\<close>)
    with i show "i \<in> roundId ` set (scoped rs sel)" by auto
  qed
qed auto

lemma rounds_ok_scoped:
  assumes "rounds_ok rs" and "sel \<in> roundId ` set rs"
  shows "rounds_ok (scoped rs sel)"
proof -
  let ?rs = "scoped rs sel"
  have "distinct (map roundId ?rs)" using assms(1) by (simp add: rounds_ok_def distinct_map_filter)
  moreover have "distinct (parentRoundIds r) \<and> set (parentRoundIds r) \<subseteq> roundId ` set ?rs" if "r \<in> set ?rs" for r
  proof
    have r: "r \<in> set rs" "roundId r \<in> round_scope rs sel" using that by auto
    show "distinct (parentRoundIds r)" using assms(1) r(1) unfolding rounds_ok_def by blast
    have "(roundId r, p) \<in> (round_rel rs)\<^sup>*" if "p \<in> set (parentRoundIds r)" for p
      using that r(1) by (intro r_into_rtrancl) (auto simp: round_rel_def)
    then show "set (parentRoundIds r) \<subseteq> roundId ` set ?rs" unfolding scope_ids [OF assms] using scope_closed [OF r(2)] by blast
  qed
  moreover have "acyclic (round_rel ?rs)"
    using assms(1) unfolding rounds_ok_def by (elim conjE acyclic_subset) (auto simp: round_rel_scoped)
  moreover have "iteration r = Max (insert 0 {iteration q | q. q \<in> set ?rs \<and> (roundId r, roundId q) \<in> (round_rel ?rs)\<^sup>+ \<and> stage q = stage r}) + 1"
    if "r \<in> set ?rs" for r
  proof -
    have r: "roundId r \<in> round_scope rs sel" "r \<in> set rs" using that by auto
    have "q \<in> set ?rs \<and> (roundId r, roundId q) \<in> (round_rel ?rs)\<^sup>+ \<longleftrightarrow> q \<in> set rs \<and> (roundId r, roundId q) \<in> (round_rel rs)\<^sup>+" for q
      using reach_scoped [OF r(1)] scope_closed [OF r(1)] by (auto intro: trancl_into_rtrancl)
    then have eq: "{iteration q | q. q \<in> set ?rs \<and> (roundId r, roundId q) \<in> (round_rel ?rs)\<^sup>+ \<and> stage q = stage r} =
        {iteration q | q. q \<in> set rs \<and> (roundId r, roundId q) \<in> (round_rel rs)\<^sup>+ \<and> stage q = stage r}" by blast
    have it: "\<forall>r\<in>set rs. iteration r =
        Max (insert 0 {iteration q | q. q \<in> set rs \<and> (roundId r, roundId q) \<in> (round_rel rs)\<^sup>+ \<and> stage q = stage r}) + 1"
      using assms(1) unfolding rounds_ok_def by blast
    show ?thesis unfolding eq by (rule bspec [OF it r(2)])
  qed
  ultimately show ?thesis unfolding rounds_ok_def by blast
qed

lemma leaves_scoped:
  assumes "rounds_ok rs" and "sel \<in> roundId ` set rs"
  shows "leaves (scoped rs sel) = {sel}"
proof -
  let ?rs = "scoped rs sel"
  have ac: "(i, i) \<notin> (round_rel rs)\<^sup>+" for i using assms(1) by (auto simp: rounds_ok_def acyclic_def)
  have parents: "(\<Union>r\<in>set ?rs. set (parentRoundIds r)) = round_scope rs sel - {sel}"
  proof
    show "(\<Union>r\<in>set ?rs. set (parentRoundIds r)) \<subseteq> round_scope rs sel - {sel}"
    proof
      fix p assume "p \<in> (\<Union>r\<in>set ?rs. set (parentRoundIds r))"
      then obtain r where r: "r \<in> set rs" "(sel, roundId r) \<in> (round_rel rs)\<^sup>*" "(roundId r, p) \<in> round_rel rs"
        by (auto simp: round_scope_def round_rel_def)
      then have "(sel, p) \<in> (round_rel rs)\<^sup>+" by (auto intro: rtrancl_into_trancl1)
      then show "p \<in> round_scope rs sel - {sel}" using ac by (auto simp: round_scope_def intro: trancl_into_rtrancl)
    qed
    show "round_scope rs sel - {sel} \<subseteq> (\<Union>r\<in>set ?rs. set (parentRoundIds r))"
    proof
      fix p assume "p \<in> round_scope rs sel - {sel}"
      then obtain i where "(sel, i) \<in> (round_rel rs)\<^sup>*" "(i, p) \<in> round_rel rs" by (auto simp: round_scope_def elim: rtranclE)
      then show "p \<in> (\<Union>r\<in>set ?rs. set (parentRoundIds r))" by (auto simp: round_scope_def round_rel_def)
    qed
  qed
  show ?thesis unfolding leaves_def scope_ids [OF assms] parents using scope_self by auto
qed

section \<open>The projected bundle is valid\<close>

definition in_scope_bundle :: "inquiry_bundle \<Rightarrow> string \<Rightarrow> string list \<Rightarrow> inquiry_bundle" where
  "in_scope_bundle b sel ids = b\<lparr>
     journey := (journey b)\<lparr>roundRecords := scoped (roundRecords (journey b)) sel, headRoundIds := [sel], defaultHeadRoundId := Some sel\<rparr>,
     snapshots := filter (\<lambda>s. snapshotId s \<in> set ids) (snapshots b),
     cardLineage := filter (\<lambda>e. edge_in_scope ids e \<and> edge_outside ids e = []) (cardLineage b)\<rparr>"

lemma scoped_fields:
  "bundle_schemaVersion (in_scope_bundle b sel ids) = bundle_schemaVersion b" "exportInfo (in_scope_bundle b sel ids) = exportInfo b"
  "journey_schemaVersion (journey (in_scope_bundle b sel ids)) = journey_schemaVersion (journey b)"
  "originSnapshotIds (journey (in_scope_bundle b sel ids)) = originSnapshotIds (journey b)"
  "roundRecords (journey (in_scope_bundle b sel ids)) = scoped (roundRecords (journey b)) sel"
  "headRoundIds (journey (in_scope_bundle b sel ids)) = [sel]" "defaultHeadRoundId (journey (in_scope_bundle b sel ids)) = Some sel"
  "journey_createdAt (journey (in_scope_bundle b sel ids)) = journey_createdAt (journey b)"
  "journey_updatedAt (journey (in_scope_bundle b sel ids)) = journey_updatedAt (journey b)"
  "snapshots (in_scope_bundle b sel ids) = filter (\<lambda>s. snapshotId s \<in> set ids) (snapshots b)"
  "cardLineage (in_scope_bundle b sel ids) = filter (\<lambda>e. edge_in_scope ids e \<and> edge_outside ids e = []) (cardLineage b)"
  by (simp_all add: in_scope_bundle_def)

lemma card_in_filter: "card_in (filter (\<lambda>s. snapshotId s \<in> I) ss) a \<longleftrightarrow> card_in ss a \<and> addr_snapshotId a \<in> I"
  by (auto simp: card_in_def)

lemma artifact_in_filter: "artifact_in (filter (\<lambda>s. snapshotId s \<in> I) ss) x \<longleftrightarrow> artifact_in ss x \<and> ref_snapshotId x \<in> I"
  by (auto simp: artifact_in_def)

lemma available_scoped:
  assumes "roundRecords j' = scoped (roundRecords j) sel" "originSnapshotIds j' = originSnapshotIds j" "i \<in> round_scope (roundRecords j) sel"
  shows "available j' i s \<longleftrightarrow> available j i s"
proof -
  have "(i, roundId q) \<in> (round_rel (roundRecords j))\<^sup>+ \<Longrightarrow> roundId q \<in> round_scope (roundRecords j) sel" for q
    using scope_closed [OF assms(3)] by (simp add: trancl_into_rtrancl)
  then show ?thesis unfolding available_def assms(1,2) reach_scoped [OF assms(3)] by auto
qed

lemma outputs_unique:
  assumes "distinct (output_list rs)" "q \<in> set rs" "q' \<in> set rs" "outputs q s" "outputs q' s"
  shows "q = q'"
  using find_unique [OF assms(1,2,4)] find_unique [OF assms(1,3,5)] by simp

lemma output_list_filter: "distinct (output_list rs) \<Longrightarrow> distinct (output_list (filter P rs))"
  unfolding output_list_def by (induction rs) (auto simp: image_iff)

lemma handoff_ok_filter:
  assumes "handoff_ok ss h" "set (handoff_snapshots h) \<subseteq> I"
  shows "handoff_ok (filter (\<lambda>s. snapshotId s \<in> I) ss) h"
  using assms unfolding handoff_ok_def artifact_in_filter card_in_filter handoff_snapshots_def by (force split: option.splits)

lemma scope_snapshots:
  assumes "bundle_ok dp b" "sel \<in> roundId ` set (roundRecords (journey b))"
    and ids: "set ids = set (snapshot_scope (originSnapshotIds (journey b)) (scoped (roundRecords (journey b)) sel))"
  shows "set ids = set (originSnapshotIds (journey b)) \<union> set (output_list (scoped (roundRecords (journey b)) sel))"
proof -
  let ?rs = "scoped (roundRecords (journey b)) sel"
  have "s \<in> set (originSnapshotIds (journey b)) \<union> set (output_list ?rs)" if "r \<in> set ?rs" "s \<in> set (inputSnapshotIds r)" for r s
  proof -
    have r: "r \<in> set (roundRecords (journey b))" "roundId r \<in> round_scope (roundRecords (journey b)) sel" using that(1) by auto
    have "available (journey b) (roundId r) s" using assms(1) r(1) that(2) unfolding bundle_ok_def by blast
    then show ?thesis
      unfolding available_def set_output_list using scope_closed [OF r(2)] by (auto intro: trancl_into_rtrancl)
  qed
  then show ?thesis unfolding ids set_snapshot_scope by blast
qed

lemma lineage_ok_scoped:
  assumes ok: "bundle_ok dp b" and sel: "sel \<in> roundId ` set (roundRecords (journey b))"
    and ids: "set ids = set (originSnapshotIds (journey b)) \<union> set (output_list (scoped (roundRecords (journey b)) sel))"
    and e: "e \<in> set (cardLineage b)" "edge_outside ids e = []"
  shows "lineage_ok (in_scope_bundle b sel ids) e"
proof -
  let ?rs = "roundRecords (journey b)"
  obtain fs ts where a: "getLineageAddresses e = (fs, ts)" by fastforce
  have inside: "addr_snapshotId x \<in> set ids" if "x \<in> set fs \<union> set ts" for x
    using e(2) that by (auto simp: edge_outside_def lineageAddresses_eq a filter_empty_conv)
  have e_ok: "lineage_ok b e" using ok e(1) unfolding bundle_ok_def by blast
  have "\<exists>q\<in>set (scoped ?rs sel). outputs q (addr_snapshotId t) \<and>
      (\<forall>f\<in>set fs. available (journey (in_scope_bundle b sel ids)) (roundId q) (addr_snapshotId f))" if t: "t \<in> set ts" for t
  proof -
    obtain q where q: "q \<in> set ?rs" "outputs q (addr_snapshotId t)" "\<forall>f\<in>set fs. available (journey b) (roundId q) (addr_snapshotId f)"
      using e_ok t unfolding lineage_ok_def a by auto
    have "addr_snapshotId t \<in> set (output_list ?rs)" using q by (auto simp: set_output_list)
    then have "addr_snapshotId t \<in> set (output_list (scoped ?rs sel))"
      using inside [of t] t ok unfolding ids bundle_ok_def by blast
    then obtain q' where q': "q' \<in> set (scoped ?rs sel)" "outputs q' (addr_snapshotId t)" by (auto simp: set_output_list)
    have "distinct (output_list ?rs)" using ok unfolding bundle_ok_def by blast
    then have "q' = q" using outputs_unique [of ?rs q' q] q q' by auto
    moreover have "available (journey (in_scope_bundle b sel ids)) (roundId q') s \<longleftrightarrow> available (journey b) (roundId q') s" for s
      by (rule available_scoped [OF scoped_fields(5,4)]) (use q'(1) in auto)
    ultimately show ?thesis using q q' by auto
  qed
  then show ?thesis
    using e_ok inside unfolding lineage_ok_def a scoped_fields card_in_filter by auto
qed

lemma journey_ok_scoped:
  assumes "journey_ok dp (journey b)" and "sel \<in> roundId ` set (roundRecords (journey b))"
  shows "journey_ok dp (journey (in_scope_bundle b sel ids))"
proof -
  have ok: "rounds_ok (roundRecords (journey b))" using assms(1) unfolding journey_ok_def by blast
  show ?thesis
    using assms(1) unfolding journey_ok_def scoped_fields leaves_scoped [OF ok assms(2)] by (simp add: rounds_ok_scoped [OF ok assms(2)])
qed

lemma projected_ok:
  assumes ok: "bundle_ok dp b" and sel: "sel \<in> roundId ` set (roundRecords (journey b))"
    and ids: "set ids = set (snapshot_scope (originSnapshotIds (journey b)) (scoped (roundRecords (journey b)) sel))"
    and handoffs: "outside_handoffs ids (scoped (roundRecords (journey b)) sel) = []"
    and export: "\<forall>i. exportInfo b = Some (RoundExport i) \<longrightarrow> i = sel"
  shows "bundle_ok dp (in_scope_bundle b sel ids)"
proof -
  let ?b = "in_scope_bundle b sel ids" and ?rs = "scoped (roundRecords (journey b)) sel"
  note I = scope_snapshots [OF ok sel ids]
  have parts: "bundle_schemaVersion b = INQUIRY_SCHEMA_VERSION" "journey_schemaVersion (journey b) = INQUIRY_SCHEMA_VERSION"
    "journey_ok dp (journey b)" "\<forall>r\<in>set (roundRecords (journey b)). round_fields_ok dp r"
    "distinct (map snapshotId (snapshots b))" "\<forall>s\<in>set (snapshots b). snapshot_ok dp s"
    "originSnapshotIds (journey b) \<noteq> []" "distinct (originSnapshotIds (journey b))"
    "distinct (output_list (roundRecords (journey b)))"
    "set (originSnapshotIds (journey b)) \<inter> set (output_list (roundRecords (journey b))) = {}"
    "set (originSnapshotIds (journey b)) \<union> set (output_list (roundRecords (journey b))) = snapshotId ` set (snapshots b)"
    "\<forall>r\<in>set (roundRecords (journey b)). distinct (inputSnapshotIds r) \<and>
        (\<forall>i\<in>set (inputSnapshotIds r). available (journey b) (roundId r) i) \<and> (\<forall>h. handoff r = Some h \<longrightarrow> handoff_ok (snapshots b) h)"
    "distinct (map lineageId (cardLineage b))"
    using ok unfolding bundle_ok_def by - (elim conjE, assumption)+
  have sub: "set (output_list ?rs) \<subseteq> set (output_list (roundRecords (journey b)))" by (auto simp: set_output_list)
  have out: "set (originSnapshotIds (journey b)) \<inter> set (output_list ?rs) = {}" using parts(10) sub by blast
  have cover: "set (originSnapshotIds (journey b)) \<union> set (output_list ?rs) = snapshotId ` set (filter (\<lambda>s. snapshotId s \<in> set ids) (snapshots b))"
    using parts(11) sub unfolding I [symmetric] by (auto simp: I)
  have inputs: "distinct (inputSnapshotIds r) \<and> (\<forall>i\<in>set (inputSnapshotIds r). available (journey ?b) (roundId r) i) \<and>
      (\<forall>h. handoff r = Some h \<longrightarrow> handoff_ok (filter (\<lambda>s. snapshotId s \<in> set ids) (snapshots b)) h)" if r: "r \<in> set ?rs" for r
  proof -
    have rr: "r \<in> set (roundRecords (journey b))" "roundId r \<in> round_scope (roundRecords (journey b)) sel" using r by auto
    note p = bspec [OF parts(12) rr(1)]
    have "set (handoff_snapshots h) \<subseteq> set ids" if h: "handoff r = Some h" for h
      using handoffs set_outside_handoffs [of ids ?rs] r h by auto
    then show ?thesis using p available_scoped [OF scoped_fields(5,4) rr(2)] handoff_ok_filter by metis
  qed
  have lineage: "lineage_ok ?b e" if "e \<in> set (filter (\<lambda>e. edge_in_scope ids e \<and> edge_outside ids e = []) (cardLineage b))" for e
    using that lineage_ok_scoped [OF ok sel I] by simp
  have export_ok: "export_ok ?b" using export unfolding export_ok_def scoped_fields by auto
  have each: "\<forall>r\<in>set ?rs. round_fields_ok dp r" "\<forall>s\<in>set (filter (\<lambda>s. snapshotId s \<in> set ids) (snapshots b)). snapshot_ok dp s"
    using parts(4,6) by auto
  show ?thesis
    unfolding bundle_ok_def scoped_fields
    by (intro conjI; (rule parts out cover each export_ok journey_ok_scoped [OF parts(3) sel] output_list_filter [OF parts(9)]
          distinct_map_filter [OF parts(5)] distinct_map_filter [OF parts(13)] | use inputs lineage in blast))
qed

section \<open>Properties\<close>

lemma scoped_ids_eq: "set ids = round_scope rs sel \<Longrightarrow> filter (\<lambda>r. roundId r \<in> set ids) rs = scoped rs sel"
  by simp

text \<open>The snapshots of the scope, and what the kept content refers to outside of it.\<close>

abbreviation scope_ids_of :: "inquiry_bundle \<Rightarrow> string \<Rightarrow> string list" where
  "scope_ids_of b sel \<equiv> snapshot_scope (originSnapshotIds (journey b)) (scoped (roundRecords (journey b)) sel)"

definition outside_scope :: "inquiry_bundle \<Rightarrow> string \<Rightarrow> string set" where
  "outside_scope b sel =
     ({s. \<exists>r\<in>set (scoped (roundRecords (journey b)) sel). \<exists>h. handoff r = Some h \<and> s \<in> set (handoff_snapshots h)} \<union>
      {addr_snapshotId a | a e. e \<in> set (cardLineage b) \<and> edge_in_scope (scope_ids_of b sel) e \<and>
         a \<in> set (fst (lineageAddresses e)) \<union> set (snd (lineageAddresses e))}) - set (scope_ids_of b sel)"

lemma outside_scope_eq:
  assumes "ids = scope_ids_of b sel"
  shows "set (fst (fold (lineage_step ids) (cardLineage b) (outside_handoffs ids (scoped (roundRecords (journey b)) sel), []))) = outside_scope b sel"
  unfolding lineage_fold outside_scope_def assms fst_conv set_outside_handoffs by (force simp: edge_outside_def case_prod_beta)

lemma derive_cases:
  assumes ok: "bundle_ok dp b" and ne: "[] \<notin> roundId ` set (roundRecords (journey b))" and export: "exportInfo b = None"
  shows "deriveInquiryRoundBundle dp b sel =
    (if sel \<notin> roundId ` set (roundRecords (journey b)) then Inl RoundNotFound
     else if outside_scope b sel \<noteq> {}
     then Inl (DependencyOutsideScope (sort_by code_unit_le (fst (fold (lineage_step (scope_ids_of b sel)) (cardLineage b)
            (outside_handoffs (scope_ids_of b sel) (scoped (roundRecords (journey b)) sel), [])))))
     else Inr (in_scope_bundle b sel (scope_ids_of b sel)))"
proof -
  let ?rs = "roundRecords (journey b)" and ?ids = "scope_ids_of b sel"
  have d: "distinct (map roundId ?rs)" using ok unfolding bundle_ok_def journey_ok_def rounds_ok_def by blast
  have valid: "validateInquiryBundle dp b = []" using validator_iff [OF ne] ok by simp
  note c = collectRoundScope_eq [OF d, of sel]
  show ?thesis
  proof (cases "collectRoundScope b sel")
    case None
    then show ?thesis using c valid by (simp add: deriveInquiryRoundBundle_def)
  next
    case (Some l)
    then have sel: "sel \<in> roundId ` set ?rs" and l: "set l = round_scope ?rs sel" using c by auto
    let ?f = "fold (lineage_step ?ids) (cardLineage b) (outside_handoffs ?ids (scoped ?rs sel), [])"
    have out: "set (fst ?f) = outside_scope b sel" by (rule outside_scope_eq) simp
    have kept: "snd ?f = filter (\<lambda>e. edge_in_scope ?ids e \<and> edge_outside ?ids e = []) (cardLineage b)" by (simp add: lineage_fold)
    have proj: "b\<lparr>journey := (journey b)\<lparr>roundRecords := scoped ?rs sel, headRoundIds := [sel], defaultHeadRoundId := Some sel\<rparr>,
        snapshots := filter (\<lambda>s. snapshotId s \<in> set ?ids) (snapshots b), cardLineage := snd ?f\<rparr> = in_scope_bundle b sel ?ids"
      unfolding kept in_scope_bundle_def ..
    have main: "deriveInquiryRoundBundle dp b sel =
        (if length (fst ?f) > 0 then Inl (DependencyOutsideScope (sort_by code_unit_le (fst ?f)))
         else if length (validateInquiryBundle dp (in_scope_bundle b sel ?ids)) > 0
         then Inl (InvalidBundle (validateInquiryBundle dp (in_scope_bundle b sel ?ids))) else Inr (in_scope_bundle b sel ?ids))"
      unfolding deriveInquiryRoundBundle_def Let_def valid Some option.case scoped_ids_eq [OF l] case_prod_beta proj by simp
    have "validateInquiryBundle dp (in_scope_bundle b sel ?ids) = []" if "fst ?f = []"
    proof -
      have "outside_scope b sel = {}" using out that by simp
      then have "set (outside_handoffs ?ids (scoped ?rs sel)) = {}" unfolding set_outside_handoffs outside_scope_def by blast
      then have "bundle_ok dp (in_scope_bundle b sel ?ids)" by (intro projected_ok [OF ok sel]) (simp_all add: export)
      moreover have "[] \<notin> roundId ` set (roundRecords (journey (in_scope_bundle b sel ?ids)))" using ne by (auto simp: scoped_fields)
      ultimately show ?thesis using validator_iff by blast
    qed
    then show ?thesis unfolding main out [symmetric] using sel by auto
  qed
qed

lemma round_projection_parts:
  assumes "validateInquiryBundle dp b = []" and "[] \<notin> roundId ` set (roundRecords (journey b))" and "exportInfo b = None"
  shows "case deriveInquiryRoundBundle dp b sel of
      Inl RoundNotFound \<Rightarrow> sel \<notin> roundId ` set (roundRecords (journey b))
    | Inl (InvalidBundle issues) \<Rightarrow> False
    | Inl (DependencyOutsideScope ids) \<Rightarrow> sel \<in> roundId ` set (roundRecords (journey b)) \<and> ids \<noteq> [] \<and> set ids = outside_scope b sel
    | Inr b' \<Rightarrow>
        outside_scope b sel = {} \<and> validateInquiryBundle dp b' = [] \<and>
        roundRecords (journey b') = filter (\<lambda>r. (sel, roundId r) \<in> (round_rel (roundRecords (journey b)))\<^sup>*) (roundRecords (journey b)) \<and>
        headRoundIds (journey b') = [sel] \<and> defaultHeadRoundId (journey b') = Some sel \<and>
        snapshotId ` set (snapshots b') = set (originSnapshotIds (journey b)) \<union> set (output_list (roundRecords (journey b'))) \<and>
        set (snapshots b') \<subseteq> set (snapshots b) \<and>
        cardLineage b' = filter (edge_in_scope (scope_ids_of b sel)) (cardLineage b)"
proof -
  have ok: "bundle_ok dp b" using assms validator_iff by blast
  let ?ids = "scope_ids_of b sel" and ?b = "in_scope_bundle b sel (scope_ids_of b sel)"
  have out: "set (sort_by code_unit_le (fst (fold (lineage_step ?ids) (cardLineage b)
      (outside_handoffs ?ids (scoped (roundRecords (journey b)) sel), [])))) = outside_scope b sel"
    using outside_scope_eq [of ?ids b sel] by simp
  consider "sel \<notin> roundId ` set (roundRecords (journey b))" | "sel \<in> roundId ` set (roundRecords (journey b))" "outside_scope b sel \<noteq> {}"
    | (ok) "sel \<in> roundId ` set (roundRecords (journey b))" "outside_scope b sel = {}" by blast
  then show ?thesis
  proof cases
    case ok': ok
    have "set (outside_handoffs ?ids (scoped (roundRecords (journey b)) sel)) = {}"
      using ok'(2) unfolding set_outside_handoffs outside_scope_def by blast
    then have v: "bundle_ok dp ?b" by (intro projected_ok [OF ok ok'(1)]) (simp_all add: assms(3))
    have "[] \<notin> roundId ` set (roundRecords (journey ?b))" using assms(2) by (auto simp: scoped_fields)
    from validator_iff [OF this] v have valid: "validateInquiryBundle dp ?b = []" by blast
    have snaps: "snapshotId ` set (snapshots ?b) = set (originSnapshotIds (journey b)) \<union> set (output_list (roundRecords (journey ?b)))"
      using v unfolding bundle_ok_def scoped_fields by blast
    have "edge_outside ?ids e = []" if "e \<in> set (cardLineage b)" "edge_in_scope ?ids e" for e
      using outside_scope_eq [of ?ids b sel] ok'(2) that unfolding lineage_fold by auto
    then have kept: "cardLineage ?b = filter (edge_in_scope ?ids) (cardLineage b)" unfolding scoped_fields by (auto intro: filter_cong)
    have rounds: "roundRecords (journey ?b) = filter (\<lambda>r. (sel, roundId r) \<in> (round_rel (roundRecords (journey b)))\<^sup>*) (roundRecords (journey b))"
      unfolding scoped_fields round_scope_def by simp
    have sub: "set (snapshots ?b) \<subseteq> set (snapshots b)" unfolding scoped_fields by auto
    have d: "deriveInquiryRoundBundle dp b sel = Inr ?b" unfolding derive_cases [OF ok assms(2,3)] using ok' by simp
    show ?thesis unfolding d sum.case by (intro conjI; (rule ok' valid rounds snaps sub kept scoped_fields))
  next
    case 2
    have d: "deriveInquiryRoundBundle dp b sel = Inl (DependencyOutsideScope (sort_by code_unit_le (fst (fold (lineage_step ?ids) (cardLineage b)
        (outside_handoffs ?ids (scoped (roundRecords (journey b)) sel), [])))))" unfolding derive_cases [OF ok assms(2,3)] using 2 by simp
    show ?thesis unfolding d sum.case projection_error.case using 2 out by force
  qed (simp add: derive_cases [OF ok assms(2,3)])
qed

subsection \<open>The scope without the code's tests\<close>

text \<open>The snapshots of a round and its ancestors; what a hand-off names; where a lineage edge arrives: at a target,
  or, for a retired card, which has none, at the card itself.\<close>

definition kept_snapshots :: "inquiry_bundle \<Rightarrow> string \<Rightarrow> string set" where
  "kept_snapshots b sel = set (originSnapshotIds (journey b)) \<union>
     {s. s \<noteq> [] \<and> (\<exists>r\<in>set (roundRecords (journey b)). outputSnapshotId r = Some s \<and>
          (sel, roundId r) \<in> (round_rel (roundRecords (journey b)))\<^sup>*)}"

definition names_snapshot :: "round_handoff \<Rightarrow> string \<Rightarrow> bool" where
  "names_snapshot h s \<longleftrightarrow> (\<exists>c\<in>set (carryoverRefs h) \<union> set (heldRefs h). ref_snapshotId c = s) \<or>
     (\<exists>q\<in>set (fieldworkRequests h). \<exists>out a. outcome q = Some out \<and> a \<in> set (responseCardRefs out) \<and> addr_snapshotId a = s)"

fun arrives_at :: "lineage_edge \<Rightarrow> card_address set" where
  "arrives_at (NewCard _ t) = {t}"
| "arrives_at (Retired _ f) = {f}"
| "arrives_at (OneToOne _ _ f t) = {t}"
| "arrives_at (Derived _ fs t) = {t}"
| "arrives_at (Split _ f ts) = set ts"
| "arrives_at (Merged _ fs t) = {t}"

fun leaves_from :: "lineage_edge \<Rightarrow> card_address set" where
  "leaves_from (NewCard _ t) = {}"
| "leaves_from (Retired _ f) = {f}"
| "leaves_from (OneToOne _ _ f t) = {f}"
| "leaves_from (Derived _ fs t) = set fs"
| "leaves_from (Split _ f ts) = {f}"
| "leaves_from (Merged _ fs t) = set fs"

definition names_outside :: "inquiry_bundle \<Rightarrow> string \<Rightarrow> string \<Rightarrow> bool" where
  "names_outside b sel s \<longleftrightarrow> s \<notin> kept_snapshots b sel \<and>
     ((\<exists>r\<in>set (roundRecords (journey b)). \<exists>h. (sel, roundId r) \<in> (round_rel (roundRecords (journey b)))\<^sup>* \<and>
         handoff r = Some h \<and> names_snapshot h s) \<or>
      (\<exists>e\<in>set (cardLineage b). (\<exists>a\<in>arrives_at e. addr_snapshotId a \<in> kept_snapshots b sel) \<and>
         (\<exists>a\<in>arrives_at e \<union> leaves_from e. addr_snapshotId a = s)))"

lemma scope_ids_kept:
  assumes "bundle_ok dp b" "sel \<in> roundId ` set (roundRecords (journey b))"
  shows "set (scope_ids_of b sel) = kept_snapshots b sel"
proof -
  have "set (scope_ids_of b sel) = set (originSnapshotIds (journey b)) \<union> set (output_list (scoped (roundRecords (journey b)) sel))"
    by (rule scope_snapshots [OF assms refl])
  also have "\<dots> = kept_snapshots b sel"
    unfolding kept_snapshots_def set_output_list outputs_def round_scope_def by auto
  finally show ?thesis .
qed

lemma handoff_snapshots_iff: "s \<in> set (handoff_snapshots h) \<longleftrightarrow> names_snapshot h s"
  by (force simp: handoff_snapshots_def names_snapshot_def split: option.splits)

lemma edge_in_scope_iff:
  assumes "lineage_ok b e"
  shows "edge_in_scope ids e \<longleftrightarrow> (\<exists>a\<in>arrives_at e. addr_snapshotId a \<in> set ids)"
proof (cases e)
  case (Split l f ts)
  then have "ts \<noteq> []" using assms by (auto simp: lineage_ok_def lineage_cardinality_bad_def)
  then show ?thesis using Split by (simp add: edge_in_scope_def list_ex_iff)
qed (simp_all add: edge_in_scope_def)

lemma edge_addresses: "set (fst (lineageAddresses e)) \<union> set (snd (lineageAddresses e)) = arrives_at e \<union> leaves_from e"
  by (cases e) auto

lemma outside_scope_iff:
  assumes "bundle_ok dp b" "sel \<in> roundId ` set (roundRecords (journey b))"
  shows "outside_scope b sel = {s. names_outside b sel s}"
proof -
  have "edge_in_scope (scope_ids_of b sel) e \<longleftrightarrow> (\<exists>a\<in>arrives_at e. addr_snapshotId a \<in> kept_snapshots b sel)"
    if "e \<in> set (cardLineage b)" for e
  proof -
    have "lineage_ok b e" using assms(1) that unfolding bundle_ok_def by blast
    then show ?thesis by (simp only: edge_in_scope_iff scope_ids_kept [OF assms])
  qed
  then have edges: "(e \<in> set (cardLineage b) \<and> edge_in_scope (scope_ids_of b sel) e \<and> X) \<longleftrightarrow>
      (e \<in> set (cardLineage b) \<and> (\<exists>a\<in>arrives_at e. addr_snapshotId a \<in> kept_snapshots b sel) \<and> X)" for e X
    by blast
  have rounds: "(\<exists>r\<in>set (scoped (roundRecords (journey b)) sel). P r) \<longleftrightarrow>
      (\<exists>r\<in>set (roundRecords (journey b)). (sel, roundId r) \<in> (round_rel (roundRecords (journey b)))\<^sup>* \<and> P r)" for P
    by (auto simp: round_scope_def)
  show ?thesis
    unfolding outside_scope_def names_outside_def edge_addresses scope_ids_kept [OF assms] handoff_snapshots_iff edges rounds
    by blast
qed

lemma distinct_js_adds: "distinct xs \<Longrightarrow> distinct (fold js_add ys xs)"
  by (induction ys arbitrary: xs) (simp_all add: js_add_def)

lemma distinct_outside:
  "distinct (fst (fold (lineage_step ids) es (outside_handoffs ids rs, [])))"
proof -
  have "distinct out \<Longrightarrow> distinct (fold (\<lambda>r out. case handoff r of None \<Rightarrow> out
      | Some h \<Rightarrow> fold js_add (filter (\<lambda>s. s \<notin> set ids) (handoff_snapshots h)) out) rs out)" for out
    by (induction rs arbitrary: out) (simp_all add: distinct_js_adds split: option.splits)
  then have "distinct (outside_handoffs ids rs)" by (simp add: outside_handoffs_def)
  moreover have "distinct (fst st) \<Longrightarrow> distinct (fst (fold (lineage_step ids) es st))" for st
    by (induction es arbitrary: st) (simp_all add: lineage_step_def distinct_js_adds case_prod_beta)
  ultimately show ?thesis by simp
qed

lemma reported_ids:
  assumes "bundle_ok dp b" "[] \<notin> roundId ` set (roundRecords (journey b))" "exportInfo b = None"
    and "deriveInquiryRoundBundle dp b sel = Inl (DependencyOutsideScope ids)"
  shows "sorted_wrt code_unit_le ids \<and> distinct ids"
proof -
  have "ids = sort_by code_unit_le (fst (fold (lineage_step (scope_ids_of b sel)) (cardLineage b)
      (outside_handoffs (scope_ids_of b sel) (scoped (roundRecords (journey b)) sel), [])))"
    using assms(4) unfolding derive_cases [OF assms(1-3)] by (simp split: if_splits)
  then show ?thesis using distinct_outside cu.sorted_wrt_sort_by by simp
qed

lemma projected_parts:
  assumes "bundle_ok dp b" "[] \<notin> roundId ` set (roundRecords (journey b))" "exportInfo b = None"
    and "deriveInquiryRoundBundle dp b sel = Inr b'"
  shows "sel \<in> roundId ` set (roundRecords (journey b))"
    "snapshots b' = filter (\<lambda>s. snapshotId s \<in> kept_snapshots b sel) (snapshots b)"
    "cardLineage b' = filter (\<lambda>e. \<exists>a\<in>arrives_at e. addr_snapshotId a \<in> kept_snapshots b sel) (cardLineage b)"
    "{s. names_outside b sel s} = {}"
proof -
  have valid: "validateInquiryBundle dp b = []" using assms(1,2) validator_iff by blast
  show sel: "sel \<in> roundId ` set (roundRecords (journey b))" and out: "{s. names_outside b sel s} = {}"
    using assms(4) outside_scope_iff [OF assms(1)] unfolding derive_cases [OF assms(1-3)] by (auto split: if_splits)
  have "b' = in_scope_bundle b sel (scope_ids_of b sel)"
    using assms(4) unfolding derive_cases [OF assms(1-3)] by (simp split: if_splits)
  then show "snapshots b' = filter (\<lambda>s. snapshotId s \<in> kept_snapshots b sel) (snapshots b)"
    using scope_ids_kept [OF assms(1) sel] by (simp add: scoped_fields)
  have "cardLineage b' = filter (edge_in_scope (scope_ids_of b sel)) (cardLineage b)"
    using round_projection_parts [OF valid assms(2,3), of sel] assms(4) by simp
  moreover have "edge_in_scope (scope_ids_of b sel) e \<longleftrightarrow> (\<exists>a\<in>arrives_at e. addr_snapshotId a \<in> kept_snapshots b sel)"
    if "e \<in> set (cardLineage b)" for e
  proof -
    have "lineage_ok b e" using assms(1) that unfolding bundle_ok_def by blast
    then show ?thesis by (simp only: edge_in_scope_iff scope_ids_kept [OF assms(1) sel])
  qed
  ultimately show "cardLineage b' = filter (\<lambda>e. \<exists>a\<in>arrives_at e. addr_snapshotId a \<in> kept_snapshots b sel) (cardLineage b)"
    by (simp cong: filter_cong)
qed

text \<open>C22. The bundle of one round is complete and fails closed. For a valid bundle (without export claim, rounds with non-empty
  identifiers) let the kept snapshots be the origins and the outputs of the selected round and its ancestors. The projection is
  refused only for an unknown round, or when a hand-off of a kept round, or a lineage edge that arrives at a kept snapshot,
  names a snapshot that is not kept; the list of exactly those snapshots is reported, in code unit order and without
  repetition. Otherwise the result is a valid bundle: its rounds are the selected round and its ancestors in their order, the
  selected round is its only head, its snapshots are the kept ones in their order, and its lineage consists of the edges that
  arrive at a kept snapshot (a retired card arrives nowhere; its edge counts by the card itself).\<close>

theorem round_projection:
  assumes "validateInquiryBundle dp b = []" and "[] \<notin> roundId ` set (roundRecords (journey b))" and "exportInfo b = None"
  shows "case deriveInquiryRoundBundle dp b sel of
      Inl RoundNotFound \<Rightarrow> sel \<notin> roundId ` set (roundRecords (journey b))
    | Inl (InvalidBundle issues) \<Rightarrow> False
    | Inl (DependencyOutsideScope ids) \<Rightarrow> sel \<in> roundId ` set (roundRecords (journey b)) \<and> ids \<noteq> [] \<and>
        set ids = {s. names_outside b sel s} \<and> sorted_wrt code_unit_le ids \<and> distinct ids
    | Inr b' \<Rightarrow>
        {s. names_outside b sel s} = {} \<and> validateInquiryBundle dp b' = [] \<and>
        roundRecords (journey b') = filter (\<lambda>r. (sel, roundId r) \<in> (round_rel (roundRecords (journey b)))\<^sup>*) (roundRecords (journey b)) \<and>
        headRoundIds (journey b') = [sel] \<and> defaultHeadRoundId (journey b') = Some sel \<and>
        snapshots b' = filter (\<lambda>s. snapshotId s \<in> kept_snapshots b sel) (snapshots b) \<and>
        cardLineage b' = filter (\<lambda>e. \<exists>a\<in>arrives_at e. addr_snapshotId a \<in> kept_snapshots b sel) (cardLineage b)"
proof -
  have ok: "bundle_ok dp b" using assms(1,2) validator_iff by blast
  note parts = round_projection_parts [OF assms, of sel]
  show ?thesis
  proof (cases "deriveInquiryRoundBundle dp b sel")
    case (Inl e)
    show ?thesis
    proof (cases e)
      case (DependencyOutsideScope ids)
      then have d: "deriveInquiryRoundBundle dp b sel = Inl (DependencyOutsideScope ids)" using Inl by simp
      then have p: "sel \<in> roundId ` set (roundRecords (journey b))" "ids \<noteq> []" "set ids = outside_scope b sel" using parts by simp_all
      show ?thesis
        unfolding d sum.case projection_error.case using p reported_ids [OF ok assms(2,3) d] outside_scope_iff [OF ok p(1)] by simp
    qed (use Inl parts in simp_all)
  next
    case (Inr b')
    show ?thesis using parts projected_parts [OF ok assms(2,3) Inr] unfolding Inr sum.case by (intro conjI) simp_all
  qed
qed

definition ex_branches :: inquiry_bundle where
  "ex_branches = ex_bundle\<lparr>
     journey := ex_journey\<lparr>roundRecords := [ex_round ''a'' [], ex_round ''b'' []], headRoundIds := [''a'', ''b'']\<rparr>,
     snapshots := map (\<lambda>i. \<lparr>snap_schemaVersion = INQUIRY_SCHEMA_VERSION, snapshotId = i, snap_createdAt = ''1970-01-01T00:00:00.000Z'',
       canonicalDigest = ''sha256:'' @ replicate 64 (CHR ''a''), snap_document = mk_doc [mk_card ''c'' ''x'' 0 0] [] []\<rparr>) [''s0'', ''out-a'', ''out-b''],
     cardLineage := [NewCard ''l1'' \<lparr>addr_snapshotId = ''out-a'', addr_cardId = ''c''\<rparr>, NewCard ''l2'' \<lparr>addr_snapshotId = ''out-b'', addr_cardId = ''c''\<rparr>]\<rparr>"

lemma ex_branches_ok: "bundle_ok ex_dp ex_branches"
proof -
  have t: "isCanonicalTimestamp ex_dp ''1970-01-01T00:00:00.000Z''" using ex_times by (simp add: times_ok_def)
  have d: "digest_ok (''sha256:'' @ replicate 64 (CHR ''a''))" by code_simp
  have rel: "round_rel [ex_round ''a'' [], ex_round ''b'' []] = {}" by (auto simp: round_rel_def ex_round_def)
  have "rounds_ok [ex_round ''a'' [], ex_round ''b'' []]" unfolding rounds_ok_def rel by (simp add: ex_round_def acyclic_def)
  moreover have "leaves [ex_round ''a'' [], ex_round ''b'' []] = {''a'', ''b''}" by (simp add: leaves_def ex_round_def)
  moreover have "\<forall>r\<in>set [ex_round ''a'' [], ex_round ''b'' []]. times_ok ex_dp (round_createdAt r) (round_updatedAt r)"
    using ex_times by (simp add: ex_round_def)
  ultimately have j: "journey_ok ex_dp (journey ex_branches)"
    using ex_times by (simp add: journey_ok_def ex_branches_def ex_journey_def)
  have s: "\<forall>s\<in>set (snapshots ex_branches). snapshot_ok ex_dp s"
    unfolding snapshot_ok_def ex_branches_def using t d by simp
  have r: "\<forall>r\<in>set (roundRecords (journey ex_branches)). round_fields_ok ex_dp r"
    using ex_times by (auto simp: round_fields_ok_def ex_branches_def ex_round_def ROUND_STAGES_def ROUND_STATUSES_def safe_integer_def outputs_def)
  have l: "\<forall>e\<in>set (cardLineage ex_branches). lineage_ok ex_branches e"
    by (auto simp: lineage_ok_def ex_branches_def lineage_cardinality_bad_def findDuplicates_def card_in_def outputs_def ex_round_def js_add_def)
  show ?thesis
    unfolding bundle_ok_def using j s r l
    by (auto simp: ex_branches_def ex_bundle_def ex_journey_def export_ok_def ex_round_def output_list_def)
qed

theorem round_projection_witness:
  "\<exists>b'. deriveInquiryRoundBundle ex_dp ex_branches ''a'' = Inr b' \<and> map roundId (roundRecords (journey b')) = [''a''] \<and>
     map snapshotId (snapshots b') = [''s0'', ''out-a''] \<and> map lineageId (cardLineage b') = [''l1'']"
proof -
  have ne: "[] \<notin> roundId ` set (roundRecords (journey ex_branches))" by (simp add: ex_branches_def ex_round_def)
  have x: "exportInfo ex_branches = None" by (simp add: ex_branches_def ex_bundle_def)
  have rounds: "roundRecords (journey ex_branches) = [ex_round ''a'' [], ex_round ''b'' []]" by (simp add: ex_branches_def)
  have rel: "round_rel [ex_round ''a'' [], ex_round ''b'' []] = {}" by (auto simp: round_rel_def ex_round_def)
  have sc: "scoped (roundRecords (journey ex_branches)) ''a'' = [ex_round ''a'' []]" unfolding rounds round_scope_def rel by (simp add: ex_round_def)
  have ids: "scope_ids_of ex_branches ''a'' = [''s0'', ''out-a'']" unfolding sc by (simp add: ex_branches_def ex_journey_def snapshot_scope_def ex_round_def js_add_def uniq_def)
  have lin: "cardLineage ex_branches = [NewCard ''l1'' \<lparr>addr_snapshotId = ''out-a'', addr_cardId = ''c''\<rparr>, NewCard ''l2'' \<lparr>addr_snapshotId = ''out-b'', addr_cardId = ''c''\<rparr>]"
    by (simp add: ex_branches_def)
  have out: "outside_scope ex_branches ''a'' = {}"
    unfolding outside_scope_def sc ids lin by (auto simp: ex_round_def edge_in_scope_def)
  have valid: "validateInquiryBundle ex_dp ex_branches = []" using ex_branches_ok validator_iff [OF ne] by blast
  have sel: "''a'' \<in> roundId ` set (roundRecords (journey ex_branches))" unfolding rounds by (simp add: ex_round_def)
  obtain b' where b': "deriveInquiryRoundBundle ex_dp ex_branches ''a'' = Inr b'"
    unfolding derive_cases [OF ex_branches_ok ne x] using out sel by simp
  have kept: "kept_snapshots ex_branches ''a'' = {''s0'', ''out-a''}" using scope_ids_kept [OF ex_branches_ok sel] unfolding ids by simp
  note result = round_projection [OF valid ne x, of "''a''", unfolded b' sum.case]
  have "roundRecords (journey b') = [ex_round ''a'' []]" using result unfolding rounds rel by (simp add: ex_round_def)
  moreover have "map snapshotId (snapshots b') = [''s0'', ''out-a'']"
    using result unfolding kept by (simp add: ex_branches_def)
  moreover have "map lineageId (cardLineage b') = [''l1'']" using result unfolding kept lin by simp
  ultimately show ?thesis by (intro exI [of _ b'] conjI b') (simp_all add: ex_round_def)
qed

end
