(* ===== verification/Patch_Fingerprint.thy ===== *)
theory Patch_Fingerprint
  imports Patch_Parse JS_Text
begin

text \<open>
  \<open>domain/patch/patch_fingerprint.ts\<close> and \<open>domain/patch/patch_generate.ts\<close>: the canonical text of a JSON value and the fingerprint of
  a patch, and the patch as it is exported. SHA-256 is the browser's (\<open>crypto.subtle\<close>): it is the argument \<open>sha\<close>, from the text to
  the hexadecimal digest. The text of a number is the argument \<open>numStr\<close>, as in \<open>Json_Value\<close>.

  A value is a runtime object here: a property can be present and hold \<open>undefined\<close>. \<open>reread\<close> is what \<open>JSON.parse(JSON.stringify(v))\<close>
  makes of it. The fingerprint is not stable under it in general (\<open>fingerprint_sees_undefined\<close>), but for the patches that the
  application exports, which come from the parser, it is (\<open>exported_patch_verifies\<close>).
\<close>

section \<open>Canonical JSON\<close>

lemma size_item: "v \<in> set vs \<Longrightarrow> size v < size (JArr vs)"
  by (simp add: less_Suc_eq_le size_list_estimation')

lemma size_entry: "(k, v) \<in> set es \<Longrightarrow> size v < size (JObj es)"
  using size_list_estimation' [of "(k, v)" es "size v" "size_prod (\<lambda>_. 0) size"] by simp

definition op_sort_key :: "json \<Rightarrow> string" where
  "op_sort_key v = (if isRecord v then nullish (as_string (js_prop v ''id'')) '''' else '''')"

definition in_fingerprint_order :: "string list \<Rightarrow> json list \<Rightarrow> json list" where
  "in_fingerprint_order path vs =
     (if path = [''ops''] then sort_by (\<lambda>left right. code_unit_le (op_sort_key left) (op_sort_key right)) vs else vs)"

lemma set_in_fingerprint_order [simp]: "set (in_fingerprint_order path vs) = set vs"
  by (simp add: in_fingerprint_order_def)

function (sequential) normalizeForFingerprint :: "json \<Rightarrow> string list \<Rightarrow> json" where
  "normalizeForFingerprint (JNum (Finite q)) path = JNum (Finite q)"
| "normalizeForFingerprint (JNum n) path = JNull"
| "normalizeForFingerprint (JArr vs) path =
     JArr (map (\<lambda>(i, item). normalizeForFingerprint item (path @ [nat_str i])) (enumerate 0 (in_fingerprint_order path vs)))"
| "normalizeForFingerprint (JObj es) path =
     JObj (map (\<lambda>(key, item). (key, normalizeForFingerprint item (path @ [key])))
       (sort_by (\<lambda>left right. code_unit_le (fst left) (fst right)) es))"
| "normalizeForFingerprint JUndef path = JNull"
| "normalizeForFingerprint v path = v"
  by pat_completeness auto
termination
proof (relation "measure (size \<circ> fst)", goal_cases)
  case (2 vs path z i item)
  then have "(i, item) \<in> set (enumerate 0 (in_fingerprint_order path vs))" by simp
  then have "item \<in> set (in_fingerprint_order path vs)" unfolding in_set_enumerate_eq by (auto simp del: set_in_fingerprint_order)
  then show ?case using size_item [of item vs] by simp
next
  case (3 es path z key item)
  then show ?case using size_entry [of key item es] by simp
qed simp

text \<open>\<open>toCanonicalJson\<close> has the clauses of \<open>stableSerialize\<close>, with keys in code unit order.\<close>

definition toCanonicalJson :: "(rat \<Rightarrow> string) \<Rightarrow> json \<Rightarrow> string" where
  "toCanonicalJson numStr v = stableSerialize code_unit_le numStr v"

definition canonicalizeJson :: "(rat \<Rightarrow> string) \<Rightarrow> json \<Rightarrow> string" where
  "canonicalizeJson numStr v = toCanonicalJson numStr (normalizeForFingerprint v [])"

section \<open>Fingerprints\<close>

definition computePatchFingerprint :: "(rat \<Rightarrow> string) \<Rightarrow> (string \<Rightarrow> string) \<Rightarrow> json \<Rightarrow> string" where
  "computePatchFingerprint numStr sha patch =
     (let rest = AList.delete ''patchFingerprint'' (own_entries patch); payload = JObj (rest @ [(''patchFingerprint'', JNull)])
      in sha (canonicalizeJson numStr payload))"

record fingerprint_check =
  fp_ok :: bool
  fp_expected :: string
  fp_actual :: "string option"

definition verifyPatchFingerprint :: "(rat \<Rightarrow> string) \<Rightarrow> (string \<Rightarrow> string) \<Rightarrow> json \<Rightarrow> fingerprint_check" where
  "verifyPatchFingerprint numStr sha patch =
     (let expected = as_string (js_prop patch ''patchFingerprint'') in
      if \<not> truthy_str expected then \<lparr>fp_ok = False, fp_expected = '''', fp_actual = None\<rparr>
      else let actual = computePatchFingerprint numStr sha patch
        in \<lparr>fp_ok = (actual = the expected), fp_expected = the expected, fp_actual = Some actual\<rparr>)"

section \<open>Export\<close>

record patch_export_metadata =
  md_author :: "string option"
  md_authorNote :: "string option"
  md_sourceApp :: "string option"

definition cleanOptionalText :: "string option \<Rightarrow> string option" where
  "cleanOptionalText v = (if \<not> truthy_str v then None
     else let trimmed = trim (the v) in if length trimmed > 0 then Some trimmed else None)"

definition or_undefined :: "string option \<Rightarrow> json" where
  "or_undefined x = (case x of None \<Rightarrow> JUndef | Some s \<Rightarrow> JStr s)"

fun raw_kind :: "raw_op \<Rightarrow> string" where
  "raw_kind (UpsertCard _ _) = ''upsert_card''"
| "raw_kind (DeleteCard _ _) = ''delete_card''"
| "raw_kind (UpsertIsland _ _) = ''upsert_island''"
| "raw_kind (DeleteIsland _ _) = ''delete_island''"
| "raw_kind (UpsertEdge _ _) = ''upsert_edge''"
| "raw_kind (DeleteEdge _ _) = ''delete_edge''"
| "raw_kind (UpsertRelationSummary _ _) = ''upsert_relation_summary''"
| "raw_kind (DeleteRelationSummary _ _) = ''delete_relation_summary''"
| "raw_kind (UpsertEvidenceLink _ _) = ''upsert_evidence_link''"
| "raw_kind (DeleteEvidenceLink _ _) = ''delete_evidence_link''"

fun raw_payload :: "raw_op \<Rightarrow> string \<times> json" where
  "raw_payload (UpsertCard _ v) = (''card'', v)"
| "raw_payload (DeleteCard _ i) = (''cardId'', JStr i)"
| "raw_payload (UpsertIsland _ v) = (''island'', v)"
| "raw_payload (DeleteIsland _ i) = (''islandId'', JStr i)"
| "raw_payload (UpsertEdge _ v) = (''edge'', v)"
| "raw_payload (DeleteEdge _ i) = (''edgeId'', JStr i)"
| "raw_payload (UpsertRelationSummary _ v) = (''relationSummary'', v)"
| "raw_payload (DeleteRelationSummary _ i) = (''sourceSignature'', JStr i)"
| "raw_payload (UpsertEvidenceLink _ v) = (''evidenceLink'', v)"
| "raw_payload (DeleteEvidenceLink _ i) = (''evidenceLinkId'', JStr i)"

definition op_object :: "raw_op \<Rightarrow> json" where
  "op_object op = JObj [(''id'', JStr (op_id op)), (''kind'', JStr (raw_kind op)), raw_payload op]"

text \<open>The object that \<open>parsePatchDocument\<close> returns: every optional property is present, and holds \<open>undefined\<close> when absent.\<close>

definition patch_object :: "raw_op patch_v1 \<Rightarrow> json" where
  "patch_object p = JObj
     [(''kind'', JStr ''sui-sensemaking-patch''), (''version'', JNum (Finite 1)), (''baseDocSignature'', or_undefined (baseDocSignature p)),
      (''author'', or_undefined (patch_author p)), (''authorNote'', or_undefined (authorNote p)), (''sourceApp'', or_undefined (sourceApp p)),
      (''patchFingerprint'', or_undefined (patchFingerprint p)), (''patchId'', or_undefined (patchId p)),
      (''ops'', JArr (map op_object (ops p)))]"

definition buildPatchForExport :: "(rat \<Rightarrow> string) \<Rightarrow> (string \<Rightarrow> string) \<Rightarrow> raw_op patch_v1 \<Rightarrow> patch_export_metadata \<Rightarrow> raw_op patch_v1" where
  "buildPatchForExport numStr sha patch metadata =
     (let next_patch = patch\<lparr>patch_author := cleanOptionalText (md_author metadata), authorNote := cleanOptionalText (md_authorNote metadata),
            sourceApp := Some (nullish (cleanOptionalText (md_sourceApp metadata)) ''sui-sensemaking'')\<rparr>;
          fingerprint = computePatchFingerprint numStr sha (patch_object next_patch)
      in next_patch\<lparr>patchFingerprint := Some fingerprint\<rparr>)"

section \<open>Through a file\<close>

function (sequential) reread :: "json \<Rightarrow> json" where
  "reread (JArr vs) = JArr (map (\<lambda>v. if v = JUndef then JNull else reread v) vs)"
| "reread (JObj es) = JObj (map (\<lambda>(k, v). (k, reread v)) (filter (\<lambda>(k, v). v \<noteq> JUndef) es))"
| "reread (JNum (Finite q)) = JNum (Finite q)"
| "reread (JNum n) = JNull"
| "reread v = v"
  by pat_completeness auto
termination
  by (relation "measure size") (use size_item size_entry in auto)

text \<open>What a file gives: no \<open>undefined\<close>, and numbers in range.\<close>

fun plain_json :: "json \<Rightarrow> bool" where
  "plain_json JUndef \<longleftrightarrow> False"
| "plain_json (JNum n) \<longleftrightarrow> (case n of Finite _ \<Rightarrow> True | _ \<Rightarrow> False)"
| "plain_json (JArr vs) \<longleftrightarrow> list_all plain_json vs"
| "plain_json (JObj es) \<longleftrightarrow> list_all (\<lambda>(k, v). plain_json v) es"
| "plain_json v \<longleftrightarrow> True"

section \<open>Reading an exported patch\<close>

lemma reread_plain: "plain_json v \<Longrightarrow> reread v = v"
proof (induction v rule: reread.induct)
  case (1 vs)
  then have "map (\<lambda>v. if v = JUndef then JNull else reread v) vs = vs"
    by (intro map_idI) (auto simp: list_all_iff)
  then show ?case by simp
next
  case (2 es)
  have "filter (\<lambda>(k, v). v \<noteq> JUndef) es = es" using 2(2) by (auto simp: list_all_iff intro!: filter_True)
  moreover have "map (\<lambda>(k, v). (k, reread v)) es = es"
    using 2 calculation by (intro map_idI) (auto simp: list_all_iff)
  ultimately show ?case by simp
qed auto

lemma plain_prop: "plain_json v \<Longrightarrow> js_prop v k = JUndef \<or> plain_json (js_prop v k)"
proof (cases v)
  case (JObj es)
  assume "plain_json v"
  then show ?thesis unfolding JObj by (cases "map_of es k") (auto simp: list_all_iff dest!: map_of_SomeD)
qed auto

lemma plain_own: "plain_json v \<Longrightarrow> \<forall>(k, x)\<in>set (own_entries v). plain_json x"
  by (cases v) (auto simp: list_all_iff)

lemma plain_keep_if: "plain_json v \<Longrightarrow> \<not> P JUndef \<Longrightarrow> \<forall>(k', x)\<in>set (keep_if P k v). plain_json x"
  using plain_prop [of v k] by (auto simp: keep_if_def)

lemma plain_replace: "plain_json v \<Longrightarrow> \<forall>(k', x)\<in>set es. plain_json x \<Longrightarrow> plain_json (replace_prop k es v)"
  using plain_own [of v] by (auto simp: replace_prop_def list_all_iff Let_def AList.delete_eq)

lemma not_undef_checks [simp]: "\<not> isFiniteNumber JUndef" "\<not> nonempty_string JUndef"
  by (simp_all add: nonempty_string_def)

lemma plain_parts:
  assumes "plain_json v"
  shows "\<forall>(k, x)\<in>set (sanitizedMeta v). plain_json x" "\<forall>(k, x)\<in>set (sanitizedKa v). plain_json x"
  unfolding sanitizedMeta_def sanitizedKa_def set_append ball_Un by (intro conjI plain_keep_if [OF assms] not_undef_checks)+

lemma plain_sanitize_part:
  assumes "sanitize_part k f v w = Some c" "plain_json v" "plain_json w" "\<And>x. plain_json x \<Longrightarrow> \<forall>(k, y)\<in>set (f x). plain_json y"
  shows "plain_json c"
  using assms plain_prop [of v k] by (auto simp: sanitize_part_def intro!: plain_replace split: if_splits)

lemma parseCard_plain: "parseCard v = Some c \<Longrightarrow> plain_json v \<Longrightarrow> plain_json c"
  using plain_sanitize_part plain_parts
  by (auto simp: parseCard_def split: if_splits bind_splits)

text \<open>Parsing a parsed card again changes nothing: the rebuilt parts keep their entries and their place at the end.\<close>

lemma own_replace: "own_entries (replace_prop k es v) = AList.delete k (own_entries v) @ (if es = [] then [] else [(k, JObj es)])"
  by (simp add: replace_prop_def Let_def)

lemma replace_again: "replace_prop k es (replace_prop k es v) = replace_prop k es v"
  by (simp add: replace_prop_def Let_def AList.delete_eq)

lemma replace_twice:
  assumes "k \<noteq> l"
  shows "replace_prop l fs (replace_prop k es (replace_prop l fs (replace_prop k es v))) = replace_prop l fs (replace_prop k es v)"
  using assms by (auto simp: replace_prop_def Let_def AList.delete_eq intro!: filter_cong)

lemma keep_if_object:
  assumes "k \<noteq> l" "\<not> P JUndef" "\<not> Q JUndef"
  shows "keep_if P k (JObj (keep_if P k v @ keep_if Q l v)) = keep_if P k v" "keep_if Q l (JObj (keep_if P k v @ keep_if Q l v)) = keep_if Q l v"
  using assms by (auto simp: keep_if_def)

lemma parts_again: "sanitizedMeta (JObj (sanitizedMeta m)) = sanitizedMeta m" "sanitizedKa (JObj (sanitizedKa m)) = sanitizedKa m"
  unfolding sanitizedMeta_def sanitizedKa_def
  using keep_if_object [of "''seq''" "''source''" isFiniteNumber nonempty_string m] keep_if_object [of "''voice''" "''value''" nonempty_string nonempty_string m]
  by simp_all

lemma replace_inner:
  assumes "k \<noteq> l" "es \<noteq> []"
  shows "replace_prop k es (replace_prop l [] (replace_prop k es v)) = replace_prop l [] (replace_prop k es v)"
  using assms by (auto simp: replace_prop_def Let_def AList.delete_eq intro!: filter_cong)

lemma sanitize_both_again:
  assumes "sanitize_part ''meta'' sanitizedMeta v v = Some m" "sanitize_part ''ka'' sanitizedKa v m = Some c"
  shows "Option.bind (sanitize_part ''meta'' sanitizedMeta c c) (sanitize_part ''ka'' sanitizedKa c) = Some c"
proof -
  let ?f = "sanitizedMeta (js_prop v ''meta'')" and ?g = "sanitizedKa (js_prop v ''ka'')"
  consider "js_prop v ''meta'' = JUndef" "js_prop v ''ka'' = JUndef" "c = v"
    | "js_prop v ''meta'' \<noteq> JUndef" "js_prop v ''ka'' = JUndef" "c = replace_prop ''meta'' ?f v"
    | "js_prop v ''meta'' = JUndef" "js_prop v ''ka'' \<noteq> JUndef" "c = replace_prop ''ka'' ?g v"
    | "js_prop v ''meta'' \<noteq> JUndef" "js_prop v ''ka'' \<noteq> JUndef" "c = replace_prop ''ka'' ?g (replace_prop ''meta'' ?f v)"
    using assms by (auto simp: sanitize_part_def split: if_splits)
  then show ?thesis
    by cases (cases "?f = []"; cases "?g = []";
      simp add: sanitize_part_def prop_replace_same prop_replace_other parts_again replace_again replace_twice replace_inner)+
qed

lemma parseCard_again: "parseCard v = Some c \<Longrightarrow> parseCard c = Some c"
proof -
  assume a: "parseCard v = Some c"
  then obtain m where m: "sanitize_part ''meta'' sanitizedMeta v v = Some m" "sanitize_part ''ka'' sanitizedKa v m = Some c"
    by (auto simp: parseCard_def bind_eq_Some_conv split: if_splits)
  have p: "js_prop c k = js_prop v k" if "k \<noteq> ''meta''" "k \<noteq> ''ka''" for k
    using that m by (simp add: sanitize_part_other)
  have ok: "isRecord v" "isString (js_prop v ''id'')" "isString (js_prop v ''text'')" "isFiniteNumber (js_prop v ''x'')" "isFiniteNumber (js_prop v ''y'')"
    "opt_prop isString v ''canonicalId''" "opt_prop isStringArray v ''sources''" "opt_prop isString v ''critique''"
    "opt_prop isStringArray v ''critiqueTags''" "opt_prop isBoolean v ''textReviewed''"
    using a by (simp_all add: parseCard_def split: if_splits)
  have opt: "opt_prop P c k = opt_prop P v k" if "k \<noteq> ''meta''" "k \<noteq> ''ka''" for P k using that p by (simp add: opt_prop_def)
  have r: "isRecord c" using m ok(1) by (auto simp: sanitize_part_def replace_prop_def Let_def split: if_splits)
  show ?thesis
    unfolding parseCard_def sanitize_both_again [OF m] using ok r by (simp add: p opt)
qed

lemma string_or_undefined_cases: "string_or_undefined v = JUndef \<or> (\<exists>s. string_or_undefined v = JStr s)"
  by (cases "as_string v") (simp_all add: string_or_undefined_def)

lemma parseEvidenceLink_again:
  assumes "parseEvidenceLink v = Some l"
  shows "parseEvidenceLink (reread l) = Some l" "l \<noteq> JUndef"
proof -
  obtain i f t where s: "js_prop v ''id'' = JStr i" "js_prop v ''fromCardId'' = JStr f" "js_prop v ''toCardId'' = JStr t"
    using assms by (auto simp: parseEvidenceLink_def split: if_splits elim!: as_string.elims)
  have ne: "f \<noteq> t" using assms s by (simp add: parseEvidenceLink_def split: if_splits)
  obtain ty where ty: "js_prop v ''type'' = JStr ty" "ty = ''supports'' \<or> ty = ''contradicts''"
    using assms by (auto simp: parseEvidenceLink_def split: if_splits)
  obtain n d where nd: "string_or_undefined (js_prop v ''note'') = n" "string_or_undefined (js_prop v ''createdAt'') = d"
    "n = JUndef \<or> (\<exists>s. n = JStr s)" "d = JUndef \<or> (\<exists>s. d = JStr s)" using string_or_undefined_cases by metis
  have l: "l = JObj [(''id'', JStr i), (''type'', JStr ty), (''fromCardId'', JStr f), (''toCardId'', JStr t), (''note'', n), (''createdAt'', d)]"
    using assms by (simp add: parseEvidenceLink_def s ty(1) nd(1,2) split: if_splits)
  show "parseEvidenceLink (reread l) = Some l"
    using nd(3,4) ty(2) ne unfolding l by (auto simp: parseEvidenceLink_def string_or_undefined_def)
  show "l \<noteq> JUndef" unfolding l by simp
qed

lemma reread_op: "snd (raw_payload op) \<noteq> JUndef \<Longrightarrow>
  reread (op_object op) = JObj [(''id'', JStr (op_id op)), (''kind'', JStr (raw_kind op)), (fst (raw_payload op), reread (snd (raw_payload op)))]"
  by (cases "raw_payload op") (simp add: op_object_def)

lemma plain_parses:
  "parseIsland v = Some w \<Longrightarrow> w = v \<and> v \<noteq> JUndef" "parseEdge v = Some w \<Longrightarrow> w = v \<and> v \<noteq> JUndef"
  "parseRelationSummary v = Some w \<Longrightarrow> w = v \<and> v \<noteq> JUndef"
  by (auto simp: parseIsland_def parseEdge_def parseRelationSummary_def split: if_splits)

lemma parseCard_defined: "parseCard v = Some c \<Longrightarrow> c \<noteq> JUndef \<and> v \<noteq> JUndef"
  using parseCard_again [of v c] by (auto simp: parseCard_def split: if_splits)

lemma parsePatchOp_again:
  assumes "parsePatchOp v = Some op" and "plain_json v"
  shows "parsePatchOp (reread (op_object op)) = Some op"
proof -
  have plain: "plain_json (js_prop v k)" if "js_prop v k \<noteq> JUndef" for k using plain_prop [OF assms(2)] that by blast
  obtain i kind where "as_string (js_prop v ''id'') = Some i" "as_string (js_prop v ''kind'') = Some kind"
    using assms(1) by (auto simp: parsePatchOp_def split: if_splits option.splits)
  then consider c where "op = UpsertCard i c" "parseCard (js_prop v ''card'') = Some c"
    | c where "op = DeleteCard i c" | x where "op = UpsertIsland i x" "parseIsland (js_prop v ''island'') = Some x"
    | c where "op = DeleteIsland i c" | e where "op = UpsertEdge i e" "parseEdge (js_prop v ''edge'') = Some e"
    | c where "op = DeleteEdge i c" | r where "op = UpsertRelationSummary i r" "parseRelationSummary (js_prop v ''relationSummary'') = Some r"
    | c where "op = DeleteRelationSummary i c" | l where "op = UpsertEvidenceLink i l" "parseEvidenceLink (js_prop v ''evidenceLink'') = Some l"
    | c where "op = DeleteEvidenceLink i c"
    using assms(1) by (auto simp: parsePatchOp_def split: if_splits)
  then show ?thesis
  proof cases
    case 1
    have "plain_json c" using parseCard_plain [OF 1(2)] plain parseCard_defined [OF 1(2)] by blast
    then show ?thesis using 1 parseCard_again [OF 1(2)] parseCard_defined [OF 1(2)] by (subst reread_op) (simp_all add: parsePatchOp_def reread_plain)
  next
    case 3
    then show ?thesis using plain_parses(1) [OF 3(2)] plain by (subst reread_op) (auto simp: parsePatchOp_def reread_plain)
  next
    case 5
    then show ?thesis using plain_parses(2) [OF 5(2)] plain by (subst reread_op) (auto simp: parsePatchOp_def reread_plain)
  next
    case 7
    then show ?thesis using plain_parses(3) [OF 7(2)] plain by (subst reread_op) (auto simp: parsePatchOp_def reread_plain)
  next
    case 9
    then show ?thesis using parseEvidenceLink_again [OF 9(2)] by (subst reread_op) (simp_all add: parsePatchOp_def)
  qed (simp_all add: op_object_def parsePatchOp_def)
qed

lemma parse_ops_again:
  "parse_ops items = Some os \<Longrightarrow> list_all plain_json items \<Longrightarrow> parse_ops (map (reread \<circ> op_object) os) = Some os"
  by (induction items arbitrary: os) (auto simp: parsePatchOp_again split: option.splits)

lemma prop_reread:
  assumes "distinct (map fst es)"
  shows "js_prop (reread (JObj es)) k = (if js_prop (JObj es) k = JUndef then JUndef else reread (js_prop (JObj es) k))"
  using assms
proof (induction es)
  case (Cons e es)
  obtain k' v where e: "e = (k', v)" by fastforce
  have "map_of es k' = None" using Cons.prems e by (simp add: map_of_eq_None_iff)
  then show ?case using Cons e by auto
qed simp

lemma parse_patch_object:
  assumes "parse_ops (map (reread \<circ> op_object) (ops p)) = Some (ops p)"
  shows "parsePatchDocument (reread (patch_object p)) = Some p"
proof -
  have rec: "isRecord (reread (patch_object p))" by (simp add: patch_object_def)
  have field: "reread (or_undefined x) = or_undefined x" for x by (cases x) (simp_all add: or_undefined_def)
  have props: "js_prop (reread (patch_object p)) ''kind'' = JStr ''sui-sensemaking-patch''" "js_prop (reread (patch_object p)) ''version'' = JNum (Finite 1)"
    "js_prop (reread (patch_object p)) ''baseDocSignature'' = or_undefined (baseDocSignature p)"
    "js_prop (reread (patch_object p)) ''author'' = or_undefined (patch_author p)"
    "js_prop (reread (patch_object p)) ''authorNote'' = or_undefined (authorNote p)"
    "js_prop (reread (patch_object p)) ''sourceApp'' = or_undefined (sourceApp p)"
    "js_prop (reread (patch_object p)) ''patchFingerprint'' = or_undefined (patchFingerprint p)"
    "js_prop (reread (patch_object p)) ''patchId'' = or_undefined (patchId p)"
    "js_prop (reread (patch_object p)) ''ops'' = JArr (map (reread \<circ> op_object) (ops p))"
    unfolding patch_object_def by (subst prop_reread, simp, simp add: field op_object_def)+
  have opt: "as_string (or_undefined x) = x" "or_undefined x = JUndef \<or> isString (or_undefined x)" for x by (cases x; simp add: or_undefined_def)+
  show ?thesis
    unfolding parsePatchDocument_def opt_prop_def props json.case assms using rec opt by simp
qed

lemma object_without_fingerprint:
  "computePatchFingerprint numStr sha (patch_object (p\<lparr>patchFingerprint := x\<rparr>)) = computePatchFingerprint numStr sha (patch_object p)"
  by (simp add: computePatchFingerprint_def patch_object_def)

lemma export_ops: "ops (buildPatchForExport numStr sha p md) = ops p"
  by (simp add: buildPatchForExport_def Let_def)

lemma export_fingerprint:
  "patchFingerprint (buildPatchForExport numStr sha p md) =
     Some (computePatchFingerprint numStr sha (patch_object (buildPatchForExport numStr sha p md)))"
  unfolding buildPatchForExport_def Let_def by (simp add: object_without_fingerprint)

lemma verify_own_fingerprint:
  assumes "patchFingerprint p = Some (computePatchFingerprint numStr sha (patch_object p))" "\<And>t. sha t \<noteq> []"
  shows "fp_ok (verifyPatchFingerprint numStr sha (patch_object p))"
proof -
  have "js_prop (patch_object p) ''patchFingerprint'' = or_undefined (patchFingerprint p)" by (simp add: patch_object_def)
  moreover have "computePatchFingerprint numStr sha (patch_object p) \<noteq> []" using assms(2) by (simp add: computePatchFingerprint_def)
  ultimately show ?thesis using assms(1) by (simp add: verifyPatchFingerprint_def or_undefined_def Let_def)
qed

section \<open>Properties\<close>

text \<open>C26. An exported patch is accepted where it is imported. A patch read from a file, exported with any metadata, written as JSON
  and read again is parsed to exactly the exported patch, operations included, and its fingerprint verifies. A digest is never
  the empty text.\<close>

theorem exported_patch_verifies:
  assumes "parsePatchDocument v = Some p" and "plain_json v" and "\<And>t. sha t \<noteq> []"
  shows "let q = buildPatchForExport numStr sha p md in
    parsePatchDocument (reread (patch_object q)) = Some q \<and> ops q = ops p \<and> fp_ok (verifyPatchFingerprint numStr sha (patch_object q))"
proof -
  obtain items where "js_prop v ''ops'' = JArr items" "parse_ops items = Some (ops p)"
    using assms(1) by (auto simp: parsePatchDocument_def split: if_splits json.splits)
  moreover from this have "list_all plain_json items" using plain_prop [OF assms(2), of "''ops''"] by simp
  ultimately have "parse_ops (map (reread \<circ> op_object) (ops p)) = Some (ops p)" using parse_ops_again by blast
  then have "parsePatchDocument (reread (patch_object (buildPatchForExport numStr sha p md))) = Some (buildPatchForExport numStr sha p md)"
    by (intro parse_patch_object) (simp add: export_ops)
  then show ?thesis
    using verify_own_fingerprint [OF export_fingerprint assms(3)] by (simp only: Let_def export_ops simp_thms)
qed

text \<open>The order of the operations does not count, as long as their identifiers differ.\<close>

lemma sort_by_key_cong:
  assumes "mset xs = mset ys" "distinct (map f xs)"
  shows "sort_by (\<lambda>l r. code_unit_le (f l) (f r)) xs = sort_by (\<lambda>l r. code_unit_le (f l) (f r)) ys"
proof -
  let ?s = "sort_by (\<lambda>l r. code_unit_le (f l) (f r))"
  have m: "map f (?s zs) = sort_by code_unit_le (map f zs)" for zs
    by (rule sort_by_map [symmetric]) simp
  have "mset (map f xs) = mset (map f ys)" using assms(1) by simp
  then have "map f (?s xs) = map f (?s ys)" unfolding m by (rule cu.sort_by_cong_mset)
  moreover have "set (?s xs) = set xs" "set (?s ys) = set xs" using mset_eq_setD [OF assms(1)] by simp_all
  ultimately show ?thesis using assms(2) by (intro map_inj_on [of f]) (simp_all add: distinct_map)
qed

lemma op_object_key: "op_sort_key (op_object op) = op_id op"
  by (simp add: op_sort_key_def op_object_def)

lemma fingerprint_ignores_order:
  assumes "mset os = mset (ops p)" "distinct (map op_id (ops p))"
  shows "computePatchFingerprint numStr sha (patch_object (p\<lparr>ops := os\<rparr>)) = computePatchFingerprint numStr sha (patch_object p)"
proof -
  have "op_sort_key \<circ> op_object = op_id" by (simp add: fun_eq_iff op_object_key)
  then have eq: "in_fingerprint_order [''ops''] (map op_object os) = in_fingerprint_order [''ops''] (map op_object (ops p))"
    unfolding in_fingerprint_order_def using assms by (simp only: if_True simp_thms) (intro sort_by_key_cong [symmetric], simp_all)
  have n: "normalizeForFingerprint (JArr (map op_object os)) [''ops''] = normalizeForFingerprint (JArr (map op_object (ops p))) [''ops'']"
    by (simp only: normalizeForFingerprint.simps eq)
  have "normalizeForFingerprint (JObj (es @ [(''ops'', v), x])) [] = normalizeForFingerprint (JObj (es @ [(''ops'', w), x])) []"
    if "normalizeForFingerprint v [''ops''] = normalizeForFingerprint w [''ops'']" for es v w x
  proof -
    let ?g = "\<lambda>(key, item). (key, normalizeForFingerprint item ([] @ [key]))"
    have "map ?g (sort_by (\<lambda>l r. code_unit_le (fst l) (fst r)) zs) = sort_by (\<lambda>l r. code_unit_le (fst l) (fst r)) (map ?g zs)" for zs
      by (rule sort_by_map [symmetric]) (simp add: case_prod_beta)
    then show ?thesis using that by simp
  qed
  from this [OF n, of "[(''kind'', JStr ''sui-sensemaking-patch''), (''version'', JNum (Finite 1)), (''baseDocSignature'', or_undefined (baseDocSignature p)),
      (''author'', or_undefined (patch_author p)), (''authorNote'', or_undefined (authorNote p)), (''sourceApp'', or_undefined (sourceApp p)),
      (''patchId'', or_undefined (patchId p))]" "(''patchFingerprint'', JNull)"]
  show ?thesis
    by (simp add: computePatchFingerprint_def patch_object_def canonicalizeJson_def Let_def del: normalizeForFingerprint.simps)
qed

text \<open>What is not stable: a patch object without some optional property, fingerprinted as it is, has another canonical text than the
  object that the parser makes of its own file, in which the property is there and undefined.\<close>

lemma fingerprint_sees_undefined:
  "canonicalizeJson numStr (JObj [(''patchId'', JUndef), (''patchFingerprint'', JNull)]) \<noteq>
   canonicalizeJson numStr (reread (JObj [(''patchId'', JUndef), (''patchFingerprint'', JNull)]))"
  by (simp add: canonicalizeJson_def toCanonicalJson_def json_quote_def escape_char_def)

definition ex_raw_patch :: json where
  "ex_raw_patch = JObj [(''kind'', JStr ''sui-sensemaking-patch''), (''version'', JNum (Finite 1)),
     (''ops'', JArr [JObj [(''id'', JStr ''op-1''), (''kind'', JStr ''delete_card''), (''cardId'', JStr ''c1'')]])]"

theorem exported_patch_verifies_witness:
  "fp_ok (verifyPatchFingerprint rat_text (\<lambda>t. ''d'' @ t) (patch_object (buildPatchForExport rat_text (\<lambda>t. ''d'' @ t) (mk_patch [DeleteCard ''op-1'' ''c1''])
     \<lparr>md_author = Some '' A '', md_authorNote = None, md_sourceApp = None\<rparr>)))"
proof -
  have "parsePatchDocument ex_raw_patch = Some (mk_patch [DeleteCard ''op-1'' ''c1''])"
    by (simp add: ex_raw_patch_def parsePatchDocument_def parsePatchOp_def opt_prop_def)
  moreover have "plain_json ex_raw_patch" by (simp add: ex_raw_patch_def)
  ultimately show ?thesis
    using exported_patch_verifies [of ex_raw_patch "mk_patch [DeleteCard ''op-1'' ''c1'']" "\<lambda>t. ''d'' @ t" rat_text] by (simp only: Let_def append_is_Nil_conv list.distinct simp_thms)
qed

end
