(* ===== verification/Json_Text.thy ===== *)
theory Json_Text
  imports Json_Value
begin

text \<open>
  The text of a JSON value: \<open>JSON.stringify(value, null, 2)\<close> and \<open>JSON.parse\<close> of the language's standard library, which
  \<open>domain/inquiry_bundle_io.ts\<close> uses to write and to read a bundle. The engine's number routines are the arguments \<open>numStr\<close>
  (as in \<open>Json_Value\<close>) and \<open>numOf\<close> (a literal to its value, \<open>None\<close> where it breaks the grammar). Characters are those of the model,
  U+0000 to U+00FF; an escape of a higher code unit is therefore not read. Integer-like keys, which an engine moves to the front of an
  object, do not occur in the documents.

  Main result: \<open>parse_pretty\<close>, the text of a value reads back as that value.
\<close>

section \<open>Writing\<close>

definition line_gap :: "nat \<Rightarrow> string" where
  "line_gap n = CHR 0x0A # replicate (2 * n) (CHR '' '')"

fun pretty :: "(rat \<Rightarrow> string) \<Rightarrow> nat \<Rightarrow> json \<Rightarrow> string" where
  "pretty numStr n JUndef = ''null''"
| "pretty numStr n JNull = ''null''"
| "pretty numStr n (JBool b) = (if b then ''true'' else ''false'')"
| "pretty numStr n (JNum x) = stringify_num numStr x"
| "pretty numStr n (JStr s) = json_quote s"
| "pretty numStr n (JArr vs) = (if vs = [] then ''[]'' else
     ''['' @ line_gap (Suc n) @ join_with ('','' @ line_gap (Suc n)) (map (pretty numStr (Suc n)) vs) @ line_gap n @ '']'')"
| "pretty numStr n (JObj es) =
     (let kept = concat (map (\<lambda>(k, v). if v = JUndef then [] else [json_quote k @ '': '' @ pretty numStr (Suc n) v]) es)
      in if kept = [] then ''{}'' else
         ''{'' @ line_gap (Suc n) @ join_with ('','' @ line_gap (Suc n)) kept @ line_gap n @ ''}'')"

section \<open>Reading\<close>

definition json_ws :: "char \<Rightarrow> bool" where
  "json_ws c \<longleftrightarrow> c = CHR '' '' \<or> c = CHR 0x09 \<or> c = CHR 0x0A \<or> c = CHR 0x0D"

abbreviation skip_ws :: "string \<Rightarrow> string" where
  "skip_ws \<equiv> dropWhile json_ws"

definition hex_read :: "char \<Rightarrow> nat option" where
  "hex_read c = (case find_index (\<lambda>d. d = c) ''0123456789abcdef'' of Some n \<Rightarrow> Some n
     | None \<Rightarrow> find_index (\<lambda>d. d = c) ''0123456789ABCDEF'')"

text \<open>One character of a string literal, after the quotation mark that ends it has been ruled out.\<close>

fun escaped :: "string \<Rightarrow> (char \<times> string) option" where
  "escaped (e # r) =
     (if e = CHR 0x22 \<or> e = CHR 0x5C \<or> e = CHR ''/'' then Some (e, r)
      else if e = CHR ''b'' then Some (CHR 0x08, r) else if e = CHR ''t'' then Some (CHR 0x09, r)
      else if e = CHR ''n'' then Some (CHR 0x0A, r) else if e = CHR ''f'' then Some (CHR 0x0C, r)
      else if e = CHR ''r'' then Some (CHR 0x0D, r)
      else if e = CHR ''u'' then (case map hex_read (take 4 r) of
          [Some a, Some b, Some c, Some d] \<Rightarrow> if a = 0 \<and> b = 0 then Some (char_of (16 * c + d), drop 4 r) else None
        | _ \<Rightarrow> None)
      else None)"
| "escaped [] = None"

definition string_char :: "string \<Rightarrow> (char \<times> string) option" where
  "string_char s = (case s of [] \<Rightarrow> None | c # r \<Rightarrow>
     if c = CHR 0x5C then escaped r else if (of_char c :: nat) < 32 then None else Some (c, r))"

lemma escaped_shorter: "escaped s = Some (c, r) \<Longrightarrow> length r < length s"
  by (cases s) (auto split: if_splits list.splits option.splits)

lemma string_char_shorter [termination_simp]: "string_char s = Some (c, r) \<Longrightarrow> length r < length s"
  by (auto simp: string_char_def dest!: escaped_shorter split: list.splits if_splits)

function parse_string :: "string \<Rightarrow> (string \<times> string) option" where
  "parse_string s =
     (if s = [] then None else if hd s = CHR 0x22 then Some ([], tl s)
      else case string_char s of None \<Rightarrow> None
        | Some (c, r) \<Rightarrow> map_option (\<lambda>(cs, t). (c # cs, t)) (parse_string r))"
  by pat_completeness auto
termination by (relation "measure length") (auto dest: string_char_shorter)

declare parse_string.simps [simp del]

definition number_char :: "char \<Rightarrow> bool" where
  "number_char c \<longleftrightarrow> c \<in> set ''0123456789+-.eE''"

fun parse_value :: "(string \<Rightarrow> js_num option) \<Rightarrow> nat \<Rightarrow> string \<Rightarrow> (json \<times> string) option"
  and parse_items :: "(string \<Rightarrow> js_num option) \<Rightarrow> nat \<Rightarrow> string \<Rightarrow> (json list \<times> string) option"
  and parse_members :: "(string \<Rightarrow> js_num option) \<Rightarrow> nat \<Rightarrow> string \<Rightarrow> ((string \<times> json) list \<times> string) option" where
  "parse_value numOf 0 s = None"
| "parse_value numOf (Suc n) s =
     (case skip_ws s of [] \<Rightarrow> None | c # r \<Rightarrow>
        if c = CHR 0x22 then map_option (\<lambda>(cs, t). (JStr cs, t)) (parse_string r)
        else if c = CHR ''['' then
          (if skip_ws r \<noteq> [] \<and> hd (skip_ws r) = CHR '']'' then Some (JArr [], tl (skip_ws r))
           else map_option (\<lambda>(vs, t). (JArr vs, t)) (parse_items numOf n r))
        else if c = CHR ''{'' then
          (if skip_ws r \<noteq> [] \<and> hd (skip_ws r) = CHR ''}'' then Some (JObj [], tl (skip_ws r))
           else map_option (\<lambda>(es, t). (JObj (new_map es), t)) (parse_members numOf n r))
        else if take 4 (c # r) = ''true'' then Some (JBool True, drop 4 (c # r))
        else if take 5 (c # r) = ''false'' then Some (JBool False, drop 5 (c # r))
        else if take 4 (c # r) = ''null'' then Some (JNull, drop 4 (c # r))
        else map_option (\<lambda>x. (JNum x, dropWhile number_char (c # r))) (numOf (takeWhile number_char (c # r))))"
| "parse_items numOf 0 s = None"
| "parse_items numOf (Suc n) s =
     (case parse_value numOf n s of None \<Rightarrow> None | Some (v, t) \<Rightarrow>
        (case skip_ws t of [] \<Rightarrow> None | c # r \<Rightarrow>
           if c = CHR '','' then map_option (\<lambda>(vs, u). (v # vs, u)) (parse_items numOf n r)
           else if c = CHR '']'' then Some ([v], r) else None))"
| "parse_members numOf 0 s = None"
| "parse_members numOf (Suc n) s =
     (case skip_ws s of [] \<Rightarrow> None | q # s' \<Rightarrow> if q \<noteq> CHR 0x22 then None else
      (case parse_string s' of None \<Rightarrow> None | Some (k, t) \<Rightarrow>
        (case skip_ws t of [] \<Rightarrow> None | colon # t' \<Rightarrow> if colon \<noteq> CHR '':'' then None else
          (case parse_value numOf n t' of None \<Rightarrow> None | Some (v, u) \<Rightarrow>
            (case skip_ws u of [] \<Rightarrow> None | c # r \<Rightarrow>
               if c = CHR '','' then map_option (\<lambda>(es, w). ((k, v) # es, w)) (parse_members numOf n r)
               else if c = CHR ''}'' then Some ([(k, v)], r) else None)))))"

definition jsonParse :: "(string \<Rightarrow> js_num option) \<Rightarrow> string \<Rightarrow> json option" where
  "jsonParse numOf s = (case parse_value numOf (2 * length s + 1) s of None \<Rightarrow> None
     | Some (v, r) \<Rightarrow> if skip_ws r = [] then Some v else None)"

section \<open>Reading back\<close>

definition stop :: "string \<Rightarrow> bool" where
  "stop r \<longleftrightarrow> r = [] \<or> \<not> number_char (hd r)"

lemma hex_read_digit: "n < 16 \<Longrightarrow> hex_read (hex_digit n) = Some n"
proof -
  assume "n < 16"
  then have "n \<in> {0, 1, 2, 3, 4, 5, 6, 7, 8, 9, 10, 11, 12, 13, 14, 15}" by (simp, arith)
  then show ?thesis by (elim insertE) (simp_all add: hex_read_def hex_digit_def)
qed

lemma string_char_escape: "string_char (escape_char c @ r) = Some (c, r)"
proof -
  have zero: "hex_read (CHR ''0'') = Some 0" by (simp add: hex_read_def)
  have "escaped (CHR ''u'' # CHR ''0'' # CHR ''0'' # hex_digit (of_char c div 16) # hex_digit (of_char c mod 16) # r) = Some (c, r)"
    if "(of_char c :: nat) < 32"
    using that zero by (simp add: hex_read_digit)
  then show ?thesis by (auto simp: escape_char_def string_char_def)
qed

lemma parse_string_quoted: "parse_string (concat (map escape_char s) @ CHR 0x22 # r) = Some (s, r)"
proof (induction s)
  case Nil
  then show ?case by (subst parse_string.simps) simp
next
  case (Cons c s)
  obtain x xs where x: "escape_char c = x # xs" "x \<noteq> CHR 0x22" using escape_char_hd by blast
  then show ?case
    using Cons string_char_escape [of c "concat (map escape_char s) @ CHR 0x22 # r"]
    by (subst parse_string.simps) simp
qed

lemma ws_chars [simp]:
  "json_ws (CHR '' '')" "\<not> json_ws (CHR '','')" "\<not> json_ws (CHR '':'')" "\<not> json_ws (CHR '']'')" "\<not> json_ws (CHR ''}'')"
  "\<not> json_ws (CHR 0x22)" "\<not> json_ws (CHR ''['')" "\<not> json_ws (CHR ''{'')"
  by (simp_all add: json_ws_def)

lemma skip_ws_append: "list_all json_ws w \<Longrightarrow> skip_ws (w @ s) = skip_ws s"
  by (induction w) auto

lemma line_gap_ws [simp]: "list_all json_ws (line_gap n)"
  by (simp add: line_gap_def json_ws_def list_all_iff)

lemma parse_value_skips: "list_all json_ws w \<Longrightarrow> parse_value numOf n (w @ s) = parse_value numOf n s"
  by (cases n) (simp_all only: parse_value.simps skip_ws_append)

lemma stop_after: "list_all json_ws w \<Longrightarrow> stop (w @ c # r) \<longleftrightarrow> w \<noteq> [] \<or> \<not> number_char c"
  by (cases w) (auto simp: stop_def json_ws_def number_char_def)

definition reads_back :: "(string \<Rightarrow> js_num option) \<Rightarrow> json \<Rightarrow> string \<Rightarrow> bool" where
  "reads_back numOf v text \<longleftrightarrow>
     (\<forall>r n. stop r \<longrightarrow> 2 * length (text @ r) < n \<longrightarrow> parse_value numOf n (text @ r) = Some (v, r))"

lemma reads_backD: "reads_back numOf v text \<Longrightarrow> list_all json_ws w \<Longrightarrow> stop r \<Longrightarrow> 2 * length (text @ r) < n \<Longrightarrow>
    parse_value numOf n (w @ text @ r) = Some (v, r)"
  unfolding reads_back_def parse_value_skips by blast

lemma parse_items_join:
  assumes "vs \<noteq> []" "\<forall>v\<in>set vs. reads_back numOf v (f v)" "list_all json_ws w" "list_all json_ws gap" "list_all json_ws w'"
  shows "2 * length (w @ join_with ('','' @ gap) (map f vs) @ w' @ CHR '']'' # r) + 1 < n \<Longrightarrow>
    parse_items numOf n (w @ join_with ('','' @ gap) (map f vs) @ w' @ CHR '']'' # r) = Some (vs, r)"
  using assms
proof (induction vs arbitrary: n w rule: list_nonempty_induct)
  case (single v)
  then obtain m where n: "n = Suc m" by (cases n) simp_all
  have "parse_value numOf m (w @ f v @ w' @ CHR '']'' # r) = Some (v, w' @ CHR '']'' # r)"
    using single by (intro reads_backD) (simp_all add: n stop_after number_char_def)
  then show ?case using single by (simp add: n skip_ws_append)
next
  case (cons v vs)
  then obtain m where n: "n = Suc m" by (cases n) simp_all
  let ?rest = "gap @ join_with ('','' @ gap) (map f vs) @ w' @ CHR '']'' # r"
  have "parse_value numOf m (w @ f v @ CHR '','' # ?rest) = Some (v, CHR '','' # ?rest)"
    using cons by (intro reads_backD) (simp_all add: n join_with_Cons stop_def number_char_def)
  moreover have "parse_items numOf m ?rest = Some (vs, r)"
    using cons by (intro cons.IH) (simp_all add: n join_with_Cons)
  ultimately show ?case using cons(1) by (simp add: n join_with_Cons)
qed

lemma parse_members_join:
  assumes "es \<noteq> []" "\<forall>(k, v)\<in>set es. reads_back numOf v (f v)" "list_all json_ws w" "list_all json_ws gap" "list_all json_ws w'"
  shows "2 * length (w @ join_with ('','' @ gap) (map (\<lambda>(k, v). json_quote k @ '': '' @ f v) es) @ w' @ CHR ''}'' # r) + 1 < n \<Longrightarrow>
    parse_members numOf n (w @ join_with ('','' @ gap) (map (\<lambda>(k, v). json_quote k @ '': '' @ f v) es) @ w' @ CHR ''}'' # r) = Some (es, r)"
  using assms
proof (induction es arbitrary: n w rule: list_nonempty_induct)
  case (single e)
  obtain k v where e: "e = (k, v)" by fastforce
  from single obtain m where n: "n = Suc m" by (cases n) simp_all
  have "parse_value numOf m ('' '' @ f v @ w' @ CHR ''}'' # r) = Some (v, w' @ CHR ''}'' # r)"
    using single by (intro reads_backD) (simp_all add: n e stop_after number_char_def)
  then show ?case
    using single parse_string_quoted [of k "'': '' @ f v @ w' @ CHR ''}'' # r"]
    by (simp add: n e skip_ws_append json_quote_def)
next
  case (cons e es)
  obtain k v where e: "e = (k, v)" by fastforce
  from cons obtain m where n: "n = Suc m" by (cases n) simp_all
  let ?rest = "gap @ join_with ('','' @ gap) (map (\<lambda>(k, v). json_quote k @ '': '' @ f v) es) @ w' @ CHR ''}'' # r"
  have "parse_value numOf m ('' '' @ f v @ CHR '','' # ?rest) = Some (v, CHR '','' # ?rest)"
    using cons by (intro reads_backD) (simp_all add: n e join_with_Cons stop_def number_char_def)
  moreover have "parse_members numOf m ?rest = Some (es, r)"
    using cons by (intro cons.IH) (simp_all add: n join_with_Cons)
  ultimately show ?case
    using cons(1) cons.prems parse_string_quoted [of k "'': '' @ f v @ CHR '','' # ?rest"]
    by (simp add: n e join_with_Cons skip_ws_append json_quote_def)
qed

fun writable :: "json \<Rightarrow> bool" where
  "writable JUndef \<longleftrightarrow> False"
| "writable (JNum n) \<longleftrightarrow> (case n of Finite _ \<Rightarrow> True | _ \<Rightarrow> False)"
| "writable (JArr vs) \<longleftrightarrow> list_all writable vs"
| "writable (JObj es) \<longleftrightarrow> distinct (map fst es) \<and> list_all (\<lambda>(k, v). writable v) es"
| "writable v \<longleftrightarrow> True"

definition number_routines :: "(rat \<Rightarrow> string) \<Rightarrow> (string \<Rightarrow> js_num option) \<Rightarrow> bool" where
  "number_routines numStr numOf \<longleftrightarrow> number_format numStr \<and> (\<forall>q. numOf (numStr q) = Some (Finite q))"

lemma new_map_distinct_id: "distinct (map fst es) \<Longrightarrow> new_map es = es"
proof -
  have fresh: "k \<notin> fst ` set m \<Longrightarrow> AList.update k v m = m @ [(k, v)]" for k v and m :: "('k \<times> 'v) list"
    by (induction m) auto
  have "distinct (map fst (m @ es)) \<Longrightarrow> fold (\<lambda>(k, v) m. AList.update k v m) es m = m @ es" for m and es :: "('k \<times> 'v) list"
  proof (induction es arbitrary: m)
    case (Cons e es)
    obtain k v where e: "e = (k, v)" by fastforce
    have "k \<notin> fst ` set m" using Cons.prems by (auto simp: e)
    then show ?case using Cons.IH [of "m @ [(k, v)]"] Cons.prems by (simp add: e fresh)
  qed simp
  from this [of "[]" es] show "distinct (map fst es) \<Longrightarrow> new_map es = es" by (simp add: new_map_def)
qed

lemma number_reads_back:
  assumes "number_routines numStr numOf"
  shows "reads_back numOf (JNum (Finite q)) (numStr q)"
  unfolding reads_back_def
proof (intro allI impI)
  fix r :: string and n :: nat
  assume r: "stop r" and "2 * length (numStr q @ r) < n"
  then obtain m where n: "n = Suc m" by (cases n) simp_all
  have nf: "numStr q \<noteq> []" "hd (numStr q) \<in> set ''0123456789-''" "set (numStr q) \<subseteq> num_chars"
    using assms [unfolded number_routines_def number_format_def, THEN conjunct1, THEN conjunct2, THEN spec [of _ q]] by simp_all
  have all: "\<forall>x\<in>set (numStr q). number_char x"
  proof
    fix x assume "x \<in> set (numStr q)"
    then have "x \<in> num_chars" by (rule subsetD [OF nf(3)])
    then show "number_char x" unfolding num_chars_def number_char_def by (simp only: list.set insert_iff empty_iff) (elim disjE; simp)
  qed
  obtain c cs where c: "numStr q = c # cs" "c \<in> set ''0123456789-''"
    using nf(1,2) by (cases "numStr q") simp_all
  have first: "\<not> json_ws c" "c \<noteq> CHR 0x22" "c \<noteq> CHR ''[''" "c \<noteq> CHR ''{''" "c \<noteq> CHR ''t''" "c \<noteq> CHR ''f''" "c \<noteq> CHR ''n''"
    using c(2) by (simp only: list.set insert_iff empty_iff, elim disjE FalseE; simp add: json_ws_def)+
  have parts: "takeWhile number_char (numStr q @ r) = numStr q" "dropWhile number_char (numStr q @ r) = r"
    using all r by (cases r; simp add: takeWhile_append2 dropWhile_append2 stop_def)+
  have "numOf (numStr q) = Some (Finite q)" using assms by (simp add: number_routines_def)
  then show "parse_value numOf n (numStr q @ r) = Some (JNum (Finite q), r)"
    using parts first unfolding c(1) by (simp add: n)
qed

lemma reads_backI:
  assumes "\<And>r m. stop r \<Longrightarrow> 2 * length (text @ r) \<le> m \<Longrightarrow> parse_value numOf (Suc m) (text @ r) = Some (v, r)"
  shows "reads_back numOf v text"
  unfolding reads_back_def
proof (intro allI impI)
  fix r :: string and n :: nat
  assume "stop r" "2 * length (text @ r) < n"
  then show "parse_value numOf n (text @ r) = Some (v, r)" using assms [of r "n - 1"] by (cases n) simp_all
qed

lemma first_not_ws:
  assumes "vs \<noteq> []" "\<And>v. v \<in> set vs \<Longrightarrow> f v \<noteq> [] \<and> \<not> json_ws (hd (f v)) \<and> hd (f v) \<noteq> c"
  shows "skip_ws (line_gap n @ join_with sep (map f vs) @ r) \<noteq> [] \<and> hd (skip_ws (line_gap n @ join_with sep (map f vs) @ r)) \<noteq> c"
proof -
  obtain v ws where vs: "vs = v # ws" using assms(1) by (cases vs) simp_all
  obtain x xs where "f v = x # xs" "\<not> json_ws x" "x \<noteq> c" using assms(2) [of v] vs by (cases "f v") auto
  then show ?thesis by (simp add: vs join_with_Cons skip_ws_append)
qed

lemma pretty_first:
  assumes "number_format numStr" "writable v"
  shows "pretty numStr n v \<noteq> [] \<and> \<not> json_ws (hd (pretty numStr n v)) \<and> hd (pretty numStr n v) \<noteq> CHR '']''"
proof (cases v)
  case (JNum x)
  then obtain q where "x = Finite q" using assms(2) by (cases x) simp_all
  moreover have "hd (numStr q) \<in> set ''0123456789-''" "numStr q \<noteq> []" using assms(1) by (auto simp: number_format_def)
  ultimately show ?thesis by (auto simp: JNum stringify_num_def json_ws_def)
qed (simp_all add: json_ws_def json_quote_def Let_def)

lemma kept_writable:
  "list_all (\<lambda>(k, v). writable v) es \<Longrightarrow>
    concat (map (\<lambda>(k, v). if v = JUndef then [] else [json_quote k @ '': '' @ g v]) es) = map (\<lambda>(k, v). json_quote k @ '': '' @ g v) es"
  by (induction es) auto

lemma literals_read_back:
  "reads_back numOf JNull ''null''" "reads_back numOf (JBool True) ''true''" "reads_back numOf (JBool False) ''false''"
  by (rule reads_backI; simp add: json_ws_def)+

lemma pretty_reads_back:
  "number_routines numStr numOf \<Longrightarrow> writable v \<Longrightarrow> reads_back numOf v (pretty numStr n v)"
proof (induction numStr n v rule: pretty.induct)
  case (5 numStr n s)
  show ?case
    by (rule reads_backI) (simp add: json_quote_def parse_string_quoted)
next
  case (6 numStr n vs)
  show ?case
  proof (cases "vs = []")
    case True
    then show ?thesis by (intro reads_backI) simp
  next
    case False
    have items: "\<forall>v\<in>set vs. reads_back numOf v (pretty numStr (Suc n) v)"
      using 6 False by (simp add: list_all_iff)
    have nf: "number_format numStr" using 6(2) by (simp add: number_routines_def)
    have first: "skip_ws (line_gap (Suc n) @ join_with ('','' @ line_gap (Suc n)) (map (pretty numStr (Suc n)) vs) @ r) \<noteq> [] \<and>
        hd (skip_ws (line_gap (Suc n) @ join_with ('','' @ line_gap (Suc n)) (map (pretty numStr (Suc n)) vs) @ r)) \<noteq> CHR '']''" for r
      by (rule first_not_ws [OF False pretty_first [OF nf]]) (use 6 in \<open>simp add: list_all_iff\<close>)
    show ?thesis
    proof (rule reads_backI)
      fix r :: string and m :: nat
      let ?text = "line_gap (Suc n) @ join_with ('','' @ line_gap (Suc n)) (map (pretty numStr (Suc n)) vs) @ line_gap n @ CHR '']'' # r"
      assume "stop r" "2 * length (pretty numStr n (JArr vs) @ r) \<le> m"
      then have "parse_items numOf m ?text = Some (vs, r)"
        using False items by (intro parse_items_join) simp_all
      then show "parse_value numOf (Suc m) (pretty numStr n (JArr vs) @ r) = Some (JArr vs, r)"
        using False first [of "line_gap n @ CHR '']'' # r"] by simp
    qed
  qed
next
  case (7 numStr n es)
  let ?f = "\<lambda>(k, v). json_quote k @ '': '' @ pretty numStr (Suc n) v"
  from 7 have ok: "distinct (map fst es)" "list_all (\<lambda>(k, v). writable v) es" by simp_all
  have body: "pretty numStr n (JObj es) = (if es = [] then ''{}'' else
      ''{'' @ line_gap (Suc n) @ join_with ('','' @ line_gap (Suc n)) (map ?f es) @ line_gap n @ ''}'')"
    using kept_writable [OF ok(2), of "pretty numStr (Suc n)"] by (simp add: Let_def)
  show ?case
  proof (cases "es = []")
    case True
    then show ?thesis by (intro reads_backI) (simp add: new_map_def)
  next
    case False
    have members: "\<forall>(k, v)\<in>set es. reads_back numOf v (pretty numStr (Suc n) v)"
      using 7 ok(2) by (force simp: list_all_iff)
    have first: "skip_ws (line_gap (Suc n) @ join_with ('','' @ line_gap (Suc n)) (map ?f es) @ r) \<noteq> [] \<and>
        hd (skip_ws (line_gap (Suc n) @ join_with ('','' @ line_gap (Suc n)) (map ?f es) @ r)) \<noteq> CHR ''}''" for r
      using False by (intro first_not_ws) (auto simp: json_quote_def)
    show ?thesis
    proof (rule reads_backI)
      fix r :: string and m :: nat
      let ?text = "line_gap (Suc n) @ join_with ('','' @ line_gap (Suc n)) (map ?f es) @ line_gap n @ CHR ''}'' # r"
      assume "stop r" "2 * length (pretty numStr n (JObj es) @ r) \<le> m"
      then have "parse_members numOf m ?text = Some (es, r)"
        using False members by (intro parse_members_join) (simp_all add: body del: pretty.simps)
      then show "parse_value numOf (Suc m) (pretty numStr n (JObj es) @ r) = Some (JObj es, r)"
        using False first [of "line_gap n @ CHR ''}'' # r"] new_map_distinct_id [OF ok(1)] by (simp add: body del: pretty.simps)
    qed
  qed
qed (use number_reads_back literals_read_back in \<open>auto simp: stringify_num_def split: js_num.splits\<close>)

theorem parse_pretty:
  assumes "number_routines numStr numOf" "writable v"
  shows "jsonParse numOf (pretty numStr 0 v @ [CHR 0x0A]) = Some v"
proof -
  have "stop [CHR 0x0A]" "skip_ws [CHR 0x0A] = []" by (simp_all add: stop_def number_char_def json_ws_def)
  moreover have "parse_value numOf (2 * length (pretty numStr 0 v @ [CHR 0x0A]) + 1) (pretty numStr 0 v @ [CHR 0x0A]) = Some (v, [CHR 0x0A])"
    by (rule pretty_reads_back [OF assms, unfolded reads_back_def, rule_format, OF calculation(1)]) simp
  ultimately show ?thesis by (simp only: jsonParse_def option.case prod.case simp_thms if_True)
qed

section \<open>The fuel is enough\<close>

text \<open>No text is refused for want of fuel: every amount above twice the length of the text gives the same answer.\<close>

lemma skip_ws_le: "length (skip_ws s) \<le> length s"
  by (rule length_dropWhile_le)

lemma skip_ws_Cons: "skip_ws s = c # r \<Longrightarrow> length r < length s"
  using skip_ws_le [of s] by simp

lemma parse_string_shorter: "parse_string s = Some (cs, t) \<Longrightarrow> length t < length s"
proof (induction s arbitrary: cs rule: parse_string.induct)
  case (1 s)
  show ?case
  proof (cases "s = [] \<or> hd s = CHR 0x22")
    case True
    then show ?thesis using 1(2) by (subst (asm) parse_string.simps) (auto split: if_splits)
  next
    case False
    then obtain c r ds where step: "string_char s = Some (c, r)" "parse_string r = Some (ds, t)"
      using 1(2) by (subst (asm) parse_string.simps) (auto split: option.splits)
    then have "length t < length r" using 1(1) False by blast
    then show ?thesis using string_char_shorter [OF step(1)] by simp
  qed
qed

lemma parse_value_cases:
  assumes "parse_value numOf (Suc n) s = Some (v, t)"
  obtains c r where "skip_ws s = c # r" "length t \<le> length (c # r)"
    | r vs where "length r < length s" "parse_items numOf n r = Some (vs, t)"
    | r es where "length r < length s" "parse_members numOf n r = Some (es, t)"
proof -
  obtain c r where cr: "skip_ws s = c # r" using assms by (cases "skip_ws s") simp_all
  have d: "length (dropWhile number_char (c # r)) \<le> length (c # r)" "length (tl (skip_ws r)) \<le> length (c # r)"
    using skip_ws_le [of r] length_dropWhile_le [of number_char "c # r"] by simp_all
  note step = assms [simplified cr parse_value.simps list.case]
  consider "c = CHR ''['' \<and> \<not> (skip_ws r \<noteq> [] \<and> hd (skip_ws r) = CHR '']'')"
    | "c = CHR ''{'' \<and> \<not> (skip_ws r \<noteq> [] \<and> hd (skip_ws r) = CHR ''}'')"
    | "\<not> (c = CHR ''['' \<and> \<not> (skip_ws r \<noteq> [] \<and> hd (skip_ws r) = CHR '']''))"
      "\<not> (c = CHR ''{'' \<and> \<not> (skip_ws r \<noteq> [] \<and> hd (skip_ws r) = CHR ''}''))" by blast
  then show thesis
  proof cases
    case 1
    then show thesis using step that(2) [OF skip_ws_Cons [OF cr]] by (auto split: if_splits)
  next
    case 2
    then show thesis using step that(3) [OF skip_ws_Cons [OF cr]] by (auto split: if_splits)
  next
    case 3
    then have "length t \<le> length (c # r)"
      using step d by (auto split: if_splits dest!: parse_string_shorter)
    then show thesis by (rule that(1) [OF cr])
  qed
qed

lemma parse_items_cases:
  assumes "parse_items numOf (Suc n) s = Some (vs, t)"
  obtains v u c r where "parse_value numOf n s = Some (v, u)" "skip_ws u = c # r" "t = r \<or> (\<exists>ws. parse_items numOf n r = Some (ws, t))"
  using assms by (auto split: option.splits prod.splits list.splits if_splits)

lemma parse_members_cases:
  assumes "parse_members numOf (Suc n) s = Some (es, t)"
  obtains q s' k w colon w' v u c r where "skip_ws s = q # s'" "parse_string s' = Some (k, w)" "skip_ws w = colon # w'"
    "parse_value numOf n w' = Some (v, u)" "skip_ws u = c # r" "t = r \<or> (\<exists>fs. parse_members numOf n r = Some (fs, t))"
  using assms by (auto split: option.splits prod.splits list.splits if_splits)

lemma parse_shorter:
  "(\<forall>s v t. parse_value numOf n s = Some (v, t) \<longrightarrow> length t \<le> length s) \<and>
   (\<forall>s vs t. parse_items numOf n s = Some (vs, t) \<longrightarrow> length t \<le> length s) \<and>
   (\<forall>s es t. parse_members numOf n s = Some (es, t) \<longrightarrow> length t \<le> length s)"
proof (induction n)
  case (Suc n)
  have vals: "length t \<le> length s" if "parse_value numOf n s = Some (v, t)" for s v t using Suc that by blast
  have items: "length t \<le> length s" if "parse_items numOf n s = Some (v, t)" for s v t using Suc that by blast
  have members: "length t \<le> length s" if "parse_members numOf n s = Some (v, t)" for s v t using Suc that by blast
  have "length t \<le> length s" if "parse_value numOf (Suc n) s = Some (v, t)" for s v t
    using that by (cases rule: parse_value_cases) (use skip_ws_Cons items members in fastforce)+
  moreover have "length t \<le> length s" if p: "parse_items numOf (Suc n) s = Some (v, t)" for s v t
  proof -
    from p obtain x u c r where "parse_value numOf n s = Some (x, u)" "skip_ws u = c # r" "t = r \<or> (\<exists>ws. parse_items numOf n r = Some (ws, t))"
      by (rule parse_items_cases)
    then have "length u \<le> length s" "length r < length u" "length t \<le> length r" using vals skip_ws_Cons items by blast+
    then show ?thesis by simp
  qed
  moreover have "length t \<le> length s" if p: "parse_members numOf (Suc n) s = Some (v, t)" for s v t
  proof -
    from p obtain q s' k w colon w' x u c r where "skip_ws s = q # s'" "parse_string s' = Some (k, w)" "skip_ws w = colon # w'"
      "parse_value numOf n w' = Some (x, u)" "skip_ws u = c # r" "t = r \<or> (\<exists>fs. parse_members numOf n r = Some (fs, t))"
      by (rule parse_members_cases)
    then have "length s' < length s" "length w < length s'" "length w' < length w" "length u \<le> length w'" "length r < length u" "length t \<le> length r"
      using vals skip_ws_Cons members parse_string_shorter by blast+
    then show ?thesis by simp
  qed
  ultimately show ?case by blast
qed simp

declare parse_value.simps [simp del] parse_items.simps [simp del] parse_members.simps [simp del]

lemma parse_fuel_step:
  assumes ih: "\<And>r n m. length r < length s \<Longrightarrow> 2 * length r < n \<Longrightarrow> 2 * length r < m \<Longrightarrow> parse_value numOf n r = parse_value numOf m r"
    "\<And>r n m. length r < length s \<Longrightarrow> 2 * length r + 1 < n \<Longrightarrow> 2 * length r + 1 < m \<Longrightarrow> parse_items numOf n r = parse_items numOf m r"
    "\<And>r n m. length r < length s \<Longrightarrow> 2 * length r + 1 < n \<Longrightarrow> 2 * length r + 1 < m \<Longrightarrow> parse_members numOf n r = parse_members numOf m r"
  shows "2 * length s < n \<Longrightarrow> 2 * length s < m \<Longrightarrow> parse_value numOf n s = parse_value numOf m s"
    "2 * length s + 1 < n \<Longrightarrow> 2 * length s + 1 < m \<Longrightarrow> parse_items numOf n s = parse_items numOf m s"
    "2 * length s + 1 < n \<Longrightarrow> 2 * length s + 1 < m \<Longrightarrow> parse_members numOf n s = parse_members numOf m s"
proof -
  have vals: "parse_value numOf n s = parse_value numOf m s" if fuel: "2 * length s < n" "2 * length s < m" for n m
  proof -
    obtain n' m' where nm: "n = Suc n'" "m = Suc m'" using fuel by (cases n; cases m) simp_all
    have eq: "parse_items numOf n' r = parse_items numOf m' r \<and> parse_members numOf n' r = parse_members numOf m' r" if "skip_ws s = c # r" for c r
      using skip_ws_Cons [OF that] fuel nm by (intro conjI ih(2) ih(3)) simp_all
    show ?thesis unfolding nm parse_value.simps by (rule list.case_cong [OF refl]) (rule refl, drule eq, elim conjE, simp only:)
  qed
  then show "2 * length s < n \<Longrightarrow> 2 * length s < m \<Longrightarrow> parse_value numOf n s = parse_value numOf m s" .
  assume fuel: "2 * length s + 1 < n" "2 * length s + 1 < m"
  then obtain n' m' where nm: "n = Suc n'" "m = Suc m'" by (cases n; cases m) simp_all
  have v: "parse_value numOf n' s = parse_value numOf m' s" by (rule vals) (use fuel nm in simp_all)
  have items: "parse_items numOf n' r = parse_items numOf m' r" if "parse_value numOf m' s = Some (x, t)" "skip_ws t = c # r" for x t c r
  proof -
    have "length r < length s" using parse_shorter that(1) skip_ws_Cons [OF that(2)] by fastforce
    then show ?thesis by (rule ih(2)) (use \<open>length r < length s\<close> fuel nm in simp_all)
  qed
  show "parse_items numOf n s = parse_items numOf m s"
  proof (cases "parse_value numOf m' s")
    case (Some p)
    obtain x t where p: "p = (x, t)" by fastforce
    show ?thesis
      using items [of x t] Some by (cases "skip_ws t") (simp_all add: nm parse_items.simps v p del: dropWhile_eq_Nil_conv)
  qed (simp add: nm parse_items.simps v)
  have members: "parse_value numOf n' w' = parse_value numOf m' w' \<and>
      (\<forall>x u c r. parse_value numOf m' w' = Some (x, u) \<longrightarrow> skip_ws u = c # r \<longrightarrow> parse_members numOf n' r = parse_members numOf m' r)"
    if "skip_ws s = q # s'" "parse_string s' = Some (k, w)" "skip_ws w = colon # w'" for q s' k w colon w'
  proof -
    have less: "length w' < length s" using skip_ws_Cons [OF that(1)] parse_string_shorter [OF that(2)] skip_ws_Cons [OF that(3)] by simp
    have rest: "length r < length s" if "parse_value numOf m' w' = Some (x, u)" "skip_ws u = c # r" for x u c r
      using parse_shorter [of numOf m'] that(1) skip_ws_Cons [OF that(2)] less by fastforce
    show ?thesis
    proof (intro conjI allI impI)
      show "parse_value numOf n' w' = parse_value numOf m' w'" using less fuel nm by (intro ih(1)) simp_all
    next
      fix x u c r
      assume "parse_value numOf m' w' = Some (x, u)" "skip_ws u = c # r"
      then have "length r < length s" by (rule rest)
      then show "parse_members numOf n' r = parse_members numOf m' r" using fuel nm by (intro ih(3)) simp_all
    qed
  qed
  show "parse_members numOf n s = parse_members numOf m s"
  proof (cases "skip_ws s")
    case (Cons q s')
    show ?thesis
    proof (cases "parse_string s'")
      case (Some p)
      obtain k w where p: "p = (k, w)" by fastforce
      show ?thesis
      proof (cases "skip_ws w")
        case colon: (Cons c0 w')
        note eq = members [OF Cons Some [unfolded p] colon]
        show ?thesis
        proof (cases "parse_value numOf m' w'")
          case (Some p')
          obtain x u where p': "p' = (x, u)" by fastforce
          show ?thesis
            using eq Some by (cases "skip_ws u")
              (simp_all add: nm parse_members.simps Cons \<open>parse_string s' = Some p\<close> p p' colon del: dropWhile_eq_Nil_conv)
        qed (use eq in \<open>simp add: nm parse_members.simps Cons Some p colon\<close>)
      qed (simp add: nm parse_members.simps Cons Some p del: dropWhile_eq_Nil_conv)
    qed (simp add: nm parse_members.simps Cons)
  qed (simp add: nm parse_members.simps del: dropWhile_eq_Nil_conv)
qed

lemma parse_fuel:
  "(\<forall>n m. 2 * length s < n \<longrightarrow> 2 * length s < m \<longrightarrow> parse_value numOf n s = parse_value numOf m s) \<and>
   (\<forall>n m. 2 * length s + 1 < n \<longrightarrow> 2 * length s + 1 < m \<longrightarrow> parse_items numOf n s = parse_items numOf m s) \<and>
   (\<forall>n m. 2 * length s + 1 < n \<longrightarrow> 2 * length s + 1 < m \<longrightarrow> parse_members numOf n s = parse_members numOf m s)"
proof (induction s rule: length_induct)
  case (1 s)
  then have ih: "length r < length s \<Longrightarrow> 2 * length r < n \<Longrightarrow> 2 * length r < m \<Longrightarrow> parse_value numOf n r = parse_value numOf m r"
    "length r < length s \<Longrightarrow> 2 * length r + 1 < n \<Longrightarrow> 2 * length r + 1 < m \<Longrightarrow> parse_items numOf n r = parse_items numOf m r"
    "length r < length s \<Longrightarrow> 2 * length r + 1 < n \<Longrightarrow> 2 * length r + 1 < m \<Longrightarrow> parse_members numOf n r = parse_members numOf m r" for r n m
    by blast+
  show ?case by (intro conjI allI impI) (rule parse_fuel_step [OF ih]; assumption)+
qed

theorem parse_needs_no_more_fuel:
  assumes "2 * length s < n"
  shows "jsonParse numOf s = (case parse_value numOf n s of None \<Rightarrow> None | Some (v, r) \<Rightarrow> if skip_ws r = [] then Some v else None)"
proof -
  have "parse_value numOf (2 * length s + 1) s = parse_value numOf n s" 
    by (rule parse_fuel [THEN conjunct1, rule_format]) (use assms in simp_all)
  then show ?thesis by (simp only: jsonParse_def)
qed

end
