(* ===== verification/Bundle_Exchange.thy ===== *)
theory Bundle_Exchange
  imports Safe_Mode_Strict Bundle_Projection Patch_Fingerprint Json_Text
begin

text \<open>
  \<open>domain/inquiry_bundle_io.ts\<close>, \<open>domain/inquiry_bundle_share.ts\<close> and the asynchronous part of \<open>domain/inquiry_bundle_safe_mode.ts\<close>:
  a bundle is checked for its shape, its meaning and its export claim, written to a text, and read back with its digests compared.

  Bundles are the records of \<open>Inquiry_Validate\<close>; \<open>bundle_json\<close> is the value they are at run time (an own property that holds
  \<open>undefined\<close> is one that is absent). A text is parsed into a value, and the TypeScript cast \<open>value as InquiryBundleV1\<close> is the argument
  \<open>asBundle\<close>: it sends \<open>bundle_json b\<close> to \<open>b\<close>. SHA-256 is the browser's: \<open>sha\<close> gives the hexadecimal digest of a text. A rejected promise
  is the result \<open>Threw\<close>. Characters take one or two bytes in UTF-8, as they are below U+0100.
\<close>

section \<open>Errors and results\<close>

datatype io_code = Payload_too_large | Invalid_json | Invalid_shape | Invalid_bundle | Digest_mismatch

datatype io_message = Message string | Document_reason "string \<times> reason" | Issue_code issue_code

record io_error =
  io_code_of :: io_code
  io_path :: string
  io_message_of :: io_message

definition shape_error :: "string \<Rightarrow> string \<Rightarrow> io_error" where
  "shape_error path message = \<lparr>io_code_of = Invalid_shape, io_path = path, io_message_of = Message message\<rparr>"

definition INQUIRY_BUNDLE_MAX_BYTES :: nat where
  "INQUIRY_BUNDLE_MAX_BYTES = 20 * 1024 * 1024"

definition payloadTooLargeError :: io_error where
  "payloadTooLargeError = \<lparr>io_code_of = Payload_too_large, io_path = ''$'',
     io_message_of = Message (''Inquiry bundle exceeds the '' @ nat_str INQUIRY_BUNDLE_MAX_BYTES @ '' byte limit.'')\<rparr>"

definition utf8ByteLength :: "string \<Rightarrow> nat" where
  "utf8ByteLength s = sum_list (map (\<lambda>c. if (of_char c :: nat) < 128 then 1 else 2) s)"

section \<open>The shape\<close>

definition is_object :: "json \<Rightarrow> bool" where
  "is_object v = (case v of JObj _ \<Rightarrow> True | _ \<Rightarrow> False)"

definition checkKeys :: "json \<Rightarrow> string list \<Rightarrow> string \<Rightarrow> io_error list" where
  "checkKeys v allowed path =
     map (\<lambda>key. shape_error (path @ ''.'' @ key) ''Unknown field.'') (filter (\<lambda>key. key \<notin> set allowed) (object_keys v))"

definition requireString :: "json \<Rightarrow> string \<Rightarrow> io_error list" where
  "requireString v path = (if is_str v then [] else [shape_error path ''Must be a string.''])"

definition requireTrue :: "json \<Rightarrow> string \<Rightarrow> io_error list" where
  "requireTrue v path = (if v = JBool True then [] else [shape_error path ''Must be true.''])"

definition each_entry :: "(json \<Rightarrow> string \<Rightarrow> io_error list) \<Rightarrow> json list \<Rightarrow> string \<Rightarrow> io_error list" where
  "each_entry f vs path = concat (map (\<lambda>(i, v). f v (at_index path i)) (enumerate 0 vs))"

definition requireStringArray :: "json \<Rightarrow> string \<Rightarrow> io_error list" where
  "requireStringArray v path = (case as_array v of None \<Rightarrow> [shape_error path ''Must be an array of strings.'']
     | Some vs \<Rightarrow> each_entry requireString vs path)"

definition requireEnum :: "json \<Rightarrow> string list \<Rightarrow> string \<Rightarrow> io_error list" where
  "requireEnum v allowed path = (case v of
       JStr s \<Rightarrow> if s \<in> set allowed then [] else [shape_error path (''Must be one of: '' @ join_with '', '' allowed @ ''.'')]
     | _ \<Rightarrow> [shape_error path ''Must be a string.''])"

text \<open>A member that has to be an array, each entry checked; an object whose fields are checked.\<close>

definition array_of :: "(json \<Rightarrow> string \<Rightarrow> io_error list) \<Rightarrow> json \<Rightarrow> string \<Rightarrow> io_error list" where
  "array_of f v path = (case as_array v of None \<Rightarrow> [shape_error path ''Must be an array.''] | Some vs \<Rightarrow> each_entry f vs path)"

definition object_of :: "string \<Rightarrow> string list \<Rightarrow> (json \<Rightarrow> string \<Rightarrow> io_error list) \<Rightarrow> json \<Rightarrow> string \<Rightarrow> io_error list" where
  "object_of what allowed f v path =
     (if \<not> is_object v then [shape_error path (''Must be '' @ what @ '' object.'')] else checkKeys v allowed path @ f v path)"

definition strings_at :: "string list \<Rightarrow> json \<Rightarrow> string \<Rightarrow> io_error list" where
  "strings_at ks v path = concat (map (\<lambda>k. requireString (js_prop v k) (path @ ''.'' @ k)) ks)"

definition string_if_given :: "string \<Rightarrow> json \<Rightarrow> string \<Rightarrow> io_error list" where
  "string_if_given k v path = (if js_prop v k = JUndef then [] else requireString (js_prop v k) (path @ ''.'' @ k))"

definition shape_Address :: "json \<Rightarrow> string \<Rightarrow> io_error list" where
  "shape_Address = object_of ''a card address'' [''snapshotId'', ''cardId''] (strings_at [''snapshotId'', ''cardId''])"

definition shape_ArtifactRef :: "json \<Rightarrow> string \<Rightarrow> io_error list" where
  "shape_ArtifactRef = object_of ''an artifact reference'' [''snapshotId'', ''kind'', ''entityId''] (\<lambda>v path.
     strings_at [''snapshotId''] v path @
     requireEnum (js_prop v ''kind'') [''card'', ''island'', ''narrative'', ''relation_summary''] (path @ ''.kind'') @
     strings_at [''entityId''] v path)"

definition shape_outcome :: "json \<Rightarrow> string \<Rightarrow> io_error list" where
  "shape_outcome = object_of ''a fieldwork outcome'' [''kind'', ''responseCardRefs'', ''note''] (\<lambda>v path.
     requireEnum (js_prop v ''kind'') [''answered'', ''no_result'', ''unexpected''] (path @ ''.kind'') @
     array_of shape_Address (js_prop v ''responseCardRefs'') (path @ ''.responseCardRefs'') @
     string_if_given ''note'' v path)"

definition shape_request :: "json \<Rightarrow> string \<Rightarrow> io_error list" where
  "shape_request = object_of ''a fieldwork request'' [''requestId'', ''question'', ''outcome''] (\<lambda>v path.
     strings_at [''requestId'', ''question''] v path @
     (if js_prop v ''outcome'' = JUndef then [] else shape_outcome (js_prop v ''outcome'') (path @ ''.outcome'')))"

definition shape_Handoff :: "json \<Rightarrow> string \<Rightarrow> io_error list" where
  "shape_Handoff = object_of ''a handoff''
     [''carryoverRefs'', ''heldRefs'', ''unresolvedQuestions'', ''fieldworkRequests'', ''understandingDelta''] (\<lambda>v path.
     array_of shape_ArtifactRef (js_prop v ''carryoverRefs'') (path @ ''.carryoverRefs'') @
     array_of shape_ArtifactRef (js_prop v ''heldRefs'') (path @ ''.heldRefs'') @
     requireStringArray (js_prop v ''unresolvedQuestions'') (path @ ''.unresolvedQuestions'') @
     array_of shape_request (js_prop v ''fieldworkRequests'') (path @ ''.fieldworkRequests'') @
     string_if_given ''understandingDelta'' v path)"

definition shape_Round :: "json \<Rightarrow> string \<Rightarrow> io_error list" where
  "shape_Round = object_of ''a round record''
     [''roundId'', ''createdAt'', ''updatedAt'', ''stage'', ''iteration'', ''parentRoundIds'', ''status'', ''theme'', ''inputSnapshotIds'',
      ''outputSnapshotId'', ''handoff''] (\<lambda>v path.
     strings_at [''roundId'', ''createdAt'', ''updatedAt'', ''stage'', ''status'', ''theme''] v path @
     (if (case js_prop v ''iteration'' of JNum (Finite q) \<Rightarrow> safe_integer q | _ \<Rightarrow> False) then []
      else [shape_error (path @ ''.iteration'') ''Must be a safe integer.'']) @
     requireStringArray (js_prop v ''parentRoundIds'') (path @ ''.parentRoundIds'') @
     requireStringArray (js_prop v ''inputSnapshotIds'') (path @ ''.inputSnapshotIds'') @
     string_if_given ''outputSnapshotId'' v path @
     (if js_prop v ''handoff'' = JUndef then [] else shape_Handoff (js_prop v ''handoff'') (path @ ''.handoff'')))"

definition shape_Journey :: "json \<Rightarrow> string \<Rightarrow> io_error list" where
  "shape_Journey = object_of ''an inquiry journey''
     [''schemaVersion'', ''journeyId'', ''title'', ''originSnapshotIds'', ''roundRecords'', ''headRoundIds'', ''defaultHeadRoundId'',
      ''createdAt'', ''updatedAt''] (\<lambda>v path.
     strings_at [''schemaVersion'', ''journeyId'', ''title'', ''createdAt'', ''updatedAt''] v path @
     requireStringArray (js_prop v ''originSnapshotIds'') (path @ ''.originSnapshotIds'') @
     requireStringArray (js_prop v ''headRoundIds'') (path @ ''.headRoundIds'') @
     string_if_given ''defaultHeadRoundId'' v path @
     array_of shape_Round (js_prop v ''roundRecords'') (path @ ''.roundRecords''))"

definition shape_Snapshot :: "(string \<Rightarrow> int option) \<Rightarrow> json \<Rightarrow> string \<Rightarrow> io_error list" where
  "shape_Snapshot dateParse = object_of ''a round snapshot''
     [''schemaVersion'', ''snapshotId'', ''createdAt'', ''canonicalDigest'', ''document''] (\<lambda>v path.
     strings_at [''schemaVersion'', ''snapshotId'', ''createdAt'', ''canonicalDigest''] v path @
     (case validateDocumentV1Strict dateParse (js_prop v ''document'') of
        Inl errors \<Rightarrow> map (\<lambda>e. \<lparr>io_code_of = Invalid_shape, io_path = path @ ''.document'', io_message_of = Document_reason e\<rparr>) errors
      | Inr _ \<Rightarrow> []))"

definition LINEAGE_KINDS :: "string list" where
  "LINEAGE_KINDS = [''carried'', ''edited'', ''derived'', ''split'', ''merged'', ''new'', ''retired'']"

definition lineage_ends :: "string \<Rightarrow> json \<Rightarrow> string \<Rightarrow> io_error list" where
  "lineage_ends kind v path =
     (let from = js_prop v ''from''; to = js_prop v ''to''; at_from = path @ ''.from''; at_to = path @ ''.to''
      in if kind = ''new'' then shape_Address to at_to
         else if kind = ''retired'' then shape_Address from at_from
         else if kind = ''derived'' \<or> kind = ''merged'' then array_of shape_Address from at_from @ shape_Address to at_to
         else if kind = ''split'' then shape_Address from at_from @ array_of shape_Address to at_to
         else if kind = ''carried'' \<or> kind = ''edited'' then shape_Address from at_from @ shape_Address to at_to else [])"

definition shape_Lineage :: "json \<Rightarrow> string \<Rightarrow> io_error list" where
  "shape_Lineage = object_of ''a lineage'' [''lineageId'', ''kind'', ''from'', ''to''] (\<lambda>v path.
     strings_at [''lineageId''] v path @
     (let kind_errors = requireEnum (js_prop v ''kind'') LINEAGE_KINDS (path @ ''.kind'')
      in if kind_errors \<noteq> [] then kind_errors else lineage_ends (the (as_string (js_prop v ''kind''))) v path))"

definition shape_ExportInfo :: "json \<Rightarrow> string \<Rightarrow> io_error list" where
  "shape_ExportInfo v path =
     (if \<not> is_object v then [shape_error path ''Must be an export information object.''] else
      (if js_prop v ''scope'' = JStr ''full'' then checkKeys v [''scope'', ''safeModeApplied''] path
       else if js_prop v ''scope'' = JStr ''round''
         then checkKeys v [''scope'', ''selectedRoundId'', ''safeModeApplied''] path @ strings_at [''selectedRoundId''] v path
       else checkKeys v [''scope'', ''selectedRoundId'', ''safeModeApplied''] path) @
      requireEnum (js_prop v ''scope'') [''full'', ''round''] (path @ ''.scope'') @
      requireTrue (js_prop v ''safeModeApplied'') (path @ ''.safeModeApplied''))"

definition validateBundleShape :: "(string \<Rightarrow> int option) \<Rightarrow> json \<Rightarrow> io_error list" where
  "validateBundleShape dateParse v =
     (if \<not> is_object v then [shape_error ''$'' ''Bundle must be an object.''] else
      checkKeys v [''schemaVersion'', ''journey'', ''snapshots'', ''cardLineage'', ''exportInfo''] ''$'' @
      strings_at [''schemaVersion''] v ''$'' @
      shape_Journey (js_prop v ''journey'') ''$.journey'' @
      array_of (shape_Snapshot dateParse) (js_prop v ''snapshots'') ''$.snapshots'' @
      array_of shape_Lineage (js_prop v ''cardLineage'') ''$.cardLineage'' @
      (if js_prop v ''exportInfo'' = JUndef then [] else shape_ExportInfo (js_prop v ''exportInfo'') ''$.exportInfo''))"

section \<open>Digests and the export claim\<close>

definition computeRoundSnapshotDigest :: "(rat \<Rightarrow> string) \<Rightarrow> (string \<Rightarrow> string) \<Rightarrow> document \<Rightarrow> string" where
  "computeRoundSnapshotDigest numStr sha d = ''sha256:'' @ sha (canonicalizeJson numStr (reread (document_json d)))"

definition validateDigests :: "(rat \<Rightarrow> string) \<Rightarrow> (string \<Rightarrow> string) \<Rightarrow> inquiry_bundle \<Rightarrow> io_error list" where
  "validateDigests numStr sha b = concat (map (\<lambda>(i, s).
     if computeRoundSnapshotDigest numStr sha (snap_document s) \<noteq> canonicalDigest s
     then [\<lparr>io_code_of = Digest_mismatch, io_path = at_index ''$.snapshots'' i @ ''.canonicalDigest'',
            io_message_of = Message (''Digest does not match snapshot '' @ quote (snapshotId s) @ ''.'')\<rparr>]
     else []) (enumerate 0 (snapshots b)))"

text \<open>\<open>None\<close>: \<open>sanitizeBundleContents\<close> throws.\<close>

definition isInquirySafeModeBundle :: "(rat \<Rightarrow> string) \<Rightarrow> inquiry_bundle \<Rightarrow> bool option" where
  "isInquirySafeModeBundle numStr b =
     map_option (\<lambda>b'. canonicalizeJson numStr (bundle_json b') = canonicalizeJson numStr (bundle_json b)) (sanitizeBundleContents b)"

definition validateExportClaim :: "(rat \<Rightarrow> string) \<Rightarrow> inquiry_bundle \<Rightarrow> io_error list option" where
  "validateExportClaim numStr b = (if exportInfo b = None then Some [] else map_option (\<lambda>safe. if safe then [] else
     [\<lparr>io_code_of = Invalid_bundle, io_path = ''$.exportInfo.safeModeApplied'',
       io_message_of = Message ''SafeMode export metadata does not match the bundle contents.''\<rparr>]) (isInquirySafeModeBundle numStr b))"

section \<open>Writing and reading\<close>

definition prepare_snapshot :: "(rat \<Rightarrow> string) \<Rightarrow> (string \<Rightarrow> string) \<Rightarrow> round_snapshot \<Rightarrow> round_snapshot" where
  "prepare_snapshot numStr sha s = s\<lparr>snap_schemaVersion := INQUIRY_SCHEMA_VERSION,
     canonicalDigest := computeRoundSnapshotDigest numStr sha (snap_document s)\<rparr>"

definition prepareInquiryBundleForExport :: "(rat \<Rightarrow> string) \<Rightarrow> (string \<Rightarrow> string) \<Rightarrow> inquiry_bundle \<Rightarrow> inquiry_bundle" where
  "prepareInquiryBundleForExport numStr sha b = b\<lparr>bundle_schemaVersion := INQUIRY_SCHEMA_VERSION,
     journey := (journey b)\<lparr>journey_schemaVersion := INQUIRY_SCHEMA_VERSION\<rparr>,
     snapshots := map (prepare_snapshot numStr sha) (snapshots b)\<rparr>"

datatype 'a io_result = Threw | Failed "io_error list" | Done 'a

definition issue_errors :: "issue list \<Rightarrow> io_error list" where
  "issue_errors issues = map (\<lambda>(code, path). \<lparr>io_code_of = Invalid_bundle, io_path = path, io_message_of = Issue_code code\<rparr>) issues"

definition serializeInquiryBundle ::
  "(string \<Rightarrow> int option) \<Rightarrow> (rat \<Rightarrow> string) \<Rightarrow> (string \<Rightarrow> string) \<Rightarrow> inquiry_bundle \<Rightarrow> (string \<times> inquiry_bundle) io_result" where
  "serializeInquiryBundle dateParse numStr sha b =
     (let prepared = prepareInquiryBundleForExport numStr sha b;
          shape = validateBundleShape dateParse (bundle_json prepared);
          issues = validateInquiryBundle dateParse prepared
      in if length shape > 0 then Failed shape
         else if length issues > 0 then Failed (issue_errors issues)
         else case validateExportClaim numStr prepared of None \<Rightarrow> Threw | Some claim \<Rightarrow>
           if length claim > 0 then Failed claim
           else let text = pretty numStr 0 (bundle_json prepared) @ [CHR 0x0A]
             in if utf8ByteLength text > INQUIRY_BUNDLE_MAX_BYTES then Failed [payloadTooLargeError] else Done (text, prepared))"

definition parseInquiryBundleJson ::
  "(string \<Rightarrow> int option) \<Rightarrow> (rat \<Rightarrow> string) \<Rightarrow> (string \<Rightarrow> js_num option) \<Rightarrow> (string \<Rightarrow> string) \<Rightarrow> (json \<Rightarrow> inquiry_bundle) \<Rightarrow>
   string \<Rightarrow> inquiry_bundle io_result" where
  "parseInquiryBundleJson dateParse numStr numOf sha asBundle rawText =
     (if utf8ByteLength rawText > INQUIRY_BUNDLE_MAX_BYTES then Failed [payloadTooLargeError]
      else case jsonParse numOf rawText of
        None \<Rightarrow> Failed [\<lparr>io_code_of = Invalid_json, io_path = ''$'', io_message_of = Message ''Invalid JSON.''\<rparr>]
      | Some parsed \<Rightarrow>
          let shape = validateBundleShape dateParse parsed; b = asBundle parsed; issues = validateInquiryBundle dateParse b
          in if length shape > 0 then Failed shape
             else if length issues > 0 then Failed (issue_errors issues)
             else case validateExportClaim numStr b of None \<Rightarrow> Threw | Some claim \<Rightarrow>
               if length claim > 0 then Failed claim
               else let digestErrors = validateDigests numStr sha b in if length digestErrors > 0 then Failed digestErrors else Done b)"

section \<open>Sharing\<close>

definition deriveInquirySafeModeBundle ::
  "(string \<Rightarrow> int option) \<Rightarrow> (rat \<Rightarrow> string) \<Rightarrow> (string \<Rightarrow> string) \<Rightarrow> inquiry_bundle \<Rightarrow> inquiry_bundle io_result" where
  "deriveInquirySafeModeBundle dateParse numStr sha source =
     (case serializeInquiryBundle dateParse numStr sha source of Threw \<Rightarrow> Threw | Failed errors \<Rightarrow> Failed errors
      | Done (_, validated) \<Rightarrow> (case sanitizeBundleContents validated of None \<Rightarrow> Threw | Some sanitized \<Rightarrow>
          (case serializeInquiryBundle dateParse numStr sha sanitized of Threw \<Rightarrow> Threw | Failed errors \<Rightarrow> Failed errors
           | Done (_, b) \<Rightarrow> Done b)))"

datatype share_result = Shared inquiry_bundle string | Projection_refused projection_error | Serialization_failed "io_error list" | Share_threw

definition prepareInquiryBundleForShare ::
  "(string \<Rightarrow> int option) \<Rightarrow> (rat \<Rightarrow> string) \<Rightarrow> (string \<Rightarrow> string) \<Rightarrow> inquiry_bundle \<Rightarrow> string option \<Rightarrow> share_result" where
  "prepareInquiryBundleForShare dateParse numStr sha source selectedRoundId =
     (let sourceWithoutExportInfo = source\<lparr>exportInfo := None\<rparr>;
          projection = (if truthy_str selectedRoundId then deriveInquiryRoundBundle dateParse sourceWithoutExportInfo (the selectedRoundId)
            else Inr sourceWithoutExportInfo)
      in case projection of Inl refusal \<Rightarrow> Projection_refused refusal
         | Inr projected \<Rightarrow>
             (case deriveInquirySafeModeBundle dateParse numStr sha projected of Threw \<Rightarrow> Share_threw | Failed errors \<Rightarrow> Serialization_failed errors
              | Done safe \<Rightarrow>
                  let externalBundle = safe\<lparr>exportInfo := Some (if truthy_str selectedRoundId then RoundExport (the selectedRoundId) else FullExport)\<rparr>
                  in (case serializeInquiryBundle dateParse numStr sha externalBundle of
                        Threw \<Rightarrow> Share_threw | Failed errors \<Rightarrow> Serialization_failed errors | Done (text, b) \<Rightarrow> Shared b text)))"

section \<open>The shape of a bundle's own JSON\<close>

lemma each_entry_ok: "each_entry f vs path = [] \<longleftrightarrow> (\<forall>i<length vs. f (vs ! i) (at_index path i) = [])"
proof -
  have "set (enumerate 0 vs) = {(i, vs ! i) | i. i < length vs}" by (auto simp: in_set_enumerate_eq)
  then show ?thesis by (auto simp: each_entry_def)
qed

lemma array_written: "array_of f (jlist g xs) path = [] \<longleftrightarrow> (\<forall>i<length xs. f (g (xs ! i)) (at_index path i) = [])"
  by (simp add: array_of_def jlist_def as_array_def each_entry_ok)

lemma strings_written [simp]: "requireStringArray (jstrs xs) path = []"
  by (simp add: requireStringArray_def jstrs_def as_array_def each_entry_ok requireString_def is_str_def)

lemma is_object_written: "is_object (obj fs)"
  by (simp add: is_object_def obj_def)

lemma object_written: "object_of what allowed f (obj fs) path = checkKeys (obj fs) allowed path @ f (obj fs) path"
  by (simp add: object_of_def is_object_def obj_def)

lemma keys_checked: "fst ` set fs \<subseteq> set allowed \<Longrightarrow> checkKeys (obj fs) allowed path = []"
  using keys_written [of fs "set allowed"] by (auto simp: checkKeys_def filter_empty_conv)

lemma string_given: "js_prop v k = nullish (map_option JStr x) JUndef \<Longrightarrow> string_if_given k v path = []"
  by (cases x) (simp_all add: string_if_given_def requireString_def is_str_def)

lemma requireString_JStr [simp]: "requireString (JStr s) path = []"
  by (simp add: requireString_def is_str_def)

named_theorems shape_written

lemmas [shape_written] = object_written keys_checked array_written strings_at_def string_given read_back

lemma address_shape [simp]: "shape_Address (address_json a) path = []"
  unfolding shape_Address_def address_json_def by (simp add: shape_written)

lemma artifact_shape [simp]: "shape_ArtifactRef (artifact_ref_json r) path = []"
  unfolding shape_ArtifactRef_def artifact_ref_json_def
  by (cases "ref_kind r"; simp add: shape_written requireEnum_def)

lemma outcome_shape [simp]: "shape_outcome (outcome_json q) path = []"
  unfolding shape_outcome_def outcome_json_def
  by (cases "outcome_kind_of q"; simp add: shape_written requireEnum_def)

lemma request_shape [simp]: "shape_request (fieldwork_json q) path = []"
  unfolding shape_request_def fieldwork_json_def
  by (cases "outcome q"; simp add: shape_written)

lemma handoff_shape [simp]: "shape_Handoff (handoff_json h) path = []"
  unfolding shape_Handoff_def handoff_json_def by (simp add: shape_written)

lemma round_shape: "shape_Round (round_json r) path = [] \<longleftrightarrow> safe_integer (iteration r)"
  unfolding shape_Round_def round_json_def
  by (cases "handoff r"; simp add: shape_written jrat_def)

lemma journey_shape: "shape_Journey (journey_json j) path = [] \<longleftrightarrow> (\<forall>r\<in>set (roundRecords j). safe_integer (iteration r))"
  unfolding shape_Journey_def journey_json_def
  by (simp add: shape_written round_shape all_set_conv_all_nth)

lemma document_accepted: "validateDocumentV1Strict dp (document_json d) =
    (if strict_errors dp (document_json d) = [] then Inr (document_json d) else Inl (strict_errors dp (document_json d)))"
  by (simp add: validateDocumentV1Strict_def document_json_def)

lemma snapshot_shape: "shape_Snapshot dp (snapshot_json s) path = [] \<longleftrightarrow> strict_errors dp (document_json (snap_document s)) = []"
  unfolding shape_Snapshot_def snapshot_json_def
  by (simp add: shape_written document_accepted)

lemma lineage_shape [simp]: "shape_Lineage (lineage_json e) path = []"
  unfolding shape_Lineage_def
  by (cases e) (simp_all add: lineage_obj_def shape_written requireEnum_def LINEAGE_KINDS_def lineage_ends_def written_prop)

lemma export_shape [simp]: "shape_ExportInfo (export_info_json x) path = []"
  by (cases x) (simp_all add: shape_ExportInfo_def is_object_written shape_written requireEnum_def requireTrue_def)

definition importable :: "(string \<Rightarrow> int option) \<Rightarrow> inquiry_bundle \<Rightarrow> bool" where
  "importable dp b \<longleftrightarrow> (\<forall>r\<in>set (roundRecords (journey b)). safe_integer (iteration r)) \<and>
     (\<forall>s\<in>set (snapshots b). strict_errors dp (document_json (snap_document s)) = [])"

lemma bundle_shape: "validateBundleShape dp (bundle_json b) = [] \<longleftrightarrow> importable dp b"
proof -
  have "is_object (bundle_json b)" by (simp add: bundle_json_def is_object_def obj_def)
  then show ?thesis
    unfolding validateBundleShape_def bundle_json_def importable_def
    by (cases "exportInfo b"; simp add: shape_written journey_shape snapshot_shape all_set_conv_all_nth)
qed

section \<open>The text of a bundle reads back\<close>

definition field_writable :: "string \<times> json option \<Rightarrow> bool" where
  "field_writable e = (case snd e of None \<Rightarrow> True | Some v \<Rightarrow> writable v)"

lemma field_writable_simps [simp]:
  "field_writable (req k v) = writable v" "field_writable (opt k f x) = (\<forall>a. x = Some a \<longrightarrow> writable (f a))" "field_writable (k, None)"
  "field_writable (k, Some v) = writable v"
  by (simp_all add: field_writable_def req_def opt_def split: option.splits)

lemma field_names [simp]: "fst (req k v) = k" "fst (opt k f x) = k"
  by (simp_all add: req_def opt_def)

lemma writable_obj:
  assumes "distinct (map fst fs)" "list_all field_writable fs"
  shows "writable (obj fs)"
proof -
  have "distinct (map fst fs) \<Longrightarrow> distinct (map fst (present fs))"
  proof (induction fs rule: present.induct)
    case (3 k v fs)
    then show ?case using keys_present [of fs] by auto
  qed simp_all
  moreover have "list_all field_writable fs \<Longrightarrow> list_all (\<lambda>(k, v). writable v) (present fs)"
    by (induction fs rule: present.induct) simp_all
  ultimately show ?thesis using assms by (simp add: obj_def)
qed

named_theorems writable_parts

lemma writable_basics [writable_parts, simp]:
  "writable (jstrs xs)" "writable (jrat q)" "writable (jnat n)"
  "writable (jlist f ys) \<longleftrightarrow> (\<forall>y\<in>set ys. writable (f y))" "writable (nullable JStr x)" "writable (nullable JBool y)"
  by (simp_all add: jstrs_def jrat_def jnat_def jlist_def list_all_iff nullable_def split: option.splits)

lemma writable_small [simp]:
  "writable (obj (meta_fields m))" "writable (obj (ka_fields k))" "writable (point_json p)" "writable (generated_json g)"
  "writable (summary_history_json h)" "writable (cue_json q)" "writable (relation_history_json rh)" "writable (link_json l)"
  "writable (edge_json e)" "writable (transform_json t)" "writable (shelf_json se)" "writable (critique_json c)"
  "writable (attribution_json ra)" "writable (reference_json x)" "writable (counts_json cs)" "writable (void_json v)"
  "writable (signal_json sd)" "writable (stats_json st)" "writable (conflict_meta_json cm)" "writable (tie_break_json order)"
  "writable (merge_decision_json md)"
  by (simp_all add: writable_obj meta_fields_def ka_fields_def point_json_def generated_json_def summary_history_json_def cue_json_def
      relation_history_json_def link_json_def link_fields_def edge_json_def edge_fields_def transform_json_def shelf_json_def critique_json_def
      attribution_json_def reference_json_def counts_json_def void_json_def signal_json_def stats_json_def conflict_meta_json_def
      tie_break_json_def merge_decision_json_def)

lemma writable_nested [simp]: "writable (check_issue_json i)" "writable (card_json c)" "writable (log_json e)"
  "writable (obj (shape_fields s))" "writable (obj (geometry_fields g))"
proof -
  show "writable (obj (shape_fields s))" by (cases s; simp add: shape_fields_def writable_obj list_all_iff)
  show "writable (obj (geometry_fields g))" by (cases g; simp add: geometry_fields_def writable_obj list_all_iff)
qed (simp_all add: writable_obj check_issue_json_def card_json_def card_fields_def log_json_def)

lemma writable_outer [simp]: "writable (check_json k)" "writable (narrative_json n)" "writable (island_json j)" "writable (relation_json r)"
proof -
  show "writable (check_json k)" for k by (simp add: check_json_def writable_obj)
  then show "writable (narrative_json n)" by (simp add: narrative_json_def writable_obj)
qed (simp_all add: island_json_def island_fields_def relation_json_def relation_fields_def writable_obj list_all_iff)

lemma document_writable: "reproposalDiffs d = None \<Longrightarrow> writable (document_json d)"
  by (simp add: document_json_def document_fields_def writable_obj)

lemma bundle_writable:
  assumes "\<forall>s\<in>set (snapshots b). reproposalDiffs (snap_document s) = None"
  shows "writable (bundle_json b)"
proof -
  have small: "writable (address_json a)" "writable (artifact_ref_json r)" for a r
    by (simp_all add: address_json_def artifact_ref_json_def writable_obj)
  then have "writable (outcome_json q)" for q by (simp add: outcome_json_def writable_obj)
  then have "writable (fieldwork_json q)" for q by (simp add: fieldwork_json_def writable_obj)
  then have "writable (handoff_json h)" for h using small by (simp add: handoff_json_def writable_obj)
  then have "writable (round_json r)" for r by (simp add: round_json_def writable_obj)
  then have j: "writable (journey_json (journey b))" by (simp add: journey_json_def writable_obj)
  have s: "writable (snapshot_json s)" if "s \<in> set (snapshots b)" for s
    using assms that by (simp add: snapshot_json_def writable_obj document_writable)
  have l: "writable (lineage_json e)" for e by (cases e) (simp_all add: lineage_obj_def writable_obj small)
  have "writable (export_info_json x)" for x by (cases x) (simp_all add: writable_obj)
  then show ?thesis using j s l by (simp add: bundle_json_def writable_obj)
qed

section \<open>Writing and reading agree\<close>

lemma no_digest_errors: "validateDigests numStr sha (prepareInquiryBundleForExport numStr sha b) = []"
  by (auto simp: validateDigests_def prepareInquiryBundleForExport_def prepare_snapshot_def in_set_enumerate_eq)

lemma serialize_Done:
  assumes "serializeInquiryBundle dp numStr sha b = Done (text, b')"
  shows "b' = prepareInquiryBundleForExport numStr sha b" "validateBundleShape dp (bundle_json b') = []" "validateInquiryBundle dp b' = []"
    "validateExportClaim numStr b' = Some []" "text = pretty numStr 0 (bundle_json b') @ [CHR 0x0A]"
    "utf8ByteLength text \<le> INQUIRY_BUNDLE_MAX_BYTES"
  using assms by (auto simp: serializeInquiryBundle_def Let_def split: if_splits option.splits)

lemma written_bundle_reads_back:
  assumes "number_routines numStr numOf" "serializeInquiryBundle dp numStr sha b = Done (text, b')" "asBundle (bundle_json b') = b'"
    and "writable (bundle_json b')"
  shows "parseInquiryBundleJson dp numStr numOf sha asBundle text = Done b'"
proof -
  note parts = serialize_Done [OF assms(2)]
  have "jsonParse numOf text = Some (bundle_json b')" unfolding parts(5) by (rule parse_pretty [OF assms(1,4)])
  then show ?thesis
    using parts(2-4,6) no_digest_errors [of numStr sha b] assms(3)
    by (simp add: parseInquiryBundleJson_def parts(1) [symmetric])
qed

section \<open>What a shared bundle is\<close>

definition share_claim :: "string option \<Rightarrow> export_info" where
  "share_claim sel = (if truthy_str sel then RoundExport (the sel) else FullExport)"

definition safe_copy :: "(rat \<Rightarrow> string) \<Rightarrow> (string \<Rightarrow> string) \<Rightarrow> string option \<Rightarrow> inquiry_bundle \<Rightarrow> inquiry_bundle" where
  "safe_copy numStr sha sel b = (prepareInquiryBundleForExport numStr sha
     (b\<lparr>journey := sanitizeJourney (journey b), snapshots := map sanitizeSnapshot (snapshots b)\<rparr>))\<lparr>exportInfo := Some (share_claim sel)\<rparr>"

lemma prepare_snapshot_facts:
  "prepare_snapshot numStr sha (prepare_snapshot numStr sha s) = prepare_snapshot numStr sha s"
  "prepare_snapshot numStr sha (sanitizeSnapshot (prepare_snapshot numStr sha s)) = prepare_snapshot numStr sha (sanitizeSnapshot s)"
  "sanitizeSnapshot (prepare_snapshot numStr sha (sanitizeSnapshot s)) = prepare_snapshot numStr sha (sanitizeSnapshot s)"
proof -
  have "snap_document (sanitizeSnapshot (sanitizeSnapshot s)) = snap_document (sanitizeSnapshot s)" by simp
  then show "sanitizeSnapshot (prepare_snapshot numStr sha (sanitizeSnapshot s)) = prepare_snapshot numStr sha (sanitizeSnapshot s)"
    by (simp add: prepare_snapshot_def sanitizeSnapshot_def)
qed (simp_all add: prepare_snapshot_def sanitizeSnapshot_def)

lemma prepare_fields [simp]:
  "journey (prepareInquiryBundleForExport numStr sha b) = (journey b)\<lparr>journey_schemaVersion := INQUIRY_SCHEMA_VERSION\<rparr>"
  "snapshots (prepareInquiryBundleForExport numStr sha b) = map (prepare_snapshot numStr sha) (snapshots b)"
  "cardLineage (prepareInquiryBundleForExport numStr sha b) = cardLineage b"
  "exportInfo (prepareInquiryBundleForExport numStr sha b) = exportInfo b"
  "bundle_schemaVersion (prepareInquiryBundleForExport numStr sha b) = INQUIRY_SCHEMA_VERSION"
  by (simp_all add: prepareInquiryBundleForExport_def)

lemma sanitizeJourney_version: "sanitizeJourney (j\<lparr>journey_schemaVersion := v\<rparr>) = (sanitizeJourney j)\<lparr>journey_schemaVersion := v\<rparr>"
  by (simp add: sanitizeJourney_def)

lemma safe_copy_from_prepared: "safe_copy numStr sha sel (prepareInquiryBundleForExport numStr sha b) = safe_copy numStr sha sel b"
  unfolding safe_copy_def
  by (intro inquiry_bundle.equality) (simp_all add: sanitizeJourney_version prepare_snapshot_facts)

lemma safe_copy_prepared: "prepareInquiryBundleForExport numStr sha (safe_copy numStr sha sel b) = safe_copy numStr sha sel b"
  unfolding safe_copy_def
  by (intro inquiry_bundle.equality) (simp_all add: prepare_snapshot_facts)

lemma safe_copy_sanitized:
  "list_all (\<lambda>e. \<not> lineage_short e) (cardLineage b) \<Longrightarrow>
    sanitizeBundleContents (safe_copy numStr sha sel b) = Some (safe_copy numStr sha sel b)"
  unfolding sanitizeBundleContents_eq safe_copy_def
  by simp (intro inquiry_bundle.equality; simp add: sanitizeJourney_version prepare_snapshot_facts)

lemma prepared_valid_long:
  "validateInquiryBundle dp (prepareInquiryBundleForExport numStr sha b) = [] \<Longrightarrow> list_all (\<lambda>e. \<not> lineage_short e) (cardLineage b)"
  using valid_lineage_long [of dp "prepareInquiryBundleForExport numStr sha b"] by simp

definition sanitized :: "inquiry_bundle \<Rightarrow> inquiry_bundle" where
  "sanitized b = b\<lparr>journey := sanitizeJourney (journey b), snapshots := map sanitizeSnapshot (snapshots b)\<rparr>"

lemma serialize_never_throws: "serializeInquiryBundle dp numStr sha b \<noteq> Threw"
proof (cases "validateInquiryBundle dp (prepareInquiryBundleForExport numStr sha b) = []")
  case True
  then have "list_all (\<lambda>e. \<not> lineage_short e) (cardLineage (prepareInquiryBundleForExport numStr sha b))" by (rule valid_lineage_long)
  then have "validateExportClaim numStr (prepareInquiryBundleForExport numStr sha b) \<noteq> None"
    by (simp add: validateExportClaim_def isInquirySafeModeBundle_def sanitizeBundleContents_eq)
  then show ?thesis by (auto simp: serializeInquiryBundle_def Let_def split: if_splits)
qed (simp add: serializeInquiryBundle_def Let_def)

lemma derive_Done:
  assumes "deriveInquirySafeModeBundle dp numStr sha src = Done b"
  shows "b = prepareInquiryBundleForExport numStr sha (sanitized (prepareInquiryBundleForExport numStr sha src))"
    "list_all (\<lambda>e. \<not> lineage_short e) (cardLineage src)"
proof -
  from assms obtain t v s where d: "serializeInquiryBundle dp numStr sha src = Done (t, v)" "sanitizeBundleContents v = Some s"
    "\<exists>t'. serializeInquiryBundle dp numStr sha s = Done (t', b)"
    by (auto simp: deriveInquirySafeModeBundle_def split: io_result.splits option.splits)
  note v = serialize_Done [OF d(1)]
  show "list_all (\<lambda>e. \<not> lineage_short e) (cardLineage src)" using v(1,3) prepared_valid_long by blast
  then have "s = sanitized v" using d(2) v(1) by (simp add: sanitizeBundleContents_eq sanitized_def)
  then show "b = prepareInquiryBundleForExport numStr sha (sanitized (prepareInquiryBundleForExport numStr sha src))"
    using d(3) serialize_Done(1) v(1) by blast
qed

lemma derive_never_throws: "deriveInquirySafeModeBundle dp numStr sha src \<noteq> Threw"
proof (cases "serializeInquiryBundle dp numStr sha src")
  case (Done x)
  obtain t v where x: "x = (t, v)" by fastforce
  have "sanitizeBundleContents v \<noteq> None"
    using serialize_Done(3) [OF Done [unfolded x]] valid_lineage_long by (simp add: sanitizeBundleContents_eq)
  then show ?thesis
    using serialize_never_throws Done x by (auto simp: deriveInquirySafeModeBundle_def split: io_result.splits)
qed (simp_all add: deriveInquirySafeModeBundle_def serialize_never_throws)

definition projected_source :: "(string \<Rightarrow> int option) \<Rightarrow> inquiry_bundle \<Rightarrow> string option \<Rightarrow> projection_error + inquiry_bundle" where
  "projected_source dp source sel = (if truthy_str sel then deriveInquiryRoundBundle dp (source\<lparr>exportInfo := None\<rparr>) (the sel)
     else Inr (source\<lparr>exportInfo := None\<rparr>))"

lemma share_Shared:
  assumes "prepareInquiryBundleForShare dp numStr sha source sel = Shared b' text"
  obtains p where "projected_source dp source sel = Inr p" "b' = safe_copy numStr sha sel p" "list_all (\<lambda>e. \<not> lineage_short e) (cardLineage p)"
    "serializeInquiryBundle dp numStr sha b' = Done (text, b')"
proof -
  from assms obtain p safe where d: "projected_source dp source sel = Inr p" "deriveInquirySafeModeBundle dp numStr sha p = Done safe"
    "serializeInquiryBundle dp numStr sha (safe\<lparr>exportInfo := Some (share_claim sel)\<rparr>) = Done (text, b')"
    by (auto simp: prepareInquiryBundleForShare_def projected_source_def share_claim_def Let_def split: io_result.splits sum.splits)
  note safe = derive_Done [OF d(2)]
  have e: "safe\<lparr>exportInfo := Some (share_claim sel)\<rparr> = safe_copy numStr sha sel p"
    using safe_copy_from_prepared [of numStr sha sel p] unfolding safe_copy_def sanitized_def [symmetric] safe(1) by simp
  have "b' = safe_copy numStr sha sel p" using serialize_Done(1) [OF d(3)] unfolding e safe_copy_prepared .
  then show thesis using that [OF d(1) _ safe(2)] d(3) unfolding e by blast
qed

lemma share_other:
  "prepareInquiryBundleForShare dp numStr sha source sel \<noteq> Share_threw"
  "prepareInquiryBundleForShare dp numStr sha source sel = Projection_refused e \<longleftrightarrow> projected_source dp source sel = Inl e"
  using derive_never_throws serialize_never_throws
  by (auto simp: prepareInquiryBundleForShare_def projected_source_def Let_def split: sum.splits io_result.splits)

text \<open>C19. A bundle prepared for sharing is exactly a SafeMode copy: the source, or the projection of it to the selected round, without any
  earlier export claim, with every text redacted, every snapshot document projected, digests recomputed and the claim for the chosen scope
  added. It has passed the shape check, the validator and the check of its claim, is a fixed point of the SafeMode projection, fits the
  limit of 20 MiB, and \<open>prepareInquiryBundleForShare\<close> never rejects (no exception escapes).\<close>

theorem shared_bundle_is_safe_copy:
  "case prepareInquiryBundleForShare dateParse numStr sha source sel of
     Shared b' text \<Rightarrow>
       (\<exists>p. projected_source dateParse source sel = Inr p \<and> b' = safe_copy numStr sha sel p) \<and>
       importable dateParse b' \<and> validateInquiryBundle dateParse b' = [] \<and> sanitizeBundleContents b' = Some b' \<and>
       isInquirySafeModeBundle numStr b' = Some True \<and> text = pretty numStr 0 (bundle_json b') @ [CHR 0x0A] \<and>
       utf8ByteLength text \<le> INQUIRY_BUNDLE_MAX_BYTES
   | Projection_refused e \<Rightarrow> projected_source dateParse source sel = Inl e
   | Serialization_failed errors \<Rightarrow> True
   | Share_threw \<Rightarrow> False"
proof (cases "prepareInquiryBundleForShare dateParse numStr sha source sel")
  case (Shared b' body)
  then obtain p where p: "projected_source dateParse source sel = Inr p" "b' = safe_copy numStr sha sel p"
    "list_all (\<lambda>e. \<not> lineage_short e) (cardLineage p)" "serializeInquiryBundle dateParse numStr sha b' = Done (body, b')" by (rule share_Shared)
  note s = serialize_Done [OF p(4)]
  have fixed: "sanitizeBundleContents b' = Some b'" unfolding p(2) by (rule safe_copy_sanitized [OF p(3)])
  show ?thesis
    unfolding Shared share_result.case bundle_shape [symmetric]
    using p(1,2) s(2,3,5,6) fixed by (simp add: isInquirySafeModeBundle_def)
next
  case (Projection_refused e)
  then have "projected_source dateParse source sel = Inl e" by (rule iffD1 [OF share_other(2)])
  then show ?thesis unfolding Projection_refused share_result.case .
next
  case Share_threw
  then show ?thesis using share_other(1) by blast
qed simp

section \<open>A shared bundle can be imported\<close>

text \<open>C20. Whoever receives the text of a shared bundle reads back that bundle: \<open>parseInquiryBundleJson\<close> on the text that
  \<open>prepareInquiryBundleForShare\<close> returned succeeds with the bundle it returned. The text is within the limit, \<open>JSON.parse\<close> of the
  pretty-printed text gives the value, its shape and meaning pass again, its SafeMode claim is confirmed and its digests match.\<close>

theorem shared_bundle_imports:
  assumes "number_routines numStr numOf"
    and "prepareInquiryBundleForShare dateParse numStr sha source sel = Shared b' txt"
    and "asBundle (bundle_json b') = b'"
  shows "parseInquiryBundleJson dateParse numStr numOf sha asBundle txt = Done b'"
proof -
  obtain p where p: "b' = safe_copy numStr sha sel p" "serializeInquiryBundle dateParse numStr sha b' = Done (txt, b')"
    using assms(2) by (rule share_Shared)
  have "\<forall>s\<in>set (snapshots b'). reproposalDiffs (snap_document s) = None"
    by (simp add: p(1) safe_copy_def prepare_snapshot_def sanitizeSnapshot_def deriveDocumentSafeModeProjection_def)
  then show ?thesis by (intro written_bundle_reads_back [where asBundle = asBundle, OF assms(1) p(2) assms(3)] bundle_writable)
qed

section \<open>Digests do not matter to the validator\<close>

definition digests_ok :: "(string \<Rightarrow> string) \<Rightarrow> bool" where
  "digests_ok sha \<longleftrightarrow> (\<forall>t. digest_ok (''sha256:'' @ sha t))"

lemma prepared_keeps [simp]:
  "snapshotId (prepare_snapshot numStr sha s) = snapshotId s" "snap_document (prepare_snapshot numStr sha s) = snap_document s"
  "snap_createdAt (prepare_snapshot numStr sha s) = snap_createdAt s" "getArtifactIds (prepare_snapshot numStr sha s) k = getArtifactIds s k"
proof -
  show "getArtifactIds (prepare_snapshot numStr sha s) k = getArtifactIds s k"
    by (cases k; simp add: getArtifactIds_def prepare_snapshot_def)
qed (simp_all add: prepare_snapshot_def)

lemma has_card_prepared [simp]: "has_card (over (prepare_snapshot numStr sha) sn) a = has_card sn a"
  by (simp add: has_card_def split: option.split)

lemma snapshots_by_id_prepared:
  "snapshots_by_id (map (prepare_snapshot numStr sha) ss) = over (prepare_snapshot numStr sha) (snapshots_by_id ss)"
  using new_map_over [of snapshotId "prepare_snapshot numStr sha" id ss] by (simp add: snapshots_by_id_def o_def)

lemma prepared_blocks:
  "origin_issues j (over (prepare_snapshot numStr sha) sn) = origin_issues j sn"
  "output_owners (over (prepare_snapshot numStr sha) sn) og rs = output_owners sn og rs"
  "unowned_issues (map (prepare_snapshot numStr sha) ss) og ow = unowned_issues ss og ow"
  "input_issues m (over (prepare_snapshot numStr sha) sn) og ow r = input_issues m sn og ow r"
  "lineage_issues m (over (prepare_snapshot numStr sha) sn) og ow e = lineage_issues m sn og ow e"
  "handoff_issues (over (prepare_snapshot numStr sha) sn) r = handoff_issues sn r"
proof -
  have "output_step (over (prepare_snapshot numStr sha) sn) og = output_step sn og"
    unfolding fun_eq_iff output_step_def map_of_over option.map_disc_iff by simp
  then show "output_owners (over (prepare_snapshot numStr sha) sn) og rs = output_owners sn og rs"
    by (simp add: output_owners_def)
  show "lineage_issues m (over (prepare_snapshot numStr sha) sn) og ow e = lineage_issues m sn og ow e"
    unfolding lineage_issues_def has_card_prepared ..
  show "input_issues m (over (prepare_snapshot numStr sha) sn) og ow r = input_issues m sn og ow r"
    unfolding input_issues_def map_of_over option.map_disc_iff ..
  have art: "(case map_option (prepare_snapshot numStr sha) x of None \<Rightarrow> a | Some s \<Rightarrow> if e \<notin> set (getArtifactIds s k) then b else c) =
      (case x of None \<Rightarrow> a | Some s \<Rightarrow> if e \<notin> set (getArtifactIds s k) then b else c)" for x e k and a b c :: "issue list"
    by (cases x) simp_all
  show "handoff_issues (over (prepare_snapshot numStr sha) sn) r = handoff_issues sn r"
    unfolding handoff_issues_def map_of_over art has_card_prepared ..
qed (simp_all add: origin_issues_def unowned_issues_def filter_map o_def)

lemma valid_versions:
  assumes "validateInquiryBundle dp b = []"
  shows "bundle_schemaVersion b = INQUIRY_SCHEMA_VERSION" "(journey b)\<lparr>journey_schemaVersion := INQUIRY_SCHEMA_VERSION\<rparr> = journey b"
    "\<forall>s\<in>set (snapshots b). snap_schemaVersion s = INQUIRY_SCHEMA_VERSION"
  using assms unfolding validate_blocks Let_def schema_issues_def snapshot_ok_def by (auto split: if_splits)

lemma prepared_valid:
  assumes "validateInquiryBundle dp b = []" "digests_ok sha"
  shows "validateInquiryBundle dp (prepareInquiryBundleForExport numStr sha b) = []"
proof -
  let ?b = "prepareInquiryBundleForExport numStr sha b"
  note v = valid_versions [OF assms(1)]
  have parts: "journey ?b = journey b" "snapshots ?b = map (prepare_snapshot numStr sha) (snapshots b)" "cardLineage ?b = cardLineage b"
    using v(2) by simp_all
  have s: "schema_issues dp ?b = schema_issues dp b" using v(1,2) by (simp add: schema_issues_def)
  have h: "head_issues ?b m = head_issues b m" for m using v(2) by (simp add: head_issues_def)
  have snaps: "\<forall>s\<in>set (map (prepare_snapshot numStr sha) (snapshots b)). snapshot_ok dp s"
    if "\<forall>s\<in>set (snapshots b). snapshot_ok dp s"
    using that assms(2) by (auto simp: snapshot_ok_def prepare_snapshot_def digests_ok_def computeRoundSnapshotDigest_def)
  have ids: "map snapshotId (map (prepare_snapshot numStr sha) ss) = map snapshotId ss" for ss by simp
  note blocks = assms(1) [unfolded validate_blocks Let_def]
  have ok: "\<forall>s\<in>set (snapshots b). snapshot_ok dp s" using blocks by (elim conjE)
  show ?thesis
    unfolding validate_blocks Let_def parts s h snapshots_by_id_prepared prepared_blocks ids
    by (insert blocks snaps [OF ok], elim conjE, intro conjI; assumption)
qed

lemma claimed_valid:
  assumes "validateInquiryBundle dp b = []"
    and "\<And>i. x = Some (RoundExport i) \<Longrightarrow> headRoundIds (journey b) = [i] \<and> defaultHeadRoundId (journey b) = Some i"
  shows "validateInquiryBundle dp (b\<lparr>exportInfo := x\<rparr>) = []"
proof -
  have parts: "journey (b\<lparr>exportInfo := x\<rparr>) = journey b" "snapshots (b\<lparr>exportInfo := x\<rparr>) = snapshots b"
    "cardLineage (b\<lparr>exportInfo := x\<rparr>) = cardLineage b" "schema_issues dp (b\<lparr>exportInfo := x\<rparr>) = schema_issues dp b"
    by (simp_all add: schema_issues_def)
  have "head_issues (b\<lparr>exportInfo := x\<rparr>) m = []" if "head_issues b m = []" for m
    using that assms(2) by (auto simp: head_issues_def Let_def split: option.splits export_info.splits)
  then have head: "head_issues (b\<lparr>exportInfo := x\<rparr>) (rounds_by_id (roundRecords (journey b))) = []"
    using assms(1) unfolding validate_blocks Let_def by (elim conjE)
  note blocks = assms(1) [unfolded validate_blocks Let_def]
  show ?thesis
    unfolding validate_blocks Let_def parts by (insert blocks head, elim conjE, intro conjI; assumption)
qed

lemma importable_prepared: "importable dp (prepareInquiryBundleForExport numStr sha b) \<longleftrightarrow> importable dp b"
  unfolding importable_def prepare_fields set_map by (simp only: ball_simps prepared_keeps inquiry_journey.select_convs inquiry_journey.update_convs, simp)

lemma importable_claimed: "importable dp (b\<lparr>exportInfo := x\<rparr>) \<longleftrightarrow> importable dp b"
  by (cases b) (simp only: importable_def inquiry_bundle.select_convs inquiry_bundle.update_convs)

lemma importable_sanitized:
  assumes "importable dp b"
  shows "importable dp (sanitized b)"
proof -
  have fields: "snapshots (sanitized b) = map sanitizeSnapshot (snapshots b)" "journey (sanitized b) = sanitizeJourney (journey b)"
    by (simp_all add: sanitized_def)
  have "strict_errors dp (document_json (snap_document (sanitizeSnapshot s))) = []" if "s \<in> set (snapshots b)" for s
    unfolding sanitizeSnapshot_def round_snapshot.select_convs
    by (rule strict_errors_projected) (use assms that in \<open>auto simp only: importable_def\<close>)
  then show ?thesis
    using assms unfolding importable_def fields sanitizeJourney_keeps set_map ball_simps sanitizeRound_keeps by blast
qed

definition bundle_text :: "(rat \<Rightarrow> string) \<Rightarrow> inquiry_bundle \<Rightarrow> string" where
  "bundle_text numStr b = pretty numStr 0 (bundle_json b) @ [CHR 0x0A]"

definition too_large :: "(rat \<Rightarrow> string) \<Rightarrow> inquiry_bundle \<Rightarrow> bool" where
  "too_large numStr b \<longleftrightarrow> utf8ByteLength (bundle_text numStr b) > INQUIRY_BUNDLE_MAX_BYTES"

lemma serialize_checked:
  assumes "importable dp b" "validateInquiryBundle dp (prepareInquiryBundleForExport numStr sha b) = []"
    and "exportInfo b = None \<or> sanitizeBundleContents (prepareInquiryBundleForExport numStr sha b) = Some (prepareInquiryBundleForExport numStr sha b)"
  shows "serializeInquiryBundle dp numStr sha b =
    (if too_large numStr (prepareInquiryBundleForExport numStr sha b) then Failed [payloadTooLargeError]
     else Done (bundle_text numStr (prepareInquiryBundleForExport numStr sha b), prepareInquiryBundleForExport numStr sha b))"
proof -
  have "validateBundleShape dp (bundle_json (prepareInquiryBundleForExport numStr sha b)) = []"
    unfolding bundle_shape importable_prepared by (rule assms(1))
  moreover have "validateExportClaim numStr (prepareInquiryBundleForExport numStr sha b) = Some []"
    using assms(3)
  proof
    assume "exportInfo b = None"
    then show ?thesis by (simp only: validateExportClaim_def prepare_fields if_True simp_thms)
  qed (simp only: validateExportClaim_def isInquirySafeModeBundle_def option.map simp_thms if_True if_cancel)
  ultimately show ?thesis using assms(2) by (simp add: serializeInquiryBundle_def Let_def too_large_def bundle_text_def)
qed

section \<open>Why sharing fails\<close>

lemma sanitized_valid:
  "validateInquiryBundle dp b = [] \<Longrightarrow> validateInquiryBundle dp (sanitized b) = []"
  unfolding sanitized_def validate_sanitized .

lemma safe_copy_alt:
  "(prepareInquiryBundleForExport numStr sha (sanitized (prepareInquiryBundleForExport numStr sha p)))\<lparr>exportInfo := Some (share_claim sel)\<rparr> =
    safe_copy numStr sha sel p"
  using safe_copy_from_prepared [of numStr sha sel p] unfolding safe_copy_def sanitized_def [symmetric] by simp

text \<open>With a valid, importable bundle the three serialisations check nothing but the sizes.\<close>

lemma share_valid:
  assumes valid: "validateInquiryBundle dp p = []" and imp: "importable dp p" and dig: "digests_ok sha" and none: "exportInfo p = None"
    and heads: "truthy_str sel \<longrightarrow> headRoundIds (journey p) = [the sel] \<and> defaultHeadRoundId (journey p) = Some (the sel)"
    and prep: "prep = prepareInquiryBundleForExport numStr sha"
  shows "deriveInquirySafeModeBundle dp numStr sha p =
      (if too_large numStr (prep p) \<or> too_large numStr (prep (sanitized (prep p))) then Failed [payloadTooLargeError]
       else Done (prep (sanitized (prep p))))"
    "serializeInquiryBundle dp numStr sha (safe_copy numStr sha sel p) =
      (if too_large numStr (safe_copy numStr sha sel p) then Failed [payloadTooLargeError]
       else Done (bundle_text numStr (safe_copy numStr sha sel p), safe_copy numStr sha sel p))"
proof -
  have vp: "validateInquiryBundle dp (prep p) = []" unfolding prep by (rule prepared_valid [OF valid dig])
  have long: "list_all (\<lambda>e. \<not> lineage_short e) (cardLineage p)" by (rule prepared_valid_long [OF vp [unfolded prep]])
  have san: "sanitizeBundleContents (prep p) = Some (sanitized (prep p))"
    using long unfolding prep by (simp add: sanitizeBundleContents_eq sanitized_def)
  have vs: "validateInquiryBundle dp (prep (sanitized (prep p))) = []"
    using prepared_valid [OF sanitized_valid [OF vp] dig, of numStr] by (simp only: prep)
  have ims: "importable dp (sanitized (prep p))" using imp unfolding prep by (intro importable_sanitized) (simp only: importable_prepared)
  have s1: "serializeInquiryBundle dp numStr sha p = (if too_large numStr (prep p) then Failed [payloadTooLargeError]
      else Done (bundle_text numStr (prep p), prep p))"
    unfolding prep by (rule serialize_checked [OF imp vp [unfolded prep]]) (simp add: none)
  have s2: "serializeInquiryBundle dp numStr sha (sanitized (prep p)) = (if too_large numStr (prep (sanitized (prep p)))
      then Failed [payloadTooLargeError] else Done (bundle_text numStr (prep (sanitized (prep p))), prep (sanitized (prep p))))"
    unfolding prep by (rule serialize_checked [OF ims [unfolded prep] vs [unfolded prep]]) (simp add: none sanitized_def)
  show "deriveInquirySafeModeBundle dp numStr sha p =
      (if too_large numStr (prep p) \<or> too_large numStr (prep (sanitized (prep p))) then Failed [payloadTooLargeError]
       else Done (prep (sanitized (prep p))))"
    by (simp add: deriveInquirySafeModeBundle_def s1 s2 san)
  have vc: "validateInquiryBundle dp (safe_copy numStr sha sel p) = []"
    unfolding safe_copy_alt [symmetric]
  proof (rule claimed_valid [OF vs [unfolded prep]])
    fix i assume "Some (share_claim sel) = Some (RoundExport i)"
    then have "truthy_str sel" "the sel = i" by (auto simp: share_claim_def split: if_splits)
    then show "headRoundIds (journey (prepareInquiryBundleForExport numStr sha (sanitized (prepareInquiryBundleForExport numStr sha p)))) = [i] \<and>
        defaultHeadRoundId (journey (prepareInquiryBundleForExport numStr sha (sanitized (prepareInquiryBundleForExport numStr sha p)))) = Some i"
      using heads by (simp add: sanitized_def sanitizeJourney_version)
  qed
  have ic: "importable dp (safe_copy numStr sha sel p)"
    unfolding safe_copy_alt [symmetric] importable_claimed importable_prepared by (rule ims [unfolded prep])
  show "serializeInquiryBundle dp numStr sha (safe_copy numStr sha sel p) =
      (if too_large numStr (safe_copy numStr sha sel p) then Failed [payloadTooLargeError]
       else Done (bundle_text numStr (safe_copy numStr sha sel p), safe_copy numStr sha sel p))"
    using serialize_checked [OF ic, of numStr sha] by (simp only: safe_copy_prepared vc safe_copy_sanitized [OF long] simp_thms)
qed

lemma share_eq:
  assumes "projected_source dp source sel = Inr p"
  shows "prepareInquiryBundleForShare dp numStr sha source sel =
    (case deriveInquirySafeModeBundle dp numStr sha p of Threw \<Rightarrow> Share_threw | Failed errors \<Rightarrow> Serialization_failed errors
     | Done safe \<Rightarrow> (case serializeInquiryBundle dp numStr sha (safe\<lparr>exportInfo := Some (share_claim sel)\<rparr>) of
          Threw \<Rightarrow> Share_threw | Failed errors \<Rightarrow> Serialization_failed errors | Done (txt, b) \<Rightarrow> Shared b txt))"
  unfolding prepareInquiryBundleForShare_def Let_def projected_source_def [symmetric] share_claim_def [symmetric] assms sum.case ..

lemma projection_keeps_claim: "deriveInquiryRoundBundle dp b sel = Inr p \<Longrightarrow> exportInfo p = exportInfo b"
  by (auto simp: deriveInquiryRoundBundle_def Let_def case_prod_beta split: if_splits option.splits)

text \<open>C21. Sharing a valid bundle fails only for stated reasons. If the bundle (without its export claim) is valid, its iterations are safe
  integers, its documents strictly valid and no round has an empty identifier, then sharing succeeds, or the selected round is unknown, or
  a kept hand-off or lineage edge reaches outside the selected scope (the snapshots are named), or a text exceeds 20 MiB. Redaction, the
  recomputed digests and the added claim never make a later check fail.\<close>

theorem share_fails_only_for:
  assumes valid: "validateInquiryBundle dateParse (source\<lparr>exportInfo := None\<rparr>) = []" and imp: "importable dateParse source"
    and dig: "digests_ok sha" and ne: "[] \<notin> roundId ` set (roundRecords (journey source))"
  shows "case prepareInquiryBundleForShare dateParse numStr sha source sel of
      Shared b' txt \<Rightarrow> True
    | Projection_refused e \<Rightarrow> truthy_str sel \<and>
        (case e of RoundNotFound \<Rightarrow> the sel \<notin> roundId ` set (roundRecords (journey source))
         | InvalidBundle issues \<Rightarrow> False
         | DependencyOutsideScope ids \<Rightarrow> ids \<noteq> [] \<and> set ids = outside_scope (source\<lparr>exportInfo := None\<rparr>) (the sel))
    | Serialization_failed errors \<Rightarrow> errors = [payloadTooLargeError]
    | Share_threw \<Rightarrow> False"
proof -
  let ?s = "source\<lparr>exportInfo := None\<rparr>"
  have ne': "[] \<notin> roundId ` set (roundRecords (journey ?s))" using ne by simp
  have none: "exportInfo ?s = None" by simp
  note proj = round_projection_parts [OF valid ne' none, of "the sel"]
  show ?thesis
  proof (cases "projected_source dateParse source sel")
    case (Inl e)
    then have sel: "truthy_str sel" "deriveInquiryRoundBundle dateParse ?s (the sel) = Inl e"
      by (simp_all add: projected_source_def split: if_splits)
    have "prepareInquiryBundleForShare dateParse numStr sha source sel = Projection_refused e" using Inl by (rule iffD2 [OF share_other(2)])
    then show ?thesis using proj sel by (cases e) simp_all
  next
    case (Inr p)
    have p: "validateInquiryBundle dateParse p = []" "importable dateParse p" "exportInfo p = None"
      "truthy_str sel \<longrightarrow> headRoundIds (journey p) = [the sel] \<and> defaultHeadRoundId (journey p) = Some (the sel)"
    proof -
      show "exportInfo p = None" using Inr by (auto simp: projected_source_def dest!: projection_keeps_claim split: if_splits)
      have "validateInquiryBundle dateParse p = [] \<and> importable dateParse p \<and>
          (truthy_str sel \<longrightarrow> headRoundIds (journey p) = [the sel] \<and> defaultHeadRoundId (journey p) = Some (the sel))"
      proof (cases "truthy_str sel")
        case True
        then have d: "deriveInquiryRoundBundle dateParse ?s (the sel) = Inr p" using Inr by (simp add: projected_source_def)
        note f = proj [unfolded d sum.case]
        have "set (roundRecords (journey p)) \<subseteq> set (roundRecords (journey source))" "set (snapshots p) \<subseteq> set (snapshots source)"
          using f by auto
        then have "importable dateParse p" using imp unfolding importable_def by blast
        then show ?thesis using f by blast
      next
        case False
        then have "p = ?s" using Inr by (simp add: projected_source_def)
        then show ?thesis using False valid imp by (simp only: importable_claimed simp_thms)
      qed
      then show "validateInquiryBundle dateParse p = []" "importable dateParse p"
        "truthy_str sel \<longrightarrow> headRoundIds (journey p) = [the sel] \<and> defaultHeadRoundId (journey p) = Some (the sel)" by blast+
    qed
    note steps = share_valid [where numStr = numStr and sel = sel, OF p(1,2) dig p(3,4) refl]
    have derived: "deriveInquirySafeModeBundle dateParse numStr sha p = Failed [payloadTooLargeError] \<or>
        deriveInquirySafeModeBundle dateParse numStr sha p = Done (prepareInquiryBundleForExport numStr sha (sanitized (prepareInquiryBundleForExport numStr sha p)))"
      unfolding steps(1) by simp
    then show ?thesis unfolding share_eq [OF Inr] by (elim disjE) (simp_all add: safe_copy_alt steps(2))
  qed
qed

section \<open>Examples\<close>

text \<open>A number format with its reader (unary numerator and denominator), and a constant digest.\<close>

definition unary_value :: "string \<Rightarrow> js_num option" where
  "unary_value s = (case s of [] \<Rightarrow> None | sign # r \<Rightarrow>
     let n = length (takeWhile (\<lambda>c. c = CHR ''1'') r); t = dropWhile (\<lambda>c. c = CHR ''1'') r
     in case t of [] \<Rightarrow> None | _ # ds \<Rightarrow> Some (Finite (Fract (if sign = CHR ''-'' then - int n else int n) (int (length ds)))))"

lemma unary_routines: "number_routines rat_text unary_value"
proof -
  have "unary_value (rat_text q) = Some (Finite q)" for q
  proof -
    obtain n d where q: "quotient_of q = (n, d)" by fastforce
    then have d: "0 < d" "Fract n d = q" by (metis quotient_of_denom_pos, metis Fract_of_int_quotient quotient_of_div)
    have digits: "takeWhile (\<lambda>c. c = CHR ''1'') (replicate k (CHR ''1'') @ CHR ''.'' # r) = replicate k (CHR ''1'')"
      "dropWhile (\<lambda>c. c = CHR ''1'') (replicate k (CHR ''1'') @ CHR ''.'' # r) = CHR ''.'' # r" for k r
      by (induction k) simp_all
    have "rat_text q = (if n < 0 then CHR ''-'' else CHR ''0'') # replicate (nat \<bar>n\<bar>) (CHR ''1'') @ CHR ''.'' # replicate (nat d) (CHR ''1'')"
      by (simp add: rat_text_def q)
    then have "unary_value (rat_text q) = Some (Finite (Fract (if n < 0 then - int (nat \<bar>n\<bar>) else int (nat \<bar>n\<bar>)) (int (nat d))))"
      unfolding unary_value_def by (simp add: digits Let_def)
    then show ?thesis using d by simp
  qed
  moreover have "number_format rat_text" using number_format_demo by (simp add: demo_engine_def)
  ultimately show ?thesis by (simp add: number_routines_def)
qed

abbreviation ex_sha :: "string \<Rightarrow> string" where
  "ex_sha t \<equiv> replicate 64 (CHR ''a'')"

lemma ex_digests: "digests_ok ex_sha"
proof -
  have "digest_ok (''sha256:'' @ replicate 64 (CHR ''a''))" by code_simp
  then show ?thesis by (simp add: digests_ok_def)
qed

lemma ex_importable: "importable ex_dp ex_bundle"
  unfolding importable_def by (simp add: ex_bundle_def ex_journey_def document_strict)

theorem share_fails_only_for_witness:
  "case prepareInquiryBundleForShare ex_dp rat_text ex_sha ex_bundle None of
     Shared b' txt \<Rightarrow> True | Projection_refused e \<Rightarrow> False | Serialization_failed errors \<Rightarrow> errors = [payloadTooLargeError] | Share_threw \<Rightarrow> False"
proof -
  have "ex_bundle\<lparr>exportInfo := None\<rparr> = ex_bundle" by (simp add: ex_bundle_def)
  then have "validateInquiryBundle ex_dp (ex_bundle\<lparr>exportInfo := None\<rparr>) = []" using ex_bundle_valid by simp
  moreover have "[] \<notin> roundId ` set (roundRecords (journey ex_bundle))" by (simp add: ex_bundle_def ex_journey_def)
  ultimately have "case prepareInquiryBundleForShare ex_dp rat_text ex_sha ex_bundle None of
      Shared b' txt \<Rightarrow> True
    | Projection_refused e \<Rightarrow> truthy_str None \<and>
        (case e of RoundNotFound \<Rightarrow> the None \<notin> roundId ` set (roundRecords (journey ex_bundle))
         | InvalidBundle issues \<Rightarrow> False
         | DependencyOutsideScope ids \<Rightarrow> ids \<noteq> [] \<and> set ids = outside_scope (ex_bundle\<lparr>exportInfo := None\<rparr>) (the None))
    | Serialization_failed errors \<Rightarrow> errors = [payloadTooLargeError]
    | Share_threw \<Rightarrow> False"
    by (intro share_fails_only_for ex_importable ex_digests)
  then show ?thesis by (simp split: share_result.splits)
qed

definition short :: "inquiry_bundle \<Rightarrow> bool" where
  "short b \<longleftrightarrow> length (pretty rat_text 0 (bundle_json b)) < 5000"

lemma short_text:
  assumes "short b"
  shows "\<not> too_large rat_text b"
proof -
  have "utf8ByteLength t \<le> 2 * length t" for t
    by (induction t) (simp_all add: utf8ByteLength_def)
  then have "utf8ByteLength (bundle_text rat_text b) \<le> 2 * length (bundle_text rat_text b)" .
  then show ?thesis using assms by (simp add: too_large_def short_def bundle_text_def INQUIRY_BUNDLE_MAX_BYTES_def)
qed

definition ex_prepared :: "inquiry_bundle \<Rightarrow> inquiry_bundle" where
  "ex_prepared b = b\<lparr>bundle_schemaVersion := INQUIRY_SCHEMA_VERSION,
     journey := (journey b)\<lparr>journey_schemaVersion := INQUIRY_SCHEMA_VERSION\<rparr>,
     snapshots := map (\<lambda>s. s\<lparr>snap_schemaVersion := INQUIRY_SCHEMA_VERSION, canonicalDigest := ''sha256:'' @ replicate 64 (CHR ''a'')\<rparr>) (snapshots b)\<rparr>"

lemma ex_prepare: "prepareInquiryBundleForExport rat_text ex_sha b = ex_prepared b"
  by (simp add: prepareInquiryBundleForExport_def ex_prepared_def prepare_snapshot_def computeRoundSnapshotDigest_def)

lemma ex_short_all:
  "short (ex_prepared ex_bundle) \<and> short (ex_prepared (sanitized (ex_prepared ex_bundle))) \<and>
   short ((ex_prepared (sanitized ex_bundle))\<lparr>exportInfo := Some FullExport\<rparr>)"
  by code_simp

lemma ex_short:
  "\<not> too_large rat_text (prepareInquiryBundleForExport rat_text ex_sha ex_bundle)"
  "\<not> too_large rat_text (prepareInquiryBundleForExport rat_text ex_sha (sanitized (prepareInquiryBundleForExport rat_text ex_sha ex_bundle)))"
  "\<not> too_large rat_text (safe_copy rat_text ex_sha None ex_bundle)"
  using ex_short_all unfolding safe_copy_def ex_prepare sanitized_def [symmetric] by (auto simp: share_claim_def intro!: short_text)

theorem shared_bundle_imports_witness:
  "\<exists>b' txt. prepareInquiryBundleForShare ex_dp rat_text ex_sha ex_bundle None = Shared b' txt \<and>
     parseInquiryBundleJson ex_dp rat_text unary_value ex_sha (\<lambda>_. safe_copy rat_text ex_sha None ex_bundle) txt = Done b' \<and>
     exportInfo b' = Some FullExport"
proof -
  let ?b = "safe_copy rat_text ex_sha None ex_bundle"
  have none: "exportInfo ex_bundle = None" and p: "projected_source ex_dp ex_bundle None = Inr ex_bundle"
    by (simp_all add: ex_bundle_def projected_source_def)
  note steps = share_valid [where numStr = rat_text and sel = None, OF ex_bundle_valid ex_importable ex_digests none _ refl, simplified ex_short]
  have s: "prepareInquiryBundleForShare ex_dp rat_text ex_sha ex_bundle None = Shared ?b (bundle_text rat_text ?b)"
    unfolding share_eq [OF p] using steps by (simp add: safe_copy_alt)
  have "exportInfo ?b = Some FullExport" by (simp add: safe_copy_def share_claim_def)
  then show ?thesis using s shared_bundle_imports [OF unary_routines s refl] by blast
qed

end
