(* ===== verification/Spec2Isabelle.thy ===== *)
theory Spec2Isabelle
  imports Patch_Fix Patch_Summary Patch_Parse Merge_Apply Merge_Decisions Tie_Break Patch_Workspace Inquiry_Trace Tenant_Runtime Oauth_Flow
    Bundle_Exchange
begin

text \<open>
  \<^bold>\<open>Verification of the document core of the kj-atlas front end.\<close>

  kj-atlas is a local-first editor for KJ-method maps: cards on a canvas, islands that group them, edges, evidence links,
  narratives, and the records of review that belong to a document. The paths below are relative to
  \<open>src/03_Implement/frontend/src\<close>. The development models the parts that decide what a document may contain and how it
  changes, and the session layer that keeps the data of tenants apart.

  \<^bold>\<open>How the parts interact.\<close> A document enters through the import (\<open>domain/validate.ts\<close>), which repairs what it can, or, inside
  an inquiry bundle, through the strict reading (\<open>domain/validate_doc.ts\<close>), which repairs nothing. It is changed by
  patches: a patch is parsed, linted, perhaps fixed, compared with a baseline for conflicts and applied with the user's
  resolutions, and each application is logged (\<open>domain/patch\<close>). Two versions are compared and merged item by item through the
  same patches (\<open>diff\<close>). Cards are merged by canonicalisation or by a recorded decision about a suggestion
  (\<open>domain/canonical_ops.ts\<close>, \<open>domain/representative_merge.ts\<close>, \<open>domain/merge_suggestion_*.ts\<close>). Rounds of an inquiry take snapshots
  of the document and the lineage of its cards (\<open>domain/inquiry_journey*.ts\<close>); the resulting bundle is projected, redacted, written and
  read by \<open>domain/inquiry_bundle_*.ts\<close>. Around all this, the session layer
  (\<open>session\<close>, \<open>api/session_context.ts\<close>, \<open>storage/tenant_scope.ts\<close>) establishes who is signed in for which tenant, under which
  storage prefix, and drops results that belong to an earlier session.

  \<^bold>\<open>The theories, the code they model and what they show.\<close>

  \<^descr> \<open>JS_Prelude\<close>, \<open>JS_Text\<close>, \<open>JS_Strings\<close>, \<open>JS_Date\<close>, \<open>Json_Value\<close>: what the code uses of the language. Optional properties
    (\<open>nullish\<close>, \<open>truthy_str\<close>), \<open>Set\<close> and \<open>Map\<close> in insertion order (\<open>uniq\<close>, \<open>new_map\<close>), stable sorting (locale \<open>comparator\<close> and its
    uses), \<open>trim\<close>, \<open>Object.keys\<close> order (\<open>own_keys\<close>), \<open>toISOString\<close>, parsed values with \<open>stableSerialize\<close>
    (\<open>utils/stable_serialize.ts\<close>) and its injectivity, the hash of \<open>utils/fnv1a_hash.ts\<close> on 32-bit words.
  \<^descr> \<open>Document_Model\<close>, \<open>Document_Json\<close>, \<open>Keyed_Store\<close>: the types of \<open>domain/types.ts\<close> as records, their object form, and the
    lists that are read and written by key, as a locale that the collections of a document interpret.
  \<^descr> \<open>Patch_Core\<close>, \<open>Patch_Parse\<close>, \<open>Patch_Lint\<close>, \<open>Patch_Fix\<close>, \<open>Patch_Summary\<close>: \<open>domain/patch\<close>. Applying a patch is a three-way merge
    on each entity and touches nothing else, conflict detection is exact, an unblocked patch leaves no dangling
    reference, the fixes repair a patch, parsing is a round trip except for the contradiction state of links, summaries in safe mode do not depend on the texts.
  \<^descr> \<open>Safe_Mode\<close>: \<open>domain/policy\<close>, redaction and visibility.
  \<^descr> \<open>Document_Diff\<close>, \<open>Merge_Items\<close>, \<open>Merge_Apply\<close>: \<open>domain/diff/doc_diff.ts\<close> and \<open>diff\<close>. The incremental computation of merge
    items agrees with the direct one; a merge that succeeds was conflict-free, passed the lint and the schema, took the
    incoming value of each selected item (the reading order too, exactly when selected) and kept the rest.
  \<^descr> \<open>Canonical_Ops\<close>, \<open>Representative_Merge\<close>, \<open>Merge_Decisions\<close>, \<open>Tie_Break\<close>: merging cards. What a merge does to cards, islands,
    edges and lineage, which decision can be recorded and that it is applied at most once, that the tie break has one winner.
  \<^descr> \<open>Polygon_Edit\<close>: \<open>domain/geometry/polygon_edit.ts\<close> and its self-intersection test; edits keep an outline usable.
  \<^descr> \<open>Hil_Contract\<close>: \<open>domain/hil_rs_contract.ts\<close>; an accepted re-proposal names none of the six protected review fields at any depth
    (the review flags of islands are not among them).
  \<^descr> \<open>Import_Document\<close>, \<open>Import_Roundtrip\<close>: \<open>domain/validate.ts\<close>. An accepted document has a forest of islands, distinct links,
    a consistent shelf and usable outlines; importing the whole imported document again, as it is saved, gives the same document.
  \<^descr> \<open>Strict_Document\<close>: \<open>domain/validate_doc.ts\<close>. Strict acceptance implies an import that keeps every entry (only parent
    references of islands outside a forest can go) and the length limits; the membership advice is exact.
  \<^descr> \<open>Patch_Workspace\<close>, \<open>Transitions\<close>: \<open>domain/patch/workspace/ce3_patch_workspace.ts\<close> as a state machine (a locale of
    transition systems with invariants by rule induction): decisions, rollback and audit log agree in every reachable state.
  \<^descr> \<open>Inquiry_Journey\<close>, \<open>Inquiry_Validate\<close>, \<open>Inquiry_Session\<close>, \<open>Inquiry_Trace\<close>: \<open>domain/inquiry_journey.ts\<close> and
    \<open>domain/inquiry_journey_session.ts\<close>. The bundle validator is exact, sessions only hold valid bundles, tracing a card ends
    and finds exactly its ancestors, each once and never the card itself.
  \<^descr> \<open>Document_Write\<close>, \<open>Safe_Mode_Document\<close>, \<open>Safe_Mode_Bundle\<close>, \<open>Safe_Mode_Strict\<close>: \<open>domain/inquiry_bundle_safe_mode.ts\<close>. The sanitizers keep
    exactly what the declared policy tables keep (outside three field groups, listed as divergences), the projection is idempotent,
    the validator does not see it, and a strictly valid document stays strictly valid.
  \<^descr> \<open>Bundle_Projection\<close>: \<open>domain/inquiry_bundle_projection.ts\<close>. The bundle of one round keeps exactly what arrives at its snapshots, is valid,
    and is refused only for stated reasons.
  \<^descr> \<open>Json_Text\<close>, \<open>Bundle_Exchange\<close>: \<open>JSON.parse\<close> and \<open>JSON.stringify\<close> with their round trip; \<open>domain/inquiry_bundle_io.ts\<close> and
    \<open>domain/inquiry_bundle_share.ts\<close>. What is shared is a SafeMode copy, whoever receives it can import it, and sharing a valid
    bundle fails only for an unknown round, a dependency outside the scope or the size.
  \<^descr> \<open>Patch_Fingerprint\<close>: \<open>domain/patch/patch_fingerprint.ts\<close> and \<open>domain/patch/patch_generate.ts\<close>. An exported patch verifies after it
    has been read back.
  \<^descr> \<open>Tenant_Scope\<close>, \<open>Tenant_Session\<close>, \<open>Tenant_Runtime\<close>, \<open>Oauth_Flow\<close>: \<open>storage/tenant_scope.ts\<close>, \<open>api/session_*.ts\<close> and \<open>session\<close>.
    Keys of different scopes never meet, a switch happens exactly under its conditions and completes even when cleanup, the storage or
    a callback throws (only an exception of replacing the document itself escapes), no result crosses a session boundary, only a
    genuine callback signs in.

  \<^bold>\<open>State, errors and loops.\<close> Records carry the fields of the source's types, \<open>option\<close> an optional property. A throw, a rejection or an
  error result is a value of a sum or an option. Stateful modules (workspace, session boundary, generation guard, browser storage) are
  state records with one function per handler, and reachability over any sequence of calls. Loops are structural recursion or
  \<open>fun\<close> with a measure: the walks over parents, rounds and lineage visit each node at most once (\<open>parent_walk\<close>, \<open>collect_loop\<close>,
  \<open>trace_loop\<close>). Fuel is used twice: in \<open>visit\<close> of \<open>Inquiry_Validate\<close>, the number of rounds plus one (\<open>visit_total\<close> shows that it is
  never used up), and in the JSON parser of \<open>Json_Text\<close>, twice the length of the text plus one (\<open>parse_needs_no_more_fuel\<close> shows that
  more fuel gives the same answer).

  \<^bold>\<open>Arguments of the model.\<close> What the code leaves to the engine or to another party is an argument: the order of
  \<open>localeCompare\<close>, the text of a number and its reading, \<open>Date.parse\<close>, the cast of a checked JSON value to a bundle, the clock, random identifiers, SHA-256 and random bytes, the answers of
  requests and the outcomes of callbacks. Theorems that need something of them say so as a hypothesis, and their witnesses
  give a concrete instance.

  \<^bold>\<open>Where the model simplifies.\<close> Strings are lists of characters U+0000 to U+00FF. Finite numbers are exact rationals, so the
  rounding of floating point is not visible, and the length of a text is its number of characters. Objects are plain and have no
  inherited keys; entities of a patch have no own properties that are \<open>undefined\<close>, except where the parser makes them. Candidate
  ids are not names of \<open>Object.prototype\<close>. The depth of the call stack is not limited.

  \<^bold>\<open>Not modelled.\<close> The React components (\<open>App.tsx\<close>, \<open>ui\<close>, \<open>canvas\<close>): rendering and event wiring. \<open>api/client.ts\<close>, \<open>worker\<close>,
  \<open>export\<close>, \<open>import\<close> and the display settings under \<open>storage\<close>: input and output through browser interfaces. The views under
  \<open>domain/view\<close>: derived displays. The other geometry: outlines in floating point. The review service clients: stubs of a
  service outside the repository. The small editing operations of the canvas that no theory above models. The Python back end is another program.
\<close>

end
